(* ===== verification/Prelude.thy ===== *)
theory Prelude
  imports Main "HOL-Library.AList" "HOL-Library.Multiset" "HOL-Library.Word"
begin

text \<open>
  Shared vocabulary of the development.

  \<^item> Machine integers: \<open>u64\<close> is Go's \<open>uint64\<close> (chain selectors, sequence numbers), with
    wrap-around. Go's \<open>int\<close> is HOL's \<^typ>\<open>int\<close> and every operation that can overflow passes its
    result through \<open>s64\<close> (conversion to \<open>int\<close>) or \<open>u64i\<close> (conversion to \<open>uint\<close>).
  \<^item> Results: a Go function that returns \<open>(T, error)\<close> or that can panic has the result type
    \<open>T result\<close>; a nil error is \<open>Ok\<close>, a non-nil error \<open>Error\<close>, and an index out of range
    or a nil dereference \<open>Panic\<close>.
  \<^item> Maps: a Go map is an association list with distinct keys. The order of the list is the
    order in which \<open>range\<close> visits the map, which Go leaves open: a theorem about a definition
    that ranges over a map holds for every order, and the determinism theorems say that the
    order does not show in the result.
\<close>

section \<open>Collections of facts\<close>

named_theorems go_simps \<open>rewrite rules for the result type and for Go maps\<close>
named_theorems det_intros \<open>introduction rules for independence of the iteration order\<close>

section \<open>Machine integers\<close>

type_synonym u64 = "64 word"
type_synonym byte = "8 word"

definition u64i :: "int \<Rightarrow> int" where
  "u64i x = x mod 2 ^ 64"

definition s64 :: "int \<Rightarrow> int" where
  "s64 x = (x + 2 ^ 63) mod 2 ^ 64 - 2 ^ 63"

lemma u64i_id: "0 \<le> x \<Longrightarrow> x < 2 ^ 64 \<Longrightarrow> u64i x = x"
  by (simp add: u64i_def)

lemma s64_id: "- (2 ^ 63) \<le> x \<Longrightarrow> x < 2 ^ 63 \<Longrightarrow> s64 x = x"
  by (simp add: s64_def)

lemma u64i_range: "0 \<le> u64i x \<and> u64i x < 2 ^ 64"
  by (simp add: u64i_def)

lemma s64_range: "- (2 ^ 63) \<le> s64 x \<and> s64 x < 2 ^ 63"
proof -
  have "0 \<le> (x + 2 ^ 63) mod 2 ^ 64" "(x + 2 ^ 63) mod 2 ^ 64 < (2 :: int) ^ 64"
    by simp_all
  then show ?thesis by (simp add: s64_def)
qed

text \<open>\<open>math/big\<close>'s \<open>Div\<close>: Euclidean division. It panics on a zero divisor, which the callers of the
  model rule out or write out.\<close>

definition big_div :: "int \<Rightarrow> int \<Rightarrow> int" where
  "big_div x y = (if 0 \<le> y then x div y else - (x div (- y)))"

section \<open>Errors and results\<close>

text \<open>\<open>Err\<close> is \<open>errors.New\<close>/\<open>fmt.Errorf\<close>, \<open>Wrap\<close> is \<open>fmt.Errorf\<close> with the \<open>%w\<close> verb.
  The sentinels the code tests for with \<open>errors.Is\<close> have constructors of their own: three of
  internal/plugincommon/validations.go, and those of execute/report/errors.go, execute/observation.go and
  execute/plugin.go.\<close>

datatype error =
    Err string
  | Wrap string error
  | ErrStaleReport string
  | ErrInvalidReport string
  | ErrReportValidation error
  | ErrEmptyReport
  | ErrOffRampConfigMismatch
  | ErrAlreadyExecuted

datatype 'a result = Ok 'a | Error error | Panic

fun rbind :: "'a result \<Rightarrow> ('a \<Rightarrow> 'b result) \<Rightarrow> 'b result" where
  "rbind (Ok x) f = f x"
| "rbind (Error e) f = Error e"
| "rbind Panic f = Panic"

lemma rbind_Ok_iff [go_simps]: "rbind m f = Ok y \<longleftrightarrow> (\<exists>x. m = Ok x \<and> f x = Ok y)"
  by (cases m) auto

lemma rbind_Error_iff [go_simps]:
  "rbind m f = Error e \<longleftrightarrow> m = Error e \<or> (\<exists>x. m = Ok x \<and> f x = Error e)"
  by (cases m) auto

lemma rbind_Panic_iff [go_simps]: "rbind m f = Panic \<longleftrightarrow> m = Panic \<or> (\<exists>x. m = Ok x \<and> f x = Panic)"
  by (cases m) auto

lemma rbind_assoc: "rbind (rbind m f) g = rbind m (\<lambda>x. rbind (f x) g)"
  by (cases m) auto

fun ret_ok :: "'a result \<Rightarrow> bool" where
  "ret_ok (Ok _) = True"
| "ret_ok _ = False"

text \<open>A slice read: \<open>xs[i]\<close> with a Go \<open>int\<close> (or \<open>uint\<close>) index.\<close>

definition slice_get :: "'a list \<Rightarrow> int \<Rightarrow> 'a result" where
  "slice_get xs i = (if 0 \<le> i \<and> i < int (length xs) then Ok (xs ! nat i) else Panic)"

lemma slice_get_in: "0 \<le> i \<Longrightarrow> i < int (length xs) \<Longrightarrow> slice_get xs i = Ok (xs ! nat i)"
  by (simp add: slice_get_def)

text \<open>A loop that returns at the first element whose check fails.\<close>

fun check_all :: "('a \<Rightarrow> unit result) \<Rightarrow> 'a list \<Rightarrow> unit result" where
  "check_all f [] = Ok ()"
| "check_all f (x # xs) = rbind (f x) (\<lambda>_. check_all f xs)"

lemma check_all_Ok_iff [go_simps]: "check_all f xs = Ok () \<longleftrightarrow> (\<forall>x \<in> set xs. f x = Ok ())"
  by (induction xs) (auto simp: rbind_Ok_iff)

lemma check_all_no_panic: "(\<And>x. x \<in> set xs \<Longrightarrow> f x \<noteq> Panic) \<Longrightarrow> check_all f xs \<noteq> Panic"
  by (induction xs) (auto simp: rbind_Panic_iff)

lemma check_all_Error: "check_all f xs = Error e \<Longrightarrow> \<exists>x \<in> set xs. f x = Error e"
  by (induction xs) (auto simp: rbind_Error_iff)

definition check_that :: "bool \<Rightarrow> error \<Rightarrow> unit result" where
  "check_that b e = (if b then Ok () else Error e)"

lemma check_that_Ok_iff [simp, go_simps]: "check_that b e = Ok () \<longleftrightarrow> b"
  by (simp add: check_that_def)

lemma check_that_not_Panic [simp, go_simps]: "check_that b e \<noteq> Panic"
  by (simp add: check_that_def)

text \<open>\<open>fmt.Errorf("...: %w", err)\<close> around the error of a call.\<close>

fun wrap_err :: "string \<Rightarrow> 'a result \<Rightarrow> 'a result" where
  "wrap_err s (Error e) = Error (Wrap s e)"
| "wrap_err s r = r"

lemma wrap_err_Ok_iff [simp, go_simps]: "wrap_err s r = Ok x \<longleftrightarrow> r = Ok x"
  by (cases r) auto

lemma wrap_err_Panic_iff [simp, go_simps]: "wrap_err s r = Panic \<longleftrightarrow> r = Panic"
  by (cases r) auto

section \<open>Go maps\<close>

type_synonym ('k, 'v) gomap = "('k \<times> 'v) list"

definition gm_ok :: "('k, 'v) gomap \<Rightarrow> bool" where
  "gm_ok m \<longleftrightarrow> distinct (map fst m)"

text \<open>\<open>m[k] = v\<close>, \<open>delete(m, k)\<close>, and the read of a slice-valued map (nil when absent).\<close>

abbreviation gm_put :: "'k \<Rightarrow> 'v \<Rightarrow> ('k, 'v) gomap \<Rightarrow> ('k, 'v) gomap" where
  "gm_put \<equiv> AList.update"

abbreviation gm_del :: "'k \<Rightarrow> ('k, 'v) gomap \<Rightarrow> ('k, 'v) gomap" where
  "gm_del \<equiv> AList.delete"

definition gm_vals :: "('k, 'v list) gomap \<Rightarrow> 'k \<Rightarrow> 'v list" where
  "gm_vals m k = (case map_of m k of None \<Rightarrow> [] | Some vs \<Rightarrow> vs)"

text \<open>\<open>m[k] = append(m[k], v)\<close>.\<close>

definition gm_append :: "'k \<Rightarrow> 'v \<Rightarrow> ('k, 'v list) gomap \<Rightarrow> ('k, 'v list) gomap" where
  "gm_append k v m = gm_put k (gm_vals m k @ [v]) m"

definition group_append :: "('k \<times> 'v) list \<Rightarrow> ('k, 'v list) gomap \<Rightarrow> ('k, 'v list) gomap" where
  "group_append kvs m = fold (\<lambda>(k, v). gm_append k v) kvs m"

text \<open>The interface the clients of a Go map rely on: reading after a write, and writes keep the
  keys distinct.\<close>

locale go_map =
  fixes get :: "'m \<Rightarrow> 'k \<Rightarrow> 'v option"
    and put :: "'k \<Rightarrow> 'v \<Rightarrow> 'm \<Rightarrow> 'm"
    and ok :: "'m \<Rightarrow> bool"
  assumes get_put: "get (put k v m) k' = (if k' = k then Some v else get m k')"
    and ok_put: "ok m \<Longrightarrow> ok (put k v m)"
begin

lemma ok_fold_put: "ok m \<Longrightarrow> ok (fold (\<lambda>x. put (f x) (g x)) xs m)"
  by (induction xs arbitrary: m) (auto simp: ok_put)

lemma get_fold_put_notin:
  "k \<notin> f ` set xs \<Longrightarrow> get (fold (\<lambda>x. put (f x) (g x)) xs m) k = get m k"
  by (induction xs arbitrary: m) (auto simp: get_put)

lemma get_fold_put:
  assumes "distinct (map f xs)" and "x \<in> set xs"
  shows "get (fold (\<lambda>x. put (f x) (g x)) xs m) (f x) = Some (g x)"
  using assms
proof (induction xs arbitrary: m)
  case (Cons y ys)
  show ?case
  proof (cases "x = y")
    case True
    with Cons.prems have "f x \<notin> f ` set ys" by auto
    with True show ?thesis by (simp add: get_fold_put_notin get_put)
  next
    case False
    with Cons show ?thesis by auto
  qed
qed simp

end

locale go_multimap = go_map get put ok
  for get :: "'m \<Rightarrow> 'k \<Rightarrow> 'a list option" and put and ok
begin

lemma ok_fold_append:
  "ok m \<Longrightarrow> ok (fold (\<lambda>(k, v) m. put k ((case get m k of None \<Rightarrow> [] | Some vs \<Rightarrow> vs) @ [v]) m) kvs m)"
  by (induction kvs arbitrary: m) (auto simp: ok_put)

lemma get_fold_append:
  "(case get (fold (\<lambda>(k, v) m. put k ((case get m k of None \<Rightarrow> [] | Some vs \<Rightarrow> vs) @ [v]) m) kvs m) k
     of None \<Rightarrow> [] | Some vs \<Rightarrow> vs)
   = (case get m k of None \<Rightarrow> [] | Some vs \<Rightarrow> vs) @ map snd (filter (\<lambda>p. fst p = k) kvs)"
  by (induction kvs arbitrary: m) (auto simp: get_put split: option.splits)

lemma get_fold_append_None:
  "get (fold (\<lambda>(k, v) m. put k ((case get m k of None \<Rightarrow> [] | Some vs \<Rightarrow> vs) @ [v]) m) kvs m) k = None
   \<longleftrightarrow> get m k = None \<and> k \<notin> fst ` set kvs"
  by (induction kvs arbitrary: m) (auto simp: get_put split: option.splits if_splits)

end

interpretation gm: go_map map_of gm_put gm_ok
  by unfold_locales (auto simp: update_conv' gm_ok_def distinct_update)

interpretation gmm: go_multimap map_of gm_put gm_ok
  by unfold_locales

lemma gm_ok_Nil [simp]: "gm_ok []"
  by (simp add: gm_ok_def)

lemma gm_get_iff: "gm_ok m \<Longrightarrow> map_of m k = Some v \<longleftrightarrow> (k, v) \<in> set m"
  by (simp add: gm_ok_def)

lemma gm_keys_put [go_simps]: "fst ` set (gm_put k v m) = insert k (fst ` set m)"
  by (simp add: update_conv' flip: dom_map_of_conv_image_fst)

lemma group_append_fold:
  "group_append kvs m = fold (\<lambda>(k, v) m. gm_put k ((case map_of m k of None \<Rightarrow> [] | Some vs \<Rightarrow> vs) @ [v]) m) kvs m"
  unfolding group_append_def gm_append_def gm_vals_def by (simp add: case_prod_unfold)

lemma gm_ok_group_append: "gm_ok m \<Longrightarrow> gm_ok (group_append kvs m)"
  unfolding group_append_fold by (rule gmm.ok_fold_append)

lemma gm_vals_group_append:
  "gm_vals (group_append kvs m) k = gm_vals m k @ map snd (filter (\<lambda>p. fst p = k) kvs)"
  unfolding group_append_fold gm_vals_def by (rule gmm.get_fold_append)

lemma map_of_group_append:
  "map_of (group_append kvs []) k =
     (if k \<in> fst ` set kvs then Some (map snd (filter (\<lambda>p. fst p = k) kvs)) else None)"
proof -
  have "map_of (group_append kvs []) k = None \<longleftrightarrow> k \<notin> fst ` set kvs"
    unfolding group_append_fold by (simp add: gmm.get_fold_append_None)
  moreover have "gm_vals (group_append kvs []) k = map snd (filter (\<lambda>p. fst p = k) kvs)"
    by (simp add: gm_vals_group_append gm_vals_def [of "[]"])
  ultimately show ?thesis
    unfolding gm_vals_def by (auto split: option.splits)
qed

lemma group_append_append: "group_append (xs @ ys) m = group_append ys (group_append xs m)"
  by (simp add: group_append_def)

text \<open>\<open>result := make(map); for k, v := range m { ... result[k] = y }\<close>: a loop that writes at most
  the key it visits.\<close>

definition gm_collect :: "('k \<Rightarrow> 'v \<Rightarrow> 'w option) \<Rightarrow> ('k, 'v) gomap \<Rightarrow> ('k, 'w) gomap" where
  "gm_collect f m = fold (\<lambda>(k, v) c. case f k v of None \<Rightarrow> c | Some y \<Rightarrow> gm_put k y c) m []"

lemma gm_collect_get_aux:
  assumes "gm_ok m" and "\<And>k. k \<in> fst ` set m \<Longrightarrow> map_of c k = None"
  shows "map_of (fold (\<lambda>(k, v) c. case f k v of None \<Rightarrow> c | Some y \<Rightarrow> gm_put k y c) m c) k
     = (case map_of m k of None \<Rightarrow> map_of c k | Some v \<Rightarrow> f k v)"
  using assms
proof (induction m arbitrary: c)
  case (Cons p m)
  obtain a b where p: "p = (a, b)" by (cases p)
  let ?c = "case f a b of None \<Rightarrow> c | Some y \<Rightarrow> gm_put a y c"
  have a: "a \<notin> fst ` set m" and ok: "gm_ok m" using Cons.prems(1) by (auto simp: p gm_ok_def)
  have c: "map_of ?c k = (if k = a then f a b else map_of c k)" for k
    using Cons.prems(2) [of a] by (auto simp: p update_conv' split: option.splits)
  have "map_of ?c k = None" if "k \<in> fst ` set m" for k
    using that a Cons.prems(2) [of k] by (auto simp: c p)
  note IH = Cons.IH [OF ok this]
  have "map_of m a = None" using a by (simp add: map_of_eq_None_iff)
  then show ?case by (simp add: p IH c split: option.splits)
qed simp

lemma map_of_gm_collect:
  "gm_ok m \<Longrightarrow> map_of (gm_collect f m) k = (case map_of m k of None \<Rightarrow> None | Some v \<Rightarrow> f k v)"
  unfolding gm_collect_def by (subst gm_collect_get_aux) (auto split: option.splits)

lemma gm_ok_gm_collect [simp]: "gm_ok (gm_collect f m)"
proof -
  have "gm_ok c \<Longrightarrow> gm_ok (fold (\<lambda>(k, v) c. case f k v of None \<Rightarrow> c | Some y \<Rightarrow> gm_put k y c) m c)" for c
    by (induction m arbitrary: c) (auto simp: gm.ok_put split: option.splits)
  then show ?thesis by (simp add: gm_collect_def)
qed

lemma gm_collect_cong:
  assumes "gm_ok m" "gm_ok m'" "map_of m = map_of m'"
  shows "map_of (gm_collect f m) = map_of (gm_collect f m')"
  using assms by (auto simp: map_of_gm_collect)

text \<open>The same loop where the body can panic.\<close>

definition gm_collect_r ::
  "('k \<Rightarrow> 'v \<Rightarrow> 'w option result) \<Rightarrow> ('k, 'v) gomap \<Rightarrow> ('k, 'w) gomap result" where
  "gm_collect_r f m =
     fold (\<lambda>(k, v) r. rbind r (\<lambda>c. rbind (f k v) (\<lambda>o1. Ok (case o1 of None \<Rightarrow> c | Some y \<Rightarrow> gm_put k y c)))) m (Ok [])"

lemma gm_collect_r_fold_fail:
  "fold (\<lambda>(k, v) r. rbind r (\<lambda>c. rbind (f k v) (\<lambda>o1. Ok (case o1 of None \<Rightarrow> c | Some y \<Rightarrow> gm_put k y c)))) m Panic = Panic"
  by (induction m) auto

lemma gm_collect_r_fold_Ok:
  assumes "\<And>k v. (k, v) \<in> set m \<Longrightarrow> f k v = Ok (g k v)"
  shows "fold (\<lambda>(k, v) r. rbind r (\<lambda>c. rbind (f k v) (\<lambda>o1. Ok (case o1 of None \<Rightarrow> c | Some y \<Rightarrow> gm_put k y c)))) m (Ok c)
    = Ok (fold (\<lambda>(k, v) c. case g k v of None \<Rightarrow> c | Some y \<Rightarrow> gm_put k y c) m c)"
  using assms by (induction m arbitrary: c) auto

lemma gm_collect_r_Ok:
  "(\<And>k v. (k, v) \<in> set m \<Longrightarrow> f k v = Ok (g k v)) \<Longrightarrow> gm_collect_r f m = Ok (gm_collect g m)"
  unfolding gm_collect_r_def gm_collect_def by (rule gm_collect_r_fold_Ok)

lemma gm_collect_r_Panic:
  assumes "(k, v) \<in> set m" and "f k v = Panic" and "\<And>k v e. (k, v) \<in> set m \<Longrightarrow> f k v \<noteq> Error e"
  shows "gm_collect_r f m = Panic"
proof -
  have "fold (\<lambda>(k, v) r. rbind r (\<lambda>c. rbind (f k v) (\<lambda>o1. Ok (case o1 of None \<Rightarrow> c | Some y \<Rightarrow> gm_put k y c)))) m (Ok c) = Panic" for c
    using assms
  proof (induction m arbitrary: c)
    case (Cons p m)
    obtain a b where p: "p = (a, b)" by (cases p)
    show ?case
    proof (cases "f a b")
      case (Ok y)
      with Cons.prems p have "(k, v) \<in> set m" by auto
      with Cons Ok p show ?thesis by simp
    next
      case (Error e)
      with Cons.prems(3) [of a b e] p show ?thesis by simp
    next
      case Panic
      with p show ?thesis by (simp add: gm_collect_r_fold_fail)
    qed
  qed simp
  then show ?thesis by (simp add: gm_collect_r_def)
qed

text \<open>When no body reports an error, the loop either panics or collects.\<close>

lemma gm_collect_r_cases:
  assumes "\<And>k v e. (k, v) \<in> set m \<Longrightarrow> f k v \<noteq> Error e"
  shows "gm_collect_r f m =
    (if \<forall>(k, v) \<in> set m. f k v \<noteq> Panic
     then Ok (gm_collect (\<lambda>k v. case f k v of Ok o1 \<Rightarrow> o1 | _ \<Rightarrow> None) m) else Panic)"
proof (cases "\<forall>(k, v) \<in> set m. f k v \<noteq> Panic")
  case True
  have "gm_collect_r f m = Ok (gm_collect (\<lambda>k v. case f k v of Ok o1 \<Rightarrow> o1 | _ \<Rightarrow> None) m)"
  proof (rule gm_collect_r_Ok)
    fix k v assume "(k, v) \<in> set m"
    with True assms show "f k v = Ok (case f k v of Ok o1 \<Rightarrow> o1 | _ \<Rightarrow> None)"
      by (cases "f k v") auto
  qed
  with True show ?thesis by auto
next
  case False
  then obtain k v where "(k, v) \<in> set m" "f k v = Panic" by auto
  from gm_collect_r_Panic [of k v m f, OF this assms] False show ?thesis by auto
qed

section \<open>Equality up to the iteration order\<close>

definition gm_eq :: "('k, 'v) gomap \<Rightarrow> ('k, 'v) gomap \<Rightarrow> bool" where
  "gm_eq m m' \<longleftrightarrow> gm_ok m \<and> gm_ok m' \<and> map_of m = map_of m'"

lemma gm_eq_refl [det_intros]: "gm_ok m \<Longrightarrow> gm_eq m m"
  by (simp add: gm_eq_def)

lemma gm_eq_mset: "gm_eq m m' \<Longrightarrow> mset m = mset m'"
proof -
  assume eq: "gm_eq m m'"
  then have "set m = set m'"
    unfolding gm_eq_def gm_ok_def using map_of_inject_set by blast
  moreover have "distinct m" "distinct m'"
    using eq by (auto simp: gm_eq_def gm_ok_def distinct_map)
  ultimately show ?thesis by (simp add: set_eq_iff_mset_eq_distinct)
qed

lemma gm_eq_iff_mset: "gm_eq m m' \<longleftrightarrow> gm_ok m \<and> mset m = mset m'"
proof
  assume ok: "gm_ok m \<and> mset m = mset m'"
  moreover from this have "mset (map fst m) = mset (map fst m')" by simp
  then have "distinct (map fst m) = distinct (map fst m')"
    by (rule mset_eq_imp_distinct_iff)
  ultimately have "gm_ok m'" by (simp add: gm_ok_def)
  moreover from this ok have "map_of m = map_of m'"
    unfolding gm_ok_def using map_of_inject_set mset_eq_setD by blast
  ultimately show "gm_eq m m'" using ok by (simp add: gm_eq_def)
qed (auto simp: gm_eq_mset, simp add: gm_eq_def)

lemma gm_eq_length: "gm_eq m m' \<Longrightarrow> length m = length m'"
  by (drule gm_eq_mset, drule mset_eq_length)

lemma gm_eq_collect [det_intros]: "gm_eq m m' \<Longrightarrow> gm_eq (gm_collect f m) (gm_collect f m')"
  by (simp add: gm_eq_def gm_collect_cong)

text \<open>\<open>sort.Slice\<close> by a key. Go's sort is not stable; on distinct keys every sort gives the same list,
  so a stable sort stands for it.\<close>

lemma sort_key_unique:
  assumes "mset xs = mset ys" and "distinct (map f xs)"
  shows "sort_key f xs = sort_key f ys"
proof -
  have "inj_on f (set xs)" using assms(2) by (simp add: distinct_map)
  then show ?thesis
    using assms(1) by (intro sort_key_inj_key_eq) simp_all
qed

lemma sort_key_any_sort:
  assumes "mset ys = mset xs" and "sorted (map f ys)" and "distinct (map f xs)"
  shows "ys = sort_key f xs"
  using assms by (metis sort_key_inj_key_eq distinct_map)

lemma gm_eq_sort_key: "gm_eq m m' \<Longrightarrow> sort_key fst m = sort_key fst m'"
  by (rule sort_key_unique) (auto simp: gm_eq_mset, simp add: gm_eq_def gm_ok_def)

lemma gm_eq_set: "gm_eq m m' \<Longrightarrow> set m' = set m"
  by (drule gm_eq_mset, drule mset_eq_setD) simp

lemma gm_eq_collect_r [det_intros]:
  assumes "gm_eq m m'" and "\<And>k v e. (k, v) \<in> set m \<Longrightarrow> f k v \<noteq> Error e"
  shows "rel_result gm_eq (gm_collect_r f m) (gm_collect_r f m')"
proof -
  have set: "set m' = set m" using assms(1) by (rule gm_eq_set)
  have "\<And>k v e. (k, v) \<in> set m' \<Longrightarrow> f k v \<noteq> Error e" using assms(2) by (simp add: set)
  note c' = gm_collect_r_cases [where m = m' and f = f, OF this]
  note c = gm_collect_r_cases [where m = m and f = f, OF assms(2)]
  have "gm_eq (gm_collect g m) (gm_collect g m')" for g :: "'a \<Rightarrow> 'b \<Rightarrow> 'c option"
    using assms(1) by (rule gm_eq_collect)
  then show ?thesis
    by (subst c, simp, subst c', simp add: set) (simp add: set)
qed

text \<open>Equality of two maps of observations up to the order of the keys and of the observations of each
  key.\<close>

definition gmm_eq :: "('k, 'v list) gomap \<Rightarrow> ('k, 'v list) gomap \<Rightarrow> bool" where
  "gmm_eq m m' \<longleftrightarrow> gm_ok m \<and> gm_ok m' \<and>
     (\<forall>k. rel_option (\<lambda>xs ys. mset xs = mset ys) (map_of m k) (map_of m' k))"

lemma gmm_eq_gm_eq: "gm_eq m m' \<Longrightarrow> gmm_eq m m'"
  by (simp add: gm_eq_def gmm_eq_def option.rel_refl)

lemma gmm_eq_collect:
  assumes "gmm_eq m m'" and "\<And>k xs ys. (k, xs) \<in> set m \<Longrightarrow> mset xs = mset ys \<Longrightarrow> f k xs = f k ys"
  shows "gm_eq (gm_collect f m) (gm_collect f m')"
proof -
  have "map_of (gm_collect f m) k = map_of (gm_collect f m') k" for k
  proof -
    have "rel_option (\<lambda>xs ys. mset xs = mset ys) (map_of m k) (map_of m' k)"
      using assms(1) by (simp add: gmm_eq_def)
    then show ?thesis using assms(1) assms(2) [of k]
      by (cases "map_of m k"; cases "map_of m' k")
        (auto simp: map_of_gm_collect gmm_eq_def dest: map_of_SomeD)
  qed
  then show ?thesis by (simp add: gm_eq_def fun_eq_iff)
qed

lemma distinct_map_sort_key: "distinct (map f (sort_key g xs)) \<longleftrightarrow> distinct (map f xs)"
  by (rule mset_eq_imp_distinct_iff) simp

lemma rel_result_rbind:
  assumes "rel_result R m m'" and "\<And>x x'. m = Ok x \<Longrightarrow> R x x' \<Longrightarrow> rel_result S (f x) (f' x')"
  shows "rel_result S (rbind m f) (rbind m' f')"
  using assms by (cases m; cases m') auto

lemma rel_result_eq_rbind:
  assumes "rel_result R m m'" and "\<And>x x'. m = Ok x \<Longrightarrow> R x x' \<Longrightarrow> f x = f' x'"
  shows "rbind m f = rbind m' f'"
  using assms by (cases m; cases m') auto

lemma ret_ok_unit: "ret_ok r \<longleftrightarrow> r = Ok ()"
  by (cases r) auto

lemma length_filter_mono: "(\<And>x. x \<in> set xs \<Longrightarrow> P x \<Longrightarrow> Q x) \<Longrightarrow> length (filter P xs) \<le> length (filter Q xs)"
  by (induction xs) auto

lemma length_filter_eq_iff: "length (filter P xs) = length xs \<longleftrightarrow> (\<forall>x \<in> set xs. P x)"
  using length_filter_less [of _ xs P] by (metis filter_True less_irrefl)

lemma ret_ok_iff: "ret_ok r \<longleftrightarrow> (\<exists>x. r = Ok x)"
  by (cases r) auto

end
