(* ===== verification/CcipTypes.thy ===== *)
theory CcipTypes
  imports Prelude "HOL-Library.List_Lexorder" "HOL-Library.Char_ord"
begin

text \<open>
  The data of the protocol that the Go code imports from chainlink-common (package ccipocr3), libocr
  and chain-selectors, as the code under src/ builds and reads it. Only the types are written
  out here. The functions of those packages are not: each is a field of the record \<open>ccip_lib\<close>, an
  argument of every definition that calls one, and the predicates at the end name what a
  theorem relies on.

  A \<open>*big.Int\<close> (and \<open>cciptypes.BigInt\<close>, which embeds one) is an \<^typ>\<open>int option\<close>: \<^term>\<open>None\<close> is the nil
  pointer. A \<open>time.Time\<close> is the number of nanoseconds since Go's zero time, so the zero time is 0.
\<close>

type_synonym ChainSelector = u64
type_synonym SeqNum = u64
type_synonym OracleID = byte
type_synonym PeerID = "byte list"
type_synonym Bytes32 = "byte list"
type_synonym UnknownAddress = "byte list"
type_synonym UnknownEncodedAddress = string
type_synonym BigInt = "int option"
type_synonym time = int
type_synonym duration = int

record SeqNumRange =
  sr_Start :: SeqNum
  sr_End :: SeqNum

record MerkleRootChain =
  mrc_ChainSel :: ChainSelector
  mrc_OnRampAddress :: UnknownAddress
  mrc_SeqNumsRange :: SeqNumRange
  mrc_MerkleRoot :: Bytes32

record TokenPrice =
  tp_TokenID :: UnknownEncodedAddress
  tp_Price :: BigInt

type_synonym TokenPriceMap = "(UnknownEncodedAddress, BigInt) gomap"

record GasPriceChain =
  gp_ChainSel :: ChainSelector
  gp_GasPrice :: BigInt

record TimestampedBig =
  tb_Timestamp :: time
  tb_Value :: BigInt

record ChainFeeComponents =
  cfc_ExecutionFee :: BigInt
  cfc_DataAvailabilityFee :: BigInt

record PriceUpdates =
  pu_TokenPriceUpdates :: "TokenPrice list"
  pu_GasPriceUpdates :: "GasPriceChain list"

record CommitPluginReport =
  cpr_BlessedMerkleRoots :: "MerkleRootChain list"
  cpr_UnblessedMerkleRoots :: "MerkleRootChain list"
  cpr_PriceUpdates :: PriceUpdates

record CommitReportInfo =
  cri_MerkleRoots :: "MerkleRootChain list"
  cri_PriceUpdates :: PriceUpdates

record CurseInfo =
  ci_CursedSourceChains :: "(ChainSelector, bool) gomap"
  ci_CursedDestination :: bool
  ci_GlobalCurse :: bool

record TokenInfo =
  ti_DeviationPPB :: BigInt

record RampMessageHeader =
  mh_MessageID :: Bytes32
  mh_SourceChainSelector :: ChainSelector
  mh_DestChainSelector :: ChainSelector
  mh_SequenceNumber :: SeqNum
  mh_Nonce :: u64
  mh_MsgHash :: Bytes32
  mh_OnRamp :: UnknownAddress
  mh_TxHash :: string

record RampTokenAmount =
  rta_SourcePoolAddress :: UnknownAddress
  rta_DestTokenAddress :: UnknownAddress
  rta_ExtraData :: "byte list"
  rta_Amount :: BigInt
  rta_DestExecData :: "byte list"

record Message =
  msg_Header :: RampMessageHeader
  msg_Sender :: UnknownAddress
  msg_Data :: "byte list"
  msg_Receiver :: UnknownAddress
  msg_ExtraArgs :: "byte list"
  msg_FeeToken :: UnknownAddress
  msg_FeeTokenAmount :: BigInt
  msg_FeeValueJuels :: BigInt
  msg_TokenAmounts :: "RampTokenAmount list"

datatype chain_family =
    FamilyEVM | FamilySolana | FamilyAptos | FamilySui | FamilyTon | FamilyOther string

text \<open>The functions of the imported packages that the code calls. The last three are the default identity
  of the observation counters, \<open>sha3.Sum256\<close> of the printed value, at the types it is used at.\<close>

record ccip_lib =
  lib_Limit :: "SeqNumRange \<Rightarrow> u64 \<Rightarrow> SeqNumRange"
  lib_IsZeroOrEmpty :: "UnknownAddress \<Rightarrow> bool"
  lib_Bytes32_IsEmpty :: "Bytes32 \<Rightarrow> bool"
  lib_IsPositive :: "BigInt \<Rightarrow> bool"
  lib_ToSortedSlice :: "TokenPriceMap \<Rightarrow> TokenPrice list"
  lib_Report_IsEmpty :: "CommitPluginReport \<Rightarrow> bool"
  lib_NonCursedSourceChains :: "CurseInfo \<Rightarrow> ChainSelector list \<Rightarrow> ChainSelector list"
  lib_TokenInfo_Validate :: "TokenInfo \<Rightarrow> unit result"
  lib_GetSelectorFamily :: "u64 \<Rightarrow> chain_family result"
  lib_HEDERA_MAINNET :: u64
  lib_HEDERA_TESTNET :: u64
  lib_MaxNumberTreeLeaves :: nat
  lib_NewTreeRoot :: "Bytes32 list \<Rightarrow> Bytes32 result"
  lib_sum_int :: "int \<Rightarrow> Bytes32"
  lib_sum_root :: "MerkleRootChain \<Rightarrow> Bytes32"
  lib_sum_address :: "UnknownAddress \<Rightarrow> Bytes32"

section \<open>What the theorems rely on\<close>

text \<open>\<open>SeqNumRange.Limit(n)\<close> keeps the start of a range and truncates it to its first n numbers.\<close>

definition limit_spec :: "ccip_lib \<Rightarrow> bool" where
  "limit_spec lib \<longleftrightarrow> (\<forall>r n. 0 < n \<longrightarrow> sr_Start r \<le> sr_End r \<longrightarrow>
     sr_Start (lib_Limit lib r n) = sr_Start r \<and>
     unat (sr_End (lib_Limit lib r n)) = min (unat (sr_End r)) (unat (sr_Start r) + unat n - 1))"

text \<open>\<open>CommitPluginReport.IsEmpty\<close>: no root of either kind and no price update.\<close>

definition report_empty_spec :: "ccip_lib \<Rightarrow> bool" where
  "report_empty_spec lib \<longleftrightarrow> (\<forall>r. lib_Report_IsEmpty lib r \<longleftrightarrow>
     cpr_BlessedMerkleRoots r = [] \<and> cpr_UnblessedMerkleRoots r = [] \<and>
     pu_TokenPriceUpdates (cpr_PriceUpdates r) = [] \<and> pu_GasPriceUpdates (cpr_PriceUpdates r) = [])"

text \<open>\<open>TokenPriceMap.ToSortedSlice\<close>: the entries of the map, sorted by token.\<close>

definition sorted_slice_spec :: "ccip_lib \<Rightarrow> bool" where
  "sorted_slice_spec lib \<longleftrightarrow> (\<forall>m. gm_ok m \<longrightarrow>
     mset (lib_ToSortedSlice lib m) = mset (map (\<lambda>(t, p). \<lparr>tp_TokenID = t, tp_Price = p\<rparr>) m) \<and>
     sorted (map tp_TokenID (lib_ToSortedSlice lib m)))"

text \<open>\<open>CurseInfo.NonCursedSourceChains\<close>: the given chains without the cursed ones.\<close>

definition non_cursed_spec :: "ccip_lib \<Rightarrow> bool" where
  "non_cursed_spec lib \<longleftrightarrow> (\<forall>ci cs. lib_NonCursedSourceChains lib ci cs =
     filter (\<lambda>c. map_of (ci_CursedSourceChains ci) c \<noteq> Some True) cs)"

section \<open>An instance of the imported functions\<close>

text \<open>A concrete value of \<open>ccip_lib\<close>, on which the witnesses evaluate the model.\<close>

definition sample_Limit :: "SeqNumRange \<Rightarrow> u64 \<Rightarrow> SeqNumRange" where
  "sample_Limit r n =
     (if 0 < n \<and> sr_Start r \<le> sr_End r \<and> n \<le> sr_End r - sr_Start r
      then r\<lparr>sr_End := sr_Start r + (n - 1)\<rparr> else r)"

definition sample_lib :: ccip_lib where
  "sample_lib = \<lparr>
     lib_Limit = sample_Limit,
     lib_IsZeroOrEmpty = (\<lambda>a. list_all (\<lambda>b. b = 0) a),
     lib_Bytes32_IsEmpty = (\<lambda>a. list_all (\<lambda>b. b = 0) a),
     lib_IsPositive = (\<lambda>p. case p of None \<Rightarrow> False | Some i \<Rightarrow> 0 < i),
     lib_ToSortedSlice = (\<lambda>m. sort_key tp_TokenID (map (\<lambda>(t, p). \<lparr>tp_TokenID = t, tp_Price = p\<rparr>) m)),
     lib_Report_IsEmpty = (\<lambda>r. cpr_BlessedMerkleRoots r = [] \<and> cpr_UnblessedMerkleRoots r = [] \<and>
        pu_TokenPriceUpdates (cpr_PriceUpdates r) = [] \<and> pu_GasPriceUpdates (cpr_PriceUpdates r) = []),
     lib_NonCursedSourceChains = (\<lambda>ci cs. filter (\<lambda>c. map_of (ci_CursedSourceChains ci) c \<noteq> Some True) cs),
     lib_TokenInfo_Validate = (\<lambda>_. Ok ()),
     lib_GetSelectorFamily = (\<lambda>_. Ok FamilyEVM),
     lib_HEDERA_MAINNET = 295,
     lib_HEDERA_TESTNET = 296,
     lib_MaxNumberTreeLeaves = 256,
     lib_NewTreeRoot = (\<lambda>hs. case hs of [] \<Rightarrow> Error (Err ''empty'') | h # _ \<Rightarrow> Ok h),
     lib_sum_int = (\<lambda>i. [word_of_int i]),
     lib_sum_root = (\<lambda>r. mrc_MerkleRoot r),
     lib_sum_address = (\<lambda>a. a)\<rparr>"

lemma sample_lib_limit: "limit_spec sample_lib"
proof -
  have "unat (s + (n - 1)) = min (unat e) (unat s + unat n - 1)"
    if "0 < n" "s \<le> e" "n \<le> e - s" for s e n :: u64
  proof -
    have d: "unat (e - s) = unat e - unat s" using that(2) by (rule unat_sub)
    have n: "unat (n - 1) = unat n - 1" using that(1) by (simp add: unat_sub word_less_nat_alt Suc_leI word_le_nat_alt)
    have le: "unat n \<le> unat e - unat s" using that(3) d by (simp add: word_le_nat_alt)
    have "unat e < 2 ^ 64" using unsigned_less [of e, where ?'a = nat] by simp
    then have "unat s + (unat n - 1) < 2 ^ 64"
      using le that(1,2) by (simp add: word_le_nat_alt word_less_nat_alt)
    then have "unat (s + (n - 1)) = unat s + (unat n - 1)"
      by (subst unat_add_lem [THEN iffD1]) (simp_all add: n)
    with le that(1,2) show ?thesis by (simp add: word_le_nat_alt word_less_nat_alt)
  qed
  moreover have "unat e = min (unat e) (unat s + unat n - 1)"
    if "0 < n" "s \<le> e" "\<not> n \<le> e - s" for s e n :: u64
    using that unat_sub [OF that(2)] by (simp add: word_le_nat_alt word_less_nat_alt not_le)
  ultimately show ?thesis
    by (auto simp: limit_spec_def sample_lib_def sample_Limit_def)
qed

lemma sample_lib_specs:
  "report_empty_spec sample_lib" "sorted_slice_spec sample_lib" "non_cursed_spec sample_lib"
  by (simp_all add: report_empty_spec_def sorted_slice_spec_def non_cursed_spec_def sample_lib_def)

lemma sorted_slice_gm_eq:
  assumes "sorted_slice_spec lib" and "gm_eq m m'"
  shows "lib_ToSortedSlice lib m = lib_ToSortedSlice lib m'"
proof -
  let ?f = "\<lambda>m. map (\<lambda>(t, p). \<lparr>tp_TokenID = t, tp_Price = p\<rparr>) m"
  have d: "distinct (map tp_TokenID (?f m))" and ms: "mset (?f m) = mset (?f m')"
    using assms(2) gm_eq_mset [OF assms(2)] by (simp_all add: gm_eq_def gm_ok_def comp_def case_prod_unfold)
  have "lib_ToSortedSlice lib m = sort_key tp_TokenID (?f m)"
    by (rule sort_key_any_sort) (use assms d in \<open>auto simp: sorted_slice_spec_def gm_eq_def\<close>)
  moreover have "lib_ToSortedSlice lib m' = sort_key tp_TokenID (?f m)"
    by (rule sort_key_any_sort) (use assms d ms in \<open>auto simp: sorted_slice_spec_def gm_eq_def\<close>)
  ultimately show ?thesis by simp
qed

end
