(* ===== verification/Consensus.thy ===== *)
theory Consensus
  imports CcipTypes "HOL-Library.Option_ord"
begin

text \<open>
  The agreement primitives of internal/plugincommon/consensus: thresholds (threshold.go), the two
  observation counters (min_observation.go, oracle_min_observation.go) and the four ways a list of
  observations per key becomes one agreed value per key (consensus.go).

  The locale \<open>observation_counter\<close> is the contract of \<open>MinObservation\<close> and \<open>OracleMinObservation\<close>; the
  Byzantine lemmas are proved once in it and both counters interpret it. The locale
  \<open>order_statistic\<close> is the contract of the aggregators that sort the observations and take the one at a
  fixed rank (\<open>Median\<close>, \<open>GetOrderedConsensus\<close>): the chosen value lies between two honest ones.
\<close>

section \<open>threshold.go\<close>

text \<open>\<open>Threshold\<close> is a \<open>uint\<close>: an integer between 0 and 2^64. A \<open>MultiThreshold\<close> is its method \<open>Get\<close>.\<close>

type_synonym Threshold = int
type_synonym 'k MultiThreshold = "'k \<Rightarrow> Threshold option"

definition TwoFPlus1 :: "int \<Rightarrow> Threshold" where
  "TwoFPlus1 f = u64i (s64 (2 * f + 1))"

definition FPlus1 :: "int \<Rightarrow> Threshold" where
  "FPlus1 f = u64i (s64 (f + 1))"

definition F :: "int \<Rightarrow> Threshold" where
  "F f = u64i f"

definition MakeMultiThreshold :: "('k, int) gomap \<Rightarrow> (int \<Rightarrow> Threshold) \<Rightarrow> 'k MultiThreshold" where
  "MakeMultiThreshold fChain mapping = map_of (gm_collect (\<lambda>_ f. Some (mapping f)) fChain)"

definition MakeConstantThreshold :: "Threshold \<Rightarrow> 'k MultiThreshold" where
  "MakeConstantThreshold f = (\<lambda>_. Some f)"

definition GteFPlusOne :: "int \<Rightarrow> int \<Rightarrow> bool" where
  "GteFPlusOne f value = (s64 (f + 1) \<le> value)"

definition LtFPlusOne :: "int \<Rightarrow> int \<Rightarrow> bool" where
  "LtFPlusOne f value = (value < s64 (f + 1))"

definition LtTwoFPlusOne :: "int \<Rightarrow> int \<Rightarrow> bool" where
  "LtTwoFPlusOne f value = (value < s64 (2 * f + 1))"

lemma thresholds_small:
  assumes "0 \<le> f" "f < 2 ^ 62"
  shows "TwoFPlus1 f = 2 * f + 1" "FPlus1 f = f + 1" "F f = f"
  using assms by (simp_all add: TwoFPlus1_def FPlus1_def F_def s64_id u64i_id)

lemma less_plus_one_small:
  assumes "0 \<le> f" "f < 2 ^ 62"
  shows "LtFPlusOne f v \<longleftrightarrow> v \<le> f" "GteFPlusOne f v \<longleftrightarrow> f < v" "LtTwoFPlusOne f v \<longleftrightarrow> v \<le> 2 * f"
  using assms by (auto simp: LtFPlusOne_def GteFPlusOne_def LtTwoFPlusOne_def s64_id)

lemma MakeMultiThreshold_get:
  "gm_ok fChain \<Longrightarrow> MakeMultiThreshold fChain mapping k = map_option mapping (map_of fChain k)"
  by (simp add: MakeMultiThreshold_def map_of_gm_collect split: option.splits)

lemma MakeMultiThreshold_gm_eq:
  "gm_eq m m' \<Longrightarrow> MakeMultiThreshold m g = MakeMultiThreshold m' g"
  by (auto simp: MakeMultiThreshold_get gm_eq_def fun_eq_iff)

section \<open>min_observation.go\<close>

record 'a counter =
  ctr_data :: 'a
  ctr_count :: nat

record 'a minObservation =
  mo_minObservation :: Threshold
  mo_cache :: "(Bytes32, 'a counter) gomap"
  mo_idFunc :: "'a \<Rightarrow> Bytes32"

text \<open>\<open>sum256v\<close> is the default identity \<open>sha3.Sum256(fmt.Appendf(nil, "%v", data))\<close>.\<close>

definition NewMinObservation ::
  "('a \<Rightarrow> Bytes32) \<Rightarrow> Threshold \<Rightarrow> ('a \<Rightarrow> Bytes32) option \<Rightarrow> 'a minObservation" where
  "NewMinObservation sum256v minThreshold idFunc =
     \<lparr>mo_minObservation = minThreshold, mo_cache = [],
      mo_idFunc = (case idFunc of None \<Rightarrow> sum256v | Some g \<Rightarrow> g)\<rparr>"

definition minObservation_Add :: "'a \<Rightarrow> 'a minObservation \<Rightarrow> 'a minObservation" where
  "minObservation_Add data cv =
     (let id = mo_idFunc cv data in
      case map_of (mo_cache cv) id of
        Some c \<Rightarrow> cv\<lparr>mo_cache := gm_put id (c\<lparr>ctr_count := ctr_count c + 1\<rparr>) (mo_cache cv)\<rparr>
      | None \<Rightarrow> cv\<lparr>mo_cache := gm_put id \<lparr>ctr_data = data, ctr_count = 1\<rparr> (mo_cache cv)\<rparr>)"

definition minObservation_GetValid :: "'a minObservation \<Rightarrow> 'a list" where
  "minObservation_GetValid cv =
     map (\<lambda>(_, rc). ctr_data rc)
       (filter (\<lambda>(_, rc). mo_minObservation cv \<le> int (ctr_count rc)) (mo_cache cv))"

section \<open>oracle_min_observation.go\<close>

record 'a observersCounter =
  oc_data :: 'a
  oc_observers :: "(OracleID, unit) gomap"

record 'a oracleMinObservation =
  omo_minObservation :: Threshold
  omo_cache :: "(Bytes32, 'a observersCounter) gomap"
  omo_idFunc :: "'a \<Rightarrow> Bytes32"

definition NewOracleMinObservation ::
  "('a \<Rightarrow> Bytes32) \<Rightarrow> Threshold \<Rightarrow> ('a \<Rightarrow> Bytes32) option \<Rightarrow> 'a oracleMinObservation" where
  "NewOracleMinObservation sum256v minThreshold idFunc =
     \<lparr>omo_minObservation = minThreshold, omo_cache = [],
      omo_idFunc = (case idFunc of None \<Rightarrow> sum256v | Some g \<Rightarrow> g)\<rparr>"

definition oracleMinObservation_Add ::
  "'a \<times> OracleID \<Rightarrow> 'a oracleMinObservation \<Rightarrow> 'a oracleMinObservation" where
  "oracleMinObservation_Add = (\<lambda>(data, oracleID) cv.
     let id = omo_idFunc cv data;
         c = (case map_of (omo_cache cv) id of
                None \<Rightarrow> \<lparr>oc_data = data, oc_observers = []\<rparr> | Some c \<Rightarrow> c)
     in cv\<lparr>omo_cache :=
          gm_put id (c\<lparr>oc_observers := gm_put oracleID () (oc_observers c)\<rparr>) (omo_cache cv)\<rparr>)"

definition oracleMinObservation_GetValid :: "'a oracleMinObservation \<Rightarrow> 'a list" where
  "oracleMinObservation_GetValid cv =
     map (\<lambda>(_, rc). oc_data rc)
       (filter (\<lambda>(_, rc). s64 (omo_minObservation cv) \<le> int (length (oc_observers rc))) (omo_cache cv))"

section \<open>consensus.go\<close>

definition GetConsensusMap ::
  "('a \<Rightarrow> Bytes32) \<Rightarrow> ('k, 'a list) gomap \<Rightarrow> 'k MultiThreshold \<Rightarrow> ('k, 'a) gomap" where
  "GetConsensusMap sum256v itemsByKey minObs =
     gm_collect
       (\<lambda>key items.
          case minObs key of
            None \<Rightarrow> None
          | Some minThresh \<Rightarrow>
              (case minObservation_GetValid
                      (fold minObservation_Add items (NewMinObservation sum256v minThresh None)) of
                 [x] \<Rightarrow> Some x
               | _ \<Rightarrow> None))
       itemsByKey"

definition GetConsensusMapAggregator ::
  "('k, 'a list) gomap \<Rightarrow> 'k MultiThreshold \<Rightarrow> ('a list \<Rightarrow> 'a result) \<Rightarrow> ('k, 'a) gomap result" where
  "GetConsensusMapAggregator items f agg =
     gm_collect_r
       (\<lambda>key values.
          case f key of
            None \<Rightarrow> Ok None
          | Some thresh \<Rightarrow>
              if int (length values) < s64 thresh then Ok None
              else rbind (agg values) (\<lambda>v. Ok (Some v)))
       items"

text \<open>\<open>less\<close> compares two elements by \<open>key\<close>. For \<open>*big.Int\<close> keys \<open>Cmp\<close> panics when exactly one of its
  arguments is nil (two nil pointers are equal), and every sort of a slice that holds nil and
  non-nil keys compares some nil with some non-nil one.\<close>

definition Median :: "'a \<Rightarrow> ('a \<Rightarrow> 'b :: linorder option) \<Rightarrow> 'a list \<Rightarrow> 'a result" where
  "Median zero key vals =
     (if vals = [] then Ok zero
      else if (\<exists>v \<in> set vals. key v = None) \<and> (\<exists>v \<in> set vals. key v \<noteq> None) then Panic
      else Ok (sort_key key vals ! (length vals div 2)))"

text \<open>The sort mutates the slices of \<open>itemsByKey\<close> in place; no caller reads them afterwards.\<close>

definition GetOrderedConsensus ::
  "('k, 'a :: linorder list) gomap \<Rightarrow> 'k MultiThreshold \<Rightarrow> ('k, 'a) gomap result" where
  "GetOrderedConsensus itemsByKey minObs =
     gm_collect_r
       (\<lambda>key items.
          case minObs key of
            None \<Rightarrow> Ok None
          | Some minThresh \<Rightarrow>
              if minThresh \<le> 0 then Ok None
              else if int (length items) < s64 (2 * s64 minThresh + 1) then Ok None
              else rbind (slice_get (sort items) minThresh) (\<lambda>v. Ok (Some v)))
       itemsByKey"

definition TimestampsMedian :: "time list \<Rightarrow> time result" where
  "TimestampsMedian timestamps = Median 0 Some timestamps"

definition TokenPriceMedianKey :: "TokenPrice \<Rightarrow> BigInt" where
  "TokenPriceMedianKey a = tp_Price a"

definition BigIntMedian :: "BigInt list \<Rightarrow> BigInt result" where
  "BigIntMedian prices = Median None id prices"

definition TimestampedBigAggregator :: "TimestampedBig list \<Rightarrow> TimestampedBig result" where
  "TimestampedBigAggregator updates =
     rbind (Median None id (map tb_Value updates)) (\<lambda>medianPrice.
     rbind (Median 0 Some (map tb_Timestamp updates)) (\<lambda>medianTimestamp.
       Ok \<lparr>tb_Timestamp = medianTimestamp, tb_Value = medianPrice\<rparr>))"

section \<open>The contract of the observation counters\<close>

text \<open>A counter is fed events; each event supports one item. \<open>valid\<close> returns, once each, the
  items with enough support. \<open>ident\<close> is the condition under which identities separate the items.\<close>

locale observation_counter =
  fixes new :: 's
    and add :: "'e \<Rightarrow> 's \<Rightarrow> 's"
    and valid :: "'s \<Rightarrow> 'a list"
    and item :: "'e \<Rightarrow> 'a"
    and support :: "'e list \<Rightarrow> 'a \<Rightarrow> nat"
    and t :: int
    and ident :: "'a set \<Rightarrow> bool"
  assumes valid_set:
      "ident (item ` set es) \<Longrightarrow>
       set (valid (fold add es new)) = {x \<in> item ` set es. t \<le> int (support es x)}"
    and valid_distinct: "ident (item ` set es) \<Longrightarrow> distinct (valid (fold add es new))"
    and support_le: "support es x \<le> length (filter (\<lambda>e. item e = x) es)"
begin

lemma support_split:
  assumes "mset es = mset hs + mset bs"
  shows "support es x \<le> length (filter (\<lambda>e. item e = x) hs) + length bs"
proof -
  have "length (filter (\<lambda>e. item e = x) es) = size (filter_mset (\<lambda>e. item e = x) (mset es))"
    by (metis mset_filter size_mset)
  also have "\<dots> = length (filter (\<lambda>e. item e = x) hs) + length (filter (\<lambda>e. item e = x) bs)"
    by (simp add: assms flip: mset_filter)
  finally show ?thesis
    using support_le [of es x] length_filter_le [of "\<lambda>e. item e = x" bs] by linarith
qed

lemma valid_backed:
  assumes "ident (item ` set es)" and "x \<in> set (valid (fold add es new))"
    and "mset es = mset hs + mset bs"
  shows "t - int (length bs) \<le> int (length (filter (\<lambda>e. item e = x) hs))"
  using support_split [OF assms(3), of x] assms(2) by (simp add: valid_set [OF assms(1)])

lemma valid_honest:
  assumes "ident (item ` set es)" and "x \<in> set (valid (fold add es new))"
    and "mset es = mset hs + mset bs" and "int (length bs) < t"
  shows "x \<in> item ` set hs"
proof -
  have "filter (\<lambda>e. item e = x) hs \<noteq> []"
    using valid_backed [OF assms(1-3)] assms(4) by auto
  then show ?thesis by (auto simp: filter_empty_conv)
qed

lemma filter_two_le:
  assumes "x \<noteq> y"
  shows "length (filter (\<lambda>e. item e = x) es) + length (filter (\<lambda>e. item e = y) es) \<le> length es"
  using assms by (induction es) auto

lemma valid_unique:
  assumes "ident (item ` set es)" and "int (length es) < 2 * t"
    and "x \<in> set (valid (fold add es new))" and "y \<in> set (valid (fold add es new))"
  shows "x = y"
proof (rule ccontr)
  assume "x \<noteq> y"
  from filter_two_le [OF this, of es] show False
    using assms(2-4) support_le [of es x] support_le [of es y]
    by (simp add: valid_set [OF assms(1)])
qed

lemma valid_singleton:
  assumes "ident (item ` set es)" and "{x \<in> item ` set es. t \<le> int (support es x)} = {z}"
  shows "valid (fold add es new) = [z]"
proof -
  have "set (valid (fold add es new)) = {z}" using assms by (simp add: valid_set)
  moreover have "distinct (valid (fold add es new))" using assms(1) by (rule valid_distinct)
  ultimately have "length (valid (fold add es new)) = 1"
    by (metis distinct_card card_1_singleton_iff One_nat_def)
  with \<open>set _ = {z}\<close> show ?thesis by (auto simp: length_Suc_conv)
qed

end

subsection \<open>minObservation meets it\<close>

lemma minObservation_Add_simps [simp]:
  "mo_idFunc (minObservation_Add x cv) = mo_idFunc cv"
  "mo_minObservation (minObservation_Add x cv) = mo_minObservation cv"
  by (auto simp: minObservation_Add_def Let_def split: option.splits)

lemma minObservation_fold_simps [simp]:
  "mo_idFunc (fold minObservation_Add xs cv) = mo_idFunc cv"
  "mo_minObservation (fold minObservation_Add xs cv) = mo_minObservation cv"
  by (induction xs arbitrary: cv) auto

lemma minObservation_Add_get:
  "map_of (mo_cache (minObservation_Add x cv)) h =
     (if h = mo_idFunc cv x
      then (case map_of (mo_cache cv) h of
              None \<Rightarrow> Some \<lparr>ctr_data = x, ctr_count = 1\<rparr>
            | Some c \<Rightarrow> Some (c\<lparr>ctr_count := ctr_count c + 1\<rparr>))
      else map_of (mo_cache cv) h)"
  by (auto simp: minObservation_Add_def Let_def update_conv' split: option.splits)

lemma minObservation_cache_ok:
  "gm_ok (mo_cache (fold minObservation_Add xs (NewMinObservation sha t None)))"
proof (induction xs rule: rev_induct)
  case (snoc x xs)
  then show ?case
    by (simp add: minObservation_Add_def Let_def gm.ok_put split: option.splits)
qed (simp add: NewMinObservation_def)

lemma minObservation_cache:
  "map_of (mo_cache (fold minObservation_Add xs (NewMinObservation sha t None))) h =
      (case filter (\<lambda>x. sha x = h) xs of
         [] \<Rightarrow> None | y # ys \<Rightarrow> Some \<lparr>ctr_data = y, ctr_count = Suc (length ys)\<rparr>)"
proof (induction xs arbitrary: h rule: rev_induct)
  case (snoc x xs)
  then show ?case
    by (simp add: minObservation_Add_get NewMinObservation_def split: list.splits)
qed (simp add: NewMinObservation_def)

lemma minObservation_entry:
  assumes "(h, c) \<in> set (mo_cache (fold minObservation_Add xs (NewMinObservation sha t None)))"
  shows "sha (ctr_data c) = h" "ctr_data c \<in> set xs"
    "ctr_count c = length (filter (\<lambda>x. sha x = h) xs)"
proof -
  have "map_of (mo_cache (fold minObservation_Add xs (NewMinObservation sha t None))) h = Some c"
    using assms minObservation_cache_ok [where xs = xs and sha = sha and t = t]
    by (simp add: gm_ok_def)
  then obtain ys where f: "filter (\<lambda>x. sha x = h) xs = ctr_data c # ys" "ctr_count c = Suc (length ys)"
    unfolding minObservation_cache by (auto split: list.splits)
  from f(1) have "ctr_data c \<in> set (filter (\<lambda>x. sha x = h) xs)" by simp
  then show "sha (ctr_data c) = h" "ctr_data c \<in> set xs" by auto
  from f show "ctr_count c = length (filter (\<lambda>x. sha x = h) xs)" by simp
qed

lemma minObservation_GetValid_set:
  assumes inj: "inj_on sha (set xs)"
  shows "set (minObservation_GetValid (fold minObservation_Add xs (NewMinObservation sha t None)))
    = {x \<in> set xs. t \<le> int (count_list xs x)}" (is "set (minObservation_GetValid ?cv) = ?R")
proof -
  have same: "filter (\<lambda>y. sha y = sha x) xs = filter (\<lambda>y. x = y) xs" if "x \<in> set xs" for x
    using that inj by (intro filter_cong) (auto dest: inj_onD)
  have t: "mo_minObservation ?cv = t" by (simp add: NewMinObservation_def)
  have "x \<in> ?R" if "x \<in> set (minObservation_GetValid ?cv)" for x
  proof -
    from that obtain h c where c: "(h, c) \<in> set (mo_cache ?cv)" "x = ctr_data c" "t \<le> int (ctr_count c)"
      unfolding minObservation_GetValid_def t by auto
    with minObservation_entry [OF c(1)] same [of x] show ?thesis by (simp add: count_list_eq_length_filter)
  qed
  moreover have "x \<in> set (minObservation_GetValid ?cv)" if "x \<in> ?R" for x
  proof -
    from that have "x \<in> set (filter (\<lambda>y. sha y = sha x) xs)" by simp
    then obtain y ys where ys: "filter (\<lambda>y. sha y = sha x) xs = y # ys"
      by (cases "filter (\<lambda>y. sha y = sha x) xs") auto
    have "y \<in> set (filter (\<lambda>y. sha y = sha x) xs)" unfolding ys by simp
    then have "y = x" using that inj by (auto dest: inj_onD)
    with ys have "(sha x, \<lparr>ctr_data = x, ctr_count = Suc (length ys)\<rparr>) \<in> set (mo_cache ?cv)"
      using minObservation_cache [where xs = xs and sha = sha and t = t and h = "sha x"]
      by (simp add: map_of_SomeD)
    moreover have "Suc (length ys) = count_list xs x"
      using arg_cong [OF ys, of length] same [of x] that by (simp add: count_list_eq_length_filter)
    ultimately show ?thesis
      using that unfolding minObservation_GetValid_def t
      by (auto intro!: rev_image_eqI [of "(sha x, \<lparr>ctr_data = x, ctr_count = Suc (length ys)\<rparr>)"])
  qed
  ultimately show ?thesis by blast
qed

lemma minObservation_GetValid_distinct:
  "distinct (minObservation_GetValid (fold minObservation_Add xs (NewMinObservation sha t None)))"
  (is "distinct (minObservation_GetValid ?cv)")
proof -
  let ?vs = "filter (\<lambda>(_, rc). mo_minObservation ?cv \<le> int (ctr_count rc)) (mo_cache ?cv)"
  have "map sha (minObservation_GetValid ?cv) = map fst ?vs"
    unfolding minObservation_GetValid_def using minObservation_entry(1) by (fastforce simp: comp_def)
  moreover have "distinct (map fst ?vs)"
    using minObservation_cache_ok [where xs = xs and sha = sha and t = t]
    by (simp add: gm_ok_def distinct_map_filter)
  ultimately show ?thesis by (metis distinct_map)
qed

interpretation mo: observation_counter
  "NewMinObservation sha t None" minObservation_Add minObservation_GetValid id
  "count_list" t "inj_on sha" for sha t
  by unfold_locales
    (simp_all add: minObservation_GetValid_set minObservation_GetValid_distinct
      count_list_eq_length_filter eq_commute)

subsection \<open>oracleMinObservation meets it\<close>

text \<open>The support of an item is the number of distinct oracles that reported it.\<close>

definition observers_of :: "('a \<times> OracleID) list \<Rightarrow> 'a \<Rightarrow> OracleID list" where
  "observers_of es x = remdups (map snd (filter (\<lambda>e. fst e = x) es))"

lemma oracleMinObservation_Add_simps [simp]:
  "omo_idFunc (oracleMinObservation_Add e cv) = omo_idFunc cv"
  "omo_minObservation (oracleMinObservation_Add e cv) = omo_minObservation cv"
  by (auto simp: oracleMinObservation_Add_def Let_def split: prod.splits)

lemma oracleMinObservation_fold_simps [simp]:
  "omo_idFunc (fold oracleMinObservation_Add xs cv) = omo_idFunc cv"
  "omo_minObservation (fold oracleMinObservation_Add xs cv) = omo_minObservation cv"
  by (induction xs arbitrary: cv) auto

lemma oracleMinObservation_Add_get:
  "map_of (omo_cache (oracleMinObservation_Add (x, i) cv)) h =
     (if h = omo_idFunc cv x
      then (case map_of (omo_cache cv) h of
              None \<Rightarrow> Some \<lparr>oc_data = x, oc_observers = [(i, ())]\<rparr>
            | Some c \<Rightarrow> Some (c\<lparr>oc_observers := gm_put i () (oc_observers c)\<rparr>))
      else map_of (omo_cache cv) h)"
  by (auto simp: oracleMinObservation_Add_def Let_def update_conv' split: option.splits)

lemma NewOracleMinObservation_simps [simp]:
  "omo_idFunc (NewOracleMinObservation sha t None) = sha"
  "omo_minObservation (NewOracleMinObservation sha t None) = t"
  by (simp_all add: NewOracleMinObservation_def)

lemma oracleMinObservation_cache_ok:
  "gm_ok (omo_cache (fold oracleMinObservation_Add es (NewOracleMinObservation sha t None)))"
proof (induction es rule: rev_induct)
  case (snoc e es)
  then show ?case
    by (simp add: oracleMinObservation_Add_def Let_def gm.ok_put split: prod.splits)
qed (simp add: NewOracleMinObservation_def)

text \<open>The observers of an entry: a set of oracles, kept as a map to the empty struct.\<close>

lemma oracleMinObservation_cache:
  "case map_of (omo_cache (fold oracleMinObservation_Add es (NewOracleMinObservation sha t None))) h of
     None \<Rightarrow> \<forall>e \<in> set es. sha (fst e) \<noteq> h
   | Some c \<Rightarrow> sha (oc_data c) = h \<and> oc_data c \<in> fst ` set es \<and> gm_ok (oc_observers c) \<and>
       fst ` set (oc_observers c) = snd ` set (filter (\<lambda>e. sha (fst e) = h) es)"
proof (induction es arbitrary: h rule: rev_induct)
  case (snoc e es)
  obtain x i where e: "e = (x, i)" by (cases e)
  show ?case
  proof (cases "h = sha x")
    case True
    show ?thesis
    proof (cases "map_of (omo_cache (fold oracleMinObservation_Add es (NewOracleMinObservation sha t None))) h")
      case None
      with snoc [of h] have "filter (\<lambda>e. sha (fst e) = h) es = []" by (auto simp: filter_empty_conv)
      with None True show ?thesis
        by (simp add: e oracleMinObservation_Add_get gm_ok_def del: set_filter)
    next
      case (Some c)
      with snoc [of h] True show ?thesis
        by (simp add: e oracleMinObservation_Add_get gm_keys_put gm.ok_put del: set_filter)
    qed
  next
    case False
    with snoc [of h] show ?thesis
      by (simp add: e oracleMinObservation_Add_get split: option.splits del: set_filter)
  qed
qed (simp add: NewOracleMinObservation_def)

lemma oracleMinObservation_entry:
  assumes "(h, c) \<in> set (omo_cache (fold oracleMinObservation_Add es (NewOracleMinObservation sha t None)))"
    and inj: "inj_on sha (fst ` set es)"
  shows "sha (oc_data c) = h" "oc_data c \<in> fst ` set es"
    "length (oc_observers c) = length (observers_of es (oc_data c))"
proof -
  have "map_of (omo_cache (fold oracleMinObservation_Add es (NewOracleMinObservation sha t None))) h = Some c"
    using assms(1) oracleMinObservation_cache_ok [of es sha t] by (simp add: gm_ok_def)
  with oracleMinObservation_cache [where es = es and sha = sha and t = t and h = h]
  have c: "sha (oc_data c) = h" "oc_data c \<in> fst ` set es" "gm_ok (oc_observers c)"
    "fst ` set (oc_observers c) = snd ` set (filter (\<lambda>e. sha (fst e) = h) es)" by auto
  show "sha (oc_data c) = h" "oc_data c \<in> fst ` set es" by fact+
  have "filter (\<lambda>e. sha (fst e) = h) es = filter (\<lambda>e. fst e = oc_data c) es"
    using c(1,2) inj by (intro filter_cong) (auto dest: inj_onD)
  with c(4) have "set (map fst (oc_observers c)) = set (observers_of es (oc_data c))"
    by (simp add: observers_of_def del: set_filter)
  moreover have "distinct (map fst (oc_observers c))" "distinct (observers_of es (oc_data c))"
    using c(3) by (simp_all add: gm_ok_def observers_of_def)
  ultimately have "length (map fst (oc_observers c)) = length (observers_of es (oc_data c))"
    by (metis distinct_card)
  then show "length (oc_observers c) = length (observers_of es (oc_data c))" by simp
qed

lemma oracleMinObservation_GetValid_set:
  assumes inj: "inj_on sha (fst ` set es)"
  shows "set (oracleMinObservation_GetValid
      (fold oracleMinObservation_Add es (NewOracleMinObservation sha t None)))
    = {x \<in> fst ` set es. s64 t \<le> int (length (observers_of es x))}"
    (is "set (oracleMinObservation_GetValid ?cv) = ?R")
proof -
  have t: "omo_minObservation ?cv = t" by simp
  have "x \<in> ?R" if "x \<in> set (oracleMinObservation_GetValid ?cv)" for x
  proof -
    from that obtain h c where c: "(h, c) \<in> set (omo_cache ?cv)" "x = oc_data c"
        "s64 t \<le> int (length (oc_observers c))"
      unfolding oracleMinObservation_GetValid_def t by auto
    with oracleMinObservation_entry [OF c(1) inj] show ?thesis by simp
  qed
  moreover have "x \<in> set (oracleMinObservation_GetValid ?cv)" if x: "x \<in> ?R" for x
  proof -
    from x obtain c where "map_of (omo_cache ?cv) (sha x) = Some c"
      using oracleMinObservation_cache [where es = es and sha = sha and t = t and h = "sha x"] by (force split: option.splits)
    then have c: "(sha x, c) \<in> set (omo_cache ?cv)" by (rule map_of_SomeD)
    note entry = oracleMinObservation_entry [OF c inj]
    have "oc_data c = x" using entry(1,2) x inj by (auto dest: inj_onD)
    with entry(3) x c show ?thesis
      unfolding oracleMinObservation_GetValid_def t by (auto intro!: rev_image_eqI [of "(sha x, c)"])
  qed
  ultimately show ?thesis by blast
qed

lemma oracleMinObservation_GetValid_distinct:
  assumes inj: "inj_on sha (fst ` set es)"
  shows "distinct (oracleMinObservation_GetValid
    (fold oracleMinObservation_Add es (NewOracleMinObservation sha t None)))"
  (is "distinct (oracleMinObservation_GetValid ?cv)")
proof -
  let ?vs = "filter (\<lambda>(_, rc). s64 (omo_minObservation ?cv) \<le> int (length (oc_observers rc))) (omo_cache ?cv)"
  have "map sha (oracleMinObservation_GetValid ?cv) = map fst ?vs"
    unfolding oracleMinObservation_GetValid_def using oracleMinObservation_entry(1) [OF _ inj]
    by (fastforce simp: comp_def)
  moreover have "distinct (map fst ?vs)"
    using oracleMinObservation_cache_ok [of es sha t] by (simp add: gm_ok_def distinct_map_filter)
  ultimately show ?thesis by (metis distinct_map)
qed

interpretation omo: observation_counter
  "NewOracleMinObservation sha t None" oracleMinObservation_Add oracleMinObservation_GetValid fst
  "\<lambda>es x. length (observers_of es x)" "s64 t" "inj_on sha" for sha t
proof (unfold_locales, goal_cases)
  case (3 es x)
  show ?case
    unfolding observers_of_def by (rule order_trans [OF length_remdups_leq]) simp
qed (simp_all add: oracleMinObservation_GetValid_set oracleMinObservation_GetValid_distinct)

section \<open>The contract of the sorted aggregators\<close>

text \<open>At least \<open>k + 1\<close> elements are at most the element of rank k, and at least \<open>n - k\<close> are at least it.\<close>

lemma length_filter_le_nth_sort:
  fixes xs :: "'a :: linorder list"
  assumes "k < length xs"
  shows "k < length (filter (\<lambda>x. x \<le> sort xs ! k) xs)"
    and "length xs \<le> k + length (filter (\<lambda>x. sort xs ! k \<le> x) xs)"
proof -
  have same: "length (filter P xs) = length (filter P (sort xs))" for P
    by (metis mset_filter mset_sort size_mset)
  have sub: "card A \<le> length (filter P (sort xs))"
    if "A \<subseteq> {i. i < length xs \<and> P (sort xs ! i)}" for A P
    using that by (simp add: length_filter_conv_card card_mono)
  have le: "sort xs ! i \<le> sort xs ! j" if "i \<le> j" "j < length xs" for i j
    using that by (intro sorted_nth_mono) auto
  have "card {..k} \<le> length (filter (\<lambda>x. x \<le> sort xs ! k) (sort xs))"
    using assms by (intro sub) (auto intro: le)
  then show "k < length (filter (\<lambda>x. x \<le> sort xs ! k) xs)" by (simp add: same)
  have "card {k..<length xs} \<le> length (filter (\<lambda>x. sort xs ! k \<le> x) (sort xs))"
    using assms by (intro sub) (auto intro: le)
  then show "length xs \<le> k + length (filter (\<lambda>x. sort xs ! k \<le> x) xs)" by (simp add: same)
qed

lemma filter_outvotes:
  assumes "mset xs = mset hs + mset bs" and "length bs < length (filter P xs)"
  shows "\<exists>h \<in> set hs. P h"
proof -
  have "length (filter P xs) = length (filter P hs) + length (filter P bs)"
    by (metis assms(1) filter_union_mset mset_filter size_mset size_union)
  moreover have "length (filter P bs) \<le> length bs" by simp
  ultimately have "0 < length (filter P hs)" using assms(2) by linarith
  then show ?thesis by (auto simp: filter_empty_conv)
qed

text \<open>\<open>usable\<close> is the condition under which the aggregator neither panics nor gives up. Among the values
  \<open>xs\<close>, \<open>hs\<close> are those of honest oracles and \<open>bs\<close> the others.\<close>

locale order_statistic =
  fixes pick :: "'a :: linorder list \<Rightarrow> 'a result"
    and rank :: "nat \<Rightarrow> nat"
    and usable :: "'a list \<Rightarrow> bool"
  assumes rank_less: "usable xs \<Longrightarrow> rank (length xs) < length xs"
    and pick_eq: "usable xs \<Longrightarrow> pick xs = Ok (sort xs ! rank (length xs))"
begin

lemma pick_sandwich:
  assumes "usable xs" and "mset xs = mset hs + mset bs"
    and "length bs \<le> rank (length xs)" and "rank (length xs) + length bs < length xs"
  shows "\<exists>v lo hi. pick xs = Ok v \<and> lo \<in> set hs \<and> hi \<in> set hs \<and> lo \<le> v \<and> v \<le> hi"
proof -
  let ?v = "sort xs ! rank (length xs)"
  note n = length_filter_le_nth_sort [OF rank_less [OF assms(1)]]
  obtain lo where "lo \<in> set hs" "lo \<le> ?v"
    using filter_outvotes [OF assms(2), of "\<lambda>x. x \<le> ?v"] n(1) assms(3) by auto
  moreover obtain hi where "hi \<in> set hs" "?v \<le> hi"
    using filter_outvotes [OF assms(2), of "\<lambda>x. ?v \<le> x"] n(2) assms(4) by auto
  ultimately show ?thesis using pick_eq [OF assms(1)] by blast
qed

lemma pick_member: "usable xs \<Longrightarrow> \<exists>v \<in> set xs. pick xs = Ok v"
  using pick_eq [of xs] rank_less [of xs] by (metis length_sort nth_mem set_sort)

lemma pick_mset: "usable xs \<Longrightarrow> usable ys \<Longrightarrow> mset xs = mset ys \<Longrightarrow> pick xs = pick ys"
  using pick_eq [of xs] pick_eq [of ys] by (metis mset_eq_length mset_sort sorted_sort properties_for_sort)

end

definition big_usable :: "BigInt list \<Rightarrow> bool" where
  "big_usable xs \<longleftrightarrow> xs \<noteq> [] \<and> (\<forall>x \<in> set xs. x \<noteq> None)"

lemma sort_key_Some: "sort_key Some (xs :: 'a :: linorder list) = sort xs"
proof (rule properties_for_sort [symmetric])
  have "sorted (map Some (sort_key Some xs))" by (rule sorted_sort_key)
  then show "sorted (sort_key Some xs)" by (simp add: sorted_map)
qed simp

interpretation tsm: order_statistic TimestampsMedian "\<lambda>n. n div 2" "\<lambda>xs. xs \<noteq> []"
  by unfold_locales (simp_all add: TimestampsMedian_def Median_def sort_key_Some)

interpretation bim: order_statistic BigIntMedian "\<lambda>n. n div 2" big_usable
  by unfold_locales
    (auto simp: BigIntMedian_def Median_def big_usable_def simp flip: id_def)

text \<open>The element \<open>GetOrderedConsensus\<close> takes once its guards have passed.\<close>

interpretation ordp: order_statistic
  "\<lambda>items. slice_get (sort items) t" "\<lambda>_. nat t" "\<lambda>xs. 0 \<le> t \<and> t < int (length xs)" for t
  by unfold_locales (auto simp: slice_get_def nat_less_iff)

section \<open>Agreement\<close>

text \<open>The default identity of an item is a hash of its printed form. The theorems rely on it telling
  the observed items of a key apart.\<close>

definition collision_free :: "('a \<Rightarrow> Bytes32) \<Rightarrow> ('k, 'a list) gomap \<Rightarrow> bool" where
  "collision_free sha m \<longleftrightarrow> (\<forall>(k, items) \<in> set m. inj_on sha (set items))"

lemma consensus_item_iff:
  assumes "inj_on sha (set items)"
  shows "minObservation_GetValid (fold minObservation_Add items (NewMinObservation sha t None)) = [x]
    \<longleftrightarrow> {y \<in> set items. t \<le> int (count_list items y)} = {x}"
proof
  assume "minObservation_GetValid (fold minObservation_Add items (NewMinObservation sha t None)) = [x]"
  then have "set (minObservation_GetValid (fold minObservation_Add items (NewMinObservation sha t None))) = {x}"
    by simp
  then show "{y \<in> set items. t \<le> int (count_list items y)} = {x}"
    by (simp add: minObservation_GetValid_set [OF assms])
next
  assume "{y \<in> set items. t \<le> int (count_list items y)} = {x}"
  then show "minObservation_GetValid (fold minObservation_Add items (NewMinObservation sha t None)) = [x]"
    using mo.valid_singleton [of sha items t x] assms by simp
qed

lemma case_singleton_iff: "(case xs of [x] \<Rightarrow> Some x | _ \<Rightarrow> None) = Some y \<longleftrightarrow> xs = [y]"
  by (auto split: list.splits)

lemma case_singleton_cong:
  assumes "\<And>x. xs = [x] \<longleftrightarrow> ys = [x]"
  shows "(case xs of [x] \<Rightarrow> Some x | _ \<Rightarrow> None) = (case ys of [x] \<Rightarrow> Some x | _ \<Rightarrow> None)"
proof (cases "\<exists>x. xs = [x]")
  case True
  then obtain x where "xs = [x]" ..
  moreover from this assms have "ys = [x]" by blast
  ultimately show ?thesis by simp
next
  case False
  with assms have "\<nexists>x. ys = [x]" by blast
  with False show ?thesis by (auto split: list.splits)
qed

lemma GetConsensusMap_Some_iff:
  assumes "gm_ok m" and "collision_free sha m"
  shows "map_of (GetConsensusMap sha m minObs) k = Some x \<longleftrightarrow>
    (\<exists>items t. map_of m k = Some items \<and> minObs k = Some t \<and>
       {y \<in> set items. t \<le> int (count_list items y)} = {x})"
proof -
  have "inj_on sha (set items)" if "map_of m k = Some items" for items
    using map_of_SomeD [OF that] assms(2) by (auto simp: collision_free_def)
  then show ?thesis
    using assms(1)
    by (auto simp: GetConsensusMap_def map_of_gm_collect case_singleton_iff consensus_item_iff
        split: option.splits)
qed

lemma gm_ok_GetConsensusMap [simp]: "gm_ok (GetConsensusMap sha m t)"
  by (simp add: GetConsensusMap_def)

lemma gm_eq_GetConsensusMap [det_intros]:
  "gm_eq m m' \<Longrightarrow> gm_eq (GetConsensusMap sha m t) (GetConsensusMap sha m' t)"
  by (simp add: GetConsensusMap_def gm_eq_collect)

lemma GetConsensusMap_member:
  assumes "gm_ok m" and "collision_free sha m"
    and "map_of (GetConsensusMap sha m minObs) k = Some x"
  shows "\<exists>items t. map_of m k = Some items \<and> minObs k = Some t \<and> x \<in> set items \<and> t \<le> int (count_list items x)"
  using assms(3) unfolding GetConsensusMap_Some_iff [OF assms(1,2)] by blast

lemma GetConsensusMap_count:
  assumes "gm_ok m" and "map_of (GetConsensusMap sha m g) k = Some x"
  shows "\<exists>items t. map_of m k = Some items \<and> g k = Some t \<and> x \<in> set items \<and> t \<le> int (length items)"
proof -
  from assms obtain items t where it: "map_of m k = Some items" "g k = Some t"
    and v: "minObservation_GetValid (fold minObservation_Add items (NewMinObservation sha t None)) = [x]"
    by (auto simp: GetConsensusMap_def map_of_gm_collect case_singleton_iff split: option.splits)
  from v have "x \<in> set (minObservation_GetValid (fold minObservation_Add items (NewMinObservation sha t None)))" by simp
  then obtain h c where c: "(h, c) \<in> set (mo_cache (fold minObservation_Add items (NewMinObservation sha t None)))"
    "ctr_data c = x" "t \<le> int (ctr_count c)"
    by (auto simp: minObservation_GetValid_def NewMinObservation_def)
  have "ctr_count c \<le> length items" using minObservation_entry(3) [OF c(1)] by simp
  with c minObservation_entry(2) [OF c(1)] it show ?thesis by auto
qed

lemma count_list_split:
  assumes "mset items = mset hs + mset bs"
  shows "count_list items x = count_list hs x + count_list bs x"
  by (metis assms count_mset count_union)

lemma count_list_le_length: "count_list xs x \<le> length xs"
  by (induction xs) auto

text \<open>\<open>GetConsensusMap\<close> returns an item for a key exactly when the key has a threshold and the item is
  the only observed one that reaches it; when two items reach it, or none, the key has no
  consensus. Here items with the same hash are equal (no collision of the default identity).\<close>

theorem GetConsensusMap_spec:
  assumes "gm_ok itemsByKey"
    and "collision_free sha itemsByKey"
  shows "map_of (GetConsensusMap sha itemsByKey minObs) key = Some x \<longleftrightarrow>
    (\<exists>items t. map_of itemsByKey key = Some items \<and> minObs key = Some t \<and>
       x \<in> set items \<and> t \<le> int (count_list items x) \<and>
       (\<forall>y \<in> set items. y \<noteq> x \<longrightarrow> int (count_list items y) < t))"
proof -
  have "{y \<in> set items. t \<le> int (count_list items y)} = {x} \<longleftrightarrow>
     x \<in> set items \<and> t \<le> int (count_list items x) \<and> (\<forall>y \<in> set items. y \<noteq> x \<longrightarrow> int (count_list items y) < t)"
    for items t by (auto simp: set_eq_iff not_le [symmetric])
  then show ?thesis
    using assms by (subst GetConsensusMap_Some_iff) auto
qed

theorem GetConsensusMap_spec_witness:
  "map_of (GetConsensusMap (\<lambda>x. [x]) [(7 :: u64, [1, 2, 1 :: byte])] (MakeConstantThreshold 2)) 7 = Some 1"
  using GetConsensusMap_spec [of "[(7 :: u64, [1, 2, 1 :: byte])]" "\<lambda>x. [x]" "MakeConstantThreshold 2" 7 1]
  by (simp add: gm_ok_def MakeConstantThreshold_def collision_free_def inj_on_def)

text \<open>C29. With at most f faulty observations among those of a key, an item that reaches the
  threshold \<open>TwoFPlus1\<close> was observed by at least f + 1 honest oracles, and one that reaches \<open>FPlus1\<close>
  by at least one.\<close>

theorem GetConsensusMap_byzantine_safe:
  assumes "gm_ok itemsByKey" and "collision_free sha itemsByKey"
    and "gm_ok fChain" and "map_of fChain key = Some f" and "0 \<le> f" and "f < 2 ^ 62"
    and "map_of itemsByKey key = Some items"
    and "mset items = mset hs + mset bs" and "int (length bs) \<le> f"
  shows "(map_of (GetConsensusMap sha itemsByKey (MakeMultiThreshold fChain TwoFPlus1)) key = Some x \<longrightarrow>
            f + 1 \<le> int (count_list hs x)) \<and>
         (map_of (GetConsensusMap sha itemsByKey (MakeMultiThreshold fChain FPlus1)) key = Some x \<longrightarrow>
            1 \<le> int (count_list hs x))"
proof -
  have "t \<le> int (count_list hs x) + f"
    if "map_of (GetConsensusMap sha itemsByKey g) key = Some x" "g key = Some t" for g t
    using GetConsensusMap_member [OF assms(1,2) that(1)] that(2) assms(7,9)
      count_list_split [OF assms(8), of x] count_list_le_length [of bs x] by auto
  from this [of "MakeMultiThreshold fChain TwoFPlus1" "2 * f + 1"]
    this [of "MakeMultiThreshold fChain FPlus1" "f + 1"]
  show ?thesis using assms(3-6) by (simp add: MakeMultiThreshold_get thresholds_small)
qed

text \<open>Four oracles of which one is faulty: the item that the map agrees on was observed by two honest ones at least.\<close>

definition sample_honest :: "byte list" where
  "sample_honest = [5, 5, 5]"

definition sample_faulty :: "byte list" where
  "sample_faulty = [9]"

definition sample_by_key :: "(u64, byte list) gomap" where
  "sample_by_key = [(7, sample_honest @ sample_faulty)]"

theorem GetConsensusMap_byzantine_safe_witness:
  "map_of (GetConsensusMap (\<lambda>x. [x]) sample_by_key (MakeMultiThreshold [(7, 1)] TwoFPlus1)) 7 = Some 5 \<and>
   map_of (GetConsensusMap (\<lambda>x. [x]) sample_by_key (MakeMultiThreshold [(7, 1)] FPlus1)) 7 = Some 5 \<and>
   2 \<le> int (count_list sample_honest 5) \<and> 1 \<le> int (count_list sample_honest 5)"
proof -
  have consensus: "map_of (GetConsensusMap (\<lambda>x. [x]) sample_by_key (MakeMultiThreshold [(7, 1)] TwoFPlus1)) 7 = Some 5"
    "map_of (GetConsensusMap (\<lambda>x. [x]) sample_by_key (MakeMultiThreshold [(7, 1)] FPlus1)) 7 = Some 5"
    by code_simp+
  have "gm_ok sample_by_key" "collision_free (\<lambda>x. [x]) sample_by_key" "gm_ok [(7 :: u64, 1 :: int)]"
    "map_of [(7 :: u64, 1 :: int)] 7 = Some 1" "map_of sample_by_key 7 = Some (sample_honest @ sample_faulty)"
    "int (length sample_faulty) \<le> 1"
    by (simp_all add: sample_by_key_def sample_faulty_def gm_ok_def collision_free_def inj_on_def)
  from GetConsensusMap_byzantine_safe [OF this(1-4) _ _ this(5) mset_append this(6), of 5] consensus
  show ?thesis by simp
qed

text \<open>Liveness: when the honest observations of a key agree and number at least 2f + 1, with at most
  f faulty ones, the key reaches consensus on the honest item.\<close>

theorem GetConsensusMap_live:
  assumes "gm_ok itemsByKey" and "collision_free sha itemsByKey"
    and "gm_ok fChain" and "map_of fChain key = Some f" and "0 \<le> f" and "f < 2 ^ 62"
    and "map_of itemsByKey key = Some items"
    and "mset items = mset hs + mset bs" and "int (length bs) \<le> f"
    and "set hs = {x}" and "2 * f + 1 \<le> int (length hs)"
  shows "map_of (GetConsensusMap sha itemsByKey (MakeMultiThreshold fChain TwoFPlus1)) key = Some x"
proof -
  have split: "count_list items y = count_list hs y + count_list bs y" for y
    by (rule count_list_split [OF assms(8)])
  have hs: "count_list hs y = (if y = x then length hs else 0)" for y
    using assms(10) by (auto simp: count_list_eq_length_filter count_list_0_iff)
  have "set items = set hs \<union> set bs" by (metis assms(8) set_mset_mset set_mset_union)
  then have "y \<in> set items \<and> 2 * f + 1 \<le> int (count_list items y) \<longleftrightarrow> y = x" for y
    using split [of y] hs [of y] assms(5,9-11) count_list_le_length [of bs y]
    by auto
  then have "{y \<in> set items. 2 * f + 1 \<le> int (count_list items y)} = {x}" by blast
  then show ?thesis
    using assms by (subst GetConsensusMap_Some_iff) (auto simp: MakeMultiThreshold_get thresholds_small)
qed

theorem GetConsensusMap_live_witness:
  "map_of (GetConsensusMap (\<lambda>x. [x]) [(7 :: u64, [5, 9, 5, 5 :: byte])] (MakeMultiThreshold [(7, 1)] TwoFPlus1)) 7
     = Some 5"
  by (rule GetConsensusMap_live [where f = 1 and items = "[5, 9, 5, 5]" and hs = "[5, 5, 5]" and bs = "[9]"])
    (simp_all add: gm_ok_def collision_free_def inj_on_def)

lemma GetConsensusMap_mset [det_intros]:
  assumes "gmm_eq m m'" and "collision_free sha m"
  shows "gm_eq (GetConsensusMap sha m t) (GetConsensusMap sha m' t)"
  unfolding GetConsensusMap_def
proof (rule gmm_eq_collect [OF assms(1)])
  fix k and xs ys
  assume "(k, xs) \<in> set m" and eq: "mset xs = mset ys"
  then have inj: "inj_on sha (set xs)" "inj_on sha (set ys)"
    using assms(2) mset_eq_setD [OF eq] by (auto simp: collision_free_def)
  have cnt: "count_list xs = count_list ys" "set xs = set ys"
    using eq mset_eq_setD [OF eq] by (auto simp: fun_eq_iff simp flip: count_mset)
  have "minObservation_GetValid (fold minObservation_Add xs (NewMinObservation sha n None)) = [x] \<longleftrightarrow>
      minObservation_GetValid (fold minObservation_Add ys (NewMinObservation sha n None)) = [x]" for n x
    by (simp add: consensus_item_iff inj cnt)
  note case_singleton_cong [OF this]
  then show "(case t k of None \<Rightarrow> None
     | Some n \<Rightarrow> case minObservation_GetValid (fold minObservation_Add xs (NewMinObservation sha n None)) of [x] \<Rightarrow> Some x | _ \<Rightarrow> None)
   = (case t k of None \<Rightarrow> None
     | Some n \<Rightarrow> case minObservation_GetValid (fold minObservation_Add ys (NewMinObservation sha n None)) of [x] \<Rightarrow> Some x | _ \<Rightarrow> None)"
    by (cases "t k") simp_all
qed

subsection \<open>Ordered consensus and the aggregators\<close>

definition small_thresholds :: "'k MultiThreshold \<Rightarrow> bool" where
  "small_thresholds g \<longleftrightarrow> (\<forall>k t. g k = Some t \<longrightarrow> 0 \<le> t \<and> t < 2 ^ 62)"

lemma s64_threshold: "0 \<le> t \<Longrightarrow> t < 2 ^ 62 \<Longrightarrow> s64 (2 * s64 t + 1) = 2 * t + 1"
  by (simp add: s64_id)

lemma GetOrderedConsensus_Ok:
  assumes "small_thresholds minObs"
  shows "GetOrderedConsensus m minObs = Ok (gm_collect
    (\<lambda>k items. case minObs k of None \<Rightarrow> None
      | Some t \<Rightarrow> if 0 < t \<and> 2 * t + 1 \<le> int (length items) then Some (sort items ! nat t) else None) m)"
  unfolding GetOrderedConsensus_def
proof (rule gm_collect_r_Ok)
  fix k and items :: "'b list"
  have "s64 (2 * s64 t + 1) = 2 * t + 1 \<and> 0 \<le> t" if "minObs k = Some t" for t
    using assms that by (auto simp: small_thresholds_def intro!: s64_threshold)
  then show "(case minObs k of None \<Rightarrow> Ok None
      | Some t \<Rightarrow> if t \<le> 0 then Ok None
                else if int (length items) < s64 (2 * s64 t + 1) then Ok None
                else rbind (slice_get (sort items) t) (\<lambda>v. Ok (Some v))) =
    Ok (case minObs k of None \<Rightarrow> None
      | Some t \<Rightarrow> if 0 < t \<and> 2 * t + 1 \<le> int (length items) then Some (sort items ! nat t) else None)"
    by (auto simp: slice_get_def split: option.splits)
qed

lemma gm_eq_GetOrderedConsensus [det_intros]:
  assumes "gm_eq m m'"
  shows "rel_result gm_eq (GetOrderedConsensus m minObs) (GetOrderedConsensus m' minObs)"
  unfolding GetOrderedConsensus_def
  by (rule gm_eq_collect_r [OF assms])
    (auto split: option.splits simp: slice_get_def)

text \<open>C30. \<open>GetOrderedConsensus\<close> with a positive fault bound f as threshold: it does not panic, it
  decides every key that has at least 2f + 1 observations, and when at most f of them are faulty the
  decided value lies between two honest ones. A key with fewer observations is left undecided.\<close>

theorem GetOrderedConsensus_sandwich:
  assumes "gm_ok itemsByKey" and "small_thresholds minObs"
    and "map_of itemsByKey key = Some items" and "minObs key = Some f" and "0 < f"
  shows "\<exists>r. GetOrderedConsensus itemsByKey minObs = Ok r \<and>
    (int (length items) < 2 * f + 1 \<longrightarrow> map_of r key = None) \<and>
    (2 * f + 1 \<le> int (length items) \<longrightarrow> mset items = mset hs + mset bs \<longrightarrow> int (length bs) \<le> f \<longrightarrow>
       (\<exists>v lo hi. map_of r key = Some v \<and> lo \<in> set hs \<and> hi \<in> set hs \<and> lo \<le> v \<and> v \<le> hi))"
proof -
  have "\<exists>v lo hi. slice_get (sort items) f = Ok v \<and> lo \<in> set hs \<and> hi \<in> set hs \<and> lo \<le> v \<and> v \<le> hi"
    if "2 * f + 1 \<le> int (length items)" "mset items = mset hs + mset bs" "int (length bs) \<le> f"
    using that assms(5) by (intro ordp.pick_sandwich [of f items hs bs]) linarith+
  then show ?thesis
    using assms by (auto simp: GetOrderedConsensus_Ok map_of_gm_collect slice_get_def split: if_splits)
qed

theorem GetOrderedConsensus_sandwich_witness:
  "\<exists>r. GetOrderedConsensus [(7 :: u64, [30, 10, 99, 20 :: int])] (MakeConstantThreshold 1) = Ok r \<and>
     (\<exists>v lo hi. map_of r 7 = Some v \<and> lo \<in> set [10, 20, 30] \<and> hi \<in> set [10, 20, 30] \<and> lo \<le> v \<and> v \<le> hi)"
  using GetOrderedConsensus_sandwich [of "[(7 :: u64, [30, 10, 99, 20 :: int])]" "MakeConstantThreshold 1" 7
      "[30, 10, 99, 20]" 1 "[10, 20, 30]" "[99]"]
  by (simp add: gm_ok_def small_thresholds_def MakeConstantThreshold_def add_mset_commute)

lemma GetConsensusMapAggregator_Ok:
  assumes "\<And>k vs t. (k, vs) \<in> set m \<Longrightarrow> f k = Some t \<Longrightarrow> s64 t \<le> int (length vs) \<Longrightarrow> agg vs = Ok (g vs)"
  shows "GetConsensusMapAggregator m f agg = Ok (gm_collect
    (\<lambda>k vs. case f k of None \<Rightarrow> None | Some t \<Rightarrow> if int (length vs) < s64 t then None else Some (g vs)) m)"
  unfolding GetConsensusMapAggregator_def
  by (rule gm_collect_r_Ok) (auto simp: assms split: option.splits)

lemma gm_eq_GetConsensusMapAggregator [det_intros]:
  assumes "gm_eq m m'" and "\<And>vs e. agg vs \<noteq> Error e"
  shows "rel_result gm_eq (GetConsensusMapAggregator m f agg) (GetConsensusMapAggregator m' f agg)"
  unfolding GetConsensusMapAggregator_def
  by (rule gm_eq_collect_r [OF assms(1)])
    (use assms(2) in \<open>auto split: option.splits simp: rbind_Error_iff\<close>)

lemma Median_not_Error [simp]: "Median z key vs \<noteq> Error e"
  by (simp add: Median_def)

lemma TimestampedBigAggregator_not_Error [simp]: "TimestampedBigAggregator us \<noteq> Error e"
  by (auto simp: TimestampedBigAggregator_def rbind_Error_iff)

lemma TimestampedBigAggregator_medians:
  "TimestampedBigAggregator us =
     rbind (BigIntMedian (map tb_Value us)) (\<lambda>p. rbind (TimestampsMedian (map tb_Timestamp us))
       (\<lambda>t. Ok \<lparr>tb_Timestamp = t, tb_Value = p\<rparr>))"
  by (simp add: TimestampedBigAggregator_def BigIntMedian_def TimestampsMedian_def)

text \<open>The fee quoter updates of a key, aggregated with the threshold 2f + 1: when no observed
  price is nil and at most f observations are faulty, the agreed price lies between the prices of
  two honest oracles and the agreed timestamp between two honest timestamps.\<close>

theorem TimestampedBigAggregator_sandwich:
  assumes "\<forall>u \<in> set us. tb_Value u \<noteq> None"
    and "mset us = mset hs + mset bs" and "2 * length bs < length us"
  shows "\<exists>u lo hi lo' hi'. TimestampedBigAggregator us = Ok u \<and> {lo, hi, lo', hi'} \<subseteq> set hs \<and>
    tb_Value lo \<le> tb_Value u \<and> tb_Value u \<le> tb_Value hi \<and>
    tb_Timestamp lo' \<le> tb_Timestamp u \<and> tb_Timestamp u \<le> tb_Timestamp hi'"
proof -
  have ms: "mset (map g us) = mset (map g hs) + mset (map g bs)" for g :: "TimestampedBig \<Rightarrow> 'c"
    by (simp add: assms(2))
  have n: "length bs \<le> length us div 2" "length us div 2 + length bs < length us"
    using assms(3) by linarith+
  have "big_usable (map tb_Value us)" using assms(1,3) by (auto simp: big_usable_def)
  from bim.pick_sandwich [OF this ms] n obtain p lo hi where
    p: "BigIntMedian (map tb_Value us) = Ok p" "lo \<in> set hs" "hi \<in> set hs" "tb_Value lo \<le> p" "p \<le> tb_Value hi"
    by fastforce
  have "map tb_Timestamp us \<noteq> []" using assms(3) by auto
  from tsm.pick_sandwich [OF this ms] n obtain t lo' hi' where
    "TimestampsMedian (map tb_Timestamp us) = Ok t" "lo' \<in> set hs" "hi' \<in> set hs"
    "tb_Timestamp lo' \<le> t" "t \<le> tb_Timestamp hi'"
    by fastforce
  with p show ?thesis
    unfolding TimestampedBigAggregator_medians
    by (intro exI [of _ "\<lparr>tb_Timestamp = t, tb_Value = p\<rparr>"] exI [of _ lo] exI [of _ hi]
        exI [of _ lo'] exI [of _ hi']) simp
qed

theorem TimestampedBigAggregator_sandwich_witness:
  "\<exists>u. TimestampedBigAggregator
     [\<lparr>tb_Timestamp = 5, tb_Value = Some 10\<rparr>, \<lparr>tb_Timestamp = 0, tb_Value = Some 999\<rparr>,
      \<lparr>tb_Timestamp = 6, tb_Value = Some 11\<rparr>] = Ok u"
  using TimestampedBigAggregator_sandwich
    [of "[\<lparr>tb_Timestamp = 5, tb_Value = Some 10\<rparr>, \<lparr>tb_Timestamp = 0, tb_Value = Some 999\<rparr>,
          \<lparr>tb_Timestamp = 6, tb_Value = Some 11\<rparr>]"
        "[\<lparr>tb_Timestamp = 5, tb_Value = Some 10\<rparr>, \<lparr>tb_Timestamp = 6, tb_Value = Some 11\<rparr>]"
        "[\<lparr>tb_Timestamp = 0, tb_Value = Some 999\<rparr>]"]
  by (auto simp: add_mset_commute)

lemma Median_big_Ok:
  fixes vs :: "BigInt list"
  assumes "\<forall>v \<in> set vs. v \<noteq> None" and "vs \<noteq> []"
  shows "\<exists>v. Median None id vs = Ok (Some v)"
  using bim.pick_member [of vs] assms by (auto simp: BigIntMedian_def big_usable_def)

lemma Median_time_Ok: "\<exists>t. Median (0 :: time) Some vs = Ok t"
  by (simp add: Median_def)

lemma GetConsensusMapAggregator_all:
  assumes "gm_ok m" and "\<And>k vs. (k, vs) \<in> set m \<Longrightarrow> \<exists>v. agg vs = Ok v \<and> Q v"
  shows "\<exists>r. GetConsensusMapAggregator m f agg = Ok r \<and> gm_ok r \<and> (\<forall>(k, v) \<in> set r. Q v)"
proof -
  let ?g = "\<lambda>vs. case agg vs of Ok v \<Rightarrow> v"
  let ?h = "\<lambda>k vs. case f k of None \<Rightarrow> None | Some t \<Rightarrow> if int (length vs) < s64 t then None else Some (?g vs)"
  have "GetConsensusMapAggregator m f agg = Ok (gm_collect ?h m)"
    by (rule GetConsensusMapAggregator_Ok) (use assms(2) in fastforce)
  moreover have "Q v" if "(k, v) \<in> set (gm_collect ?h m)" for k v
  proof -
    from that have "map_of (gm_collect ?h m) k = Some v" by (simp add: gm_get_iff)
    then obtain vs where "(k, vs) \<in> set m" "v = ?g vs"
      using assms(1) by (auto simp: map_of_gm_collect gm_get_iff split: option.splits if_splits)
    with assms(2) [of k vs] show ?thesis by auto
  qed
  ultimately show ?thesis by auto
qed

end
