(* ===== verification/Libs.thy ===== *)
theory Libs
  imports Consensus
begin

unbundle bit_operations_syntax

text \<open>
  The arithmetic and slice helpers of internal/libs: price deviation and gas price conversion
  (mathslib/calc.go), bit flags, left padding, the sorted middle and the generic slice functions
  (slicelib). \<open>lib_GetSelectorFamily\<close> and the two Hedera selectors come from chain-selectors.
\<close>

section \<open>mathslib/calc.go\<close>

definition isHederaSelector :: "ccip_lib \<Rightarrow> ChainSelector \<Rightarrow> bool" where
  "isHederaSelector lib s = (s = lib_HEDERA_MAINNET lib \<or> s = lib_HEDERA_TESTNET lib)"

text \<open>\<open>Deviates\<close> on non-nil numbers, and with a panic on a nil one: \<open>BitLen\<close> and \<open>Cmp\<close> dereference both
  pointers on every path. \<open>ppb\<close> is an \<open>int64\<close>.\<close>

definition deviates_int :: "int \<Rightarrow> int \<Rightarrow> int \<Rightarrow> bool" where
  "deviates_int x1 x2 ppb =
     (if x1 = 0 \<or> x2 = 0 then x1 \<noteq> x2
      else let (x1, x2) = (if x1 < x2 then (x2, x1) else (x1, x2));
               diff = x1 - x2;
               diff = diff * 1000000000;
               diff = big_div diff x2
           in ppb < diff)"

definition Deviates :: "BigInt \<Rightarrow> BigInt \<Rightarrow> int \<Rightarrow> bool result" where
  "Deviates x1 x2 ppb =
     (case (x1, x2) of (Some a, Some b) \<Rightarrow> Ok (deviates_int a b ppb) | _ \<Rightarrow> Panic)"

definition big_mul_div :: "BigInt \<Rightarrow> BigInt \<Rightarrow> int \<Rightarrow> BigInt result" where
  "big_mul_div a b d =
     (case (a, b) of (Some x, Some y) \<Rightarrow> Ok (Some (big_div (x * y) d)) | _ \<Rightarrow> Panic)"

definition CalculateUsdPerUnitGas ::
  "ccip_lib \<Rightarrow> ChainSelector \<Rightarrow> BigInt \<Rightarrow> BigInt \<Rightarrow> BigInt result" where
  "CalculateUsdPerUnitGas lib sourceChainSelector sourceGasPrice usdPerFeeCoin =
     rbind (wrap_err ''failed to get chain family for selector'' (lib_GetSelectorFamily lib sourceChainSelector))
       (\<lambda>family. case family of
          FamilyEVM \<Rightarrow>
            (let gasPrice =
                   (if isHederaSelector lib sourceChainSelector
                    then map_option (\<lambda>p. big_div p 10000000000) sourceGasPrice else sourceGasPrice)
             in big_mul_div gasPrice usdPerFeeCoin (10 ^ 18))
        | FamilySolana \<Rightarrow> big_mul_div sourceGasPrice usdPerFeeCoin (10 ^ 24)
        | FamilyAptos \<Rightarrow> big_mul_div sourceGasPrice usdPerFeeCoin (10 ^ 18)
        | FamilySui \<Rightarrow> big_mul_div sourceGasPrice usdPerFeeCoin (10 ^ 18)
        | FamilyTon \<Rightarrow> big_mul_div sourceGasPrice usdPerFeeCoin (10 ^ 18)
        | FamilyOther _ \<Rightarrow> Error (Err ''unsupported family''))"

section \<open>slicelib\<close>

definition BigIntSortedMiddle :: "BigInt list \<Rightarrow> BigInt result" where
  "BigIntSortedMiddle vals =
     (if vals = [] then Ok None
      else if None \<in> set vals \<and> (\<exists>v \<in> set vals. v \<noteq> None) then Panic
      else Ok (sort vals ! (length vals div 2)))"

text \<open>\<open>for i := range bools\<close>, the index carried along.\<close>

fun bools_to_flags :: "nat \<Rightarrow> bool list \<Rightarrow> int \<Rightarrow> int" where
  "bools_to_flags i [] encodedFlags = encodedFlags"
| "bools_to_flags i (b # bools) encodedFlags =
     bools_to_flags (Suc i) bools (if b then set_bit i encodedFlags else encodedFlags)"

definition BoolsToBitFlags :: "bool list \<Rightarrow> int" where
  "BoolsToBitFlags bools = bools_to_flags 0 bools 0"

definition BitFlagsToBools :: "int \<Rightarrow> int \<Rightarrow> bool list" where
  "BitFlagsToBools encodedFlags n = map (\<lambda>i. bit encodedFlags i) [0 ..< nat n]"

definition LeftPadBytes :: "byte list \<Rightarrow> int \<Rightarrow> byte list" where
  "LeftPadBytes bs l =
     (if l \<le> int (length bs) then bs
      else replicate (nat l - length bs) 0 @ bs)"

definition CountUnique :: "'a list \<Rightarrow> int" where
  "CountUnique items = int (length (fold (\<lambda>item m. gm_put item () m) items []))"

definition Flatten :: "'a list list \<Rightarrow> 'a list" where
  "Flatten slices = fold (\<lambda>s res. res @ s) slices []"

text \<open>A \<open>mapset.Set\<close> is kept as the list of its elements, in the order \<open>ToSlice\<close> happens to return.\<close>

type_synonym 'a mapset = "'a list"

definition mapset_add :: "'a \<Rightarrow> 'a mapset \<Rightarrow> 'a mapset" where
  "mapset_add x s = (if x \<in> set s then s else s @ [x])"

definition mapset_of :: "'a list \<Rightarrow> 'a mapset" where
  "mapset_of xs = fold mapset_add xs []"

definition ToSortedSlice :: "'a :: linorder mapset \<Rightarrow> 'a list" where
  "ToSortedSlice s = sort s"

section \<open>Lemmas\<close>

lemma set_mapset_add [simp]: "set (mapset_add x s) = insert x (set s)"
  by (auto simp: mapset_add_def)

lemma distinct_mapset_add [simp]: "distinct s \<Longrightarrow> distinct (mapset_add x s)"
  by (auto simp: mapset_add_def)

lemma set_mapset_of [simp]: "set (mapset_of xs) = set xs"
proof -
  have "set (fold mapset_add xs s) = set xs \<union> set s" for s
    by (induction xs arbitrary: s) auto
  then show ?thesis by (simp add: mapset_of_def)
qed

lemma distinct_mapset_of [simp]: "distinct (mapset_of xs)"
proof -
  have "distinct s \<Longrightarrow> distinct (fold mapset_add xs s)" for s
    by (induction xs arbitrary: s) auto
  then show ?thesis by (simp add: mapset_of_def)
qed

lemma ToSortedSlice_unique:
  assumes "distinct s" and "distinct s'" and "set s = set s'"
  shows "ToSortedSlice s = ToSortedSlice s'"
  unfolding ToSortedSlice_def using assms
  by (metis distinct_sort set_sort sorted_distinct_set_unique sorted_sort)

lemma Flatten_concat: "Flatten xss = concat xss"
proof -
  have "fold (\<lambda>s res. res @ s) xss acc = acc @ concat xss" for acc
    by (induction xss arbitrary: acc) auto
  then show ?thesis by (simp add: Flatten_def)
qed

lemma CountUnique_card: "CountUnique items = int (card (set items))"
proof -
  have ok: "gm_ok (fold (\<lambda>item m. gm_put item () m) items [])"
    using gm.ok_fold_put [of "[]" id "\<lambda>_. ()" items] by simp
  have "fst ` set (fold (\<lambda>item m. gm_put item () m) items m) = set items \<union> fst ` set m" for m
    by (induction items arbitrary: m) (auto simp: gm_keys_put)
  from this [of "[]"] ok show ?thesis
    unfolding CountUnique_def gm_ok_def by (metis distinct_card image_empty length_map list.set(1) set_map sup_bot.right_neutral)
qed

lemma BigIntSortedMiddle_Median: "BigIntSortedMiddle vals = BigIntMedian vals"
  by (auto simp: BigIntSortedMiddle_def BigIntMedian_def Median_def simp flip: id_def)

lemma deviates_int_sym: "deviates_int x1 x2 ppb = deviates_int x2 x1 ppb"
  by (auto simp: deviates_int_def Let_def)

lemma big_div_gt_iff:
  assumes "0 < y"
  shows "p < big_div x y \<longleftrightarrow> (p + 1) * y \<le> x"
proof
  assume "p < big_div x y"
  then have "(p + 1) * y \<le> x div y * y" using assms by (intro mult_right_mono) (auto simp: big_div_def)
  also have "\<dots> \<le> x" using assms by (simp add: minus_mod_eq_div_mult [symmetric])
  finally show "(p + 1) * y \<le> x" .
next
  assume "(p + 1) * y \<le> x"
  from zdiv_mono1 [OF this assms] show "p < big_div x y" using assms by (simp add: big_div_def)
qed

lemma big_div_nonneg: "0 \<le> x \<Longrightarrow> 0 < y \<Longrightarrow> 0 \<le> big_div x y"
  by (simp add: big_div_def pos_imp_zdiv_nonneg_iff)

lemma bit_bools_to_flags:
  "bit (bools_to_flags i bs e) j = (if i \<le> j \<and> j < i + length bs then bs ! (j - i) \<or> bit e j else bit e j)"
proof (induction bs arbitrary: i e)
  case (Cons b bs)
  then show ?case
    by (auto simp: bit_set_bit_iff nth_Cons' Suc_le_eq)
qed auto

lemma BoolsToBitFlags_bound: "0 \<le> BoolsToBitFlags bs \<and> BoolsToBitFlags bs < 2 ^ length bs"
proof -
  have nn: "0 \<le> e \<Longrightarrow> 0 \<le> bools_to_flags i bs e" for i e
    by (induction bs arbitrary: i e) auto
  have "take_bit (length bs) (BoolsToBitFlags bs) = BoolsToBitFlags bs"
    by (rule bit_eqI) (auto simp: bit_take_bit_iff BoolsToBitFlags_def bit_bools_to_flags)
  then show ?thesis
    using nn [of 0 0] by (metis BoolsToBitFlags_def order_refl take_bit_int_less_exp)
qed

text \<open>The deviation test: it is symmetric in the two prices, it panics exactly on a nil price, and for
  positive prices it fires exactly when the difference is at least \<open>ppb + 1\<close> billionths of the smaller
  price, whatever the size of the numbers.\<close>

theorem Deviates_spec:
  "Deviates x1 x2 ppb = Deviates x2 x1 ppb \<and>
   (Deviates x1 x2 ppb = Panic \<longleftrightarrow> x1 = None \<or> x2 = None) \<and>
   (\<forall>a b. x1 = Some a \<and> x2 = Some b \<and> 0 < a \<and> 0 < b \<longrightarrow>
     (Deviates x1 x2 ppb = Ok True \<longleftrightarrow> (ppb + 1) * min a b \<le> (max a b - min a b) * 1000000000))"
proof -
  have "deviates_int a b ppb \<longleftrightarrow> (ppb + 1) * min a b \<le> (max a b - min a b) * 1000000000"
    if "0 < a" "0 < b" for a b
    using that by (auto simp: deviates_int_def Let_def big_div_gt_iff min_def max_def)
  then show ?thesis
    by (auto simp: Deviates_def deviates_int_sym [of _ _ ppb] split: option.splits)
qed

theorem Deviates_spec_witness:
  "Deviates (Some 100) (Some 111) 100000000 = Ok True \<and> Deviates (Some 100) (Some 110) 100000000 = Ok False"
  using Deviates_spec [of "Some 100" "Some 111" 100000000] Deviates_spec [of "Some 100" "Some 110" 100000000]
  by (auto simp: Deviates_def)

text \<open>Bit flags: decoding the encoded flags with the original length gives the flags back, and the
  encoding fits in as many bits as there are flags.\<close>

theorem BitFlags_roundtrip:
  "BitFlagsToBools (BoolsToBitFlags bools) (int (length bools)) = bools \<and>
   0 \<le> BoolsToBitFlags bools \<and> BoolsToBitFlags bools < 2 ^ length bools"
proof -
  have "BitFlagsToBools (BoolsToBitFlags bools) (int (length bools)) = bools"
    by (rule nth_equalityI) (auto simp: BitFlagsToBools_def BoolsToBitFlags_def bit_bools_to_flags)
  then show ?thesis by (simp add: BoolsToBitFlags_bound)
qed

lemma Deviates_not_Error [simp]: "Deviates a b ppb \<noteq> Error e"
  by (simp add: Deviates_def split: option.splits)

lemma CalculateUsdPerUnitGas_set:
  assumes "a \<noteq> None" "b \<noteq> None" and "lib_GetSelectorFamily lib c \<noteq> Panic"
  shows "CalculateUsdPerUnitGas lib c a b \<noteq> Panic" "CalculateUsdPerUnitGas lib c a b = Ok v \<Longrightarrow> v \<noteq> None"
proof -
  have "CalculateUsdPerUnitGas lib c a b \<noteq> Panic \<and> (\<forall>v. CalculateUsdPerUnitGas lib c a b = Ok v \<longrightarrow> v \<noteq> None)"
  proof (cases "lib_GetSelectorFamily lib c")
    case (Ok f)
    then show ?thesis using assms(1,2)
      by (cases f) (auto simp: CalculateUsdPerUnitGas_def big_mul_div_def Let_def)
  qed (use assms(3) in \<open>auto simp: CalculateUsdPerUnitGas_def\<close>)
  then show "CalculateUsdPerUnitGas lib c a b \<noteq> Panic" "CalculateUsdPerUnitGas lib c a b = Ok v \<Longrightarrow> v \<noteq> None" by auto
qed

end
