(* ===== verification/HomeChain.thy ===== *)
theory HomeChain
  imports Libs
begin

text \<open>
  The home chain poller (internal/reader/home_chain.go) and the services of internal/plugincommon that
  rest on it: chain support, curse checks, config digests, the transmission schedule and the
  check of fChain; with chainconfig/chainconfig.go.

  The contract reader is an argument (\<open>read_page\<close>: the answer to \<open>GetLatestValue\<close> for a page index), and so is
  the JSON decoder of the opaque chain config. The locale \<open>home_chain\<close> is the contract of the
  interface \<open>HomeChain\<close>: the three derived views agree with the chain configs. The poller interprets
  it, and the chain support lemmas are proved in it.
\<close>

section \<open>chainconfig/chainconfig.go\<close>

record chain_config =
  cc_GasPriceDeviationPPB :: BigInt
  cc_DAGasPriceDeviationPPB :: BigInt
  cc_OptimisticConfirmations :: "32 word"
  cc_ChainFeeDeviationDisabled :: bool

definition ChainConfig_Validate :: "chain_config \<Rightarrow> unit result" where
  "ChainConfig_Validate cc =
     (case cc_GasPriceDeviationPPB cc of
        None \<Rightarrow> Error (Err ''GasPriceDeviationPPB not set'')
      | Some g \<Rightarrow>
          if g \<le> 0 then Error (Err ''GasPriceDeviationPPB not set or negative'')
          else (case cc_DAGasPriceDeviationPPB cc of
                  None \<Rightarrow> Error (Err ''DAGasPriceDeviationPPB not set'')
                | Some d \<Rightarrow>
                    if d \<le> 0 then Error (Err ''DAGasPriceDeviationPPB not set or negative'') else Ok ()))"

section \<open>internal/reader/home_chain.go\<close>

definition defaultConfigPageSize :: nat where
  "defaultConfigPageSize = 100"

definition MaxFailedPolls :: nat where
  "MaxFailedPolls = 10"

record HomeChainConfigMapper =
  hm_Readers :: "PeerID list"
  hm_FChain :: byte
  hm_Config :: "byte list"

record ChainConfigInfo =
  cci_ChainSelector :: ChainSelector
  cci_ChainConfig :: HomeChainConfigMapper

record ChainConfig =
  hcc_FChain :: int
  hcc_SupportedNodes :: "PeerID mapset"
  hcc_Config :: chain_config

record hc_state =
  hs_chainConfigs :: "(ChainSelector, ChainConfig) gomap"
  hs_nodeSupportedChains :: "(PeerID, ChainSelector mapset) gomap"
  hs_knownSourceChains :: "ChainSelector mapset"
  hs_fChain :: "(ChainSelector, int) gomap"

record homeChainPoller =
  hp_state :: hc_state
  hp_failedPolls :: "32 word"

definition validateChainConfigInfos :: "ChainConfigInfo \<Rightarrow> unit result" where
  "validateChainConfigInfos ci =
     (if cci_ChainSelector ci = 0 then Error (Err ''chain selector is 0'')
      else if hm_FChain (cci_ChainConfig ci) = 0 then Error (Err ''fChain is 0'')
      else if hm_Readers (cci_ChainConfig ci) = [] then Error (Err ''readers is empty'')
      else if hm_Config (cci_ChainConfig ci) = [] then Error (Err ''config is empty'')
      else Ok ())"

definition getValidChainConfigInfos :: "ChainConfigInfo list \<Rightarrow> ChainConfigInfo list" where
  "getValidChainConfigInfos infos = filter (\<lambda>ci. ret_ok (validateChainConfigInfos ci)) infos"

definition convertOnChainConfigToHomeChainConfig ::
  "(byte list \<Rightarrow> chain_config result) \<Rightarrow> ChainConfigInfo list \<Rightarrow> (ChainSelector, ChainConfig) gomap" where
  "convertOnChainConfigToHomeChainConfig decode infos =
     fold (\<lambda>ci m.
        case decode (hm_Config (cci_ChainConfig ci)) of
          Ok decoded \<Rightarrow>
            gm_put (cci_ChainSelector ci)
              \<lparr>hcc_FChain = uint (hm_FChain (cci_ChainConfig ci)),
               hcc_SupportedNodes = mapset_of (hm_Readers (cci_ChainConfig ci)),
               hcc_Config = decoded\<rparr> m
        | _ \<Rightarrow> m) infos []"

definition createFChain :: "(ChainSelector, ChainConfig) gomap \<Rightarrow> (ChainSelector, int) gomap" where
  "createFChain chainConfigs = gm_collect (\<lambda>_ config. Some (hcc_FChain config)) chainConfigs"

definition createKnownChains :: "(ChainSelector, ChainConfig) gomap \<Rightarrow> ChainSelector mapset" where
  "createKnownChains chainConfigs = fold (\<lambda>(chain, _) s. mapset_add chain s) chainConfigs []"

definition add_node_chain ::
  "ChainSelector \<Rightarrow> PeerID \<Rightarrow> (PeerID, ChainSelector mapset) gomap \<Rightarrow> (PeerID, ChainSelector mapset) gomap" where
  "add_node_chain chainSelector p2pID m =
     (let m = (case map_of m p2pID of None \<Rightarrow> gm_put p2pID [] m | Some _ \<Rightarrow> m)
      in gm_put p2pID (mapset_add chainSelector (gm_vals m p2pID)) m)"

definition createNodesSupportedChains ::
  "(ChainSelector, ChainConfig) gomap \<Rightarrow> (PeerID, ChainSelector mapset) gomap" where
  "createNodesSupportedChains chainConfigs =
     fold (\<lambda>(chainSelector, config) m. fold (add_node_chain chainSelector) (hcc_SupportedNodes config) m)
       chainConfigs []"

definition setState :: "(ChainSelector, ChainConfig) gomap \<Rightarrow> homeChainPoller \<Rightarrow> homeChainPoller" where
  "setState chainConfigs r =
     r\<lparr>hp_state :=
        \<lparr>hs_chainConfigs = chainConfigs,
         hs_nodeSupportedChains = createNodesSupportedChains chainConfigs,
         hs_knownSourceChains = createKnownChains chainConfigs,
         hs_fChain = createFChain chainConfigs\<rparr>\<rparr>"

text \<open>The page loop of \<open>fetchAndSetConfigs\<close>. \<open>ctx_err\<close> is the state of the context before each read. The
  loop has no bound of its own: not returning is \<^term>\<open>None\<close>.\<close>

partial_function (option) fetch_pages ::
  "(u64 \<Rightarrow> error option) \<Rightarrow> (u64 \<Rightarrow> ChainConfigInfo list result) \<Rightarrow> u64 \<Rightarrow> ChainConfigInfo list
     \<Rightarrow> ChainConfigInfo list result option" where
  "fetch_pages ctx_err read_page pageIndex infos =
     (case ctx_err pageIndex of
        Some e \<Rightarrow> Some (Error e)
      | None \<Rightarrow>
          (case wrap_err ''get config'' (read_page pageIndex) of
             Error e \<Rightarrow> Some (Error e)
           | Panic \<Rightarrow> Some Panic
           | Ok page \<Rightarrow>
               (let infos = infos @ getValidChainConfigInfos page
                in if length page < defaultConfigPageSize then Some (Ok infos)
                   else fetch_pages ctx_err read_page (pageIndex + 1) infos)))"

definition fetchAndSetConfigs ::
  "(u64 \<Rightarrow> error option) \<Rightarrow> (u64 \<Rightarrow> ChainConfigInfo list result) \<Rightarrow> (byte list \<Rightarrow> chain_config result)
     \<Rightarrow> homeChainPoller \<Rightarrow> (homeChainPoller \<times> unit result) option" where
  "fetchAndSetConfigs ctx_err read_page decode r =
     (case fetch_pages ctx_err read_page 0 [] of
        None \<Rightarrow> None
      | Some (Ok infos) \<Rightarrow> Some (setState (convertOnChainConfigToHomeChainConfig decode infos) r, Ok ())
      | Some (Error e) \<Rightarrow> Some (r, Error e)
      | Some Panic \<Rightarrow> Some (r, Panic))"

text \<open>One round of \<open>poll\<close>: a fetch and the count of failures in a row (an \<open>atomic.Uint32\<close>).\<close>

definition poll_round ::
  "(u64 \<Rightarrow> error option) \<Rightarrow> (u64 \<Rightarrow> ChainConfigInfo list result) \<Rightarrow> (byte list \<Rightarrow> chain_config result)
     \<Rightarrow> homeChainPoller \<Rightarrow> homeChainPoller option" where
  "poll_round ctx_err read_page decode r =
     (case fetchAndSetConfigs ctx_err read_page decode r of
        Some (r', Ok _) \<Rightarrow> Some (r'\<lparr>hp_failedPolls := 0\<rparr>)
      | Some (r', Error _) \<Rightarrow> Some (r'\<lparr>hp_failedPolls := hp_failedPolls r' + 1\<rparr>)
      | _ \<Rightarrow> None)"

definition GetChainConfig :: "homeChainPoller \<Rightarrow> ChainSelector \<Rightarrow> ChainConfig result" where
  "GetChainConfig r chainSelector =
     (case map_of (hs_chainConfigs (hp_state r)) chainSelector of
        Some c \<Rightarrow> Ok c | None \<Rightarrow> Error (Err ''chain config not found''))"

definition GetAllChainConfigs :: "homeChainPoller \<Rightarrow> (ChainSelector, ChainConfig) gomap result" where
  "GetAllChainConfigs r = Ok (hs_chainConfigs (hp_state r))"

definition GetSupportedChainsForPeer :: "homeChainPoller \<Rightarrow> PeerID \<Rightarrow> ChainSelector mapset result" where
  "GetSupportedChainsForPeer r peer =
     (case map_of (hs_nodeSupportedChains (hp_state r)) peer of None \<Rightarrow> Ok [] | Some s \<Rightarrow> Ok s)"

definition GetKnownCCIPChains :: "homeChainPoller \<Rightarrow> ChainSelector mapset result" where
  "GetKnownCCIPChains r = Ok (fold (\<lambda>(chain, _) s. mapset_add chain s) (hs_chainConfigs (hp_state r)) [])"

definition GetFChain :: "homeChainPoller \<Rightarrow> (ChainSelector, int) gomap result" where
  "GetFChain r = Ok (hs_fChain (hp_state r))"

text \<open>\<open>HealthReport\<close> appends an error when the failures in a row reach the limit.\<close>

definition HealthReport_appends_error :: "homeChainPoller \<Rightarrow> bool" where
  "HealthReport_appends_error r = (of_nat MaxFailedPolls \<le> hp_failedPolls r)"

section \<open>internal/plugincommon\<close>

definition ValidateFChain :: "(ChainSelector, int) gomap \<Rightarrow> unit result" where
  "ValidateFChain fChain =
     check_all (\<lambda>(chainSelector, f). check_that (0 < f) (Err ''fChain is not positive'')) fChain"

text \<open>A nil \<open>homeChain\<close> is an error in two of the methods; a call on it in the third panics.\<close>

record ccipChainSupport =
  cs_homeChain :: "homeChainPoller option"
  cs_oracleIDToP2PID :: "(OracleID, PeerID) gomap"
  cs_nodeID :: OracleID
  cs_destChain :: ChainSelector

definition KnownSourceChainsSlice :: "ccipChainSupport \<Rightarrow> ChainSelector list result" where
  "KnownSourceChainsSlice c =
     (case cs_homeChain c of
        None \<Rightarrow> Error (Err ''home chain is nil'')
      | Some homeChain \<Rightarrow>
          rbind (wrap_err ''error getting known chains'' (GetKnownCCIPChains homeChain))
            (\<lambda>allChains. Ok (filter (\<lambda>ch. ch \<noteq> cs_destChain c) (sort allChains))))"

definition SupportedChains :: "ccipChainSupport \<Rightarrow> OracleID \<Rightarrow> ChainSelector mapset result" where
  "SupportedChains c oracleID =
     (case map_of (cs_oracleIDToP2PID c) oracleID of
        None \<Rightarrow> Error (Err ''oracle ID not found in oracleIDToP2PID'')
      | Some p2pID \<Rightarrow>
          (case cs_homeChain c of
             None \<Rightarrow> Panic
           | Some homeChain \<Rightarrow>
               wrap_err ''error getting supported chains'' (GetSupportedChainsForPeer homeChain p2pID)))"

definition SupportsDestChain :: "ccipChainSupport \<Rightarrow> OracleID \<Rightarrow> bool result" where
  "SupportsDestChain c oracle =
     (case cs_homeChain c of
        None \<Rightarrow> Error (Err ''home chain is nil'')
      | Some homeChain \<Rightarrow>
          rbind (wrap_err ''get chain config'' (GetChainConfig homeChain (cs_destChain c)))
            (\<lambda>destChainConfig.
               case map_of (cs_oracleIDToP2PID c) oracle of
                 None \<Rightarrow> Error (Err ''oracle ID not found in oracleIDToP2PID'')
               | Some peerID \<Rightarrow> Ok (peerID \<in> set (hcc_SupportedNodes destChainConfig))))"

definition IsReportCursed ::
  "ccip_lib \<Rightarrow> CurseInfo result \<Rightarrow> ChainSelector list \<Rightarrow> bool result" where
  "IsReportCursed lib getRmnCurseInfo reportSourceChains =
     (if reportSourceChains = [] then Ok False
      else rbind (wrap_err ''error while fetching curse info'' getRmnCurseInfo) (\<lambda>curseInfo.
        if ci_GlobalCurse curseInfo \<or> ci_CursedDestination curseInfo then Ok True
        else let filtered = lib_NonCursedSourceChains lib curseInfo reportSourceChains
             in if length filtered \<noteq> length reportSourceChains then Ok True else Ok False))"

definition ConfigDigestsMatch :: "Bytes32 result \<Rightarrow> Bytes32 \<Rightarrow> (bool \<times> Bytes32) result" where
  "ConfigDigestsMatch getOffRampConfigDigest expectedDigest =
     rbind (wrap_err ''get offramp config digest'' getOffRampConfigDigest)
       (\<lambda>offRampDigest. Ok (offRampDigest = expectedDigest, offRampDigest))"

record TransmissionSchedule =
  ts_Transmitters :: "OracleID list"
  ts_TransmissionDelays :: "duration list"

text \<open>The first loop of \<open>GetTransmissionSchedule\<close>. \<open>supportsDest\<close> is the method of \<open>ChainSupport\<close>.\<close>

fun collect_transmitters :: "(OracleID \<Rightarrow> bool result) \<Rightarrow> OracleID list \<Rightarrow> OracleID list result" where
  "collect_transmitters supportsDest [] = Ok []"
| "collect_transmitters supportsDest (o1 # os) =
     rbind (wrap_err ''supports dest chain'' (supportsDest o1)) (\<lambda>b.
     rbind (collect_transmitters supportsDest os) (\<lambda>ts. Ok (if b then o1 # ts else ts)))"

definition GetTransmissionSchedule ::
  "(OracleID \<Rightarrow> bool result) \<Rightarrow> OracleID list \<Rightarrow> duration \<Rightarrow> TransmissionSchedule result" where
  "GetTransmissionSchedule supportsDest allTheOracles delayMultiplier =
     rbind (collect_transmitters supportsDest allTheOracles) (\<lambda>ts.
       let transmitters = sort ts;
           delays = map (\<lambda>i. s64 (delayMultiplier * int i)) [0 ..< length transmitters]
       in if transmitters = [] then Error (Err ''no transmitters'')
          else if length transmitters \<noteq> length delays
          then Error (Err ''critical issue mismatched transmitters and transmission delays'')
          else Ok \<lparr>ts_Transmitters = transmitters, ts_TransmissionDelays = delays\<rparr>)"

section \<open>The derived views of the home chain\<close>

locale home_chain =
  fixes inv :: "'s \<Rightarrow> bool"
    and config :: "'s \<Rightarrow> ChainSelector \<Rightarrow> ChainConfig result"
    and supported_for :: "'s \<Rightarrow> PeerID \<Rightarrow> ChainSelector mapset result"
    and known :: "'s \<Rightarrow> ChainSelector mapset result"
    and f_chain :: "'s \<Rightarrow> (ChainSelector, int) gomap result"
  assumes supported_for_law:
      "inv s \<Longrightarrow> \<exists>cs. supported_for s p = Ok cs \<and> distinct cs \<and>
         (\<forall>c. c \<in> set cs \<longleftrightarrow> (\<exists>cfg. config s c = Ok cfg \<and> p \<in> set (hcc_SupportedNodes cfg)))"
    and known_law:
      "inv s \<Longrightarrow> \<exists>cs. known s = Ok cs \<and> distinct cs \<and> (\<forall>c. c \<in> set cs \<longleftrightarrow> ret_ok (config s c))"
    and f_chain_law:
      "inv s \<Longrightarrow> \<exists>m. f_chain s = Ok m \<and> gm_ok m \<and>
         (\<forall>c f. map_of m c = Some f \<longleftrightarrow> (\<exists>cfg. config s c = Ok cfg \<and> f = hcc_FChain cfg))"
begin

text \<open>The per-peer view and the per-chain view give the same answer.\<close>

lemma supports_iff:
  assumes "inv s" and "config s c = Ok cfg"
  shows "\<exists>cs. supported_for s p = Ok cs \<and> (c \<in> set cs \<longleftrightarrow> p \<in> set (hcc_SupportedNodes cfg))"
  using supported_for_law [OF assms(1), of p] assms(2) by auto

lemma known_sorted:
  assumes "inv s"
  shows "\<exists>cs. known s = Ok cs \<and> sorted (filter P (sort cs)) \<and> distinct (filter P (sort cs)) \<and>
    set (filter P (sort cs)) = {c. ret_ok (config s c) \<and> P c}"
proof -
  from known_law [OF assms] obtain cs where
    cs: "known s = Ok cs" "distinct cs" "\<forall>c. c \<in> set cs \<longleftrightarrow> ret_ok (config s c)" by blast
  have "sorted (filter P (sort cs))" by (rule sorted_wrt_filter) simp
  with cs show ?thesis by auto
qed

end

lemma gm_vals_add_node_chain:
  "gm_vals (add_node_chain c p m) q = (if q = p then mapset_add c (gm_vals m p) else gm_vals m q)"
  by (auto simp: add_node_chain_def gm_vals_def update_conv' Let_def split: option.splits)

lemma fold_add_node_chain:
  "set (gm_vals (fold (add_node_chain c) ps m) q) = set (gm_vals m q) \<union> (if q \<in> set ps then {c} else {})"
  by (induction ps arbitrary: m) (auto simp: gm_vals_add_node_chain)

lemma distinct_add_node_chain:
  "distinct (gm_vals m q) \<Longrightarrow> distinct (gm_vals (add_node_chain c p m) q)"
  by (cases "q = p") (simp_all add: gm_vals_add_node_chain)

lemma distinct_fold_add_node_chain:
  "distinct (gm_vals m q) \<Longrightarrow> distinct (gm_vals (fold (add_node_chain c) ps m) q)"
  by (induction ps arbitrary: m) (simp_all add: distinct_add_node_chain)

lemma createNodesSupportedChains_spec:
  "set (gm_vals (createNodesSupportedChains m) p) = {c. \<exists>cfg. (c, cfg) \<in> set m \<and> p \<in> set (hcc_SupportedNodes cfg)}"
  "distinct (gm_vals (createNodesSupportedChains m) p)"
proof -
  let ?f = "\<lambda>(chainSelector, config) m. fold (add_node_chain chainSelector) (hcc_SupportedNodes config) m"
  have "set (gm_vals (fold ?f m n) p) = set (gm_vals n p) \<union> {c. \<exists>cfg. (c, cfg) \<in> set m \<and> p \<in> set (hcc_SupportedNodes cfg)}"
    for n by (induction m arbitrary: n) (auto simp: fold_add_node_chain split: if_splits)
  from this [of "[]"]
  show "set (gm_vals (createNodesSupportedChains m) p) = {c. \<exists>cfg. (c, cfg) \<in> set m \<and> p \<in> set (hcc_SupportedNodes cfg)}"
    by (simp add: createNodesSupportedChains_def gm_vals_def [of "[]"])
  have "distinct (gm_vals n p) \<Longrightarrow> distinct (gm_vals (fold ?f m n) p)" for n
    by (induction m arbitrary: n) (auto simp: distinct_fold_add_node_chain)
  then show "distinct (gm_vals (createNodesSupportedChains m) p)"
    by (simp add: createNodesSupportedChains_def gm_vals_def [of "[]"])
qed

lemma fold_known:
  "set (fold (\<lambda>(chain, _) s. mapset_add chain s) m s) = fst ` set m \<union> set s"
  "distinct s \<Longrightarrow> distinct (fold (\<lambda>(chain, _) s. mapset_add chain s) m s)"
  by (induction m arbitrary: s) auto

definition poller_inv :: "homeChainPoller \<Rightarrow> bool" where
  "poller_inv r \<longleftrightarrow>
     (let s = hp_state r; m = hs_chainConfigs s in
      gm_ok m \<and> hs_nodeSupportedChains s = createNodesSupportedChains m \<and>
      hs_knownSourceChains s = createKnownChains m \<and> hs_fChain s = createFChain m)"

interpretation hc: home_chain poller_inv GetChainConfig GetSupportedChainsForPeer GetKnownCCIPChains GetFChain
proof (unfold_locales, goal_cases)
  case (1 s p)
  let ?m = "hs_chainConfigs (hp_state s)"
  have ok: "gm_ok ?m" and n: "hs_nodeSupportedChains (hp_state s) = createNodesSupportedChains ?m"
    using 1 by (simp_all add: poller_inv_def Let_def)
  have "GetSupportedChainsForPeer s p = Ok (gm_vals (createNodesSupportedChains ?m) p)"
    by (simp add: GetSupportedChainsForPeer_def gm_vals_def n split: option.splits)
  moreover have "(c, cfg) \<in> set ?m \<longleftrightarrow> GetChainConfig s c = Ok cfg" for c cfg
    using gm_get_iff [OF ok, of c cfg] by (auto simp: GetChainConfig_def split: option.splits)
  ultimately show ?case by (simp add: createNodesSupportedChains_spec)
next
  case (2 s)
  show ?case
    by (auto simp: GetKnownCCIPChains_def fold_known GetChainConfig_def dom_map_of_conv_image_fst [symmetric]
        dom_def split: option.splits)
next
  case (3 s)
  then show ?case
    by (auto simp: GetFChain_def createFChain_def poller_inv_def Let_def map_of_gm_collect GetChainConfig_def
        split: option.splits)
qed

lemma poller_inv_setState: "gm_ok m \<Longrightarrow> poller_inv (setState m r)"
  by (simp add: setState_def poller_inv_def Let_def)

lemma gm_ok_convert: "gm_ok (convertOnChainConfigToHomeChainConfig decode infos)"
proof -
  let ?f = "\<lambda>ci m. case decode (hm_Config (cci_ChainConfig ci)) of
       Ok decoded \<Rightarrow> gm_put (cci_ChainSelector ci)
         \<lparr>hcc_FChain = uint (hm_FChain (cci_ChainConfig ci)),
          hcc_SupportedNodes = mapset_of (hm_Readers (cci_ChainConfig ci)), hcc_Config = decoded\<rparr> m
     | _ \<Rightarrow> m"
  have "gm_ok m \<Longrightarrow> gm_ok (fold ?f infos m)" for m
    by (induction infos arbitrary: m) (auto simp: gm.ok_put split: result.splits)
  then show ?thesis by (simp add: convertOnChainConfigToHomeChainConfig_def)
qed

lemma poller_inv_fetch:
  assumes "poller_inv r" and "fetchAndSetConfigs ctx_err read_page decode r = Some (r', res)"
  shows "poller_inv r'"
  using assms
  by (auto simp: fetchAndSetConfigs_def poller_inv_setState gm_ok_convert split: option.splits result.splits)

text \<open>The states the poller can be in: the empty one, and those left by a round of polling with any
  reader, decoder and context.\<close>

definition poller_init :: homeChainPoller where
  "poller_init = \<lparr>hp_state = \<lparr>hs_chainConfigs = [], hs_nodeSupportedChains = [],
     hs_knownSourceChains = [], hs_fChain = []\<rparr>, hp_failedPolls = 0\<rparr>"

inductive poller_reachable :: "homeChainPoller \<Rightarrow> bool" where
  init: "poller_reachable poller_init"
| round: "poller_reachable r \<Longrightarrow> poll_round ctx_err read_page decode r = Some r' \<Longrightarrow> poller_reachable r'"

definition valid_config :: "ChainSelector \<Rightarrow> ChainConfig \<Rightarrow> bool" where
  "valid_config c cfg \<longleftrightarrow> c \<noteq> 0 \<and> 0 < hcc_FChain cfg \<and> hcc_FChain cfg < 256 \<and> hcc_SupportedNodes cfg \<noteq> []"

lemma valid_infos:
  assumes "ci \<in> set (getValidChainConfigInfos infos)"
  shows "cci_ChainSelector ci \<noteq> 0" "hm_FChain (cci_ChainConfig ci) \<noteq> 0" "hm_Readers (cci_ChainConfig ci) \<noteq> []"
  using assms by (auto simp: getValidChainConfigInfos_def validateChainConfigInfos_def split: if_splits)

lemma fetch_pages_valid:
  assumes "fetch_pages ctx_err read_page i infos = Some (Ok out)"
    and "set infos \<subseteq> {ci. ret_ok (validateChainConfigInfos ci)}"
  shows "set out \<subseteq> {ci. ret_ok (validateChainConfigInfos ci)}"
proof -
  let ?P = "\<lambda>_ _ _ infos r. \<forall>out. r = Ok out \<longrightarrow> (\<forall>ci \<in> set infos. ret_ok (validateChainConfigInfos ci)) \<longrightarrow>
     (\<forall>ci \<in> set out. ret_ok (validateChainConfigInfos ci))"
  have page: "\<forall>ci \<in> set (getValidChainConfigInfos page). ret_ok (validateChainConfigInfos ci)" for page
    by (auto simp: getValidChainConfigInfos_def)
  have "?P ctx_err read_page i infos (Ok out)"
  proof (rule fetch_pages.raw_induct [where P = ?P, OF _ assms(1)])
    fix f :: "(u64 \<Rightarrow> error option) \<Rightarrow> (u64 \<Rightarrow> ChainConfigInfo list result) \<Rightarrow> u64 \<Rightarrow> ChainConfigInfo list
      \<Rightarrow> ChainConfigInfo list result option"
    fix c rp i infos r
    assume IH: "\<And>c rp i infos r. f c rp i infos = Some r \<Longrightarrow> ?P c rp i infos r"
      and body: "(case c i of Some e \<Rightarrow> Some (Error e)
        | None \<Rightarrow> (case wrap_err ''get config'' (rp i) of Error e \<Rightarrow> Some (Error e) | Panic \<Rightarrow> Some Panic
           | Ok page \<Rightarrow> (let infos = infos @ getValidChainConfigInfos page
               in if length page < defaultConfigPageSize then Some (Ok infos) else f c rp (i + 1) infos))) = Some r"
    show "?P c rp i infos r"
    proof (cases "c i = None \<and> (\<exists>page. wrap_err ''get config'' (rp i) = Ok page)")
      case True
      then obtain page where pg: "c i = None" "wrap_err ''get config'' (rp i) = Ok page" by blast
      show ?thesis
        using IH [of c rp "i + 1" "infos @ getValidChainConfigInfos page" r] page [of page] body
        by (auto simp: pg Let_def simp del: wrap_err_Ok_iff split: if_splits)
    qed (use body in \<open>auto split: option.splits result.splits\<close>)
  qed
  with assms(2) show ?thesis by blast
qed

lemma convert_valid:
  assumes "set infos \<subseteq> {ci. ret_ok (validateChainConfigInfos ci)}"
    and "map_of (convertOnChainConfigToHomeChainConfig decode infos) c = Some cfg"
  shows "valid_config c cfg"
proof -
  have step: "valid_config (cci_ChainSelector ci)
      \<lparr>hcc_FChain = uint (hm_FChain (cci_ChainConfig ci)),
       hcc_SupportedNodes = mapset_of (hm_Readers (cci_ChainConfig ci)), hcc_Config = d\<rparr>"
    if "ret_ok (validateChainConfigInfos ci)" for ci d
  proof -
    have "ci \<in> set (getValidChainConfigInfos [ci])" using that by (simp add: getValidChainConfigInfos_def)
    note v = valid_infos [OF this]
    have "uint (hm_FChain (cci_ChainConfig ci)) \<noteq> 0" using v(2) by (simp add: uint_0_iff)
    moreover have "mapset_of (hm_Readers (cci_ChainConfig ci)) \<noteq> []"
      using v(3) set_mapset_of by (metis set_empty)
    ultimately show ?thesis
      using v(1) uint_bounded [of "hm_FChain (cci_ChainConfig ci)"] by (simp add: valid_config_def order_less_le)
  qed
  let ?f = "\<lambda>ci m. case decode (hm_Config (cci_ChainConfig ci)) of
       Ok decoded \<Rightarrow> gm_put (cci_ChainSelector ci)
         \<lparr>hcc_FChain = uint (hm_FChain (cci_ChainConfig ci)),
          hcc_SupportedNodes = mapset_of (hm_Readers (cci_ChainConfig ci)), hcc_Config = decoded\<rparr> m
     | _ \<Rightarrow> m"
  have "map_of (fold ?f infos m) c = Some cfg \<Longrightarrow> (\<And>c cfg. map_of m c = Some cfg \<Longrightarrow> valid_config c cfg) \<Longrightarrow>
      valid_config c cfg" for m
    using assms(1)
  proof (induction infos arbitrary: m)
    case (Cons ci infos)
    have "valid_config c' cfg'" if "map_of (?f ci m) c' = Some cfg'" for c' cfg'
      using that Cons.prems step [of ci] by (auto simp: update_conv' split: result.splits if_splits)
    with Cons show ?case by auto
  qed simp
  from this [of "[]"] assms(2) show ?thesis by (simp add: convertOnChainConfigToHomeChainConfig_def)
qed

lemma poller_reachable_inv:
  assumes "poller_reachable r"
  shows "poller_inv r \<and> (\<forall>c cfg. GetChainConfig r c = Ok cfg \<longrightarrow> valid_config c cfg)"
  using assms
proof (induction rule: poller_reachable.induct)
  case init
  show ?case
    by (simp add: poller_init_def poller_inv_def GetChainConfig_def createNodesSupportedChains_def
        createKnownChains_def createFChain_def gm_collect_def Let_def)
next
  case (round r ctx_err read_page decode r')
  have same: "poller_inv (r\<lparr>hp_failedPolls := n\<rparr>) = poller_inv r"
    "GetChainConfig (r\<lparr>hp_failedPolls := n\<rparr>) = GetChainConfig r" for r n
    by (simp_all add: poller_inv_def GetChainConfig_def fun_eq_iff)
  from round.hyps(2) show ?case
  proof (cases "fetch_pages ctx_err read_page 0 []")
    case (Some res)
    show ?thesis
    proof (cases res)
      case (Ok infos)
      with Some have "set infos \<subseteq> {ci. ret_ok (validateChainConfigInfos ci)}"
        using fetch_pages_valid [of ctx_err read_page 0 "[]" infos] by simp
      with Ok Some round.hyps(2) show ?thesis
        by (auto simp: poll_round_def fetchAndSetConfigs_def same poller_inv_setState gm_ok_convert)
          (auto simp: GetChainConfig_def setState_def intro: convert_valid split: option.splits)
    qed (use Some round in \<open>auto simp: poll_round_def fetchAndSetConfigs_def same\<close>)
  qed (auto simp: poll_round_def fetchAndSetConfigs_def)
qed

lemma fetch_pages_step:
  assumes "ctx_err i = None" and "read_page i = Ok page"
  shows "fetch_pages ctx_err read_page i infos =
    (if length page < defaultConfigPageSize then Some (Ok (infos @ getValidChainConfigInfos page))
     else fetch_pages ctx_err read_page (i + 1) (infos @ getValidChainConfigInfos page))"
  by (subst fetch_pages.simps) (simp add: assms)

lemma fetch_pages_returns:
  assumes "\<And>i. i \<le> n \<Longrightarrow> ctx_err (of_nat i) = None" and "\<And>i. i \<le> n \<Longrightarrow> read_page (of_nat i) = Ok (pages i)"
    and "\<And>i. i < n \<Longrightarrow> defaultConfigPageSize \<le> length (pages i)" and "length (pages n) < defaultConfigPageSize"
    and "k \<le> n"
  shows "fetch_pages ctx_err read_page (of_nat k) infos =
    Some (Ok (infos @ concat (map (\<lambda>i. getValidChainConfigInfos (pages i)) [k ..< Suc n])))"
  using assms(5)
proof (induction "n - k" arbitrary: k infos)
  case 0
  then have "k = n" by simp
  with assms show ?case by (subst fetch_pages_step [where page = "pages n"]) simp_all
next
  case (Suc d)
  then have k: "k < n" "d = n - Suc k" by auto
  have "fetch_pages ctx_err read_page (of_nat k) infos =
      fetch_pages ctx_err read_page (of_nat (Suc k)) (infos @ getValidChainConfigInfos (pages k))"
    using k assms(1,2) [of k] assms(3) [of k]
    by (subst fetch_pages_step [where page = "pages k"]) (simp_all add: add.commute)
  also have "\<dots> = Some (Ok ((infos @ getValidChainConfigInfos (pages k)) @
      concat (map (\<lambda>i. getValidChainConfigInfos (pages i)) [Suc k ..< Suc n])))"
    using k by (intro Suc.hyps) simp_all
  finally show ?case using k by (simp add: upt_conv_Cons del: upt_Suc)
qed

text \<open>The page loop of \<open>fetchAndSetConfigs\<close> terminates at the first page shorter than the page size,
  whatever the validity of the entries, and the poller then holds exactly the configs of the
  valid entries of the pages read.\<close>

theorem fetchAndSetConfigs_returns:
  assumes "\<forall>i \<le> n. ctx_err (of_nat i) = None \<and> read_page (of_nat i) = Ok (pages i)"
    and "\<forall>i < n. defaultConfigPageSize \<le> length (pages i)" and "length (pages n) < defaultConfigPageSize"
  shows "fetchAndSetConfigs ctx_err read_page decode r =
    Some (setState (convertOnChainConfigToHomeChainConfig decode
            (concat (map (\<lambda>i. filter (\<lambda>ci. validateChainConfigInfos ci = Ok ()) (pages i)) [0 ..< Suc n]))) r, Ok ())"
proof -
  have "ret_ok (validateChainConfigInfos ci) \<longleftrightarrow> validateChainConfigInfos ci = Ok ()" for ci
    by (cases "validateChainConfigInfos ci") auto
  moreover have "fetch_pages ctx_err read_page 0 [] =
      Some (Ok (concat (map (\<lambda>i. getValidChainConfigInfos (pages i)) [0 ..< Suc n])))"
    using fetch_pages_returns [of n ctx_err read_page pages 0 "[]"] assms by simp
  ultimately show ?thesis by (simp add: fetchAndSetConfigs_def getValidChainConfigInfos_def del: upt_Suc)
qed

definition sample_info :: ChainConfigInfo where
  "sample_info = \<lparr>cci_ChainSelector = 5, cci_ChainConfig = \<lparr>hm_Readers = [[1], [2]], hm_FChain = 1, hm_Config = [0]\<rparr>\<rparr>"

definition sample_decode :: "byte list \<Rightarrow> chain_config result" where
  "sample_decode _ = Ok \<lparr>cc_GasPriceDeviationPPB = Some 1, cc_DAGasPriceDeviationPPB = Some 1,
     cc_OptimisticConfirmations = 0, cc_ChainFeeDeviationDisabled = False\<rparr>"

theorem fetchAndSetConfigs_returns_witness:
  "\<exists>r'. fetchAndSetConfigs (\<lambda>_. None) (\<lambda>i. Ok (if i = 0 then replicate 100 (sample_info\<lparr>cci_ChainSelector := 0\<rparr>) else [sample_info]))
     sample_decode poller_init = Some (r', Ok ())"
  using fetchAndSetConfigs_returns [of 1 "\<lambda>_. None"
      "\<lambda>i. Ok (if i = 0 then replicate 100 (sample_info\<lparr>cci_ChainSelector := 0\<rparr>) else [sample_info])"
      "\<lambda>i. if i = 0 then replicate 100 (sample_info\<lparr>cci_ChainSelector := 0\<rparr>) else [sample_info]"
      sample_decode poller_init]
  by (auto simp: defaultConfigPageSize_def le_Suc_eq)

text \<open>C33. In every reachable state of the poller the derived views agree with the chain configs: an
  oracle supports the destination exactly when the destination is among its supported chains, the
  known source chains are sorted, without duplicates and without the destination, and the fault
  bounds handed out are those of the configs and pass \<open>ValidateFChain\<close>.\<close>

theorem home_chain_views_agree:
  assumes "poller_reachable r" and "GetChainConfig r dest = Ok cfg" and "map_of oracles oracle = Some peer"
  shows "\<exists>b cs ks m.
    SupportsDestChain \<lparr>cs_homeChain = Some r, cs_oracleIDToP2PID = oracles, cs_nodeID = me, cs_destChain = dest\<rparr> oracle = Ok b \<and>
    SupportedChains \<lparr>cs_homeChain = Some r, cs_oracleIDToP2PID = oracles, cs_nodeID = me, cs_destChain = dest\<rparr> oracle = Ok cs \<and>
    (b \<longleftrightarrow> dest \<in> set cs) \<and>
    KnownSourceChainsSlice \<lparr>cs_homeChain = Some r, cs_oracleIDToP2PID = oracles, cs_nodeID = me, cs_destChain = dest\<rparr> = Ok ks \<and>
    sorted ks \<and> distinct ks \<and> set ks = {c. ret_ok (GetChainConfig r c) \<and> c \<noteq> dest} \<and>
    GetFChain r = Ok m \<and> (\<forall>c f. map_of m c = Some f \<longleftrightarrow> (\<exists>cfg. GetChainConfig r c = Ok cfg \<and> f = hcc_FChain cfg)) \<and>
    ValidateFChain m = Ok ()"
proof -
  have inv: "poller_inv r" and valid: "\<And>c cfg. GetChainConfig r c = Ok cfg \<Longrightarrow> valid_config c cfg"
    using poller_reachable_inv [OF assms(1)] by auto
  obtain cs where cs: "GetSupportedChainsForPeer r peer = Ok cs" "dest \<in> set cs \<longleftrightarrow> peer \<in> set (hcc_SupportedNodes cfg)"
    using hc.supports_iff [OF inv assms(2)] by blast
  obtain ks where ks: "GetKnownCCIPChains r = Ok ks"
    "sorted (filter (\<lambda>c. c \<noteq> dest) (sort ks))" "distinct (filter (\<lambda>c. c \<noteq> dest) (sort ks))"
    "set (filter (\<lambda>c. c \<noteq> dest) (sort ks)) = {c. ret_ok (GetChainConfig r c) \<and> c \<noteq> dest}"
    using hc.known_sorted [OF inv] by blast
  obtain m where m: "GetFChain r = Ok m" "gm_ok m"
    "\<forall>c f. map_of m c = Some f \<longleftrightarrow> (\<exists>cfg. GetChainConfig r c = Ok cfg \<and> f = hcc_FChain cfg)"
    using hc.f_chain_law [OF inv] by blast
  have "ValidateFChain m = Ok ()"
    using m(2,3) valid by (auto simp: ValidateFChain_def check_all_Ok_iff valid_config_def simp flip: gm_get_iff)
  with cs ks m assms(2,3) show ?thesis
    by (simp add: SupportsDestChain_def SupportedChains_def KnownSourceChainsSlice_def)
qed

lemma GetFChain_valid:
  assumes "poller_reachable r"
  shows "\<exists>m. GetFChain r = Ok m \<and> gm_ok m \<and> ValidateFChain m = Ok ()"
proof -
  have inv: "poller_inv r" and valid: "\<And>c cfg. GetChainConfig r c = Ok cfg \<Longrightarrow> valid_config c cfg"
    using poller_reachable_inv [OF assms] by auto
  obtain m where m: "GetFChain r = Ok m" "gm_ok m"
    "\<forall>c f. map_of m c = Some f \<longleftrightarrow> (\<exists>cfg. GetChainConfig r c = Ok cfg \<and> f = hcc_FChain cfg)"
    using hc.f_chain_law [OF inv] by blast
  then show ?thesis
    using valid by (auto simp: ValidateFChain_def check_all_Ok_iff valid_config_def simp flip: gm_get_iff)
qed

definition sample_poller :: homeChainPoller where
  "sample_poller = setState (convertOnChainConfigToHomeChainConfig sample_decode [sample_info]) poller_init"

lemma sample_poller_reachable: "poller_reachable sample_poller"
proof (rule poller_reachable.round [OF poller_reachable.init])
  have "fetch_pages (\<lambda>_. None) (\<lambda>_. Ok [sample_info]) 0 [] = Some (Ok [sample_info])"
    by (subst fetch_pages_step [where page = "[sample_info]"])
      (simp_all add: defaultConfigPageSize_def getValidChainConfigInfos_def sample_info_def validateChainConfigInfos_def)
  then show "poll_round (\<lambda>_. None) (\<lambda>_. Ok [sample_info]) sample_decode poller_init = Some sample_poller"
    by (simp add: poll_round_def fetchAndSetConfigs_def sample_poller_def setState_def poller_init_def)
qed

theorem home_chain_views_agree_witness:
  "SupportsDestChain \<lparr>cs_homeChain = Some sample_poller, cs_oracleIDToP2PID = [(3, [2])], cs_nodeID = 3, cs_destChain = 5\<rparr> 3
     = Ok True"
proof -
  have "\<exists>cfg. GetChainConfig sample_poller 5 = Ok cfg \<and> [2] \<in> set (hcc_SupportedNodes cfg)"
    by (simp add: GetChainConfig_def sample_poller_def setState_def convertOnChainConfigToHomeChainConfig_def
        sample_decode_def sample_info_def)
  then obtain cfg where "GetChainConfig sample_poller 5 = Ok cfg" "[2] \<in> set (hcc_SupportedNodes cfg)" by blast
  with home_chain_views_agree [OF sample_poller_reachable this(1), of "[(3, [2])]" 3 "[2]" 3]
  show ?thesis by (simp add: SupportsDestChain_def)
qed

section \<open>The transmission schedule\<close>

lemma sort_nil_iff: "sort xs = [] \<longleftrightarrow> xs = []"
  by (metis length_0_conv length_sort)

lemma collect_transmitters_Ok:
  assumes "\<And>i. i \<in> set os \<Longrightarrow> supf i = Ok (P i)"
  shows "collect_transmitters supf os = Ok (filter P os)"
  using assms by (induction os) auto

lemma collect_transmitters_Error:
  assumes "\<exists>i \<in> set os. \<exists>e. supf i = Error e" and "\<And>i. i \<in> set os \<Longrightarrow> supf i \<noteq> Panic"
  shows "\<exists>e. collect_transmitters supf os = Error e"
  using assms
proof (induction os)
  case (Cons a os)
  show ?case
  proof (cases "supf a")
    case (Ok b)
    with Cons show ?thesis by auto
  qed (use Cons in auto)
qed simp

text \<open>The transmission schedule lists exactly the oracles that support the destination, sorted, each
  i-th one delayed by i times the multiplier; it is the same for every order in which the oracles
  are given; it is an error when none supports the destination.\<close>

theorem GetTransmissionSchedule_spec:
  assumes "\<forall>i \<in> set oracles. supportsDest i = Ok (P i)" and "mset oracles' = mset oracles"
  shows "GetTransmissionSchedule supportsDest oracles' d = GetTransmissionSchedule supportsDest oracles d \<and>
    (if filter P oracles = [] then GetTransmissionSchedule supportsDest oracles d = Error (Err ''no transmitters'')
     else \<exists>s. GetTransmissionSchedule supportsDest oracles d = Ok s \<and>
       sorted (ts_Transmitters s) \<and> mset (ts_Transmitters s) = mset (filter P oracles) \<and>
       length (ts_TransmissionDelays s) = length (ts_Transmitters s) \<and>
       (\<forall>i < length (ts_Transmitters s). ts_TransmissionDelays s ! i = s64 (d * int i)))"
proof -
  have "set oracles' = set oracles" using assms(2) by (metis mset_eq_setD)
  then have c: "collect_transmitters supportsDest oracles = Ok (filter P oracles)"
    "collect_transmitters supportsDest oracles' = Ok (filter P oracles')"
    using assms(1) by (auto intro!: collect_transmitters_Ok)
  have "mset (filter P oracles') = mset (filter P oracles)" using assms(2) by (simp only: mset_filter)
  then have "sort (filter P oracles') = sort (filter P oracles)"
    by (intro properties_for_sort) simp_all
  with c show ?thesis
    by (auto simp: GetTransmissionSchedule_def Let_def dest!: arg_cong [where f = length])
qed

theorem GetTransmissionSchedule_spec_witness:
  "GetTransmissionSchedule (\<lambda>i. Ok (i \<noteq> 2)) [5, 2, 1] 7 =
     Ok \<lparr>ts_Transmitters = [1, 5], ts_TransmissionDelays = [0, 7]\<rparr>"
proof -
  have "GetTransmissionSchedule (\<lambda>i. Ok (i \<noteq> 2)) [5, 2, 1] 7 = GetTransmissionSchedule (\<lambda>i. Ok (i \<noteq> 2)) [1, 2, 5] 7"
    using GetTransmissionSchedule_spec [of "[1, 2, 5]" "\<lambda>i. Ok (i \<noteq> 2)" "\<lambda>i. i \<noteq> 2" "[5, 2, 1]" 7] by simp
  then show ?thesis
    by (simp add: GetTransmissionSchedule_def Let_def s64_id upt_rec)
qed

lemma GetChainConfig_not_Panic [simp]: "GetChainConfig r c \<noteq> Panic"
  by (simp add: GetChainConfig_def split: option.splits)

section \<open>A poller with two chains\<close>

definition sample_infos :: "ChainConfigInfo list" where
  "sample_infos = [sample_info, sample_info\<lparr>cci_ChainSelector := 7\<rparr>]"

definition sample_poller2 :: homeChainPoller where
  "sample_poller2 = setState (convertOnChainConfigToHomeChainConfig sample_decode sample_infos) poller_init"

lemma sample_poller2_reachable: "poller_reachable sample_poller2"
proof (rule poller_reachable.round [OF poller_reachable.init])
  have "fetch_pages (\<lambda>_. None) (\<lambda>_. Ok sample_infos) 0 [] = Some (Ok sample_infos)"
    by (subst fetch_pages_step [where page = sample_infos])
      (simp_all add: defaultConfigPageSize_def getValidChainConfigInfos_def sample_infos_def sample_info_def validateChainConfigInfos_def)
  then show "poll_round (\<lambda>_. None) (\<lambda>_. Ok sample_infos) sample_decode poller_init = Some sample_poller2"
    by (simp add: poll_round_def fetchAndSetConfigs_def sample_poller2_def setState_def poller_init_def)
qed

definition sample_support2 :: ccipChainSupport where
  "sample_support2 = \<lparr>cs_homeChain = Some sample_poller2, cs_oracleIDToP2PID = [(3, [2])], cs_nodeID = 3, cs_destChain = 5\<rparr>"

lemma sample_config5: "\<exists>cfg. GetChainConfig sample_poller2 5 = Ok cfg"
  by (simp add: GetChainConfig_def sample_poller2_def setState_def convertOnChainConfigToHomeChainConfig_def
      sample_decode_def sample_infos_def sample_info_def)

end
