(* ===== verification/PluginCommon.thy ===== *)
theory PluginCommon
  imports HomeChain
begin

text \<open>
  What the processors of the plugins share: the attributed observations and the interface
  \<open>PluginProcessor\<close> (internal/plugincommon/plugin_processor.go), the small types of
  internal/plugintypes/common.go, the part of the interface \<open>CCIPReader\<close> (pkg/reader) that the commit
  plugin calls, and the loop that validates a list of observed values with a set of keys seen so far.

  The locale \<open>plugin_processor\<close> states what OCR asks of a processor's \<open>Outcome\<close>: the result may not
  depend on the order in which Go visits the maps inside the observations; outcomes that hold maps are
  compared up to the order of these maps.
\<close>

section \<open>Types\<close>

record 'a AttributedObservation =
  ao_OracleID :: OracleID
  ao_Observation :: 'a

record SeqNumChain =
  snc_ChainSel :: ChainSelector
  snc_SeqNum :: SeqNum

record ChainRange =
  cr_ChainSel :: ChainSelector
  cr_SeqNumRange :: SeqNumRange

record ReportingPluginConfig =
  rpc_F :: int
  rpc_N :: int

record StaticSourceChainConfig =
  ssc_Router :: "byte list"
  ssc_IsEnabled :: bool
  ssc_IsRMNVerificationDisabled :: bool
  ssc_OnRamp :: UnknownAddress

type_synonym ContractAddresses = "(string, (ChainSelector, UnknownAddress) gomap) gomap"

text \<open>The answers of the chain reader during one call of a plugin method. The reader is an interface
  that the code receives; its implementation is not part of this model.\<close>

record ccip_reader =
  rd_GetRmnCurseInfo :: "CurseInfo result"
  rd_NextSeqNum :: "ChainSelector list \<Rightarrow> (ChainSelector, SeqNum) gomap result"
  rd_GetOffRampSourceChainsConfig ::
    "ChainSelector list \<Rightarrow> (ChainSelector, StaticSourceChainConfig) gomap result"
  rd_LatestMsgSeqNum :: "ChainSelector \<Rightarrow> SeqNum result"
  rd_MsgsBetweenSeqNums :: "ChainSelector \<Rightarrow> SeqNumRange \<Rightarrow> Message list result"
  rd_GetContractAddress :: "string \<Rightarrow> ChainSelector \<Rightarrow> UnknownAddress result"
  rd_GetLatestPriceSeqNr :: "u64 result"
  rd_GetOffRampConfigDigest :: "byte \<Rightarrow> Bytes32 result"
  rd_GetChainsFeeComponents :: "ChainSelector list \<Rightarrow> (ChainSelector, ChainFeeComponents) gomap"
  rd_GetWrappedNativeTokenPriceUSD :: "ChainSelector list \<Rightarrow> (ChainSelector, BigInt) gomap"
  rd_GetChainFeePriceUpdate :: "ChainSelector list \<Rightarrow> (ChainSelector, TimestampedBig) gomap"
  rd_DiscoverContracts :: "ChainSelector list \<Rightarrow> ChainSelector list \<Rightarrow> ContractAddresses result"

section \<open>Validation with the keys seen so far\<close>

text \<open>\<open>seen := mapset.NewSet(); for _, x := range xs { if err := f(seen, x) ...; seen.Add(key(x)) }\<close>.\<close>

fun check_seen :: "('a \<Rightarrow> 'k) \<Rightarrow> ('k list \<Rightarrow> 'a \<Rightarrow> unit result) \<Rightarrow> 'k list \<Rightarrow> 'a list \<Rightarrow> unit result" where
  "check_seen key f seen [] = Ok ()"
| "check_seen key f seen (x # xs) = rbind (f seen x) (\<lambda>_. check_seen key f (key x # seen) xs)"

lemma check_seen_Ok_iff:
  assumes "\<And>seen x. f seen x = Ok () \<longleftrightarrow> key x \<notin> set seen \<and> Q x"
  shows "check_seen key f seen xs = Ok () \<longleftrightarrow>
    distinct (map key xs) \<and> set (map key xs) \<inter> set seen = {} \<and> (\<forall>x \<in> set xs. Q x)"
  by (induction xs arbitrary: seen) (auto simp: rbind_Ok_iff assms)

lemma check_seen_not_Panic:
  assumes "\<And>seen x. f seen x \<noteq> Panic"
  shows "check_seen key f seen xs \<noteq> Panic"
  using assms by (induction xs arbitrary: seen) (auto simp: rbind_Panic_iff)

section \<open>The interface of a processor\<close>

text \<open>Rounds of a processor: each round's outcome is the previous outcome of the next one.\<close>

fun run_rounds :: "('o \<Rightarrow> 'ao list \<Rightarrow> 'o result) \<Rightarrow> 'o \<Rightarrow> 'ao list list \<Rightarrow> 'o result" where
  "run_rounds outcome prev [] = Ok prev"
| "run_rounds outcome prev (aos # rounds) = rbind (outcome prev aos) (\<lambda>out. run_rounds outcome out rounds)"

locale plugin_processor =
  fixes outcome :: "'o \<Rightarrow> 'ao list \<Rightarrow> 'o result"
    and obs_eq :: "'ao \<Rightarrow> 'ao \<Rightarrow> bool"
    and out_eq :: "'o \<Rightarrow> 'o \<Rightarrow> bool"
  assumes outcome_det:
    "out_eq prev prev' \<Longrightarrow> list_all2 obs_eq aos aos' \<Longrightarrow> rel_result out_eq (outcome prev aos) (outcome prev' aos')"
begin

lemma run_det:
  "list_all2 (list_all2 obs_eq) rounds rounds' \<Longrightarrow> out_eq prev prev' \<Longrightarrow>
     rel_result out_eq (run_rounds outcome prev rounds) (run_rounds outcome prev' rounds')"
proof (induction rounds rounds' arbitrary: prev prev' rule: list_all2_induct)
  case (Cons aos rounds aos' rounds')
  from outcome_det [OF Cons.prems Cons.hyps(1)] Cons.IH show ?case by (auto intro: rel_result_rbind)
qed simp

end

section \<open>Grouping the entries of the observed maps by key\<close>

text \<open>\<open>for _, ao := range aos { for k, v := range ao.M { agg[k] = append(agg[k], v) } }\<close>.\<close>

definition group_maps :: "('k, 'v) gomap list \<Rightarrow> ('k, 'v list) gomap" where
  "group_maps ms = group_append (concat ms) []"

lemma gm_ok_group_maps [simp]: "gm_ok (group_maps ms)"
  by (simp add: group_maps_def gm_ok_group_append)

lemma filter_key_gm:
  "gm_ok m \<Longrightarrow> filter (\<lambda>p. fst p = k) m = (case map_of m k of None \<Rightarrow> [] | Some v \<Rightarrow> [(k, v)])"
proof (induction m)
  case (Cons p m)
  then have "gm_ok m" and nk: "fst p \<notin> fst ` set m" by (auto simp: gm_ok_def)
  then have "fst p = k \<Longrightarrow> map_of m k = None" by (auto simp: map_of_eq_None_iff)
  with Cons.IH [OF \<open>gm_ok m\<close>] show ?case by (cases p) auto
qed simp

lemma filter_key_gm_eq:
  "gm_eq m m' \<Longrightarrow> filter (\<lambda>p. fst p = k) m = filter (\<lambda>p. fst p = k) m'"
  by (simp add: filter_key_gm gm_eq_def)

lemma group_maps_gm_eq [det_intros]:
  assumes "list_all2 gm_eq ms ms'"
  shows "gm_eq (group_maps ms) (group_maps ms')"
proof -
  have f: "filter (\<lambda>p. fst p = k) (concat ms) = filter (\<lambda>p. fst p = k) (concat ms')" for k
    using assms by (induction rule: list_all2_induct) (simp_all add: filter_key_gm_eq)
  have "set (concat ms) = set (concat ms')"
    using assms by (induction rule: list_all2_induct) (simp_all add: gm_eq_set)
  with f have "map_of (group_maps ms) = map_of (group_maps ms')"
    by (auto simp: group_maps_def map_of_group_append fun_eq_iff)
  then show ?thesis by (simp add: gm_eq_def)
qed

lemma gm_vals_group_maps: "gm_vals (group_maps ms) k = map snd (filter (\<lambda>p. fst p = k) (concat ms))"
  by (simp add: group_maps_def gm_vals_group_append gm_vals_def [of "[]"])

section \<open>Loops that append\<close>

text \<open>\<open>for _, x := range xs { ...; res = append(res, ys...) }\<close> where the body can fail.\<close>

fun concat_r :: "('a \<Rightarrow> 'b list result) \<Rightarrow> 'a list \<Rightarrow> 'b list result" where
  "concat_r f [] = Ok []"
| "concat_r f (x # xs) = rbind (f x) (\<lambda>ys. rbind (concat_r f xs) (\<lambda>zs. Ok (ys @ zs)))"

lemma concat_r_Ok: "(\<And>x. x \<in> set xs \<Longrightarrow> f x = Ok (g x)) \<Longrightarrow> concat_r f xs = Ok (concat (map g xs))"
  by (induction xs) auto

lemma concat_r_cases:
  assumes "\<And>x e. x \<in> set xs \<Longrightarrow> f x \<noteq> Error e"
  shows "concat_r f xs =
    (if \<exists>x \<in> set xs. f x = Panic then Panic else Ok (concat (map (\<lambda>x. case f x of Ok ys \<Rightarrow> ys | _ \<Rightarrow> []) xs)))"
  using assms
proof (induction xs)
  case (Cons x xs)
  then have "f x \<noteq> Error e" for e by simp
  then show ?case using Cons by (cases "f x") auto
qed simp

lemma concat_r_member:
  "concat_r f xs = Ok zs \<Longrightarrow> z \<in> set zs \<longleftrightarrow> (\<exists>x \<in> set xs. \<exists>ys. f x = Ok ys \<and> z \<in> set ys)"
  by (induction xs arbitrary: zs) (auto simp: rbind_Ok_iff)

lemma distinct_map_concat_key:
  assumes "distinct (map fst m)" and "\<And>p. p \<in> set m \<Longrightarrow> g p = [] \<or> (\<exists>x. g p = [x] \<and> key x = fst p)"
  shows "distinct (map key (concat (map g m)))"
  using assms
proof (induction m)
  case (Cons p m)
  have "key x \<in> fst ` set m" if "x \<in> set (g q)" "q \<in> set m" for x q
    using Cons.prems(2) [of q] that by auto
  then have "key ` set (concat (map g m)) \<subseteq> fst ` set m" by auto
  moreover have "distinct (map key (concat (map g m)))" using Cons by auto
  moreover have "g p = [] \<or> (\<exists>x. g p = [x] \<and> key x = fst p)" by (rule Cons.prems(2)) simp
  moreover have "fst p \<notin> key ` set (concat (map g m))" using Cons.prems(1) calculation(1) by auto
  ultimately show ?case by (auto simp del: set_concat)
qed simp

lemma mset_concat_map: "mset xs = mset ys \<Longrightarrow> mset (concat (map g xs)) = mset (concat (map g ys))"
  by (metis mset_concat mset_map sum_mset_sum_list)

lemma concat_r_sorted_det:
  assumes "gm_eq m m'" and "\<And>p e. p \<in> set m \<Longrightarrow> f p \<noteq> Error e"
    and "\<And>p ys. p \<in> set m \<Longrightarrow> f p = Ok ys \<Longrightarrow> ys = [] \<or> (\<exists>x. ys = [x] \<and> key x = fst p)"
  shows "rbind (concat_r f m) (\<lambda>xs. Ok (sort_key key xs)) = rbind (concat_r f m') (\<lambda>xs. Ok (sort_key key xs))"
proof -
  let ?g = "\<lambda>x. case f x of Ok ys \<Rightarrow> ys | _ \<Rightarrow> []"
  have set: "set m' = set m" using assms(1) by (rule gm_eq_set)
  have c: "concat_r f m = (if \<exists>x \<in> set m. f x = Panic then Panic else Ok (concat (map ?g m)))"
    "concat_r f m' = (if \<exists>x \<in> set m. f x = Panic then Panic else Ok (concat (map ?g m')))"
    using concat_r_cases [of m f] concat_r_cases [of m' f] assms(2) by (simp_all add: set)
  have "distinct (map fst m)" using assms(1) by (simp add: gm_eq_def gm_ok_def)
  then have "distinct (map key (concat (map ?g m)))"
    by (rule distinct_map_concat_key) (use assms(3) in \<open>auto split: result.splits\<close>)
  then have "sort_key key (concat (map ?g m)) = sort_key key (concat (map ?g m'))"
    by (rule sort_key_unique [OF mset_concat_map [OF gm_eq_mset [OF assms(1)]]])
  then show ?thesis by (simp add: c)
qed

lemma group_maps_entries:
  assumes "(k, vs) \<in> set (group_maps ms)"
  shows "vs \<noteq> []" "v \<in> set vs \<Longrightarrow> \<exists>m \<in> set ms. (k, v) \<in> set m"
proof -
  from assms have "map_of (group_maps ms) k = Some vs" by (simp add: gm_get_iff)
  then have "vs = map snd (filter (\<lambda>p. fst p = k) (concat ms))" "k \<in> fst ` set (concat ms)"
    by (auto simp: group_maps_def map_of_group_append split: if_splits)
  then show "vs \<noteq> []" "v \<in> set vs \<Longrightarrow> \<exists>m \<in> set ms. (k, v) \<in> set m"
    by (auto simp: filter_empty_conv)
qed

section \<open>A reader of an empty chain\<close>

definition sample_reader0 :: ccip_reader where
  "sample_reader0 = \<lparr>
     rd_GetRmnCurseInfo = Ok \<lparr>ci_CursedSourceChains = [], ci_CursedDestination = False, ci_GlobalCurse = False\<rparr>,
     rd_NextSeqNum = (\<lambda>_. Ok []), rd_GetOffRampSourceChainsConfig = (\<lambda>_. Ok []), rd_LatestMsgSeqNum = (\<lambda>_. Ok 0),
     rd_MsgsBetweenSeqNums = (\<lambda>_ _. Ok []), rd_GetContractAddress = (\<lambda>_ _. Ok [1]), rd_GetLatestPriceSeqNr = Ok 0,
     rd_GetOffRampConfigDigest = (\<lambda>_. Ok [0]), rd_GetChainsFeeComponents = (\<lambda>_. []),
     rd_GetWrappedNativeTokenPriceUSD = (\<lambda>_. []), rd_GetChainFeePriceUpdate = (\<lambda>_. []), rd_DiscoverContracts = (\<lambda>_ _. Ok [])\<rparr>"

end
