(* ===== verification/MerkleRoot.thy ===== *)
theory MerkleRoot
  imports PluginCommon
begin

text \<open>
  The merkle root processor of the commit plugin (commit/merkleroot): its observations and
  observers, the validation of an observation, and the three-state machine of its \<open>Outcome\<close>
  (select ranges, build the report, wait for the transmission).

  Section 1 has the data (types.go), section 2 \<open>validate_observation.go\<close>, section 3 \<open>outcome.go\<close>, section 4
  the observers (observation.go). The lemmas show what a valid observation guarantees, that the
  outcome does not depend on map order (the processor interprets \<open>plugin_processor\<close>), that the selected
  ranges are backed by honest oracles, and the invariant and the bounded waiting of the machine.
\<close>

section \<open>Data\<close>

record mr_Observation =
  mob_MerkleRoots :: "MerkleRootChain list"
  mob_OnRampMaxSeqNums :: "SeqNumChain list"
  mob_OffRampNextSeqNums :: "SeqNumChain list"
  mob_FChain :: "(ChainSelector, int) gomap"

definition mr_Observation_zero :: mr_Observation where
  "mr_Observation_zero = \<lparr>mob_MerkleRoots = [], mob_OnRampMaxSeqNums = [],
     mob_OffRampNextSeqNums = [], mob_FChain = []\<rparr>"

definition mr_Observation_IsEmpty :: "mr_Observation \<Rightarrow> bool" where
  "mr_Observation_IsEmpty ob =
     (mob_MerkleRoots ob = [] \<and> mob_OnRampMaxSeqNums ob = [] \<and>
      mob_OffRampNextSeqNums ob = [] \<and> mob_FChain ob = [])"

type_synonym mr_ao = "mr_Observation AttributedObservation"

record aggregatedObservation =
  agg_MerkleRoots :: "(ChainSelector, MerkleRootChain list) gomap"
  agg_OnRampMaxSeqNums :: "(ChainSelector, SeqNum list) gomap"
  agg_OffRampNextSeqNums :: "(ChainSelector, SeqNum list) gomap"
  agg_FChain :: "(ChainSelector, int list) gomap"

record consensusObservation =
  con_MerkleRoots :: "(ChainSelector, MerkleRootChain) gomap"
  con_OnRampMaxSeqNums :: "(ChainSelector, SeqNum) gomap"
  con_OffRampNextSeqNums :: "(ChainSelector, SeqNum) gomap"
  con_FChain :: "(ChainSelector, int) gomap"

text \<open>\<open>OutcomeUnset\<close> is the zero value of the Go type, the type of an empty outcome.\<close>

datatype OutcomeType =
    OutcomeUnset
  | ReportIntervalsSelected
  | ReportGenerated
  | ReportEmpty
  | ReportInFlight
  | ReportTransmitted
  | ReportTransmissionFailed

record mr_Outcome =
  mro_OutcomeType :: OutcomeType
  mro_RangesSelectedForReport :: "ChainRange list"
  mro_RootsToReport :: "MerkleRootChain list"
  mro_OffRampNextSeqNums :: "SeqNumChain list"
  mro_ReportTransmissionCheckAttempts :: u64

definition mr_Outcome_zero :: mr_Outcome where
  "mr_Outcome_zero = \<lparr>mro_OutcomeType = OutcomeUnset, mro_RangesSelectedForReport = [],
     mro_RootsToReport = [], mro_OffRampNextSeqNums = [], mro_ReportTransmissionCheckAttempts = 0\<rparr>"

datatype processorState = selectingRangesForReport | buildingReport | waitingForReportTransmission

fun nextState :: "OutcomeType \<Rightarrow> processorState" where
  "nextState ReportIntervalsSelected = buildingReport"
| "nextState ReportGenerated = waitingForReportTransmission"
| "nextState ReportEmpty = selectingRangesForReport"
| "nextState ReportInFlight = waitingForReportTransmission"
| "nextState ReportTransmitted = selectingRangesForReport"
| "nextState ReportTransmissionFailed = selectingRangesForReport"
| "nextState OutcomeUnset = selectingRangesForReport"

definition mr_Outcome_Sort :: "mr_Outcome \<Rightarrow> mr_Outcome" where
  "mr_Outcome_Sort out = out
     \<lparr>mro_RangesSelectedForReport := sort_key cr_ChainSel (mro_RangesSelectedForReport out),
      mro_RootsToReport := sort_key mrc_ChainSel (mro_RootsToReport out),
      mro_OffRampNextSeqNums := sort_key snc_ChainSel (mro_OffRampNextSeqNums out)\<rparr>"

definition mr_aggregateObservations :: "mr_ao list \<Rightarrow> aggregatedObservation" where
  "mr_aggregateObservations aos =
     (let obs = map ao_Observation aos in
      \<lparr>agg_MerkleRoots = group_append (map (\<lambda>r. (mrc_ChainSel r, r)) (concat (map mob_MerkleRoots obs))) [],
       agg_OnRampMaxSeqNums =
         group_append (map (\<lambda>s. (snc_ChainSel s, snc_SeqNum s)) (concat (map mob_OnRampMaxSeqNums obs))) [],
       agg_OffRampNextSeqNums =
         group_append (map (\<lambda>s. (snc_ChainSel s, snc_SeqNum s)) (concat (map mob_OffRampNextSeqNums obs))) [],
       agg_FChain = group_maps (map mob_FChain obs)\<rparr>)"

section \<open>validate\_observation.go\<close>

definition validateObservedMerkleRoots ::
  "ccip_lib \<Rightarrow> MerkleRootChain list \<Rightarrow> ChainSelector mapset \<Rightarrow> unit result" where
  "validateObservedMerkleRoots lib merkleRoots observerSupportedChains =
     (if merkleRoots = [] then Ok ()
      else check_seen mrc_ChainSel
        (\<lambda>seenChains root.
           if mrc_ChainSel root \<notin> set observerSupportedChains
           then Error (Err ''invalid: observed chain not supported by Observer'')
           else if mrc_ChainSel root \<in> set seenChains
           then Error (Err ''invalid: chain already appears in another observed root'')
           else if lib_IsZeroOrEmpty lib (mrc_OnRampAddress root)
           then Error (Err ''invalid: empty OnRampAddress'')
           else if lib_Bytes32_IsEmpty lib (mrc_MerkleRoot root)
           then Error (Err ''invalid: empty MerkleRoot'')
           else if sr_Start (mrc_SeqNumsRange root) = 0 then Error (Err ''invalid: start seq num is 0'')
           else if sr_End (mrc_SeqNumsRange root) = 0 then Error (Err ''invalid: end seq num is 0'')
           else if sr_End (mrc_SeqNumsRange root) < sr_Start (mrc_SeqNumsRange root)
           then Error (Err ''invalid: end seq num is less than start seq num'')
           else Ok ()) [] merkleRoots)"

definition validateObservedOnRampMaxSeqNums ::
  "SeqNumChain list \<Rightarrow> ChainSelector mapset \<Rightarrow> unit result" where
  "validateObservedOnRampMaxSeqNums onRampMaxSeqNums observerSupportedChains =
     (if onRampMaxSeqNums = [] then Ok ()
      else check_seen snc_ChainSel
        (\<lambda>seenChains s.
           if snc_ChainSel s \<notin> set observerSupportedChains
           then Error (Err ''found onRampMaxSeqNum for a chain not supported by Observer'')
           else if snc_ChainSel s \<in> set seenChains then Error (Err ''duplicate onRampMaxSeqNum'')
           else Ok ()) [] onRampMaxSeqNums)"

definition validateObservedOffRampMaxSeqNums :: "SeqNumChain list \<Rightarrow> bool \<Rightarrow> unit result" where
  "validateObservedOffRampMaxSeqNums offRampMaxSeqNums supportsDestChain =
     (if offRampMaxSeqNums = [] then Ok ()
      else if \<not> supportsDestChain then Error (Err ''observer does not support dest chain'')
      else check_seen snc_ChainSel
        (\<lambda>seenChains s.
           if snc_ChainSel s \<in> set seenChains then Error (Err ''duplicate offRampMaxSeqNum'')
           else if snc_SeqNum s = 0 then Error (Err ''offRampMaxSeqNum is 0'')
           else if snc_ChainSel s = 0 then Error (Err ''offRampMaxSeqNum has chain selector 0'')
           else Ok ()) [] offRampMaxSeqNums)"

definition mr_ValidateObservation :: "ccip_lib \<Rightarrow> ccipChainSupport \<Rightarrow> mr_ao \<Rightarrow> unit result" where
  "mr_ValidateObservation lib chainSupport ao =
     (let obs = ao_Observation ao in
      rbind (wrap_err ''validate FChain'' (ValidateFChain (mob_FChain obs))) (\<lambda>_.
      rbind (wrap_err ''get supported chains'' (SupportedChains chainSupport (ao_OracleID ao))) (\<lambda>observerSupportedChains.
      rbind (wrap_err ''call to supportsDestChain failed'' (SupportsDestChain chainSupport (ao_OracleID ao))) (\<lambda>supportsDest.
      rbind (wrap_err ''validate MerkleRoots''
               (validateObservedMerkleRoots lib (mob_MerkleRoots obs) observerSupportedChains)) (\<lambda>_.
      rbind (wrap_err ''validate OnRampMaxSeqNums''
               (validateObservedOnRampMaxSeqNums (mob_OnRampMaxSeqNums obs) observerSupportedChains)) (\<lambda>_.
      wrap_err ''validate OffRampNextSeqNums''
        (validateObservedOffRampMaxSeqNums (mob_OffRampNextSeqNums obs) supportsDest)))))))"

section \<open>outcome.go\<close>

record mr_config =
  mrcfg_MaxMerkleTreeSize :: u64
  mrcfg_MaxReportTransmissionCheckAttempts :: u64
  mrcfg_MultipleReportsEnabled :: bool
  mrcfg_destChain :: ChainSelector
  mrcfg_F :: int

text \<open>\<open>fDestChain\<close> is a \<open>uint\<close>: \<open>2*fDestChain+1\<close> wraps at 2^64.\<close>

definition getOffRampNextSequenceNumbersConsensus ::
  "int \<Rightarrow> (ChainSelector, SeqNum list) gomap \<Rightarrow> (ChainSelector, SeqNum) gomap result" where
  "getOffRampNextSequenceNumbersConsensus fDestChain observationsPerChain =
     gm_collect_r
       (\<lambda>sourceChain observedNextSeqNums.
          if int (length observedNextSeqNums) < u64i (2 * fDestChain + 1) then Ok None
          else rbind (slice_get (sort observedNextSeqNums) fDestChain) (\<lambda>v. Ok (Some v)))
       observationsPerChain"

definition mr_getConsensusObservation ::
  "ccip_lib \<Rightarrow> int \<Rightarrow> ChainSelector \<Rightarrow> mr_ao list \<Rightarrow> consensusObservation result" where
  "mr_getConsensusObservation lib fRoleDON destChain aos =
     (let aggObs = mr_aggregateObservations aos;
          donThresh = MakeConstantThreshold (TwoFPlus1 fRoleDON);
          fChains = GetConsensusMap (lib_sum_int lib) (agg_FChain aggObs) donThresh
      in case map_of fChains destChain of
           None \<Rightarrow> Error (Err ''no consensus value for fDestChain'')
         | Some _ \<Rightarrow>
             (let twoFChainPlus1 = MakeMultiThreshold fChains TwoFPlus1;
                  fChain = MakeMultiThreshold fChains F
              in case fChain destChain of
                   None \<Rightarrow> Error (Err ''no consensus value for fDestChain'')
                 | Some fDestChain \<Rightarrow>
                     rbind (GetOrderedConsensus (agg_OnRampMaxSeqNums aggObs) fChain) (\<lambda>onRamp.
                     rbind (getOffRampNextSequenceNumbersConsensus fDestChain (agg_OffRampNextSeqNums aggObs)) (\<lambda>offRamp.
                       Ok \<lparr>con_MerkleRoots = GetConsensusMap (lib_sum_root lib) (agg_MerkleRoots aggObs) twoFChainPlus1,
                           con_OnRampMaxSeqNums = onRamp,
                           con_OffRampNextSeqNums = offRamp,
                           con_FChain = fChains\<rparr>))))"

definition reportRangesOutcome :: "ccip_lib \<Rightarrow> consensusObservation \<Rightarrow> u64 \<Rightarrow> mr_Outcome" where
  "reportRangesOutcome lib consObservation maxMerkleTreeSize =
     (let offRampNextSeqNums =
            map (\<lambda>(chainSel, seqNum). \<lparr>snc_ChainSel = chainSel, snc_SeqNum = seqNum\<rparr>) (con_OffRampNextSeqNums consObservation);
          rangesToReport =
            concat (map (\<lambda>(chainSel, offRampNextSeqNum).
               case map_of (con_OnRampMaxSeqNums consObservation) chainSel of
                 None \<Rightarrow> []
               | Some onRampMaxSeqNum \<Rightarrow>
                   if offRampNextSeqNum \<le> onRampMaxSeqNum
                   then [\<lparr>cr_ChainSel = chainSel,
                          cr_SeqNumRange =
                            lib_Limit lib \<lparr>sr_Start = offRampNextSeqNum, sr_End = onRampMaxSeqNum\<rparr> maxMerkleTreeSize\<rparr>]
                   else []) (con_OffRampNextSeqNums consObservation));
          rangesToReport = sort_key cr_ChainSel rangesToReport;
          offRampNextSeqNums = sort_key snc_ChainSel offRampNextSeqNums
      in if rangesToReport = [] then mr_Outcome_zero\<lparr>mro_OutcomeType := ReportEmpty\<rparr>
         else mr_Outcome_zero\<lparr>mro_OutcomeType := ReportIntervalsSelected,
                 mro_RangesSelectedForReport := rangesToReport,
                 mro_OffRampNextSeqNums := offRampNextSeqNums\<rparr>)"

definition buildMerkleRootsOutcome :: "consensusObservation \<Rightarrow> mr_Outcome \<Rightarrow> mr_Outcome" where
  "buildMerkleRootsOutcome consensusObs prevOutcome =
     (let roots = map snd (con_MerkleRoots consensusObs);
          outcomeType = (if roots = [] then ReportEmpty else ReportGenerated)
      in mr_Outcome_zero\<lparr>mro_OutcomeType := outcomeType,
           mro_RootsToReport := sort_key mrc_ChainSel roots,
           mro_OffRampNextSeqNums := mro_OffRampNextSeqNums prevOutcome\<rparr>)"

text \<open>The loop over the previous sequence numbers: \<^term>\<open>None\<close> is the early return (single report, one
  update seen), otherwise the sources still pending.\<close>

fun pending_after ::
  "bool \<Rightarrow> (ChainSelector, SeqNum) gomap \<Rightarrow> SeqNumChain list \<Rightarrow> (ChainSelector, unit) gomap
     \<Rightarrow> (ChainSelector, unit) gomap option" where
  "pending_after multipleReports current [] pendingSources = Some pendingSources"
| "pending_after multipleReports current (s # ss) pendingSources =
     (case map_of current (snc_ChainSel s) of
        Some currentSeqNum \<Rightarrow>
          if snc_SeqNum s < currentSeqNum
          then if \<not> multipleReports then None
               else pending_after multipleReports current ss (gm_del (snc_ChainSel s) pendingSources)
          else pending_after multipleReports current ss pendingSources
      | None \<Rightarrow> pending_after multipleReports current ss pendingSources)"

definition checkForReportTransmission ::
  "u64 \<Rightarrow> bool \<Rightarrow> mr_Outcome \<Rightarrow> consensusObservation \<Rightarrow> mr_Outcome" where
  "checkForReportTransmission maxAttempts multipleReports previousOutcome consensusObs =
     (let pendingSources =
            fold (\<lambda>root m. gm_put (mrc_ChainSel root) () m) (mro_RootsToReport previousOutcome) []
      in case pending_after multipleReports (con_OffRampNextSeqNums consensusObs)
                (mro_OffRampNextSeqNums previousOutcome) pendingSources of
           None \<Rightarrow> mr_Outcome_zero\<lparr>mro_OutcomeType := ReportTransmitted\<rparr>
         | Some pending \<Rightarrow>
             if pending = [] then mr_Outcome_zero\<lparr>mro_OutcomeType := ReportTransmitted\<rparr>
             else if maxAttempts \<le> mro_ReportTransmissionCheckAttempts previousOutcome + 1
             then mr_Outcome_zero\<lparr>mro_OutcomeType := ReportTransmissionFailed\<rparr>
             else mr_Outcome_zero\<lparr>mro_OutcomeType := ReportInFlight,
                     mro_OffRampNextSeqNums := mro_OffRampNextSeqNums previousOutcome,
                     mro_ReportTransmissionCheckAttempts := mro_ReportTransmissionCheckAttempts previousOutcome + 1,
                     mro_RootsToReport := mro_RootsToReport previousOutcome\<rparr>)"

text \<open>The switch of \<open>getOutcome\<close> over the state, and \<open>getOutcome\<close> itself: no consensus gives the empty
  outcome and no error.\<close>

definition outcome_in_state ::
  "ccip_lib \<Rightarrow> mr_config \<Rightarrow> processorState \<Rightarrow> mr_Outcome \<Rightarrow> consensusObservation \<Rightarrow> mr_Outcome" where
  "outcome_in_state lib cfg st previousOutcome consObservation =
     (case st of
        selectingRangesForReport \<Rightarrow> reportRangesOutcome lib consObservation (mrcfg_MaxMerkleTreeSize cfg)
      | buildingReport \<Rightarrow> buildMerkleRootsOutcome consObservation previousOutcome
      | waitingForReportTransmission \<Rightarrow>
          checkForReportTransmission (mrcfg_MaxReportTransmissionCheckAttempts cfg)
            (mrcfg_MultipleReportsEnabled cfg) previousOutcome consObservation)"

definition mr_getOutcome ::
  "ccip_lib \<Rightarrow> mr_config \<Rightarrow> mr_Outcome \<Rightarrow> mr_ao list \<Rightarrow> (mr_Outcome \<times> processorState) result" where
  "mr_getOutcome lib cfg previousOutcome aos =
     (let st = nextState (mro_OutcomeType previousOutcome)
      in case mr_getConsensusObservation lib (mrcfg_F cfg) (mrcfg_destChain cfg) aos of
           Error _ \<Rightarrow> Ok (mr_Outcome_zero, st)
         | Panic \<Rightarrow> Panic
         | Ok consObservation \<Rightarrow> Ok (outcome_in_state lib cfg st previousOutcome consObservation, st))"

definition mr_Outcome_method ::
  "ccip_lib \<Rightarrow> mr_config \<Rightarrow> mr_Outcome \<Rightarrow> mr_ao list \<Rightarrow> mr_Outcome result" where
  "mr_Outcome_method lib cfg prevOutcome aos =
     rbind (mr_getOutcome lib cfg prevOutcome aos) (\<lambda>(outcome, _). Ok outcome)"

section \<open>What a valid observation guarantees\<close>

lemma validateObservedMerkleRoots_Ok_iff:
  "validateObservedMerkleRoots lib roots supp = Ok () \<longleftrightarrow>
     distinct (map mrc_ChainSel roots) \<and>
     (\<forall>r \<in> set roots. mrc_ChainSel r \<in> set supp \<and> \<not> lib_IsZeroOrEmpty lib (mrc_OnRampAddress r) \<and>
        \<not> lib_Bytes32_IsEmpty lib (mrc_MerkleRoot r) \<and> sr_Start (mrc_SeqNumsRange r) \<noteq> 0 \<and>
        sr_Start (mrc_SeqNumsRange r) \<le> sr_End (mrc_SeqNumsRange r))"
  unfolding validateObservedMerkleRoots_def
  by (cases "roots = []", simp) (simp only: if_False, subst check_seen_Ok_iff [where Q = "\<lambda>r. mrc_ChainSel r \<in> set supp \<and> \<not> lib_IsZeroOrEmpty lib (mrc_OnRampAddress r) \<and>
        \<not> lib_Bytes32_IsEmpty lib (mrc_MerkleRoot r) \<and> sr_Start (mrc_SeqNumsRange r) \<noteq> 0 \<and>
        sr_Start (mrc_SeqNumsRange r) \<le> sr_End (mrc_SeqNumsRange r)"], auto simp: not_less)

lemma validateObservedOnRampMaxSeqNums_Ok_iff:
  "validateObservedOnRampMaxSeqNums ss supp = Ok () \<longleftrightarrow>
     distinct (map snc_ChainSel ss) \<and> (\<forall>s \<in> set ss. snc_ChainSel s \<in> set supp)"
  unfolding validateObservedOnRampMaxSeqNums_def
  by (cases "ss = []", simp) (simp only: if_False, subst check_seen_Ok_iff [where Q = "\<lambda>s. snc_ChainSel s \<in> set supp"], auto)

lemma validateObservedOffRampMaxSeqNums_Ok_iff:
  "validateObservedOffRampMaxSeqNums ss b = Ok () \<longleftrightarrow>
     ss = [] \<or> b \<and> distinct (map snc_ChainSel ss) \<and> (\<forall>s \<in> set ss. snc_SeqNum s \<noteq> 0 \<and> snc_ChainSel s \<noteq> 0)"
  unfolding validateObservedOffRampMaxSeqNums_def
  by (cases "ss = []", simp, cases b)
    (simp_all only: if_False if_True not_True_eq_False not_False_eq_True simp_thms,
     subst check_seen_Ok_iff [where Q = "\<lambda>s. snc_SeqNum s \<noteq> 0 \<and> snc_ChainSel s \<noteq> 0"], auto)

lemma ValidateFChain_Ok_iff: "ValidateFChain m = Ok () \<longleftrightarrow> (\<forall>(c, f) \<in> set m. 0 < f)"
  by (auto simp: ValidateFChain_def check_all_Ok_iff)

text \<open>An observation is accepted exactly when every fault bound is positive, every chain with a root or
  an onRamp number is supported by its observer and appears once, every root has an address, a
  hash and a non-empty range, and offRamp numbers are non-zero, unique and only sent by an
  oracle that supports the destination.\<close>

theorem mr_ValidateObservation_iff:
  "mr_ValidateObservation lib chainSupport ao = Ok () \<longleftrightarrow>
    (\<exists>supp b. SupportedChains chainSupport (ao_OracleID ao) = Ok supp \<and>
       SupportsDestChain chainSupport (ao_OracleID ao) = Ok b \<and>
       (let obs = ao_Observation ao in
        (\<forall>(c, f) \<in> set (mob_FChain obs). 0 < f) \<and>
        distinct (map mrc_ChainSel (mob_MerkleRoots obs)) \<and>
        (\<forall>r \<in> set (mob_MerkleRoots obs). mrc_ChainSel r \<in> set supp \<and>
           \<not> lib_IsZeroOrEmpty lib (mrc_OnRampAddress r) \<and> \<not> lib_Bytes32_IsEmpty lib (mrc_MerkleRoot r) \<and>
           sr_Start (mrc_SeqNumsRange r) \<noteq> 0 \<and> sr_Start (mrc_SeqNumsRange r) \<le> sr_End (mrc_SeqNumsRange r)) \<and>
        distinct (map snc_ChainSel (mob_OnRampMaxSeqNums obs)) \<and>
        (\<forall>s \<in> set (mob_OnRampMaxSeqNums obs). snc_ChainSel s \<in> set supp) \<and>
        (mob_OffRampNextSeqNums obs = [] \<or>
           b \<and> distinct (map snc_ChainSel (mob_OffRampNextSeqNums obs)) \<and>
           (\<forall>s \<in> set (mob_OffRampNextSeqNums obs). snc_SeqNum s \<noteq> 0 \<and> snc_ChainSel s \<noteq> 0))))"
  unfolding mr_ValidateObservation_def Let_def
  by (simp add: rbind_Ok_iff ValidateFChain_Ok_iff validateObservedMerkleRoots_Ok_iff
      validateObservedOnRampMaxSeqNums_Ok_iff validateObservedOffRampMaxSeqNums_Ok_iff) blast

section \<open>Independence of the map order\<close>

definition mr_obs_eq :: "mr_ao \<Rightarrow> mr_ao \<Rightarrow> bool" where
  "mr_obs_eq ao ao' \<longleftrightarrow> ao_OracleID ao = ao_OracleID ao' \<and>
     mob_MerkleRoots (ao_Observation ao) = mob_MerkleRoots (ao_Observation ao') \<and>
     mob_OnRampMaxSeqNums (ao_Observation ao) = mob_OnRampMaxSeqNums (ao_Observation ao') \<and>
     mob_OffRampNextSeqNums (ao_Observation ao) = mob_OffRampNextSeqNums (ao_Observation ao') \<and>
     gm_eq (mob_FChain (ao_Observation ao)) (mob_FChain (ao_Observation ao'))"

definition mr_con_eq :: "consensusObservation \<Rightarrow> consensusObservation \<Rightarrow> bool" where
  "mr_con_eq co co' \<longleftrightarrow> gm_eq (con_MerkleRoots co) (con_MerkleRoots co') \<and>
     gm_eq (con_OnRampMaxSeqNums co) (con_OnRampMaxSeqNums co') \<and>
     gm_eq (con_OffRampNextSeqNums co) (con_OffRampNextSeqNums co') \<and> gm_eq (con_FChain co) (con_FChain co')"

definition mr_con_wf :: "consensusObservation \<Rightarrow> bool" where
  "mr_con_wf co \<longleftrightarrow> gm_ok (con_MerkleRoots co) \<and> gm_ok (con_OnRampMaxSeqNums co) \<and>
     gm_ok (con_OffRampNextSeqNums co) \<and> gm_ok (con_FChain co) \<and>
     (\<forall>(c, r) \<in> set (con_MerkleRoots co). mrc_ChainSel r = c)"

lemma map_eq_list_all2: "list_all2 R xs ys \<Longrightarrow> (\<And>x y. R x y \<Longrightarrow> f x = f y) \<Longrightarrow> map f xs = map f ys"
  by (induction rule: list_all2_induct) auto

lemma mr_aggregate_det:
  assumes "list_all2 mr_obs_eq aos aos'"
  shows "agg_MerkleRoots (mr_aggregateObservations aos) = agg_MerkleRoots (mr_aggregateObservations aos')"
    "agg_OnRampMaxSeqNums (mr_aggregateObservations aos) = agg_OnRampMaxSeqNums (mr_aggregateObservations aos')"
    "agg_OffRampNextSeqNums (mr_aggregateObservations aos) = agg_OffRampNextSeqNums (mr_aggregateObservations aos')"
    "gm_eq (agg_FChain (mr_aggregateObservations aos)) (agg_FChain (mr_aggregateObservations aos'))"
proof -
  have eq: "map mob_MerkleRoots (map ao_Observation aos) = map mob_MerkleRoots (map ao_Observation aos')"
    "map mob_OnRampMaxSeqNums (map ao_Observation aos) = map mob_OnRampMaxSeqNums (map ao_Observation aos')"
    "map mob_OffRampNextSeqNums (map ao_Observation aos) = map mob_OffRampNextSeqNums (map ao_Observation aos')"
    unfolding map_map by (rule map_eq_list_all2 [OF assms], simp add: mr_obs_eq_def)+
  show "agg_MerkleRoots (mr_aggregateObservations aos) = agg_MerkleRoots (mr_aggregateObservations aos')"
    "agg_OnRampMaxSeqNums (mr_aggregateObservations aos) = agg_OnRampMaxSeqNums (mr_aggregateObservations aos')"
    "agg_OffRampNextSeqNums (mr_aggregateObservations aos) = agg_OffRampNextSeqNums (mr_aggregateObservations aos')"
    by (simp_all only: mr_aggregateObservations_def Let_def eq aggregatedObservation.select_convs)
  have "list_all2 gm_eq (map mob_FChain (map ao_Observation aos)) (map mob_FChain (map ao_Observation aos'))"
    using assms by (simp add: list_all2_conv_all_nth mr_obs_eq_def)
  then show "gm_eq (agg_FChain (mr_aggregateObservations aos)) (agg_FChain (mr_aggregateObservations aos'))"
    by (simp add: mr_aggregateObservations_def Let_def group_maps_gm_eq del: map_map)
qed

lemma gm_ok_mr_aggregate [simp]:
  "gm_ok (agg_MerkleRoots (mr_aggregateObservations aos))"
  "gm_ok (agg_OnRampMaxSeqNums (mr_aggregateObservations aos))"
  "gm_ok (agg_OffRampNextSeqNums (mr_aggregateObservations aos))"
  "gm_ok (agg_FChain (mr_aggregateObservations aos))"
  by (simp_all add: mr_aggregateObservations_def Let_def gm_ok_group_append)

lemma GetConsensusMap_in_items:
  assumes "gm_ok m" and "map_of (GetConsensusMap sha m minObs) k = Some x"
  shows "\<exists>items. map_of m k = Some items \<and> x \<in> set items"
proof -
  from assms obtain items t where i: "map_of m k = Some items"
    "minObservation_GetValid (fold minObservation_Add items (NewMinObservation sha t None)) = [x]"
    by (auto simp: GetConsensusMap_def map_of_gm_collect case_singleton_iff split: option.splits)
  then have "x \<in> set (minObservation_GetValid (fold minObservation_Add items (NewMinObservation sha t None)))" by simp
  then obtain h c where "(h, c) \<in> set (mo_cache (fold minObservation_Add items (NewMinObservation sha t None)))" "x = ctr_data c"
    by (auto simp: minObservation_GetValid_def)
  with minObservation_entry(2) i(1) show ?thesis by blast
qed

lemma gm_eq_getOffRampNext [det_intros]:
  "gm_eq m m' \<Longrightarrow> rel_result gm_eq (getOffRampNextSequenceNumbersConsensus f m) (getOffRampNextSequenceNumbersConsensus f m')"
  unfolding getOffRampNextSequenceNumbersConsensus_def
  by (rule gm_eq_collect_r) (auto simp: slice_get_def)

lemma agg_MerkleRoots_chain:
  assumes "map_of (agg_MerkleRoots (mr_aggregateObservations aos)) c = Some rs" and "r \<in> set rs"
  shows "mrc_ChainSel r = c"
  using assms
  by (auto simp: mr_aggregateObservations_def Let_def map_of_group_append filter_map comp_def split: if_splits)

text \<open>The consensus observations of a list of observations, written with its parts named.\<close>

definition mr_fChains :: "ccip_lib \<Rightarrow> int \<Rightarrow> mr_ao list \<Rightarrow> (ChainSelector, int) gomap" where
  "mr_fChains lib fRoleDON aos =
     GetConsensusMap (lib_sum_int lib) (agg_FChain (mr_aggregateObservations aos))
       (MakeConstantThreshold (TwoFPlus1 fRoleDON))"

lemma mr_getConsensusObservation_eq:
  "mr_getConsensusObservation lib fr dest aos =
     (let fChains = mr_fChains lib fr aos; agg = mr_aggregateObservations aos in
      case map_of fChains dest of
        None \<Rightarrow> Error (Err ''no consensus value for fDestChain'')
      | Some f \<Rightarrow>
          rbind (GetOrderedConsensus (agg_OnRampMaxSeqNums agg) (MakeMultiThreshold fChains F)) (\<lambda>onRamp.
          rbind (getOffRampNextSequenceNumbersConsensus (F f) (agg_OffRampNextSeqNums agg)) (\<lambda>offRamp.
            Ok \<lparr>con_MerkleRoots = GetConsensusMap (lib_sum_root lib) (agg_MerkleRoots agg) (MakeMultiThreshold fChains TwoFPlus1),
                con_OnRampMaxSeqNums = onRamp, con_OffRampNextSeqNums = offRamp, con_FChain = fChains\<rparr>)))"
  unfolding mr_getConsensusObservation_def mr_fChains_def Let_def
  by (auto simp: MakeMultiThreshold_get split: option.splits)

lemma mr_getConsensusObservation_wf:
  assumes "mr_getConsensusObservation lib fr dest aos = Ok co"
  shows "mr_con_wf co"
proof -
  have "gm_ok r" if "GetOrderedConsensus (agg_OnRampMaxSeqNums (mr_aggregateObservations aos)) t = Ok r" for r t
    using gm_eq_GetOrderedConsensus [OF gm_eq_refl [OF gm_ok_mr_aggregate(2)], of aos t] that
    by (simp add: gm_eq_def)
  moreover have "gm_ok r" if "getOffRampNextSequenceNumbersConsensus f (agg_OffRampNextSeqNums (mr_aggregateObservations aos)) = Ok r" for r f
    using gm_eq_getOffRampNext [OF gm_eq_refl [OF gm_ok_mr_aggregate(3)], of f aos] that
    by (simp add: gm_eq_def)
  moreover have "mrc_ChainSel r = c"
    if "(c, r) \<in> set (GetConsensusMap (lib_sum_root lib) (agg_MerkleRoots (mr_aggregateObservations aos)) t)" for c r t
  proof -
    have "map_of (GetConsensusMap (lib_sum_root lib) (agg_MerkleRoots (mr_aggregateObservations aos)) t) c = Some r"
      using that by (simp add: gm_get_iff)
    from GetConsensusMap_in_items [OF _ this] show ?thesis using agg_MerkleRoots_chain by auto
  qed
  ultimately show ?thesis
    using assms unfolding mr_getConsensusObservation_eq Let_def mr_con_wf_def
    by (auto simp: rbind_Ok_iff mr_fChains_def split: option.splits)
qed

lemma mr_getConsensusObservation_det:
  assumes "list_all2 mr_obs_eq aos aos'"
  shows "rel_result mr_con_eq (mr_getConsensusObservation lib fr dest aos) (mr_getConsensusObservation lib fr dest aos')"
proof -
  note agg = mr_aggregate_det [OF assms]
  have fc: "gm_eq (mr_fChains lib fr aos) (mr_fChains lib fr aos')"
    unfolding mr_fChains_def by (rule gm_eq_GetConsensusMap [OF agg(4)])
  then have mo: "map_of (mr_fChains lib fr aos) = map_of (mr_fChains lib fr aos')" by (simp add: gm_eq_def)
  have on: "rel_result gm_eq (GetOrderedConsensus (agg_OnRampMaxSeqNums (mr_aggregateObservations aos')) t)
      (GetOrderedConsensus (agg_OnRampMaxSeqNums (mr_aggregateObservations aos')) t)" for t
    by (rule gm_eq_GetOrderedConsensus [OF gm_eq_refl]) simp
  have off: "rel_result gm_eq (getOffRampNextSequenceNumbersConsensus f (agg_OffRampNextSeqNums (mr_aggregateObservations aos')))
      (getOffRampNextSequenceNumbersConsensus f (agg_OffRampNextSeqNums (mr_aggregateObservations aos')))" for f
    by (rule gm_eq_getOffRampNext [OF gm_eq_refl]) simp
  show ?thesis
  proof (cases "map_of (mr_fChains lib fr aos') dest")
    case (Some f)
    show ?thesis
      unfolding mr_getConsensusObservation_eq Let_def mo agg(1-3) Some option.case MakeMultiThreshold_gm_eq [OF fc]
      using on [of "MakeMultiThreshold (mr_fChains lib fr aos') F"] off [of "F f"] fc
      by (cases "GetOrderedConsensus (agg_OnRampMaxSeqNums (mr_aggregateObservations aos')) (MakeMultiThreshold (mr_fChains lib fr aos') F)";
          cases "getOffRampNextSequenceNumbersConsensus (F f) (agg_OffRampNextSeqNums (mr_aggregateObservations aos'))")
        (simp_all add: mr_con_eq_def gm_eq_refl)
  qed (simp add: mr_getConsensusObservation_eq Let_def mo)
qed

lemma reportRangesOutcome_det:
  assumes "mr_con_eq co co'"
  shows "reportRangesOutcome lib co n = reportRangesOutcome lib co' n"
proof -
  have off: "gm_eq (con_OffRampNextSeqNums co) (con_OffRampNextSeqNums co')"
    and on: "map_of (con_OnRampMaxSeqNums co) = map_of (con_OnRampMaxSeqNums co')"
    using assms by (simp_all add: mr_con_eq_def gm_eq_def)
  have d: "distinct (map fst (con_OffRampNextSeqNums co))" using off by (simp add: gm_eq_def gm_ok_def)
  have ms: "mset (con_OffRampNextSeqNums co) = mset (con_OffRampNextSeqNums co')" using off by (rule gm_eq_mset)
  let ?g = "\<lambda>(chainSel, offRampNextSeqNum).
       case map_of (con_OnRampMaxSeqNums co') chainSel of None \<Rightarrow> []
       | Some onRampMaxSeqNum \<Rightarrow>
           if offRampNextSeqNum \<le> onRampMaxSeqNum
           then [\<lparr>cr_ChainSel = chainSel, cr_SeqNumRange = lib_Limit lib \<lparr>sr_Start = offRampNextSeqNum, sr_End = onRampMaxSeqNum\<rparr> n\<rparr>]
           else []"
  have "sort_key cr_ChainSel (concat (map ?g (con_OffRampNextSeqNums co))) =
      sort_key cr_ChainSel (concat (map ?g (con_OffRampNextSeqNums co')))"
    by (rule sort_key_unique [OF mset_concat_map [OF ms]])
      (rule distinct_map_concat_key [OF d], auto split: option.splits)
  moreover have "sort_key snc_ChainSel (map (\<lambda>(c, s). \<lparr>snc_ChainSel = c, snc_SeqNum = s\<rparr>) (con_OffRampNextSeqNums co)) =
      sort_key snc_ChainSel (map (\<lambda>(c, s). \<lparr>snc_ChainSel = c, snc_SeqNum = s\<rparr>) (con_OffRampNextSeqNums co'))"
    using d ms by (intro sort_key_unique) (simp_all add: comp_def case_prod_unfold)
  ultimately show ?thesis
    unfolding reportRangesOutcome_def Let_def on by simp
qed

lemma outcome_in_state_det:
  assumes "mr_con_eq co co'" and "mr_con_wf co"
  shows "outcome_in_state lib cfg st prev co = outcome_in_state lib cfg st prev co'"
proof (cases st)
  case buildingReport
  have ms: "mset (con_MerkleRoots co) = mset (con_MerkleRoots co')"
    using assms(1) by (auto simp: mr_con_eq_def intro: gm_eq_mset)
  have "map mrc_ChainSel (map snd (con_MerkleRoots co)) = map fst (con_MerkleRoots co)"
    using assms(2) by (auto simp: mr_con_wf_def)
  moreover have "distinct (map fst (con_MerkleRoots co))" using assms(2) by (simp add: mr_con_wf_def gm_ok_def)
  ultimately have "distinct (map mrc_ChainSel (map snd (con_MerkleRoots co)))" by metis
  moreover have "mset (map snd (con_MerkleRoots co)) = mset (map snd (con_MerkleRoots co'))" using ms by simp
  ultimately have "sort_key mrc_ChainSel (map snd (con_MerkleRoots co)) = sort_key mrc_ChainSel (map snd (con_MerkleRoots co'))"
    by (intro sort_key_unique)
  moreover have "con_MerkleRoots co = [] \<longleftrightarrow> con_MerkleRoots co' = []" using ms by (metis mset_zero_iff)
  ultimately show ?thesis
    by (simp add: outcome_in_state_def buildingReport buildMerkleRootsOutcome_def Let_def)
next
  case waitingForReportTransmission
  have "map_of (con_OffRampNextSeqNums co) = map_of (con_OffRampNextSeqNums co')"
    using assms(1) by (simp add: mr_con_eq_def gm_eq_def)
  moreover have "pending_after b m ss p = pending_after b m' ss p" if "map_of m = map_of m'" for b m m' ss p
    using that by (induction b m ss p rule: pending_after.induct) (auto split: option.splits)
  ultimately have "pending_after b (con_OffRampNextSeqNums co) ss p = pending_after b (con_OffRampNextSeqNums co') ss p" for b ss p
    by blast
  then show ?thesis
    by (simp add: outcome_in_state_def waitingForReportTransmission checkForReportTransmission_def)
qed (simp add: outcome_in_state_def reportRangesOutcome_det [OF assms(1)])

lemma mr_Outcome_method_det:
  assumes "list_all2 mr_obs_eq aos aos'"
  shows "mr_Outcome_method lib cfg prev aos = mr_Outcome_method lib cfg prev aos'"
  using mr_getConsensusObservation_det [OF assms, of lib "mrcfg_F cfg" "mrcfg_destChain cfg"]
  unfolding mr_Outcome_method_def mr_getOutcome_def
  by (cases "mr_getConsensusObservation lib (mrcfg_F cfg) (mrcfg_destChain cfg) aos";
      cases "mr_getConsensusObservation lib (mrcfg_F cfg) (mrcfg_destChain cfg) aos'")
    (auto simp: Let_def outcome_in_state_det dest: mr_getConsensusObservation_wf)

interpretation mrp: plugin_processor "mr_Outcome_method lib cfg" mr_obs_eq "(=)" for lib cfg
  by unfold_locales (simp add: result.rel_eq mr_Outcome_method_det)

text \<open>Determinism of the merkle root processor: over any number of rounds, two oracles that visit the
  fChain maps of the observations in different orders compute the same outcome, and within a
  round the outcome does not depend on the order in which the agreed maps are visited.\<close>

theorem mr_Outcome_deterministic:
  assumes "list_all2 (list_all2 mr_obs_eq) rounds rounds'"
    and "mr_getConsensusObservation lib fr dest aos = Ok co" and "mr_con_eq co co'"
  shows "run_rounds (mr_Outcome_method lib cfg) prev rounds = run_rounds (mr_Outcome_method lib cfg) prev rounds' \<and>
    outcome_in_state lib cfg st prev co = outcome_in_state lib cfg st prev co'"
  using mrp.run_det [OF assms(1) refl, unfolded result.rel_eq] outcome_in_state_det [OF assms(3) mr_getConsensusObservation_wf [OF assms(2)]]
  by blast

section \<open>The selected ranges\<close>

definition mr_values :: "(mr_Observation \<Rightarrow> SeqNumChain list) \<Rightarrow> mr_ao list \<Rightarrow> ChainSelector \<Rightarrow> SeqNum list" where
  "mr_values field aos c =
     map snc_SeqNum (filter (\<lambda>s. snc_ChainSel s = c) (concat (map (\<lambda>ao. field (ao_Observation ao)) aos)))"

lemma mr_values_split:
  "mset (mr_values field aos c) = mset (mr_values field (filter P aos) c) + mset (mr_values field (filter (\<lambda>ao. \<not> P ao) aos) c)"
  by (induction aos) (auto simp: mr_values_def)

lemma agg_values:
  "map_of (agg_OnRampMaxSeqNums (mr_aggregateObservations aos)) c = Some items \<Longrightarrow> items = mr_values mob_OnRampMaxSeqNums aos c"
  "map_of (agg_OffRampNextSeqNums (mr_aggregateObservations aos)) c = Some items' \<Longrightarrow> items' = mr_values mob_OffRampNextSeqNums aos c"
  by (auto simp: mr_aggregateObservations_def Let_def map_of_group_append mr_values_def filter_map comp_def split: if_splits)

lemma getOffRampNext_Ok:
  assumes "0 \<le> f" "f < 2 ^ 62"
  shows "getOffRampNextSequenceNumbersConsensus f m =
    Ok (gm_collect (\<lambda>_ xs. if 2 * f + 1 \<le> int (length xs) then Some (sort xs ! nat f) else None) m)"
  unfolding getOffRampNextSequenceNumbersConsensus_def
  by (rule gm_collect_r_Ok) (use assms in \<open>auto simp: u64i_id slice_get_def\<close>)

lemma reportRangesOutcome_ranges:
  assumes "gm_ok (con_OffRampNextSeqNums co)"
  shows "r \<in> set (mro_RangesSelectedForReport (reportRangesOutcome lib co n)) \<longleftrightarrow>
    (\<exists>offN onM. map_of (con_OffRampNextSeqNums co) (cr_ChainSel r) = Some offN \<and>
       map_of (con_OnRampMaxSeqNums co) (cr_ChainSel r) = Some onM \<and> offN \<le> onM \<and>
       r = \<lparr>cr_ChainSel = cr_ChainSel r, cr_SeqNumRange = lib_Limit lib \<lparr>sr_Start = offN, sr_End = onM\<rparr> n\<rparr>)"
proof -
  let ?g = "\<lambda>(chainSel, offN). case map_of (con_OnRampMaxSeqNums co) chainSel of None \<Rightarrow> []
     | Some onM \<Rightarrow> if offN \<le> onM then [\<lparr>cr_ChainSel = chainSel, cr_SeqNumRange = lib_Limit lib \<lparr>sr_Start = offN, sr_End = onM\<rparr> n\<rparr>] else []"
  have "mro_RangesSelectedForReport (reportRangesOutcome lib co n) = sort_key cr_ChainSel (concat (map ?g (con_OffRampNextSeqNums co)))"
    by (simp add: reportRangesOutcome_def Let_def mr_Outcome_zero_def)
  moreover have "r \<in> set (concat (map ?g (con_OffRampNextSeqNums co))) \<longleftrightarrow>
    (\<exists>offN onM. (cr_ChainSel r, offN) \<in> set (con_OffRampNextSeqNums co) \<and>
       map_of (con_OnRampMaxSeqNums co) (cr_ChainSel r) = Some onM \<and> offN \<le> onM \<and>
       r = \<lparr>cr_ChainSel = cr_ChainSel r, cr_SeqNumRange = lib_Limit lib \<lparr>sr_Start = offN, sr_End = onM\<rparr> n\<rparr>)"
    by (force split: option.splits if_splits)
  ultimately show ?thesis using assms by (simp add: gm_get_iff)
qed

lemma con_onRamp_honest:
  assumes "mr_getConsensusObservation lib fr dest aos = Ok co"
    and "\<forall>c f. map_of (con_FChain co) c = Some f \<longrightarrow> 0 < f \<and> f < 2 ^ 62"
    and "map_of (con_FChain co) c = Some f" and "map_of (con_OnRampMaxSeqNums co) c = Some v"
    and "int (length (mr_values mob_OnRampMaxSeqNums (filter (\<lambda>ao. \<not> P ao) aos) c)) \<le> f"
  shows "\<exists>lo hi. {lo, hi} \<subseteq> set (mr_values mob_OnRampMaxSeqNums (filter P aos) c) \<and> lo \<le> v \<and> v \<le> hi"
proof -
  let ?m = "agg_OnRampMaxSeqNums (mr_aggregateObservations aos)"
  let ?g = "MakeMultiThreshold (con_FChain co) F"
  have co: "GetOrderedConsensus ?m ?g = Ok (con_OnRampMaxSeqNums co)" "gm_ok (con_FChain co)"
    using assms(1) unfolding mr_getConsensusObservation_eq Let_def
    by (auto simp: rbind_Ok_iff mr_fChains_def split: option.splits)
  have sm: "small_thresholds ?g" "?g c = Some f" "0 < f"
    using assms(2,3) co(2) by (force simp: small_thresholds_def MakeMultiThreshold_get thresholds_small)+
  obtain items where items: "map_of ?m c = Some items" "2 * f + 1 \<le> int (length items)" "v = sort items ! nat f"
    using assms(4) sm(2) co(1) [unfolded GetOrderedConsensus_Ok [OF sm(1)], simplified, symmetric]
    by (auto simp: map_of_gm_collect split: option.splits if_splits)
  have "\<exists>v' lo hi. slice_get (sort items) f = Ok v' \<and> lo \<in> set (mr_values mob_OnRampMaxSeqNums (filter P aos) c) \<and>
      hi \<in> set (mr_values mob_OnRampMaxSeqNums (filter P aos) c) \<and> lo \<le> v' \<and> v' \<le> hi"
    using items sm(3) assms(5) mr_values_split [of mob_OnRampMaxSeqNums aos c P] agg_values(1) [OF items(1)]
    by (intro ordp.pick_sandwich) (simp_all, linarith+)
  with items sm(3) show ?thesis by (auto simp: slice_get_def)
qed

lemma con_offRamp_honest:
  assumes "mr_getConsensusObservation lib fr dest aos = Ok co"
    and "map_of (con_FChain co) dest = Some f" "0 \<le> f" "f < 2 ^ 62" and "map_of (con_OffRampNextSeqNums co) c = Some v"
    and "int (length (mr_values mob_OffRampNextSeqNums (filter (\<lambda>ao. \<not> P ao) aos) c)) \<le> f"
  shows "\<exists>lo hi. {lo, hi} \<subseteq> set (mr_values mob_OffRampNextSeqNums (filter P aos) c) \<and> lo \<le> v \<and> v \<le> hi"
proof -
  let ?m = "agg_OffRampNextSeqNums (mr_aggregateObservations aos)"
  have "getOffRampNextSequenceNumbersConsensus f ?m = Ok (con_OffRampNextSeqNums co)"
    using assms(1-4) unfolding mr_getConsensusObservation_eq Let_def
    by (auto simp: rbind_Ok_iff mr_fChains_def thresholds_small split: option.splits)
  note this [unfolded getOffRampNext_Ok [OF assms(3,4)], simplified, symmetric]
  with assms(5) obtain items where items: "map_of ?m c = Some items" "2 * f + 1 \<le> int (length items)" "v = sort items ! nat f"
    by (auto simp: map_of_gm_collect split: option.splits if_splits)
  have "\<exists>v' lo hi. slice_get (sort items) f = Ok v' \<and> lo \<in> set (mr_values mob_OffRampNextSeqNums (filter P aos) c) \<and>
      hi \<in> set (mr_values mob_OffRampNextSeqNums (filter P aos) c) \<and> lo \<le> v' \<and> v' \<le> hi"
    using items assms(3,6) mr_values_split [of mob_OffRampNextSeqNums aos c P] agg_values(2) [OF items(1)]
    by (intro ordp.pick_sandwich) (simp_all, linarith+)
  with items assms(3) show ?thesis by (auto simp: slice_get_def)
qed

text \<open>C26. A range selected for a report starts at a next offRamp number that lies between the numbers of two
  honest oracles, is not empty, holds at most the configured number of messages, and ends at
  or below the latest onRamp number that some honest oracle observed, provided that at most f(source)
  of the onRamp values and at most f(dest) of the offRamp values for the chain are faulty.\<close>

theorem mr_selected_range_honest:
  assumes "limit_spec lib" and "0 < n"
    and "mr_getConsensusObservation lib fr dest aos = Ok co"
    and "\<forall>c f. map_of (con_FChain co) c = Some f \<longrightarrow> 0 < f \<and> f < 2 ^ 62"
    and "map_of (con_FChain co) (cr_ChainSel r) = Some f" and "map_of (con_FChain co) dest = Some fd"
    and "int (length (mr_values mob_OnRampMaxSeqNums (filter (\<lambda>ao. \<not> honest (ao_OracleID ao)) aos) (cr_ChainSel r))) \<le> f"
    and "int (length (mr_values mob_OffRampNextSeqNums (filter (\<lambda>ao. \<not> honest (ao_OracleID ao)) aos) (cr_ChainSel r))) \<le> fd"
    and "r \<in> set (mro_RangesSelectedForReport (reportRangesOutcome lib co n))"
  shows "(\<exists>lo hi. {lo, hi} \<subseteq> set (mr_values mob_OffRampNextSeqNums (filter (\<lambda>ao. honest (ao_OracleID ao)) aos) (cr_ChainSel r)) \<and>
        lo \<le> sr_Start (cr_SeqNumRange r) \<and> sr_Start (cr_SeqNumRange r) \<le> hi) \<and>
    (\<exists>hi \<in> set (mr_values mob_OnRampMaxSeqNums (filter (\<lambda>ao. honest (ao_OracleID ao)) aos) (cr_ChainSel r)).
        sr_End (cr_SeqNumRange r) \<le> hi) \<and>
    sr_Start (cr_SeqNumRange r) \<le> sr_End (cr_SeqNumRange r) \<and>
    unat (sr_End (cr_SeqNumRange r)) - unat (sr_Start (cr_SeqNumRange r)) < unat n"
proof -
  have "gm_ok (con_OffRampNextSeqNums co)"
    using mr_getConsensusObservation_wf [OF assms(3)] by (simp add: mr_con_wf_def)
  with assms(9) obtain offN onM where
    v: "map_of (con_OffRampNextSeqNums co) (cr_ChainSel r) = Some offN"
      "map_of (con_OnRampMaxSeqNums co) (cr_ChainSel r) = Some onM" "offN \<le> onM"
      "cr_SeqNumRange r = lib_Limit lib \<lparr>sr_Start = offN, sr_End = onM\<rparr> n"
    unfolding reportRangesOutcome_ranges [OF \<open>gm_ok _\<close>] by (metis ChainRange.select_convs(2))
  have n: "0 < unat n" using assms(2) by (simp add: word_less_nat_alt)
  have lim: "sr_Start (cr_SeqNumRange r) = offN"
    "unat (sr_End (cr_SeqNumRange r)) = min (unat onM) (unat offN + unat n - 1)"
    using assms(1,2) v(3,4) by (simp_all add: limit_spec_def)
  then have "sr_Start (cr_SeqNumRange r) \<le> sr_End (cr_SeqNumRange r)" "sr_End (cr_SeqNumRange r) \<le> onM"
    "unat (sr_End (cr_SeqNumRange r)) - unat (sr_Start (cr_SeqNumRange r)) < unat n"
    using v(3) n unfolding word_le_nat_alt by (auto simp: lim)
  moreover have "0 \<le> fd \<and> fd < 2 ^ 62" using assms(4,6) by (simp add: order_less_imp_le)
  then have "\<exists>lo hi. {lo, hi} \<subseteq> set (mr_values mob_OffRampNextSeqNums (filter (\<lambda>ao. honest (ao_OracleID ao)) aos) (cr_ChainSel r)) \<and>
      lo \<le> offN \<and> offN \<le> hi"
    by (intro con_offRamp_honest [OF assms(3,6) _ _ v(1) assms(8)]) simp_all
  moreover obtain hi where "hi \<in> set (mr_values mob_OnRampMaxSeqNums (filter (\<lambda>ao. honest (ao_OracleID ao)) aos) (cr_ChainSel r))" "onM \<le> hi"
    using con_onRamp_honest [OF assms(3,4,5) v(2) assms(7)] by auto
  ultimately show ?thesis using lim(1) by (meson order_trans)
qed

section \<open>Waiting for the transmission\<close>

definition advanced :: "(ChainSelector, SeqNum) gomap \<Rightarrow> SeqNumChain \<Rightarrow> bool" where
  "advanced current s = (case map_of current (snc_ChainSel s) of None \<Rightarrow> False | Some v \<Rightarrow> snc_SeqNum s < v)"

lemma pending_after_Cons:
  "pending_after multi cur (s # ss) p =
     (if advanced cur s then if multi then pending_after multi cur ss (gm_del (snc_ChainSel s) p) else None
      else pending_after multi cur ss p)"
  by (simp add: advanced_def split: option.splits)

lemma pending_after_None: "pending_after multi cur ss p = None \<longleftrightarrow> \<not> multi \<and> (\<exists>s \<in> set ss. advanced cur s)"
  by (induction ss arbitrary: p) (auto simp: pending_after_Cons simp del: pending_after.simps(2))

lemma gm_keys_del: "fst ` set (gm_del k m) = fst ` set m - {k}"
  by (auto simp: delete_conv' simp flip: dom_map_of_conv_image_fst)

lemma pending_after_Some:
  "pending_after multi cur ss p = Some q \<Longrightarrow>
     fst ` set q = fst ` set p - snc_ChainSel ` {s \<in> set ss. advanced cur s}"
proof (induction ss arbitrary: p)
  case (Cons s ss)
  show ?case
  proof (cases "advanced cur s")
    case True
    with Cons.prems have "pending_after multi cur ss (gm_del (snc_ChainSel s) p) = Some q"
      by (simp add: pending_after_Cons del: pending_after.simps split: if_splits)
    from Cons.IH [OF this] True show ?thesis by (auto simp: gm_keys_del)
  next
    case False
    with Cons.prems have "pending_after multi cur ss p = Some q"
      by (simp add: pending_after_Cons del: pending_after.simps)
    moreover have "{x \<in> set (s # ss). advanced cur x} = {x \<in> set ss. advanced cur x}" using False by auto
    ultimately show ?thesis using Cons.IH by simp
  qed
qed simp

lemma diff_empty_iff:
  "f ` R \<union> fst ` set [] - g ` {s \<in> S. P s} = {} \<longleftrightarrow> (\<forall>r \<in> R. \<exists>s \<in> S. g s = f r \<and> P s)"
proof -
  have "f r \<in> g ` {s \<in> S. P s} \<longleftrightarrow> (\<exists>s \<in> S. g s = f r \<and> P s)" for r by force
  then show ?thesis by (simp add: Diff_eq_empty_iff image_subset_iff)
qed

lemma pending_init: "fst ` set (fold (\<lambda>root m. gm_put (mrc_ChainSel root) () m) roots m) = mrc_ChainSel ` set roots \<union> fst ` set m"
  by (induction roots arbitrary: m) (auto simp: gm_keys_put)

definition transmitted :: "bool \<Rightarrow> mr_Outcome \<Rightarrow> consensusObservation \<Rightarrow> bool" where
  "transmitted multi prev co \<longleftrightarrow>
     (\<not> multi \<and> (\<exists>s \<in> set (mro_OffRampNextSeqNums prev). advanced (con_OffRampNextSeqNums co) s)) \<or>
     (\<forall>r \<in> set (mro_RootsToReport prev). \<exists>s \<in> set (mro_OffRampNextSeqNums prev).
        snc_ChainSel s = mrc_ChainSel r \<and> advanced (con_OffRampNextSeqNums co) s)"

lemma checkForReportTransmission_cases:
  "checkForReportTransmission maxAttempts multi prev co =
     (if transmitted multi prev co then mr_Outcome_zero\<lparr>mro_OutcomeType := ReportTransmitted\<rparr>
      else if maxAttempts \<le> mro_ReportTransmissionCheckAttempts prev + 1
      then mr_Outcome_zero\<lparr>mro_OutcomeType := ReportTransmissionFailed\<rparr>
      else mr_Outcome_zero\<lparr>mro_OutcomeType := ReportInFlight,
             mro_OffRampNextSeqNums := mro_OffRampNextSeqNums prev,
             mro_ReportTransmissionCheckAttempts := mro_ReportTransmissionCheckAttempts prev + 1,
             mro_RootsToReport := mro_RootsToReport prev\<rparr>)"
proof -
  let ?p = "fold (\<lambda>root m. gm_put (mrc_ChainSel root) () m) (mro_RootsToReport prev) []"
  let ?q = "pending_after multi (con_OffRampNextSeqNums co) (mro_OffRampNextSeqNums prev) ?p"
  have "transmitted multi prev co \<longleftrightarrow> ?q = None \<or> ?q = Some []"
  proof (cases ?q)
    case None
    then show ?thesis by (simp add: pending_after_None transmitted_def)
  next
    case (Some q)
    have "q = [] \<longleftrightarrow> fst ` set q = {}" by simp
    also have "\<dots> \<longleftrightarrow> (\<forall>r \<in> set (mro_RootsToReport prev). \<exists>s \<in> set (mro_OffRampNextSeqNums prev).
        snc_ChainSel s = mrc_ChainSel r \<and> advanced (con_OffRampNextSeqNums co) s)"
      unfolding pending_after_Some [OF Some] pending_init diff_empty_iff by auto
    finally have "q = [] \<longleftrightarrow> (\<forall>r \<in> set (mro_RootsToReport prev). \<exists>s \<in> set (mro_OffRampNextSeqNums prev).
        snc_ChainSel s = mrc_ChainSel r \<and> advanced (con_OffRampNextSeqNums co) s)" .
    moreover have "\<not> (\<not> multi \<and> (\<exists>s \<in> set (mro_OffRampNextSeqNums prev). advanced (con_OffRampNextSeqNums co) s))"
      using Some pending_after_None [of multi "con_OffRampNextSeqNums co" "mro_OffRampNextSeqNums prev" ?p] by simp
    ultimately have "transmitted multi prev co \<longleftrightarrow> q = []" unfolding transmitted_def by blast
    then show ?thesis using Some by simp
  qed
  then show ?thesis
    by (cases ?q) (simp_all add: checkForReportTransmission_def Let_def)
qed

section \<open>The state machine\<close>

inductive mr_reachable :: "ccip_lib \<Rightarrow> mr_config \<Rightarrow> mr_Outcome \<Rightarrow> bool" for lib cfg where
  init: "mr_reachable lib cfg mr_Outcome_zero"
| step: "mr_reachable lib cfg out \<Longrightarrow> mr_Outcome_method lib cfg out aos = Ok out' \<Longrightarrow> mr_reachable lib cfg out'"

definition mr_inv :: "mr_config \<Rightarrow> mr_Outcome \<Rightarrow> bool" where
  "mr_inv cfg out \<longleftrightarrow>
     sorted (map cr_ChainSel (mro_RangesSelectedForReport out)) \<and> distinct (map cr_ChainSel (mro_RangesSelectedForReport out)) \<and>
     sorted (map mrc_ChainSel (mro_RootsToReport out)) \<and> distinct (map mrc_ChainSel (mro_RootsToReport out)) \<and>
     (mro_RangesSelectedForReport out \<noteq> [] \<longleftrightarrow> mro_OutcomeType out = ReportIntervalsSelected) \<and>
     (mro_RootsToReport out \<noteq> [] \<longleftrightarrow> mro_OutcomeType out \<in> {ReportGenerated, ReportInFlight}) \<and>
     (mro_OutcomeType out = ReportInFlight \<longrightarrow>
        0 < mro_ReportTransmissionCheckAttempts out \<and>
        mro_ReportTransmissionCheckAttempts out < mrcfg_MaxReportTransmissionCheckAttempts cfg) \<and>
     (mro_OutcomeType out \<noteq> ReportInFlight \<longrightarrow> mro_ReportTransmissionCheckAttempts out = 0)"

lemma mr_inv_zero: "mr_inv cfg mr_Outcome_zero"
  by (simp add: mr_inv_def mr_Outcome_zero_def)

lemma mr_inv_ranges:
  assumes "mr_con_wf co"
  shows "mr_inv cfg (reportRangesOutcome lib co n)"
proof -
  let ?g = "\<lambda>(chainSel, offN). case map_of (con_OnRampMaxSeqNums co) chainSel of None \<Rightarrow> []
     | Some onM \<Rightarrow> if offN \<le> onM then [\<lparr>cr_ChainSel = chainSel, cr_SeqNumRange = lib_Limit lib \<lparr>sr_Start = offN, sr_End = onM\<rparr> n\<rparr>] else []"
  let ?rs = "concat (map ?g (con_OffRampNextSeqNums co))"
  have d: "distinct (map fst (con_OffRampNextSeqNums co))" using assms by (simp add: mr_con_wf_def gm_ok_def)
  have "distinct (map cr_ChainSel ?rs)"
    by (rule distinct_map_concat_key [OF d], auto split: option.splits)
  then have "distinct (map cr_ChainSel (sort_key cr_ChainSel ?rs))" by (simp only: distinct_map_sort_key)
  moreover have "sorted (map cr_ChainSel (sort_key cr_ChainSel ?rs))" by simp
  moreover have "reportRangesOutcome lib co n =
      (if sort_key cr_ChainSel ?rs = [] then mr_Outcome_zero\<lparr>mro_OutcomeType := ReportEmpty\<rparr>
       else mr_Outcome_zero\<lparr>mro_OutcomeType := ReportIntervalsSelected,
          mro_RangesSelectedForReport := sort_key cr_ChainSel ?rs,
          mro_OffRampNextSeqNums := sort_key snc_ChainSel
            (map (\<lambda>(c, s). \<lparr>snc_ChainSel = c, snc_SeqNum = s\<rparr>) (con_OffRampNextSeqNums co))\<rparr>)"
    by (simp only: reportRangesOutcome_def Let_def)
  ultimately show ?thesis
    by (cases "sort_key cr_ChainSel ?rs = []") (simp_all only: if_True if_False mr_inv_def mr_Outcome_zero_def, simp_all)
qed

lemma mr_inv_roots:
  assumes "mr_con_wf co"
  shows "mr_inv cfg (buildMerkleRootsOutcome co prev)"
proof -
  let ?rs = "map snd (con_MerkleRoots co)"
  have "map mrc_ChainSel ?rs = map fst (con_MerkleRoots co)" using assms by (auto simp: mr_con_wf_def)
  moreover have "distinct (map fst (con_MerkleRoots co))" using assms by (simp add: mr_con_wf_def gm_ok_def)
  ultimately have "distinct (map mrc_ChainSel ?rs)" by metis
  then have "distinct (map mrc_ChainSel (sort_key mrc_ChainSel ?rs))" by (simp only: distinct_map_sort_key)
  moreover have "sort_key mrc_ChainSel ?rs = [] \<longleftrightarrow> con_MerkleRoots co = []"
    by (metis length_0_conv length_sort map_is_Nil_conv)
  ultimately show ?thesis
    by (auto simp: mr_inv_def buildMerkleRootsOutcome_def Let_def mr_Outcome_zero_def)
qed

lemma u64_succ_less:
  fixes a m :: u64
  assumes "a = 0 \<or> a < m" and "\<not> m \<le> a + 1"
  shows "0 < a + 1 \<and> a + 1 < m \<and> unat (a + 1) = Suc (unat a)"
proof -
  have "a + 1 \<noteq> 0"
  proof
    assume "a + 1 = 0"
    then have "a = - 1" by (simp add: eq_neg_iff_add_eq_0)
    with assms(1) show False by (auto simp: word_order.extremum_strict)
  qed
  then show ?thesis using assms(2) unatSuc [of a] by (simp add: word_gt_0 not_le add.commute)
qed

lemma mr_inv_wait:
  assumes "mr_inv cfg prev" and "nextState (mro_OutcomeType prev) = waitingForReportTransmission"
  shows "mr_inv cfg (checkForReportTransmission (mrcfg_MaxReportTransmissionCheckAttempts cfg) multi prev co)"
proof -
  have t: "mro_OutcomeType prev \<in> {ReportGenerated, ReportInFlight}"
    using assms(2) by (cases "mro_OutcomeType prev") auto
  then have "mro_ReportTransmissionCheckAttempts prev = 0 \<or>
      mro_ReportTransmissionCheckAttempts prev < mrcfg_MaxReportTransmissionCheckAttempts cfg"
    using assms(1) by (auto simp: mr_inv_def)
  note s = u64_succ_less [OF this]
  show ?thesis
    using assms(1) t s unfolding checkForReportTransmission_cases
    by (auto simp: mr_inv_def mr_Outcome_zero_def)
qed

lemma mr_Outcome_method_cases:
  assumes "mr_Outcome_method lib cfg prev aos = Ok out"
  obtains "out = mr_Outcome_zero"
  | co where "mr_con_wf co" "out = outcome_in_state lib cfg (nextState (mro_OutcomeType prev)) prev co"
  using assms unfolding mr_Outcome_method_def mr_getOutcome_def
  by (auto simp: Let_def rbind_Ok_iff dest: mr_getConsensusObservation_wf split: result.splits)

lemma mr_inv_step:
  assumes "mr_inv cfg prev" and "mr_Outcome_method lib cfg prev aos = Ok out"
  shows "mr_inv cfg out"
  using assms(2)
proof (cases rule: mr_Outcome_method_cases)
  case (2 co)
  then show ?thesis
    using assms(1) mr_inv_ranges mr_inv_roots mr_inv_wait
    by (cases "nextState (mro_OutcomeType prev)") (simp_all add: outcome_in_state_def)
qed (simp add: mr_inv_zero)

lemma mr_reachable_inv: "mr_reachable lib cfg out \<Longrightarrow> mr_inv cfg out"
  by (induction rule: mr_reachable.induct) (auto intro: mr_inv_zero mr_inv_step)

text \<open>C28. The invariant of the machine, in every reachable outcome: ranges are present exactly in a selection,
  roots exactly in a generated or in-flight report, both sorted by chain and at most one per chain;
  the attempt counter is zero except in flight, where it is positive and below the limit.\<close>

theorem mr_reachable_invariant:
  assumes "mr_reachable lib cfg out"
  shows "mr_inv cfg out"
  using assms by (rule mr_reachable_inv)

text \<open>Consecutive rounds that end in flight.\<close>

inductive in_flight_run :: "ccip_lib \<Rightarrow> mr_config \<Rightarrow> mr_Outcome \<Rightarrow> nat \<Rightarrow> mr_Outcome \<Rightarrow> bool" for lib cfg out where
  start: "in_flight_run lib cfg out 0 out"
| wait: "in_flight_run lib cfg out n out' \<Longrightarrow> mr_Outcome_method lib cfg out' aos = Ok out'' \<Longrightarrow>
    mro_OutcomeType out'' = ReportInFlight \<Longrightarrow> in_flight_run lib cfg out (Suc n) out''"

lemma in_flight_step:
  assumes "mr_inv cfg prev" and "mr_Outcome_method lib cfg prev aos = Ok out" and "mro_OutcomeType out = ReportInFlight"
  shows "nextState (mro_OutcomeType prev) = waitingForReportTransmission \<and>
    mro_RootsToReport out = mro_RootsToReport prev \<and> mro_OffRampNextSeqNums out = mro_OffRampNextSeqNums prev \<and>
    unat (mro_ReportTransmissionCheckAttempts out) = Suc (unat (mro_ReportTransmissionCheckAttempts prev))"
  using assms(2)
proof (cases rule: mr_Outcome_method_cases)
  case 1
  with assms(3) show ?thesis by (simp add: mr_Outcome_zero_def)
next
  case (2 co)
  have st: "nextState (mro_OutcomeType prev) = waitingForReportTransmission"
    using 2 assms(3) by (cases "nextState (mro_OutcomeType prev)")
      (auto simp: outcome_in_state_def reportRangesOutcome_def buildMerkleRootsOutcome_def Let_def mr_Outcome_zero_def split: if_splits)
  then have "mro_OutcomeType prev \<in> {ReportGenerated, ReportInFlight}" by (cases "mro_OutcomeType prev") auto
  then have "mro_ReportTransmissionCheckAttempts prev = 0 \<or>
      mro_ReportTransmissionCheckAttempts prev < mrcfg_MaxReportTransmissionCheckAttempts cfg"
    using assms(1) by (auto simp: mr_inv_def)
  note s = u64_succ_less [OF this]
  show ?thesis using 2 assms(3) st s
    by (simp add: outcome_in_state_def checkForReportTransmission_cases mr_Outcome_zero_def split: if_splits)
qed

text \<open>C27. Bounded waiting: from a generated report, the machine stays in flight for fewer consecutive rounds
  than the configured number of attempts, whatever the observations, so it always returns to
  selecting ranges; all this time it keeps the roots and the offRamp numbers of the report and counts
  the rounds.\<close>

theorem mr_waiting_bounded:
  assumes "mr_reachable lib cfg out" and "mro_OutcomeType out = ReportGenerated" and "in_flight_run lib cfg out n out'"
  shows "n < max 1 (unat (mrcfg_MaxReportTransmissionCheckAttempts cfg)) \<and>
    mro_RootsToReport out' = mro_RootsToReport out \<and> mro_OffRampNextSeqNums out' = mro_OffRampNextSeqNums out \<and>
    unat (mro_ReportTransmissionCheckAttempts out') = n"
  using assms(3)
proof (induction rule: in_flight_run.induct)
  case start
  show ?case using mr_reachable_inv [OF assms(1)] assms(2) by (simp add: mr_inv_def)
next
  case (wait n out' aos out'')
  have "mr_reachable lib cfg out'"
    using wait.hyps(1) assms(1) by (induction rule: in_flight_run.induct) (auto intro: mr_reachable.step)
  then have inv: "mr_inv cfg out'" "mr_inv cfg out''"
    using wait.hyps(2) by (auto intro: mr_reachable_inv mr_reachable.step)
  from inv(2) wait.hyps(3) have "unat (mro_ReportTransmissionCheckAttempts out'') < unat (mrcfg_MaxReportTransmissionCheckAttempts cfg)"
    by (simp add: mr_inv_def word_less_nat_alt)
  with in_flight_step [OF inv(1) wait.hyps(2,3)] wait.IH show ?case by auto
qed

section \<open>Witnesses\<close>

definition sample_mr_ao :: "OracleID \<Rightarrow> SeqNum \<Rightarrow> SeqNum \<Rightarrow> MerkleRootChain list \<Rightarrow> mr_ao" where
  "sample_mr_ao i onN offN roots =
     \<lparr>ao_OracleID = i,
      ao_Observation = \<lparr>mob_MerkleRoots = roots,
        mob_OnRampMaxSeqNums = [\<lparr>snc_ChainSel = 1, snc_SeqNum = onN\<rparr>],
        mob_OffRampNextSeqNums = [\<lparr>snc_ChainSel = 1, snc_SeqNum = offN\<rparr>],
        mob_FChain = [(1, 1), (2, 1)]\<rparr>\<rparr>"

definition sample_mr_aos :: "mr_ao list" where
  "sample_mr_aos = [sample_mr_ao 0 10 5 [], sample_mr_ao 1 99 1 [], sample_mr_ao 2 11 5 [], sample_mr_ao 3 12 5 []]"

definition sample_con :: consensusObservation where
  "sample_con = \<lparr>con_MerkleRoots = [], con_OnRampMaxSeqNums = [(1, 11)], con_OffRampNextSeqNums = [(1, 5)],
     con_FChain = [(1, 1), (2, 1)]\<rparr>"

definition sample_mr_config :: mr_config where
  "sample_mr_config = \<lparr>mrcfg_MaxMerkleTreeSize = 4, mrcfg_MaxReportTransmissionCheckAttempts = 3,
     mrcfg_MultipleReportsEnabled = False, mrcfg_destChain = 2, mrcfg_F = 1\<rparr>"

lemma sample_con_eq: "mr_getConsensusObservation sample_lib 1 2 sample_mr_aos = Ok sample_con"
  by code_simp

definition sample_range :: ChainRange where
  "sample_range = \<lparr>cr_ChainSel = 1, cr_SeqNumRange = \<lparr>sr_Start = 5, sr_End = 8\<rparr>\<rparr>"

lemma sample_range_in: "mro_RangesSelectedForReport (reportRangesOutcome sample_lib sample_con 4) = [sample_range]"
  by code_simp

definition sample_support :: ccipChainSupport where
  "sample_support = \<lparr>cs_homeChain = Some sample_poller, cs_oracleIDToP2PID = [(3, [2])], cs_nodeID = 3, cs_destChain = 5\<rparr>"

definition sample_root :: "ChainSelector \<Rightarrow> MerkleRootChain" where
  "sample_root c = \<lparr>mrc_ChainSel = c, mrc_OnRampAddress = [1], mrc_SeqNumsRange = \<lparr>sr_Start = 5, sr_End = 8\<rparr>, mrc_MerkleRoot = [7]\<rparr>"

definition sample_valid_ao :: mr_ao where
  "sample_valid_ao = \<lparr>ao_OracleID = 3, ao_Observation = \<lparr>mob_MerkleRoots = [sample_root 5], mob_OnRampMaxSeqNums = [],
     mob_OffRampNextSeqNums = [\<lparr>snc_ChainSel = 1, snc_SeqNum = 4\<rparr>], mob_FChain = [(5, 1)]\<rparr>\<rparr>"

theorem mr_ValidateObservation_iff_witness:
  "mr_ValidateObservation sample_lib sample_support sample_valid_ao = Ok ()"
proof -
  have "SupportedChains sample_support 3 = Ok [5]" "SupportsDestChain sample_support 3 = Ok True" by code_simp+
  then show ?thesis
    unfolding mr_ValidateObservation_iff
    by (auto simp: sample_valid_ao_def sample_root_def sample_lib_def)
qed

definition swap_fChain :: "mr_ao \<Rightarrow> mr_ao" where
  "swap_fChain ao = ao\<lparr>ao_Observation := (ao_Observation ao)\<lparr>mob_FChain := rev (mob_FChain (ao_Observation ao))\<rparr>\<rparr>"

theorem mr_Outcome_deterministic_witness:
  "run_rounds (mr_Outcome_method sample_lib sample_mr_config) mr_Outcome_zero [sample_mr_aos] =
   run_rounds (mr_Outcome_method sample_lib sample_mr_config) mr_Outcome_zero [map swap_fChain sample_mr_aos]"
proof -
  have sw: "gm_eq [(1 :: u64, 1 :: int), (2, 1)] [(2, 1), (1, 1)]"
    by (auto simp: gm_eq_def gm_ok_def fun_eq_iff)
  then have "list_all2 (list_all2 mr_obs_eq) [sample_mr_aos] [map swap_fChain sample_mr_aos]"
    by (simp add: sample_mr_aos_def mr_obs_eq_def swap_fChain_def sample_mr_ao_def)
  moreover have "mr_con_eq sample_con (sample_con\<lparr>con_FChain := [(2, 1), (1, 1)]\<rparr>)"
    using sw by (simp add: mr_con_eq_def sample_con_def gm_eq_def gm_ok_def)
  ultimately show ?thesis
    using mr_Outcome_deterministic [OF _ sample_con_eq, of "[sample_mr_aos]" "[map swap_fChain sample_mr_aos]"] by blast
qed

theorem mr_selected_range_honest_witness:
  "\<exists>hi \<in> set (mr_values mob_OnRampMaxSeqNums (filter (\<lambda>ao. ao_OracleID ao \<noteq> 1) sample_mr_aos) 1).
     sr_End (cr_SeqNumRange sample_range) \<le> hi"
proof -
  have v: "mr_values mob_OnRampMaxSeqNums (filter (\<lambda>ao. \<not> ao_OracleID ao \<noteq> 1) sample_mr_aos) 1 = [99]"
    "mr_values mob_OffRampNextSeqNums (filter (\<lambda>ao. \<not> ao_OracleID ao \<noteq> 1) sample_mr_aos) 1 = [1]" by code_simp+
  have c: "cr_ChainSel sample_range = 1" by (simp add: sample_range_def)
  show ?thesis
    using mr_selected_range_honest [OF sample_lib_limit _ sample_con_eq, of 4 sample_range 1 1 "\<lambda>i. i \<noteq> 1"] v c sample_range_in
    by (auto simp: sample_con_def split: if_splits)
qed

definition sample_out1 :: mr_Outcome where
  "sample_out1 = mr_Outcome_zero\<lparr>mro_OutcomeType := ReportIntervalsSelected, mro_RangesSelectedForReport := [sample_range],
     mro_OffRampNextSeqNums := [\<lparr>snc_ChainSel = 1, snc_SeqNum = 5\<rparr>]\<rparr>"

definition sample_out2 :: mr_Outcome where
  "sample_out2 = mr_Outcome_zero\<lparr>mro_OutcomeType := ReportGenerated, mro_RootsToReport := [sample_root 1],
     mro_OffRampNextSeqNums := [\<lparr>snc_ChainSel = 1, snc_SeqNum = 5\<rparr>]\<rparr>"

definition sample_out3 :: mr_Outcome where
  "sample_out3 = sample_out2\<lparr>mro_OutcomeType := ReportInFlight, mro_ReportTransmissionCheckAttempts := 1\<rparr>"

definition sample_mr_aos2 :: "mr_ao list" where
  "sample_mr_aos2 = map (\<lambda>i. sample_mr_ao i 10 5 [sample_root 1]) [0, 1, 2, 3]"

lemma sample_steps:
  "mr_Outcome_method sample_lib sample_mr_config mr_Outcome_zero sample_mr_aos = Ok sample_out1"
  "mr_Outcome_method sample_lib sample_mr_config sample_out1 sample_mr_aos2 = Ok sample_out2"
  "mr_Outcome_method sample_lib sample_mr_config sample_out2 sample_mr_aos2 = Ok sample_out3"
  by code_simp+

lemma sample_reachable: "mr_reachable sample_lib sample_mr_config sample_out2"
  by (rule mr_reachable.step [OF mr_reachable.step [OF mr_reachable.init sample_steps(1)] sample_steps(2)])

theorem mr_reachable_invariant_witness: "mr_inv sample_mr_config sample_out2"
  by (rule mr_reachable_invariant [OF sample_reachable])

theorem mr_waiting_bounded_witness:
  "1 < max 1 (unat (mrcfg_MaxReportTransmissionCheckAttempts sample_mr_config)) \<and>
   mro_RootsToReport sample_out3 = mro_RootsToReport sample_out2"
proof -
  have "mro_OutcomeType sample_out3 = ReportInFlight" "mro_OutcomeType sample_out2 = ReportGenerated"
    by (simp_all add: sample_out3_def sample_out2_def)
  with mr_waiting_bounded [OF sample_reachable _ in_flight_run.wait [OF in_flight_run.start sample_steps(3)]]
  show ?thesis by simp
qed

end
