(* ===== verification/MerkleRootObserve.thy ===== *)
theory MerkleRootObserve
  imports MerkleRoot
begin

text \<open>
  The observers of the merkle root processor (commit/merkleroot/observation.go): the one that reads the
  chains when asked (\<open>observerImpl\<close>), the one that answers from what a background sync last stored
  (\<open>asyncObserver\<close>), and the \<open>Observation\<close> of the processor on top of either.

  An observer method returns no error: failures are logged and give an empty answer. The order in
  which concurrent reads finish is an argument (\<open>order\<close>, a rearrangement of the ranges). The lemmas
  show what an observed root stands for, what the asynchronous observer answers over any run of syncs
  and any order of their operations, and that the observation of an honest oracle passes the
  validation of \<open>MerkleRoot\<close>.
\<close>

section \<open>observerImpl\<close>

definition or_nil :: "'a result \<Rightarrow> ('a \<Rightarrow> 'b list result) \<Rightarrow> 'b list result" where
  "or_nil r f = (case r of Ok x \<Rightarrow> f x | Error _ \<Rightarrow> Ok [] | Panic \<Rightarrow> Panic)"

record observerImpl =
  oi_homeChain :: homeChainPoller
  oi_oracleID :: OracleID
  oi_chainSupport :: ccipChainSupport
  oi_ccipReader :: ccip_reader
  oi_msgHasher :: "Message \<Rightarrow> Bytes32 result"

definition isLiveOffRampSourceLane :: "StaticSourceChainConfig \<Rightarrow> bool \<Rightarrow> bool" where
  "isLiveOffRampSourceLane cfg exists = (exists \<and> ssc_IsEnabled cfg \<and> ssc_OnRamp cfg \<noteq> [])"

record offRampLaneClassification =
  lc_live :: "ChainSelector list"
  lc_skippedNotALane :: "ChainSelector list"
  lc_skippedDisabled :: "ChainSelector list"

definition classifyOffRampSourceLanes ::
  "ChainSelector list \<Rightarrow> (ChainSelector, StaticSourceChainConfig) gomap \<Rightarrow> offRampLaneClassification" where
  "classifyOffRampSourceLanes supported cfgs =
     fold (\<lambda>sourceChain c.
        case map_of cfgs sourceChain of
          None \<Rightarrow> c\<lparr>lc_skippedNotALane := lc_skippedNotALane c @ [sourceChain]\<rparr>
        | Some cfg \<Rightarrow>
            if \<not> ssc_IsEnabled cfg then c\<lparr>lc_skippedDisabled := lc_skippedDisabled c @ [sourceChain]\<rparr>
            else if ssc_OnRamp cfg = [] then c\<lparr>lc_skippedNotALane := lc_skippedNotALane c @ [sourceChain]\<rparr>
            else c\<lparr>lc_live := lc_live c @ [sourceChain]\<rparr>)
       supported \<lparr>lc_live = [], lc_skippedNotALane = [], lc_skippedDisabled = []\<rparr>"

definition ObserveOffRampNextSeqNums :: "ccip_lib \<Rightarrow> observerImpl \<Rightarrow> SeqNumChain list result" where
  "ObserveOffRampNextSeqNums lib ob =
     or_nil (SupportsDestChain (oi_chainSupport ob) (oi_oracleID ob)) (\<lambda>supportsDestChain.
       if \<not> supportsDestChain then Ok []
       else or_nil (KnownSourceChainsSlice (oi_chainSupport ob)) (\<lambda>allSourceChains.
         or_nil (rd_GetRmnCurseInfo (oi_ccipReader ob)) (\<lambda>curseInfo.
           if ci_GlobalCurse curseInfo \<or> ci_CursedDestination curseInfo then Ok []
           else let sourceChains = lib_NonCursedSourceChains lib curseInfo allSourceChains in
             if sourceChains = [] then Ok []
             else or_nil (rd_NextSeqNum (oi_ccipReader ob) sourceChains) (\<lambda>offRampNextSeqNums.
               Ok (sort_key snc_ChainSel
                 (map (\<lambda>(chainSelector, seqNum). \<lparr>snc_ChainSel = chainSelector, snc_SeqNum = seqNum\<rparr>)
                   offRampNextSeqNums))))))"

text \<open>The reads of the live lanes: a failed read is skipped.\<close>

fun latest_seq_nums :: "(ChainSelector \<Rightarrow> SeqNum result) \<Rightarrow> ChainSelector list \<Rightarrow> SeqNumChain list result" where
  "latest_seq_nums latest [] = Ok []"
| "latest_seq_nums latest (c # cs) =
     (case latest c of
        Error _ \<Rightarrow> latest_seq_nums latest cs
      | Panic \<Rightarrow> Panic
      | Ok n \<Rightarrow> rbind (latest_seq_nums latest cs) (\<lambda>ss. Ok (\<lparr>snc_ChainSel = c, snc_SeqNum = n\<rparr> # ss)))"

definition ObserveLatestOnRampSeqNums :: "observerImpl \<Rightarrow> SeqNumChain list result" where
  "ObserveLatestOnRampSeqNums ob =
     or_nil (KnownSourceChainsSlice (oi_chainSupport ob)) (\<lambda>allSourceChains.
     or_nil (SupportedChains (oi_chainSupport ob) (oi_oracleID ob)) (\<lambda>supportedChains.
       let supportedSourceChains = sort (filter (\<lambda>c. c \<in> set supportedChains) (mapset_of allSourceChains)) in
       or_nil (rd_GetOffRampSourceChainsConfig (oi_ccipReader ob) supportedSourceChains) (\<lambda>sourceChainsCfg.
         let classification = classifyOffRampSourceLanes supportedSourceChains sourceChainsCfg in
         rbind (latest_seq_nums (rd_LatestMsgSeqNum (oi_ccipReader ob)) (lc_live classification)) (\<lambda>ss.
           Ok (sort_key snc_ChainSel ss)))))"

text \<open>\<open>for seqNum := start; seqNum <= end; seqNum++ { if msgs[msgIdx] ... ; msgIdx++ }\<close> with 64-bit
  sequence numbers; \<^term>\<open>Ok False\<close> is a mismatch.\<close>

function seq_nums_match :: "Message list \<Rightarrow> nat \<Rightarrow> SeqNum \<Rightarrow> SeqNum \<Rightarrow> bool result" where
  "seq_nums_match msgs msgIdx seqNum endNum =
     (if seqNum \<le> endNum
      then if msgIdx < length msgs
           then if mh_SequenceNumber (msg_Header (msgs ! msgIdx)) \<noteq> seqNum then Ok False
                else seq_nums_match msgs (Suc msgIdx) (seqNum + 1) endNum
           else Panic
      else Ok True)"
  by pat_completeness auto

termination by (relation "measure (\<lambda>(msgs, msgIdx, _, _). length msgs - msgIdx)") auto

declare seq_nums_match.simps [simp del]

text \<open>The loop of \<open>computeMerkleRoot\<close>: each message follows the one before it and is hashed.\<close>

fun hash_messages :: "(Message \<Rightarrow> Bytes32 result) \<Rightarrow> SeqNum option \<Rightarrow> Message list \<Rightarrow> Bytes32 list result" where
  "hash_messages hasher prev [] = Ok []"
| "hash_messages hasher prev (msg # msgs) =
     (if (case prev of None \<Rightarrow> False | Some p \<Rightarrow> mh_SequenceNumber (msg_Header msg) \<noteq> p + 1)
      then Error (Err ''found non-consecutive sequence numbers when computing merkle root'')
      else rbind (wrap_err ''hash message'' (hasher msg)) (\<lambda>h.
           rbind (hash_messages hasher (Some (mh_SequenceNumber (msg_Header msg))) msgs) (\<lambda>hs. Ok (h # hs))))"

definition computeMerkleRoot ::
  "ccip_lib \<Rightarrow> (Message \<Rightarrow> Bytes32 result) \<Rightarrow> Message list \<Rightarrow> Bytes32 result" where
  "computeMerkleRoot lib hasher msgs =
     rbind (hash_messages hasher None msgs) (\<lambda>hashes.
       wrap_err ''failed to construct merkle tree'' (lib_NewTreeRoot lib hashes))"

text \<open>One goroutine of \<open>ObserveMerkleRoots\<close>.\<close>

definition observe_root :: "ccip_lib \<Rightarrow> observerImpl \<Rightarrow> ChainRange \<Rightarrow> MerkleRootChain list result" where
  "observe_root lib ob chainRange =
     (let rng = cr_SeqNumRange chainRange in
      or_nil (rd_MsgsBetweenSeqNums (oi_ccipReader ob) (cr_ChainSel chainRange) rng) (\<lambda>msgs.
        if int (length msgs) \<noteq> uint (sr_End rng - sr_Start rng + 1) then Ok []
        else rbind (seq_nums_match msgs 0 (sr_Start rng) (sr_End rng)) (\<lambda>same.
          if \<not> same then Ok []
          else or_nil (computeMerkleRoot lib (oi_msgHasher ob) msgs) (\<lambda>root.
            or_nil (rd_GetContractAddress (oi_ccipReader ob) ''OnRamp'' (cr_ChainSel chainRange)) (\<lambda>onRampAddress.
              Ok [\<lparr>mrc_ChainSel = cr_ChainSel chainRange, mrc_OnRampAddress = onRampAddress,
                   mrc_SeqNumsRange = rng, mrc_MerkleRoot = root\<rparr>])))))"

fun observe_roots :: "ccip_lib \<Rightarrow> observerImpl \<Rightarrow> ChainRange list \<Rightarrow> MerkleRootChain list result" where
  "observe_roots lib ob [] = Ok []"
| "observe_roots lib ob (r # rs) =
     rbind (observe_root lib ob r) (\<lambda>x. rbind (observe_roots lib ob rs) (\<lambda>xs. Ok (x @ xs)))"

definition ObserveMerkleRoots ::
  "ccip_lib \<Rightarrow> (ChainRange list \<Rightarrow> ChainRange list) \<Rightarrow> observerImpl \<Rightarrow> ChainRange list \<Rightarrow> MerkleRootChain list result" where
  "ObserveMerkleRoots lib order ob ranges =
     or_nil (SupportedChains (oi_chainSupport ob) (oi_oracleID ob)) (\<lambda>supportedChains.
       observe_roots lib ob (order (filter (\<lambda>r. cr_ChainSel r \<in> set supportedChains) ranges)))"

definition ObserveFChain :: "homeChainPoller \<Rightarrow> (ChainSelector, int) gomap" where
  "ObserveFChain homeChain = (case GetFChain homeChain of Ok m \<Rightarrow> m | _ \<Rightarrow> [])"

section \<open>asyncObserver\<close>

record asyncObserver =
  as_syncObserver :: observerImpl
  as_offRampNextSeqNums :: "SeqNumChain list"
  as_onRampLatestSeqNums :: "SeqNumChain list"

definition newAsyncObserver :: "observerImpl \<Rightarrow> asyncObserver" where
  "newAsyncObserver ob = \<lparr>as_syncObserver = ob, as_offRampNextSeqNums = [], as_onRampLatestSeqNums = []\<rparr>"

text \<open>The two operations of \<open>sync\<close>: each asks the synchronous observer, which answers at that moment as \<open>ob\<close>, and stores the
  answer under the lock.\<close>

datatype sync_op = SyncOffRamp | SyncOnRamp

definition apply_sync_op :: "ccip_lib \<Rightarrow> sync_op \<Rightarrow> observerImpl \<Rightarrow> asyncObserver \<Rightarrow> asyncObserver result" where
  "apply_sync_op lib op ob ao =
     (case op of
        SyncOffRamp \<Rightarrow> rbind (ObserveOffRampNextSeqNums lib ob) (\<lambda>ss. Ok (ao\<lparr>as_offRampNextSeqNums := ss\<rparr>))
      | SyncOnRamp \<Rightarrow> rbind (ObserveLatestOnRampSeqNums ob) (\<lambda>ss. Ok (ao\<lparr>as_onRampLatestSeqNums := ss\<rparr>)))"

definition syncOps :: "sync_op list" where
  "syncOps = [SyncOffRamp, SyncOnRamp]"

text \<open>The goroutine of \<open>start\<close> with the ones of \<open>sync\<close>: the observer, the operations of the sync that is running which have not
  stored their answer yet, and the number of syncs that have started. A tick starts a sync when the one before has been waited for;
  its operations finish in any order. In the n-th sync the synchronous observer answers the operation \<open>op\<close> as \<open>world n op\<close>. A panic
  of an operation ends the program.\<close>

inductive async_reach :: "ccip_lib \<Rightarrow> (nat \<Rightarrow> sync_op \<Rightarrow> observerImpl) \<Rightarrow> observerImpl \<Rightarrow> asyncObserver \<Rightarrow> sync_op list \<Rightarrow> nat \<Rightarrow> bool"
  for lib :: ccip_lib and world :: "nat \<Rightarrow> sync_op \<Rightarrow> observerImpl" and ob :: observerImpl where
  start: "async_reach lib world ob (newAsyncObserver ob) [] 0"
| tick: "async_reach lib world ob ao [] n \<Longrightarrow> async_reach lib world ob ao syncOps (Suc n)"
| store: "async_reach lib world ob ao running n \<Longrightarrow> op \<in> set running \<Longrightarrow> apply_sync_op lib op (world n op) ao = Ok ao' \<Longrightarrow>
    async_reach lib world ob ao' (remove1 op running) n"

section \<open>Observation\<close>

text \<open>The interface \<open>Observer\<close>, as the answers its four methods give.\<close>

record mr_observer =
  ob_OffRampNextSeqNums :: "SeqNumChain list result"
  ob_LatestOnRampSeqNums :: "SeqNumChain list result"
  ob_MerkleRoots :: "ChainRange list \<Rightarrow> MerkleRootChain list result"
  ob_FChain :: "(ChainSelector, int) gomap"

definition observerImpl_methods ::
  "ccip_lib \<Rightarrow> (ChainRange list \<Rightarrow> ChainRange list) \<Rightarrow> observerImpl \<Rightarrow> mr_observer" where
  "observerImpl_methods lib order ob =
     \<lparr>ob_OffRampNextSeqNums = ObserveOffRampNextSeqNums lib ob,
      ob_LatestOnRampSeqNums = ObserveLatestOnRampSeqNums ob,
      ob_MerkleRoots = ObserveMerkleRoots lib order ob,
      ob_FChain = ObserveFChain (oi_homeChain ob)\<rparr>"

definition asyncObserver_methods ::
  "ccip_lib \<Rightarrow> (ChainRange list \<Rightarrow> ChainRange list) \<Rightarrow> asyncObserver \<Rightarrow> mr_observer" where
  "asyncObserver_methods lib order ao =
     \<lparr>ob_OffRampNextSeqNums = Ok (as_offRampNextSeqNums ao),
      ob_LatestOnRampSeqNums = Ok (as_onRampLatestSeqNums ao),
      ob_MerkleRoots = ObserveMerkleRoots lib order (as_syncObserver ao),
      ob_FChain = ObserveFChain (oi_homeChain (as_syncObserver ao))\<rparr>"

definition mr_getObservation :: "mr_observer \<Rightarrow> mr_Outcome \<Rightarrow> mr_Observation result" where
  "mr_getObservation observer previousOutcome =
     (case nextState (mro_OutcomeType previousOutcome) of
        selectingRangesForReport \<Rightarrow>
          rbind (ob_LatestOnRampSeqNums observer) (\<lambda>onRamp.
          rbind (ob_OffRampNextSeqNums observer) (\<lambda>offRamp.
            Ok (mr_Observation_zero\<lparr>mob_OnRampMaxSeqNums := onRamp, mob_OffRampNextSeqNums := offRamp,
                  mob_FChain := ob_FChain observer\<rparr>)))
      | buildingReport \<Rightarrow>
          rbind (ob_MerkleRoots observer (mro_RangesSelectedForReport previousOutcome)) (\<lambda>roots.
            Ok (mr_Observation_zero\<lparr>mob_MerkleRoots := roots, mob_FChain := ob_FChain observer\<rparr>))
      | waitingForReportTransmission \<Rightarrow>
          rbind (ob_OffRampNextSeqNums observer) (\<lambda>offRamp.
            Ok (mr_Observation_zero\<lparr>mob_OffRampNextSeqNums := offRamp, mob_FChain := ob_FChain observer\<rparr>)))"

definition mr_Observation_method :: "mr_observer \<Rightarrow> mr_Outcome \<Rightarrow> mr_Observation result" where
  "mr_Observation_method observer prevOutcome =
     wrap_err ''get observation'' (mr_getObservation observer prevOutcome)"

section \<open>What an observed root stands for\<close>

lemma or_nil_Ok_iff [simp]: "or_nil r f = Ok xs \<longleftrightarrow> (\<exists>x. r = Ok x \<and> f x = Ok xs) \<or> (\<exists>e. r = Error e) \<and> xs = []"
  by (cases r) (auto simp: or_nil_def)

lemma seq_nums_match_True:
  assumes "seq_nums_match msgs i s e = Ok True" and "unat s + j \<le> unat e"
  shows "i + j < length msgs \<and> mh_SequenceNumber (msg_Header (msgs ! (i + j))) = s + of_nat j"
  using assms
proof (induction msgs i s e arbitrary: j rule: seq_nums_match.induct)
  case (1 msgs i s e)
  have le: "s \<le> e" using "1.prems"(2) by (simp add: word_le_nat_alt)
  with "1.prems"(1) have i: "i < length msgs" "mh_SequenceNumber (msg_Header (msgs ! i)) = s"
    "seq_nums_match msgs (Suc i) (s + 1) e = Ok True"
    by (auto simp: seq_nums_match.simps [of msgs i s e] split: if_splits)
  show ?case
  proof (cases j)
    case (Suc k)
    have "1 + s \<noteq> 0"
    proof
      assume "1 + s = 0"
      then have "s = - 1" by (simp add: eq_neg_iff_add_eq_0 add.commute)
      then have "s = e" using le by (simp add: word_order.extremum_unique)
      with "1.prems"(2) Suc show False by simp
    qed
    then have "unat (s + 1) = Suc (unat s)" using unatSuc [of s] by (simp add: add.commute)
    then have "unat (s + 1) + k \<le> unat e" using "1.prems"(2) Suc by simp
    from "1.IH" [OF le i(1) _ i(3) this] i(2) Suc show ?thesis by (simp add: algebra_simps)
  qed (use i in simp)
qed

lemma hash_messages_Ok: "hash_messages hasher prev msgs = Ok hs \<Longrightarrow> list_all2 (\<lambda>m h. hasher m = Ok h) msgs hs"
  by (induction hasher prev msgs arbitrary: hs rule: hash_messages.induct) (auto simp: rbind_Ok_iff split: if_splits)

lemma observe_roots_Ok:
  "observe_roots lib ob rs = Ok roots \<Longrightarrow> r \<in> set roots \<Longrightarrow> \<exists>rng \<in> set rs. \<exists>x. observe_root lib ob rng = Ok x \<and> r \<in> set x"
  by (induction rs arbitrary: roots) (auto simp: rbind_Ok_iff)

lemma observe_root_Ok:
  assumes "observe_root lib ob rng = Ok x" and "r \<in> set x"
  shows "\<exists>msgs root addr. rd_MsgsBetweenSeqNums (oi_ccipReader ob) (cr_ChainSel rng) (cr_SeqNumRange rng) = Ok msgs \<and>
    int (length msgs) = uint (sr_End (cr_SeqNumRange rng) - sr_Start (cr_SeqNumRange rng) + 1) \<and>
    seq_nums_match msgs 0 (sr_Start (cr_SeqNumRange rng)) (sr_End (cr_SeqNumRange rng)) = Ok True \<and>
    computeMerkleRoot lib (oi_msgHasher ob) msgs = Ok root \<and>
    rd_GetContractAddress (oi_ccipReader ob) ''OnRamp'' (cr_ChainSel rng) = Ok addr \<and>
    x = [r] \<and> r = \<lparr>mrc_ChainSel = cr_ChainSel rng, mrc_OnRampAddress = addr, mrc_SeqNumsRange = cr_SeqNumRange rng, mrc_MerkleRoot = root\<rparr>"
  using assms unfolding observe_root_def Let_def
  by (auto simp: rbind_Ok_iff split: if_splits)

lemma ObserveMerkleRoots_cases:
  assumes "ObserveMerkleRoots lib order ob ranges = Ok roots" and "\<And>rs. mset (order rs) = mset rs" and "r \<in> set roots"
  shows "\<exists>supp rng x. SupportedChains (oi_chainSupport ob) (oi_oracleID ob) = Ok supp \<and> rng \<in> set ranges \<and>
    cr_ChainSel rng \<in> set supp \<and> observe_root lib ob rng = Ok x \<and> r \<in> set x"
proof -
  from assms(1,3) obtain supp where
    s: "SupportedChains (oi_chainSupport ob) (oi_oracleID ob) = Ok supp"
      "observe_roots lib ob (order (filter (\<lambda>r. cr_ChainSel r \<in> set supp) ranges)) = Ok roots"
    by (auto simp: ObserveMerkleRoots_def)
  from observe_roots_Ok [OF s(2) assms(3)] obtain rng x where
    "rng \<in> set (order (filter (\<lambda>r. cr_ChainSel r \<in> set supp) ranges))" "observe_root lib ob rng = Ok x" "r \<in> set x" by blast
  moreover have "set (order rs) = set rs" for rs using assms(2) by (metis mset_eq_setD)
  ultimately show ?thesis using s(1) by auto
qed

text \<open>A root is observed only for a requested range of a supported chain, and only from a complete set of
  messages: the reader returned exactly as many messages as the range has numbers, the i-th of
  them carries the i-th number of the range, every one was hashed, and the root is the root of
  the tree over these hashes in that order. This holds in whatever order the reads finish.\<close>

theorem ObserveMerkleRoots_complete:
  assumes "\<forall>rs. mset (order rs) = mset rs" and "ObserveMerkleRoots lib order ob ranges = Ok roots" and "r \<in> set roots"
  shows "\<exists>supp rng msgs hs. SupportedChains (oi_chainSupport ob) (oi_oracleID ob) = Ok supp \<and>
    rng \<in> set ranges \<and> cr_ChainSel rng \<in> set supp \<and>
    mrc_ChainSel r = cr_ChainSel rng \<and> mrc_SeqNumsRange r = cr_SeqNumRange rng \<and>
    rd_MsgsBetweenSeqNums (oi_ccipReader ob) (cr_ChainSel rng) (cr_SeqNumRange rng) = Ok msgs \<and>
    int (length msgs) = uint (sr_End (cr_SeqNumRange rng) - sr_Start (cr_SeqNumRange rng) + 1) \<and>
    (\<forall>j. unat (sr_Start (cr_SeqNumRange rng)) + j \<le> unat (sr_End (cr_SeqNumRange rng)) \<longrightarrow>
       j < length msgs \<and> mh_SequenceNumber (msg_Header (msgs ! j)) = sr_Start (cr_SeqNumRange rng) + of_nat j) \<and>
    list_all2 (\<lambda>m h. oi_msgHasher ob m = Ok h) msgs hs \<and> lib_NewTreeRoot lib hs = Ok (mrc_MerkleRoot r)"
proof -
  from ObserveMerkleRoots_cases [OF assms(2) _ assms(3)] assms(1) obtain supp rng x where
    s: "SupportedChains (oi_chainSupport ob) (oi_oracleID ob) = Ok supp" "rng \<in> set ranges"
      "cr_ChainSel rng \<in> set supp" "observe_root lib ob rng = Ok x" "r \<in> set x" by blast
  from observe_root_Ok [OF s(4,5)] obtain msgs root addr where
    m: "rd_MsgsBetweenSeqNums (oi_ccipReader ob) (cr_ChainSel rng) (cr_SeqNumRange rng) = Ok msgs"
      "int (length msgs) = uint (sr_End (cr_SeqNumRange rng) - sr_Start (cr_SeqNumRange rng) + 1)"
      "seq_nums_match msgs 0 (sr_Start (cr_SeqNumRange rng)) (sr_End (cr_SeqNumRange rng)) = Ok True"
      "computeMerkleRoot lib (oi_msgHasher ob) msgs = Ok root"
      "r = \<lparr>mrc_ChainSel = cr_ChainSel rng, mrc_OnRampAddress = addr, mrc_SeqNumsRange = cr_SeqNumRange rng, mrc_MerkleRoot = root\<rparr>"
    by blast
  from m(4) obtain hs where "hash_messages (oi_msgHasher ob) None msgs = Ok hs" "lib_NewTreeRoot lib hs = Ok root"
    by (auto simp: computeMerkleRoot_def rbind_Ok_iff)
  with hash_messages_Ok [of "oi_msgHasher ob" None msgs hs] seq_nums_match_True [OF m(3)] s m show ?thesis
    by (intro exI [of _ supp] exI [of _ rng] exI [of _ msgs] exI [of _ hs]) simp
qed

definition sample_msg :: "SeqNum \<Rightarrow> Message" where
  "sample_msg n = \<lparr>msg_Header = \<lparr>mh_MessageID = [ucast n], mh_SourceChainSelector = 5, mh_DestChainSelector = 2,
     mh_SequenceNumber = n, mh_Nonce = 0, mh_MsgHash = [], mh_OnRamp = [1], mh_TxHash = []\<rparr>,
     msg_Sender = [], msg_Data = [], msg_Receiver = [], msg_ExtraArgs = [], msg_FeeToken = [],
     msg_FeeTokenAmount = None, msg_FeeValueJuels = None, msg_TokenAmounts = []\<rparr>"

definition sample_reader :: ccip_reader where
  "sample_reader = \<lparr>
     rd_GetRmnCurseInfo = Ok \<lparr>ci_CursedSourceChains = [], ci_CursedDestination = False, ci_GlobalCurse = False\<rparr>,
     rd_NextSeqNum = (\<lambda>cs. Ok (map (\<lambda>c. (c, 7)) (remdups (filter (\<lambda>c. c \<noteq> 0) cs)))),
     rd_GetOffRampSourceChainsConfig = (\<lambda>cs. Ok (map (\<lambda>c. (c, \<lparr>ssc_Router = [], ssc_IsEnabled = True,
        ssc_IsRMNVerificationDisabled = True, ssc_OnRamp = [1]\<rparr>)) (remdups cs))),
     rd_LatestMsgSeqNum = (\<lambda>c. Ok 9),
     rd_MsgsBetweenSeqNums = (\<lambda>c r. Ok (map (\<lambda>i. sample_msg (sr_Start r + of_nat i)) [0 ..< unat (sr_End r - sr_Start r + 1)])),
     rd_GetContractAddress = (\<lambda>n c. Ok [1]),
     rd_GetLatestPriceSeqNr = Ok 0,
     rd_GetOffRampConfigDigest = (\<lambda>_. Ok [0]),
     rd_GetChainsFeeComponents = (\<lambda>cs. []),
     rd_GetWrappedNativeTokenPriceUSD = (\<lambda>cs. []),
     rd_GetChainFeePriceUpdate = (\<lambda>cs. []),
     rd_DiscoverContracts = (\<lambda>_ _. Ok [])\<rparr>"

definition sample_observer :: observerImpl where
  "sample_observer = \<lparr>oi_homeChain = sample_poller, oi_oracleID = 3, oi_chainSupport = sample_support,
     oi_ccipReader = sample_reader, oi_msgHasher = (\<lambda>m. Ok (9 # mh_MessageID (msg_Header m)))\<rparr>"

lemma sample_observe:
  "ObserveMerkleRoots sample_lib rev sample_observer [\<lparr>cr_ChainSel = 5, cr_SeqNumRange = \<lparr>sr_Start = 3, sr_End = 4\<rparr>\<rparr>] =
   Ok [\<lparr>mrc_ChainSel = 5, mrc_OnRampAddress = [1], mrc_SeqNumsRange = \<lparr>sr_Start = 3, sr_End = 4\<rparr>, mrc_MerkleRoot = [9, 3]\<rparr>]"
  by code_simp

theorem ObserveMerkleRoots_complete_witness:
  "\<exists>hs. lib_NewTreeRoot sample_lib hs = Ok [9, 3]"
  using ObserveMerkleRoots_complete [OF _ sample_observe] by fastforce

section \<open>The two observers\<close>

text \<open>The answer of the n-th sync to one operation; before the first sync both are empty.\<close>

definition sync_answer :: "ccip_lib \<Rightarrow> (nat \<Rightarrow> sync_op \<Rightarrow> observerImpl) \<Rightarrow> nat \<Rightarrow> sync_op \<Rightarrow> SeqNumChain list result" where
  "sync_answer lib world n op =
     (if n = 0 then Ok []
      else case op of
        SyncOffRamp \<Rightarrow> ObserveOffRampNextSeqNums lib (world n op)
      | SyncOnRamp \<Rightarrow> ObserveLatestOnRampSeqNums (world n op))"

definition stored :: "asyncObserver \<Rightarrow> sync_op \<Rightarrow> SeqNumChain list" where
  "stored ao op = (case op of SyncOffRamp \<Rightarrow> as_offRampNextSeqNums ao | SyncOnRamp \<Rightarrow> as_onRampLatestSeqNums ao)"

lemma apply_sync_op_Ok:
  assumes "apply_sync_op lib op (world n op) ao = Ok ao'" and "0 < n"
  shows "as_syncObserver ao' = as_syncObserver ao \<and> sync_answer lib world n op = Ok (stored ao' op) \<and>
    (\<forall>op'. op' \<noteq> op \<longrightarrow> stored ao' op' = stored ao op')"
  using assms by (cases op) (auto simp: apply_sync_op_def rbind_Ok_iff sync_answer_def stored_def split: sync_op.splits)

lemma async_reach_running:
  "async_reach lib world ob ao running n \<Longrightarrow> distinct running \<and> (running \<noteq> [] \<longrightarrow> 0 < n) \<and> as_syncObserver ao = ob"
proof (induction rule: async_reach.induct)
  case (store ao running n op ao')
  then have "0 < n" by auto
  from apply_sync_op_Ok [of lib op world n, OF store(3) this] store show ?case by auto
qed (simp_all add: newAsyncObserver_def syncOps_def)

text \<open>The stored answer to an operation that has not finished is that of the sync before, and of the last one otherwise.\<close>

lemma async_reach_stored:
  assumes "async_reach lib world ob ao running n"
  shows "Ok (stored ao op) = sync_answer lib world (if op \<in> set running then n - 1 else n) op"
  using assms
proof (induction rule: async_reach.induct)
  case start
  show ?case by (simp add: sync_answer_def stored_def newAsyncObserver_def split: sync_op.split)
next
  case (tick ao n)
  have "op \<in> set syncOps" by (cases op) (simp_all add: syncOps_def)
  with tick.IH show ?case by simp
next
  case (store ao running n op' ao')
  have "distinct running" "0 < n" using async_reach_running [OF store(1)] store(2) by auto
  then show ?case
    using store.IH apply_sync_op_Ok [of lib op' world n, OF store(3) \<open>0 < n\<close>] by (cases "op = op'") auto
qed

text \<open>C32. The asynchronous observer refines the synchronous one, over any number of syncs and any order in which their operations
  finish. Each of the two stored answers is exactly what the synchronous observer answered in the last sync, or in the one before
  as long as the operation of the running sync has not finished: no sync loses or skips an answer, and none is older. Before the
  first sync both are empty. So, once a sync is over and while the chains have not changed since, the whole observation of the
  processor is the one it makes with the synchronous observer.\<close>

theorem asyncObserver_refines:
  assumes "async_reach lib world ob ao running n"
  shows "ob_OffRampNextSeqNums (asyncObserver_methods lib order ao) =
      (let k = if SyncOffRamp \<in> set running then n - 1 else n
       in if k = 0 then Ok [] else ObserveOffRampNextSeqNums lib (world k SyncOffRamp)) \<and>
    ob_LatestOnRampSeqNums (asyncObserver_methods lib order ao) =
      (let k = if SyncOnRamp \<in> set running then n - 1 else n
       in if k = 0 then Ok [] else ObserveLatestOnRampSeqNums (world k SyncOnRamp)) \<and>
    (running = [] \<and> 0 < n \<and> (\<forall>op. world n op = ob) \<longrightarrow>
      mr_Observation_method (asyncObserver_methods lib order ao) prevOutcome =
      mr_Observation_method (observerImpl_methods lib order ob) prevOutcome)"
proof (intro conjI impI)
  note s = async_reach_stored [OF assms]
  show off: "ob_OffRampNextSeqNums (asyncObserver_methods lib order ao) =
      (let k = if SyncOffRamp \<in> set running then n - 1 else n
       in if k = 0 then Ok [] else ObserveOffRampNextSeqNums lib (world k SyncOffRamp))"
    using s [of SyncOffRamp] by (simp add: asyncObserver_methods_def stored_def sync_answer_def Let_def)
  show on: "ob_LatestOnRampSeqNums (asyncObserver_methods lib order ao) =
      (let k = if SyncOnRamp \<in> set running then n - 1 else n
       in if k = 0 then Ok [] else ObserveLatestOnRampSeqNums (world k SyncOnRamp))"
    using s [of SyncOnRamp] by (simp add: asyncObserver_methods_def stored_def sync_answer_def Let_def)
  assume "running = [] \<and> 0 < n \<and> (\<forall>op. world n op = ob)"
  then have "asyncObserver_methods lib order ao = observerImpl_methods lib order ob"
    using off on async_reach_running [OF assms] by (simp add: asyncObserver_methods_def observerImpl_methods_def)
  then show "mr_Observation_method (asyncObserver_methods lib order ao) prevOutcome =
      mr_Observation_method (observerImpl_methods lib order ob) prevOutcome" by simp
qed

text \<open>In the second sync the onRamp has moved on; its answer is stored, the one of the offRamp is not yet.\<close>

definition sample_world :: "nat \<Rightarrow> sync_op \<Rightarrow> observerImpl" where
  "sample_world n op = sample_observer\<lparr>oi_chainSupport := sample_support2, oi_ccipReader := sample_reader\<lparr>
     rd_NextSeqNum := (\<lambda>cs. Ok (map (\<lambda>c. (c, 6 + of_nat n)) (remdups (filter (\<lambda>c. c \<noteq> 0) cs)))), rd_LatestMsgSeqNum := (\<lambda>c. Ok (8 + of_nat n))\<rparr>\<rparr>"

definition sample_async :: "nat \<Rightarrow> nat \<Rightarrow> asyncObserver" where
  "sample_async k l = \<lparr>as_syncObserver = sample_observer, as_offRampNextSeqNums = [\<lparr>snc_ChainSel = 7, snc_SeqNum = 6 + of_nat k\<rparr>],
     as_onRampLatestSeqNums = [\<lparr>snc_ChainSel = 7, snc_SeqNum = 8 + of_nat l\<rparr>]\<rparr>"

lemma sample_async_reach: "async_reach sample_lib sample_world sample_observer (sample_async 1 2) [SyncOffRamp] 2"
proof -
  let ?r = "async_reach sample_lib sample_world sample_observer"
  let ?ao1 = "(newAsyncObserver sample_observer)\<lparr>as_offRampNextSeqNums := [\<lparr>snc_ChainSel = 7, snc_SeqNum = 7\<rparr>]\<rparr>"
  have "ObserveOffRampNextSeqNums sample_lib (sample_world 1 SyncOffRamp) = Ok [\<lparr>snc_ChainSel = 7, snc_SeqNum = 7\<rparr>]"
    "ObserveLatestOnRampSeqNums (sample_world 1 SyncOnRamp) = Ok [\<lparr>snc_ChainSel = 7, snc_SeqNum = 9\<rparr>]"
    "ObserveLatestOnRampSeqNums (sample_world 2 SyncOnRamp) = Ok [\<lparr>snc_ChainSel = 7, snc_SeqNum = 10\<rparr>]" by code_simp+
  then have steps: "apply_sync_op sample_lib SyncOffRamp (sample_world 1 SyncOffRamp) (newAsyncObserver sample_observer) = Ok ?ao1"
    "apply_sync_op sample_lib SyncOnRamp (sample_world 1 SyncOnRamp) ?ao1 = Ok (sample_async 1 1)"
    "apply_sync_op sample_lib SyncOnRamp (sample_world 2 SyncOnRamp) (sample_async 1 1) = Ok (sample_async 1 2)"
    by (simp_all add: apply_sync_op_def newAsyncObserver_def sample_async_def)
  have "?r (newAsyncObserver sample_observer) syncOps 1" using async_reach.tick [OF async_reach.start] by simp
  from async_reach.store [OF this _ steps(1)] have "?r ?ao1 [SyncOnRamp] 1" by (simp add: syncOps_def)
  from async_reach.store [OF this _ steps(2)] have "?r (sample_async 1 1) [] 1" by simp
  from async_reach.tick [OF this] have "?r (sample_async 1 1) syncOps 2" by (simp add: numeral_2_eq_2)
  from async_reach.store [OF this _ steps(3)] show ?thesis by (simp add: syncOps_def)
qed

theorem asyncObserver_refines_witness:
  "ob_OffRampNextSeqNums (asyncObserver_methods sample_lib rev (sample_async 1 2)) = ObserveOffRampNextSeqNums sample_lib (sample_world 1 SyncOffRamp) \<and>
   ob_LatestOnRampSeqNums (asyncObserver_methods sample_lib rev (sample_async 1 2)) = ObserveLatestOnRampSeqNums (sample_world 2 SyncOnRamp) \<and>
   ObserveLatestOnRampSeqNums (sample_world 2 SyncOnRamp) = Ok [\<lparr>snc_ChainSel = 7, snc_SeqNum = 10\<rparr>]"
proof -
  have "ObserveLatestOnRampSeqNums (sample_world 2 SyncOnRamp) = Ok [\<lparr>snc_ChainSel = 7, snc_SeqNum = 10\<rparr>]" by code_simp
  with asyncObserver_refines [OF sample_async_reach, of rev] show ?thesis by simp
qed

section \<open>Honest observations are valid\<close>

text \<open>What an honest oracle's reader is relied on for: non-zero next sequence numbers of non-zero
  chains, non-zero addresses, and a non-zero root of a tree.\<close>

definition reader_honest :: "ccip_lib \<Rightarrow> observerImpl \<Rightarrow> bool" where
  "reader_honest lib ob \<longleftrightarrow>
     (\<forall>cs m. rd_NextSeqNum (oi_ccipReader ob) cs = Ok m \<longrightarrow> gm_ok m \<and> (\<forall>(c, n) \<in> set m. c \<noteq> 0 \<and> n \<noteq> 0)) \<and>
     (\<forall>s c a. rd_GetContractAddress (oi_ccipReader ob) s c = Ok a \<longrightarrow> \<not> lib_IsZeroOrEmpty lib a) \<and>
     (\<forall>msgs root. computeMerkleRoot lib (oi_msgHasher ob) msgs = Ok root \<longrightarrow> \<not> lib_Bytes32_IsEmpty lib root)"

lemma ObserveFChain_valid: "poller_reachable r \<Longrightarrow> ValidateFChain (ObserveFChain r) = Ok ()"
  using GetFChain_valid [of r] by (auto simp: ObserveFChain_def)

lemma classify_live:
  "lc_live (classifyOffRampSourceLanes cs cfgs) =
     filter (\<lambda>c. case map_of cfgs c of None \<Rightarrow> False | Some cfg \<Rightarrow> isLiveOffRampSourceLane cfg True) cs"
proof -
  have "lc_live (fold (\<lambda>sourceChain c.
        case map_of cfgs sourceChain of
          None \<Rightarrow> c\<lparr>lc_skippedNotALane := lc_skippedNotALane c @ [sourceChain]\<rparr>
        | Some cfg \<Rightarrow>
            if \<not> ssc_IsEnabled cfg then c\<lparr>lc_skippedDisabled := lc_skippedDisabled c @ [sourceChain]\<rparr>
            else if ssc_OnRamp cfg = [] then c\<lparr>lc_skippedNotALane := lc_skippedNotALane c @ [sourceChain]\<rparr>
            else c\<lparr>lc_live := lc_live c @ [sourceChain]\<rparr>) cs cl) =
      lc_live cl @ filter (\<lambda>c. case map_of cfgs c of None \<Rightarrow> False | Some cfg \<Rightarrow> isLiveOffRampSourceLane cfg True) cs" for cl
    by (induction cs arbitrary: cl) (auto simp: isLiveOffRampSourceLane_def split: option.splits)
  note run = this
  show ?thesis unfolding classifyOffRampSourceLanes_def run by simp
qed

lemma latest_seq_nums_chains:
  "latest_seq_nums latest cs = Ok ss \<Longrightarrow> map snc_ChainSel ss = filter (\<lambda>c. ret_ok (latest c)) cs"
  by (induction cs arbitrary: ss) (auto simp: rbind_Ok_iff split: result.splits)

lemma onRamp_valid:
  assumes "SupportedChains (oi_chainSupport ob) (oi_oracleID ob) = Ok supp" and "ObserveLatestOnRampSeqNums ob = Ok ss"
  shows "validateObservedOnRampMaxSeqNums ss supp = Ok ()"
proof (cases "ss = []")
  case False
  then obtain known cfgs ls where
    "latest_seq_nums (rd_LatestMsgSeqNum (oi_ccipReader ob))
       (lc_live (classifyOffRampSourceLanes (sort (filter (\<lambda>c. c \<in> set supp) (mapset_of known))) cfgs)) = Ok ls"
    and ss: "ss = sort_key snc_ChainSel ls"
    using assms by (auto simp: ObserveLatestOnRampSeqNums_def Let_def rbind_Ok_iff)
  from latest_seq_nums_chains [OF this(1)] have "distinct (map snc_ChainSel ls)" "snc_ChainSel ` set ls \<subseteq> set supp"
    unfolding classify_live by (simp_all flip: set_map) auto
  then show ?thesis
    unfolding validateObservedOnRampMaxSeqNums_Ok_iff ss distinct_map_sort_key by auto
qed (simp add: validateObservedOnRampMaxSeqNums_Ok_iff)

lemma offRamp_valid:
  assumes "SupportsDestChain (oi_chainSupport ob) (oi_oracleID ob) = Ok b" and "ObserveOffRampNextSeqNums lib ob = Ok ss"
    and "reader_honest lib ob"
  shows "validateObservedOffRampMaxSeqNums ss b = Ok ()"
proof (cases "ss = []")
  case False
  then obtain cs m where "rd_NextSeqNum (oi_ccipReader ob) cs = Ok m"
    and ss: "ss = sort_key snc_ChainSel (map (\<lambda>(c, s). \<lparr>snc_ChainSel = c, snc_SeqNum = s\<rparr>) m)" and b: b
    using assms(1,2) by (auto simp: ObserveOffRampNextSeqNums_def Let_def split: if_splits)
  with assms(3) have "gm_ok m" "\<forall>(c, n) \<in> set m. c \<noteq> 0 \<and> n \<noteq> 0" by (auto simp: reader_honest_def)
  then show ?thesis
    unfolding validateObservedOffRampMaxSeqNums_Ok_iff ss distinct_map_sort_key
    using b by (auto simp: gm_ok_def comp_def case_prod_unfold)
qed (simp add: validateObservedOffRampMaxSeqNums_Ok_iff)

lemma disjoint_singleton: "A \<subseteq> {a} \<Longrightarrow> B \<subseteq> C \<Longrightarrow> a \<notin> C \<Longrightarrow> A \<inter> B = {}"
  by blast

lemma observe_roots_distinct:
  assumes "observe_roots lib ob rs = Ok roots" and "distinct (map cr_ChainSel rs)"
  shows "distinct (map mrc_ChainSel roots) \<and> mrc_ChainSel ` set roots \<subseteq> cr_ChainSel ` set rs"
  using assms
proof (induction rs arbitrary: roots)
  case (Cons r rs)
  then obtain x xs where x: "observe_root lib ob r = Ok x" "observe_roots lib ob rs = Ok xs" "roots = x @ xs"
    by (auto simp: rbind_Ok_iff)
  have X: "distinct (map mrc_ChainSel x)" "mrc_ChainSel ` set x \<subseteq> {cr_ChainSel r}"
    using observe_root_Ok [OF x(1)] by (cases x; force)+
  have IH: "distinct (map mrc_ChainSel xs)" "mrc_ChainSel ` set xs \<subseteq> cr_ChainSel ` set rs"
    using Cons.IH [OF x(2)] Cons.prems(2) by simp_all
  have "cr_ChainSel r \<notin> cr_ChainSel ` set rs" using Cons.prems(2) by simp
  then have "mrc_ChainSel ` set x \<inter> mrc_ChainSel ` set xs = {}"
    by (rule disjoint_singleton [OF X(2) IH(2)])
  moreover have "mrc_ChainSel ` set roots \<subseteq> cr_ChainSel ` set (r # rs)"
    unfolding x(3) set_append image_Un list.set image_insert
    by (rule Un_least) (rule order_trans [OF X(2)], simp, rule order_trans [OF IH(2)], rule subset_insertI)
  ultimately show ?case using X(1) IH(1) by (simp add: x(3))
qed simp

lemma roots_valid:
  assumes "SupportedChains (oi_chainSupport ob) (oi_oracleID ob) = Ok supp"
    and "ObserveMerkleRoots lib order ob ranges = Ok roots" and "\<And>rs. mset (order rs) = mset rs"
    and "distinct (map cr_ChainSel ranges)" and "reader_honest lib ob"
    and "\<forall>rng \<in> set ranges. sr_Start (cr_SeqNumRange rng) \<noteq> 0 \<and> sr_Start (cr_SeqNumRange rng) \<le> sr_End (cr_SeqNumRange rng)"
  shows "validateObservedMerkleRoots lib roots supp = Ok ()"
proof -
  let ?rs = "filter (\<lambda>r. cr_ChainSel r \<in> set supp) ranges"
  have obs: "observe_roots lib ob (order ?rs) = Ok roots"
    using assms(1,2) by (simp add: ObserveMerkleRoots_def)
  have "mset (map cr_ChainSel (order ?rs)) = mset (map cr_ChainSel ?rs)" using assms(3) by simp
  moreover have "distinct (map cr_ChainSel ?rs)" using assms(4) by (rule distinct_map_filter)
  ultimately have "distinct (map cr_ChainSel (order ?rs))" by (metis mset_eq_imp_distinct_iff)
  note d = observe_roots_distinct [OF obs this]
  have "mrc_ChainSel r \<in> set supp \<and> \<not> lib_IsZeroOrEmpty lib (mrc_OnRampAddress r) \<and>
        \<not> lib_Bytes32_IsEmpty lib (mrc_MerkleRoot r) \<and> sr_Start (mrc_SeqNumsRange r) \<noteq> 0 \<and>
        sr_Start (mrc_SeqNumsRange r) \<le> sr_End (mrc_SeqNumsRange r)" if r: "r \<in> set roots" for r
  proof -
    from ObserveMerkleRoots_cases [OF assms(2,3) r] assms(1) obtain rng x where
      s: "rng \<in> set ranges" "cr_ChainSel rng \<in> set supp" "observe_root lib ob rng = Ok x" "r \<in> set x" by auto
    from observe_root_Ok [OF s(3,4)] s(1,2) assms(5,6) show ?thesis by (auto simp: reader_honest_def)
  qed
  with d show ?thesis unfolding validateObservedMerkleRoots_Ok_iff by blast
qed

lemma validate_empty [simp]:
  "validateObservedMerkleRoots lib [] supp = Ok ()" "validateObservedOnRampMaxSeqNums [] supp = Ok ()"
  "validateObservedOffRampMaxSeqNums [] b = Ok ()"
  by (simp_all add: validateObservedMerkleRoots_def validateObservedOnRampMaxSeqNums_def validateObservedOffRampMaxSeqNums_def)

text \<open>C31. The observation of an honest oracle is never rejected: in every state of the machine, what the
  observer returns passes \<open>ValidateObservation\<close>, provided the oracle is in the configuration, the
  destination is configured and the ranges of the previous outcome are proper and one per chain.\<close>

theorem mr_honest_observation_valid:
  assumes "poller_reachable r" and "oi_homeChain ob = r"
    and "oi_chainSupport ob = \<lparr>cs_homeChain = Some r, cs_oracleIDToP2PID = oracles, cs_nodeID = me, cs_destChain = dest\<rparr>"
    and "GetChainConfig r dest = Ok cfg" and "map_of oracles (oi_oracleID ob) = Some peer"
    and "reader_honest lib ob" and "\<forall>rs. mset (order rs) = mset rs"
    and "distinct (map cr_ChainSel (mro_RangesSelectedForReport prev))"
    and "\<forall>rng \<in> set (mro_RangesSelectedForReport prev).
       sr_Start (cr_SeqNumRange rng) \<noteq> 0 \<and> sr_Start (cr_SeqNumRange rng) \<le> sr_End (cr_SeqNumRange rng)"
    and "mr_Observation_method (observerImpl_methods lib order ob) prev = Ok obs"
  shows "mr_ValidateObservation lib (oi_chainSupport ob) \<lparr>ao_OracleID = oi_oracleID ob, ao_Observation = obs\<rparr> = Ok ()"
proof -
  have inv: "poller_inv r" using poller_reachable_inv [OF assms(1)] by simp
  obtain cs where "GetSupportedChainsForPeer r peer = Ok cs" using hc.supports_iff [OF inv assms(4)] by blast
  with assms(3-5) have s: "SupportedChains (oi_chainSupport ob) (oi_oracleID ob) = Ok cs"
    "SupportsDestChain (oi_chainSupport ob) (oi_oracleID ob) = Ok (peer \<in> set (hcc_SupportedNodes cfg))"
    by (simp_all add: SupportedChains_def SupportsDestChain_def)
  note valid = ObserveFChain_valid [OF assms(1)] onRamp_valid [OF s(1)] offRamp_valid [OF s(2) _ assms(6)]
    roots_valid [OF s(1) _ _ assms(8,6,9)]
  have "mr_getObservation (observerImpl_methods lib order ob) prev = Ok obs"
    using assms(10) by (simp add: mr_Observation_method_def)
  then show ?thesis
    unfolding mr_ValidateObservation_def Let_def
    using valid assms(2,7) s
    by (auto simp: mr_getObservation_def observerImpl_methods_def mr_Observation_zero_def rbind_Ok_iff split: processorState.splits)
qed

theorem mr_honest_observation_valid_witness:
  "\<exists>obs. mr_Observation_method (observerImpl_methods sample_lib rev sample_observer) mr_Outcome_zero = Ok obs \<and>
     mr_ValidateObservation sample_lib sample_support \<lparr>ao_OracleID = 3, ao_Observation = obs\<rparr> = Ok ()"
proof -
  have "ret_ok (mr_Observation_method (observerImpl_methods sample_lib rev sample_observer) mr_Outcome_zero)" by code_simp
  then obtain obs where obs: "mr_Observation_method (observerImpl_methods sample_lib rev sample_observer) mr_Outcome_zero = Ok obs"
    by (cases "mr_Observation_method (observerImpl_methods sample_lib rev sample_observer) mr_Outcome_zero") auto
  have "computeMerkleRoot sample_lib (oi_msgHasher sample_observer) msgs = Ok root \<Longrightarrow> hd root = 9 \<and> root \<noteq> []" for msgs root
    by (cases msgs) (auto simp: computeMerkleRoot_def rbind_Ok_iff sample_lib_def sample_observer_def)
  then have "reader_honest sample_lib sample_observer"
    unfolding reader_honest_def
    by (auto simp: sample_lib_def sample_observer_def sample_reader_def gm_ok_def comp_def list_all_iff neq_Nil_conv) fastforce?
  moreover have "\<exists>cfg. GetChainConfig sample_poller 5 = Ok cfg"
    by (simp add: GetChainConfig_def sample_poller_def setState_def convertOnChainConfigToHomeChainConfig_def
        sample_decode_def sample_info_def)
  then obtain cfg where "GetChainConfig sample_poller 5 = Ok cfg" ..
  ultimately have "mr_ValidateObservation sample_lib (oi_chainSupport sample_observer)
      \<lparr>ao_OracleID = oi_oracleID sample_observer, ao_Observation = obs\<rparr> = Ok ()"
    by (intro mr_honest_observation_valid [OF sample_poller_reachable _ _ _ _ _ _ _ _ obs,
          where oracles = "[(3, [2])]" and me = 3 and dest = 5 and peer = "[2]"])
      (simp_all add: sample_observer_def sample_support_def mr_Outcome_zero_def)
  with obs show ?thesis by (simp add: sample_observer_def)
qed

end
