(* ===== verification/Discovery.thy ===== *)
theory Discovery
  imports PluginCommon
begin

text \<open>
  The contract discovery processor (internal/plugincommon/discovery/processor.go): observation, validation,
  agreement on contract addresses, and the guard that lets one synchronisation of the chain reader run at
  a time. The contract names are constants of another module; they are the fields of \<open>contract_names\<close>.
  The lemmas show that an agreed address is not zero and was observed by enough honest oracles, and that
  two synchronisations never overlap.
\<close>

section \<open>Types\<close>

record contract_names =
  cn_FeeQuoter :: string
  cn_Router :: string
  cn_OnRamp :: string
  cn_OffRamp :: string
  cn_NonceManager :: string
  cn_RMNRemote :: string

text \<open>The names are distinct: they label the cases of one \<open>switch\<close>.\<close>

definition distinct_names :: "contract_names \<Rightarrow> bool" where
  "distinct_names cn \<longleftrightarrow>
     distinct [cn_FeeQuoter cn, cn_Router cn, cn_OnRamp cn, cn_OffRamp cn, cn_NonceManager cn, cn_RMNRemote cn]"

record dt_Observation =
  dt_FChain :: "(ChainSelector, int) gomap"
  dt_Addresses :: ContractAddresses

type_synonym dt_ao = "dt_Observation AttributedObservation"

definition dt_Observation_zero :: dt_Observation where
  "dt_Observation_zero = \<lparr>dt_FChain = [], dt_Addresses = []\<rparr>"

definition dt_Observation_IsEmpty :: "dt_Observation \<Rightarrow> bool" where
  "dt_Observation_IsEmpty ob = (dt_Addresses ob = [])"

record ContractDiscoveryProcessor =
  cdp_reader :: ccip_reader
  cdp_homechain :: homeChainPoller
  cdp_dest :: ChainSelector
  cdp_fRoleDON :: int
  cdp_oracleIDToP2PID :: "(OracleID, PeerID) gomap"
  cdp_peerID :: PeerID

definition NewContractDiscoveryProcessor ::
  "ccip_reader \<Rightarrow> homeChainPoller \<Rightarrow> ChainSelector \<Rightarrow> int \<Rightarrow> (OracleID, PeerID) gomap \<Rightarrow> OracleID
     \<Rightarrow> ContractDiscoveryProcessor option" where
  "NewContractDiscoveryProcessor rd homechain dest fRoleDON oracleIDToP2PID oracleID =
     (case map_of oracleIDToP2PID oracleID of
        None \<Rightarrow> None
      | Some peerID \<Rightarrow>
          Some \<lparr>cdp_reader = rd, cdp_homechain = homechain, cdp_dest = dest, cdp_fRoleDON = fRoleDON,
                cdp_oracleIDToP2PID = oracleIDToP2PID, cdp_peerID = peerID\<rparr>)"

section \<open>Observation\<close>

definition cdp_getSupportedChains :: "ContractDiscoveryProcessor \<Rightarrow> ChainSelector list result" where
  "cdp_getSupportedChains cdp =
     rbind (wrap_err ''get supported chains for peer'' (GetSupportedChainsForPeer (cdp_homechain cdp) (cdp_peerID cdp)))
       (\<lambda>supportedChains. Ok (sort supportedChains))"

definition dt_Observation_method :: "ContractDiscoveryProcessor \<Rightarrow> dt_Observation result" where
  "dt_Observation_method cdp =
     rbind (wrap_err ''unable to get fchain'' (GetFChain (cdp_homechain cdp))) (\<lambda>fChain.
     rbind (wrap_err ''unable to get chain configs'' (GetAllChainConfigs (cdp_homechain cdp))) (\<lambda>chainConfigs.
     rbind (wrap_err ''get supported chains for peer'' (cdp_getSupportedChains cdp)) (\<lambda>supportedChains.
     rbind (wrap_err ''unable to discover contracts''
              (rd_DiscoverContracts (cdp_reader cdp) supportedChains (map fst chainConfigs))) (\<lambda>contracts.
       Ok \<lparr>dt_FChain = fChain, dt_Addresses = contracts\<rparr>))))"

section \<open>ValidateObservation\<close>

definition dt_ValidateObservation ::
  "contract_names \<Rightarrow> ContractDiscoveryProcessor \<Rightarrow> dt_ao \<Rightarrow> unit result" where
  "dt_ValidateObservation cn cdp ao =
     (if dt_Observation_IsEmpty (ao_Observation ao) then Ok ()
      else
      (case map_of (cdp_oracleIDToP2PID cdp) (ao_OracleID ao) of
         None \<Rightarrow> Error (Err ''no peer ID found for Oracle'')
       | Some oraclePeerID \<Rightarrow>
           rbind (wrap_err ''unable to get supported chains for Oracle''
                    (GetSupportedChainsForPeer (cdp_homechain cdp) oraclePeerID)) (\<lambda>supportedChains.
           rbind (wrap_err ''invalid FChain'' (ValidateFChain (dt_FChain (ao_Observation ao)))) (\<lambda>_.
             check_all (\<lambda>(contract, addrs).
               if contract = cn_FeeQuoter cn \<or> contract = cn_Router cn
               then check_all (\<lambda>(chain, _). check_that (chain \<in> set supportedChains)
                      (Err ''oracle is not allowed to observe chain'')) addrs
               else if contract = cn_OnRamp cn \<or> contract = cn_OffRamp cn \<or> contract = cn_NonceManager cn \<or>
                       contract = cn_RMNRemote cn
               then check_that (cdp_dest cdp \<in> set supportedChains)
                      (Err ''oracle is not allowed to observe contract on the destination chain'')
               else Error (Err ''unknown contract name'')) (dt_Addresses (ao_Observation ao))))))"

section \<open>aggregateObservations\<close>

record aggObs =
  ag_fChain :: "(ChainSelector, int list) gomap"
  ag_onrampAddrs :: "(ChainSelector, UnknownAddress list) gomap"
  ag_feeQuoterAddrs :: "(ChainSelector, UnknownAddress list) gomap"
  ag_nonceManagerAddrs :: "(ChainSelector, UnknownAddress list) gomap"
  ag_rmnRemoteAddrs :: "(ChainSelector, UnknownAddress list) gomap"
  ag_routerAddrs :: "(ChainSelector, UnknownAddress list) gomap"

definition isZero :: "byte list \<Rightarrow> bool" where
  "isZero data = list_all (\<lambda>v. v = 0) data"

text \<open>\<open>ao.Observation.Addresses[name]\<close>: nil when absent, which ranges over nothing.\<close>

definition contract_addrs :: "string \<Rightarrow> dt_ao \<Rightarrow> (ChainSelector, UnknownAddress) gomap" where
  "contract_addrs name ao = gm_vals (dt_Addresses (ao_Observation ao)) name"

definition nonzero_addrs :: "(ChainSelector, UnknownAddress) gomap \<Rightarrow> (ChainSelector, UnknownAddress) gomap" where
  "nonzero_addrs m = filter (\<lambda>(_, addr). \<not> isZero addr) m"

text \<open>The entry of the destination chain only, when it is there and not zero.\<close>

definition dest_addr :: "ChainSelector \<Rightarrow> (ChainSelector, UnknownAddress) gomap \<Rightarrow> (ChainSelector, UnknownAddress) gomap" where
  "dest_addr dest m =
     (let addr = gm_vals m dest in if isZero addr then [] else [(dest, addr)])"

definition dt_aggregateObservations :: "contract_names \<Rightarrow> ChainSelector \<Rightarrow> dt_ao list \<Rightarrow> aggObs" where
  "dt_aggregateObservations cn dest aos =
     \<lparr>ag_fChain = group_maps (map (\<lambda>ao. dt_FChain (ao_Observation ao)) aos),
      ag_onrampAddrs = group_maps (map (\<lambda>ao. nonzero_addrs (contract_addrs (cn_OnRamp cn) ao)) aos),
      ag_feeQuoterAddrs = group_maps (map (\<lambda>ao. nonzero_addrs (contract_addrs (cn_FeeQuoter cn) ao)) aos),
      ag_nonceManagerAddrs = group_maps (map (\<lambda>ao. dest_addr dest (contract_addrs (cn_NonceManager cn) ao)) aos),
      ag_rmnRemoteAddrs = group_maps (map (\<lambda>ao. dest_addr dest (contract_addrs (cn_RMNRemote cn) ao)) aos),
      ag_routerAddrs = group_maps (map (\<lambda>ao. nonzero_addrs (contract_addrs (cn_Router cn) ao)) aos)\<rparr>"

section \<open>Outcome\<close>

text \<open>The contracts that \<open>Outcome\<close> hands to the syncer. The outcome itself is empty and its error is
  always nil.\<close>

definition agreed_contracts ::
  "ccip_lib \<Rightarrow> contract_names \<Rightarrow> ContractDiscoveryProcessor \<Rightarrow> dt_ao list \<Rightarrow> ContractAddresses" where
  "agreed_contracts lib cn cdp aos =
     (let agg = dt_aggregateObservations cn (cdp_dest cdp) aos;
          donThresh = MakeConstantThreshold (TwoFPlus1 (cdp_fRoleDON cdp));
          fChain = GetConsensusMap (lib_sum_int lib) (ag_fChain agg) donThresh;
          fChainThresh = MakeMultiThreshold fChain TwoFPlus1;
          contracts = [];
          contracts =
            (case map_of fChain (cdp_dest cdp) of
               None \<Rightarrow> contracts
             | Some fDest \<Rightarrow>
                 gm_put (cn_OnRamp cn)
                   (GetConsensusMap (lib_sum_address lib) (ag_onrampAddrs agg) (MakeConstantThreshold (TwoFPlus1 fDest))) contracts);
          contracts = gm_put (cn_NonceManager cn)
            (GetConsensusMap (lib_sum_address lib) (ag_nonceManagerAddrs agg) fChainThresh) contracts;
          contracts = gm_put (cn_RMNRemote cn)
            (GetConsensusMap (lib_sum_address lib) (ag_rmnRemoteAddrs agg) fChainThresh) contracts;
          contracts = gm_put (cn_FeeQuoter cn)
            (GetConsensusMap (lib_sum_address lib) (ag_feeQuoterAddrs agg) fChainThresh) contracts;
          contracts = gm_put (cn_Router cn)
            (GetConsensusMap (lib_sum_address lib) (ag_routerAddrs agg) fChainThresh) contracts
      in contracts)"

section \<open>The syncer\<close>

text \<open>\<open>Sync\<close> is run by goroutines. Its atomic steps are the compare-and-swap of \<open>busy\<close>, after which the
  goroutine either returns "already syncing" or is inside the call of the reader, and the deferred store
  of False when that call returns. \<open>sy_running\<close> are the goroutines inside the call, \<open>sy_synced\<close> what the
  reader was given, latest first.\<close>

record readerSyncer =
  sy_busy :: bool
  sy_running :: "(nat \<times> ContractAddresses) list"
  sy_synced :: "ContractAddresses list"

definition syncer_init :: readerSyncer where
  "syncer_init = \<lparr>sy_busy = False, sy_running = [], sy_synced = []\<rparr>"

text \<open>The first step: the new state and the result \<open>alreadySyncing\<close> when it returns at once.\<close>

definition Sync_enter :: "nat \<Rightarrow> ContractAddresses \<Rightarrow> readerSyncer \<Rightarrow> readerSyncer \<times> bool" where
  "Sync_enter goroutine contracts s =
     (if sy_busy s then (s, True)
      else (s\<lparr>sy_busy := True, sy_running := (goroutine, contracts) # sy_running s, sy_synced := contracts # sy_synced s\<rparr>, False))"

definition Sync_leave :: "nat \<Rightarrow> readerSyncer \<Rightarrow> readerSyncer" where
  "Sync_leave goroutine s =
     s\<lparr>sy_busy := False, sy_running := filter (\<lambda>(g, _). g \<noteq> goroutine) (sy_running s)\<rparr>"

inductive syncer_step :: "readerSyncer \<Rightarrow> readerSyncer \<Rightarrow> bool" where
  enter: "g \<notin> fst ` set (sy_running s) \<Longrightarrow> syncer_step s (fst (Sync_enter g contracts s))"
| leave: "g \<in> fst ` set (sy_running s) \<Longrightarrow> syncer_step s (Sync_leave g s)"

inductive_cases syncer_stepE: "syncer_step s s'"

section \<open>At most one synchronisation at a time\<close>

definition syncer_inv :: "readerSyncer \<Rightarrow> bool" where
  "syncer_inv s \<longleftrightarrow> length (sy_running s) \<le> 1 \<and> (sy_busy s \<longleftrightarrow> sy_running s \<noteq> [])"

lemma syncer_inv_init: "syncer_inv syncer_init"
  by (simp add: syncer_inv_def syncer_init_def)

lemma syncer_inv_step: "syncer_step s s' \<Longrightarrow> syncer_inv s \<Longrightarrow> syncer_inv s'"
proof (induction rule: syncer_step.induct)
  case (enter g s contracts)
  then show ?case by (auto simp: syncer_inv_def Sync_enter_def)
next
  case (leave g s)
  then obtain c where "sy_running s = [(g, c)]"
    by (cases "sy_running s") (auto simp: syncer_inv_def)
  then show ?case by (simp add: syncer_inv_def Sync_leave_def)
qed

text \<open>C38. Whatever the interleaving of the goroutines, at most one of them is inside the reader's \<open>Sync\<close>; while
  one is, every other call returns "already syncing" and changes nothing, and when it is done a new call
  gets through.\<close>

theorem syncer_mutual_exclusion:
  assumes "syncer_step\<^sup>*\<^sup>* syncer_init s"
  shows "length (sy_running s) \<le> 1 \<and>
    (sy_running s \<noteq> [] \<longrightarrow> (\<forall>g c. Sync_enter g c s = (s, True))) \<and>
    (sy_running s = [] \<longrightarrow> (\<forall>g c. snd (Sync_enter g c s) = False \<and> hd (sy_synced (fst (Sync_enter g c s))) = c))"
proof -
  have "syncer_inv s"
    using assms by (induction rule: rtranclp_induct) (auto intro: syncer_inv_init syncer_inv_step)
  then show ?thesis by (auto simp: syncer_inv_def Sync_enter_def)
qed

theorem syncer_mutual_exclusion_witness:
  "\<exists>s. syncer_step\<^sup>*\<^sup>* syncer_init s \<and> sy_running s \<noteq> [] \<and> Sync_enter 2 [] s = (s, True)"
proof -
  let ?s = "fst (Sync_enter 1 [] syncer_init)"
  have "syncer_step syncer_init ?s" by (rule syncer_step.enter) (simp add: syncer_init_def)
  then have r: "syncer_step\<^sup>*\<^sup>* syncer_init ?s" by (rule r_into_rtranclp)
  have n: "sy_running ?s \<noteq> []" by (simp add: Sync_enter_def syncer_init_def)
  from syncer_mutual_exclusion [OF r] n have "Sync_enter 2 [] ?s = (?s, True)" by blast
  with r n show ?thesis by blast
qed

section \<open>Agreed addresses are honest addresses\<close>

lemma gm_filter_Some_iff:
  assumes "gm_ok m"
  shows "map snd (filter (\<lambda>p. fst p = k) m) = (case map_of m k of None \<Rightarrow> [] | Some v \<Rightarrow> [v])"
  using assms by (simp add: filter_key_gm split: option.split)

lemma count_group_maps:
  assumes "\<And>m. m \<in> set ms \<Longrightarrow> gm_ok m" and "map_of (group_maps ms) k = Some items"
  shows "count_list items x = length (filter (\<lambda>m. map_of m k = Some x) ms)"
proof -
  have "items = gm_vals (group_maps ms) k" using assms(2) by (simp add: gm_vals_def)
  then have i: "items = map snd (filter (\<lambda>p. fst p = k) (concat ms))" by (simp add: gm_vals_group_maps)
  show ?thesis unfolding i using assms(1)
  proof (induction ms)
    case (Cons m ms)
    then have "count_list (map snd (filter (\<lambda>p. fst p = k) m)) x = (if map_of m k = Some x then 1 else 0)"
      by (simp add: gm_filter_Some_iff split: option.split)
    with Cons show ?case by simp
  qed simp
qed

lemma collision_free_group_maps:
  assumes "inj_on sha (\<Union>ao \<in> set aos. snd ` set (g ao))"
  shows "collision_free sha (group_maps (map g aos))"
  unfolding collision_free_def
proof clarify
  fix k vs assume m: "(k, vs) \<in> set (group_maps (map g aos))"
  have "set vs \<subseteq> (\<Union>ao \<in> set aos. snd ` set (g ao))"
    using group_maps_entries(2) [OF m] by (force intro: rev_image_eqI)
  then show "inj_on sha (set vs)" using assms inj_on_subset by blast
qed

lemma consensus_backed:
  assumes "\<And>ao. ao \<in> set aos \<Longrightarrow> gm_ok (g ao)" and "inj_on sha (\<Union>ao \<in> set aos. snd ` set (g ao))"
    and "map_of (GetConsensusMap sha (group_maps (map g aos)) thr) chain = Some x"
    and "thr chain = Some (TwoFPlus1 f)" and "0 \<le> f" and "f < 2 ^ 62"
    and "mset aos = mset hs + mset bs" and "int (length bs) \<le> f"
  shows "f + 1 \<le> int (length (filter (\<lambda>ao. map_of (g ao) chain = Some x) hs)) \<and>
    (\<exists>ao \<in> set aos. (chain, x) \<in> set (g ao))"
proof -
  have cf: "collision_free sha (group_maps (map g aos))" by (rule collision_free_group_maps [OF assms(2)])
  obtain items where it: "map_of (group_maps (map g aos)) chain = Some items" "2 * f + 1 \<le> int (count_list items x)"
    using GetConsensusMap_member [OF _ cf assms(3)] assms(4-6) by (auto simp: thresholds_small)
  have "count_list items x = length (filter (\<lambda>m. map_of m chain = Some x) (map g aos))"
    by (rule count_group_maps [OF _ it(1)]) (use assms(1) in auto)
  then have n: "count_list items x = length (filter (\<lambda>ao. map_of (g ao) chain = Some x) aos)"
    by (simp add: filter_map comp_def)
  let ?P = "\<lambda>ao. map_of (g ao) chain = Some x"
  have "mset (filter ?P aos) = mset (filter ?P hs) + mset (filter ?P bs)"
    using arg_cong [OF assms(7), of "filter_mset ?P"] by simp
  then have "length (filter ?P aos) = length (filter ?P hs) + length (filter ?P bs)"
    by (metis size_mset size_union)
  moreover have "length (filter ?P bs) \<le> length bs" by simp
  ultimately have "f + 1 \<le> int (length (filter ?P hs))" using it(2) n assms(8) by linarith
  moreover have "0 < length (filter ?P aos)" using it(2) n assms(5) by linarith
  then obtain ao where "ao \<in> set aos" "?P ao" by (auto simp: filter_empty_conv)
  ultimately show ?thesis using map_of_SomeD by fastforce
qed

text \<open>The entries of one observation that count for a contract name.\<close>

definition counted_addrs :: "contract_names \<Rightarrow> ChainSelector \<Rightarrow> string \<Rightarrow> dt_ao \<Rightarrow> (ChainSelector, UnknownAddress) gomap" where
  "counted_addrs cn dest name ao =
     (if name = cn_NonceManager cn \<or> name = cn_RMNRemote cn then dest_addr dest (contract_addrs name ao)
      else nonzero_addrs (contract_addrs name ao))"

lemma gm_ok_nonzero: "gm_ok m \<Longrightarrow> gm_ok (nonzero_addrs m)"
  by (simp add: gm_ok_def nonzero_addrs_def distinct_map_filter)

lemma gm_ok_counted:
  "gm_ok (contract_addrs name ao) \<Longrightarrow> gm_ok (counted_addrs cn dest name ao)"
  by (auto simp: counted_addrs_def gm_ok_nonzero dest_addr_def Let_def) (simp_all add: gm_ok_def)

lemma counted_addrs_entry:
  assumes "gm_ok (contract_addrs name ao)"
  shows "map_of (counted_addrs cn dest name ao) chain = Some addr \<Longrightarrow>
    map_of (contract_addrs name ao) chain = Some addr \<and> \<not> isZero addr"
  using assms
  by (auto simp: counted_addrs_def dest_addr_def nonzero_addrs_def gm_vals_def Let_def isZero_def gm_ok_def
      map_of_eq_Some_iff distinct_map_filter split: if_splits option.splits)

lemma counted_addrs_subset:
  assumes "gm_ok (contract_addrs name ao)"
  shows "set (counted_addrs cn dest name ao) \<subseteq> set (contract_addrs name ao)"
proof
  fix e assume "e \<in> set (counted_addrs cn dest name ao)"
  then have "map_of (counted_addrs cn dest name ao) (fst e) = Some (snd e)"
    using gm_ok_counted [OF assms] by (simp add: gm_get_iff)
  from counted_addrs_entry [OF assms this] show "e \<in> set (contract_addrs name ao)"
    using assms by (simp add: gm_get_iff)
qed

lemma agreed_contracts_lookup:
  assumes "distinct_names cn" and "map_of (agreed_contracts lib cn cdp aos) name = Some m"
  shows "\<exists>thr. m = GetConsensusMap (lib_sum_address lib) (group_maps (map (counted_addrs cn (cdp_dest cdp) name) aos)) thr \<and>
    (\<forall>chain t. thr chain = Some t \<longrightarrow> (\<exists>f. t = TwoFPlus1 f \<and>
       map_of (GetConsensusMap (lib_sum_int lib) (group_maps (map (\<lambda>ao. dt_FChain (ao_Observation ao)) aos))
         (MakeConstantThreshold (TwoFPlus1 (cdp_fRoleDON cdp)))) (if name = cn_OnRamp cn then cdp_dest cdp else chain) = Some f))"
proof -
  let ?fc = "GetConsensusMap (lib_sum_int lib) (group_maps (map (\<lambda>ao. dt_FChain (ao_Observation ao)) aos))
         (MakeConstantThreshold (TwoFPlus1 (cdp_fRoleDON cdp)))"
  have multi: "MakeMultiThreshold ?fc TwoFPlus1 chain = Some t \<Longrightarrow> \<exists>f. t = TwoFPlus1 f \<and> map_of ?fc chain = Some f" for chain t
    by (auto simp: MakeMultiThreshold_get)
  have c: "counted_addrs cn (cdp_dest cdp) name = (\<lambda>ao.
      if name = cn_NonceManager cn \<or> name = cn_RMNRemote cn then dest_addr (cdp_dest cdp) (contract_addrs name ao)
      else nonzero_addrs (contract_addrs name ao))" by (simp add: counted_addrs_def fun_eq_iff)
  consider "name = cn_NonceManager cn \<or> name = cn_RMNRemote cn \<or> name = cn_FeeQuoter cn \<or> name = cn_Router cn"
    | "name = cn_OnRamp cn" "\<exists>fD. map_of ?fc (cdp_dest cdp) = Some fD"
    using assms(2) by (cases "map_of ?fc (cdp_dest cdp)")
      (auto simp: agreed_contracts_def Let_def update_conv' dt_aggregateObservations_def split: if_splits)
  then show ?thesis
  proof cases
    case 1
    with assms have "m = GetConsensusMap (lib_sum_address lib) (group_maps (map (counted_addrs cn (cdp_dest cdp) name) aos))
        (MakeMultiThreshold ?fc TwoFPlus1)" "name \<noteq> cn_OnRamp cn"
      by (auto simp: agreed_contracts_def Let_def update_conv' dt_aggregateObservations_def distinct_names_def c
          cong: map_cong split: if_splits)
    with multi show ?thesis by auto
  next
    case 2
    then obtain fD where "map_of ?fc (cdp_dest cdp) = Some fD" by blast
    moreover from this 2(1) assms have "m = GetConsensusMap (lib_sum_address lib) (group_maps (map (counted_addrs cn (cdp_dest cdp) name) aos))
        (MakeConstantThreshold (TwoFPlus1 fD))"
      by (auto simp: agreed_contracts_def Let_def update_conv' dt_aggregateObservations_def distinct_names_def counted_addrs_def [abs_def] split: if_splits)
    ultimately show ?thesis using 2(1) by (auto simp: MakeConstantThreshold_def)
  qed
qed

text \<open>C39. An address that discovery agrees on for a contract on a chain is not zero, and with at most f faulty
  oracles at least f + 1 honest oracles observed exactly that address for it. Here f is the agreed fault
  bound of the chain the contract is read from: the destination for the onRamps, the chain itself otherwise. The addresses observed
  for the contract are told apart by their hash: no two of them collide.\<close>

theorem discovery_addresses_honest:
  assumes "distinct_names cn" and "map_of (agreed_contracts lib cn cdp aos) name = Some addrs"
    and "map_of addrs chain = Some addr"
    and "map_of (GetConsensusMap (lib_sum_int lib) (group_maps (map (\<lambda>ao. dt_FChain (ao_Observation ao)) aos))
         (MakeConstantThreshold (TwoFPlus1 (cdp_fRoleDON cdp)))) (if name = cn_OnRamp cn then cdp_dest cdp else chain) = Some f"
    and "0 \<le> f" and "f < 2 ^ 62" and "mset aos = mset hs + mset bs" and "int (length bs) \<le> f"
    and "\<forall>ao \<in> set aos. gm_ok (contract_addrs name ao)"
    and "inj_on (lib_sum_address lib) {a. \<exists>ao \<in> set aos. a \<in> snd ` set (contract_addrs name ao)}"
  shows "\<not> isZero addr \<and>
    f + 1 \<le> int (length (filter (\<lambda>ao. map_of (contract_addrs name ao) chain = Some addr) hs))"
proof -
  let ?g = "counted_addrs cn (cdp_dest cdp) name"
  obtain thr where thr: "addrs = GetConsensusMap (lib_sum_address lib) (group_maps (map ?g aos)) thr"
    "\<And>t. thr chain = Some t \<Longrightarrow> t = TwoFPlus1 f"
    using agreed_contracts_lookup [OF assms(1,2)] assms(4) by fastforce
  have ok: "gm_ok (?g ao)" if "ao \<in> set aos" for ao using that assms(9) by (simp add: gm_ok_counted)
  have inj: "inj_on (lib_sum_address lib) (\<Union>ao \<in> set aos. snd ` set (?g ao))"
    by (rule inj_on_subset [OF assms(10)]) (use assms(9) counted_addrs_subset in fastforce)
  have cf: "collision_free (lib_sum_address lib) (group_maps (map ?g aos))" by (rule collision_free_group_maps [OF inj])
  have "thr chain = Some (TwoFPlus1 f)"
    using GetConsensusMap_member [OF _ cf assms(3) [unfolded thr(1)]] thr(2) by auto
  note b = consensus_backed [OF ok inj assms(3) [unfolded thr(1)] this assms(5-8)]
  have hs: "set hs \<subseteq> set aos" using arg_cong [OF assms(7), of set_mset] by auto
  have e: "map_of (?g ao) chain = Some addr \<Longrightarrow> map_of (contract_addrs name ao) chain = Some addr \<and> \<not> isZero addr"
    if "ao \<in> set aos" for ao using counted_addrs_entry assms(9) that by blast
  have "length (filter (\<lambda>ao. map_of (?g ao) chain = Some addr) hs) \<le>
      length (filter (\<lambda>ao. map_of (contract_addrs name ao) chain = Some addr) hs)"
    using hs e by (induction hs) auto
  moreover have "\<not> isZero addr" using b e ok by (metis gm_get_iff)
  ultimately show ?thesis using b by linarith
qed

definition sample_names :: contract_names where
  "sample_names = \<lparr>cn_FeeQuoter = ''FeeQuoter'', cn_Router = ''Router'', cn_OnRamp = ''OnRamp'', cn_OffRamp = ''OffRamp'',
     cn_NonceManager = ''NonceManager'', cn_RMNRemote = ''RMNRemote''\<rparr>"

definition sample_dt_ao :: "OracleID \<Rightarrow> byte \<Rightarrow> dt_ao" where
  "sample_dt_ao i b = \<lparr>ao_OracleID = i, ao_Observation = \<lparr>dt_FChain = [(5, 1), (7, 1)],
     dt_Addresses = [(''OnRamp'', [(7, [b, 2])]), (''Router'', [(7, [0, 0])])]\<rparr>\<rparr>"

definition sample_cdp :: ContractDiscoveryProcessor where
  "sample_cdp = \<lparr>cdp_reader = sample_reader0, cdp_homechain = sample_poller2, cdp_dest = 5, cdp_fRoleDON = 1,
     cdp_oracleIDToP2PID = [(3, [2])], cdp_peerID = [2]\<rparr>"

theorem discovery_addresses_honest_witness:
  "map_of (agreed_contracts sample_lib sample_names sample_cdp [sample_dt_ao 1 9, sample_dt_ao 2 9, sample_dt_ao 3 9, sample_dt_ao 4 8]) ''OnRamp''
     = Some [(7, [9, 2])] \<and> \<not> isZero [9 :: byte, 2]"
proof -
  let ?aos = "[sample_dt_ao 1 9, sample_dt_ao 2 9, sample_dt_ao 3 9, sample_dt_ao 4 8]"
  have 1: "map_of (agreed_contracts sample_lib sample_names sample_cdp ?aos) ''OnRamp'' = Some [(7, [9, 2])]"
    by code_simp
  have 2: "map_of (GetConsensusMap (lib_sum_int sample_lib) (group_maps (map (\<lambda>ao. dt_FChain (ao_Observation ao)) ?aos))
         (MakeConstantThreshold (TwoFPlus1 (cdp_fRoleDON sample_cdp)))) (if ''OnRamp'' = cn_OnRamp sample_names then cdp_dest sample_cdp else 7) = Some 1"
    by code_simp
  have "\<not> isZero [9 :: byte, 2]"
    using discovery_addresses_honest [OF _ 1 _ 2, of "[9, 2]" "[sample_dt_ao 1 9, sample_dt_ao 2 9, sample_dt_ao 3 9]" "[sample_dt_ao 4 8]"]
    by (simp add: distinct_names_def sample_names_def contract_addrs_def sample_dt_ao_def gm_vals_def gm_ok_def sample_lib_def inj_on_def)
  with 1 show ?thesis by blast
qed

end
