(* ===== verification/CommitConfig.thy ===== *)
theory CommitConfig
  imports CcipTypes
begin

text \<open>
  The offchain configuration of the commit plugin (pluginconfig/commit.go): its fields, the defaults and the
  validation. A \<open>commonconfig.Duration\<close> is its number of nanoseconds. \<open>lib_MaxNumberTreeLeaves\<close> is
  the constant of merklemulti, \<open>lib_TokenInfo_Validate\<close> the method of \<open>cciptypes.TokenInfo\<close>. The JSON encoding
  of the configuration is not modelled.
\<close>

definition second :: duration where "second = 1000000000"
definition minute :: duration where "minute = 60 * second"

definition defaultMaxReportTransmissionCheckAttempts :: u64 where
  "defaultMaxReportTransmissionCheckAttempts = 5"
definition defaultRemoteGasPriceBatchWriteFrequency :: duration where
  "defaultRemoteGasPriceBatchWriteFrequency = 1 * minute"
definition defaultTransmissionDelayMultiplier :: duration where
  "defaultTransmissionDelayMultiplier = 30 * second"
definition defaultInflightPriceCheckRetries :: int where
  "defaultInflightPriceCheckRetries = 5"
definition defaultAsyncObserverSyncFreq :: duration where
  "defaultAsyncObserverSyncFreq = 5 * second"
definition defaultAsyncObserverSyncTimeout :: duration where
  "defaultAsyncObserverSyncTimeout = 10 * second"

record CommitOffchainConfig =
  coc_RemoteGasPriceBatchWriteFrequency :: duration
  coc_TokenPriceBatchWriteFrequency :: duration
  coc_TokenInfo :: "(UnknownEncodedAddress, TokenInfo) gomap"
  coc_PriceFeedChainSelector :: ChainSelector
  coc_NewMsgScanBatchSize :: int
  coc_MaxReportTransmissionCheckAttempts :: u64
  coc_RMNEnabled :: bool
  coc_MaxMerkleTreeSize :: u64
  coc_TransmissionDelayMultiplier :: duration
  coc_InflightPriceCheckRetries :: int
  coc_MerkleRootAsyncObserverDisabled :: bool
  coc_MerkleRootAsyncObserverSyncFreq :: duration
  coc_MerkleRootAsyncObserverSyncTimeout :: duration
  coc_ChainFeeAsyncObserverDisabled :: bool
  coc_ChainFeeAsyncObserverSyncFreq :: duration
  coc_ChainFeeAsyncObserverSyncTimeout :: duration
  coc_TokenPriceAsyncObserverDisabled :: bool
  coc_TokenPriceAsyncObserverSyncFreq :: duration
  coc_TokenPriceAsyncObserverSyncTimeout :: duration
  coc_DonBreakingChangesVersion :: int
  coc_MaxMerkleRootsPerReport :: u64
  coc_MaxPricesPerReport :: u64
  coc_MultipleReportsEnabled :: bool

text \<open>\<open>if c.X == 0 { c.X = d }\<close>.\<close>

definition dflt :: "'a :: zero \<Rightarrow> 'a \<Rightarrow> 'a" where
  "dflt x d = (if x = 0 then d else x)"

definition applyDefaults :: "ccip_lib \<Rightarrow> CommitOffchainConfig \<Rightarrow> CommitOffchainConfig" where
  "applyDefaults lib c = c\<lparr>
     coc_NewMsgScanBatchSize := dflt (coc_NewMsgScanBatchSize c) (int (lib_MaxNumberTreeLeaves lib)),
     coc_MaxReportTransmissionCheckAttempts :=
       dflt (coc_MaxReportTransmissionCheckAttempts c) defaultMaxReportTransmissionCheckAttempts,
     coc_MaxMerkleTreeSize := dflt (coc_MaxMerkleTreeSize c) (of_nat (lib_MaxNumberTreeLeaves lib)),
     coc_RemoteGasPriceBatchWriteFrequency :=
       dflt (coc_RemoteGasPriceBatchWriteFrequency c) defaultRemoteGasPriceBatchWriteFrequency,
     coc_TransmissionDelayMultiplier := dflt (coc_TransmissionDelayMultiplier c) defaultTransmissionDelayMultiplier,
     coc_InflightPriceCheckRetries := dflt (coc_InflightPriceCheckRetries c) defaultInflightPriceCheckRetries,
     coc_MerkleRootAsyncObserverSyncFreq :=
       (if coc_MerkleRootAsyncObserverDisabled c then coc_MerkleRootAsyncObserverSyncFreq c
        else dflt (coc_MerkleRootAsyncObserverSyncFreq c) defaultAsyncObserverSyncFreq),
     coc_MerkleRootAsyncObserverSyncTimeout :=
       (if coc_MerkleRootAsyncObserverDisabled c then coc_MerkleRootAsyncObserverSyncTimeout c
        else dflt (coc_MerkleRootAsyncObserverSyncTimeout c) defaultAsyncObserverSyncTimeout),
     coc_ChainFeeAsyncObserverSyncFreq :=
       (if coc_ChainFeeAsyncObserverDisabled c then coc_ChainFeeAsyncObserverSyncFreq c
        else dflt (coc_ChainFeeAsyncObserverSyncFreq c) defaultAsyncObserverSyncFreq),
     coc_ChainFeeAsyncObserverSyncTimeout :=
       dflt (coc_ChainFeeAsyncObserverSyncTimeout c) defaultAsyncObserverSyncTimeout,
     coc_TokenPriceAsyncObserverSyncFreq :=
       (if coc_TokenPriceAsyncObserverDisabled c then coc_TokenPriceAsyncObserverSyncFreq c
        else dflt (coc_TokenPriceAsyncObserverSyncFreq c) defaultAsyncObserverSyncFreq),
     coc_TokenPriceAsyncObserverSyncTimeout :=
       dflt (coc_TokenPriceAsyncObserverSyncTimeout c) defaultAsyncObserverSyncTimeout,
     coc_RMNEnabled := False\<rparr>"

definition CommitOffchainConfig_Validate :: "ccip_lib \<Rightarrow> CommitOffchainConfig \<Rightarrow> unit result" where
  "CommitOffchainConfig_Validate lib c =
     rbind (check_that (coc_RemoteGasPriceBatchWriteFrequency c \<noteq> 0)
              (Err ''remoteGasPriceBatchWriteFrequency not set'')) (\<lambda>_.
     rbind (check_that (\<not> (coc_TokenInfo c \<noteq> [] \<and>
                (coc_TokenPriceBatchWriteFrequency c = 0 \<or> coc_PriceFeedChainSelector c = 0)))
              (Err ''tokenPriceBatchWriteFrequency or tokenPriceChainSelector not set'')) (\<lambda>_.
     rbind (check_all (\<lambda>(token, tokenInfo). wrap_err ''invalid token info'' (lib_TokenInfo_Validate lib tokenInfo))
              (coc_TokenInfo c)) (\<lambda>_.
     rbind (check_that (coc_NewMsgScanBatchSize c \<noteq> 0) (Err ''newMsgScanBatchSize not set'')) (\<lambda>_.
     rbind (check_that (coc_MaxReportTransmissionCheckAttempts c \<noteq> 0)
              (Err ''maxReportTransmissionCheckAttempts not set'')) (\<lambda>_.
     rbind (check_that (coc_MaxMerkleTreeSize c \<noteq> 0) (Err ''maxMerkleTreeSize not set'')) (\<lambda>_.
     rbind (check_that (\<not> (\<not> coc_MerkleRootAsyncObserverDisabled c \<and>
                (coc_MerkleRootAsyncObserverSyncFreq c = 0 \<or> coc_MerkleRootAsyncObserverSyncTimeout c = 0)))
              (Err ''merkle root async observer sync freq or sync timeout not set'')) (\<lambda>_.
     rbind (check_that (\<not> (\<not> coc_ChainFeeAsyncObserverDisabled c \<and>
                (coc_ChainFeeAsyncObserverSyncFreq c = 0 \<or> coc_ChainFeeAsyncObserverSyncTimeout c = 0)))
              (Err ''chain fee async observer sync freq or sync timeout not set'')) (\<lambda>_.
     let errs =
           (if coc_MaxMerkleRootsPerReport c \<noteq> 0 \<and> \<not> coc_MultipleReportsEnabled c
            then [Err ''maxMerkleRootsPerReport cannot be used without MultipleReportsEnabled''] else []) @
           (if coc_MaxPricesPerReport c \<noteq> 0 \<and> \<not> coc_MultipleReportsEnabled c
            then [Err ''maxPricesPerReport cannot be used without MultipleReportsEnabled''] else [])
     in case errs of [] \<Rightarrow> Ok () | e # _ \<Rightarrow> Error (Wrap ''joined'' e)))))))))"

definition ApplyDefaultsAndValidate :: "ccip_lib \<Rightarrow> CommitOffchainConfig \<Rightarrow> CommitOffchainConfig \<times> unit result" where
  "ApplyDefaultsAndValidate lib c =
     (let c' = applyDefaults lib c in (c', CommitOffchainConfig_Validate lib c'))"

lemma dflt_nonzero [simp]: "d \<noteq> 0 \<Longrightarrow> dflt x d \<noteq> 0"
  by (simp add: dflt_def)

lemma dflt_idem [simp]: "dflt (dflt x d) d = dflt x d"
  by (simp add: dflt_def)

lemmas default_defs = second_def minute_def defaultMaxReportTransmissionCheckAttempts_def
  defaultRemoteGasPriceBatchWriteFrequency_def defaultTransmissionDelayMultiplier_def
  defaultInflightPriceCheckRetries_def defaultAsyncObserverSyncFreq_def defaultAsyncObserverSyncTimeout_def

text \<open>After the defaults are applied, validation can fail only for the reasons that have no default: a
  token without a price feed, an invalid token, or report limits without multiple reports. The
  defaulted values are never zero, applying the defaults again changes nothing, and a value that was
  set is kept.\<close>

theorem ApplyDefaultsAndValidate_spec:
  assumes "(of_nat (lib_MaxNumberTreeLeaves lib) :: u64) \<noteq> 0"
  shows "(snd (ApplyDefaultsAndValidate lib c) = Ok () \<longleftrightarrow>
      (coc_TokenInfo c = [] \<or> coc_TokenPriceBatchWriteFrequency c \<noteq> 0 \<and> coc_PriceFeedChainSelector c \<noteq> 0) \<and>
      (\<forall>(token, ti) \<in> set (coc_TokenInfo c). lib_TokenInfo_Validate lib ti = Ok ()) \<and>
      (coc_MultipleReportsEnabled c \<or> coc_MaxMerkleRootsPerReport c = 0 \<and> coc_MaxPricesPerReport c = 0)) \<and>
    (let c' = fst (ApplyDefaultsAndValidate lib c) in
      applyDefaults lib c' = c' \<and>
      0 < coc_MaxReportTransmissionCheckAttempts c' \<and> 0 < coc_MaxMerkleTreeSize c' \<and>
      coc_RemoteGasPriceBatchWriteFrequency c' \<noteq> 0 \<and> coc_InflightPriceCheckRetries c' \<noteq> 0 \<and>
      (coc_MaxMerkleTreeSize c \<noteq> 0 \<longrightarrow> coc_MaxMerkleTreeSize c' = coc_MaxMerkleTreeSize c) \<and>
      (coc_InflightPriceCheckRetries c \<noteq> 0 \<longrightarrow> coc_InflightPriceCheckRetries c' = coc_InflightPriceCheckRetries c))"
proof -
  have n: "lib_MaxNumberTreeLeaves lib \<noteq> 0"
  proof
    assume "lib_MaxNumberTreeLeaves lib = 0"
    with assms show False by simp
  qed
  have "snd (ApplyDefaultsAndValidate lib c) = Ok () \<longleftrightarrow>
      (coc_TokenInfo c = [] \<or> coc_TokenPriceBatchWriteFrequency c \<noteq> 0 \<and> coc_PriceFeedChainSelector c \<noteq> 0) \<and>
      (\<forall>(token, ti) \<in> set (coc_TokenInfo c). lib_TokenInfo_Validate lib ti = Ok ()) \<and>
      (coc_MultipleReportsEnabled c \<or> coc_MaxMerkleRootsPerReport c = 0 \<and> coc_MaxPricesPerReport c = 0)"
    unfolding ApplyDefaultsAndValidate_def CommitOffchainConfig_Validate_def applyDefaults_def Let_def
    using assms n by (simp add: rbind_Ok_iff check_all_Ok_iff default_defs case_prod_unfold)
  moreover have "applyDefaults lib (applyDefaults lib c) = applyDefaults lib c"
    by (simp add: applyDefaults_def)
  ultimately show ?thesis
    using assms by (simp add: ApplyDefaultsAndValidate_def Let_def)
      (simp add: applyDefaults_def word_gt_0 default_defs dflt_def)
qed

definition sample_commit_config :: CommitOffchainConfig where
  "sample_commit_config = \<lparr>
     coc_RemoteGasPriceBatchWriteFrequency = 0, coc_TokenPriceBatchWriteFrequency = 0, coc_TokenInfo = [],
     coc_PriceFeedChainSelector = 0, coc_NewMsgScanBatchSize = 0, coc_MaxReportTransmissionCheckAttempts = 0,
     coc_RMNEnabled = True, coc_MaxMerkleTreeSize = 0, coc_TransmissionDelayMultiplier = 0,
     coc_InflightPriceCheckRetries = 0, coc_MerkleRootAsyncObserverDisabled = False,
     coc_MerkleRootAsyncObserverSyncFreq = 0, coc_MerkleRootAsyncObserverSyncTimeout = 0,
     coc_ChainFeeAsyncObserverDisabled = False, coc_ChainFeeAsyncObserverSyncFreq = 0,
     coc_ChainFeeAsyncObserverSyncTimeout = 0, coc_TokenPriceAsyncObserverDisabled = False,
     coc_TokenPriceAsyncObserverSyncFreq = 0, coc_TokenPriceAsyncObserverSyncTimeout = 0,
     coc_DonBreakingChangesVersion = 1, coc_MaxMerkleRootsPerReport = 0, coc_MaxPricesPerReport = 0,
     coc_MultipleReportsEnabled = False\<rparr>"

theorem ApplyDefaultsAndValidate_spec_witness:
  "snd (ApplyDefaultsAndValidate sample_lib sample_commit_config) = Ok ()"
  using ApplyDefaultsAndValidate_spec [of sample_lib sample_commit_config]
  by (simp add: sample_lib_def sample_commit_config_def)

end
