(* ===== verification/ChainFee.thy ===== *)
theory ChainFee
  imports PluginCommon CommitConfig
begin

unbundle bit_operations_syntax

text \<open>
  The chain fee processor of the commit plugin (commit/chainfee): observers, observation, validation and
  outcome. The current time is an argument (\<open>now\<close>). The lemmas show that packing and unpacking of
  the two fee components are inverse below 2^112, exactly which gas prices an outcome updates, that the
  outcome does not depend on map order, and that it cannot panic on validated observations.
\<close>

section \<open>Data\<close>

record ComponentsUSDPrices =
  cup_ExecutionFeePriceUSD :: BigInt
  cup_DataAvFeePriceUSD :: BigInt

record cf_Update =
  cfu_ChainFee :: ComponentsUSDPrices
  cfu_Timestamp :: time

record cf_Observation =
  cfo_FeeComponents :: "(ChainSelector, ChainFeeComponents) gomap"
  cfo_NativeTokenPrices :: "(ChainSelector, BigInt) gomap"
  cfo_ChainFeeUpdates :: "(ChainSelector, cf_Update) gomap"
  cfo_FChain :: "(ChainSelector, int) gomap"
  cfo_TimestampNow :: time

type_synonym cf_ao = "cf_Observation AttributedObservation"

definition cf_Observation_IsEmpty :: "cf_Observation \<Rightarrow> bool" where
  "cf_Observation_IsEmpty ob =
     (cfo_FeeComponents ob = [] \<and> cfo_NativeTokenPrices ob = [] \<and> cfo_ChainFeeUpdates ob = [] \<and>
      cfo_FChain ob = [] \<and> cfo_TimestampNow ob = 0)"

record cf_AggregateObservation =
  cfa_FeeComponents :: "(ChainSelector, ChainFeeComponents list) gomap"
  cfa_NativeTokenPrices :: "(ChainSelector, BigInt list) gomap"
  cfa_FChain :: "(ChainSelector, int list) gomap"
  cfa_ChainFeeUpdates :: "(ChainSelector, cf_Update list) gomap"
  cfa_Timestamps :: "time list"

record cf_Outcome =
  cfout_GasPrices :: "GasPriceChain list"

section \<open>observation.go and observation\_async.go\<close>

definition ones112 :: int where
  "ones112 = fold (\<lambda>i e. set_bit i e) [0 ..< 112] 0"

definition fromPackedFee :: "BigInt \<Rightarrow> ComponentsUSDPrices result" where
  "fromPackedFee packedFee =
     (case packedFee of
        None \<Rightarrow> Panic
      | Some v \<Rightarrow> Ok \<lparr>cup_ExecutionFeePriceUSD = Some (v AND ones112), cup_DataAvFeePriceUSD = Some (drop_bit 112 v)\<rparr>)"

definition feeUpdatesFromTimestampedBig ::
  "(ChainSelector, TimestampedBig) gomap \<Rightarrow> (ChainSelector, cf_Update) gomap result" where
  "feeUpdatesFromTimestampedBig updates =
     gm_collect_r (\<lambda>chain u. rbind (fromPackedFee (tb_Value u)) (\<lambda>c.
       Ok (Some \<lparr>cfu_ChainFee = c, cfu_Timestamp = tb_Timestamp u\<rparr>))) updates"

definition selectMapKeysInSet :: "(ChainSelector, 'a) gomap \<Rightarrow> ChainSelector mapset \<Rightarrow> (ChainSelector, 'a) gomap" where
  "selectMapKeysInSet m s = gm_collect (\<lambda>k v. if k \<in> set s then Some v else None) m"

record cf_baseObserver =
  cfb_cs :: ccipChainSupport
  cfb_oracleID :: OracleID
  cfb_destChain :: ChainSelector
  cfb_ccipReader :: ccip_reader

definition getSupportedSourceChains :: "cf_baseObserver \<Rightarrow> ChainSelector list result" where
  "getSupportedSourceChains ob =
     rbind (SupportedChains (cfb_cs ob) (cfb_oracleID ob)) (\<lambda>supportedChains.
       Ok (sort (filter (\<lambda>c. c \<noteq> cfb_destChain ob) supportedChains)))"

definition getEnabledSourceChains :: "cf_baseObserver \<Rightarrow> ChainSelector list result" where
  "getEnabledSourceChains ob =
     rbind (KnownSourceChainsSlice (cfb_cs ob)) (\<lambda>allSourceChains.
     rbind (rd_GetOffRampSourceChainsConfig (cfb_ccipReader ob) allSourceChains) (\<lambda>sourceChainsCfg.
       Ok (sort (map fst (filter (\<lambda>(chain, cfg). ssc_IsEnabled cfg \<and> cfb_destChain ob \<noteq> chain) sourceChainsCfg)))))"

definition getChainsFeeComponents :: "cf_baseObserver \<Rightarrow> (ChainSelector, ChainFeeComponents) gomap result" where
  "getChainsFeeComponents ob =
     (case getSupportedSourceChains ob of
        Panic \<Rightarrow> Panic
      | Error _ \<Rightarrow> Ok []
      | Ok srcChains \<Rightarrow> if srcChains = [] then Ok [] else Ok (rd_GetChainsFeeComponents (cfb_ccipReader ob) srcChains))"

definition getNativeTokenPrices :: "cf_baseObserver \<Rightarrow> (ChainSelector, BigInt) gomap result" where
  "getNativeTokenPrices ob =
     (case getSupportedSourceChains ob of
        Panic \<Rightarrow> Panic
      | Error _ \<Rightarrow> Ok []
      | Ok srcChains \<Rightarrow> Ok (rd_GetWrappedNativeTokenPriceUSD (cfb_ccipReader ob) srcChains))"

definition getChainFeePriceUpdates :: "cf_baseObserver \<Rightarrow> (ChainSelector, cf_Update) gomap result" where
  "getChainFeePriceUpdates ob =
     (case SupportsDestChain (cfb_cs ob) (cfb_oracleID ob) of
        Panic \<Rightarrow> Panic
      | Error _ \<Rightarrow> Ok []
      | Ok supportsDest \<Rightarrow>
          if \<not> supportsDest then Ok []
          else (case getEnabledSourceChains ob of
                  Panic \<Rightarrow> Panic
                | Error _ \<Rightarrow> Ok []
                | Ok srcChains \<Rightarrow>
                    if srcChains = [] then Ok []
                    else feeUpdatesFromTimestampedBig (rd_GetChainFeePriceUpdate (cfb_ccipReader ob) srcChains)))"

record cf_asyncObserver =
  cfs_baseObserver :: cf_baseObserver
  cfs_chainsFeeComponents :: "(ChainSelector, ChainFeeComponents) gomap"
  cfs_nativeTokenPrices :: "(ChainSelector, BigInt) gomap"
  cfs_chainFeePriceUpdates :: "(ChainSelector, cf_Update) gomap"

datatype cf_sync_op = SyncFeeComponents | SyncNativePrices | SyncFeeUpdates

definition cf_apply_sync_op :: "cf_sync_op \<Rightarrow> cf_asyncObserver \<Rightarrow> cf_asyncObserver result" where
  "cf_apply_sync_op op ob =
     (case op of
        SyncFeeComponents \<Rightarrow>
          rbind (getChainsFeeComponents (cfs_baseObserver ob)) (\<lambda>m. Ok (ob\<lparr>cfs_chainsFeeComponents := m\<rparr>))
      | SyncNativePrices \<Rightarrow>
          rbind (getNativeTokenPrices (cfs_baseObserver ob)) (\<lambda>m. Ok (ob\<lparr>cfs_nativeTokenPrices := m\<rparr>))
      | SyncFeeUpdates \<Rightarrow>
          rbind (getChainFeePriceUpdates (cfs_baseObserver ob)) (\<lambda>m. Ok (ob\<lparr>cfs_chainFeePriceUpdates := m\<rparr>)))"

definition cf_sync :: "cf_sync_op list \<Rightarrow> cf_asyncObserver \<Rightarrow> cf_asyncObserver result" where
  "cf_sync ops ob = fold (\<lambda>op r. rbind r (cf_apply_sync_op op)) ops (Ok ob)"

definition cf_invalidateCaches :: "cf_asyncObserver \<Rightarrow> cf_asyncObserver" where
  "cf_invalidateCaches ob =
     ob\<lparr>cfs_chainsFeeComponents := [], cfs_nativeTokenPrices := [], cfs_chainFeePriceUpdates := []\<rparr>"

text \<open>The two implementations of the interface \<open>observer\<close>; only the asynchronous one has caches. Its
  \<open>invalidateCaches\<close> also asks the background loop for a \<open>sync\<close>, which runs on its own.\<close>

datatype cf_observer = CfBase cf_baseObserver | CfAsync cf_asyncObserver

fun observer_getChainsFeeComponents :: "cf_observer \<Rightarrow> (ChainSelector, ChainFeeComponents) gomap result" where
  "observer_getChainsFeeComponents (CfBase b) = getChainsFeeComponents b"
| "observer_getChainsFeeComponents (CfAsync a) = Ok (cfs_chainsFeeComponents a)"

fun observer_getNativeTokenPrices :: "cf_observer \<Rightarrow> (ChainSelector, BigInt) gomap result" where
  "observer_getNativeTokenPrices (CfBase b) = getNativeTokenPrices b"
| "observer_getNativeTokenPrices (CfAsync a) = Ok (cfs_nativeTokenPrices a)"

fun observer_getChainFeePriceUpdates :: "cf_observer \<Rightarrow> (ChainSelector, cf_Update) gomap result" where
  "observer_getChainFeePriceUpdates (CfBase b) = getChainFeePriceUpdates b"
| "observer_getChainFeePriceUpdates (CfAsync a) = Ok (cfs_chainFeePriceUpdates a)"

fun observer_invalidateCaches :: "cf_observer \<Rightarrow> cf_observer" where
  "observer_invalidateCaches (CfBase b) = CfBase b"
| "observer_invalidateCaches (CfAsync a) = CfAsync (cf_invalidateCaches a)"

fun observer_sync :: "cf_sync_op list \<Rightarrow> cf_observer \<Rightarrow> cf_observer result" where
  "observer_sync ops (CfBase b) = Ok (CfBase b)"
| "observer_sync ops (CfAsync a) = rbind (cf_sync ops a) (\<lambda>a. Ok (CfAsync a))"

section \<open>The processor\<close>

record cf_processor =
  cfp_oracleID :: OracleID
  cfp_destChain :: ChainSelector
  cfp_homeChain :: homeChainPoller
  cfp_cfg :: CommitOffchainConfig
  cfp_chainSupport :: ccipChainSupport
  cfp_fRoleDON :: int
  cfp_obs :: cf_observer

section \<open>validate\_observation.go\<close>

definition areMapKeysEqual :: "(ChainSelector, 'a) gomap \<Rightarrow> (ChainSelector, 'b) gomap \<Rightarrow> bool" where
  "areMapKeysEqual m1 m2 =
     (length m1 = length m2 \<and> list_all (\<lambda>(key, _). map_of m2 key \<noteq> None) m1)"

definition validateObservedChains :: "cf_ao \<Rightarrow> ChainSelector mapset \<Rightarrow> ChainSelector \<Rightarrow> unit result" where
  "validateObservedChains ao observerSupportedChains destChain =
     (let obs = ao_Observation ao in
      if \<not> areMapKeysEqual (cfo_FeeComponents obs) (cfo_NativeTokenPrices obs)
      then Error (Err ''fee components and native token prices have different observed chains'')
      else let observedChains = map fst (cfo_FeeComponents obs) @ map fst (cfo_NativeTokenPrices obs);
               observedChains = (if cfo_ChainFeeUpdates obs \<noteq> [] then observedChains @ [destChain] else observedChains)
           in check_all (\<lambda>chain. check_that (chain \<in> set observerSupportedChains)
                (Err ''chain is not supported by observer'')) observedChains)"

text \<open>\<open>x == nil || x.Cmp(big.NewInt(0)) < 0\<close>.\<close>

definition nil_or_negative :: "BigInt \<Rightarrow> bool" where
  "nil_or_negative p = (case p of None \<Rightarrow> True | Some i \<Rightarrow> i < 0)"

definition validateFeeComponents :: "cf_ao \<Rightarrow> unit result" where
  "validateFeeComponents ao =
     check_all (\<lambda>(chainSelector, feeComponent).
       if nil_or_negative (cfc_ExecutionFee feeComponent) then Error (Err ''nil or negative execution fee'')
       else if nil_or_negative (cfc_DataAvailabilityFee feeComponent)
       then Error (Err ''nil or negative data availability fee'') else Ok ())
       (cfo_FeeComponents (ao_Observation ao))"

definition validateChainFeeUpdates :: "time \<Rightarrow> cf_ao \<Rightarrow> unit result" where
  "validateChainFeeUpdates now ao =
     check_all (\<lambda>(chainSelector, update).
       if nil_or_negative (cup_ExecutionFeePriceUSD (cfu_ChainFee update))
       then Error (Err ''nil or negative execution fee'')
       else if nil_or_negative (cup_DataAvFeePriceUSD (cfu_ChainFee update))
       then Error (Err ''nil or negative data availability fee'')
       else if cfu_Timestamp update = 0 then Error (Err ''timestamp cannot be zero'')
       else if now < cfu_Timestamp update then Error (Err ''timestamp cannot be in the future'')
       else Ok ()) (cfo_ChainFeeUpdates (ao_Observation ao))"

definition cf_ValidateObservation :: "cf_processor \<Rightarrow> time \<Rightarrow> cf_ao \<Rightarrow> unit result" where
  "cf_ValidateObservation p now ao =
     (let obs = ao_Observation ao in
      if cf_Observation_IsEmpty obs then Ok ()
      else
      rbind (wrap_err ''failed to validate FChain'' (ValidateFChain (cfo_FChain obs))) (\<lambda>_.
      rbind (wrap_err ''failed to get supported chains'' (SupportedChains (cfp_chainSupport p) (ao_OracleID ao))) (\<lambda>supported.
      rbind (wrap_err ''failed to validate observed chains'' (validateObservedChains ao supported (cfp_destChain p))) (\<lambda>_.
      rbind (wrap_err ''failed to validate fee components'' (validateFeeComponents ao)) (\<lambda>_.
      rbind (wrap_err ''failed to validate chain fee updates'' (validateChainFeeUpdates now ao)) (\<lambda>_.
      rbind (check_all (\<lambda>(_, token).
               case token of
                 None \<Rightarrow> Error (Err ''nil token price'')
               | Some i \<Rightarrow> if i \<le> 0 then Error (Err ''non-positive token price'') else Ok ())
               (cfo_NativeTokenPrices obs)) (\<lambda>_.
      if cfo_TimestampNow obs = 0 then Error (Err ''timestamp now cannot be zero'')
      else if now < cfo_TimestampNow obs then Error (Err ''timestamp now cannot be in the future'')
      else Ok ())))))))"

section \<open>outcome.go\<close>

definition cf_aggregateObservations :: "cf_ao list \<Rightarrow> cf_AggregateObservation" where
  "cf_aggregateObservations aos =
     (let obs = map ao_Observation aos in
      \<lparr>cfa_FeeComponents = group_maps (map cfo_FeeComponents obs),
       cfa_NativeTokenPrices = group_maps (map cfo_NativeTokenPrices obs),
       cfa_FChain = group_maps (map cfo_FChain obs),
       cfa_ChainFeeUpdates = group_maps (map cfo_ChainFeeUpdates obs),
       cfa_Timestamps = map cfo_TimestampNow obs\<rparr>)"

definition chainFeeUpdateAggregator :: "cf_Update list \<Rightarrow> cf_Update result" where
  "chainFeeUpdateAggregator updates =
     rbind (Median None id (map (\<lambda>u. cup_ExecutionFeePriceUSD (cfu_ChainFee u)) updates)) (\<lambda>medianExecFeeUSD.
     rbind (Median None id (map (\<lambda>u. cup_DataAvFeePriceUSD (cfu_ChainFee u)) updates)) (\<lambda>medianDataAvFeeUSD.
     rbind (TimestampsMedian (map cfu_Timestamp updates)) (\<lambda>ts.
       Ok \<lparr>cfu_ChainFee = \<lparr>cup_ExecutionFeePriceUSD = medianExecFeeUSD, cup_DataAvFeePriceUSD = medianDataAvFeeUSD\<rparr>,
           cfu_Timestamp = ts\<rparr>)))"

definition feeComponentsAggregator :: "ChainFeeComponents list \<Rightarrow> ChainFeeComponents result" where
  "feeComponentsAggregator vals =
     rbind (Median None id (map cfc_ExecutionFee vals)) (\<lambda>e.
     rbind (Median None id (map cfc_DataAvailabilityFee vals)) (\<lambda>d.
       Ok \<lparr>cfc_ExecutionFee = e, cfc_DataAvailabilityFee = d\<rparr>))"

definition cf_getConsensusObservation :: "ccip_lib \<Rightarrow> cf_processor \<Rightarrow> cf_ao list \<Rightarrow> cf_Observation result" where
  "cf_getConsensusObservation lib p aos =
     (let aggObs = cf_aggregateObservations aos;
          donThresh = MakeConstantThreshold (TwoFPlus1 (cfp_fRoleDON p));
          fChains = GetConsensusMap (lib_sum_int lib) (cfa_FChain aggObs) donThresh
      in case map_of fChains (cfp_destChain p) of
           None \<Rightarrow> Error (Err ''no consensus value for fDestChain'')
         | Some fDestChain \<Rightarrow>
             if LtTwoFPlusOne fDestChain (int (length (cfa_Timestamps aggObs)))
             then Error (Err ''not enough observations for timestamps to reach consensus'')
             else
             rbind (Median 0 Some (cfa_Timestamps aggObs)) (\<lambda>timestamp.
             rbind (GetConsensusMapAggregator (cfa_ChainFeeUpdates aggObs)
                      (MakeConstantThreshold (TwoFPlus1 fDestChain)) chainFeeUpdateAggregator) (\<lambda>chainFeeUpdates.
             let twoFChainPlus1 = MakeMultiThreshold fChains TwoFPlus1 in
             rbind (GetConsensusMapAggregator (cfa_FeeComponents aggObs) twoFChainPlus1 feeComponentsAggregator) (\<lambda>feeComponents.
             rbind (GetConsensusMapAggregator (cfa_NativeTokenPrices aggObs) twoFChainPlus1 (Median None id)) (\<lambda>nativeTokenPrices.
               Ok \<lparr>cfo_FeeComponents = feeComponents, cfo_NativeTokenPrices = nativeTokenPrices,
                   cfo_ChainFeeUpdates = chainFeeUpdates, cfo_FChain = fChains, cfo_TimestampNow = timestamp\<rparr>)))))"

definition FeeComponentsToPackedFee :: "ComponentsUSDPrices \<Rightarrow> BigInt result" where
  "FeeComponentsToPackedFee c =
     (case (cup_DataAvFeePriceUSD c, cup_ExecutionFeePriceUSD c) of
        (Some da, Some exec) \<Rightarrow> Ok (Some (push_bit 112 da OR exec))
      | _ \<Rightarrow> Panic)"

text \<open>\<open>(*big.Int).Int64\<close>: the low 64 bits as a signed number; a nil receiver panics.\<close>

definition big_Int64 :: "BigInt \<Rightarrow> int result" where
  "big_Int64 p = (case p of None \<Rightarrow> Panic | Some i \<Rightarrow> Ok (s64 i))"

text \<open>The body of the loop of \<open>getGasPricesToUpdate\<close> for one chain: the prices it appends.\<close>

definition gas_price_update ::
  "cf_processor \<Rightarrow> (ChainSelector, cf_Update) gomap \<Rightarrow> time \<Rightarrow> int \<Rightarrow> int \<Rightarrow>
   ChainSelector \<times> ComponentsUSDPrices \<Rightarrow> GasPriceChain list result" where
  "gas_price_update p latestUpdates consensusTimestamp execDeviation daDeviation = (\<lambda>(chain, currentChainFee).
     case GetChainConfig (cfp_homeChain p) chain of
       Panic \<Rightarrow> Panic
     | Error _ \<Rightarrow> Ok []
     | Ok chainCfg \<Rightarrow>
         rbind (FeeComponentsToPackedFee currentChainFee) (\<lambda>packedFee.
           let feeConfig = hcc_Config chainCfg;
               update = [\<lparr>gp_ChainSel = chain, gp_GasPrice = packedFee\<rparr>]
           in case map_of latestUpdates chain of
                None \<Rightarrow> Ok update
              | Some lastUpdate \<Rightarrow>
                  (let nextUpdateTime = cfu_Timestamp lastUpdate + coc_RemoteGasPriceBatchWriteFrequency (cfp_cfg p)
                   in if nextUpdateTime < consensusTimestamp then Ok update
                      else if cc_ChainFeeDeviationDisabled feeConfig then Ok []
                      else if \<not> ret_ok (ChainConfig_Validate feeConfig) then Ok []
                      else
                      rbind (Deviates (cup_ExecutionFeePriceUSD currentChainFee)
                               (cup_ExecutionFeePriceUSD (cfu_ChainFee lastUpdate)) execDeviation) (\<lambda>executionFeeDeviates.
                      rbind (Deviates (cup_DataAvFeePriceUSD currentChainFee)
                               (cup_DataAvFeePriceUSD (cfu_ChainFee lastUpdate)) daDeviation) (\<lambda>dataAvFeeDeviates.
                        if executionFeeDeviates \<or> dataAvFeeDeviates then Ok update else Ok [])))))"

definition getGasPricesToUpdate ::
  "cf_processor \<Rightarrow> (ChainSelector, ComponentsUSDPrices) gomap \<Rightarrow> (ChainSelector, cf_Update) gomap \<Rightarrow> time
     \<Rightarrow> GasPriceChain list result" where
  "getGasPricesToUpdate p currentChainUSDFees latestUpdates consensusTimestamp =
     (case GetChainConfig (cfp_homeChain p) (cfp_destChain p) of
        Panic \<Rightarrow> Panic
      | Error _ \<Rightarrow> Ok []
      | Ok destChainCfg \<Rightarrow>
          rbind (big_Int64 (cc_GasPriceDeviationPPB (hcc_Config destChainCfg))) (\<lambda>execGasPriceDeviation.
          rbind (big_Int64 (cc_DAGasPriceDeviationPPB (hcc_Config destChainCfg))) (\<lambda>daGasPriceDeviation.
            concat_r (gas_price_update p latestUpdates consensusTimestamp execGasPriceDeviation daGasPriceDeviation)
              currentChainUSDFees)))"

text \<open>The first loop of \<open>Outcome\<close>: the price in USD of one chain's fee components, if there is one.\<close>

definition chain_fee_usd ::
  "ccip_lib \<Rightarrow> (ChainSelector, BigInt) gomap \<Rightarrow> ChainSelector \<Rightarrow> ChainFeeComponents \<Rightarrow> ComponentsUSDPrices option result" where
  "chain_fee_usd lib nativeTokenPrices chain feeComp =
     (case map_of nativeTokenPrices chain of
        None \<Rightarrow> Ok None
      | Some usdPerFeeToken \<Rightarrow>
          (case CalculateUsdPerUnitGas lib chain (cfc_ExecutionFee feeComp) usdPerFeeToken of
             Panic \<Rightarrow> Panic
           | Error _ \<Rightarrow> Ok None
           | Ok execFee \<Rightarrow>
               (case CalculateUsdPerUnitGas lib chain (cfc_DataAvailabilityFee feeComp) usdPerFeeToken of
                  Panic \<Rightarrow> Panic
                | Error _ \<Rightarrow> Ok None
                | Ok daFee \<Rightarrow>
                    Ok (Some \<lparr>cup_ExecutionFeePriceUSD = execFee, cup_DataAvFeePriceUSD = daFee\<rparr>))))"

section \<open>Outcome\<close>

text \<open>\<open>cf_outcome\<close> is what \<open>Outcome\<close> computes once the caches are dealt with.\<close>

definition cf_outcome :: "ccip_lib \<Rightarrow> cf_processor \<Rightarrow> cf_Outcome \<Rightarrow> cf_ao list \<Rightarrow> cf_Outcome result" where
  "cf_outcome lib p _ aos =
     rbind (wrap_err ''get consensus observation'' (cf_getConsensusObservation lib p aos)) (\<lambda>consensusObs.
       if cfo_FeeComponents consensusObs = [] then Ok \<lparr>cfout_GasPrices = []\<rparr>
       else
       rbind (gm_collect_r (chain_fee_usd lib (cfo_NativeTokenPrices consensusObs)) (cfo_FeeComponents consensusObs))
         (\<lambda>chainFeeUSDPrices.
       rbind (getGasPricesToUpdate p chainFeeUSDPrices (cfo_ChainFeeUpdates consensusObs) (cfo_TimestampNow consensusObs))
         (\<lambda>gasPrices. Ok \<lparr>cfout_GasPrices = sort_key gp_ChainSel gasPrices\<rparr>)))"

definition cf_Outcome_method ::
  "ccip_lib \<Rightarrow> cf_processor \<Rightarrow> bool \<Rightarrow> cf_Outcome \<Rightarrow> cf_ao list \<Rightarrow> cf_processor \<times> cf_Outcome result" where
  "cf_Outcome_method lib p invalidateCache prev aos =
     (let p = (if invalidateCache then p\<lparr>cfp_obs := observer_invalidateCaches (cfp_obs p)\<rparr> else p)
      in (p, cf_outcome lib p prev aos))"

section \<open>Observation\<close>

definition cf_observeFChain :: "cf_processor \<Rightarrow> (ChainSelector, int) gomap result" where
  "cf_observeFChain p =
     (case GetFChain (cfp_homeChain p) of Panic \<Rightarrow> Panic | Error _ \<Rightarrow> Ok [] | Ok m \<Rightarrow> Ok m)"

text \<open>\<open>Observation\<close>. Its operations run concurrently with each other and with the background loop of the
  observer; \<open>ops1\<close>, \<open>ops2\<close> and \<open>ops3\<close> are the sync operations that took effect before each of the
  three reads.\<close>

definition cf_Observation_method ::
  "cf_processor \<Rightarrow> bool \<Rightarrow> cf_sync_op list \<Rightarrow> cf_sync_op list \<Rightarrow> cf_sync_op list \<Rightarrow> time
     \<Rightarrow> cf_processor \<times> cf_Observation result" where
  "cf_Observation_method p invalidateCache ops1 ops2 ops3 now =
     (let p = (if invalidateCache then p\<lparr>cfp_obs := observer_invalidateCaches (cfp_obs p)\<rparr> else p) in
      (p,
       rbind (rbind (observer_sync ops1 (cfp_obs p)) observer_getChainsFeeComponents) (\<lambda>feeComponents.
       rbind (rbind (observer_sync ops2 (cfp_obs p)) observer_getNativeTokenPrices) (\<lambda>nativeTokenPrices.
       rbind (rbind (observer_sync ops3 (cfp_obs p)) observer_getChainFeePriceUpdates) (\<lambda>chainFeeUpdates.
       rbind (cf_observeFChain p) (\<lambda>fChain.
       let chainsWithNativeTokenPrices =
             filter (\<lambda>c. c \<in> set (mapset_of (map fst nativeTokenPrices))) (mapset_of (map fst feeComponents))
       in Ok (if chainsWithNativeTokenPrices = []
              then \<lparr>cfo_FeeComponents = [], cfo_NativeTokenPrices = [], cfo_ChainFeeUpdates = chainFeeUpdates,
                    cfo_FChain = fChain, cfo_TimestampNow = now\<rparr>
              else \<lparr>cfo_FeeComponents = selectMapKeysInSet feeComponents chainsWithNativeTokenPrices,
                    cfo_NativeTokenPrices = selectMapKeysInSet nativeTokenPrices chainsWithNativeTokenPrices,
                    cfo_ChainFeeUpdates = chainFeeUpdates, cfo_FChain = fChain, cfo_TimestampNow = now\<rparr>)))))))"

text \<open>\<open>NewProcessor\<close>.\<close>

definition cf_NewProcessor ::
  "OracleID \<Rightarrow> ChainSelector \<Rightarrow> homeChainPoller \<Rightarrow> ccip_reader \<Rightarrow> CommitOffchainConfig \<Rightarrow> ccipChainSupport \<Rightarrow> int
     \<Rightarrow> cf_processor" where
  "cf_NewProcessor oracleID destChain homeChain ccipReader cfg chainSupport fRoleDON =
     (let baseObs = \<lparr>cfb_cs = chainSupport, cfb_oracleID = oracleID, cfb_destChain = destChain,
                     cfb_ccipReader = ccipReader\<rparr>
      in \<lparr>cfp_oracleID = oracleID, cfp_destChain = destChain, cfp_homeChain = homeChain, cfp_cfg = cfg,
          cfp_chainSupport = chainSupport, cfp_fRoleDON = fRoleDON,
          cfp_obs = (if \<not> coc_ChainFeeAsyncObserverDisabled cfg
                     then CfAsync \<lparr>cfs_baseObserver = baseObs, cfs_chainsFeeComponents = [],
                                    cfs_nativeTokenPrices = [], cfs_chainFeePriceUpdates = []\<rparr>
                     else CfBase baseObs)\<rparr>)"

section \<open>Packing\<close>

lemma fold_set_bit: "fold (\<lambda>i e. set_bit i e) [0 ..< n] (0 :: int) = mask n"
proof (induction n)
  case (Suc n)
  have "set_bit n (mask n :: int) = mask (Suc n)"
    by (rule bit_eqI) (auto simp: bit_set_bit_iff bit_mask_iff)
  with Suc show ?case by simp
qed simp

lemma ones112_mask: "ones112 = mask 112"
  by (simp add: ones112_def fold_set_bit)

lemma push_or_split:
  fixes e d :: int
  assumes "0 \<le> e" "e < 2 ^ n"
  shows "(push_bit n d OR e) AND mask n = e" "drop_bit n (push_bit n d OR e) = d"
    "push_bit n d OR e = d * 2 ^ n + e"
proof -
  have e: "take_bit n e = e" using assms by (simp add: take_bit_int_eq_self_iff)
  have "take_bit n (push_bit n d) = 0" by (rule bit_eqI) (auto simp: bit_take_bit_iff bit_push_bit_iff)
  then show "(push_bit n d OR e) AND mask n = e" by (simp add: e flip: take_bit_eq_mask)
  have "drop_bit n e = 0" using assms by (simp add: drop_bit_eq_div)
  moreover have "drop_bit n (push_bit n d) = d" by (rule bit_eqI) (auto simp: bit_drop_bit_eq bit_push_bit_iff)
  ultimately show "drop_bit n (push_bit n d OR e) = d" by simp
  have "push_bit n d AND e = 0"
    by (rule bit_eqI) (metis bit_and_iff bit_push_bit_iff bit_take_bit_iff e bit_0_eq bot_apply bot_bool_def linorder_not_less)
  then have "push_bit n d OR e = push_bit n d + e" by (rule disjunctive_add_eq_or [symmetric])
  then show "push_bit n d OR e = d * 2 ^ n + e" by (simp add: push_bit_eq_mult)
qed

lemma drop_push_mask: "push_bit n (drop_bit n v) OR (v AND mask n) = (v :: int)"
  by (rule bit_eqI) (auto simp: bit_or_iff bit_and_iff bit_push_bit_iff bit_drop_bit_eq bit_mask_iff)

text \<open>Packing and unpacking gas prices are inverse: a pair whose execution part fits 112 bits survives
  the packed form, which is \<open>da * 2^112 + exec\<close>; and every packed number is the packed form of its own
  unpacking.\<close>

theorem packed_fee_roundtrip:
  assumes "0 \<le> exec" and "exec < 2 ^ 112"
  shows "FeeComponentsToPackedFee \<lparr>cup_ExecutionFeePriceUSD = Some exec, cup_DataAvFeePriceUSD = Some da\<rparr>
           = Ok (Some (da * 2 ^ 112 + exec)) \<and>
    fromPackedFee (Some (da * 2 ^ 112 + exec))
      = Ok \<lparr>cup_ExecutionFeePriceUSD = Some exec, cup_DataAvFeePriceUSD = Some da\<rparr> \<and>
    (\<forall>v. rbind (fromPackedFee (Some v)) FeeComponentsToPackedFee = Ok (Some v))"
proof -
  note s = push_or_split [OF assms, of da]
  show ?thesis
    using s(1,2) by (simp add: FeeComponentsToPackedFee_def fromPackedFee_def ones112_mask drop_push_mask s(3) del: One_nat_def)
qed

theorem packed_fee_roundtrip_witness:
  "rbind (FeeComponentsToPackedFee \<lparr>cup_ExecutionFeePriceUSD = Some 5, cup_DataAvFeePriceUSD = Some 7\<rparr>) fromPackedFee
     = Ok \<lparr>cup_ExecutionFeePriceUSD = Some 5, cup_DataAvFeePriceUSD = Some 7\<rparr>"
  using packed_fee_roundtrip [of 5 7] by simp

section \<open>Which gas prices are updated\<close>

definition components_set :: "ComponentsUSDPrices \<Rightarrow> bool" where
  "components_set c \<longleftrightarrow> cup_ExecutionFeePriceUSD c \<noteq> None \<and> cup_DataAvFeePriceUSD c \<noteq> None"

lemma components_set_pack: "components_set c \<Longrightarrow> \<exists>v. FeeComponentsToPackedFee c = Ok (Some v)"
  by (auto simp: components_set_def FeeComponentsToPackedFee_def)

lemma components_set_deviates:
  assumes "components_set c" "components_set d"
  shows "Deviates (cup_ExecutionFeePriceUSD c) (cup_ExecutionFeePriceUSD d) ppb =
      Ok (deviates_int (the (cup_ExecutionFeePriceUSD c)) (the (cup_ExecutionFeePriceUSD d)) ppb)"
    "Deviates (cup_DataAvFeePriceUSD c) (cup_DataAvFeePriceUSD d) ppb =
      Ok (deviates_int (the (cup_DataAvFeePriceUSD c)) (the (cup_DataAvFeePriceUSD d)) ppb)"
  using assms by (auto simp: components_set_def Deviates_def)

text \<open>When a fee has to be written: never written so far, written too long ago, or the fee deviates and the
  chain's configuration allows updates by deviation.\<close>

definition fee_update_due ::
  "cf_processor \<Rightarrow> chain_config \<Rightarrow> time \<Rightarrow> int \<Rightarrow> int \<Rightarrow> ComponentsUSDPrices \<Rightarrow> cf_Update option \<Rightarrow> bool" where
  "fee_update_due p cfg now eppb dppb fee latest =
     (case latest of
        None \<Rightarrow> True
      | Some u \<Rightarrow>
          cfu_Timestamp u + coc_RemoteGasPriceBatchWriteFrequency (cfp_cfg p) < now \<or>
          \<not> cc_ChainFeeDeviationDisabled cfg \<and> ChainConfig_Validate cfg = Ok () \<and>
          (deviates_int (the (cup_ExecutionFeePriceUSD fee)) (the (cup_ExecutionFeePriceUSD (cfu_ChainFee u))) eppb \<or>
           deviates_int (the (cup_DataAvFeePriceUSD fee)) (the (cup_DataAvFeePriceUSD (cfu_ChainFee u))) dppb))"

lemma gas_price_update_eq:
  assumes "components_set fee" and "\<And>u. map_of latest chain = Some u \<Longrightarrow> components_set (cfu_ChainFee u)"
  shows "gas_price_update p latest now eppb dppb (chain, fee) =
    Ok (case GetChainConfig (cfp_homeChain p) chain of
          Ok cfg \<Rightarrow> if fee_update_due p (hcc_Config cfg) now eppb dppb fee (map_of latest chain)
                    then [\<lparr>gp_ChainSel = chain, gp_GasPrice = (case FeeComponentsToPackedFee fee of Ok v \<Rightarrow> v | _ \<Rightarrow> None)\<rparr>] else []
        | _ \<Rightarrow> [])"
proof -
  obtain v where "FeeComponentsToPackedFee fee = Ok (Some v)" using components_set_pack [OF assms(1)] ..
  then show ?thesis
    using components_set_deviates [OF assms(1) assms(2)]
    by (cases "map_of latest chain"; cases "GetChainConfig (cfp_homeChain p) chain")
      (auto simp: gas_price_update_def fee_update_due_def ret_ok_unit Let_def)
qed

lemma getGasPricesToUpdate_eq:
  assumes "GetChainConfig (cfp_homeChain p) (cfp_destChain p) = Ok dcfg"
    and "cc_GasPriceDeviationPPB (hcc_Config dcfg) = Some eppb" and "cc_DAGasPriceDeviationPPB (hcc_Config dcfg) = Some dppb"
    and "\<And>c fee. (c, fee) \<in> set prices \<Longrightarrow> components_set fee"
    and "\<And>c u. map_of latest c = Some u \<Longrightarrow> components_set (cfu_ChainFee u)"
  shows "getGasPricesToUpdate p prices latest now = Ok (concat (map (\<lambda>(chain, fee).
    case GetChainConfig (cfp_homeChain p) chain of
          Ok cfg \<Rightarrow> if fee_update_due p (hcc_Config cfg) now (s64 eppb) (s64 dppb) fee (map_of latest chain)
                    then [\<lparr>gp_ChainSel = chain, gp_GasPrice = (case FeeComponentsToPackedFee fee of Ok v \<Rightarrow> v | _ \<Rightarrow> None)\<rparr>] else []
        | _ \<Rightarrow> []) prices))"
  using assms
  by (auto simp: getGasPricesToUpdate_def big_Int64_def gas_price_update_eq intro!: concat_r_Ok split: prod.split)

lemma FeeComponentsToPackedFee_not_Error [simp]: "FeeComponentsToPackedFee c \<noteq> Error e"
  by (simp add: FeeComponentsToPackedFee_def split: option.splits)

lemma gas_price_update_shape:
  "gas_price_update p latest now eppb dppb pr \<noteq> Error e"
  "gas_price_update p latest now eppb dppb pr = Ok ys \<Longrightarrow> ys = [] \<or> (\<exists>x. ys = [x] \<and> gp_ChainSel x = fst pr)"
  by (cases pr; auto simp: gas_price_update_def Let_def rbind_Error_iff rbind_Ok_iff
      split: result.splits option.splits if_splits)+

lemma getGasPricesToUpdate_distinct:
  assumes "gm_ok prices" and "getGasPricesToUpdate p prices latest now = Ok gps"
  shows "distinct (map gp_ChainSel gps)"
proof -
  have "distinct (map gp_ChainSel gps)" if "concat_r (gas_price_update p latest now e d) prices = Ok gps" for e d
  proof -
    let ?g = "\<lambda>x. case gas_price_update p latest now e d x of Ok ys \<Rightarrow> ys | _ \<Rightarrow> []"
    have "gps = concat (map ?g prices)"
      using that by (subst (asm) concat_r_cases) (auto simp: gas_price_update_shape split: if_splits)
    moreover have "?g x = [] \<or> (\<exists>y. ?g x = [y] \<and> gp_ChainSel y = fst x)" for x
      by (cases "gas_price_update p latest now e d x") (auto dest: gas_price_update_shape(2))
    ultimately show ?thesis using assms(1) distinct_map_concat_key [of prices ?g gp_ChainSel] by (simp add: gm_ok_def)
  qed
  then show ?thesis
    using assms(2) by (auto simp: getGasPricesToUpdate_def rbind_Ok_iff split: result.splits)
qed

text \<open>C36. The gas prices to update are exactly those of the priced chains known to the home chain that have no
  written price, whose written price is older than the write frequency, or that deviate from the written
  price by more than the destination's thresholds while the chain allows it; each is the packed price.\<close>

theorem getGasPricesToUpdate_spec:
  assumes "GetChainConfig (cfp_homeChain p) (cfp_destChain p) = Ok dcfg"
    and "cc_GasPriceDeviationPPB (hcc_Config dcfg) = Some eppb" and "cc_DAGasPriceDeviationPPB (hcc_Config dcfg) = Some dppb"
    and "gm_ok prices" and "\<And>c fee. (c, fee) \<in> set prices \<Longrightarrow> components_set fee"
    and "\<And>c u. map_of latest c = Some u \<Longrightarrow> components_set (cfu_ChainFee u)"
  shows "\<exists>gps. getGasPricesToUpdate p prices latest now = Ok gps \<and> distinct (map gp_ChainSel gps) \<and>
    (\<forall>gp. gp \<in> set gps \<longleftrightarrow>
      (\<exists>fee cfg. map_of prices (gp_ChainSel gp) = Some fee \<and> GetChainConfig (cfp_homeChain p) (gp_ChainSel gp) = Ok cfg \<and>
         FeeComponentsToPackedFee fee = Ok (gp_GasPrice gp) \<and>
         fee_update_due p (hcc_Config cfg) now (s64 eppb) (s64 dppb) fee (map_of latest (gp_ChainSel gp))))"
proof -
  let ?g = "\<lambda>(chain, fee). case GetChainConfig (cfp_homeChain p) chain of
          Ok cfg \<Rightarrow> if fee_update_due p (hcc_Config cfg) now (s64 eppb) (s64 dppb) fee (map_of latest chain)
                    then [\<lparr>gp_ChainSel = chain, gp_GasPrice = (case FeeComponentsToPackedFee fee of Ok v \<Rightarrow> v | _ \<Rightarrow> None)\<rparr>] else []
        | _ \<Rightarrow> []"
  have "gp \<in> set (concat (map ?g prices)) \<longleftrightarrow>
      (\<exists>fee cfg. map_of prices (gp_ChainSel gp) = Some fee \<and> GetChainConfig (cfp_homeChain p) (gp_ChainSel gp) = Ok cfg \<and>
         FeeComponentsToPackedFee fee = Ok (gp_GasPrice gp) \<and>
         fee_update_due p (hcc_Config cfg) now (s64 eppb) (s64 dppb) fee (map_of latest (gp_ChainSel gp)))" for gp
  proof -
    have "gp \<in> set (?g (c, fee)) \<longleftrightarrow> gp_ChainSel gp = c \<and> (\<exists>cfg. GetChainConfig (cfp_homeChain p) c = Ok cfg \<and>
        FeeComponentsToPackedFee fee = Ok (gp_GasPrice gp) \<and>
        fee_update_due p (hcc_Config cfg) now (s64 eppb) (s64 dppb) fee (map_of latest c))" if "(c, fee) \<in> set prices" for c fee
      using components_set_pack [OF assms(5) [OF that]]
      by (cases gp; cases "GetChainConfig (cfp_homeChain p) c") auto
    then show ?thesis by (force simp: gm_get_iff [OF assms(4)])
  qed
  then show ?thesis
    using getGasPricesToUpdate_eq [of p dcfg eppb dppb prices latest now] getGasPricesToUpdate_distinct [OF assms(4)] assms by simp
qed

section \<open>Determinism\<close>

definition cf_con_eq :: "cf_Observation \<Rightarrow> cf_Observation \<Rightarrow> bool" where
  "cf_con_eq ob ob' \<longleftrightarrow>
     gm_eq (cfo_FeeComponents ob) (cfo_FeeComponents ob') \<and> gm_eq (cfo_NativeTokenPrices ob) (cfo_NativeTokenPrices ob') \<and>
     gm_eq (cfo_ChainFeeUpdates ob) (cfo_ChainFeeUpdates ob') \<and> gm_eq (cfo_FChain ob) (cfo_FChain ob') \<and>
     cfo_TimestampNow ob = cfo_TimestampNow ob'"

definition cf_obs_eq :: "cf_ao \<Rightarrow> cf_ao \<Rightarrow> bool" where
  "cf_obs_eq ao ao' \<longleftrightarrow> cf_con_eq (ao_Observation ao) (ao_Observation ao')"

lemma chainFeeUpdateAggregator_not_Error [simp]: "chainFeeUpdateAggregator us \<noteq> Error e"
  by (auto simp: chainFeeUpdateAggregator_def TimestampsMedian_def rbind_Error_iff)

lemma feeComponentsAggregator_not_Error [simp]: "feeComponentsAggregator us \<noteq> Error e"
  by (auto simp: feeComponentsAggregator_def rbind_Error_iff)

lemma cf_aggregate_eq:
  assumes "list_all2 cf_obs_eq aos aos'"
  shows "gm_eq (cfa_FeeComponents (cf_aggregateObservations aos)) (cfa_FeeComponents (cf_aggregateObservations aos'))"
    "gm_eq (cfa_NativeTokenPrices (cf_aggregateObservations aos)) (cfa_NativeTokenPrices (cf_aggregateObservations aos'))"
    "gm_eq (cfa_ChainFeeUpdates (cf_aggregateObservations aos)) (cfa_ChainFeeUpdates (cf_aggregateObservations aos'))"
    "gm_eq (cfa_FChain (cf_aggregateObservations aos)) (cfa_FChain (cf_aggregateObservations aos'))"
    "cfa_Timestamps (cf_aggregateObservations aos) = cfa_Timestamps (cf_aggregateObservations aos')"
proof -
  have l: "list_all2 gm_eq (map (g \<circ> ao_Observation) aos) (map (g \<circ> ao_Observation) aos')"
    if "\<And>ao ao'. cf_obs_eq ao ao' \<Longrightarrow> gm_eq (g (ao_Observation ao)) (g (ao_Observation ao'))" for g :: "cf_Observation \<Rightarrow> ('k, 'v) gomap"
    using assms that by (simp add: list_all2_map1 list_all2_map2 list_all2_mono)
  show "gm_eq (cfa_FeeComponents (cf_aggregateObservations aos)) (cfa_FeeComponents (cf_aggregateObservations aos'))"
    "gm_eq (cfa_NativeTokenPrices (cf_aggregateObservations aos)) (cfa_NativeTokenPrices (cf_aggregateObservations aos'))"
    "gm_eq (cfa_ChainFeeUpdates (cf_aggregateObservations aos)) (cfa_ChainFeeUpdates (cf_aggregateObservations aos'))"
    "gm_eq (cfa_FChain (cf_aggregateObservations aos)) (cfa_FChain (cf_aggregateObservations aos'))"
    using l [of cfo_FeeComponents] l [of cfo_NativeTokenPrices] l [of cfo_ChainFeeUpdates] l [of cfo_FChain]
    by (simp_all add: cf_aggregateObservations_def Let_def group_maps_gm_eq cf_obs_eq_def cf_con_eq_def)
  show "cfa_Timestamps (cf_aggregateObservations aos) = cfa_Timestamps (cf_aggregateObservations aos')"
    using assms by (induction rule: list_all2_induct)
      (simp_all add: cf_aggregateObservations_def Let_def cf_obs_eq_def cf_con_eq_def)
qed

lemma cf_consensus_det:
  assumes "list_all2 cf_obs_eq aos aos'"
  shows "rel_result cf_con_eq (cf_getConsensusObservation lib p aos) (cf_getConsensusObservation lib p aos')"
proof -
  note eq = cf_aggregate_eq [OF assms]
  let ?f = "\<lambda>aos. GetConsensusMap (lib_sum_int lib) (cfa_FChain (cf_aggregateObservations aos))
                   (MakeConstantThreshold (TwoFPlus1 (cfp_fRoleDON p)))"
  have f: "gm_eq (?f aos) (?f aos')" using eq(4) by (rule gm_eq_GetConsensusMap)
  then have d: "map_of (?f aos) = map_of (?f aos')" by (simp add: gm_eq_def)
  have t: "MakeMultiThreshold (?f aos) TwoFPlus1 = MakeMultiThreshold (?f aos') TwoFPlus1"
    using f by (rule MakeMultiThreshold_gm_eq)
  show ?thesis
  proof (cases "map_of (?f aos') (cfp_destChain p)")
    case None
    then show ?thesis by (simp add: cf_getConsensusObservation_def Let_def d)
  next
    case (Some fDest)
    have r: "rel_result (=) m m" for m :: "'x result" by (simp add: result.rel_refl)
    show ?thesis
      unfolding cf_getConsensusObservation_def Let_def d Some t eq(5) option.case
      by (auto intro!: rel_result_rbind [OF r] rel_result_rbind [OF gm_eq_GetConsensusMapAggregator] eq
          simp: cf_con_eq_def f)
  qed
qed

lemma chain_fee_usd_not_Error [simp]: "chain_fee_usd lib prices c fee \<noteq> Error e"
  by (simp add: chain_fee_usd_def split: option.splits result.splits)

lemma getGasPricesToUpdate_det:
  assumes "gm_eq prices prices'" and "map_of latest = map_of latest'"
  shows "rbind (getGasPricesToUpdate p prices latest now) (\<lambda>g. Ok (h (sort_key gp_ChainSel g))) =
    rbind (getGasPricesToUpdate p prices' latest' now) (\<lambda>g. Ok (h (sort_key gp_ChainSel g)))"
proof -
  have l: "gas_price_update p latest = gas_price_update p latest'"
    unfolding gas_price_update_def assms(2) ..
  have "rbind (concat_r (gas_price_update p latest' now e d) prices) (\<lambda>xs. Ok (sort_key gp_ChainSel xs)) =
      rbind (concat_r (gas_price_update p latest' now e d) prices') (\<lambda>xs. Ok (sort_key gp_ChainSel xs))" for e d
    by (rule concat_r_sorted_det [OF assms(1)]) (auto simp: gas_price_update_shape dest: gas_price_update_shape(2))
  from arg_cong [where f = "\<lambda>r. rbind r (\<lambda>g. Ok (h g))", OF this]
  have "rbind (concat_r (gas_price_update p latest' now e d) prices) (\<lambda>xs. Ok (h (sort_key gp_ChainSel xs))) =
      rbind (concat_r (gas_price_update p latest' now e d) prices') (\<lambda>xs. Ok (h (sort_key gp_ChainSel xs)))" for e d
    by (simp add: rbind_assoc)
  then show ?thesis
    by (simp add: getGasPricesToUpdate_def l rbind_assoc split: result.splits)
qed

lemma cf_outcome_det:
  assumes "list_all2 cf_obs_eq aos aos'"
  shows "cf_outcome lib p prev aos = cf_outcome lib p prev aos'"
proof -
  have "rel_result cf_con_eq (wrap_err s (cf_getConsensusObservation lib p aos)) (wrap_err s (cf_getConsensusObservation lib p aos'))" for s
    using cf_consensus_det [OF assms, of lib p]
    by (cases "cf_getConsensusObservation lib p aos"; cases "cf_getConsensusObservation lib p aos'") auto
  then show ?thesis
    unfolding cf_outcome_def
  proof (rule rel_result_eq_rbind)
    fix co co' assume co: "cf_con_eq co co'"
    then have "length (cfo_FeeComponents co) = length (cfo_FeeComponents co')" by (simp add: cf_con_eq_def gm_eq_length)
    then have "cfo_FeeComponents co = [] \<longleftrightarrow> cfo_FeeComponents co' = []" by auto
    moreover have "chain_fee_usd lib (cfo_NativeTokenPrices co) = chain_fee_usd lib (cfo_NativeTokenPrices co')"
    proof -
      have "map_of (cfo_NativeTokenPrices co) = map_of (cfo_NativeTokenPrices co')"
        using co by (simp add: cf_con_eq_def gm_eq_def)
      then show ?thesis unfolding chain_fee_usd_def by (rule arg_cong)
    qed
    moreover have "rel_result gm_eq
        (gm_collect_r (chain_fee_usd lib (cfo_NativeTokenPrices co')) (cfo_FeeComponents co))
        (gm_collect_r (chain_fee_usd lib (cfo_NativeTokenPrices co')) (cfo_FeeComponents co'))"
      using co by (intro gm_eq_collect_r) (auto simp: cf_con_eq_def)
    then have "rbind (gm_collect_r (chain_fee_usd lib (cfo_NativeTokenPrices co')) (cfo_FeeComponents co)) (\<lambda>prices.
        rbind (getGasPricesToUpdate p prices (cfo_ChainFeeUpdates co) (cfo_TimestampNow co')) (\<lambda>g. Ok (\<lparr>cfout_GasPrices = sort_key gp_ChainSel g\<rparr>))) =
      rbind (gm_collect_r (chain_fee_usd lib (cfo_NativeTokenPrices co')) (cfo_FeeComponents co')) (\<lambda>prices.
        rbind (getGasPricesToUpdate p prices (cfo_ChainFeeUpdates co') (cfo_TimestampNow co')) (\<lambda>g. Ok (\<lparr>cfout_GasPrices = sort_key gp_ChainSel g\<rparr>)))"
      by (rule rel_result_eq_rbind)
        (use co in \<open>auto intro!: getGasPricesToUpdate_det [where h = "\<lambda>g. \<lparr>cfout_GasPrices = g\<rparr>"] simp: cf_con_eq_def gm_eq_def\<close>)
    ultimately show "(if cfo_FeeComponents co = [] then Ok \<lparr>cfout_GasPrices = []\<rparr> else
       rbind (gm_collect_r (chain_fee_usd lib (cfo_NativeTokenPrices co)) (cfo_FeeComponents co)) (\<lambda>prices.
        rbind (getGasPricesToUpdate p prices (cfo_ChainFeeUpdates co) (cfo_TimestampNow co)) (\<lambda>g. Ok \<lparr>cfout_GasPrices = sort_key gp_ChainSel g\<rparr>))) =
      (if cfo_FeeComponents co' = [] then Ok \<lparr>cfout_GasPrices = []\<rparr> else
       rbind (gm_collect_r (chain_fee_usd lib (cfo_NativeTokenPrices co')) (cfo_FeeComponents co')) (\<lambda>prices.
        rbind (getGasPricesToUpdate p prices (cfo_ChainFeeUpdates co') (cfo_TimestampNow co')) (\<lambda>g. Ok \<lparr>cfout_GasPrices = sort_key gp_ChainSel g\<rparr>)))"
      using co by (simp add: cf_con_eq_def)
  qed
qed

interpretation cfp: plugin_processor "cf_outcome lib p" cf_obs_eq "(=)" for lib p
  by unfold_locales (auto simp: result.rel_eq cf_outcome_def dest: cf_outcome_det)

section \<open>No panic on validated observations\<close>

lemma cf_valid_entries:
  assumes "cf_ValidateObservation p now ao = Ok ()"
  shows "\<And>c v. (c, v) \<in> set (cfo_FeeComponents (ao_Observation ao)) \<Longrightarrow>
      cfc_ExecutionFee v \<noteq> None \<and> cfc_DataAvailabilityFee v \<noteq> None"
    "\<And>c v. (c, v) \<in> set (cfo_NativeTokenPrices (ao_Observation ao)) \<Longrightarrow> v \<noteq> None"
    "\<And>c v. (c, v) \<in> set (cfo_ChainFeeUpdates (ao_Observation ao)) \<Longrightarrow> components_set (cfu_ChainFee v)"
  using assms
  by (fastforce simp: cf_ValidateObservation_def cf_Observation_IsEmpty_def rbind_Ok_iff Let_def check_all_Ok_iff
      validateFeeComponents_def validateChainFeeUpdates_def nil_or_negative_def components_set_def
      split: if_splits option.splits)+

lemma feeComponentsAggregator_Ok:
  assumes "\<forall>v \<in> set vs. cfc_ExecutionFee v \<noteq> None \<and> cfc_DataAvailabilityFee v \<noteq> None" and "vs \<noteq> []"
  shows "\<exists>v. feeComponentsAggregator vs = Ok v \<and> cfc_ExecutionFee v \<noteq> None \<and> cfc_DataAvailabilityFee v \<noteq> None"
  using Median_big_Ok [of "map cfc_ExecutionFee vs"] Median_big_Ok [of "map cfc_DataAvailabilityFee vs"] assms
  by (auto simp: feeComponentsAggregator_def)

lemma chainFeeUpdateAggregator_Ok:
  assumes "\<forall>v \<in> set vs. components_set (cfu_ChainFee v)" and "vs \<noteq> []"
  shows "\<exists>v. chainFeeUpdateAggregator vs = Ok v \<and> components_set (cfu_ChainFee v)"
  using Median_big_Ok [of "map (\<lambda>u. cup_ExecutionFeePriceUSD (cfu_ChainFee u)) vs"]
    Median_big_Ok [of "map (\<lambda>u. cup_DataAvFeePriceUSD (cfu_ChainFee u)) vs"]
    Median_time_Ok [of "map cfu_Timestamp vs"] assms
  by (auto simp: chainFeeUpdateAggregator_def TimestampsMedian_def components_set_def)

lemma cf_consensus_entries:
  assumes valid: "\<And>ao. ao \<in> set aos \<Longrightarrow> cf_ValidateObservation p now ao = Ok ()"
  shows "cf_getConsensusObservation lib p aos \<noteq> Panic"
    "cf_getConsensusObservation lib p aos = Ok co \<Longrightarrow>
       gm_ok (cfo_FeeComponents co) \<and> gm_ok (cfo_NativeTokenPrices co) \<and> gm_ok (cfo_ChainFeeUpdates co) \<and>
       (\<forall>(c, v) \<in> set (cfo_FeeComponents co). cfc_ExecutionFee v \<noteq> None \<and> cfc_DataAvailabilityFee v \<noteq> None) \<and>
       (\<forall>(c, v) \<in> set (cfo_NativeTokenPrices co). v \<noteq> None) \<and>
       (\<forall>(c, v) \<in> set (cfo_ChainFeeUpdates co). components_set (cfu_ChainFee v))"
proof -
  let ?a = "cf_aggregateObservations aos"
  have fee: "\<exists>v. feeComponentsAggregator vs = Ok v \<and> cfc_ExecutionFee v \<noteq> None \<and> cfc_DataAvailabilityFee v \<noteq> None"
    if "(k, vs) \<in> set (cfa_FeeComponents ?a)" for k vs
  proof (rule feeComponentsAggregator_Ok)
    show "\<forall>v \<in> set vs. cfc_ExecutionFee v \<noteq> None \<and> cfc_DataAvailabilityFee v \<noteq> None" "vs \<noteq> []"
      using that group_maps_entries [of k vs] cf_valid_entries(1) [OF valid]
      by (fastforce simp: cf_aggregateObservations_def Let_def)+
  qed
  have nat: "\<exists>v. Median None id vs = Ok v \<and> v \<noteq> None" if "(k, vs) \<in> set (cfa_NativeTokenPrices ?a)" for k vs
  proof -
    have "\<forall>v \<in> set vs. v \<noteq> None" "vs \<noteq> []"
      using that group_maps_entries [of k vs] cf_valid_entries(2) [OF valid]
      by (fastforce simp: cf_aggregateObservations_def Let_def)+
    then show ?thesis using Median_big_Ok by blast
  qed
  have upd: "\<exists>v. chainFeeUpdateAggregator vs = Ok v \<and> components_set (cfu_ChainFee v)"
    if "(k, vs) \<in> set (cfa_ChainFeeUpdates ?a)" for k vs
  proof (rule chainFeeUpdateAggregator_Ok)
    show "\<forall>v \<in> set vs. components_set (cfu_ChainFee v)" "vs \<noteq> []"
      using that group_maps_entries [of k vs] cf_valid_entries(3) [OF valid]
      by (fastforce simp: cf_aggregateObservations_def Let_def)+
  qed
  have ok: "gm_ok (cfa_FeeComponents ?a)" "gm_ok (cfa_NativeTokenPrices ?a)" "gm_ok (cfa_ChainFeeUpdates ?a)"
    by (simp_all add: cf_aggregateObservations_def Let_def)
  have a1: "\<exists>r. GetConsensusMapAggregator (cfa_FeeComponents ?a) t feeComponentsAggregator = Ok r \<and> gm_ok r \<and>
      (\<forall>(k, v) \<in> set r. cfc_ExecutionFee v \<noteq> None \<and> cfc_DataAvailabilityFee v \<noteq> None)" for t
    by (rule GetConsensusMapAggregator_all [OF ok(1)]) (rule fee)
  have a2: "\<exists>r. GetConsensusMapAggregator (cfa_NativeTokenPrices ?a) t (Median None id) = Ok r \<and> gm_ok r \<and>
      (\<forall>(k, v) \<in> set r. v \<noteq> None)" for t
    by (rule GetConsensusMapAggregator_all [OF ok(2)]) (rule nat)
  have a3: "\<exists>r. GetConsensusMapAggregator (cfa_ChainFeeUpdates ?a) t chainFeeUpdateAggregator = Ok r \<and> gm_ok r \<and>
      (\<forall>(k, v) \<in> set r. components_set (cfu_ChainFee v))" for t
    by (rule GetConsensusMapAggregator_all [OF ok(3)]) (rule upd)
  show "cf_getConsensusObservation lib p aos \<noteq> Panic"
  proof -
    have np: "GetConsensusMapAggregator (cfa_FeeComponents ?a) t feeComponentsAggregator \<noteq> Panic"
      "GetConsensusMapAggregator (cfa_NativeTokenPrices ?a) t (Median None id) \<noteq> Panic"
      "GetConsensusMapAggregator (cfa_ChainFeeUpdates ?a) t chainFeeUpdateAggregator \<noteq> Panic" for t
      using a1 [of t] a2 [of t] a3 [of t] by auto
    show ?thesis
      using Median_time_Ok [of "cfa_Timestamps ?a"] np
      by (auto simp: cf_getConsensusObservation_def Let_def rbind_Panic_iff split: option.splits if_splits)
  qed
  assume "cf_getConsensusObservation lib p aos = Ok co"
  then obtain t1 t2 t3 where
    "GetConsensusMapAggregator (cfa_FeeComponents ?a) t1 feeComponentsAggregator = Ok (cfo_FeeComponents co)"
    "GetConsensusMapAggregator (cfa_NativeTokenPrices ?a) t2 (Median None id) = Ok (cfo_NativeTokenPrices co)"
    "GetConsensusMapAggregator (cfa_ChainFeeUpdates ?a) t3 chainFeeUpdateAggregator = Ok (cfo_ChainFeeUpdates co)"
    by (auto simp: cf_getConsensusObservation_def Let_def rbind_Ok_iff split: option.splits if_splits)
  with a1 [of t1] a2 [of t2] a3 [of t3] show "gm_ok (cfo_FeeComponents co) \<and> gm_ok (cfo_NativeTokenPrices co) \<and> gm_ok (cfo_ChainFeeUpdates co) \<and>
       (\<forall>(c, v) \<in> set (cfo_FeeComponents co). cfc_ExecutionFee v \<noteq> None \<and> cfc_DataAvailabilityFee v \<noteq> None) \<and>
       (\<forall>(c, v) \<in> set (cfo_NativeTokenPrices co). v \<noteq> None) \<and>
       (\<forall>(c, v) \<in> set (cfo_ChainFeeUpdates co). components_set (cfu_ChainFee v))"
    by auto
qed

lemma chain_fee_usd_set:
  assumes "cfc_ExecutionFee fee \<noteq> None" "cfc_DataAvailabilityFee fee \<noteq> None"
    and "\<And>v. map_of prices c = Some v \<Longrightarrow> v \<noteq> None" and "lib_GetSelectorFamily lib c \<noteq> Panic"
  shows "chain_fee_usd lib prices c fee \<noteq> Panic"
    "chain_fee_usd lib prices c fee = Ok (Some u) \<Longrightarrow> components_set u"
proof -
  have "chain_fee_usd lib prices c fee \<noteq> Panic \<and> (\<forall>u. chain_fee_usd lib prices c fee = Ok (Some u) \<longrightarrow> components_set u)"
  proof (cases "map_of prices c")
    case (Some v)
    then have v: "v \<noteq> None" by (rule assms(3))
    note s = CalculateUsdPerUnitGas_set [OF assms(1) v assms(4)] CalculateUsdPerUnitGas_set [OF assms(2) v assms(4)]
    show ?thesis
      using s(1,3) s(2) [of None] s(4) [of None]
      by (cases "CalculateUsdPerUnitGas lib c (cfc_ExecutionFee fee) v";
          cases "CalculateUsdPerUnitGas lib c (cfc_DataAvailabilityFee fee) v")
        (auto simp: chain_fee_usd_def components_set_def Some)
  qed (simp add: chain_fee_usd_def)
  then show "chain_fee_usd lib prices c fee \<noteq> Panic"
    "chain_fee_usd lib prices c fee = Ok (Some u) \<Longrightarrow> components_set u" by auto
qed

lemma chain_fees_usd_collect:
  assumes "gm_ok fees" and "gm_ok prices"
    and "\<forall>(c, v) \<in> set fees. cfc_ExecutionFee v \<noteq> None \<and> cfc_DataAvailabilityFee v \<noteq> None"
    and "\<forall>(c, v) \<in> set prices. v \<noteq> None" and "\<And>c. lib_GetSelectorFamily lib c \<noteq> Panic"
  shows "\<exists>usd. gm_collect_r (chain_fee_usd lib prices) fees = Ok usd \<and> gm_ok usd \<and>
    (\<forall>(c, u) \<in> set usd. components_set u)"
proof -
  let ?h = "\<lambda>k v. case chain_fee_usd lib prices k v of Ok o1 \<Rightarrow> o1 | _ \<Rightarrow> None"
  have p: "v \<noteq> None" if "map_of prices c = Some v" for c v
    using that assms(2,4) by (auto simp: gm_get_iff)
  have s: "chain_fee_usd lib prices c fee \<noteq> Panic"
      "chain_fee_usd lib prices c fee = Ok (Some u) \<Longrightarrow> components_set u" if "(c, fee) \<in> set fees" for c fee u
    using chain_fee_usd_set [of fee prices c lib] that assms(3,5) p by auto
  have "gm_collect_r (chain_fee_usd lib prices) fees = Ok (gm_collect ?h fees)"
    using s(1) by (subst gm_collect_r_cases) auto
  moreover have "components_set u" if "(c, u) \<in> set (gm_collect ?h fees)" for c u
  proof -
    from that have "map_of (gm_collect ?h fees) c = Some u" by (simp add: gm_get_iff)
    then obtain fee where "(c, fee) \<in> set fees" "chain_fee_usd lib prices c fee = Ok (Some u)"
      using assms(1) by (auto simp: map_of_gm_collect gm_get_iff split: option.splits result.splits)
    then show ?thesis by (rule s(2))
  qed
  ultimately show ?thesis by auto
qed

text \<open>On validated observations the chain fee outcome never panics, provided the destination's own
  configuration has both deviation thresholds set; the prices it returns are sorted by chain, one per
  chain. Two oracles that visit the maps of the observations in different orders compute the same
  outcome over any number of rounds.\<close>

theorem cf_outcome_safe:
  assumes "\<forall>ao \<in> set aos. cf_ValidateObservation p now ao = Ok ()"
    and "\<And>c. lib_GetSelectorFamily lib c \<noteq> Panic"
    and "\<And>cfg. GetChainConfig (cfp_homeChain p) (cfp_destChain p) = Ok cfg \<Longrightarrow>
       cc_GasPriceDeviationPPB (hcc_Config cfg) \<noteq> None \<and> cc_DAGasPriceDeviationPPB (hcc_Config cfg) \<noteq> None"
    and "list_all2 (list_all2 cf_obs_eq) rounds rounds'"
  shows "cf_outcome lib p prev aos \<noteq> Panic \<and>
    (\<forall>out. cf_outcome lib p prev aos = Ok out \<longrightarrow> sorted_wrt (<) (map gp_ChainSel (cfout_GasPrices out))) \<and>
    run_rounds (cf_outcome lib p) prev rounds = run_rounds (cf_outcome lib p) prev rounds'"
proof -
  have "cf_outcome lib p prev aos \<noteq> Panic \<and>
    (\<forall>out. cf_outcome lib p prev aos = Ok out \<longrightarrow> sorted_wrt (<) (map gp_ChainSel (cfout_GasPrices out)))"
  proof (cases "cf_getConsensusObservation lib p aos")
    case Panic
    with cf_consensus_entries(1) [of aos p now lib] assms(1) show ?thesis by simp
  next
    case (Error e)
    then show ?thesis by (simp add: cf_outcome_def)
  next
    case (Ok co)
    note e = cf_consensus_entries(2) [OF _ this, of now]
    from e assms(1,2) chain_fees_usd_collect [of "cfo_FeeComponents co" "cfo_NativeTokenPrices co" lib]
    obtain usd where usd: "gm_collect_r (chain_fee_usd lib (cfo_NativeTokenPrices co)) (cfo_FeeComponents co) = result.Ok usd"
      "gm_ok usd" "\<forall>(c, u) \<in> set usd. components_set u" by auto
    have "\<exists>gps. getGasPricesToUpdate p usd (cfo_ChainFeeUpdates co) (cfo_TimestampNow co) = result.Ok gps \<and> distinct (map gp_ChainSel gps)"
    proof (cases "GetChainConfig (cfp_homeChain p) (cfp_destChain p)")
      case (Ok dcfg)
      then obtain eppb dppb where "cc_GasPriceDeviationPPB (hcc_Config dcfg) = Some eppb" "cc_DAGasPriceDeviationPPB (hcc_Config dcfg) = Some dppb"
        using assms(3) by auto
      moreover have "\<And>c u. map_of (cfo_ChainFeeUpdates co) c = Some u \<Longrightarrow> components_set (cfu_ChainFee u)"
        using e assms(1) by (auto simp: gm_get_iff)
      ultimately show ?thesis
        using getGasPricesToUpdate_eq [OF Ok] usd(2,3) getGasPricesToUpdate_distinct [OF usd(2)] by blast
    qed (auto simp: getGasPricesToUpdate_def)
    then show ?thesis using usd(1) Ok
      by (auto simp: cf_outcome_def strict_sorted_iff distinct_map_sort_key)
  qed
  with cfp.run_det [OF assms(4) refl, unfolded result.rel_eq] show ?thesis by blast
qed

section \<open>Honest observations are valid\<close>

definition fees_ok :: "ChainSelector list \<Rightarrow> (ChainSelector, ChainFeeComponents) gomap \<Rightarrow> bool" where
  "fees_ok supp m \<longleftrightarrow> gm_ok m \<and> (\<forall>(c, v) \<in> set m. c \<in> set supp \<and>
     \<not> nil_or_negative (cfc_ExecutionFee v) \<and> \<not> nil_or_negative (cfc_DataAvailabilityFee v))"

definition prices_ok :: "ChainSelector list \<Rightarrow> (ChainSelector, BigInt) gomap \<Rightarrow> bool" where
  "prices_ok supp m \<longleftrightarrow> gm_ok m \<and> (\<forall>(c, v) \<in> set m. c \<in> set supp \<and> (\<exists>i. v = Some i \<and> 0 < i))"

definition updates_ok :: "bool \<Rightarrow> time \<Rightarrow> (ChainSelector, cf_Update) gomap \<Rightarrow> bool" where
  "updates_ok dest now m \<longleftrightarrow> (m = [] \<or> dest) \<and> (\<forall>(c, u) \<in> set m.
     \<not> nil_or_negative (cup_ExecutionFeePriceUSD (cfu_ChainFee u)) \<and>
     \<not> nil_or_negative (cup_DataAvFeePriceUSD (cfu_ChainFee u)) \<and> cfu_Timestamp u \<noteq> 0 \<and> cfu_Timestamp u \<le> now)"

text \<open>What the observations rely on of the reader: answers about the chains asked for only, fees and packed
  prices that are not negative, positive token prices, and timestamps that are set and not in the future.\<close>

definition fee_reader_honest :: "time \<Rightarrow> ccip_reader \<Rightarrow> bool" where
  "fee_reader_honest now rd \<longleftrightarrow>
     (\<forall>cs. fees_ok cs (rd_GetChainsFeeComponents rd cs) \<and> prices_ok cs (rd_GetWrappedNativeTokenPriceUSD rd cs) \<and>
       gm_ok (rd_GetChainFeePriceUpdate rd cs) \<and> (\<forall>(c, u) \<in> set (rd_GetChainFeePriceUpdate rd cs).
         \<not> nil_or_negative (tb_Value u) \<and> tb_Timestamp u \<noteq> 0 \<and> tb_Timestamp u \<le> now) \<and>
       rd_GetOffRampSourceChainsConfig rd cs \<noteq> Panic)"

lemma fromPackedFee_nonneg:
  assumes "\<not> nil_or_negative v"
  shows "\<exists>c. fromPackedFee v = Ok c \<and> \<not> nil_or_negative (cup_ExecutionFeePriceUSD c) \<and> \<not> nil_or_negative (cup_DataAvFeePriceUSD c)"
  using assms by (auto simp: nil_or_negative_def fromPackedFee_def ones112_mask not_less split: option.splits)

lemma gm_collect_entries:
  "gm_ok m \<Longrightarrow> (k, y) \<in> set (gm_collect f m) \<longleftrightarrow> (\<exists>v. (k, v) \<in> set m \<and> f k v = Some y)"
  by (auto simp: map_of_gm_collect gm_get_iff [symmetric] split: option.splits)

lemma feeUpdates_ok:
  assumes "gm_ok m" and "\<forall>(c, u) \<in> set m. \<not> nil_or_negative (tb_Value u) \<and> tb_Timestamp u \<noteq> 0 \<and> tb_Timestamp u \<le> now"
  shows "\<exists>us. feeUpdatesFromTimestampedBig m = Ok us \<and> updates_ok True now us"
proof -
  define g where "g = (\<lambda>(k :: ChainSelector) (u :: TimestampedBig). Some \<lparr>cfu_ChainFee = (case fromPackedFee (tb_Value u) of Ok c \<Rightarrow> c), cfu_Timestamp = tb_Timestamp u\<rparr>)"
  have v: "\<exists>c. fromPackedFee (tb_Value u) = Ok c \<and> \<not> nil_or_negative (cup_ExecutionFeePriceUSD c) \<and> \<not> nil_or_negative (cup_DataAvFeePriceUSD c)"
    if "(k, u) \<in> set m" for k u
    using fromPackedFee_nonneg assms(2) that by blast
  have "feeUpdatesFromTimestampedBig m = Ok (gm_collect g m)"
    unfolding feeUpdatesFromTimestampedBig_def by (rule gm_collect_r_Ok) (use v in \<open>fastforce simp: g_def\<close>)
  moreover have "updates_ok True now (gm_collect g m)"
    using v assms by (fastforce simp: updates_ok_def gm_collect_entries g_def)
  ultimately show ?thesis by blast
qed

definition base_ok :: "time \<Rightarrow> ChainSelector list \<Rightarrow> bool \<Rightarrow> cf_baseObserver \<Rightarrow> bool" where
  "base_ok now supp dest b \<longleftrightarrow> fee_reader_honest now (cfb_ccipReader b) \<and> SupportedChains (cfb_cs b) (cfb_oracleID b) = Ok supp \<and>
     SupportsDestChain (cfb_cs b) (cfb_oracleID b) = Ok dest \<and> KnownSourceChainsSlice (cfb_cs b) \<noteq> Panic"

lemma fees_ok_mono: "fees_ok cs m \<Longrightarrow> set cs \<subseteq> set cs' \<Longrightarrow> fees_ok cs' m"
  by (auto simp: fees_ok_def)

lemma prices_ok_mono: "prices_ok cs m \<Longrightarrow> set cs \<subseteq> set cs' \<Longrightarrow> prices_ok cs' m"
  by (auto simp: prices_ok_def)

lemma base_observer_ok:
  assumes "base_ok now supp dest b"
  shows "\<exists>m. getChainsFeeComponents b = Ok m \<and> fees_ok supp m"
    "\<exists>m. getNativeTokenPrices b = Ok m \<and> prices_ok supp m"
    "\<exists>m. getChainFeePriceUpdates b = Ok m \<and> updates_ok dest now m"
proof -
  let ?cs = "sort (filter (\<lambda>c. c \<noteq> cfb_destChain b) supp)"
  have s: "getSupportedSourceChains b = Ok ?cs"
    using assms by (simp add: base_ok_def getSupportedSourceChains_def)
  have h: "fees_ok cs (rd_GetChainsFeeComponents (cfb_ccipReader b) cs)"
    "prices_ok cs (rd_GetWrappedNativeTokenPriceUSD (cfb_ccipReader b) cs)" for cs
    using assms by (auto simp: base_ok_def fee_reader_honest_def)
  show "\<exists>m. getChainsFeeComponents b = Ok m \<and> fees_ok supp m"
    using fees_ok_mono [OF h(1) [of ?cs], of supp] by (auto simp: getChainsFeeComponents_def s fees_ok_def)
  show "\<exists>m. getNativeTokenPrices b = Ok m \<and> prices_ok supp m"
    using prices_ok_mono [OF h(2) [of ?cs], of supp] by (auto simp: getNativeTokenPrices_def s)
  have "getEnabledSourceChains b \<noteq> Panic"
    using assms by (auto simp: getEnabledSourceChains_def base_ok_def fee_reader_honest_def rbind_Panic_iff)
  moreover have "\<exists>us. feeUpdatesFromTimestampedBig (rd_GetChainFeePriceUpdate (cfb_ccipReader b) cs) = Ok us \<and> updates_ok True now us" for cs
    using assms by (intro feeUpdates_ok) (auto simp: base_ok_def fee_reader_honest_def)
  moreover have "SupportsDestChain (cfb_cs b) (cfb_oracleID b) = Ok dest" using assms by (simp add: base_ok_def)
  moreover have "updates_ok d now []" for d by (simp add: updates_ok_def)
  ultimately show "\<exists>m. getChainFeePriceUpdates b = Ok m \<and> updates_ok dest now m"
    by (cases "getEnabledSourceChains b"; cases dest) (auto simp: getChainFeePriceUpdates_def)
qed

definition async_ok :: "time \<Rightarrow> ChainSelector list \<Rightarrow> bool \<Rightarrow> cf_asyncObserver \<Rightarrow> bool" where
  "async_ok now supp dest a \<longleftrightarrow> base_ok now supp dest (cfs_baseObserver a) \<and> fees_ok supp (cfs_chainsFeeComponents a) \<and>
     prices_ok supp (cfs_nativeTokenPrices a) \<and> updates_ok dest now (cfs_chainFeePriceUpdates a)"

lemma cf_sync_ok:
  assumes "async_ok now supp dest a"
  shows "\<exists>a'. cf_sync ops a = Ok a' \<and> async_ok now supp dest a'"
  using assms
proof (induction ops arbitrary: a)
  case (Cons op ops)
  have "\<exists>a'. cf_apply_sync_op op a = Ok a' \<and> async_ok now supp dest a'"
    using base_observer_ok [of now supp dest "cfs_baseObserver a"] Cons.prems
    by (cases op) (auto simp: cf_apply_sync_op_def async_ok_def)
  with Cons.IH show ?case by (auto simp: cf_sync_def)
qed (simp add: cf_sync_def)

fun observer_ok :: "time \<Rightarrow> ChainSelector list \<Rightarrow> bool \<Rightarrow> cf_observer \<Rightarrow> bool" where
  "observer_ok now supp dest (CfBase b) = base_ok now supp dest b"
| "observer_ok now supp dest (CfAsync a) = async_ok now supp dest a"

lemma observer_reads_ok:
  assumes "observer_ok now supp dest ob"
  shows "\<exists>m. rbind (observer_sync ops ob) observer_getChainsFeeComponents = Ok m \<and> fees_ok supp m"
    "\<exists>m. rbind (observer_sync ops ob) observer_getNativeTokenPrices = Ok m \<and> prices_ok supp m"
    "\<exists>m. rbind (observer_sync ops ob) observer_getChainFeePriceUpdates = Ok m \<and> updates_ok dest now m"
proof -
  have "\<exists>ob'. observer_sync ops ob = Ok ob' \<and> observer_ok now supp dest ob'"
    using assms cf_sync_ok [of now supp dest _ ops] by (cases ob) force+
  moreover have "(\<exists>m. observer_getChainsFeeComponents ob' = Ok m \<and> fees_ok supp m) \<and>
      (\<exists>m. observer_getNativeTokenPrices ob' = Ok m \<and> prices_ok supp m) \<and>
      (\<exists>m. observer_getChainFeePriceUpdates ob' = Ok m \<and> updates_ok dest now m)" if "observer_ok now supp dest ob'" for ob'
    using that base_observer_ok by (cases ob') (auto simp: async_ok_def)
  ultimately show "\<exists>m. rbind (observer_sync ops ob) observer_getChainsFeeComponents = Ok m \<and> fees_ok supp m"
    "\<exists>m. rbind (observer_sync ops ob) observer_getNativeTokenPrices = Ok m \<and> prices_ok supp m"
    "\<exists>m. rbind (observer_sync ops ob) observer_getChainFeePriceUpdates = Ok m \<and> updates_ok dest now m"
    by force+
qed

lemma observer_invalidate_ok: "observer_ok now supp dest ob \<Longrightarrow> observer_ok now supp dest (observer_invalidateCaches ob)"
  by (cases ob) (auto simp: async_ok_def cf_invalidateCaches_def fees_ok_def prices_ok_def updates_ok_def)

lemma areMapKeysEqual_iff:
  assumes "gm_ok m" "gm_ok m'"
  shows "areMapKeysEqual m m' \<longleftrightarrow> fst ` set m = fst ` set m'"
proof -
  have "length m = card (fst ` set m)" "length m' = card (fst ` set m')"
    using assms distinct_card [of "map fst m"] distinct_card [of "map fst m'"] by (simp_all add: gm_ok_def)
  moreover have "list_all (\<lambda>(key, _). map_of m' key \<noteq> None) m \<longleftrightarrow> fst ` set m \<subseteq> fst ` set m'"
    by (auto simp: list_all_iff map_of_eq_None_iff image_subset_iff case_prod_unfold simp del: not_None_eq)
  ultimately show ?thesis
    unfolding areMapKeysEqual_def using card_subset_eq [of "fst ` set m'" "fst ` set m"] by auto
qed

lemma selectMapKeysInSet_entries:
  "gm_ok m \<Longrightarrow> (k, v) \<in> set (selectMapKeysInSet m s) \<longleftrightarrow> (k, v) \<in> set m \<and> k \<in> set s"
  by (auto simp: selectMapKeysInSet_def gm_collect_entries split: if_splits)

lemma selectMapKeysInSet_keys: "gm_ok m \<Longrightarrow> fst ` set (selectMapKeysInSet m s) = fst ` set m \<inter> set s"
  by (force simp: selectMapKeysInSet_entries)

lemma gm_ok_selectMapKeysInSet [simp]: "gm_ok (selectMapKeysInSet m s)"
  by (simp add: selectMapKeysInSet_def)

lemma cf_ValidateObservation_built:
  assumes "SupportedChains (cfp_chainSupport p) (ao_OracleID ao) = Ok supp" and "ValidateFChain (cfo_FChain obs) = Ok ()"
    and "fees_ok supp (cfo_FeeComponents obs)" and "prices_ok supp (cfo_NativeTokenPrices obs)"
    and "fst ` set (cfo_FeeComponents obs) = fst ` set (cfo_NativeTokenPrices obs)"
    and "updates_ok (cfp_destChain p \<in> set supp) now (cfo_ChainFeeUpdates obs)"
    and "cfo_TimestampNow obs \<noteq> 0" and "cfo_TimestampNow obs \<le> now" and "ao_Observation ao = obs"
  shows "cf_ValidateObservation p now ao = Ok ()"
proof -
  have "areMapKeysEqual (cfo_FeeComponents obs) (cfo_NativeTokenPrices obs)"
    using assms(3-5) by (simp add: areMapKeysEqual_iff fees_ok_def prices_ok_def)
  moreover have "fst ` set (cfo_NativeTokenPrices obs) \<subseteq> set supp" using assms(4) by (auto simp: prices_ok_def)
  ultimately have "validateObservedChains ao supp (cfp_destChain p) = Ok ()"
    using assms(5,6) by (auto simp: validateObservedChains_def Let_def check_all_Ok_iff assms(9) updates_ok_def)
  moreover have "validateFeeComponents ao = Ok ()"
    using assms(3) by (auto simp: validateFeeComponents_def check_all_Ok_iff fees_ok_def assms(9))
  moreover have "validateChainFeeUpdates now ao = Ok ()"
    using assms(6) by (auto simp: validateChainFeeUpdates_def check_all_Ok_iff updates_ok_def assms(9))
  moreover have "check_all (\<lambda>(_, token). case token of None \<Rightarrow> Error (Err ''nil token price'')
       | Some i \<Rightarrow> if i \<le> 0 then Error (Err ''non-positive token price'') else Ok ()) (cfo_NativeTokenPrices obs) = Ok ()"
    using assms(4) by (force simp: check_all_Ok_iff prices_ok_def)
  ultimately show ?thesis
    using assms(1,2,7,8) by (simp add: cf_ValidateObservation_def Let_def assms(9))
qed

text \<open>Whatever the background synchronisation has done, the observation of an oracle whose reader is
  honest exists (nothing panics) and passes \<open>ValidateObservation\<close>: in particular the two fee maps have the
  same keys, and fee updates are only observed by oracles that support the destination.\<close>

theorem cf_honest_observation_valid:
  assumes "poller_reachable r" and "GetChainConfig r dest = Ok dcfg" and "map_of oracles me = Some peer"
    and "fee_reader_honest now rd" and "0 < t" and "t \<le> now"
    and "p = cf_NewProcessor me dest r rd cfg \<lparr>cs_homeChain = Some r, cs_oracleIDToP2PID = oracles, cs_nodeID = me, cs_destChain = dest\<rparr> f"
  shows "\<exists>obs. snd (cf_Observation_method p invalidate ops1 ops2 ops3 t) = Ok obs \<and>
    cf_ValidateObservation p now \<lparr>ao_OracleID = me, ao_Observation = obs\<rparr> = Ok ()"
proof -
  have inv: "poller_inv r" using poller_reachable_inv [OF assms(1)] by simp
  obtain fc where fc: "GetFChain r = Ok fc" "ValidateFChain fc = Ok ()" using GetFChain_valid [OF assms(1)] by blast
  obtain cs where cs: "GetSupportedChainsForPeer r peer = Ok cs" "dest \<in> set cs \<longleftrightarrow> peer \<in> set (hcc_SupportedNodes dcfg)"
    using hc.supports_iff [OF inv assms(2)] by blast
  let ?s = "\<lparr>cs_homeChain = Some r, cs_oracleIDToP2PID = oracles, cs_nodeID = me, cs_destChain = dest\<rparr>"
  have s: "SupportedChains ?s me = Ok cs" "SupportsDestChain ?s me = Ok (dest \<in> set cs)"
    using assms(2,3) cs by (simp_all add: SupportedChains_def SupportsDestChain_def)
  have "KnownSourceChainsSlice ?s \<noteq> Panic"
    by (auto simp: KnownSourceChainsSlice_def GetKnownCCIPChains_def)
  then have "observer_ok now cs (dest \<in> set cs) (cfp_obs p)"
    using assms(4) s by (simp add: assms(7) cf_NewProcessor_def Let_def async_ok_def base_ok_def fees_ok_def prices_ok_def updates_ok_def)
  then have ob: "observer_ok now cs (dest \<in> set cs) (cfp_obs (if invalidate then p\<lparr>cfp_obs := observer_invalidateCaches (cfp_obs p)\<rparr> else p))"
    (is "observer_ok _ _ _ (cfp_obs ?p)")
    by (simp add: observer_invalidate_ok)
  obtain m1 where m1: "rbind (observer_sync ops1 (cfp_obs ?p)) observer_getChainsFeeComponents = Ok m1" "fees_ok cs m1"
    using observer_reads_ok(1) [OF ob, of ops1] by blast
  obtain m2 where m2: "rbind (observer_sync ops2 (cfp_obs ?p)) observer_getNativeTokenPrices = Ok m2" "prices_ok cs m2"
    using observer_reads_ok(2) [OF ob, of ops2] by blast
  obtain m3 where m3: "rbind (observer_sync ops3 (cfp_obs ?p)) observer_getChainFeePriceUpdates = Ok m3" "updates_ok (dest \<in> set cs) now m3"
    using observer_reads_ok(3) [OF ob, of ops3] by blast
  let ?k = "filter (\<lambda>c. c \<in> set (mapset_of (map fst m2))) (mapset_of (map fst m1))"
  have f: "cf_observeFChain ?p = Ok fc" using fc(1) by (simp add: cf_observeFChain_def assms(7) cf_NewProcessor_def Let_def)
  have sel: "fees_ok cs (selectMapKeysInSet m1 ?k)" "prices_ok cs (selectMapKeysInSet m2 ?k)"
    "fst ` set (selectMapKeysInSet m1 ?k) = fst ` set (selectMapKeysInSet m2 ?k)"
    using m1(2) m2(2) by (auto simp: fees_ok_def prices_ok_def selectMapKeysInSet_keys selectMapKeysInSet_entries)
  have "\<exists>obs. snd (cf_Observation_method p invalidate ops1 ops2 ops3 t) = Ok obs \<and> cfo_FChain obs = fc \<and> cfo_TimestampNow obs = t \<and>
     cfo_ChainFeeUpdates obs = m3 \<and> fees_ok cs (cfo_FeeComponents obs) \<and> prices_ok cs (cfo_NativeTokenPrices obs) \<and>
     fst ` set (cfo_FeeComponents obs) = fst ` set (cfo_NativeTokenPrices obs)"
    using sel by (auto simp: cf_Observation_method_def Let_def m1(1) m2(1) m3(1) f fees_ok_def prices_ok_def)
  then obtain obs where "snd (cf_Observation_method p invalidate ops1 ops2 ops3 t) = Ok obs" "cfo_FChain obs = fc" "cfo_TimestampNow obs = t"
     "cfo_ChainFeeUpdates obs = m3" "fees_ok cs (cfo_FeeComponents obs)" "prices_ok cs (cfo_NativeTokenPrices obs)"
     "fst ` set (cfo_FeeComponents obs) = fst ` set (cfo_NativeTokenPrices obs)" by blast
  with s(1) fc(2) m3(2) assms(5,6) show ?thesis
    by (intro exI [of _ obs] conjI cf_ValidateObservation_built [where supp = cs and obs = obs])
      (simp_all add: assms(7) cf_NewProcessor_def Let_def)
qed

section \<open>Instances\<close>

definition sample_fee_reader :: ccip_reader where
  "sample_fee_reader = \<lparr>
     rd_GetRmnCurseInfo = Error (Err ''unused''), rd_NextSeqNum = (\<lambda>_. Ok []),
     rd_GetOffRampSourceChainsConfig = (\<lambda>cs. Ok (map (\<lambda>c. (c, \<lparr>ssc_Router = [], ssc_IsEnabled = True,
        ssc_IsRMNVerificationDisabled = True, ssc_OnRamp = [1]\<rparr>)) (remdups cs))),
     rd_LatestMsgSeqNum = (\<lambda>_. Ok 0), rd_MsgsBetweenSeqNums = (\<lambda>_ _. Ok []), rd_GetContractAddress = (\<lambda>_ _. Ok [1]),
     rd_GetLatestPriceSeqNr = Ok 0, rd_GetOffRampConfigDigest = (\<lambda>_. Ok [0]),
     rd_GetChainsFeeComponents = (\<lambda>cs. map (\<lambda>c. (c, \<lparr>cfc_ExecutionFee = Some (10 ^ 10), cfc_DataAvailabilityFee = Some 0\<rparr>)) (remdups cs)),
     rd_GetWrappedNativeTokenPriceUSD = (\<lambda>cs. map (\<lambda>c. (c, Some (2 * 10 ^ 18))) (remdups cs)),
     rd_GetChainFeePriceUpdate = (\<lambda>cs. map (\<lambda>c. (c, \<lparr>tb_Timestamp = 100, tb_Value = Some (10 ^ 10)\<rparr>)) (remdups cs)),
     rd_DiscoverContracts = (\<lambda>_ _. Ok [])\<rparr>"

definition sample_cf_processor :: "bool \<Rightarrow> cf_processor" where
  "sample_cf_processor async = cf_NewProcessor 3 5 sample_poller2 sample_fee_reader
     (sample_commit_config\<lparr>coc_RemoteGasPriceBatchWriteFrequency := 60, coc_ChainFeeAsyncObserverDisabled := \<not> async\<rparr>)
     sample_support2 0"

lemma sample_fee_reader_honest: "fee_reader_honest 150 sample_fee_reader"
  by (auto simp: fee_reader_honest_def fees_ok_def prices_ok_def sample_fee_reader_def nil_or_negative_def gm_ok_def comp_def)

text \<open>The observation of the sample oracle after a full synchronisation.\<close>

definition sample_cf_obs :: cf_Observation where
  "sample_cf_obs = \<lparr>cfo_FeeComponents = [(7, \<lparr>cfc_ExecutionFee = Some (10 ^ 10), cfc_DataAvailabilityFee = Some 0\<rparr>)],
     cfo_NativeTokenPrices = [(7, Some (2 * 10 ^ 18))],
     cfo_ChainFeeUpdates = [(7, \<lparr>cfu_ChainFee = \<lparr>cup_ExecutionFeePriceUSD = Some (10 ^ 10), cup_DataAvFeePriceUSD = Some 0\<rparr>, cfu_Timestamp = 100\<rparr>)],
     cfo_FChain = [(5, 1), (7, 1)], cfo_TimestampNow = 120\<rparr>"

lemma sample_cf_obs_eq:
  "snd (cf_Observation_method (sample_cf_processor True) True [SyncFeeComponents] [SyncNativePrices] [SyncFeeUpdates] 120)
     = Ok sample_cf_obs"
  by code_simp

theorem cf_honest_observation_valid_witness:
  "cf_ValidateObservation (sample_cf_processor True) 150 \<lparr>ao_OracleID = 3, ao_Observation = sample_cf_obs\<rparr> = Ok ()"
proof -
  obtain cfg where "GetChainConfig sample_poller2 5 = Ok cfg" using sample_config5 ..
  from cf_honest_observation_valid [OF sample_poller2_reachable this, of "[(3, [2])]" 3 "[2]" 150 sample_fee_reader 120,
      where invalidate = True and ?ops1.0 = "[SyncFeeComponents]" and ?ops2.0 = "[SyncNativePrices]" and ?ops3.0 = "[SyncFeeUpdates]",
      OF _ sample_fee_reader_honest _ _ sample_cf_processor_def [of True, unfolded sample_support2_def]]
  show ?thesis by (simp add: sample_cf_obs_eq)
qed

theorem getGasPricesToUpdate_spec_witness:
  "\<exists>gps. getGasPricesToUpdate (sample_cf_processor True)
     [(7, \<lparr>cup_ExecutionFeePriceUSD = Some (2 * 10 ^ 10), cup_DataAvFeePriceUSD = Some 3\<rparr>)] [] 120 = Ok gps \<and>
     \<lparr>gp_ChainSel = 7, gp_GasPrice = Some (3 * 2 ^ 112 + 2 * 10 ^ 10)\<rparr> \<in> set gps"
proof -
  have c: "GetChainConfig (cfp_homeChain (sample_cf_processor True)) c = Ok
      \<lparr>hcc_FChain = 1, hcc_SupportedNodes = [[1], [2]], hcc_Config = \<lparr>cc_GasPriceDeviationPPB = Some 1, cc_DAGasPriceDeviationPPB = Some 1,
     cc_OptimisticConfirmations = 0, cc_ChainFeeDeviationDisabled = False\<rparr>\<rparr>" if "c = 5 \<or> c = 7" for c
    using that by (elim disjE) (hypsubst, code_simp)+
  have p: "FeeComponentsToPackedFee \<lparr>cup_ExecutionFeePriceUSD = Some (2 * 10 ^ 10), cup_DataAvFeePriceUSD = Some 3\<rparr>
      = Ok (Some (3 * 2 ^ 112 + 2 * 10 ^ 10))" by code_simp
  have "cfp_destChain (sample_cf_processor True) = 5" by code_simp
  with c p getGasPricesToUpdate_spec [of "sample_cf_processor True" _ 1 1
      "[(7, \<lparr>cup_ExecutionFeePriceUSD = Some (2 * 10 ^ 10), cup_DataAvFeePriceUSD = Some 3\<rparr>)]" "[]" 120]
  show ?thesis by (auto simp: gm_ok_def components_set_def fee_update_due_def)
qed

theorem cf_outcome_safe_witness:
  "cf_outcome sample_lib (sample_cf_processor True) \<lparr>cfout_GasPrices = []\<rparr>
     (replicate 3 \<lparr>ao_OracleID = 3, ao_Observation = sample_cf_obs\<rparr>) \<noteq> Panic \<and>
   cf_outcome sample_lib (sample_cf_processor True) \<lparr>cfout_GasPrices = []\<rparr>
     (replicate 3 \<lparr>ao_OracleID = 3, ao_Observation = sample_cf_obs\<rparr>)
     = Ok \<lparr>cfout_GasPrices = [\<lparr>gp_ChainSel = 7, gp_GasPrice = Some (2 * 10 ^ 10)\<rparr>]\<rparr>"
proof -
  have v: "cf_ValidateObservation (sample_cf_processor True) 150 \<lparr>ao_OracleID = 3, ao_Observation = sample_cf_obs\<rparr> = Ok ()"
    by code_simp
  have c: "GetChainConfig (cfp_homeChain (sample_cf_processor True)) (cfp_destChain (sample_cf_processor True)) = Ok
      \<lparr>hcc_FChain = 1, hcc_SupportedNodes = [[1], [2]], hcc_Config = \<lparr>cc_GasPriceDeviationPPB = Some 1, cc_DAGasPriceDeviationPPB = Some 1,
     cc_OptimisticConfirmations = 0, cc_ChainFeeDeviationDisabled = False\<rparr>\<rparr>"
    by code_simp
  have o: "cf_outcome sample_lib (sample_cf_processor True) \<lparr>cfout_GasPrices = []\<rparr>
     (replicate 3 \<lparr>ao_OracleID = 3, ao_Observation = sample_cf_obs\<rparr>)
     = Ok \<lparr>cfout_GasPrices = [\<lparr>gp_ChainSel = 7, gp_GasPrice = Some (2 * 10 ^ 10)\<rparr>]\<rparr>"
    by code_simp
  from cf_outcome_safe [of "replicate 3 \<lparr>ao_OracleID = 3, ao_Observation = sample_cf_obs\<rparr>" "sample_cf_processor True" 150
      sample_lib "[]" "[]" "\<lparr>cfout_GasPrices = []\<rparr>"] v c o
  show ?thesis by (simp add: sample_lib_def)
qed

end
