(* ===== verification/TokenPrice.thy ===== *)
theory TokenPrice
  imports PluginCommon CommitConfig
begin

text \<open>
  The token price processor of the commit plugin (commit/tokenprice): observers, observation, validation
  and outcome. The interface \<open>PriceReader\<close> is the record \<open>price_reader\<close> of its answers; a nil reader is
  \<open>None\<close>. The lemmas show exactly which token prices an outcome updates, that the outcome does not depend
  on map order, that it cannot panic on validated observations, and that an agreed price is within the
  range of the honest ones.
\<close>

section \<open>types.go\<close>

record tk_Outcome =
  tko_TokenPrices :: TokenPriceMap

record tk_Observation =
  tkb_FeedTokenPrices :: TokenPriceMap
  tkb_FeeQuoterTokenUpdates :: "(UnknownEncodedAddress, TimestampedBig) gomap"
  tkb_FChain :: "(ChainSelector, int) gomap"
  tkb_Timestamp :: time

type_synonym tk_ao = "tk_Observation AttributedObservation"

definition tk_Observation_IsEmpty :: "tk_Observation \<Rightarrow> bool" where
  "tk_Observation_IsEmpty ob =
     (tkb_FeedTokenPrices ob = [] \<and> tkb_FeeQuoterTokenUpdates ob = [] \<and> tkb_FChain ob = [] \<and> tkb_Timestamp ob = 0)"

record tk_AggregateObservation =
  tka_FeedTokenPrices :: "(UnknownEncodedAddress, TokenPrice list) gomap"
  tka_FeeQuoterTokenUpdates :: "(UnknownEncodedAddress, TimestampedBig list) gomap"
  tka_FChain :: "(ChainSelector, int list) gomap"
  tka_Timestamps :: "time list"

record tk_ConsensusObservation =
  tkc_FeedTokenPrices :: "(UnknownEncodedAddress, TokenPrice) gomap"
  tkc_FeeQuoterTokenUpdates :: "(UnknownEncodedAddress, TimestampedBig) gomap"
  tkc_FChain :: "(ChainSelector, int) gomap"
  tkc_Timestamp :: time

section \<open>The observers\<close>

record price_reader =
  pr_GetFeedPricesUSD :: "UnknownEncodedAddress list \<Rightarrow> TokenPriceMap result"
  pr_GetFeeQuoterTokenUpdates ::
    "UnknownEncodedAddress list \<Rightarrow> ChainSelector \<Rightarrow> (UnknownEncodedAddress, TimestampedBig) gomap result"

record tk_baseObserver =
  tkbo_oracleID :: OracleID
  tkbo_tokenPriceReader :: "price_reader option"
  tkbo_chainSupport :: ccipChainSupport
  tkbo_offChainCfg :: CommitOffchainConfig
  tkbo_destChain :: ChainSelector

text \<open>A call whose error is logged and answered with an empty map.\<close>

definition or_empty :: "('k, 'v) gomap result \<Rightarrow> ('k, 'v) gomap result" where
  "or_empty r = (case r of Panic \<Rightarrow> Panic | Error _ \<Rightarrow> Ok [] | Ok m \<Rightarrow> Ok m)"

definition observeFeedTokenPrices :: "tk_baseObserver \<Rightarrow> TokenPriceMap result" where
  "observeFeedTokenPrices b =
     (case tkbo_tokenPriceReader b of
        None \<Rightarrow> Ok []
      | Some rd \<Rightarrow>
          (case SupportedChains (tkbo_chainSupport b) (tkbo_oracleID b) of
             Panic \<Rightarrow> Panic
           | Error _ \<Rightarrow> Ok []
           | Ok supportedChains \<Rightarrow>
               if coc_PriceFeedChainSelector (tkbo_offChainCfg b) \<notin> set supportedChains then Ok []
               else or_empty (pr_GetFeedPricesUSD rd (map fst (coc_TokenInfo (tkbo_offChainCfg b))))))"

definition observeFeeQuoterTokenUpdates ::
  "tk_baseObserver \<Rightarrow> (UnknownEncodedAddress, TimestampedBig) gomap result" where
  "observeFeeQuoterTokenUpdates b =
     (case tkbo_tokenPriceReader b of
        None \<Rightarrow> Ok []
      | Some rd \<Rightarrow>
          (case SupportsDestChain (tkbo_chainSupport b) (tkbo_oracleID b) of
             Panic \<Rightarrow> Panic
           | Error _ \<Rightarrow> Ok []
           | Ok supportsDestChain \<Rightarrow>
               if \<not> supportsDestChain then Ok []
               else
               (case pr_GetFeeQuoterTokenUpdates rd (sort (map fst (coc_TokenInfo (tkbo_offChainCfg b)))) (tkbo_destChain b) of
                  Panic \<Rightarrow> Panic
                | Error _ \<Rightarrow> Ok []
                | Ok priceUpdates \<Rightarrow>
                    Ok (gm_collect (\<lambda>_ u. Some \<lparr>tb_Timestamp = tb_Timestamp u, tb_Value = tb_Value u\<rparr>) priceUpdates))))"

record tk_asyncObserver =
  tkas_base :: tk_baseObserver
  tkas_tokenPriceMap :: TokenPriceMap
  tkas_tokenUpdates :: "(UnknownEncodedAddress, TimestampedBig) gomap"

text \<open>The two operations of \<open>sync\<close> run concurrently and each writes its own cache under the lock; a
  history of synchronisations is a list of them.\<close>

datatype tk_sync_op = SyncFeedPrices | SyncTokenUpdates

definition tk_apply_sync_op :: "tk_sync_op \<Rightarrow> tk_asyncObserver \<Rightarrow> tk_asyncObserver result" where
  "tk_apply_sync_op op a =
     (case op of
        SyncFeedPrices \<Rightarrow> rbind (observeFeedTokenPrices (tkas_base a)) (\<lambda>m. Ok (a\<lparr>tkas_tokenPriceMap := m\<rparr>))
      | SyncTokenUpdates \<Rightarrow>
          rbind (observeFeeQuoterTokenUpdates (tkas_base a)) (\<lambda>m. Ok (a\<lparr>tkas_tokenUpdates := m\<rparr>)))"

definition tk_sync :: "tk_sync_op list \<Rightarrow> tk_asyncObserver \<Rightarrow> tk_asyncObserver result" where
  "tk_sync ops a = fold (\<lambda>op r. rbind r (tk_apply_sync_op op)) ops (Ok a)"

definition tk_invalidateCaches :: "tk_asyncObserver \<Rightarrow> tk_asyncObserver" where
  "tk_invalidateCaches a = a\<lparr>tkas_tokenPriceMap := [], tkas_tokenUpdates := []\<rparr>"

datatype tk_observer = TkBase tk_baseObserver | TkAsync tk_asyncObserver

fun tk_observer_prices :: "tk_observer \<Rightarrow> TokenPriceMap result" where
  "tk_observer_prices (TkBase b) = observeFeedTokenPrices b"
| "tk_observer_prices (TkAsync a) = Ok (tkas_tokenPriceMap a)"

fun tk_observer_updates :: "tk_observer \<Rightarrow> (UnknownEncodedAddress, TimestampedBig) gomap result" where
  "tk_observer_updates (TkBase b) = observeFeeQuoterTokenUpdates b"
| "tk_observer_updates (TkAsync a) = Ok (tkas_tokenUpdates a)"

fun tk_observer_invalidateCaches :: "tk_observer \<Rightarrow> tk_observer" where
  "tk_observer_invalidateCaches (TkBase b) = TkBase b"
| "tk_observer_invalidateCaches (TkAsync a) = TkAsync (tk_invalidateCaches a)"

fun tk_observer_sync :: "tk_sync_op list \<Rightarrow> tk_observer \<Rightarrow> tk_observer result" where
  "tk_observer_sync ops (TkBase b) = Ok (TkBase b)"
| "tk_observer_sync ops (TkAsync a) = rbind (tk_sync ops a) (\<lambda>a. Ok (TkAsync a))"

section \<open>processor.go\<close>

record tk_processor =
  tkp_oracleID :: OracleID
  tkp_offChainCfg :: CommitOffchainConfig
  tkp_destChain :: ChainSelector
  tkp_chainSupport :: ccipChainSupport
  tkp_homeChain :: homeChainPoller
  tkp_fRoleDON :: int
  tkp_obs :: tk_observer

definition tk_NewProcessor ::
  "OracleID \<Rightarrow> CommitOffchainConfig \<Rightarrow> ChainSelector \<Rightarrow> ccipChainSupport \<Rightarrow> price_reader option \<Rightarrow> homeChainPoller \<Rightarrow> int
     \<Rightarrow> tk_processor" where
  "tk_NewProcessor oracleID offChainCfg destChain chainSupport tokenPriceReader homeChain fRoleDON =
     (let baseObs = \<lparr>tkbo_oracleID = oracleID, tkbo_tokenPriceReader = tokenPriceReader, tkbo_chainSupport = chainSupport,
                     tkbo_offChainCfg = offChainCfg, tkbo_destChain = destChain\<rparr>
      in \<lparr>tkp_oracleID = oracleID, tkp_offChainCfg = offChainCfg, tkp_destChain = destChain, tkp_chainSupport = chainSupport,
          tkp_homeChain = homeChain, tkp_fRoleDON = fRoleDON,
          tkp_obs = (if \<not> coc_TokenPriceAsyncObserverDisabled offChainCfg
                     then TkAsync \<lparr>tkas_base = baseObs, tkas_tokenPriceMap = [], tkas_tokenUpdates = []\<rparr>
                     else TkBase baseObs)\<rparr>)"

definition tk_observeFChain :: "tk_processor \<Rightarrow> (ChainSelector, int) gomap result" where
  "tk_observeFChain p = or_empty (GetFChain (tkp_homeChain p))"

text \<open>\<open>Observation\<close>; \<open>ops1\<close> and \<open>ops2\<close> are the synchronisations that took effect before the two reads.\<close>

definition tk_Observation_method ::
  "tk_processor \<Rightarrow> bool \<Rightarrow> tk_sync_op list \<Rightarrow> tk_sync_op list \<Rightarrow> time \<Rightarrow> tk_processor \<times> tk_Observation result" where
  "tk_Observation_method p invalidateCache ops1 ops2 now =
     (let p = (if invalidateCache then p\<lparr>tkp_obs := tk_observer_invalidateCaches (tkp_obs p)\<rparr> else p) in
      (p,
       rbind (rbind (tk_observer_sync ops1 (tkp_obs p)) tk_observer_prices) (\<lambda>feedTokenPrices.
       rbind (rbind (tk_observer_sync ops2 (tkp_obs p)) tk_observer_updates) (\<lambda>feeQuoterUpdates.
       rbind (tk_observeFChain p) (\<lambda>fChain.
         Ok \<lparr>tkb_FeedTokenPrices = feedTokenPrices, tkb_FeeQuoterTokenUpdates = feeQuoterUpdates,
             tkb_FChain = fChain, tkb_Timestamp = now\<rparr>)))))"

section \<open>validate\_observation.go\<close>

definition validateObservedTokenPrices ::
  "ccip_lib \<Rightarrow> TokenPriceMap \<Rightarrow> (UnknownEncodedAddress, TokenInfo) gomap \<Rightarrow> unit result" where
  "validateObservedTokenPrices lib tokenPrices tokensToQuery =
     check_all (\<lambda>(tokenID, price).
       if map_of tokensToQuery tokenID = None then Error (Err ''observed token is not in the list of tokens to query'')
       else if \<not> lib_IsPositive lib price then Error (Err ''non positive value for token price'')
       else Ok ()) tokenPrices"

definition validateObservedTokenUpdates ::
  "ccip_lib \<Rightarrow> time \<Rightarrow> (UnknownEncodedAddress, TimestampedBig) gomap \<Rightarrow> (UnknownEncodedAddress, TokenInfo) gomap
     \<Rightarrow> unit result" where
  "validateObservedTokenUpdates lib now tokenUpdates tokensToQuery =
     check_all (\<lambda>(tokenID, update).
       if map_of tokensToQuery tokenID = None then Error (Err ''observed token is not in the list of tokens to query'')
       else if \<not> lib_IsPositive lib (tb_Value update) then Error (Err ''non positive value for token update'')
       else if tb_Timestamp update = 0 \<or> now < tb_Timestamp update
       then Error (Err ''token update must have a timestamp in the past that is not 0'')
       else Ok ()) tokenUpdates"

definition tk_ValidateObservation :: "ccip_lib \<Rightarrow> tk_processor \<Rightarrow> time \<Rightarrow> tk_ao \<Rightarrow> unit result" where
  "tk_ValidateObservation lib p now ao =
     (let obs = ao_Observation ao in
      if tk_Observation_IsEmpty obs then Ok ()
      else
      rbind (wrap_err ''failed to validate FChain'' (ValidateFChain (tkb_FChain obs))) (\<lambda>_.
      rbind (wrap_err ''failed to get supported chains'' (SupportedChains (tkp_chainSupport p) (ao_OracleID ao))) (\<lambda>supportedChains.
      if tkb_FeedTokenPrices obs \<noteq> [] \<and> coc_PriceFeedChainSelector (tkp_offChainCfg p) \<notin> set supportedChains
      then Error (Err ''feed chain must be supported to read feed token prices'')
      else
      rbind (wrap_err ''failed to validate observed token prices''
              (validateObservedTokenPrices lib (tkb_FeedTokenPrices obs) (coc_TokenInfo (tkp_offChainCfg p)))) (\<lambda>_.
      if tkb_FeeQuoterTokenUpdates obs \<noteq> [] \<and> tkp_destChain p \<notin> set supportedChains
      then Error (Err ''dest chain must be supported to read fee quoter token updates'')
      else
      rbind (wrap_err ''failed to validate observed fee quoter token updates''
              (validateObservedTokenUpdates lib now (tkb_FeeQuoterTokenUpdates obs) (coc_TokenInfo (tkp_offChainCfg p)))) (\<lambda>_.
      if tkb_Timestamp obs = 0 \<or> now < tkb_Timestamp obs then Error (Err ''invalid timestamp value'')
      else Ok ())))))"

section \<open>outcome.go\<close>

definition tk_aggregateObservations :: "tk_ao list \<Rightarrow> tk_AggregateObservation" where
  "tk_aggregateObservations aos =
     (let obs = map ao_Observation aos in
      \<lparr>tka_FeedTokenPrices = group_maps (map (\<lambda>ob. map (\<lambda>(tokenID, price).
         (tokenID, \<lparr>tp_TokenID = tokenID, tp_Price = price\<rparr>)) (tkb_FeedTokenPrices ob)) obs),
       tka_FeeQuoterTokenUpdates = group_maps (map tkb_FeeQuoterTokenUpdates obs),
       tka_FChain = group_maps (map tkb_FChain obs),
       tka_Timestamps = map tkb_Timestamp obs\<rparr>)"

definition TokenPrice_zero :: TokenPrice where
  "TokenPrice_zero = \<lparr>tp_TokenID = [], tp_Price = None\<rparr>"

definition tk_getConsensusObservation ::
  "ccip_lib \<Rightarrow> tk_processor \<Rightarrow> tk_ao list \<Rightarrow> tk_ConsensusObservation result" where
  "tk_getConsensusObservation lib p aos =
     (let aggObs = tk_aggregateObservations aos;
          donThresh = MakeConstantThreshold (TwoFPlus1 (tkp_fRoleDON p));
          fChains = GetConsensusMap (lib_sum_int lib) (tka_FChain aggObs) donThresh
      in case map_of fChains (tkp_destChain p) of
           None \<Rightarrow> Error (Err ''no consensus value for fDestChain'')
         | Some fDestChain \<Rightarrow>
             if LtTwoFPlusOne fDestChain (int (length (tka_Timestamps aggObs)))
             then Error (Err ''not enough observations for timestamps to reach consensus'')
             else
             rbind (Median 0 Some (tka_Timestamps aggObs)) (\<lambda>timestamp.
             case map_of fChains (coc_PriceFeedChainSelector (tkp_offChainCfg p)) of
               None \<Rightarrow> Error (Err ''no consensus value for f for FeedChain'')
             | Some fFeedChain \<Rightarrow>
                 rbind (GetConsensusMapAggregator (tka_FeedTokenPrices aggObs)
                          (MakeConstantThreshold (TwoFPlus1 fFeedChain)) (Median TokenPrice_zero TokenPriceMedianKey)) (\<lambda>feedPricesConsensus.
                 rbind (GetConsensusMapAggregator (tka_FeeQuoterTokenUpdates aggObs)
                          (MakeConstantThreshold (TwoFPlus1 fDestChain)) TimestampedBigAggregator) (\<lambda>feeQuoterUpdatesConsensus.
                   Ok \<lparr>tkc_FeedTokenPrices = feedPricesConsensus, tkc_FeeQuoterTokenUpdates = feeQuoterUpdatesConsensus,
                       tkc_FChain = fChains, tkc_Timestamp = timestamp\<rparr>))))"

text \<open>The body of the loop of \<open>selectTokensForUpdate\<close> for one token: the price it writes, if any.\<close>

definition token_update ::
  "tk_processor \<Rightarrow> (UnknownEncodedAddress, TimestampedBig) gomap \<Rightarrow> time \<Rightarrow> UnknownEncodedAddress \<Rightarrow> TokenPrice
     \<Rightarrow> BigInt option result" where
  "token_update p feeQuoterUpdates timestamp token feedPrice =
     (case map_of feeQuoterUpdates token of
        None \<Rightarrow> Ok (Some (tp_Price feedPrice))
      | Some lastUpdate \<Rightarrow>
          (case map_of (coc_TokenInfo (tkp_offChainCfg p)) token of
             None \<Rightarrow> Ok None
           | Some ti \<Rightarrow>
               (let nextUpdateTime = tb_Timestamp lastUpdate + coc_TokenPriceBatchWriteFrequency (tkp_offChainCfg p) in
                case ti_DeviationPPB ti of
                  None \<Rightarrow> Panic
                | Some ppb \<Rightarrow>
                    rbind (Deviates (tp_Price feedPrice) (tb_Value lastUpdate) (s64 ppb)) (\<lambda>priceDeviates.
                      let heartbeatPassed = nextUpdateTime < timestamp
                      in if heartbeatPassed then Ok (Some (tp_Price feedPrice))
                         else if priceDeviates then Ok (Some (tp_Price feedPrice))
                         else Ok None))))"

definition selectTokensForUpdate :: "tk_processor \<Rightarrow> tk_ConsensusObservation \<Rightarrow> TokenPriceMap result" where
  "selectTokensForUpdate p obs =
     gm_collect_r (token_update p (tkc_FeeQuoterTokenUpdates obs) (tkc_Timestamp obs)) (tkc_FeedTokenPrices obs)"

text \<open>\<open>tk_outcome\<close> is what \<open>Outcome\<close> computes once the caches are dealt with.\<close>

definition tk_outcome :: "ccip_lib \<Rightarrow> tk_processor \<Rightarrow> tk_Outcome \<Rightarrow> tk_ao list \<Rightarrow> tk_Outcome result" where
  "tk_outcome lib p _ aos =
     (if coc_TokenPriceBatchWriteFrequency (tkp_offChainCfg p) = 0 then Ok \<lparr>tko_TokenPrices = []\<rparr>
      else
      rbind (wrap_err ''get consensus observation'' (tk_getConsensusObservation lib p aos)) (\<lambda>consensusObservation.
      rbind (selectTokensForUpdate p consensusObservation) (\<lambda>tokenPriceOutcome.
        if tokenPriceOutcome = [] then Ok \<lparr>tko_TokenPrices = []\<rparr>
        else Ok \<lparr>tko_TokenPrices = tokenPriceOutcome\<rparr>)))"

definition tk_Outcome_method ::
  "ccip_lib \<Rightarrow> tk_processor \<Rightarrow> bool \<Rightarrow> tk_Outcome \<Rightarrow> tk_ao list \<Rightarrow> tk_processor \<times> tk_Outcome result" where
  "tk_Outcome_method lib p invalidateCache prev aos =
     (let p = (if invalidateCache then p\<lparr>tkp_obs := tk_observer_invalidateCaches (tkp_obs p)\<rparr> else p)
      in (p, tk_outcome lib p prev aos))"

section \<open>Which token prices are updated\<close>

lemma or_empty_not_Error [simp]: "or_empty r \<noteq> Error e"
  by (simp add: or_empty_def split: result.splits)

lemma token_update_not_Error [simp]: "token_update p us t token fp \<noteq> Error e"
  by (auto simp: token_update_def Let_def rbind_Error_iff split: option.splits)

lemma token_update_Some: "token_update p us t token fp = Ok (Some v) \<Longrightarrow> v = tp_Price fp"
  by (auto simp: token_update_def Let_def rbind_Ok_iff split: option.splits if_splits)

definition token_update_due ::
  "tk_processor \<Rightarrow> (UnknownEncodedAddress, TimestampedBig) gomap \<Rightarrow> time \<Rightarrow> UnknownEncodedAddress \<Rightarrow> int \<Rightarrow> bool" where
  "token_update_due p us now token price =
     (case map_of us token of
        None \<Rightarrow> True
      | Some u \<Rightarrow>
          (case map_of (coc_TokenInfo (tkp_offChainCfg p)) token of
             None \<Rightarrow> False
           | Some ti \<Rightarrow>
               tb_Timestamp u + coc_TokenPriceBatchWriteFrequency (tkp_offChainCfg p) < now \<or>
               deviates_int price (the (tb_Value u)) (s64 (the (ti_DeviationPPB ti)))))"

definition deviations_set :: "CommitOffchainConfig \<Rightarrow> bool" where
  "deviations_set cfg \<longleftrightarrow> (\<forall>(token, ti) \<in> set (coc_TokenInfo cfg). ti_DeviationPPB ti \<noteq> None)"

lemma token_update_eq:
  assumes "tp_Price fp = Some v" and "\<And>u. map_of us token = Some u \<Longrightarrow> tb_Value u \<noteq> None"
    and "deviations_set (tkp_offChainCfg p)"
  shows "token_update p us t token fp = Ok (if token_update_due p us t token v then Some (Some v) else None)"
proof (cases "map_of us token")
  case (Some u)
  show ?thesis
  proof (cases "map_of (coc_TokenInfo (tkp_offChainCfg p)) token")
    case (Some ti)
    then have "ti_DeviationPPB ti \<noteq> None" using assms(3) by (auto simp: deviations_set_def dest!: map_of_SomeD)
    with Some \<open>map_of us token = Some u\<close> assms(1) assms(2) [of u] show ?thesis
      by (auto simp: token_update_def token_update_due_def Deviates_def Let_def)
  qed (simp add: token_update_def token_update_due_def Some)
qed (simp add: token_update_def token_update_due_def assms(1))

text \<open>The token prices selected for update are exactly the agreed feed prices of the tokens that have no price
  on the fee quoter, or that are configured and whose price there is older than the write frequency or
  deviates by more than the token's threshold; a price is selected unchanged.\<close>

theorem selectTokensForUpdate_spec:
  assumes "gm_ok (tkc_FeedTokenPrices obs)" and "deviations_set (tkp_offChainCfg p)"
    and "\<forall>(token, fp) \<in> set (tkc_FeedTokenPrices obs). tp_Price fp \<noteq> None"
    and "\<forall>(token, u) \<in> set (tkc_FeeQuoterTokenUpdates obs). tb_Value u \<noteq> None"
  shows "\<exists>m. selectTokensForUpdate p obs = Ok m \<and> gm_ok m \<and>
    (\<forall>token v. map_of m token = Some v \<longleftrightarrow>
       (\<exists>fp i. map_of (tkc_FeedTokenPrices obs) token = Some fp \<and> tp_Price fp = Some i \<and> v = Some i \<and>
          token_update_due p (tkc_FeeQuoterTokenUpdates obs) (tkc_Timestamp obs) token i))"
proof -
  let ?g = "\<lambda>token fp. if token_update_due p (tkc_FeeQuoterTokenUpdates obs) (tkc_Timestamp obs) token (the (tp_Price fp))
                       then Some (tp_Price fp) else None"
  have "token_update p (tkc_FeeQuoterTokenUpdates obs) (tkc_Timestamp obs) token fp = Ok (?g token fp)"
    if m: "(token, fp) \<in> set (tkc_FeedTokenPrices obs)" for token fp
  proof -
    obtain v where v: "tp_Price fp = Some v" using assms(3) m by auto
    have "tb_Value u \<noteq> None" if "map_of (tkc_FeeQuoterTokenUpdates obs) token = Some u" for u
      using assms(4) map_of_SomeD [OF that] by auto
    then show ?thesis using token_update_eq [OF v _ assms(2), of "tkc_FeeQuoterTokenUpdates obs" token] v by simp
  qed
  then have "selectTokensForUpdate p obs = Ok (gm_collect ?g (tkc_FeedTokenPrices obs))"
    unfolding selectTokensForUpdate_def by (rule gm_collect_r_Ok)
  moreover have "map_of (gm_collect ?g (tkc_FeedTokenPrices obs)) token = Some v \<longleftrightarrow>
       (\<exists>fp i. map_of (tkc_FeedTokenPrices obs) token = Some fp \<and> tp_Price fp = Some i \<and> v = Some i \<and>
          token_update_due p (tkc_FeeQuoterTokenUpdates obs) (tkc_Timestamp obs) token i)" for token v
    using assms(1,3) by (auto simp: map_of_gm_collect split: option.splits if_splits dest!: map_of_SomeD)
  ultimately show ?thesis by auto
qed

section \<open>Determinism\<close>

definition tk_obs_eq :: "tk_ao \<Rightarrow> tk_ao \<Rightarrow> bool" where
  "tk_obs_eq ao ao' \<longleftrightarrow> (let ob = ao_Observation ao; ob' = ao_Observation ao' in
     gm_eq (tkb_FeedTokenPrices ob) (tkb_FeedTokenPrices ob') \<and>
     gm_eq (tkb_FeeQuoterTokenUpdates ob) (tkb_FeeQuoterTokenUpdates ob') \<and>
     gm_eq (tkb_FChain ob) (tkb_FChain ob') \<and> tkb_Timestamp ob = tkb_Timestamp ob')"

definition tk_out_eq :: "tk_Outcome \<Rightarrow> tk_Outcome \<Rightarrow> bool" where
  "tk_out_eq o1 o2 \<longleftrightarrow> gm_eq (tko_TokenPrices o1) (tko_TokenPrices o2)"

definition tk_con_eq :: "tk_ConsensusObservation \<Rightarrow> tk_ConsensusObservation \<Rightarrow> bool" where
  "tk_con_eq ob ob' \<longleftrightarrow>
     gm_eq (tkc_FeedTokenPrices ob) (tkc_FeedTokenPrices ob') \<and>
     gm_eq (tkc_FeeQuoterTokenUpdates ob) (tkc_FeeQuoterTokenUpdates ob') \<and> tkc_Timestamp ob = tkc_Timestamp ob'"

lemma gm_eq_map_values:
  assumes "gm_eq m m'"
  shows "gm_eq (map (\<lambda>(k, v). (k, f k v)) m) (map (\<lambda>(k, v). (k, f k v)) m')"
proof -
  have "mset (map (\<lambda>(k, v). (k, f k v)) m) = mset (map (\<lambda>(k, v). (k, f k v)) m')"
    using gm_eq_mset [OF assms] by simp
  moreover have "gm_ok (map (\<lambda>(k, v). (k, f k v)) m)"
    using assms by (simp add: gm_eq_def gm_ok_def case_prod_unfold comp_def)
  ultimately show ?thesis by (simp add: gm_eq_iff_mset)
qed

lemma tk_aggregate_eq:
  assumes "list_all2 tk_obs_eq aos aos'"
  shows "gm_eq (tka_FeedTokenPrices (tk_aggregateObservations aos)) (tka_FeedTokenPrices (tk_aggregateObservations aos'))"
    "gm_eq (tka_FeeQuoterTokenUpdates (tk_aggregateObservations aos)) (tka_FeeQuoterTokenUpdates (tk_aggregateObservations aos'))"
    "gm_eq (tka_FChain (tk_aggregateObservations aos)) (tka_FChain (tk_aggregateObservations aos'))"
    "tka_Timestamps (tk_aggregateObservations aos) = tka_Timestamps (tk_aggregateObservations aos')"
proof -
  have l: "list_all2 gm_eq (map (g \<circ> ao_Observation) aos) (map (g \<circ> ao_Observation) aos')"
    if "\<And>ao ao'. tk_obs_eq ao ao' \<Longrightarrow> gm_eq (g (ao_Observation ao)) (g (ao_Observation ao'))" for g :: "tk_Observation \<Rightarrow> ('k, 'v) gomap"
    using assms that by (simp add: list_all2_map1 list_all2_map2 list_all2_mono)
  show "gm_eq (tka_FeedTokenPrices (tk_aggregateObservations aos)) (tka_FeedTokenPrices (tk_aggregateObservations aos'))"
    "gm_eq (tka_FeeQuoterTokenUpdates (tk_aggregateObservations aos)) (tka_FeeQuoterTokenUpdates (tk_aggregateObservations aos'))"
    "gm_eq (tka_FChain (tk_aggregateObservations aos)) (tka_FChain (tk_aggregateObservations aos'))"
    using l [of "\<lambda>ob. map (\<lambda>(tokenID, price). (tokenID, \<lparr>tp_TokenID = tokenID, tp_Price = price\<rparr>)) (tkb_FeedTokenPrices ob)"]
      l [of tkb_FeeQuoterTokenUpdates] l [of tkb_FChain]
    by (simp_all add: tk_aggregateObservations_def Let_def group_maps_gm_eq tk_obs_eq_def gm_eq_map_values comp_def)
  show "tka_Timestamps (tk_aggregateObservations aos) = tka_Timestamps (tk_aggregateObservations aos')"
    using assms by (induction rule: list_all2_induct)
      (simp_all add: tk_aggregateObservations_def Let_def tk_obs_eq_def)
qed

lemma tk_consensus_det:
  assumes "list_all2 tk_obs_eq aos aos'"
  shows "rel_result tk_con_eq (tk_getConsensusObservation lib p aos) (tk_getConsensusObservation lib p aos')"
proof -
  note eq = tk_aggregate_eq [OF assms]
  have f: "map_of (GetConsensusMap (lib_sum_int lib) (tka_FChain (tk_aggregateObservations aos)) t) =
      map_of (GetConsensusMap (lib_sum_int lib) (tka_FChain (tk_aggregateObservations aos')) t)" for t
    using gm_eq_GetConsensusMap [OF eq(3), of "lib_sum_int lib" t] by (simp add: gm_eq_def)
  have r: "rel_result (=) m m" for m :: "'x result" by (simp add: result.rel_refl)
  show ?thesis
    unfolding tk_getConsensusObservation_def Let_def f eq(4)
    by (auto intro!: rel_result_rbind [OF r] rel_result_rbind [OF gm_eq_GetConsensusMapAggregator] eq
        simp: tk_con_eq_def split: option.splits)
qed

lemma tk_outcome_det:
  assumes "list_all2 tk_obs_eq aos aos'"
  shows "rel_result tk_out_eq (tk_outcome lib p prev aos) (tk_outcome lib p prev' aos')"
proof -
  have "rel_result tk_con_eq (wrap_err s (tk_getConsensusObservation lib p aos)) (wrap_err s (tk_getConsensusObservation lib p aos'))" for s
    using tk_consensus_det [OF assms, of lib p]
    by (cases "tk_getConsensusObservation lib p aos"; cases "tk_getConsensusObservation lib p aos'") auto
  moreover have "rel_result gm_eq (selectTokensForUpdate p co) (selectTokensForUpdate p co')" if "tk_con_eq co co'" for co co'
  proof -
    have "token_update p (tkc_FeeQuoterTokenUpdates co) = token_update p (tkc_FeeQuoterTokenUpdates co')"
    proof -
      have "map_of (tkc_FeeQuoterTokenUpdates co) = map_of (tkc_FeeQuoterTokenUpdates co')"
        using that by (simp add: tk_con_eq_def gm_eq_def)
      then show ?thesis unfolding token_update_def by (rule arg_cong)
    qed
    then show ?thesis using that by (simp add: selectTokensForUpdate_def tk_con_eq_def gm_eq_collect_r)
  qed
  ultimately show ?thesis
    by (auto simp: tk_outcome_def tk_out_eq_def intro!: rel_result_rbind [where R = tk_con_eq] rel_result_rbind [where R = gm_eq]
        gm_eq_refl dest: gm_eq_length)
qed

interpretation tkp: plugin_processor "tk_outcome lib p" tk_obs_eq tk_out_eq for lib p
  by unfold_locales (rule tk_outcome_det)

section \<open>Validated observations\<close>

definition positive_spec :: "ccip_lib \<Rightarrow> bool" where
  "positive_spec lib \<longleftrightarrow> (\<forall>p. lib_IsPositive lib p \<longleftrightarrow> (\<exists>i. p = Some i \<and> 0 < i))"

lemma tk_valid_entries:
  assumes "tk_ValidateObservation lib p now ao = Ok ()" and "positive_spec lib"
  shows "(t, v) \<in> set (tkb_FeedTokenPrices (ao_Observation ao)) \<Longrightarrow> v \<noteq> None"
    "(t, u) \<in> set (tkb_FeeQuoterTokenUpdates (ao_Observation ao)) \<Longrightarrow> tb_Value u \<noteq> None"
proof -
  have "validateObservedTokenPrices lib (tkb_FeedTokenPrices (ao_Observation ao)) (coc_TokenInfo (tkp_offChainCfg p)) = Ok () \<and>
      validateObservedTokenUpdates lib now (tkb_FeeQuoterTokenUpdates (ao_Observation ao)) (coc_TokenInfo (tkp_offChainCfg p)) = Ok ()"
    using assms(1)
    by (auto simp: tk_ValidateObservation_def Let_def tk_Observation_IsEmpty_def rbind_Ok_iff validateObservedTokenPrices_def
        validateObservedTokenUpdates_def split: if_splits)
  then have v: "\<forall>(t, v) \<in> set (tkb_FeedTokenPrices (ao_Observation ao)). v \<noteq> None"
    "\<forall>(t, u) \<in> set (tkb_FeeQuoterTokenUpdates (ao_Observation ao)). tb_Value u \<noteq> None"
    using assms(2)
    by (fastforce simp: validateObservedTokenPrices_def validateObservedTokenUpdates_def check_all_Ok_iff positive_spec_def
        split: if_splits)+
  then show "(t, v) \<in> set (tkb_FeedTokenPrices (ao_Observation ao)) \<Longrightarrow> v \<noteq> None"
    "(t, u) \<in> set (tkb_FeeQuoterTokenUpdates (ao_Observation ao)) \<Longrightarrow> tb_Value u \<noteq> None" by auto
qed

lemma Median_key:
  assumes "Median zero key vals = Ok v" and "vals \<noteq> []"
  shows "Median None id (map key vals) = Ok (key v)"
proof -
  have "map key (sort_key key vals) = sort (map key vals)"
    by (rule properties_for_sort [symmetric]) simp_all
  moreover have "length vals div 2 < length vals" using assms(2) by simp
  ultimately have nth: "sort (map key vals) ! (length vals div 2) = key (sort_key key vals ! (length vals div 2))"
    by (metis length_sort nth_map)
  have np: "\<not> ((\<exists>v \<in> set vals. key v = None) \<and> (\<exists>v \<in> set vals. key v \<noteq> None))"
    and v: "v = sort_key key vals ! (length vals div 2)"
    using assms by (auto simp: Median_def split: if_splits)
  have "Median None id (map key vals) = Ok (sort (map key vals) ! (length vals div 2))"
    using np assms(2) by (auto simp: Median_def id_def)
  then show ?thesis by (simp only: nth v)
qed

lemma Median_token_Ok:
  assumes "\<forall>v \<in> set vs. tp_Price v \<noteq> None" and "vs \<noteq> []"
  shows "\<exists>v. Median TokenPrice_zero TokenPriceMedianKey vs = Ok v \<and> tp_Price v \<noteq> None"
proof -
  obtain w where w: "Median None id (map tp_Price vs) = Ok (Some w)" using Median_big_Ok [of "map tp_Price vs"] assms by auto
  obtain v where v: "Median TokenPrice_zero TokenPriceMedianKey vs = Ok v"
    using assms by (auto simp: Median_def TokenPriceMedianKey_def)
  have "tp_Price v = Some w" using Median_key [OF v assms(2)] w by (simp add: TokenPriceMedianKey_def [abs_def])
  with v show ?thesis by auto
qed

lemma TimestampedBigAggregator_Ok:
  assumes "\<forall>u \<in> set us. tb_Value u \<noteq> None" and "us \<noteq> []"
  shows "\<exists>u. TimestampedBigAggregator us = Ok u \<and> tb_Value u \<noteq> None"
  using Median_big_Ok [of "map tb_Value us"] Median_time_Ok [of "map tb_Timestamp us"] assms
  by (auto simp: TimestampedBigAggregator_def)

lemma tk_items:
  assumes "(k, vs) \<in> set (tka_FeedTokenPrices (tk_aggregateObservations aos))"
  shows "vs = map (\<lambda>(t, pr). \<lparr>tp_TokenID = t, tp_Price = pr\<rparr>)
      (concat (map (\<lambda>ao. filter (\<lambda>pr. fst pr = k) (tkb_FeedTokenPrices (ao_Observation ao))) aos))"
proof -
  let ?ms = "map (\<lambda>ao. map (\<lambda>(tokenID, price). (tokenID, \<lparr>tp_TokenID = tokenID, tp_Price = price\<rparr>))
       (tkb_FeedTokenPrices (ao_Observation ao))) aos"
  have "(k, vs) \<in> set (group_maps ?ms)"
    using assms by (simp add: tk_aggregateObservations_def Let_def comp_def)
  then have "gm_vals (group_maps ?ms) k = vs" by (simp add: gm_vals_def gm_get_iff [symmetric] del: gm_get_iff)
  then have "vs = map snd (filter (\<lambda>p. fst p = k) (concat ?ms))" by (simp add: gm_vals_group_maps)
  also have "\<dots> = map (\<lambda>(t, pr). \<lparr>tp_TokenID = t, tp_Price = pr\<rparr>)
      (concat (map (\<lambda>ao. filter (\<lambda>pr. fst pr = k) (tkb_FeedTokenPrices (ao_Observation ao))) aos))"
    by (induction aos) (simp_all add: filter_map comp_def case_prod_unfold)
  finally show ?thesis .
qed

lemma tk_consensus_entries:
  assumes valid: "\<And>ao. ao \<in> set aos \<Longrightarrow> tk_ValidateObservation lib p now ao = Ok ()" and "positive_spec lib"
  shows "tk_getConsensusObservation lib p aos \<noteq> Panic"
    "tk_getConsensusObservation lib p aos = Ok co \<Longrightarrow>
       gm_ok (tkc_FeedTokenPrices co) \<and> (\<forall>(t, fp) \<in> set (tkc_FeedTokenPrices co). tp_Price fp \<noteq> None) \<and>
       (\<forall>(t, u) \<in> set (tkc_FeeQuoterTokenUpdates co). tb_Value u \<noteq> None)"
proof -
  let ?a = "tk_aggregateObservations aos"
  have ok: "gm_ok (tka_FeedTokenPrices ?a)" "gm_ok (tka_FeeQuoterTokenUpdates ?a)"
    by (simp_all add: tk_aggregateObservations_def Let_def)
  have feed: "\<exists>v. Median TokenPrice_zero TokenPriceMedianKey vs = Ok v \<and> tp_Price v \<noteq> None"
    if m: "(k, vs) \<in> set (tka_FeedTokenPrices ?a)" for k vs
  proof (rule Median_token_Ok)
    show "\<forall>v \<in> set vs. tp_Price v \<noteq> None"
      using tk_items [OF m] tk_valid_entries(1) [OF valid assms(2)] by fastforce
    show "vs \<noteq> []" using m group_maps_entries(1) by (fastforce simp: tk_aggregateObservations_def Let_def)
  qed
  have upd: "\<exists>u. TimestampedBigAggregator us = Ok u \<and> tb_Value u \<noteq> None"
    if m: "(k, us) \<in> set (tka_FeeQuoterTokenUpdates ?a)" for k us
  proof (rule TimestampedBigAggregator_Ok)
    from m have g: "(k, us) \<in> set (group_maps (map tkb_FeeQuoterTokenUpdates (map ao_Observation aos)))"
      by (simp add: tk_aggregateObservations_def Let_def)
    show "us \<noteq> []" by (rule group_maps_entries(1) [OF g])
    show "\<forall>u \<in> set us. tb_Value u \<noteq> None"
      using group_maps_entries(2) [OF g] tk_valid_entries(2) [OF valid assms(2)] by fastforce
  qed
  have a1: "\<exists>r. GetConsensusMapAggregator (tka_FeedTokenPrices ?a) t (Median TokenPrice_zero TokenPriceMedianKey) = Ok r \<and> gm_ok r \<and>
      (\<forall>(k, v) \<in> set r. tp_Price v \<noteq> None)" for t
    by (rule GetConsensusMapAggregator_all [OF ok(1)]) (rule feed)
  have a2: "\<exists>r. GetConsensusMapAggregator (tka_FeeQuoterTokenUpdates ?a) t TimestampedBigAggregator = Ok r \<and> gm_ok r \<and>
      (\<forall>(k, v) \<in> set r. tb_Value v \<noteq> None)" for t
    by (rule GetConsensusMapAggregator_all [OF ok(2)]) (rule upd)
  have np: "GetConsensusMapAggregator (tka_FeedTokenPrices ?a) t (Median TokenPrice_zero TokenPriceMedianKey) \<noteq> Panic"
    "GetConsensusMapAggregator (tka_FeeQuoterTokenUpdates ?a) t TimestampedBigAggregator \<noteq> Panic" for t
    using a1 [of t] a2 [of t] by auto
  then show "tk_getConsensusObservation lib p aos \<noteq> Panic"
    using Median_time_Ok [of "tka_Timestamps ?a"]
    by (auto simp: tk_getConsensusObservation_def Let_def rbind_Panic_iff split: option.splits if_splits)
  assume "tk_getConsensusObservation lib p aos = Ok co"
  then obtain t1 t2 where
    "GetConsensusMapAggregator (tka_FeedTokenPrices ?a) t1 (Median TokenPrice_zero TokenPriceMedianKey) = Ok (tkc_FeedTokenPrices co)"
    "GetConsensusMapAggregator (tka_FeeQuoterTokenUpdates ?a) t2 TimestampedBigAggregator = Ok (tkc_FeeQuoterTokenUpdates co)"
    by (auto simp: tk_getConsensusObservation_def Let_def rbind_Ok_iff split: option.splits if_splits)
  with a1 [of t1] a2 [of t2] show "gm_ok (tkc_FeedTokenPrices co) \<and> (\<forall>(t, fp) \<in> set (tkc_FeedTokenPrices co). tp_Price fp \<noteq> None) \<and>
       (\<forall>(t, u) \<in> set (tkc_FeeQuoterTokenUpdates co). tb_Value u \<noteq> None)" by auto
qed

text \<open>On validated observations the token price outcome never panics, provided every configured token has a
  deviation threshold; and two oracles that visit the maps of the observations in different orders compute
  the same outcome over any number of rounds.\<close>

theorem tk_outcome_safe:
  assumes "\<forall>ao \<in> set aos. tk_ValidateObservation lib p now ao = Ok ()" and "positive_spec lib"
    and "deviations_set (tkp_offChainCfg p)"
    and "list_all2 (list_all2 tk_obs_eq) rounds rounds'" and "tk_out_eq prev prev'"
  shows "tk_outcome lib p prev aos \<noteq> Panic \<and>
    rel_result tk_out_eq (run_rounds (tk_outcome lib p) prev rounds) (run_rounds (tk_outcome lib p) prev' rounds')"
proof -
  have "tk_outcome lib p prev aos \<noteq> Panic"
  proof (cases "tk_getConsensusObservation lib p aos")
    case (Ok co)
    have e: "\<forall>(t, fp) \<in> set (tkc_FeedTokenPrices co). tp_Price fp \<noteq> None"
      "\<forall>(t, u) \<in> set (tkc_FeeQuoterTokenUpdates co). tb_Value u \<noteq> None"
      using tk_consensus_entries(2) [OF _ assms(2) Ok, of now] assms(1) by blast+
    have "token_update p (tkc_FeeQuoterTokenUpdates co) (tkc_Timestamp co) token fp \<noteq> Panic"
      if m: "(token, fp) \<in> set (tkc_FeedTokenPrices co)" for token fp
    proof -
      obtain v where v: "tp_Price fp = Some v" using e(1) m by auto
      have "tb_Value u \<noteq> None" if "map_of (tkc_FeeQuoterTokenUpdates co) token = Some u" for u
        using e(2) map_of_SomeD [OF that] by auto
      then show ?thesis using token_update_eq [OF v _ assms(3), of "tkc_FeeQuoterTokenUpdates co" token] by simp
    qed
    then have "selectTokensForUpdate p co \<noteq> Panic"
      unfolding selectTokensForUpdate_def by (subst gm_collect_r_cases) auto
    with Ok show ?thesis by (auto simp: tk_outcome_def rbind_Panic_iff)
  next
    case Panic
    with tk_consensus_entries(1) [OF _ assms(2)] assms(1) show ?thesis by blast
  qed (auto simp: tk_outcome_def)
  with tkp.run_det [OF assms(4,5)] show ?thesis by blast
qed

section \<open>Agreed prices are honest prices\<close>

lemma filter_key_length_le: "gm_ok m \<Longrightarrow> length (filter (\<lambda>pr. fst pr = k) m) \<le> 1"
  by (simp add: filter_key_gm split: option.split)

lemma length_concat_le: "(\<And>x. x \<in> set xs \<Longrightarrow> length (f x) \<le> 1) \<Longrightarrow> length (concat (map f xs)) \<le> length xs"
  by (induction xs) force+

text \<open>C37. When at most f of the oracles are faulty, with f the agreed fault bound of the feed chain, every token
  price in the outcome lies between two prices that honest oracles observed for that token.\<close>

theorem tk_outcome_price_honest:
  assumes "\<forall>ao \<in> set aos. tk_ValidateObservation lib p now ao = Ok () \<and> gm_ok (tkb_FeedTokenPrices (ao_Observation ao))"
    and "positive_spec lib" and "mset aos = mset hs + mset bs"
    and "map_of (GetConsensusMap (lib_sum_int lib) (tka_FChain (tk_aggregateObservations aos))
           (MakeConstantThreshold (TwoFPlus1 (tkp_fRoleDON p)))) (coc_PriceFeedChainSelector (tkp_offChainCfg p)) = Some f"
    and "int (length bs) \<le> f" and "f < 2 ^ 62"
    and "tk_outcome lib p prev aos = Ok out" and "map_of (tko_TokenPrices out) token = Some price"
  shows "\<exists>lo hi. {lo, hi} \<subseteq> {v. \<exists>ao \<in> set hs. (token, v) \<in> set (tkb_FeedTokenPrices (ao_Observation ao))} \<and>
    lo \<le> price \<and> price \<le> hi"
proof -
  let ?a = "tk_aggregateObservations aos"
  let ?obs = "\<lambda>ao. filter (\<lambda>pr. fst pr = token) (tkb_FeedTokenPrices (ao_Observation ao))"
  let ?prices = "\<lambda>aos. map snd (concat (map ?obs aos))"
  obtain co where co: "tk_getConsensusObservation lib p aos = Ok co" "selectTokensForUpdate p co = Ok (tko_TokenPrices out)"
    using assms(7,8) by (auto simp: tk_outcome_def rbind_Ok_iff split: if_splits)
  have okco: "gm_ok (tkc_FeedTokenPrices co)"
    using tk_consensus_entries(2) [OF _ assms(2) co(1), of now] assms(1) by blast
  have sel: "tko_TokenPrices out = gm_collect (\<lambda>k v. case token_update p (tkc_FeeQuoterTokenUpdates co) (tkc_Timestamp co) k v of Ok o1 \<Rightarrow> o1 | _ \<Rightarrow> None)
      (tkc_FeedTokenPrices co)"
    using co(2) unfolding selectTokensForUpdate_def by (subst (asm) gm_collect_r_cases) (auto split: if_splits)
  then obtain fp where fp: "map_of (tkc_FeedTokenPrices co) token = Some fp" "price = tp_Price fp"
    using assms(8) token_update_Some okco
    by (fastforce simp: map_of_gm_collect split: option.splits result.splits)
  have agg: "GetConsensusMapAggregator (tka_FeedTokenPrices ?a) (MakeConstantThreshold (TwoFPlus1 f)) (Median TokenPrice_zero TokenPriceMedianKey)
      = Ok (tkc_FeedTokenPrices co)"
    using co(1) assms(4) by (auto simp: tk_getConsensusObservation_def Let_def rbind_Ok_iff split: option.splits if_splits)
  have t: "s64 (TwoFPlus1 f) = 2 * f + 1" using assms(5,6) by (simp add: thresholds_small s64_id)
  have "gm_ok (tka_FeedTokenPrices ?a)" by (simp add: tk_aggregateObservations_def Let_def)
  moreover have "tkc_FeedTokenPrices co = gm_collect (\<lambda>k vs. case (case MakeConstantThreshold (TwoFPlus1 f) k of None \<Rightarrow> Ok None
         | Some thresh \<Rightarrow> if int (length vs) < s64 thresh then Ok None else rbind (Median TokenPrice_zero TokenPriceMedianKey vs) (\<lambda>v. Ok (Some v))) of Ok o1 \<Rightarrow> o1 | _ \<Rightarrow> None)
      (tka_FeedTokenPrices ?a)"
    using agg unfolding GetConsensusMapAggregator_def
    by (subst (asm) gm_collect_r_cases) (auto simp: rbind_Error_iff MakeConstantThreshold_def split: if_splits)
  ultimately obtain vs where vs: "(token, vs) \<in> set (tka_FeedTokenPrices ?a)" "2 * f + 1 \<le> int (length vs)"
      "Median TokenPrice_zero TokenPriceMedianKey vs = Ok fp"
    using fp(1)
    by (fastforce simp: map_of_gm_collect MakeConstantThreshold_def t gm_get_iff rbind_Ok_iff split: option.splits if_splits result.splits)
  have pr: "map tp_Price vs = ?prices aos"
    by (subst tk_items [OF vs(1)]) (simp add: comp_def case_prod_unfold)
  have "vs \<noteq> []" using vs(2) assms(5) by auto
  from Median_key [OF vs(3) this] have med: "BigIntMedian (?prices aos) = Ok price"
    by (simp add: TokenPriceMedianKey_def [abs_def] pr BigIntMedian_def fp(2))
  have ms: "mset (?prices aos) = mset (?prices hs) + mset (?prices bs)"
  proof -
    have "mset (concat (map ?obs aos)) = mset (concat (map ?obs (hs @ bs)))"
      by (rule mset_concat_map) (simp add: assms(3))
    then show ?thesis by simp
  qed
  have "length (?prices bs) \<le> length bs"
  proof -
    have "set bs \<subseteq> set aos" using arg_cong [OF assms(3), of set_mset] by auto
    then have "length (concat (map ?obs bs)) \<le> length bs" using assms(1) by (intro length_concat_le filter_key_length_le) auto
    then show ?thesis by simp
  qed
  moreover have n: "length (?prices aos) = length vs" using pr by (metis length_map)
  ultimately have "length (?prices bs) \<le> length (?prices aos) div 2" "length (?prices aos) div 2 + length (?prices bs) < length (?prices aos)"
    using vs(2) assms(5) by linarith+
  moreover have "big_usable (?prices aos)"
  proof -
    have "v \<noteq> None" if "v \<in> set (?prices aos)" for v
      using that tk_valid_entries(1) [of lib p now _ _ v, OF _ assms(2)] assms(1) by auto
    moreover have "?prices aos \<noteq> []" using \<open>vs \<noteq> []\<close> pr by (metis map_is_Nil_conv)
    ultimately show ?thesis by (simp only: big_usable_def) blast
  qed
  ultimately obtain lo hi where "lo \<in> set (?prices hs)" "hi \<in> set (?prices hs)" "lo \<le> price" "price \<le> hi"
    using bim.pick_sandwich [OF _ ms] med by fastforce
  then show ?thesis by (intro exI [of _ lo] exI [of _ hi]) auto
qed

section \<open>Instances\<close>

definition sample_tk_config :: CommitOffchainConfig where
  "sample_tk_config = sample_commit_config\<lparr>coc_TokenPriceBatchWriteFrequency := 60, coc_PriceFeedChainSelector := 7,
     coc_TokenInfo := [(''T'', \<lparr>ti_DeviationPPB = Some 10000000\<rparr>), (''U'', \<lparr>ti_DeviationPPB = Some 10000000\<rparr>)]\<rparr>"

definition sample_tk_processor :: tk_processor where
  "sample_tk_processor = tk_NewProcessor 3 sample_tk_config 5 sample_support2 None sample_poller2 0"

definition sample_tk_ao :: "int \<Rightarrow> tk_ao" where
  "sample_tk_ao v = \<lparr>ao_OracleID = 3, ao_Observation =
     \<lparr>tkb_FeedTokenPrices = [(''T'', Some v), (''U'', Some 100)],
      tkb_FeeQuoterTokenUpdates = [(''T'', \<lparr>tb_Timestamp = 100, tb_Value = Some 100\<rparr>), (''U'', \<lparr>tb_Timestamp = 100, tb_Value = Some 100\<rparr>)],
      tkb_FChain = [(5, 1), (7, 1)], tkb_Timestamp = 120\<rparr>\<rparr>"

lemma sample_lib_positive: "positive_spec sample_lib"
  by (auto simp: positive_spec_def sample_lib_def split: option.splits)

lemma sample_tk_deviations: "deviations_set (tkp_offChainCfg sample_tk_processor)"
  by (simp add: deviations_set_def sample_tk_processor_def tk_NewProcessor_def Let_def sample_tk_config_def)

lemma sample_tk_valid: "tk_ValidateObservation sample_lib sample_tk_processor 150 (sample_tk_ao 102) = Ok ()"
  "tk_ValidateObservation sample_lib sample_tk_processor 150 (sample_tk_ao 103) = Ok ()"
  "tk_ValidateObservation sample_lib sample_tk_processor 150 (sample_tk_ao 999) = Ok ()"
  by code_simp+

lemma sample_tk_outcome:
  "tk_outcome sample_lib sample_tk_processor \<lparr>tko_TokenPrices = []\<rparr> [sample_tk_ao 102, sample_tk_ao 999, sample_tk_ao 103]
     = Ok \<lparr>tko_TokenPrices = [(''T'', Some 103)]\<rparr>"
  by code_simp

theorem selectTokensForUpdate_spec_witness:
  "\<exists>m. selectTokensForUpdate sample_tk_processor
     \<lparr>tkc_FeedTokenPrices = [(''T'', \<lparr>tp_TokenID = ''T'', tp_Price = Some 103\<rparr>)],
      tkc_FeeQuoterTokenUpdates = [], tkc_FChain = [], tkc_Timestamp = 120\<rparr> = Ok m \<and> map_of m ''T'' = Some (Some 103)"
  using selectTokensForUpdate_spec [of "\<lparr>tkc_FeedTokenPrices = [(''T'', \<lparr>tp_TokenID = ''T'', tp_Price = Some 103\<rparr>)],
      tkc_FeeQuoterTokenUpdates = [], tkc_FChain = [], tkc_Timestamp = 120\<rparr>" sample_tk_processor] sample_tk_deviations
  by (auto simp: gm_ok_def token_update_due_def)

theorem tk_outcome_safe_witness:
  "tk_outcome sample_lib sample_tk_processor \<lparr>tko_TokenPrices = []\<rparr> [sample_tk_ao 102, sample_tk_ao 999, sample_tk_ao 103]
     \<noteq> Panic"
  using tk_outcome_safe [of "[sample_tk_ao 102, sample_tk_ao 999, sample_tk_ao 103]" sample_lib sample_tk_processor 150
      "[]" "[]" "\<lparr>tko_TokenPrices = []\<rparr>" "\<lparr>tko_TokenPrices = []\<rparr>"]
    sample_lib_positive sample_tk_deviations sample_tk_valid
  by (simp add: tk_out_eq_def gm_eq_def)

theorem tk_outcome_price_honest_witness:
  "\<exists>lo hi. {lo, hi} \<subseteq> {Some 102, Some 103} \<and> lo \<le> Some (103 :: int) \<and> Some 103 \<le> hi"
proof -
  have f: "map_of (GetConsensusMap (lib_sum_int sample_lib)
      (tka_FChain (tk_aggregateObservations [sample_tk_ao 102, sample_tk_ao 999, sample_tk_ao 103]))
           (MakeConstantThreshold (TwoFPlus1 (tkp_fRoleDON sample_tk_processor))))
      (coc_PriceFeedChainSelector (tkp_offChainCfg sample_tk_processor)) = Some 1"
    by code_simp
  have "mset [sample_tk_ao 102, sample_tk_ao 999, sample_tk_ao 103] = mset [sample_tk_ao 102, sample_tk_ao 103] + mset [sample_tk_ao 999]"
    by simp
  from tk_outcome_price_honest [OF _ sample_lib_positive this f _ _ sample_tk_outcome, of 150 "''T''" "Some 103"]
  obtain lo hi where "{lo, hi} \<subseteq> {v. \<exists>ao \<in> set [sample_tk_ao 102, sample_tk_ao 103]. (''T'', v) \<in> set (tkb_FeedTokenPrices (ao_Observation ao))}"
      "lo \<le> Some 103" "Some 103 \<le> hi"
    using sample_tk_valid by (auto simp: sample_tk_ao_def gm_ok_def)
  then show ?thesis by (intro exI [of _ lo] exI [of _ hi]) (auto simp: sample_tk_ao_def)
qed

end
