(* ===== verification/CommitReport.thy ===== *)
theory CommitReport
  imports MerkleRoot ChainFee TokenPrice
begin

text \<open>
  The outcome of the commit plugin (commit/committypes/types.go) and the report builders
  (commit/internal/builder/report.go). The reference of the two batching loops is \<open>chunks\<close>: the lemmas show
  that the loops compute it, and that the reports of an outcome partition its roots and its prices, respect
  the configured sizes, and are never empty.
\<close>

section \<open>Types\<close>

record MainOutcome =
  mo_InflightPriceOcrSequenceNumber :: SeqNum
  mo_RemainingPriceChecks :: int

definition MainOutcome_zero :: MainOutcome where
  "MainOutcome_zero = \<lparr>mo_InflightPriceOcrSequenceNumber = 0, mo_RemainingPriceChecks = 0\<rparr>"

record commit_Outcome =
  co_MerkleRootOutcome :: mr_Outcome
  co_TokenPriceOutcome :: tk_Outcome
  co_ChainFeeOutcome :: cf_Outcome
  co_MainOutcome :: MainOutcome

record Report =
  rep_Report :: CommitPluginReport
  rep_ReportInfo :: CommitReportInfo

definition PriceUpdates_zero :: PriceUpdates where
  "PriceUpdates_zero = \<lparr>pu_TokenPriceUpdates = [], pu_GasPriceUpdates = []\<rparr>"

definition CommitPluginReport_zero :: CommitPluginReport where
  "CommitPluginReport_zero = \<lparr>cpr_BlessedMerkleRoots = [], cpr_UnblessedMerkleRoots = [], cpr_PriceUpdates = PriceUpdates_zero\<rparr>"

definition Report_zero :: Report where
  "Report_zero = \<lparr>rep_Report = CommitPluginReport_zero, rep_ReportInfo = \<lparr>cri_MerkleRoots = [], cri_PriceUpdates = PriceUpdates_zero\<rparr>\<rparr>"

section \<open>The builders\<close>

text \<open>The roots of an outcome have distinct chains, so \<open>sort.Slice\<close>, which is not stable, and the stable
  \<open>sort_key\<close> give the same list.\<close>

definition buildOneReport :: "ccip_lib \<Rightarrow> OutcomeType \<Rightarrow> MerkleRootChain list \<Rightarrow> PriceUpdates \<Rightarrow> Report" where
  "buildOneReport lib merkleOutcomeType unblessedMerkleRoots priceUpdates =
     (let roots = (if merkleOutcomeType = ReportGenerated then unblessedMerkleRoots else []);
          rep = \<lparr>cpr_BlessedMerkleRoots = [], cpr_UnblessedMerkleRoots = roots, cpr_PriceUpdates = priceUpdates\<rparr>;
          repInfo = \<lparr>cri_MerkleRoots = sort_key mrc_ChainSel roots, cri_PriceUpdates = priceUpdates\<rparr>
      in if lib_Report_IsEmpty lib rep then Report_zero else \<lparr>rep_Report = rep, rep_ReportInfo = repInfo\<rparr>)"

definition outcome_prices :: "ccip_lib \<Rightarrow> commit_Outcome \<Rightarrow> PriceUpdates" where
  "outcome_prices lib outcome =
     \<lparr>pu_TokenPriceUpdates = lib_ToSortedSlice lib (tko_TokenPrices (co_TokenPriceOutcome outcome)),
      pu_GasPriceUpdates = cfout_GasPrices (co_ChainFeeOutcome outcome)\<rparr>"

definition buildStandardReport :: "ccip_lib \<Rightarrow> commit_Outcome \<Rightarrow> CommitOffchainConfig \<Rightarrow> Report list result" where
  "buildStandardReport lib outcome _ =
     (let report = buildOneReport lib (mro_OutcomeType (co_MerkleRootOutcome outcome))
                     (mro_RootsToReport (co_MerkleRootOutcome outcome)) (outcome_prices lib outcome)
      in if lib_Report_IsEmpty lib (rep_Report report) then Ok [] else Ok [report])"

text \<open>The loop over the roots; the state is \<open>(numRoots, unblessedMerkleRoots, priceUpdates, reports)\<close>.\<close>

fun root_report_loop ::
  "ccip_lib \<Rightarrow> OutcomeType \<Rightarrow> u64 \<Rightarrow> u64 \<times> MerkleRootChain list \<times> PriceUpdates \<times> Report list \<Rightarrow> MerkleRootChain list
     \<Rightarrow> u64 \<times> MerkleRootChain list \<times> PriceUpdates \<times> Report list" where
  "root_report_loop lib ot maxRoots s [] = s"
| "root_report_loop lib ot maxRoots (numRoots, roots, prices, reports) (r # rs) =
     (let roots = roots @ [r]; numRoots = numRoots + 1 in
      if numRoots = maxRoots
      then let report = buildOneReport lib ot roots prices;
               reports = (if \<not> lib_Report_IsEmpty lib (rep_Report report) then reports @ [report] else reports)
           in root_report_loop lib ot maxRoots (0, [], PriceUpdates_zero, reports) rs
      else root_report_loop lib ot maxRoots (numRoots, roots, prices, reports) rs)"

definition buildMultipleMerkleRootReports ::
  "ccip_lib \<Rightarrow> commit_Outcome \<Rightarrow> CommitOffchainConfig \<Rightarrow> Report list result" where
  "buildMultipleMerkleRootReports lib outcome config =
     (let ot = mro_OutcomeType (co_MerkleRootOutcome outcome);
          rootsToReport = mro_RootsToReport (co_MerkleRootOutcome outcome);
          (numRoots, roots, prices, reports) =
            root_report_loop lib ot (coc_MaxMerkleRootsPerReport config) (0, [], outcome_prices lib outcome, []) rootsToReport
      in if 0 < numRoots \<or> rootsToReport = []
         then let report = buildOneReport lib ot roots prices
              in Ok (if \<not> lib_Report_IsEmpty lib (rep_Report report) then reports @ [report] else reports)
         else Ok reports)"

text \<open>\<open>update\<close> is a union of the two kinds of prices; the fields that are not set are zero.\<close>

record update =
  up_TokenPrice :: TokenPrice
  up_GasPriceChain :: GasPriceChain

definition GasPriceChain_zero :: GasPriceChain where
  "GasPriceChain_zero = \<lparr>gp_ChainSel = 0, gp_GasPrice = None\<rparr>"

definition price_list :: "ccip_lib \<Rightarrow> commit_Outcome \<Rightarrow> update list" where
  "price_list lib outcome =
     map (\<lambda>t. \<lparr>up_TokenPrice = t, up_GasPriceChain = GasPriceChain_zero\<rparr>)
       (lib_ToSortedSlice lib (tko_TokenPrices (co_TokenPriceOutcome outcome))) @
     map (\<lambda>g. \<lparr>up_TokenPrice = TokenPrice_zero, up_GasPriceChain = g\<rparr>) (cfout_GasPrices (co_ChainFeeOutcome outcome))"

text \<open>The struct comparisons compare the price as a pointer, which is zero only when it is nil.\<close>

definition add_update :: "update \<Rightarrow> PriceUpdates \<Rightarrow> PriceUpdates" where
  "add_update u p =
     (let p = (if up_TokenPrice u \<noteq> TokenPrice_zero
               then p\<lparr>pu_TokenPriceUpdates := pu_TokenPriceUpdates p @ [up_TokenPrice u]\<rparr> else p)
      in if up_GasPriceChain u \<noteq> GasPriceChain_zero
         then p\<lparr>pu_GasPriceUpdates := pu_GasPriceUpdates p @ [up_GasPriceChain u]\<rparr> else p)"

fun price_report_loop ::
  "ccip_lib \<Rightarrow> OutcomeType \<Rightarrow> u64 \<Rightarrow> u64 \<times> PriceUpdates \<times> Report list \<Rightarrow> update list
     \<Rightarrow> u64 \<times> PriceUpdates \<times> Report list" where
  "price_report_loop lib ot maxPrices s [] = s"
| "price_report_loop lib ot maxPrices (numUpdates, prices, reports) (u # us) =
     (let numUpdates = numUpdates + 1; prices = add_update u prices in
      if numUpdates = maxPrices
      then price_report_loop lib ot maxPrices (0, PriceUpdates_zero, reports @ [buildOneReport lib ot [] prices]) us
      else price_report_loop lib ot maxPrices (numUpdates, prices, reports) us)"

definition buildMultiplePriceReports :: "ccip_lib \<Rightarrow> commit_Outcome \<Rightarrow> u64 \<Rightarrow> Report list" where
  "buildMultiplePriceReports lib outcome maxPricesPerReport =
     (let ot = mro_OutcomeType (co_MerkleRootOutcome outcome);
          (numUpdates, prices, reports) =
            price_report_loop lib ot maxPricesPerReport (0, PriceUpdates_zero, []) (price_list lib outcome)
      in if 0 < numUpdates then reports @ [buildOneReport lib ot [] prices] else reports)"

definition buildMultiplePriceAndMerkleRootReports ::
  "ccip_lib \<Rightarrow> commit_Outcome \<Rightarrow> CommitOffchainConfig \<Rightarrow> Report list result" where
  "buildMultiplePriceAndMerkleRootReports lib outcome config =
     (let reports = buildMultiplePriceReports lib outcome (coc_MaxPricesPerReport config) in
      rbind (check_all (\<lambda>report. check_that (\<not> lib_Report_IsEmpty lib (rep_Report report))
               (Err ''price report should not be empty'')) reports) (\<lambda>_.
      let outcome = outcome\<lparr>co_TokenPriceOutcome := (co_TokenPriceOutcome outcome)\<lparr>tko_TokenPrices := []\<rparr>,
                            co_ChainFeeOutcome := (co_ChainFeeOutcome outcome)\<lparr>cfout_GasPrices := []\<rparr>\<rparr>;
          rootReportBuilder = (if coc_MaxMerkleRootsPerReport config = 0 then buildStandardReport lib
                               else buildMultipleMerkleRootReports lib)
      in rbind (wrap_err ''problem building merkle root reports'' (rootReportBuilder outcome config)) (\<lambda>rootReports.
           Ok (reports @ filter (\<lambda>rootReport. \<not> lib_Report_IsEmpty lib (rep_Report rootReport)) rootReports))))"

definition NewReportBuilder :: "ccip_lib \<Rightarrow> u64 \<Rightarrow> u64 \<Rightarrow> commit_Outcome \<Rightarrow> CommitOffchainConfig \<Rightarrow> Report list result" where
  "NewReportBuilder lib maxMerkleRootsPerReport maxPricesPerReport =
     (if 0 < maxPricesPerReport then buildMultiplePriceAndMerkleRootReports lib
      else if 0 < maxMerkleRootsPerReport then buildMultipleMerkleRootReports lib
      else buildStandardReport lib)"

section \<open>The reference of the batching loops\<close>

function chunks :: "nat \<Rightarrow> 'a list \<Rightarrow> 'a list list" where
  "chunks n [] = []"
| "xs \<noteq> [] \<Longrightarrow> chunks n xs = take (Suc n) xs # chunks n (drop (Suc n) xs)"
  by auto
termination by (relation "measure (\<lambda>(n, xs). length xs)") auto

text \<open>\<open>chunks n\<close> cuts a list into pieces of n + 1 elements.\<close>

lemma concat_chunks [simp]: "concat (chunks n xs) = xs"
  by (induction n xs rule: chunks.induct) simp_all

lemma chunks_sizes: "c \<in> set (chunks n xs) \<Longrightarrow> c \<noteq> [] \<and> length c \<le> Suc n"
  by (induction n xs rule: chunks.induct) auto

declare chunks.simps(2) [simp del]

lemma chunks_short: "length xs \<le> n \<Longrightarrow> chunks n xs = (if xs = [] then [] else [xs])"
  by (cases "xs = []") (simp_all add: chunks.simps(2))

lemma chunks_full: "length xs = Suc n \<Longrightarrow> chunks n (xs @ ys) = xs # chunks n ys"
  by (subst chunks.simps(2)) (auto simp: take_Suc)

text \<open>The reports of a list of pieces: the prices go into the first.\<close>

fun reports_of :: "ccip_lib \<Rightarrow> OutcomeType \<Rightarrow> PriceUpdates \<Rightarrow> MerkleRootChain list list \<Rightarrow> Report list" where
  "reports_of lib ot prices [] = []"
| "reports_of lib ot prices (c # cs) = buildOneReport lib ot c prices # reports_of lib ot PriceUpdates_zero cs"

abbreviation nonempty_report :: "ccip_lib \<Rightarrow> Report \<Rightarrow> bool" where
  "nonempty_report lib r \<equiv> \<not> lib_Report_IsEmpty lib (rep_Report r)"

lemma unat_of_nat_le: "k \<le> unat (m :: u64) \<Longrightarrow> unat (of_nat k :: u64) = k"
  using order_le_less_trans [of k "unat m" "2 ^ 64"] unsigned_less [of m]
  by (simp add: unat_of_nat order_less_le_trans [OF unsigned_less])

lemma of_nat_eq_iff_le: "k \<le> unat (m :: u64) \<Longrightarrow> of_nat k = m \<longleftrightarrow> k = unat m"
  using unat_of_nat_le [of k m] by (simp add: word_unat_eq_iff)

lemma root_report_loop_chunks:
  assumes "root_report_loop lib ot m (of_nat (length acc), acc, prices, reports) rs = (num', acc', prices', reports')"
    and "length acc < unat m"
  shows "\<exists>ds. num' = of_nat (length acc') \<and> length acc' < unat m \<and> reports' = reports @ ds \<and>
    filter (nonempty_report lib) (reports_of lib ot prices (chunks (unat m - 1) (acc @ rs)))
      = ds @ filter (nonempty_report lib) (reports_of lib ot prices' (if acc' = [] then [] else [acc']))"
  using assms
proof (induction rs arbitrary: acc prices reports)
  case Nil
  then show ?case by (auto simp: chunks_short)
next
  case (Cons r rs)
  have m: "length (acc @ [r]) \<le> unat m" using Cons.prems(2) by simp
  then have small: "(1 + of_nat (length acc) :: u64) = m \<longleftrightarrow> Suc (length acc) = unat m"
    using of_nat_eq_iff_le [of "Suc (length acc)" m] by simp
  show ?case
  proof (cases "length (acc @ [r]) = unat m")
    case True
    let ?rep = "buildOneReport lib ot (acc @ [r]) prices"
    let ?reps = "if nonempty_report lib ?rep then reports @ [?rep] else reports"
    have "root_report_loop lib ot m (of_nat (length []), [], PriceUpdates_zero, ?reps) rs = (num', acc', prices', reports')"
      using Cons.prems(1) True small by (simp add: Let_def add.commute)
    from Cons.IH [OF this] Cons.prems(2) obtain d where d: "num' = of_nat (length acc')" "length acc' < unat m" "reports' = ?reps @ d"
      "filter (nonempty_report lib) (reports_of lib ot PriceUpdates_zero (chunks (unat m - 1) rs))
        = d @ filter (nonempty_report lib) (reports_of lib ot prices' (if acc' = [] then [] else [acc']))" by auto
    have "chunks (unat m - 1) ((acc @ [r]) @ rs) = (acc @ [r]) # chunks (unat m - 1) rs"
      using True by (intro chunks_full) simp
    with d show ?thesis by (intro exI [of _ "(if nonempty_report lib ?rep then [?rep] else []) @ d"]) simp
  next
    case False
    then have "root_report_loop lib ot m (of_nat (length (acc @ [r])), acc @ [r], prices, reports) rs = (num', acc', prices', reports')"
      using Cons.prems(1) small by (simp add: Let_def add.commute)
    from Cons.IH [OF this] False m show ?thesis by auto
  qed
qed

lemma buildMultipleMerkleRootReports_eq:
  fixes outcome :: commit_Outcome and config :: CommitOffchainConfig
  assumes "0 < coc_MaxMerkleRootsPerReport config"
  defines "roots \<equiv> mro_RootsToReport (co_MerkleRootOutcome outcome)"
  shows "buildMultipleMerkleRootReports lib outcome config = Ok (filter (nonempty_report lib)
    (reports_of lib (mro_OutcomeType (co_MerkleRootOutcome outcome)) (outcome_prices lib outcome)
      (if roots = [] then [[]] else chunks (unat (coc_MaxMerkleRootsPerReport config) - 1) roots)))"
proof -
  let ?m = "coc_MaxMerkleRootsPerReport config" and ?ot = "mro_OutcomeType (co_MerkleRootOutcome outcome)"
  obtain num acc prices reports where l: "root_report_loop lib ?ot ?m (0, [], outcome_prices lib outcome, []) roots = (num, acc, prices, reports)"
    by (cases "root_report_loop lib ?ot ?m (0, [], outcome_prices lib outcome, []) roots")
  have m: "0 < unat ?m" using assms(1) by (simp add: word_less_nat_alt)
  from root_report_loop_chunks [of lib ?ot ?m "[]" "outcome_prices lib outcome" "[]" roots num acc prices reports] l m
  have d: "num = of_nat (length acc)" "length acc < unat ?m"
    "filter (nonempty_report lib) (reports_of lib ?ot (outcome_prices lib outcome) (chunks (unat ?m - 1) roots))
       = reports @ filter (nonempty_report lib) (reports_of lib ?ot prices (if acc = [] then [] else [acc]))" by auto
  have num: "0 < num \<longleftrightarrow> acc \<noteq> []"
    using d(1) unat_of_nat_le [OF less_imp_le [OF d(2)]] by (auto simp: word_less_nat_alt)
  show ?thesis
  proof (cases "roots = []")
    case True
    with l show ?thesis by (simp add: buildMultipleMerkleRootReports_def Let_def roots_def [symmetric])
  next
    case False
    with l num d(3) show ?thesis by (auto simp: buildMultipleMerkleRootReports_def Let_def roots_def [symmetric])
  qed
qed

lemma price_report_loop_chunks:
  assumes "price_report_loop lib ot m (of_nat (length acc), fold add_update acc PriceUpdates_zero, reports) us = (num', prices', reports')"
    and "length acc < unat m"
  shows "(if 0 < num' then reports' @ [buildOneReport lib ot [] prices'] else reports') = reports @
    map (\<lambda>c. buildOneReport lib ot [] (fold add_update c PriceUpdates_zero)) (chunks (unat m - 1) (acc @ us))"
  using assms
proof (induction us arbitrary: acc reports)
  case Nil
  moreover have "0 < (of_nat (length acc) :: u64) \<longleftrightarrow> acc \<noteq> []"
    using unat_of_nat_le [OF less_imp_le [OF Nil.prems(2)]] by (auto simp: word_less_nat_alt)
  ultimately show ?case by (auto simp: chunks_short)
next
  case (Cons u us)
  have m: "length (acc @ [u]) \<le> unat m" using Cons.prems(2) by simp
  have small: "(1 + of_nat (length acc) :: u64) = m \<longleftrightarrow> Suc (length acc) = unat m"
    using m of_nat_eq_iff_le [of "Suc (length acc)" m] by simp
  show ?case
  proof (cases "length (acc @ [u]) = unat m")
    case True
    let ?reps = "reports @ [buildOneReport lib ot [] (fold add_update (acc @ [u]) PriceUpdates_zero)]"
    have "price_report_loop lib ot m (of_nat (length []), fold add_update [] PriceUpdates_zero, ?reps) us = (num', prices', reports')"
      using Cons.prems(1) True small by (simp add: Let_def add.commute)
    note IH = Cons.IH [OF this]
    have "chunks (unat m - 1) ((acc @ [u]) @ us) = (acc @ [u]) # chunks (unat m - 1) us"
      using True by (intro chunks_full) simp
    then show ?thesis using IH Cons.prems(2) by simp
  next
    case False
    then have "price_report_loop lib ot m (of_nat (length (acc @ [u])), fold add_update (acc @ [u]) PriceUpdates_zero, reports) us = (num', prices', reports')"
      using Cons.prems(1) small by (simp add: Let_def add.commute)
    from Cons.IH [OF this] False m show ?thesis by simp
  qed
qed

lemma buildMultiplePriceReports_eq:
  assumes "0 < m"
  shows "buildMultiplePriceReports lib outcome m =
    map (\<lambda>c. buildOneReport lib (mro_OutcomeType (co_MerkleRootOutcome outcome)) [] (fold add_update c PriceUpdates_zero))
      (chunks (unat m - 1) (price_list lib outcome))"
proof -
  let ?ot = "mro_OutcomeType (co_MerkleRootOutcome outcome)"
  obtain num prices reports where l: "price_report_loop lib ?ot m (0, PriceUpdates_zero, []) (price_list lib outcome) = (num, prices, reports)"
    by (cases "price_report_loop lib ?ot m (0, PriceUpdates_zero, []) (price_list lib outcome)")
  have "0 < unat m" using assms by (simp add: word_less_nat_alt)
  with price_report_loop_chunks [of lib ?ot m "[]" "[]"] l show ?thesis
    by (auto simp: buildMultiplePriceReports_def Let_def)
qed

section \<open>What the reports contain\<close>

abbreviation roots_of :: "Report \<Rightarrow> MerkleRootChain list" where
  "roots_of r \<equiv> cpr_UnblessedMerkleRoots (rep_Report r)"

abbreviation tokens_of :: "Report \<Rightarrow> TokenPrice list" where
  "tokens_of r \<equiv> pu_TokenPriceUpdates (cpr_PriceUpdates (rep_Report r))"

abbreviation gas_of :: "Report \<Rightarrow> GasPriceChain list" where
  "gas_of r \<equiv> pu_GasPriceUpdates (cpr_PriceUpdates (rep_Report r))"

lemma buildOneReport_fields:
  assumes "report_empty_spec lib"
  shows "roots_of (buildOneReport lib ot c p) = (if ot = ReportGenerated then c else [])"
    "cpr_PriceUpdates (rep_Report (buildOneReport lib ot c p)) = p"
    "cpr_BlessedMerkleRoots (rep_Report (buildOneReport lib ot c p)) = []"
    "cri_MerkleRoots (rep_ReportInfo (buildOneReport lib ot c p)) = sort_key mrc_ChainSel (roots_of (buildOneReport lib ot c p))"
    "cri_PriceUpdates (rep_ReportInfo (buildOneReport lib ot c p)) = p"
  using assms
  by (auto simp: buildOneReport_def Let_def report_empty_spec_def Report_zero_def CommitPluginReport_zero_def
      PriceUpdates_zero_def split: if_splits)

lemma nonempty_report_iff:
  assumes "report_empty_spec lib" and "cpr_BlessedMerkleRoots (rep_Report r) = []"
  shows "nonempty_report lib r \<longleftrightarrow> roots_of r \<noteq> [] \<or> tokens_of r \<noteq> [] \<or> gas_of r \<noteq> []"
  using assms by (auto simp: report_empty_spec_def)

lemma concat_filter_nonempty:
  assumes "report_empty_spec lib"
  shows "concat (map roots_of (filter (nonempty_report lib) rs)) = concat (map roots_of rs)"
    "concat (map tokens_of (filter (nonempty_report lib) rs)) = concat (map tokens_of rs)"
    "concat (map gas_of (filter (nonempty_report lib) rs)) = concat (map gas_of rs)"
  using assms by (induction rs) (auto simp: report_empty_spec_def)

lemma reports_of_zero:
  assumes "report_empty_spec lib" and "r \<in> set (reports_of lib ot PriceUpdates_zero cs)"
  shows "cpr_PriceUpdates (rep_Report r) = PriceUpdates_zero"
  using assms by (induction cs) (auto simp: buildOneReport_fields)

lemma reports_of_contents:
  assumes "report_empty_spec lib"
  shows "concat (map roots_of (reports_of lib ot p cs)) = (if ot = ReportGenerated then concat cs else [])"
    "cs \<noteq> [] \<Longrightarrow> concat (map tokens_of (reports_of lib ot p cs)) = pu_TokenPriceUpdates p"
    "cs \<noteq> [] \<Longrightarrow> concat (map gas_of (reports_of lib ot p cs)) = pu_GasPriceUpdates p"
proof -
  show "concat (map roots_of (reports_of lib ot p cs)) = (if ot = ReportGenerated then concat cs else [])"
    by (induction cs arbitrary: p) (simp_all add: buildOneReport_fields [OF assms])
  have z: "concat (map tokens_of (reports_of lib ot PriceUpdates_zero cs)) = []"
    "concat (map gas_of (reports_of lib ot PriceUpdates_zero cs)) = []" for cs
    by (induction cs) (simp_all add: buildOneReport_fields [OF assms], simp_all add: PriceUpdates_zero_def)
  show "cs \<noteq> [] \<Longrightarrow> concat (map tokens_of (reports_of lib ot p cs)) = pu_TokenPriceUpdates p"
    "cs \<noteq> [] \<Longrightarrow> concat (map gas_of (reports_of lib ot p cs)) = pu_GasPriceUpdates p"
    by (cases cs; simp add: buildOneReport_fields [OF assms] z del: concat_map_singleton)+
qed

definition report_ok :: "ccip_lib \<Rightarrow> CommitOffchainConfig \<Rightarrow> Report \<Rightarrow> bool" where
  "report_ok lib config r \<longleftrightarrow> nonempty_report lib r \<and> cpr_BlessedMerkleRoots (rep_Report r) = [] \<and>
     cri_MerkleRoots (rep_ReportInfo r) = sort_key mrc_ChainSel (roots_of r) \<and>
     cri_PriceUpdates (rep_ReportInfo r) = cpr_PriceUpdates (rep_Report r) \<and>
     (0 < coc_MaxMerkleRootsPerReport config \<longrightarrow> length (roots_of r) \<le> unat (coc_MaxMerkleRootsPerReport config)) \<and>
     (0 < coc_MaxPricesPerReport config \<longrightarrow>
        length (tokens_of r) + length (gas_of r) \<le> unat (coc_MaxPricesPerReport config))"

definition partitions :: "Report list \<Rightarrow> MerkleRootChain list \<Rightarrow> PriceUpdates \<Rightarrow> bool" where
  "partitions rs roots prices \<longleftrightarrow> concat (map roots_of rs) = roots \<and>
     concat (map tokens_of rs) = pu_TokenPriceUpdates prices \<and> concat (map gas_of rs) = pu_GasPriceUpdates prices"

definition reported_roots :: "commit_Outcome \<Rightarrow> MerkleRootChain list" where
  "reported_roots outcome = (if mro_OutcomeType (co_MerkleRootOutcome outcome) = ReportGenerated
     then mro_RootsToReport (co_MerkleRootOutcome outcome) else [])"

lemma reports_of_member:
  assumes "r \<in> set (reports_of lib ot p cs)"
  shows "\<exists>c \<in> set cs. \<exists>q. r = buildOneReport lib ot c q \<and> (q = p \<or> q = PriceUpdates_zero)"
  using assms by (induction cs arbitrary: p) auto

lemma root_builders_ok:
  fixes ot :: OutcomeType
  assumes "report_empty_spec lib" and "cs \<noteq> []" and "p = PriceUpdates_zero \<or> coc_MaxPricesPerReport config = 0"
    and "0 < coc_MaxMerkleRootsPerReport config \<Longrightarrow> \<forall>c \<in> set cs. length c \<le> unat (coc_MaxMerkleRootsPerReport config)"
  defines "rs \<equiv> filter (nonempty_report lib) (reports_of lib ot p cs)"
  shows "partitions rs (if ot = ReportGenerated then concat cs else []) p"
    "\<forall>r \<in> set rs. report_ok lib config r" "\<forall>r \<in> set (tl rs). cpr_PriceUpdates (rep_Report r) = PriceUpdates_zero"
proof -
  show "partitions rs (if ot = ReportGenerated then concat cs else []) p"
    using assms(2) by (simp add: partitions_def rs_def concat_filter_nonempty [OF assms(1)] reports_of_contents [OF assms(1)])
  show "\<forall>r \<in> set rs. report_ok lib config r"
    using assms(3,4)
    by (auto simp: rs_def report_ok_def buildOneReport_fields [OF assms(1)] PriceUpdates_zero_def dest!: reports_of_member)
  obtain c cs' where "cs = c # cs'" using assms(2) by (cases cs) auto
  moreover have "set (tl xs) \<subseteq> set xs" for xs :: "Report list" by (cases xs) auto
  ultimately have "r \<in> set (reports_of lib ot PriceUpdates_zero cs')" if "r \<in> set (tl rs)" for r
    using that by (fastforce simp: rs_def split: if_splits)
  then show "\<forall>r \<in> set (tl rs). cpr_PriceUpdates (rep_Report r) = PriceUpdates_zero"
    using reports_of_zero [OF assms(1)] by blast
qed

lemma buildStandardReport_eq:
  "buildStandardReport lib outcome config = Ok (filter (nonempty_report lib)
     (reports_of lib (mro_OutcomeType (co_MerkleRootOutcome outcome)) (outcome_prices lib outcome)
       [mro_RootsToReport (co_MerkleRootOutcome outcome)]))"
  by (simp add: buildStandardReport_def outcome_prices_def Let_def)

lemma chunk_sizes_unat:
  assumes "0 < (m :: u64)" and "c \<in> set (chunks (unat m - 1) xs)"
  shows "length c \<le> unat m"
  using chunks_sizes [OF assms(2)] assms(1) by (simp add: word_less_nat_alt)

text \<open>Either way of building the root reports: the pieces of the roots.\<close>

lemma root_reports_pieces:
  "\<exists>cs. cs \<noteq> [] \<and> concat cs = mro_RootsToReport (co_MerkleRootOutcome outcome) \<and>
    (0 < coc_MaxMerkleRootsPerReport config \<longrightarrow> (\<forall>c \<in> set cs. length c \<le> unat (coc_MaxMerkleRootsPerReport config))) \<and>
    (if coc_MaxMerkleRootsPerReport config = 0 then buildStandardReport lib outcome config
          else buildMultipleMerkleRootReports lib outcome config) =
      Ok (filter (nonempty_report lib) (reports_of lib (mro_OutcomeType (co_MerkleRootOutcome outcome)) (outcome_prices lib outcome) cs))"
proof (cases "coc_MaxMerkleRootsPerReport config = 0")
  case True
  then show ?thesis
    by (intro exI [of _ "[mro_RootsToReport (co_MerkleRootOutcome outcome)]"]) (simp add: buildStandardReport_eq)
next
  case False
  then have m: "0 < coc_MaxMerkleRootsPerReport config" by (simp add: word_neq_0_conv)
  let ?roots = "mro_RootsToReport (co_MerkleRootOutcome outcome)"
  let ?cs = "if ?roots = [] then [[]] else chunks (unat (coc_MaxMerkleRootsPerReport config) - 1) ?roots"
  have c: "concat ?cs = ?roots" by simp
  then have "?cs \<noteq> []" by (auto simp del: concat_chunks)
  with c False show ?thesis
    using buildMultipleMerkleRootReports_eq [OF m] chunk_sizes_unat [OF m]
    by (intro exI [of _ ?cs]) (auto simp del: concat_chunks)
qed

text \<open>The price loop tells a token price from a gas price by comparing with the zero struct; the prices of an
  outcome are never the zero struct (a nil price with an empty token or the chain 0).\<close>

definition real_prices :: "PriceUpdates \<Rightarrow> bool" where
  "real_prices p \<longleftrightarrow> TokenPrice_zero \<notin> set (pu_TokenPriceUpdates p) \<and> GasPriceChain_zero \<notin> set (pu_GasPriceUpdates p)"

lemma fold_add_update:
  "pu_TokenPriceUpdates (fold add_update us p) = pu_TokenPriceUpdates p @ filter (\<lambda>t. t \<noteq> TokenPrice_zero) (map up_TokenPrice us)"
  "pu_GasPriceUpdates (fold add_update us p) = pu_GasPriceUpdates p @ filter (\<lambda>g. g \<noteq> GasPriceChain_zero) (map up_GasPriceChain us)"
  by (induction us arbitrary: p) (auto simp: add_update_def Let_def)

definition real_update :: "update \<Rightarrow> bool" where
  "real_update u \<longleftrightarrow> (up_TokenPrice u \<noteq> TokenPrice_zero) \<noteq> (up_GasPriceChain u \<noteq> GasPriceChain_zero)"

lemma real_updates_length:
  assumes "\<forall>u \<in> set us. real_update u"
  shows "length (filter (\<lambda>t. t \<noteq> TokenPrice_zero) (map up_TokenPrice us)) +
    length (filter (\<lambda>g. g \<noteq> GasPriceChain_zero) (map up_GasPriceChain us)) = length us"
  using assms by (induction us) (auto simp: real_update_def)

lemma price_list_real:
  assumes "real_prices (outcome_prices lib outcome)"
  shows "\<forall>u \<in> set (price_list lib outcome). real_update u"
    "filter (\<lambda>t. t \<noteq> TokenPrice_zero) (map up_TokenPrice (price_list lib outcome)) = pu_TokenPriceUpdates (outcome_prices lib outcome)"
    "filter (\<lambda>g. g \<noteq> GasPriceChain_zero) (map up_GasPriceChain (price_list lib outcome)) = pu_GasPriceUpdates (outcome_prices lib outcome)"
  using assms
  by (auto simp: price_list_def outcome_prices_def real_prices_def real_update_def comp_def filter_map
      intro!: filter_True)

lemma price_reports_ok:
  assumes e: "report_empty_spec lib" and "real_prices (outcome_prices lib outcome)" and m: "0 < coc_MaxPricesPerReport config"
  defines "rs \<equiv> buildMultiplePriceReports lib outcome (coc_MaxPricesPerReport config)"
  shows "partitions rs [] (outcome_prices lib outcome)" "\<forall>r \<in> set rs. report_ok lib config r \<and> roots_of r = []"
proof -
  let ?ot = "mro_OutcomeType (co_MerkleRootOutcome outcome)" and ?us = "price_list lib outcome"
  let ?cs = "chunks (unat (coc_MaxPricesPerReport config) - 1) ?us"
  let ?rep = "\<lambda>c. buildOneReport lib ?ot [] (fold add_update c PriceUpdates_zero)"
  have rs: "rs = map ?rep ?cs" unfolding rs_def by (rule buildMultiplePriceReports_eq [OF m])
  have f: "tokens_of (?rep c) = filter (\<lambda>t. t \<noteq> TokenPrice_zero) (map up_TokenPrice c)"
    "gas_of (?rep c) = filter (\<lambda>g. g \<noteq> GasPriceChain_zero) (map up_GasPriceChain c)" "roots_of (?rep c) = []" for c
    by (simp_all add: buildOneReport_fields [OF e] fold_add_update) (simp_all add: PriceUpdates_zero_def)
  have "concat (map tokens_of rs) = filter (\<lambda>t. t \<noteq> TokenPrice_zero) (map up_TokenPrice (concat ?cs))"
    "concat (map gas_of rs) = filter (\<lambda>g. g \<noteq> GasPriceChain_zero) (map up_GasPriceChain (concat ?cs))"
    unfolding rs by (simp_all add: comp_def f filter_concat map_concat del: concat_chunks)
  then show "partitions rs [] (outcome_prices lib outcome)"
    using price_list_real [OF assms(2)] by (simp add: partitions_def rs comp_def f)
  show "\<forall>r \<in> set rs. report_ok lib config r \<and> roots_of r = []"
  proof
    fix r assume "r \<in> set rs"
    then obtain c where c: "c \<in> set ?cs" "r = ?rep c" by (auto simp: rs)
    have "set c \<subseteq> set ?us" using c(1) concat_chunks [of "unat (coc_MaxPricesPerReport config) - 1" ?us] by (metis Union_upper image_eqI set_concat)
    then have n: "length (tokens_of r) + length (gas_of r) = length c"
      using price_list_real(1) [OF assms(2)] unfolding c(2) f by (intro real_updates_length) blast
    moreover have "c \<noteq> []" "length c \<le> unat (coc_MaxPricesPerReport config)"
      using chunks_sizes [OF c(1)] chunk_sizes_unat [OF m c(1)] by auto
    ultimately have "nonempty_report lib r"
      by (subst nonempty_report_iff [OF e]) (auto simp: c(2) buildOneReport_fields(3) [OF e])
    with n \<open>length c \<le> _\<close> show "report_ok lib config r \<and> roots_of r = []"
      by (auto simp: report_ok_def c(2) f(3) buildOneReport_fields [OF e])
  qed
qed

lemma partitions_append:
  "partitions rs roots p \<Longrightarrow> partitions rs' roots' PriceUpdates_zero \<Longrightarrow> partitions (rs @ rs') (roots @ roots') p"
  by (simp add: partitions_def PriceUpdates_zero_def)

text \<open>C40. For every configuration of the builder, the reports of an outcome exist, none is empty, their roots
  concatenate to the roots of a generated outcome (and to nothing otherwise), their prices to the prices of
  the outcome, each respects the configured maximum of roots and of prices, the info matches the report, and
  without a price limit all prices are in the first report.\<close>

theorem builder_reports_partition:
  assumes "report_empty_spec lib" and "sorted_slice_spec lib" and "real_prices (outcome_prices lib outcome)"
  shows "\<exists>rs. NewReportBuilder lib (coc_MaxMerkleRootsPerReport config) (coc_MaxPricesPerReport config) outcome config = Ok rs \<and>
    partitions rs (reported_roots outcome) (outcome_prices lib outcome) \<and> (\<forall>r \<in> set rs. report_ok lib config r) \<and>
    (coc_MaxPricesPerReport config = 0 \<longrightarrow> (\<forall>r \<in> set (tl rs). cpr_PriceUpdates (rep_Report r) = PriceUpdates_zero))"
proof (cases "coc_MaxPricesPerReport config = 0")
  case True
  obtain cs where cs: "cs \<noteq> []" "concat cs = mro_RootsToReport (co_MerkleRootOutcome outcome)"
    "0 < coc_MaxMerkleRootsPerReport config \<Longrightarrow> \<forall>c \<in> set cs. length c \<le> unat (coc_MaxMerkleRootsPerReport config)"
    "(if coc_MaxMerkleRootsPerReport config = 0 then buildStandardReport lib outcome config
          else buildMultipleMerkleRootReports lib outcome config) =
      Ok (filter (nonempty_report lib) (reports_of lib (mro_OutcomeType (co_MerkleRootOutcome outcome)) (outcome_prices lib outcome) cs))"
    using root_reports_pieces [of outcome config lib] by blast
  have "NewReportBuilder lib (coc_MaxMerkleRootsPerReport config) (coc_MaxPricesPerReport config) outcome config =
      (if coc_MaxMerkleRootsPerReport config = 0 then buildStandardReport lib outcome config
          else buildMultipleMerkleRootReports lib outcome config)"
    using True by (simp add: NewReportBuilder_def word_neq_0_conv)
  moreover note root_builders_ok [OF assms(1) cs(1) disjI2 [OF True] cs(3), of "mro_OutcomeType (co_MerkleRootOutcome outcome)"
      "outcome_prices lib outcome"]
  moreover have "reported_roots outcome = (if mro_OutcomeType (co_MerkleRootOutcome outcome) = ReportGenerated then concat cs else [])"
    by (simp add: reported_roots_def cs(2))
  ultimately show ?thesis using cs(4) by (auto simp del: set_filter)
next
  case False
  then have m: "0 < coc_MaxPricesPerReport config" by (simp add: word_neq_0_conv)
  let ?o = "outcome\<lparr>co_TokenPriceOutcome := (co_TokenPriceOutcome outcome)\<lparr>tko_TokenPrices := []\<rparr>,
                    co_ChainFeeOutcome := (co_ChainFeeOutcome outcome)\<lparr>cfout_GasPrices := []\<rparr>\<rparr>"
  have "lib_ToSortedSlice lib [] = []"
    using assms(2) unfolding sorted_slice_spec_def by (metis gm_ok_Nil list.map(1) mset.simps(1) mset_zero_iff)
  then have z: "outcome_prices lib ?o = PriceUpdates_zero" by (simp add: outcome_prices_def PriceUpdates_zero_def)
  obtain cs where cs: "cs \<noteq> []" "concat cs = mro_RootsToReport (co_MerkleRootOutcome ?o)"
    "0 < coc_MaxMerkleRootsPerReport config \<Longrightarrow> \<forall>c \<in> set cs. length c \<le> unat (coc_MaxMerkleRootsPerReport config)"
    "(if coc_MaxMerkleRootsPerReport config = 0 then buildStandardReport lib ?o config
          else buildMultipleMerkleRootReports lib ?o config) =
      Ok (filter (nonempty_report lib) (reports_of lib (mro_OutcomeType (co_MerkleRootOutcome ?o)) (outcome_prices lib ?o) cs))"
    using root_reports_pieces [of ?o config lib] by blast
  let ?roots = "filter (nonempty_report lib) (reports_of lib (mro_OutcomeType (co_MerkleRootOutcome ?o)) PriceUpdates_zero cs)"
  let ?prices = "buildMultiplePriceReports lib outcome (coc_MaxPricesPerReport config)"
  note p = price_reports_ok [OF assms(1,3) m]
  note r = root_builders_ok [OF assms(1) cs(1) _ cs(3), of PriceUpdates_zero]
  have "check_all (\<lambda>report. check_that (nonempty_report lib report) (Err ''price report should not be empty'')) ?prices = Ok ()"
    using p(2) by (simp add: check_all_Ok_iff report_ok_def)
  then have "NewReportBuilder lib (coc_MaxMerkleRootsPerReport config) (coc_MaxPricesPerReport config) outcome config = Ok (?prices @ ?roots)"
    using m cs(4) by (simp add: NewReportBuilder_def buildMultiplePriceAndMerkleRootReports_def Let_def z
        split: if_splits)
  moreover have "partitions (?prices @ ?roots) ([] @ reported_roots outcome) (outcome_prices lib outcome)"
    using p(1) r(1) [of "mro_OutcomeType (co_MerkleRootOutcome ?o)"] cs(2) by (intro partitions_append) (auto simp: reported_roots_def)
  ultimately show ?thesis using False p(2) r(2) by auto
qed

definition sample_commit_outcome :: commit_Outcome where
  "sample_commit_outcome = \<lparr>
     co_MerkleRootOutcome = mr_Outcome_zero\<lparr>mro_OutcomeType := ReportGenerated,
       mro_RootsToReport := map (\<lambda>c. \<lparr>mrc_ChainSel = c, mrc_OnRampAddress = [1], mrc_SeqNumsRange = \<lparr>sr_Start = 1, sr_End = 2\<rparr>,
         mrc_MerkleRoot = [7]\<rparr>) [5, 4, 6]\<rparr>,
     co_TokenPriceOutcome = \<lparr>tko_TokenPrices = [(''b'', Some 2), (''a'', Some 3)]\<rparr>,
     co_ChainFeeOutcome = \<lparr>cfout_GasPrices = [\<lparr>gp_ChainSel = 4, gp_GasPrice = Some 9\<rparr>]\<rparr>,
     co_MainOutcome = MainOutcome_zero\<rparr>"

theorem builder_reports_partition_witness:
  "\<exists>rs. NewReportBuilder sample_lib 2 2 sample_commit_outcome
      (sample_commit_config\<lparr>coc_MaxMerkleRootsPerReport := 2, coc_MaxPricesPerReport := 2\<rparr>) = Ok rs \<and>
    partitions rs (reported_roots sample_commit_outcome) (outcome_prices sample_lib sample_commit_outcome) \<and>
    (\<forall>r \<in> set rs. report_ok sample_lib (sample_commit_config\<lparr>coc_MaxMerkleRootsPerReport := 2, coc_MaxPricesPerReport := 2\<rparr>) r)"
proof -
  have "real_prices (outcome_prices sample_lib sample_commit_outcome)" by code_simp
  from builder_reports_partition [OF sample_lib_specs(1,2) this,
      of "sample_commit_config\<lparr>coc_MaxMerkleRootsPerReport := 2, coc_MaxPricesPerReport := 2\<rparr>"]
  show ?thesis by auto
qed

end
