(* ===== verification/CommitPlugin.thy ===== *)
theory CommitPlugin
  imports MerkleRootObserve Discovery CommitReport
begin

text \<open>
  The commit plugin (commit/plugin.go, plugin\_old.go, report.go, validate\_observation.go): the composition of
  the four processors over one OCR round, the tracking of prices that are in flight, and the checks on a
  report before it is accepted and transmitted.

  A method of the plugin that changes it returns the new plugin beside its result. The codecs are interfaces
  the plugin receives. The three query structs are empty, so a decoded query is \<^typ>\<open>unit\<close>. Metrics and logs
  are left out.
\<close>

section \<open>Types\<close>

record commit_Observation =
  cob_MerkleRootObs :: mr_Observation
  cob_TokenPriceObs :: tk_Observation
  cob_ChainFeeObs :: cf_Observation
  cob_DiscoveryObs :: dt_Observation
  cob_FChain :: "(ChainSelector, int) gomap"
  cob_OnChainPriceOcrSeqNum :: u64

type_synonym commit_ao = "commit_Observation AttributedObservation"
type_synonym raw_ao = "byte list AttributedObservation"

definition tk_Observation_zero :: tk_Observation where
  "tk_Observation_zero = \<lparr>tkb_FeedTokenPrices = [], tkb_FeeQuoterTokenUpdates = [], tkb_FChain = [], tkb_Timestamp = 0\<rparr>"

definition cf_Observation_zero :: cf_Observation where
  "cf_Observation_zero = \<lparr>cfo_FeeComponents = [], cfo_NativeTokenPrices = [], cfo_ChainFeeUpdates = [], cfo_FChain = [],
     cfo_TimestampNow = 0\<rparr>"

definition commit_Observation_zero :: commit_Observation where
  "commit_Observation_zero = \<lparr>cob_MerkleRootObs = mr_Observation_zero, cob_TokenPriceObs = tk_Observation_zero,
     cob_ChainFeeObs = cf_Observation_zero, cob_DiscoveryObs = dt_Observation_zero, cob_FChain = [],
     cob_OnChainPriceOcrSeqNum = 0\<rparr>"

text \<open>The interface \<open>CommitCodec\<close> of pkg/ocrtypecodec, and the codecs of the report and of its info.\<close>

record commit_codec =
  cdc_EncodeQuery :: "byte list result"
  cdc_DecodeQuery :: "byte list \<Rightarrow> unit result"
  cdc_EncodeObservation :: "commit_Observation \<Rightarrow> byte list result"
  cdc_DecodeObservation :: "byte list \<Rightarrow> commit_Observation result"
  cdc_EncodeOutcome :: "commit_Outcome \<Rightarrow> byte list result"
  cdc_DecodeOutcome :: "byte list \<Rightarrow> commit_Outcome result"

record report_codec =
  rc_Encode :: "CommitPluginReport \<Rightarrow> byte list result"
  rc_Decode :: "byte list \<Rightarrow> CommitPluginReport result"
  rc_EncodeInfo :: "CommitReportInfo \<Rightarrow> byte list result"
  rc_DecodeInfo :: "byte list \<Rightarrow> CommitReportInfo result"

record commit_Plugin =
  cpl_oracleID :: OracleID
  cpl_oracleIDToP2PID :: "(OracleID, PeerID) gomap"
  cpl_offchainCfg :: CommitOffchainConfig
  cpl_ccipReader :: ccip_reader
  cpl_reportCodec :: report_codec
  cpl_reportBuilder :: "commit_Outcome \<Rightarrow> CommitOffchainConfig \<Rightarrow> Report list result"
  cpl_homeChain :: homeChainPoller
  cpl_reportingCfg :: ReportingPluginConfig
  cpl_configDigest :: Bytes32
  cpl_chainSupport :: ccipChainSupport
  cpl_destChain :: ChainSelector
  cpl_merkleRootObserver :: mr_observer
  cpl_merkleRootConfig :: mr_config
  cpl_tokenPriceProcessor :: tk_processor
  cpl_chainFeeProcessor :: cf_processor
  cpl_discoveryProcessor :: "ContractDiscoveryProcessor option"
  cpl_ocrTypeCodec :: commit_codec
  cpl_contractsInitialized :: bool

text \<open>What happens around one call of \<open>Observation\<close>: the background synchronisations of the price caches
  before each read, and the clock readings.\<close>

record round_env =
  re_tkOps1 :: "tk_sync_op list"
  re_tkOps2 :: "tk_sync_op list"
  re_cfOps1 :: "cf_sync_op list"
  re_cfOps2 :: "cf_sync_op list"
  re_cfOps3 :: "cf_sync_op list"
  re_tkNow :: time
  re_cfNow :: time

text \<open>An error that is logged: the code goes on with the zero value the call returned beside it.\<close>

definition or_zero :: "'a \<Rightarrow> 'a result \<Rightarrow> 'a result" where
  "or_zero z r = (case r of Error _ \<Rightarrow> Ok z | r \<Rightarrow> r)"

text \<open>\<open>rbind\<close> for a method that returns the plugin beside its result.\<close>

fun pbind :: "'p \<Rightarrow> 'a result \<Rightarrow> ('a \<Rightarrow> 'p \<times> 'b result) \<Rightarrow> 'p \<times> 'b result" where
  "pbind p (Ok x) f = f x"
| "pbind p (Error e) f = (p, Error e)"
| "pbind p Panic f = (p, Panic)"

section \<open>NewPlugin and Query\<close>

text \<open>\<open>MaxMerkleTreeSize\<close> is defaulted before the processors are made. \<open>mrObserver\<close> is the merkle root
  observer that \<open>merkleroot.NewProcessor\<close> makes for the defaulted configuration.\<close>

definition NewPlugin ::
  "ccip_lib \<Rightarrow> (OracleID, PeerID) gomap \<Rightarrow> CommitOffchainConfig \<Rightarrow> ChainSelector \<Rightarrow> ccip_reader \<Rightarrow> price_reader option \<Rightarrow>
   report_codec \<Rightarrow> homeChainPoller \<Rightarrow> ReportingPluginConfig \<Rightarrow> OracleID \<Rightarrow> Bytes32 \<Rightarrow> mr_observer \<Rightarrow> commit_codec \<Rightarrow>
   (commit_Outcome \<Rightarrow> CommitOffchainConfig \<Rightarrow> Report list result) \<Rightarrow> commit_Plugin" where
  "NewPlugin lib oracleIDToP2pID offchainCfg destChain ccipReader tokenPricesReader reportCodec homeChain reportingCfg
     oracleID configDigest mrObserver codec reportBuilder =
     (let offchainCfg = (if coc_MaxMerkleTreeSize offchainCfg = 0
                         then offchainCfg\<lparr>coc_MaxMerkleTreeSize := of_nat (lib_MaxNumberTreeLeaves lib)\<rparr> else offchainCfg);
          chainSupport = \<lparr>cs_homeChain = Some homeChain, cs_oracleIDToP2PID = oracleIDToP2pID, cs_nodeID = oracleID,
                          cs_destChain = destChain\<rparr>;
          mrConfig = \<lparr>mrcfg_MaxMerkleTreeSize = coc_MaxMerkleTreeSize offchainCfg,
                      mrcfg_MaxReportTransmissionCheckAttempts = coc_MaxReportTransmissionCheckAttempts offchainCfg,
                      mrcfg_MultipleReportsEnabled = coc_MultipleReportsEnabled offchainCfg,
                      mrcfg_destChain = destChain, mrcfg_F = rpc_F reportingCfg\<rparr>
      in \<lparr>cpl_oracleID = oracleID, cpl_oracleIDToP2PID = oracleIDToP2pID, cpl_offchainCfg = offchainCfg,
          cpl_ccipReader = ccipReader, cpl_reportCodec = reportCodec, cpl_reportBuilder = reportBuilder,
          cpl_homeChain = homeChain, cpl_reportingCfg = reportingCfg, cpl_configDigest = configDigest,
          cpl_chainSupport = chainSupport, cpl_destChain = destChain,
          cpl_merkleRootObserver = mrObserver, cpl_merkleRootConfig = mrConfig,
          cpl_tokenPriceProcessor =
            tk_NewProcessor oracleID offchainCfg destChain chainSupport tokenPricesReader homeChain (rpc_F reportingCfg),
          cpl_chainFeeProcessor =
            cf_NewProcessor oracleID destChain homeChain ccipReader offchainCfg chainSupport (rpc_F reportingCfg),
          cpl_discoveryProcessor =
            NewContractDiscoveryProcessor ccipReader homeChain destChain (rpc_F reportingCfg) oracleIDToP2pID oracleID,
          cpl_ocrTypeCodec = codec, cpl_contractsInitialized = False\<rparr>)"

definition commit_Query_method :: "commit_Plugin \<Rightarrow> byte list \<Rightarrow> byte list result" where
  "commit_Query_method p previousOutcome =
     rbind (wrap_err ''decode previous outcome'' (cdc_DecodeOutcome (cpl_ocrTypeCodec p) previousOutcome)) (\<lambda>_.
       cdc_EncodeQuery (cpl_ocrTypeCodec p))"

section \<open>Observation\<close>

definition commit_ObserveFChain :: "commit_Plugin \<Rightarrow> (ChainSelector, int) gomap result" where
  "commit_ObserveFChain p = or_zero [] (GetFChain (cpl_homeChain p))"

definition observeOnChainPriceOcrSeqNum :: "commit_Plugin \<Rightarrow> u64 result" where
  "observeOnChainPriceOcrSeqNum p =
     rbind (wrap_err ''check if oracle supports the destination chain''
              (SupportsDestChain (cpl_chainSupport p) (cpl_oracleID p))) (\<lambda>supportsDest.
       if \<not> supportsDest then Ok 0
       else wrap_err ''get latest on-chain price seq number'' (rd_GetLatestPriceSeqNr (cpl_ccipReader p)))"

text \<open>The two price observations, made by two goroutines; each works on a processor of its own.
  \<open>invalidateCache\<close> is the value the context carries under \<open>InvalidateCacheKey\<close>.\<close>

definition observe_prices ::
  "commit_Plugin \<Rightarrow> bool \<Rightarrow> round_env \<Rightarrow> commit_Plugin \<times> (tk_Observation \<times> cf_Observation) result" where
  "observe_prices p invalidateCache env =
     (let (tk, tokenPriceObs) = tk_Observation_method (cpl_tokenPriceProcessor p) invalidateCache
            (re_tkOps1 env) (re_tkOps2 env) (re_tkNow env);
          (cf, chainFeeObs) = cf_Observation_method (cpl_chainFeeProcessor p) invalidateCache
            (re_cfOps1 env) (re_cfOps2 env) (re_cfOps3 env) (re_cfNow env)
      in (p\<lparr>cpl_tokenPriceProcessor := tk, cpl_chainFeeProcessor := cf\<rparr>,
          rbind (or_zero tk_Observation_zero tokenPriceObs) (\<lambda>tokenPriceObs.
          rbind (or_zero cf_Observation_zero chainFeeObs) (\<lambda>chainFeeObs. Ok (tokenPriceObs, chainFeeObs)))))"

definition getPriceObservations ::
  "commit_Plugin \<Rightarrow> round_env \<Rightarrow> commit_Plugin \<times> (tk_Observation \<times> cf_Observation) result" where
  "getPriceObservations p env = observe_prices p False env"

definition observe_discovery :: "commit_Plugin \<Rightarrow> dt_Observation result" where
  "observe_discovery p =
     (case cpl_discoveryProcessor p of
        None \<Rightarrow> Ok dt_Observation_zero
      | Some cdp \<Rightarrow> or_zero dt_Observation_zero (dt_Observation_method cdp))"

text \<open>The observation of an initialised plugin, before it is encoded.\<close>

definition commit_observe ::
  "commit_Plugin \<Rightarrow> round_env \<Rightarrow> dt_Observation \<Rightarrow> commit_Outcome \<Rightarrow> commit_Plugin \<times> commit_Observation result" where
  "commit_observe p env discoveryObs prevOutcome =
     pbind p (or_zero mr_Observation_zero
                (mr_Observation_method (cpl_merkleRootObserver p) (co_MerkleRootOutcome prevOutcome))) (\<lambda>merkleRootObs.
     pbind p (commit_ObserveFChain p) (\<lambda>fChain.
       let obs = commit_Observation_zero\<lparr>cob_MerkleRootObs := merkleRootObs, cob_DiscoveryObs := discoveryObs,
                   cob_FChain := fChain\<rparr>
       in if 0 < mo_InflightPriceOcrSequenceNumber (co_MainOutcome prevOutcome)
          then (p, rbind (or_zero 0 (observeOnChainPriceOcrSeqNum p)) (\<lambda>n. Ok (obs\<lparr>cob_OnChainPriceOcrSeqNum := n\<rparr>)))
          else let (p', prices) = getPriceObservations p env
               in (p', rbind prices (\<lambda>(tokenPriceObs, chainFeeObs).
                         Ok (obs\<lparr>cob_TokenPriceObs := tokenPriceObs, cob_ChainFeeObs := chainFeeObs\<rparr>)))))"

text \<open>The old logic (plugin\_old.go): whether to wait for prices in flight is decided from this oracle's own read
  of the chain. The result of the first two steps is \<open>Inl\<close> for the early return without prices, and otherwise
  \<open>Inr (waiting, invalidatePriceCache)\<close>. A failed read returns early.\<close>

definition price_wait :: "commit_Plugin \<Rightarrow> MainOutcome \<Rightarrow> (unit + bool \<times> bool) result" where
  "price_wait p prevMain =
     (if 0 < mo_InflightPriceOcrSequenceNumber prevMain \<and> mo_RemainingPriceChecks prevMain \<noteq> 0
      then (case rd_GetLatestPriceSeqNr (cpl_ccipReader p) of
              Panic \<Rightarrow> Panic
            | Error _ \<Rightarrow> Ok (Inl ())
            | Ok latestPriceOcrSeqNum \<Rightarrow>
                if mo_InflightPriceOcrSequenceNumber prevMain \<le> latestPriceOcrSeqNum
                then Ok (Inr (False, True)) else Ok (Inr (True, False)))
      else Ok (Inr (False, False)))"

definition getPriceRelatedObservations ::
  "commit_Plugin \<Rightarrow> round_env \<Rightarrow> commit_Outcome \<Rightarrow> commit_Plugin \<times> (tk_Observation \<times> cf_Observation) result" where
  "getPriceRelatedObservations p env prevOutcome =
     (let no_prices = rbind (commit_ObserveFChain p) (\<lambda>fChain.
            Ok (tk_Observation_zero\<lparr>tkb_FChain := fChain, tkb_Timestamp := re_tkNow env\<rparr>,
                cf_Observation_zero\<lparr>cfo_FChain := fChain, cfo_TimestampNow := re_cfNow env\<rparr>))
      in pbind p (price_wait p (co_MainOutcome prevOutcome)) (\<lambda>w.
           case w of
             Inl _ \<Rightarrow> (p, no_prices)
           | Inr (waiting, invalidatePriceCache) \<Rightarrow>
               if waiting then (p, no_prices) else observe_prices p invalidatePriceCache env))"

definition commit_observe_old ::
  "commit_Plugin \<Rightarrow> round_env \<Rightarrow> dt_Observation \<Rightarrow> commit_Outcome \<Rightarrow> commit_Plugin \<times> commit_Observation result" where
  "commit_observe_old p env discoveryObs prevOutcome =
     pbind p (or_zero mr_Observation_zero
                (mr_Observation_method (cpl_merkleRootObserver p) (co_MerkleRootOutcome prevOutcome))) (\<lambda>merkleRootObs.
       let (p', prices) = getPriceRelatedObservations p env prevOutcome
       in pbind p' prices (\<lambda>(tokenPriceObs, chainFeeObs).
          (p', rbind (commit_ObserveFChain p') (\<lambda>fChain.
             Ok (commit_Observation_zero\<lparr>cob_MerkleRootObs := merkleRootObs, cob_TokenPriceObs := tokenPriceObs,
                   cob_ChainFeeObs := chainFeeObs, cob_DiscoveryObs := discoveryObs, cob_FChain := fChain\<rparr>)))))"

definition DonBreakingChangesVersion1RoleDonSupport :: int where
  "DonBreakingChangesVersion1RoleDonSupport = 1"

definition old_logic :: "commit_Plugin \<Rightarrow> bool" where
  "old_logic p \<longleftrightarrow> coc_DonBreakingChangesVersion (cpl_offchainCfg p) < DonBreakingChangesVersion1RoleDonSupport"

text \<open>What \<open>Observation\<close> and \<open>observationOld\<close> share: a plugin whose contracts are not initialised observes
  only contract addresses, before it decodes anything.\<close>

definition observation_with ::
  "(commit_Plugin \<Rightarrow> round_env \<Rightarrow> dt_Observation \<Rightarrow> commit_Outcome \<Rightarrow> commit_Plugin \<times> commit_Observation result) \<Rightarrow>
   commit_Plugin \<Rightarrow> round_env \<Rightarrow> byte list \<Rightarrow> byte list \<Rightarrow> commit_Plugin \<times> byte list result" where
  "observation_with observe p env previousOutcome q =
     pbind p (observe_discovery p) (\<lambda>discoveryObs.
       if \<not> cpl_contractsInitialized p \<and> cpl_discoveryProcessor p \<noteq> None
       then (p, wrap_err ''encode discovery observation''
                  (cdc_EncodeObservation (cpl_ocrTypeCodec p) (commit_Observation_zero\<lparr>cob_DiscoveryObs := discoveryObs\<rparr>)))
       else
       pbind p (wrap_err ''decode previous outcome'' (cdc_DecodeOutcome (cpl_ocrTypeCodec p) previousOutcome)) (\<lambda>prevOutcome.
       pbind p (wrap_err ''decode query'' (cdc_DecodeQuery (cpl_ocrTypeCodec p) q)) (\<lambda>_.
         let (p', obs) = observe p env discoveryObs prevOutcome
         in (p', rbind obs (\<lambda>obs. wrap_err ''encode observation'' (cdc_EncodeObservation (cpl_ocrTypeCodec p) obs))))))"

definition observationOld ::
  "commit_Plugin \<Rightarrow> round_env \<Rightarrow> byte list \<Rightarrow> byte list \<Rightarrow> commit_Plugin \<times> byte list result" where
  "observationOld = observation_with commit_observe_old"

definition commit_Observation_method ::
  "commit_Plugin \<Rightarrow> round_env \<Rightarrow> byte list \<Rightarrow> byte list \<Rightarrow> commit_Plugin \<times> byte list result" where
  "commit_Observation_method p env previousOutcome q =
     (if old_logic p then observationOld p env previousOutcome q
      else observation_with commit_observe p env previousOutcome q)"

section \<open>ValidateObservation and ObservationQuorum\<close>

text \<open>\<open>quorumhelper.ObservationCountReachesObservationQuorum\<close> of libocr is the first argument, at
  \<open>QuorumTwoFPlusOne\<close>; it receives N, F and the observations.\<close>

definition ObservationQuorum ::
  "(int \<Rightarrow> int \<Rightarrow> raw_ao list \<Rightarrow> bool) \<Rightarrow> commit_Plugin \<Rightarrow> raw_ao list \<Rightarrow> bool result" where
  "ObservationQuorum reachesTwoFPlusOne p aos =
     Ok (reachesTwoFPlusOne (rpc_N (cpl_reportingCfg p)) (rpc_F (cpl_reportingCfg p)) aos)"

text \<open>The checks on a decoded observation; the two clock readings are those of the price processors.\<close>

definition validate_decoded ::
  "ccip_lib \<Rightarrow> contract_names \<Rightarrow> commit_Plugin \<Rightarrow> time \<Rightarrow> time \<Rightarrow> commit_ao \<Rightarrow> unit result" where
  "validate_decoded lib cn p tkNow cfNow ao =
     (let obs = ao_Observation ao in
      rbind (wrap_err ''failed to validate FChain'' (ValidateFChain (cob_FChain obs))) (\<lambda>_.
      rbind (wrap_err ''validate merkle roots observation''
               (mr_ValidateObservation lib (cpl_chainSupport p)
                  \<lparr>ao_OracleID = ao_OracleID ao, ao_Observation = cob_MerkleRootObs obs\<rparr>)) (\<lambda>_.
      rbind (wrap_err ''validate token prices observation''
               (tk_ValidateObservation lib (cpl_tokenPriceProcessor p) tkNow
                  \<lparr>ao_OracleID = ao_OracleID ao, ao_Observation = cob_TokenPriceObs obs\<rparr>)) (\<lambda>_.
      rbind (wrap_err ''validate chain fee observation''
               (cf_ValidateObservation (cpl_chainFeeProcessor p) cfNow
                  \<lparr>ao_OracleID = ao_OracleID ao, ao_Observation = cob_ChainFeeObs obs\<rparr>)) (\<lambda>_.
      case cpl_discoveryProcessor p of
        None \<Rightarrow> Ok ()
      | Some cdp \<Rightarrow>
          wrap_err ''validate discovery observation''
            (dt_ValidateObservation cn cdp
               \<lparr>ao_OracleID = ao_OracleID ao, ao_Observation = cob_DiscoveryObs obs\<rparr>))))))"

definition commit_ValidateObservation ::
  "ccip_lib \<Rightarrow> contract_names \<Rightarrow> commit_Plugin \<Rightarrow> time \<Rightarrow> time \<Rightarrow> byte list \<Rightarrow> byte list \<Rightarrow> raw_ao \<Rightarrow> unit result" where
  "commit_ValidateObservation lib cn p tkNow cfNow previousOutcome q ao =
     rbind (wrap_err ''decode query'' (cdc_DecodeQuery (cpl_ocrTypeCodec p) q)) (\<lambda>_.
     rbind (wrap_err ''failed to decode commit plugin observation''
              (cdc_DecodeObservation (cpl_ocrTypeCodec p) (ao_Observation ao))) (\<lambda>obs.
     rbind (wrap_err ''decode previous outcome'' (cdc_DecodeOutcome (cpl_ocrTypeCodec p) previousOutcome)) (\<lambda>_.
       validate_decoded lib cn p tkNow cfNow \<lparr>ao_OracleID = ao_OracleID ao, ao_Observation = obs\<rparr>)))"

section \<open>Outcome\<close>

text \<open>The loop that decodes the observations; one that cannot be decoded is skipped. A panic of the codec
  ends the call.\<close>

fun decode_observations :: "commit_codec \<Rightarrow> raw_ao list \<Rightarrow> commit_ao list result" where
  "decode_observations codec [] = Ok []"
| "decode_observations codec (ao # aos) =
     (case cdc_DecodeObservation codec (ao_Observation ao) of
        Panic \<Rightarrow> Panic
      | Error _ \<Rightarrow> decode_observations codec aos
      | Ok obs \<Rightarrow> rbind (decode_observations codec aos) (\<lambda>rest.
          Ok (\<lparr>ao_OracleID = ao_OracleID ao, ao_Observation = obs\<rparr> # rest)))"

definition project :: "(commit_Observation \<Rightarrow> 'a) \<Rightarrow> commit_ao list \<Rightarrow> 'a AttributedObservation list" where
  "project f aos = map (\<lambda>ao. \<lparr>ao_OracleID = ao_OracleID ao, ao_Observation = f (ao_Observation ao)\<rparr>) aos"

definition observed_seq_nums :: "commit_ao list \<Rightarrow> u64 list" where
  "observed_seq_nums aos = filter (\<lambda>n. 0 < n) (map (\<lambda>ao. cob_OnChainPriceOcrSeqNum (ao_Observation ao)) aos)"

definition getMainOutcomeAndCacheInvalidation ::
  "ccip_lib \<Rightarrow> commit_Plugin \<Rightarrow> commit_Outcome \<Rightarrow> u64 list \<Rightarrow> (ChainSelector, int list) gomap \<Rightarrow> (MainOutcome \<times> bool) result" where
  "getMainOutcomeAndCacheInvalidation lib p prevOutcome observedOnChainOcrSeqNums fChainObservations =
     (let prevMain = co_MainOutcome prevOutcome in
      if mo_InflightPriceOcrSequenceNumber prevMain = 0 \<or> mo_RemainingPriceChecks prevMain = 0
      then Ok (MainOutcome_zero, False)
      else if 0 \<in> set observedOnChainOcrSeqNums
      then Error (Err ''observed ocr seq num cannot be zero at this point'')
      else
      let donThresh = MakeConstantThreshold (TwoFPlus1 (rpc_F (cpl_reportingCfg p)));
          fChainConsensus = GetConsensusMap (lib_sum_int lib) fChainObservations donThresh
      in case map_of fChainConsensus (cpl_destChain p) of
           None \<Rightarrow> Error (Err ''no fDestChain'')
         | Some fDestChain \<Rightarrow>
             if LtFPlusOne fDestChain (int (length observedOnChainOcrSeqNums))
             then Error (Err ''onChainOcrSeqNums no consensus'')
             else
             rbind (slice_get (sort observedOnChainOcrSeqNums) fDestChain) (\<lambda>consensusOnChainOcrSeqNum.
               if mo_InflightPriceOcrSequenceNumber prevMain \<le> consensusOnChainOcrSeqNum
               then Ok (MainOutcome_zero, True)
               else Ok (\<lparr>mo_InflightPriceOcrSequenceNumber = mo_InflightPriceOcrSequenceNumber prevMain,
                         mo_RemainingPriceChecks = s64 (mo_RemainingPriceChecks prevMain - 1)\<rparr>, False)))"

definition initialize_contracts :: "commit_Plugin \<Rightarrow> commit_Plugin" where
  "initialize_contracts p = (if cpl_discoveryProcessor p \<noteq> None then p\<lparr>cpl_contractsInitialized := True\<rparr> else p)"

definition has_prices :: "tk_Outcome \<Rightarrow> cf_Outcome \<Rightarrow> bool" where
  "has_prices tk cf \<longleftrightarrow> tko_TokenPrices tk \<noteq> [] \<or> cfout_GasPrices cf \<noteq> []"

text \<open>The outcome of the decoded observations. The addresses the discovery processor agrees on go to a
  goroutine that binds them to the reader (\<open>agreed_contracts\<close>); it never fails, so the contracts count as
  initialised after the first outcome.\<close>

definition commit_outcome ::
  "ccip_lib \<Rightarrow> commit_Plugin \<Rightarrow> u64 \<Rightarrow> commit_Outcome \<Rightarrow> commit_ao list \<Rightarrow> commit_Plugin \<times> commit_Outcome result" where
  "commit_outcome lib p seqNr prevOutcome aos =
     (let p = initialize_contracts p in
      pbind p (or_zero mr_Outcome_zero
                 (mr_Outcome_method lib (cpl_merkleRootConfig p) (co_MerkleRootOutcome prevOutcome)
                    (project cob_MerkleRootObs aos))) (\<lambda>merkleRootOutcome.
      pbind p (or_zero (MainOutcome_zero, False)
                 (getMainOutcomeAndCacheInvalidation lib p prevOutcome (observed_seq_nums aos)
                    (group_maps (map (\<lambda>ao. cob_FChain (ao_Observation ao)) aos)))) (\<lambda>(mainOutcome, invalidatePriceCache).
      let (tk, tokenPriceOutcome) = tk_Outcome_method lib (cpl_tokenPriceProcessor p) invalidatePriceCache
             (co_TokenPriceOutcome prevOutcome) (project cob_TokenPriceObs aos);
          p = p\<lparr>cpl_tokenPriceProcessor := tk\<rparr>
      in pbind p (or_zero \<lparr>tko_TokenPrices = []\<rparr> tokenPriceOutcome) (\<lambda>tokenPriceOutcome.
      let (cf, chainFeeOutcome) = cf_Outcome_method lib (cpl_chainFeeProcessor p) invalidatePriceCache
             (co_ChainFeeOutcome prevOutcome) (project cob_ChainFeeObs aos);
          p = p\<lparr>cpl_chainFeeProcessor := cf\<rparr>
      in pbind p (or_zero \<lparr>cfout_GasPrices = []\<rparr> chainFeeOutcome) (\<lambda>chainFeeOutcome.
        (p, Ok \<lparr>co_MerkleRootOutcome = merkleRootOutcome, co_TokenPriceOutcome = tokenPriceOutcome,
                co_ChainFeeOutcome = chainFeeOutcome,
                co_MainOutcome =
                  (if has_prices tokenPriceOutcome chainFeeOutcome
                   then \<lparr>mo_InflightPriceOcrSequenceNumber = seqNr,
                         mo_RemainingPriceChecks = coc_InflightPriceCheckRetries (cpl_offchainCfg p)\<rparr>
                   else mainOutcome)\<rparr>))))))"

definition getMainOutcome :: "commit_Plugin \<Rightarrow> u64 \<Rightarrow> commit_Outcome \<Rightarrow> tk_Outcome \<Rightarrow> cf_Outcome \<Rightarrow> MainOutcome" where
  "getMainOutcome p seqNr prevOutcome tokenPriceOutcome chainFeeOutcome =
     (let prevMain = co_MainOutcome prevOutcome in
      if has_prices tokenPriceOutcome chainFeeOutcome
      then \<lparr>mo_InflightPriceOcrSequenceNumber = seqNr,
            mo_RemainingPriceChecks = coc_InflightPriceCheckRetries (cpl_offchainCfg p)\<rparr>
      else if 0 < mo_InflightPriceOcrSequenceNumber prevMain
      then let remainingPriceChecks = s64 (mo_RemainingPriceChecks prevMain - 1)
           in if remainingPriceChecks < 0
              then MainOutcome_zero
              else \<lparr>mo_InflightPriceOcrSequenceNumber = mo_InflightPriceOcrSequenceNumber prevMain,
                    mo_RemainingPriceChecks = remainingPriceChecks\<rparr>
      else MainOutcome_zero)"

definition commit_outcome_old ::
  "ccip_lib \<Rightarrow> commit_Plugin \<Rightarrow> u64 \<Rightarrow> commit_Outcome \<Rightarrow> commit_ao list \<Rightarrow> commit_Plugin \<times> commit_Outcome result" where
  "commit_outcome_old lib p seqNr prevOutcome aos =
     (let p = initialize_contracts p in
      pbind p (or_zero mr_Outcome_zero
                 (mr_Outcome_method lib (cpl_merkleRootConfig p) (co_MerkleRootOutcome prevOutcome)
                    (project cob_MerkleRootObs aos))) (\<lambda>merkleRootOutcome.
      let (tk, tokenPriceOutcome) = tk_Outcome_method lib (cpl_tokenPriceProcessor p) False
             (co_TokenPriceOutcome prevOutcome) (project cob_TokenPriceObs aos);
          p = p\<lparr>cpl_tokenPriceProcessor := tk\<rparr>
      in pbind p (or_zero \<lparr>tko_TokenPrices = []\<rparr> tokenPriceOutcome) (\<lambda>tokenPriceOutcome.
      let (cf, chainFeeOutcome) = cf_Outcome_method lib (cpl_chainFeeProcessor p) False
             (co_ChainFeeOutcome prevOutcome) (project cob_ChainFeeObs aos);
          p = p\<lparr>cpl_chainFeeProcessor := cf\<rparr>
      in pbind p (or_zero \<lparr>cfout_GasPrices = []\<rparr> chainFeeOutcome) (\<lambda>chainFeeOutcome.
        (p, Ok \<lparr>co_MerkleRootOutcome = merkleRootOutcome, co_TokenPriceOutcome = tokenPriceOutcome,
                co_ChainFeeOutcome = chainFeeOutcome,
                co_MainOutcome = getMainOutcome p seqNr prevOutcome tokenPriceOutcome chainFeeOutcome\<rparr>)))))"

text \<open>What \<open>Outcome\<close> and \<open>outcomeOld\<close> share: decoding and encoding.\<close>

definition outcome_with ::
  "(commit_Plugin \<Rightarrow> u64 \<Rightarrow> commit_Outcome \<Rightarrow> commit_ao list \<Rightarrow> commit_Plugin \<times> commit_Outcome result) \<Rightarrow>
   commit_Plugin \<Rightarrow> u64 \<Rightarrow> byte list \<Rightarrow> byte list \<Rightarrow> raw_ao list \<Rightarrow> commit_Plugin \<times> byte list result" where
  "outcome_with outcome p seqNr previousOutcome q aos =
     pbind p (wrap_err ''decode previous outcome'' (cdc_DecodeOutcome (cpl_ocrTypeCodec p) previousOutcome)) (\<lambda>prevOutcome.
     pbind p (wrap_err ''decode query'' (cdc_DecodeQuery (cpl_ocrTypeCodec p) q)) (\<lambda>_.
     pbind p (decode_observations (cpl_ocrTypeCodec p) aos) (\<lambda>decoded.
       let (p', out) = outcome p seqNr prevOutcome decoded
       in (p', rbind out (\<lambda>out. cdc_EncodeOutcome (cpl_ocrTypeCodec p) out)))))"

definition outcomeOld ::
  "ccip_lib \<Rightarrow> commit_Plugin \<Rightarrow> u64 \<Rightarrow> byte list \<Rightarrow> byte list \<Rightarrow> raw_ao list \<Rightarrow> commit_Plugin \<times> byte list result" where
  "outcomeOld lib = outcome_with (commit_outcome_old lib)"

definition commit_Outcome_method ::
  "ccip_lib \<Rightarrow> commit_Plugin \<Rightarrow> u64 \<Rightarrow> byte list \<Rightarrow> byte list \<Rightarrow> raw_ao list \<Rightarrow> commit_Plugin \<times> byte list result" where
  "commit_Outcome_method lib p seqNr previousOutcome q aos =
     (if old_logic p then outcomeOld lib p seqNr previousOutcome q aos
      else outcome_with (commit_outcome lib) p seqNr previousOutcome q aos)"

section \<open>Reports\<close>

text \<open>\<open>ReportWithInfo\<close>; a report can be nil. \<open>ReportPlus\<close> adds the transmission schedule.\<close>

record ReportWithInfo =
  rwi_Report :: "byte list option"
  rwi_Info :: "byte list"

fun encodeReports ::
  "ccip_lib \<Rightarrow> report_codec \<Rightarrow> TransmissionSchedule \<Rightarrow> Report list \<Rightarrow> (ReportWithInfo \<times> TransmissionSchedule) list result" where
  "encodeReports lib codec schedule [] = Ok []"
| "encodeReports lib codec schedule (r # rs) =
     (if lib_Report_IsEmpty lib (rep_Report r) then Error (Err ''found empty report'')
      else
      rbind (wrap_err ''encode commit plugin report'' (rc_Encode codec (rep_Report r))) (\<lambda>encodedReport.
      rbind (wrap_err ''encode commit plugin report info'' (rc_EncodeInfo codec (rep_ReportInfo r))) (\<lambda>encodedInfo.
      rbind (encodeReports lib codec schedule rs) (\<lambda>rest.
        Ok ((\<lparr>rwi_Report = Some encodedReport, rwi_Info = encodedInfo\<rparr>, schedule) # rest)))))"

text \<open>A failure to encode is logged, and then no report is returned.\<close>

definition Reports :: "ccip_lib \<Rightarrow> commit_Plugin \<Rightarrow> byte list \<Rightarrow> (ReportWithInfo \<times> TransmissionSchedule) list result" where
  "Reports lib p outcomeBytes =
     rbind (wrap_err ''decode outcome'' (cdc_DecodeOutcome (cpl_ocrTypeCodec p) outcomeBytes)) (\<lambda>outcome.
     rbind (wrap_err ''get transmission schedule''
              (GetTransmissionSchedule (SupportsDestChain (cpl_chainSupport p)) (map fst (cpl_oracleIDToP2PID p))
                 (coc_TransmissionDelayMultiplier (cpl_offchainCfg p)))) (\<lambda>transmissionSchedule.
     rbind (wrap_err ''err in Reports()'' (cpl_reportBuilder p outcome (cpl_offchainCfg p))) (\<lambda>reports.
       or_zero [] (encodeReports lib (cpl_reportCodec p) transmissionSchedule reports))))"

section \<open>ShouldAcceptAttestedReport and ShouldTransmitAcceptedReport\<close>

text \<open>The \<open>Error\<close> methods, and \<open>errors.Is(err, ErrStaleReport)\<close>.\<close>

fun error_text :: "error \<Rightarrow> string" where
  "error_text (Err s) = s"
| "error_text (Wrap s e) = s @ '': '' @ error_text e"
| "error_text (ErrStaleReport s) = ''stale report error: '' @ s"
| "error_text (ErrInvalidReport s) = ''invalid report: '' @ s"
| "error_text (ErrReportValidation e) = ''report validation error: '' @ error_text e"
| "error_text ErrEmptyReport = ''no messages can fit in the report''"
| "error_text ErrOffRampConfigMismatch = ''offramp config digest mismatch''"
| "error_text ErrAlreadyExecuted = ''messages already executed''"

fun is_stale_error :: "error \<Rightarrow> bool" where
  "is_stale_error (ErrStaleReport _) = True"
| "is_stale_error (Wrap _ e) = is_stale_error e"
| "is_stale_error _ = False"

fun validating :: "'a result \<Rightarrow> 'a result" where
  "validating (Error e) = Error (ErrReportValidation e)"
| "validating r = r"

definition decodeReport :: "ccip_lib \<Rightarrow> commit_Plugin \<Rightarrow> byte list \<Rightarrow> CommitPluginReport result" where
  "decodeReport lib p report =
     rbind (wrap_err ''decode commit plugin report'' (rc_Decode (cpl_reportCodec p) report)) (\<lambda>decodedReport.
       if lib_Report_IsEmpty lib decodedReport then Error (Err ''empty report after decoding'') else Ok decodedReport)"

definition all_roots :: "CommitPluginReport \<Rightarrow> MerkleRootChain list" where
  "all_roots r = cpr_BlessedMerkleRoots r @ cpr_UnblessedMerkleRoots r"

definition isStaleReport :: "commit_Plugin \<Rightarrow> u64 \<Rightarrow> CommitPluginReport \<Rightarrow> unit result" where
  "isStaleReport p ocrSeqNr decodedReport =
     rbind (wrap_err ''get latest price seq nr'' (rd_GetLatestPriceSeqNr (cpl_ccipReader p))) (\<lambda>latestPriceSeqNr.
       if ocrSeqNr \<le> latestPriceSeqNr \<and> cpr_BlessedMerkleRoots decodedReport = [] \<and> cpr_UnblessedMerkleRoots decodedReport = []
       then Error (Err ''stale report'')
       else if cpr_BlessedMerkleRoots decodedReport = [] \<and> cpr_UnblessedMerkleRoots decodedReport = [] then Ok ()
       else
       let proposedMerkleRoots = all_roots decodedReport in
       rbind (check_seen mrc_ChainSel (\<lambda>chainSet r. check_that (mrc_ChainSel r \<notin> set chainSet) (Err ''duplicate chain''))
                [] proposedMerkleRoots) (\<lambda>_.
       rbind (wrap_err ''get next sequence numbers''
                (rd_NextSeqNum (cpl_ccipReader p) (sort (map mrc_ChainSel proposedMerkleRoots)))) (\<lambda>offRampExpNextSeqNums.
         check_all (\<lambda>r.
           case map_of offRampExpNextSeqNums (mrc_ChainSel r) of
             None \<Rightarrow> Error (Err ''offRamp expected next sequence number was not found'')
           | Some offRampExpNextSeqNum \<Rightarrow>
               check_that (sr_Start (mrc_SeqNumsRange r) = offRampExpNextSeqNum) (Err ''the merkle root is stale''))
           proposedMerkleRoots)))"

definition checkReportCursed :: "ccip_lib \<Rightarrow> commit_Plugin \<Rightarrow> CommitPluginReport \<Rightarrow> bool result" where
  "checkReportCursed lib p decodedReport =
     rbind (wrap_err ''checking if destination chain is supported''
              (SupportsDestChain (cpl_chainSupport p) (cpl_oracleID p))) (\<lambda>supportsDest.
       if \<not> supportsDest then Error (ErrInvalidReport ''destination chain not supported'')
       else IsReportCursed lib (rd_GetRmnCurseInfo (cpl_ccipReader p)) (map mrc_ChainSel (all_roots decodedReport)))"

definition check_root :: "string \<Rightarrow> MerkleRootChain \<Rightarrow> unit result" where
  "check_root emptyRoot root =
     (if mrc_MerkleRoot root = replicate 32 0 then Error (ErrInvalidReport emptyRoot)
      else if sr_End (mrc_SeqNumsRange root) < sr_Start (mrc_SeqNumsRange root)
      then Error (ErrInvalidReport ''invalid seqNumsRange'')
      else Ok ())"

text \<open>\<open>pluginTypeCommit\<close> is the constant of that name.\<close>

definition validateReport ::
  "ccip_lib \<Rightarrow> byte \<Rightarrow> commit_Plugin \<Rightarrow> u64 \<Rightarrow> ReportWithInfo \<Rightarrow> CommitPluginReport result" where
  "validateReport lib pluginTypeCommit p seqNr r =
     (case rwi_Report r of
        None \<Rightarrow> Ok CommitPluginReport_zero
      | Some report \<Rightarrow>
          rbind (validating (wrap_err ''decode report'' (decodeReport lib p report))) (\<lambda>decodedReport.
          rbind (validating (wrap_err ''decode report info'' (rc_DecodeInfo (cpl_reportCodec p) (rwi_Info r)))) (\<lambda>_.
          rbind (check_all (check_root ''empty blessed merkle root'') (cpr_BlessedMerkleRoots decodedReport)) (\<lambda>_.
          rbind (check_all (check_root ''empty unblessed merkle root'') (cpr_UnblessedMerkleRoots decodedReport)) (\<lambda>_.
          rbind (validating (wrap_err ''check report cursed'' (checkReportCursed lib p decodedReport))) (\<lambda>isCursed.
          if isCursed then Error (ErrInvalidReport ''report cursed'')
          else
          rbind (validating (wrap_err ''supports dest chain'' (SupportsDestChain (cpl_chainSupport p) (cpl_oracleID p)))) (\<lambda>supports.
          if \<not> supports then Error (ErrInvalidReport ''dest chain not supported'')
          else
          rbind (validating (wrap_err ''check config digest''
                   (ConfigDigestsMatch (rd_GetOffRampConfigDigest (cpl_ccipReader p) pluginTypeCommit) (cpl_configDigest p))))
            (\<lambda>(digestsMatch, _).
          if \<not> digestsMatch then Error (ErrInvalidReport ''config digest mismatch'')
          else
          (case isStaleReport p seqNr decodedReport of
             Panic \<Rightarrow> Panic
           | Error e \<Rightarrow> Error (ErrStaleReport (error_text e))
           | Ok _ \<Rightarrow> Ok decodedReport)))))))))"

text \<open>The two methods run the same checks.\<close>

definition ShouldAcceptAttestedReport ::
  "ccip_lib \<Rightarrow> byte \<Rightarrow> commit_Plugin \<Rightarrow> u64 \<Rightarrow> ReportWithInfo \<Rightarrow> bool result" where
  "ShouldAcceptAttestedReport lib pluginTypeCommit p seqNr r =
     (case validateReport lib pluginTypeCommit p seqNr r of
        Panic \<Rightarrow> Panic
      | Error e \<Rightarrow> if is_stale_error e then Ok False else Error (Wrap ''validating report'' e)
      | Ok _ \<Rightarrow> Ok True)"

definition ShouldTransmitAcceptedReport ::
  "ccip_lib \<Rightarrow> byte \<Rightarrow> commit_Plugin \<Rightarrow> u64 \<Rightarrow> ReportWithInfo \<Rightarrow> bool result" where
  "ShouldTransmitAcceptedReport lib pluginTypeCommit p seqNr r =
     (case validateReport lib pluginTypeCommit p seqNr r of
        Panic \<Rightarrow> Panic
      | Error e \<Rightarrow> if is_stale_error e then Ok False else Error (Wrap ''validating report'' e)
      | Ok _ \<Rightarrow> Ok True)"

section \<open>Wiring\<close>

text \<open>The processors of a plugin share its role DON fault bound and its destination chain.\<close>

definition plugin_wired :: "commit_Plugin \<Rightarrow> bool" where
  "plugin_wired p \<longleftrightarrow>
     mrcfg_F (cpl_merkleRootConfig p) = rpc_F (cpl_reportingCfg p) \<and> mrcfg_destChain (cpl_merkleRootConfig p) = cpl_destChain p \<and>
     tkp_fRoleDON (cpl_tokenPriceProcessor p) = rpc_F (cpl_reportingCfg p) \<and> tkp_destChain (cpl_tokenPriceProcessor p) = cpl_destChain p \<and>
     cfp_fRoleDON (cpl_chainFeeProcessor p) = rpc_F (cpl_reportingCfg p) \<and> cfp_destChain (cpl_chainFeeProcessor p) = cpl_destChain p"

lemma plugin_wired_NewPlugin:
  "plugin_wired (NewPlugin lib oids cfg dest rd tp rc hc rcfg me dig mro codec builder)"
  by (simp add: plugin_wired_def NewPlugin_def Let_def tk_NewProcessor_def cf_NewProcessor_def)

lemma initialize_contracts_fields [simp]:
  "cpl_merkleRootConfig (initialize_contracts p) = cpl_merkleRootConfig p"
  "cpl_reportingCfg (initialize_contracts p) = cpl_reportingCfg p"
  "cpl_destChain (initialize_contracts p) = cpl_destChain p"
  "cpl_offchainCfg (initialize_contracts p) = cpl_offchainCfg p"
  "cpl_tokenPriceProcessor (initialize_contracts p) = cpl_tokenPriceProcessor p"
  "cpl_chainFeeProcessor (initialize_contracts p) = cpl_chainFeeProcessor p"
  by (simp_all add: initialize_contracts_def)

section \<open>No agreement without enough observations\<close>

lemma length_filter_key_concat:
  assumes "\<forall>m \<in> set ms. gm_ok m"
  shows "length (filter (\<lambda>p. fst p = k) (concat ms)) \<le> length (filter (\<lambda>m. m \<noteq> []) ms)"
  using assms
proof (induction ms)
  case (Cons m ms)
  moreover have "length (filter (\<lambda>p. fst p = k) m) \<le> (if m \<noteq> [] then 1 else 0)"
    using filter_key_gm [of m k] Cons.prems by (auto split: option.splits)
  ultimately show ?case by (auto simp: le_Suc_eq)
qed simp

lemma no_agreed_f:
  assumes "\<forall>m \<in> set ms. gm_ok m" and "int (length (filter (\<lambda>m. m \<noteq> []) ms)) \<le> f" and "0 \<le> f" and "f < 2 ^ 62"
  shows "map_of (GetConsensusMap sha (group_maps ms) (MakeConstantThreshold (TwoFPlus1 f))) k = None"
proof (rule ccontr)
  assume "map_of (GetConsensusMap sha (group_maps ms) (MakeConstantThreshold (TwoFPlus1 f))) k \<noteq> None"
  then obtain x where "map_of (GetConsensusMap sha (group_maps ms) (MakeConstantThreshold (TwoFPlus1 f))) k = Some x" by blast
  from GetConsensusMap_count [OF gm_ok_group_maps this] obtain items
    where i: "map_of (group_maps ms) k = Some items" "2 * f + 1 \<le> int (length items)"
    using assms(3,4) by (auto simp: MakeConstantThreshold_def thresholds_small)
  have "items = map snd (filter (\<lambda>p. fst p = k) (concat ms))"
    using i(1) gm_vals_group_maps [of ms k] by (simp add: gm_vals_def)
  with i(2) length_filter_key_concat [OF assms(1), of k] assms(2,3) show False by simp
qed

lemma tk_outcome_no_f:
  assumes "\<forall>ao \<in> set aos. gm_ok (tkb_FChain (ao_Observation ao))"
    and "int (length (filter (\<lambda>ao. tkb_FChain (ao_Observation ao) \<noteq> []) aos)) \<le> tkp_fRoleDON p"
    and "0 \<le> tkp_fRoleDON p" and "tkp_fRoleDON p < 2 ^ 62"
  shows "or_zero \<lparr>tko_TokenPrices = []\<rparr> (tk_outcome lib p prev aos) = Ok \<lparr>tko_TokenPrices = []\<rparr>"
proof -
  let ?ms = "map (\<lambda>ao. tkb_FChain (ao_Observation ao)) aos"
  have "map_of (GetConsensusMap (lib_sum_int lib) (group_maps ?ms) (MakeConstantThreshold (TwoFPlus1 (tkp_fRoleDON p)))) (tkp_destChain p) = None"
    by (rule no_agreed_f) (use assms in \<open>simp_all add: filter_map comp_def\<close>)
  then show ?thesis
    by (simp add: tk_outcome_def tk_getConsensusObservation_def tk_aggregateObservations_def Let_def or_zero_def comp_def)
qed

lemma cf_outcome_no_f:
  assumes "\<forall>ao \<in> set aos. gm_ok (cfo_FChain (ao_Observation ao))"
    and "int (length (filter (\<lambda>ao. cfo_FChain (ao_Observation ao) \<noteq> []) aos)) \<le> cfp_fRoleDON p"
    and "0 \<le> cfp_fRoleDON p" and "cfp_fRoleDON p < 2 ^ 62"
  shows "or_zero \<lparr>cfout_GasPrices = []\<rparr> (cf_outcome lib p prev aos) = Ok \<lparr>cfout_GasPrices = []\<rparr>"
proof -
  let ?ms = "map (\<lambda>ao. cfo_FChain (ao_Observation ao)) aos"
  have "map_of (GetConsensusMap (lib_sum_int lib) (group_maps ?ms) (MakeConstantThreshold (TwoFPlus1 (cfp_fRoleDON p)))) (cfp_destChain p) = None"
    by (rule no_agreed_f) (use assms in \<open>simp_all add: filter_map comp_def\<close>)
  then show ?thesis
    by (simp add: cf_outcome_def cf_getConsensusObservation_def cf_aggregateObservations_def Let_def or_zero_def comp_def)
qed

section \<open>The outcome does not panic on valid fault bounds\<close>

text \<open>What validation (positive) and the 32 bit wire format give for the fault bounds in an observation.\<close>

definition fchain_ok :: "(ChainSelector, int) gomap \<Rightarrow> bool" where
  "fchain_ok m \<longleftrightarrow> gm_ok m \<and> (\<forall>(_, f) \<in> set m. 0 < f \<and> f < 2 ^ 31)"

lemma agreed_f_range:
  assumes "\<forall>m \<in> set ms. fchain_ok m" and "map_of (GetConsensusMap sha (group_maps ms) g) k = Some f"
  shows "0 < f" "f < 2 ^ 31"
proof -
  from GetConsensusMap_count [OF gm_ok_group_maps assms(2)] obtain items
    where i: "map_of (group_maps ms) k = Some items" "f \<in> set items" by blast
  from group_maps_entries(2) [OF map_of_SomeD [OF i(1)] i(2)] obtain m where "m \<in> set ms" "(k, f) \<in> set m" by blast
  with assms(1) show "0 < f" "f < 2 ^ 31" by (auto simp: fchain_ok_def)
qed

lemma offRamp_consensus_Ok:
  assumes "0 < f" and "f < 2 ^ 31"
  shows "\<exists>r. getOffRampNextSequenceNumbersConsensus f m = Ok r"
proof -
  have u: "u64i (2 * f + 1) = 2 * f + 1" using assms by (simp add: u64i_id)
  have "getOffRampNextSequenceNumbersConsensus f m = Ok (gm_collect (\<lambda>_ xs. if int (length xs) < 2 * f + 1 then None else Some (sort xs ! nat f)) m)"
    unfolding getOffRampNextSequenceNumbersConsensus_def
    by (rule gm_collect_r_Ok) (use assms in \<open>auto simp: u slice_get_def\<close>)
  then show ?thesis ..
qed

lemma mr_Outcome_Ok:
  assumes "\<forall>ao \<in> set aos. fchain_ok (mob_FChain (ao_Observation ao))"
  shows "\<exists>out. mr_Outcome_method lib cfg prev aos = Ok out"
proof -
  let ?fc = "GetConsensusMap (lib_sum_int lib) (agg_FChain (mr_aggregateObservations aos)) (MakeConstantThreshold (TwoFPlus1 (mrcfg_F cfg)))"
  have r: "0 < f \<and> f < 2 ^ 31" if "map_of ?fc k = Some f" for k f
    using agreed_f_range [of "map mob_FChain (map ao_Observation aos)" "lib_sum_int lib" _ k f] that assms
    by (simp add: mr_aggregateObservations_def Let_def)
  have "0 \<le> t \<and> t < 2 ^ 62" if "MakeMultiThreshold ?fc F k = Some t" for k t
  proof -
    from that obtain f where f: "map_of ?fc k = Some f" "t = F f" by (auto simp: MakeMultiThreshold_get)
    with r [OF f(1)] show ?thesis by (simp add: F_def u64i_id)
  qed
  then have s: "small_thresholds (MakeMultiThreshold ?fc F)" unfolding small_thresholds_def by blast
  have "mr_getConsensusObservation lib (mrcfg_F cfg) (mrcfg_destChain cfg) aos \<noteq> Panic"
  proof (cases "map_of ?fc (mrcfg_destChain cfg)")
    case (Some f)
    have "F f = f" using r [OF Some] by (simp add: F_def u64i_id)
    moreover obtain n where "getOffRampNextSequenceNumbersConsensus f (agg_OffRampNextSeqNums (mr_aggregateObservations aos)) = Ok n"
      using offRamp_consensus_Ok r [OF Some] by blast
    ultimately show ?thesis
      using Some by (simp add: mr_getConsensusObservation_def Let_def MakeMultiThreshold_get GetOrderedConsensus_Ok [OF s])
  qed (simp add: mr_getConsensusObservation_def Let_def)
  then show ?thesis
    by (cases "mr_getConsensusObservation lib (mrcfg_F cfg) (mrcfg_destChain cfg) aos")
      (simp_all add: mr_Outcome_method_def mr_getOutcome_def Let_def)
qed

section \<open>Prices in flight\<close>

lemma getMain_cases:
  fixes prev :: commit_Outcome
  defines "m \<equiv> co_MainOutcome prev"
  assumes "\<forall>fm \<in> set fms. fchain_ok fm" and "0 \<notin> set nums"
  shows "\<exists>m' b. or_zero (MainOutcome_zero, False) (getMainOutcomeAndCacheInvalidation lib p prev nums (group_maps fms)) = Ok (m', b) \<and>
    (m' = MainOutcome_zero \<or>
     mo_InflightPriceOcrSequenceNumber m \<noteq> 0 \<and> mo_RemainingPriceChecks m \<noteq> 0 \<and> \<not> b \<and>
     m' = m\<lparr>mo_RemainingPriceChecks := s64 (mo_RemainingPriceChecks m - 1)\<rparr>)"
proof -
  let ?fc = "GetConsensusMap (lib_sum_int lib) (group_maps fms) (MakeConstantThreshold (TwoFPlus1 (rpc_F (cpl_reportingCfg p))))"
  have r: "0 < f \<and> f < 2 ^ 31" if "map_of ?fc k = Some f" for k f
    using agreed_f_range [OF assms(2) that] by simp
  have sl: "slice_get (sort nums) f = Ok (sort nums ! nat f)"
    if "map_of ?fc (cpl_destChain p) = Some f" "\<not> LtFPlusOne f (int (length nums))" for f
    using that(2) r [OF that(1)] by (simp add: less_plus_one_small slice_get_def)
  show ?thesis
    by (auto simp: getMainOutcomeAndCacheInvalidation_def Let_def or_zero_def m_def sl split: option.splits)
qed

lemma or_zero_simps [simp]: "or_zero z (Ok x) = Ok x" "or_zero z (Error e) = Ok z" "or_zero z Panic = Panic"
  by (simp_all add: or_zero_def)

text \<open>What an oracle that follows the protocol can send after the outcome \<open>prev\<close>: the observation of a plugin in
  any state, or of one whose contracts are not initialised.\<close>

definition observes :: "commit_Outcome \<Rightarrow> commit_Observation \<Rightarrow> bool" where
  "observes prev ob \<longleftrightarrow> (\<exists>p env d. snd (commit_observe p env d prev) = Ok ob) \<or>
     (\<exists>d. ob = commit_Observation_zero\<lparr>cob_DiscoveryObs := d\<rparr>)"

lemma pbind_snd_Ok: "snd (pbind p r f) = Ok y \<longleftrightarrow> (\<exists>x. r = Ok x \<and> snd (f x) = Ok y)"
  by (cases r) auto

lemma observes_in_flight:
  assumes "observes prev ob" and "0 < mo_InflightPriceOcrSequenceNumber (co_MainOutcome prev)"
  shows "cob_TokenPriceObs ob = tk_Observation_zero" "cob_ChainFeeObs ob = cf_Observation_zero"
  using assms
  by (auto simp: observes_def commit_observe_def pbind_snd_Ok Let_def rbind_Ok_iff commit_Observation_zero_def)

definition obs_fchains_ok :: "commit_Observation \<Rightarrow> bool" where
  "obs_fchains_ok ob \<longleftrightarrow> fchain_ok (mob_FChain (cob_MerkleRootObs ob)) \<and> fchain_ok (tkb_FChain (cob_TokenPriceObs ob)) \<and>
     fchain_ok (cfo_FChain (cob_ChainFeeObs ob)) \<and> fchain_ok (cob_FChain ob)"

text \<open>The observations of a round: all are valid, and all but at most F are those of oracles that follow the
  protocol.\<close>

definition fair_round :: "int \<Rightarrow> commit_Outcome \<Rightarrow> commit_ao list \<Rightarrow> bool" where
  "fair_round f prev aos \<longleftrightarrow> (\<forall>ao \<in> set aos. obs_fchains_ok (ao_Observation ao)) \<and>
     int (length (filter (\<lambda>ao. \<not> observes prev (ao_Observation ao)) aos)) \<le> f"

lemma project_simps [simp]:
  "set (project g aos) = (\<lambda>ao. \<lparr>ao_OracleID = ao_OracleID ao, ao_Observation = g (ao_Observation ao)\<rparr>) ` set aos"
  "length (filter P (project g aos)) =
     length (filter (\<lambda>ao. P \<lparr>ao_OracleID = ao_OracleID ao, ao_Observation = g (ao_Observation ao)\<rparr>) aos)"
  by (simp_all add: project_def filter_map comp_def)

lemma in_flight_few_prices:
  assumes "fair_round f prev aos" and "0 < mo_InflightPriceOcrSequenceNumber (co_MainOutcome prev)"
  shows "int (length (filter (\<lambda>ao. tkb_FChain (cob_TokenPriceObs (ao_Observation ao)) \<noteq> []) aos)) \<le> f"
    "int (length (filter (\<lambda>ao. cfo_FChain (cob_ChainFeeObs (ao_Observation ao)) \<noteq> []) aos)) \<le> f"
proof -
  have "length (filter (\<lambda>ao. tkb_FChain (cob_TokenPriceObs (ao_Observation ao)) \<noteq> []) aos) \<le>
      length (filter (\<lambda>ao. \<not> observes prev (ao_Observation ao)) aos)"
    by (rule length_filter_mono) (auto dest: observes_in_flight(1) [OF _ assms(2)] simp: tk_Observation_zero_def)
  moreover have "length (filter (\<lambda>ao. cfo_FChain (cob_ChainFeeObs (ao_Observation ao)) \<noteq> []) aos) \<le>
      length (filter (\<lambda>ao. \<not> observes prev (ao_Observation ao)) aos)"
    by (rule length_filter_mono) (auto dest: observes_in_flight(2) [OF _ assms(2)] simp: cf_Observation_zero_def)
  ultimately show "int (length (filter (\<lambda>ao. tkb_FChain (cob_TokenPriceObs (ao_Observation ao)) \<noteq> []) aos)) \<le> f"
    "int (length (filter (\<lambda>ao. cfo_FChain (cob_ChainFeeObs (ao_Observation ao)) \<noteq> []) aos)) \<le> f"
    using assms(1) by (auto simp: fair_round_def)
qed

lemma tk_Outcome_method_split:
  "\<exists>q. tk_Outcome_method lib p b prev aos = (q, tk_outcome lib q prev aos) \<and> tkp_fRoleDON q = tkp_fRoleDON p \<and>
     tkp_destChain q = tkp_destChain p"
  by (simp add: tk_Outcome_method_def Let_def)

lemma cf_Outcome_method_split:
  "\<exists>q. cf_Outcome_method lib p b prev aos = (q, cf_outcome lib q prev aos) \<and> cfp_fRoleDON q = cfp_fRoleDON p \<and>
     cfp_destChain q = cfp_destChain p"
  by (simp add: cf_Outcome_method_def Let_def)

lemma in_flight_round:
  assumes "plugin_wired p" and "rpc_F (cpl_reportingCfg p) = f" and "0 \<le> f" and "f < 2 ^ 62" and "fair_round f prev aos"
    and "0 < mo_InflightPriceOcrSequenceNumber (co_MainOutcome prev)"
  shows "\<exists>p' out. commit_outcome lib p seqNr prev aos = (p', Ok out) \<and> plugin_wired p' \<and> rpc_F (cpl_reportingCfg p') = f \<and>
    \<not> has_prices (co_TokenPriceOutcome out) (co_ChainFeeOutcome out) \<and>
    (co_MainOutcome out = MainOutcome_zero \<or>
     mo_RemainingPriceChecks (co_MainOutcome prev) \<noteq> 0 \<and> co_MainOutcome out = (co_MainOutcome prev)\<lparr>mo_RemainingPriceChecks :=
       s64 (mo_RemainingPriceChecks (co_MainOutcome prev) - 1)\<rparr>)"
proof -
  let ?p = "initialize_contracts p"
  have ok: "\<forall>ao \<in> set aos. obs_fchains_ok (ao_Observation ao)" using assms(5) by (simp add: fair_round_def)
  obtain mr where mr: "mr_Outcome_method lib (cpl_merkleRootConfig p) (co_MerkleRootOutcome prev) (project cob_MerkleRootObs aos) = Ok mr"
    using mr_Outcome_Ok [of "project cob_MerkleRootObs aos" lib "cpl_merkleRootConfig p" "co_MerkleRootOutcome prev"] ok by (auto simp: obs_fchains_ok_def)
  obtain m b where m: "or_zero (MainOutcome_zero, False) (getMainOutcomeAndCacheInvalidation lib ?p prev (observed_seq_nums aos)
      (group_maps (map (\<lambda>ao. cob_FChain (ao_Observation ao)) aos))) = Ok (m, b)"
    and mc: "m = MainOutcome_zero \<or> mo_RemainingPriceChecks (co_MainOutcome prev) \<noteq> 0 \<and>
      m = (co_MainOutcome prev)\<lparr>mo_RemainingPriceChecks := s64 (mo_RemainingPriceChecks (co_MainOutcome prev) - 1)\<rparr>"
    using getMain_cases [of "map (\<lambda>ao. cob_FChain (ao_Observation ao)) aos" "observed_seq_nums aos" lib ?p prev] ok
    by (auto simp: obs_fchains_ok_def observed_seq_nums_def)
  obtain tk where tk: "tk_Outcome_method lib (cpl_tokenPriceProcessor p) b (co_TokenPriceOutcome prev) (project cob_TokenPriceObs aos) =
      (tk, tk_outcome lib tk (co_TokenPriceOutcome prev) (project cob_TokenPriceObs aos))"
      "tkp_fRoleDON tk = f" "tkp_destChain tk = cpl_destChain p"
    using tk_Outcome_method_split assms(1,2) unfolding plugin_wired_def by metis
  obtain cf where cf: "cf_Outcome_method lib (cpl_chainFeeProcessor p) b (co_ChainFeeOutcome prev) (project cob_ChainFeeObs aos) =
      (cf, cf_outcome lib cf (co_ChainFeeOutcome prev) (project cob_ChainFeeObs aos))"
      "cfp_fRoleDON cf = f" "cfp_destChain cf = cpl_destChain p"
    using cf_Outcome_method_split assms(1,2) unfolding plugin_wired_def by metis
  have t: "or_zero \<lparr>tko_TokenPrices = []\<rparr> (tk_outcome lib tk (co_TokenPriceOutcome prev) (project cob_TokenPriceObs aos)) = Ok \<lparr>tko_TokenPrices = []\<rparr>"
    by (rule tk_outcome_no_f)
      (use tk(2) assms(3,4) ok in_flight_few_prices(1) [OF assms(5,6)] in \<open>simp_all add: obs_fchains_ok_def fchain_ok_def\<close>)
  have c: "or_zero \<lparr>cfout_GasPrices = []\<rparr> (cf_outcome lib cf (co_ChainFeeOutcome prev) (project cob_ChainFeeObs aos)) = Ok \<lparr>cfout_GasPrices = []\<rparr>"
    by (rule cf_outcome_no_f)
      (use cf(2) assms(3,4) ok in_flight_few_prices(2) [OF assms(5,6)] in \<open>simp_all add: obs_fchains_ok_def fchain_ok_def\<close>)
  have w: "plugin_wired (?p\<lparr>cpl_tokenPriceProcessor := tk, cpl_chainFeeProcessor := cf\<rparr>)"
    using assms(1,2) tk(2,3) cf(2,3) by (simp add: plugin_wired_def)
  have "commit_outcome lib p seqNr prev aos = (?p\<lparr>cpl_tokenPriceProcessor := tk, cpl_chainFeeProcessor := cf\<rparr>,
      Ok \<lparr>co_MerkleRootOutcome = mr, co_TokenPriceOutcome = \<lparr>tko_TokenPrices = []\<rparr>, co_ChainFeeOutcome = \<lparr>cfout_GasPrices = []\<rparr>, co_MainOutcome = m\<rparr>)"
    unfolding commit_outcome_def Let_def
    by (simp add: mr m tk(1) t cf(1) c has_prices_def)
  with w mc assms(2) show ?thesis by (simp add: has_prices_def)
qed

text \<open>Rounds of the plugin: the outcomes, one after the other.\<close>

fun commit_run :: "ccip_lib \<Rightarrow> commit_Plugin \<Rightarrow> commit_Outcome \<Rightarrow> (u64 \<times> commit_ao list) list \<Rightarrow> commit_Outcome list result" where
  "commit_run lib p prev [] = Ok []"
| "commit_run lib p prev ((seqNr, aos) # rounds) =
     (case commit_outcome lib p seqNr prev aos of (p', r) \<Rightarrow>
        rbind r (\<lambda>out. rbind (commit_run lib p' out rounds) (\<lambda>outs. Ok (out # outs))))"

fun fair_rounds :: "ccip_lib \<Rightarrow> commit_Plugin \<Rightarrow> commit_Outcome \<Rightarrow> (u64 \<times> commit_ao list) list \<Rightarrow> bool" where
  "fair_rounds lib p prev [] = True"
| "fair_rounds lib p prev ((seqNr, aos) # rounds) =
     (fair_round (rpc_F (cpl_reportingCfg p)) prev aos \<and>
      (case commit_outcome lib p seqNr prev aos of (p', Ok out) \<Rightarrow> fair_rounds lib p' out rounds | _ \<Rightarrow> True))"

text \<open>C19. While prices are in flight, rounds with at most F observations that do not follow the protocol never
  panic and never agree on new prices, and after at most one round more than the remaining checks
  nothing is in flight any more: the plugin never waits for ever for a lost price report, and never
  sends prices on top of prices that are still on their way.\<close>

theorem commit_in_flight_cleared:
  assumes "plugin_wired p" and "0 \<le> rpc_F (cpl_reportingCfg p)" and "rpc_F (cpl_reportingCfg p) < 2 ^ 62"
    and "fair_rounds lib p prev rounds"
    and "0 < mo_InflightPriceOcrSequenceNumber (co_MainOutcome prev)"
    and "0 \<le> mo_RemainingPriceChecks (co_MainOutcome prev)" and "mo_RemainingPriceChecks (co_MainOutcome prev) < 2 ^ 63"
    and "nat (mo_RemainingPriceChecks (co_MainOutcome prev)) < length rounds"
  shows "\<exists>k outs. 0 < k \<and> k \<le> Suc (nat (mo_RemainingPriceChecks (co_MainOutcome prev))) \<and>
    commit_run lib p prev (take k rounds) = Ok outs \<and>
    (\<forall>out \<in> set outs. \<not> has_prices (co_TokenPriceOutcome out) (co_ChainFeeOutcome out)) \<and>
    length outs = k \<and> co_MainOutcome (last outs) = MainOutcome_zero"
  using assms
proof (induction rounds arbitrary: p prev)
  case (Cons r rounds)
  obtain seqNr aos where r: "r = (seqNr, aos)" by (cases r)
  let ?n = "mo_RemainingPriceChecks (co_MainOutcome prev)"
  from Cons.prems(4) have "fair_round (rpc_F (cpl_reportingCfg p)) prev aos" by (simp add: r)
  from in_flight_round [OF Cons.prems(1) refl Cons.prems(2,3) this Cons.prems(5), of lib seqNr] obtain p' out
    where o: "commit_outcome lib p seqNr prev aos = (p', Ok out)" "plugin_wired p'"
      "rpc_F (cpl_reportingCfg p') = rpc_F (cpl_reportingCfg p)" "\<not> has_prices (co_TokenPriceOutcome out) (co_ChainFeeOutcome out)"
      and m: "co_MainOutcome out = MainOutcome_zero \<or> ?n \<noteq> 0 \<and> co_MainOutcome out = (co_MainOutcome prev)\<lparr>mo_RemainingPriceChecks := s64 (?n - 1)\<rparr>"
    by blast
  from m show ?case
  proof
    assume "co_MainOutcome out = MainOutcome_zero"
    with o show ?thesis by (intro exI [of _ 1] exI [of _ "[out]"]) (simp add: r)
  next
    assume n: "?n \<noteq> 0 \<and> co_MainOutcome out = (co_MainOutcome prev)\<lparr>mo_RemainingPriceChecks := s64 (?n - 1)\<rparr>"
    then have m': "mo_RemainingPriceChecks (co_MainOutcome out) = ?n - 1" using Cons.prems(6,7) by (simp add: s64_id)
    moreover have "nat (?n - 1) < length rounds" using Cons.prems(6,8) n [THEN conjunct1] by simp
    ultimately obtain k outs where k: "0 < k" "k \<le> Suc (nat (?n - 1))"
      "commit_run lib p' out (take k rounds) = Ok outs"
      "\<forall>out \<in> set outs. \<not> has_prices (co_TokenPriceOutcome out) (co_ChainFeeOutcome out)"
      "length outs = k" "co_MainOutcome (last outs) = MainOutcome_zero"
      using Cons.IH [of p' out] Cons.prems n o by (auto simp: r)
    moreover have "Suc (nat (?n - 1)) = nat ?n" using n [THEN conjunct1] Cons.prems(6) by simp
    ultimately show ?thesis using o by (intro exI [of _ "Suc k"] exI [of _ "out # outs"]) (auto simp: r)
  qed
qed simp

text \<open>The agreed on-chain sequence number of the prices, when f is the agreed fault bound of the destination
  chain, at most f of the observed numbers are faulty, and prices are in flight: with at least f + 1 numbers a
  decision is made, and prices that every honest oracle sees on chain are taken as transmitted. When f + 1
  numbers are honest, prices are taken as transmitted (and the price caches invalidated) only if an honest
  oracle saw them on chain.\<close>

theorem price_transmission_agreed:
  assumes "mo_InflightPriceOcrSequenceNumber (co_MainOutcome prev) \<noteq> 0" and "mo_RemainingPriceChecks (co_MainOutcome prev) \<noteq> 0"
    and "0 \<notin> set nums"
    and "map_of (GetConsensusMap (lib_sum_int lib) fObs (MakeConstantThreshold (TwoFPlus1 (rpc_F (cpl_reportingCfg p)))))
           (cpl_destChain p) = Some f"
    and "0 \<le> f" and "f < 2 ^ 62" and "mset nums = mset hs + mset bs" and "int (length bs) \<le> f" and "f < int (length nums)"
  shows "(\<exists>m b. getMainOutcomeAndCacheInvalidation lib p prev nums fObs = Ok (m, b)) \<and>
    ((\<forall>n \<in> set hs. mo_InflightPriceOcrSequenceNumber (co_MainOutcome prev) \<le> n) \<longrightarrow>
       getMainOutcomeAndCacheInvalidation lib p prev nums fObs = Ok (MainOutcome_zero, True)) \<and>
    (f < int (length hs) \<longrightarrow> (\<exists>m. getMainOutcomeAndCacheInvalidation lib p prev nums fObs = Ok (m, True)) \<longrightarrow>
       (\<exists>n \<in> set hs. mo_InflightPriceOcrSequenceNumber (co_MainOutcome prev) \<le> n))"
proof -
  let ?v = "sort nums ! nat f" and ?i = "mo_InflightPriceOcrSequenceNumber (co_MainOutcome prev)"
  have e: "getMainOutcomeAndCacheInvalidation lib p prev nums fObs =
      (if ?i \<le> ?v then Ok (MainOutcome_zero, True)
       else Ok (\<lparr>mo_InflightPriceOcrSequenceNumber = ?i, mo_RemainingPriceChecks = s64 (mo_RemainingPriceChecks (co_MainOutcome prev) - 1)\<rparr>, False))"
    using assms by (simp add: getMainOutcomeAndCacheInvalidation_def Let_def less_plus_one_small slice_get_def)
  have n: "nat f < length nums" using assms(5,9) by (simp add: nat_less_iff)
  note c = length_filter_le_nth_sort [OF n]
  have "length bs \<le> nat f" using assms(8) by linarith
  then obtain lo where lo: "lo \<in> set hs" "lo \<le> ?v"
    using filter_outvotes [OF assms(7), of "\<lambda>x. x \<le> ?v"] c(1) by auto
  have hi: "\<exists>hi \<in> set hs. ?v \<le> hi" if "f < int (length hs)"
  proof -
    have "length nums = length hs + length bs" using assms(7) by (metis mset_append mset_eq_length length_append)
    then have "length bs < length (filter (\<lambda>x. ?v \<le> x) nums)" using c(2) that assms(5) by simp
    then show ?thesis using filter_outvotes [OF assms(7), of "\<lambda>x. ?v \<le> x"] by auto
  qed
  show ?thesis
  proof (intro conjI impI)
    assume "\<forall>n \<in> set hs. ?i \<le> n"
    then have "?i \<le> ?v" using lo order_trans by blast
    then show "getMainOutcomeAndCacheInvalidation lib p prev nums fObs = Ok (MainOutcome_zero, True)" by (simp add: e)
  next
    assume "f < int (length hs)" "\<exists>m. getMainOutcomeAndCacheInvalidation lib p prev nums fObs = Ok (m, True)"
    then show "\<exists>n \<in> set hs. ?i \<le> n" using hi order_trans by (auto simp: e split: if_splits)
  qed (auto simp: e)
qed

section \<open>Which reports are accepted\<close>

text \<open>The report and its info decode, and the roots are well formed.\<close>

definition report_decodes :: "ccip_lib \<Rightarrow> commit_Plugin \<Rightarrow> byte list \<Rightarrow> byte list \<Rightarrow> CommitPluginReport \<Rightarrow> bool" where
  "report_decodes lib p b info rep \<longleftrightarrow> rc_Decode (cpl_reportCodec p) b = Ok rep \<and> \<not> lib_Report_IsEmpty lib rep \<and>
     ret_ok (rc_DecodeInfo (cpl_reportCodec p) info) \<and>
     (\<forall>r \<in> set (all_roots rep). mrc_MerkleRoot r \<noteq> replicate 32 0 \<and> sr_Start (mrc_SeqNumsRange r) \<le> sr_End (mrc_SeqNumsRange r))"

text \<open>No lane of the report is cursed; a report without roots is not checked.\<close>

definition lanes_open :: "commit_Plugin \<Rightarrow> CommitPluginReport \<Rightarrow> bool" where
  "lanes_open p rep \<longleftrightarrow> all_roots rep = [] \<or>
     (\<exists>ci. rd_GetRmnCurseInfo (cpl_ccipReader p) = Ok ci \<and> \<not> ci_GlobalCurse ci \<and> \<not> ci_CursedDestination ci \<and>
        (\<forall>r \<in> set (all_roots rep). map_of (ci_CursedSourceChains ci) (mrc_ChainSel r) \<noteq> Some True))"

text \<open>The report has not been superseded: a report of prices only is newer than the prices on chain, and every
  root continues its lane where the offRamp stands.\<close>

definition report_fresh :: "commit_Plugin \<Rightarrow> u64 \<Rightarrow> CommitPluginReport \<Rightarrow> bool" where
  "report_fresh p seqNr rep \<longleftrightarrow> (\<exists>latest. rd_GetLatestPriceSeqNr (cpl_ccipReader p) = Ok latest \<and>
     (if all_roots rep = [] then latest < seqNr
      else distinct (map mrc_ChainSel (all_roots rep)) \<and>
           (\<exists>nexts. rd_NextSeqNum (cpl_ccipReader p) (sort (map mrc_ChainSel (all_roots rep))) = Ok nexts \<and>
              (\<forall>r \<in> set (all_roots rep). map_of nexts (mrc_ChainSel r) = Some (sr_Start (mrc_SeqNumsRange r))))))"

lemma isStaleReport_Ok_iff: "isStaleReport p seqNr rep = Ok () \<longleftrightarrow> report_fresh p seqNr rep"
proof -
  have s: "check_seen mrc_ChainSel (\<lambda>chainSet r. check_that (mrc_ChainSel r \<notin> set chainSet) (Err ''duplicate chain'')) [] rs = Ok ()
      \<longleftrightarrow> distinct (map mrc_ChainSel rs)" for rs
    by (subst check_seen_Ok_iff [where Q = "\<lambda>_. True"]) auto
  have c: "(case map_of m k of None \<Rightarrow> Error e | Some v \<Rightarrow> check_that (x = v) e') = Ok () \<longleftrightarrow> map_of m k = Some x"
    for m :: "(ChainSelector, SeqNum) gomap" and k x e e' by (auto split: option.splits)
  show ?thesis
    by (auto simp: isStaleReport_def report_fresh_def all_roots_def Let_def rbind_Ok_iff s c check_all_Ok_iff not_le
        split: if_splits)
qed

lemma validating_simps [simp]: "validating r = Ok x \<longleftrightarrow> r = Ok x" "validating r = Panic \<longleftrightarrow> r = Panic"
  by (cases r; simp)+

lemma checkReportCursed_False_iff:
  assumes "non_cursed_spec lib"
  shows "checkReportCursed lib p rep = Ok False \<longleftrightarrow>
    SupportsDestChain (cpl_chainSupport p) (cpl_oracleID p) = Ok True \<and> lanes_open p rep"
  using assms
  by (auto simp: checkReportCursed_def IsReportCursed_def lanes_open_def rbind_Ok_iff Let_def non_cursed_spec_def
      length_filter_eq_iff split: if_splits)

lemma check_roots_Ok_iff:
  "check_all (check_root s) rs = Ok () \<longleftrightarrow>
     (\<forall>r \<in> set rs. mrc_MerkleRoot r \<noteq> replicate 32 0 \<and> sr_Start (mrc_SeqNumsRange r) \<le> sr_End (mrc_SeqNumsRange r))"
  by (auto simp: check_all_Ok_iff check_root_def not_less)

definition report_ready :: "ccip_lib \<Rightarrow> byte \<Rightarrow> commit_Plugin \<Rightarrow> byte list \<Rightarrow> byte list \<Rightarrow> CommitPluginReport \<Rightarrow> bool" where
  "report_ready lib pt p b info rep \<longleftrightarrow> report_decodes lib p b info rep \<and> lanes_open p rep \<and>
     SupportsDestChain (cpl_chainSupport p) (cpl_oracleID p) = Ok True \<and>
     rd_GetOffRampConfigDigest (cpl_ccipReader p) pt = Ok (cpl_configDigest p)"

lemma validateReport_before_stale:
  assumes "non_cursed_spec lib" and "report_ready lib pt p b (rwi_Info r) rep" and "rwi_Report r = Some b"
  shows "validateReport lib pt p seqNr r = (case isStaleReport p seqNr rep of
             Panic \<Rightarrow> Panic | Error e \<Rightarrow> Error (ErrStaleReport (error_text e)) | Ok _ \<Rightarrow> Ok rep)"
proof -
  have "checkReportCursed lib p rep = Ok False"
    using assms(2) by (simp add: checkReportCursed_False_iff [OF assms(1)] report_ready_def)
  moreover have "decodeReport lib p b = Ok rep"
    using assms(2) by (simp add: report_ready_def report_decodes_def decodeReport_def)
  moreover obtain i where "rc_DecodeInfo (cpl_reportCodec p) (rwi_Info r) = Ok i"
    using assms(2) by (auto simp: report_ready_def report_decodes_def ret_ok_iff)
  moreover have "check_all (check_root s) (cpr_BlessedMerkleRoots rep) = Ok ()" "check_all (check_root s) (cpr_UnblessedMerkleRoots rep) = Ok ()" for s
    using assms(2) by (auto simp: check_roots_Ok_iff report_ready_def report_decodes_def all_roots_def)
  ultimately show ?thesis
    using assms(2,3) by (simp add: validateReport_def report_ready_def ConfigDigestsMatch_def)
qed

lemma validateReport_ready:
  assumes "non_cursed_spec lib" and "rwi_Report r = Some b"
    and "validateReport lib pt p seqNr r = Ok rep \<or> (\<exists>e. validateReport lib pt p seqNr r = Error e \<and> is_stale_error e)"
  shows "\<exists>rep. report_ready lib pt p b (rwi_Info r) rep"
proof -
  have ns: "\<not> is_stale_error e" if "validating m = Error e" for m :: "'a result" and e
    using that by (cases m) auto
  have nr: "\<not> is_stale_error e" if "check_all (check_root s) rs = Error e" for s rs e
    using that by (induction rs) (auto simp: check_root_def split: if_splits)
  from assms(3) show ?thesis
    unfolding validateReport_def assms(2) option.case
    by (auto simp: rbind_Ok_iff rbind_Error_iff decodeReport_def check_roots_Ok_iff ConfigDigestsMatch_def
        checkReportCursed_False_iff [OF assms(1)] report_ready_def report_decodes_def all_roots_def ret_ok_iff
        split: if_splits dest: ns nr)
qed

text \<open>C21. A report is accepted, and transmitted, exactly when it is nil or: it decodes to a non-empty report with
  well-formed roots, no lane of it is cursed, this oracle supports the destination, the config digests match,
  and it has not been superseded. A ready report that is superseded, or whose freshness cannot be read, is
  refused without an error; everything else is an error.\<close>

theorem ShouldAccept_iff:
  assumes "non_cursed_spec lib"
  shows "ShouldTransmitAcceptedReport lib pt p seqNr r = ShouldAcceptAttestedReport lib pt p seqNr r \<and>
    (ShouldAcceptAttestedReport lib pt p seqNr r = Ok True \<longleftrightarrow>
       (case rwi_Report r of None \<Rightarrow> True
        | Some b \<Rightarrow> \<exists>rep. report_ready lib pt p b (rwi_Info r) rep \<and> report_fresh p seqNr rep)) \<and>
    (ShouldAcceptAttestedReport lib pt p seqNr r = Ok False \<longleftrightarrow>
       (\<exists>b rep e. rwi_Report r = Some b \<and> report_ready lib pt p b (rwi_Info r) rep \<and> isStaleReport p seqNr rep = Error e))"
proof (cases "rwi_Report r")
  case None
  then show ?thesis
    by (simp add: ShouldAcceptAttestedReport_def ShouldTransmitAcceptedReport_def validateReport_def)
next
  case (Some b)
  have u: "rep' = rep" if "report_ready lib pt p b (rwi_Info r) rep" "report_ready lib pt p b (rwi_Info r) rep'" for rep rep'
    using that by (simp add: report_ready_def report_decodes_def)
  show ?thesis
  proof (cases "\<exists>rep. report_ready lib pt p b (rwi_Info r) rep")
    case True
    then obtain rep where rep: "report_ready lib pt p b (rwi_Info r) rep" ..
    with u have e: "report_ready lib pt p b (rwi_Info r) rep' \<longleftrightarrow> rep' = rep" for rep' by blast
    show ?thesis
      by (cases "isStaleReport p seqNr rep")
        (simp_all add: Some e ShouldAcceptAttestedReport_def ShouldTransmitAcceptedReport_def
          validateReport_before_stale [OF assms rep Some] flip: isStaleReport_Ok_iff)
  next
    case False
    with validateReport_ready [OF assms Some] have "validateReport lib pt p seqNr r \<noteq> Ok rep"
      "validateReport lib pt p seqNr r = Error e \<Longrightarrow> \<not> is_stale_error e" for rep e by blast+
    with False show ?thesis
      by (auto simp: Some ShouldAcceptAttestedReport_def ShouldTransmitAcceptedReport_def split: result.splits)
  qed
qed

section \<open>An instance\<close>

definition sample_report_codec :: "CommitPluginReport \<Rightarrow> report_codec" where
  "sample_report_codec rep = \<lparr>rc_Encode = (\<lambda>_. Ok [1]), rc_Decode = (\<lambda>_. Ok rep), rc_EncodeInfo = (\<lambda>_. Ok [2]),
     rc_DecodeInfo = (\<lambda>_. Ok \<lparr>cri_MerkleRoots = [], cri_PriceUpdates = PriceUpdates_zero\<rparr>)\<rparr>"

definition sample_commit_codec :: commit_codec where
  "sample_commit_codec = \<lparr>cdc_EncodeQuery = Ok [], cdc_DecodeQuery = (\<lambda>_. Ok ()), cdc_EncodeObservation = (\<lambda>_. Ok [1]),
     cdc_DecodeObservation = (\<lambda>_. Ok commit_Observation_zero), cdc_EncodeOutcome = (\<lambda>_. Ok [2]),
     cdc_DecodeOutcome = (\<lambda>_. Ok \<lparr>co_MerkleRootOutcome = mr_Outcome_zero, co_TokenPriceOutcome = \<lparr>tko_TokenPrices = []\<rparr>,
        co_ChainFeeOutcome = \<lparr>cfout_GasPrices = []\<rparr>, co_MainOutcome = MainOutcome_zero\<rparr>)\<rparr>"

text \<open>A report with one root of chain 7, which continues the lane at sequence number 4.\<close>

definition sample_commit_report :: CommitPluginReport where
  "sample_commit_report = CommitPluginReport_zero\<lparr>cpr_UnblessedMerkleRoots := [\<lparr>mrc_ChainSel = 7, mrc_OnRampAddress = [1],
     mrc_SeqNumsRange = \<lparr>sr_Start = 4, sr_End = 6\<rparr>, mrc_MerkleRoot = replicate 32 1\<rparr>]\<rparr>"

definition sample_plugin :: commit_Plugin where
  "sample_plugin = NewPlugin sample_lib [(3, [2])] sample_commit_config 5
     (sample_reader0\<lparr>rd_GetLatestPriceSeqNr := Ok 1, rd_NextSeqNum := (\<lambda>_. Ok [(7, 4)])\<rparr>) None
     (sample_report_codec sample_commit_report) sample_poller2 \<lparr>rpc_F = 1, rpc_N = 4\<rparr> 3 [0]
     \<lparr>ob_OffRampNextSeqNums = Ok [], ob_LatestOnRampSeqNums = Ok [], ob_MerkleRoots = (\<lambda>_. Ok []), ob_FChain = [(5, 1)]\<rparr>
     sample_commit_codec (NewReportBuilder sample_lib 0 0)"

theorem ShouldAccept_iff_witness:
  "ShouldAcceptAttestedReport sample_lib 0 sample_plugin 9 \<lparr>rwi_Report = Some [1], rwi_Info = [2]\<rparr> = Ok True \<and>
   (\<exists>rep. report_ready sample_lib 0 sample_plugin [1] [2] rep \<and> report_fresh sample_plugin 9 rep)"
proof -
  have a: "ShouldAcceptAttestedReport sample_lib 0 sample_plugin 9 \<lparr>rwi_Report = Some [1], rwi_Info = [2]\<rparr> = Ok True"
    by code_simp
  with ShouldAccept_iff [OF sample_lib_specs(3), of 0 sample_plugin 9 "\<lparr>rwi_Report = Some [1], rwi_Info = [2]\<rparr>"]
  show ?thesis by simp
qed

theorem price_transmission_agreed_witness:
  "getMainOutcomeAndCacheInvalidation sample_lib sample_plugin
     (sample_commit_outcome\<lparr>co_MainOutcome := \<lparr>mo_InflightPriceOcrSequenceNumber = 3, mo_RemainingPriceChecks = 2\<rparr>\<rparr>) [9, 4, 3]
     [(5, [1, 1, 1])] = Ok (MainOutcome_zero, True)"
proof -
  have "map_of (GetConsensusMap (lib_sum_int sample_lib) [(5, [1, 1, 1])]
      (MakeConstantThreshold (TwoFPlus1 (rpc_F (cpl_reportingCfg sample_plugin))))) (cpl_destChain sample_plugin) = Some 1"
    by code_simp
  from price_transmission_agreed [OF _ _ _ this,
      of "sample_commit_outcome\<lparr>co_MainOutcome := \<lparr>mo_InflightPriceOcrSequenceNumber = 3, mo_RemainingPriceChecks = 2\<rparr>\<rparr>" "[9, 4, 3]" "[4, 3]" "[9]"]
  show ?thesis by simp
qed

definition sample_env :: round_env where
  "sample_env = \<lparr>re_tkOps1 = [], re_tkOps2 = [], re_cfOps1 = [], re_cfOps2 = [], re_cfOps3 = [], re_tkNow = 1, re_cfNow = 1\<rparr>"

text \<open>The prices of sequence number 3 are in flight, with \<open>n\<close> checks left.\<close>

definition sample_in_flight :: "int \<Rightarrow> commit_Outcome" where
  "sample_in_flight n = \<lparr>co_MerkleRootOutcome = mr_Outcome_zero, co_TokenPriceOutcome = \<lparr>tko_TokenPrices = []\<rparr>,
     co_ChainFeeOutcome = \<lparr>cfout_GasPrices = []\<rparr>,
     co_MainOutcome = \<lparr>mo_InflightPriceOcrSequenceNumber = 3, mo_RemainingPriceChecks = n\<rparr>\<rparr>"

definition sample_commit_ob :: commit_Observation where
  "sample_commit_ob = commit_Observation_zero\<lparr>cob_MerkleRootObs := mr_Observation_zero\<lparr>mob_FChain := [(5, 1)]\<rparr>,
     cob_FChain := [(5, 1), (7, 1)], cob_OnChainPriceOcrSeqNum := 1\<rparr>"

definition sample_commit_aos :: "commit_ao list" where
  "sample_commit_aos = map (\<lambda>i. \<lparr>ao_OracleID = i, ao_Observation = sample_commit_ob\<rparr>) [1, 2, 3, 4]"

definition sample_after :: commit_Outcome where
  "sample_after = (sample_in_flight 0)\<lparr>co_MerkleRootOutcome := mr_Outcome_zero\<lparr>mro_OutcomeType := ReportEmpty\<rparr>\<rparr>"

lemma sample_observes: "observes (sample_in_flight 1) sample_commit_ob" "observes sample_after sample_commit_ob"
proof -
  have "snd (commit_observe sample_plugin sample_env dt_Observation_zero (sample_in_flight 1)) = Ok sample_commit_ob"
    "snd (commit_observe sample_plugin sample_env dt_Observation_zero sample_after) = Ok sample_commit_ob" by code_simp+
  then show "observes (sample_in_flight 1) sample_commit_ob" "observes sample_after sample_commit_ob"
    unfolding observes_def by blast+
qed

lemma sample_fair:
  "observes prev sample_commit_ob \<Longrightarrow> fair_round 1 prev sample_commit_aos"
  by (simp add: fair_round_def sample_commit_aos_def obs_fchains_ok_def fchain_ok_def sample_commit_ob_def
      commit_Observation_zero_def mr_Observation_zero_def tk_Observation_zero_def cf_Observation_zero_def gm_ok_def)

theorem commit_in_flight_cleared_witness:
  "\<exists>k outs. commit_run sample_lib sample_plugin (sample_in_flight 1) (take k [(4, sample_commit_aos), (5, sample_commit_aos)]) = Ok outs \<and>
     co_MainOutcome (last outs) = MainOutcome_zero"
proof -
  let ?r = "commit_outcome sample_lib sample_plugin 4 (sample_in_flight 1) sample_commit_aos"
  have "snd ?r = Ok sample_after" "rpc_F (cpl_reportingCfg (fst ?r)) = 1" by code_simp+
  then obtain p' where p': "?r = (p', Ok sample_after)" "rpc_F (cpl_reportingCfg p') = 1" by (cases ?r) auto
  have f: "rpc_F (cpl_reportingCfg sample_plugin) = 1" by code_simp
  have "fair_rounds sample_lib sample_plugin (sample_in_flight 1) [(4, sample_commit_aos), (5, sample_commit_aos)]"
    using sample_fair [OF sample_observes(1)] sample_fair [OF sample_observes(2)]
    by (auto simp: p' f split: prod.splits result.splits)
  moreover have "plugin_wired sample_plugin" unfolding sample_plugin_def by (rule plugin_wired_NewPlugin)
  ultimately show ?thesis
    using commit_in_flight_cleared [of sample_plugin sample_lib "sample_in_flight 1"
        "[(4, sample_commit_aos), (5, sample_commit_aos)]"] f
    by (auto simp: sample_in_flight_def)
qed

section \<open>Determinism\<close>

text \<open>Observations, and outcomes, that differ at most in the order of their maps.\<close>

definition commit_obs_eq :: "commit_ao \<Rightarrow> commit_ao \<Rightarrow> bool" where
  "commit_obs_eq ao ao' \<longleftrightarrow> (let ob = ao_Observation ao; ob' = ao_Observation ao' in
     mr_obs_eq \<lparr>ao_OracleID = ao_OracleID ao, ao_Observation = cob_MerkleRootObs ob\<rparr>
       \<lparr>ao_OracleID = ao_OracleID ao', ao_Observation = cob_MerkleRootObs ob'\<rparr> \<and>
     tk_obs_eq \<lparr>ao_OracleID = ao_OracleID ao, ao_Observation = cob_TokenPriceObs ob\<rparr>
       \<lparr>ao_OracleID = ao_OracleID ao', ao_Observation = cob_TokenPriceObs ob'\<rparr> \<and>
     cf_obs_eq \<lparr>ao_OracleID = ao_OracleID ao, ao_Observation = cob_ChainFeeObs ob\<rparr>
       \<lparr>ao_OracleID = ao_OracleID ao', ao_Observation = cob_ChainFeeObs ob'\<rparr> \<and>
     gm_eq (cob_FChain ob) (cob_FChain ob') \<and> cob_OnChainPriceOcrSeqNum ob = cob_OnChainPriceOcrSeqNum ob')"

definition commit_out_eq :: "commit_Outcome \<Rightarrow> commit_Outcome \<Rightarrow> bool" where
  "commit_out_eq o1 o2 \<longleftrightarrow> co_MerkleRootOutcome o1 = co_MerkleRootOutcome o2 \<and>
     tk_out_eq (co_TokenPriceOutcome o1) (co_TokenPriceOutcome o2) \<and>
     co_ChainFeeOutcome o1 = co_ChainFeeOutcome o2 \<and> co_MainOutcome o1 = co_MainOutcome o2"

lemma rel_or_zero: "rel_result R r r' \<Longrightarrow> R z z \<Longrightarrow> rel_result R (or_zero z r) (or_zero z r')"
  by (cases r; cases r') auto

definition prel :: "('a \<Rightarrow> 'b \<Rightarrow> bool) \<Rightarrow> 'p \<times> 'a result \<Rightarrow> 'p \<times> 'b result \<Rightarrow> bool" where
  "prel Q x y \<longleftrightarrow> fst x = fst y \<and> rel_result Q (snd x) (snd y)"

lemma rel_pbind:
  assumes "rel_result R r r'" and "\<And>x x'. R x x' \<Longrightarrow> prel Q (f x) (f' x')"
  shows "prel Q (pbind p r f) (pbind p r' f')"
  using assms by (cases r; cases r') (auto simp: prel_def)

lemma rel_pbind_eq: "(\<And>x. prel Q (f x) (f' x)) \<Longrightarrow> prel Q (pbind p r f) (pbind p r f')"
  by (cases r) (auto simp: prel_def)

lemma rel_pbind_pair:
  "(\<And>x y. prel Q (f x y) (f' x y)) \<Longrightarrow> prel Q (pbind p r (\<lambda>(x, y). f x y)) (pbind p r (\<lambda>(x, y). f' x y))"
  by (cases r) (auto simp: prel_def)

lemma project_rel:
  assumes "list_all2 commit_obs_eq aos aos'"
  shows "list_all2 mr_obs_eq (project cob_MerkleRootObs aos) (project cob_MerkleRootObs aos')"
    "list_all2 tk_obs_eq (project cob_TokenPriceObs aos) (project cob_TokenPriceObs aos')"
    "list_all2 cf_obs_eq (project cob_ChainFeeObs aos) (project cob_ChainFeeObs aos')"
    "list_all2 gm_eq (map (\<lambda>ao. cob_FChain (ao_Observation ao)) aos) (map (\<lambda>ao. cob_FChain (ao_Observation ao)) aos')"
    "observed_seq_nums aos = observed_seq_nums aos'"
  using assms
  by (induction rule: list_all2_induct) (auto simp: project_def observed_seq_nums_def commit_obs_eq_def Let_def)

lemma getMain_det:
  assumes "gm_eq fm fm'" and "co_MainOutcome prev = co_MainOutcome prev'"
  shows "getMainOutcomeAndCacheInvalidation lib p prev nums fm = getMainOutcomeAndCacheInvalidation lib p prev' nums fm'"
proof -
  have "map_of (GetConsensusMap (lib_sum_int lib) fm t) = map_of (GetConsensusMap (lib_sum_int lib) fm' t)" for t
    using gm_eq_GetConsensusMap [OF assms(1)] by (simp add: gm_eq_def)
  then show ?thesis using assms(2) by (simp add: getMainOutcomeAndCacheInvalidation_def Let_def)
qed

lemma has_prices_det: "tk_out_eq t t' \<Longrightarrow> has_prices t c \<longleftrightarrow> has_prices t' c"
  by (auto simp: has_prices_def tk_out_eq_def gm_eq_def dest: fun_cong)

lemma commit_outcome_det:
  assumes "commit_out_eq prev prev'" and "list_all2 commit_obs_eq aos aos'"
  shows "prel commit_out_eq (commit_outcome lib p seqNr prev aos) (commit_outcome lib p seqNr prev' aos')"
proof -
  note pr = project_rel [OF assms(2)]
  have prev: "co_MerkleRootOutcome prev = co_MerkleRootOutcome prev'" "co_MainOutcome prev = co_MainOutcome prev'"
    "tk_out_eq (co_TokenPriceOutcome prev) (co_TokenPriceOutcome prev')" "co_ChainFeeOutcome prev = co_ChainFeeOutcome prev'"
    using assms(1) by (simp_all add: commit_out_eq_def)
  note mr = mrp.outcome_det [OF refl pr(1), unfolded result.rel_eq]
  note main = getMain_det [OF group_maps_gm_eq [OF pr(4)] prev(2)]
  have t: "tk_out_eq \<lparr>tko_TokenPrices = []\<rparr> \<lparr>tko_TokenPrices = []\<rparr>" by (simp add: tk_out_eq_def gm_eq_def gm_ok_def)
  note cf = cfp.outcome_det [OF refl pr(3), unfolded result.rel_eq]
  show ?thesis
    unfolding commit_outcome_def Let_def pr(5) prev(1,4) mr main tk_Outcome_method_def cf_Outcome_method_def prod.case cf
    by (rule rel_pbind_eq, rule rel_pbind_pair, rule rel_pbind [where R = tk_out_eq],
        rule rel_or_zero [OF tkp.outcome_det [OF prev(3) pr(2)] t], rule rel_pbind_eq)
      (auto simp: prel_def commit_out_eq_def has_prices_det)
qed


text \<open>C20. Determinism of the commit plugin: for the same previous outcome and the same observations, visited with
  their maps in whatever order, two oracles in the same state compute the same outcome up to the order of
  the token price map, the same error or the same panic; and so over any sequence of rounds.\<close>

theorem commit_outcome_deterministic:
  assumes "commit_out_eq prev prev'"
    and "list_all2 (\<lambda>r r'. fst r = fst r' \<and> list_all2 commit_obs_eq (snd r) (snd r')) rounds rounds'"
  shows "rel_result (list_all2 commit_out_eq) (commit_run lib p prev rounds) (commit_run lib p prev' rounds')"
  using assms(2,1)
proof (induction rounds rounds' arbitrary: p prev prev' rule: list_all2_induct)
  case (Cons r rounds r' rounds')
  obtain seqNr aos aos' where r: "r = (seqNr, aos)" "r' = (seqNr, aos')" "list_all2 commit_obs_eq aos aos'"
    using Cons.hyps(1) by (cases r; cases r') auto
  obtain p' o1 o2 where o: "commit_outcome lib p seqNr prev aos = (p', o1)" "commit_outcome lib p seqNr prev' aos' = (p', o2)"
    "rel_result commit_out_eq o1 o2"
    using commit_outcome_det [OF Cons.prems r(3), of lib p seqNr]
    by (cases "commit_outcome lib p seqNr prev aos"; cases "commit_outcome lib p seqNr prev' aos'") (auto simp: prel_def)
  show ?case
  proof (cases o1)
    case (Ok out)
    with o(3) obtain out' where out': "o2 = Ok out'" "commit_out_eq out out'" by (cases o2) auto
    from Cons.IH [OF out'(2), of p'] show ?thesis
      by (cases "commit_run lib p' out rounds"; cases "commit_run lib p' out' rounds'") (auto simp: r o Ok out')
  qed (use o in \<open>cases o2; simp add: r\<close>)+
qed simp

lemma commit_out_eq_sample: "commit_out_eq (sample_in_flight n) (sample_in_flight n)"
  by (simp add: commit_out_eq_def sample_in_flight_def tk_out_eq_def gm_eq_def gm_ok_def)

definition swapped_aos :: "commit_ao list" where
  "swapped_aos = map (\<lambda>ao. ao\<lparr>ao_Observation := (ao_Observation ao)\<lparr>cob_FChain := rev (cob_FChain (ao_Observation ao))\<rparr>\<rparr>) sample_commit_aos"

theorem commit_outcome_deterministic_witness:
  "rel_result (list_all2 commit_out_eq)
     (commit_run sample_lib sample_plugin (sample_in_flight 1) [(4, sample_commit_aos), (5, sample_commit_aos)])
     (commit_run sample_lib sample_plugin (sample_in_flight 1) [(4, swapped_aos), (5, swapped_aos)])"
  by (rule commit_outcome_deterministic [OF commit_out_eq_sample])
    (simp add: swapped_aos_def sample_commit_aos_def sample_commit_ob_def commit_obs_eq_def commit_Observation_zero_def
        mr_obs_eq_def tk_obs_eq_def cf_obs_eq_def cf_con_eq_def tk_Observation_zero_def cf_Observation_zero_def
        mr_Observation_zero_def gm_eq_def gm_ok_def Let_def fun_eq_iff)

end
