(* ===== verification/Codec.thy ===== *)
theory Codec
  imports CommitPlugin
begin

text \<open>
  The protobuf codec of the commit plugin (pkg/ocrtypecodec/v1: commit.go and the part of translate.go it
  uses). The messages of the generated package are records here; a sub-message is a pointer, so it is an
  \<open>option\<close>. The protobuf runtime (\<open>proto.Marshal\<close>, \<open>proto.Unmarshal\<close>, timestamps) is not part of the
  repository: it is the argument \<open>proto_lib\<close>, whose wire is a list over an arbitrary type.

  The lemmas show which messages make a decoder panic, and that what is encoded decodes to itself within the
  ranges of the wire format: 32 bit signed fault bounds and counters, and big integers without a sign.
\<close>

section \<open>Big integers and 32 bit integers\<close>

text \<open>\<open>big.Int.Bytes\<close> is the absolute value, big-endian, without leading zeros, and \<open>SetBytes\<close> reads one. A nil
  pointer panics. The type \<open>cciptypes.BigInt\<close> wraps such a pointer; it belongs to chainlink-common, and what its
  \<open>Bytes\<close> gives is a function of the library.\<close>

fun be_bytes :: "nat \<Rightarrow> byte list" where
  "be_bytes n = (if n = 0 then [] else be_bytes (n div 256) @ [of_nat n])"

declare be_bytes.simps [simp del]

definition big_Bytes :: "BigInt \<Rightarrow> byte list result" where
  "big_Bytes b = (case b of None \<Rightarrow> Panic | Some i \<Rightarrow> Ok (be_bytes (nat \<bar>i\<bar>)))"

definition big_SetBytes :: "byte list \<Rightarrow> BigInt" where
  "big_SetBytes bs = Some (int (fold (\<lambda>b n. n * 256 + unat b) bs 0))"

definition s32 :: "int \<Rightarrow> int" where
  "s32 x = (x + 2 ^ 31) mod 2 ^ 32 - 2 ^ 31"

definition u32 :: "u64 \<Rightarrow> u64" where
  "u32 x = take_bit 32 x"

section \<open>Messages\<close>

type_synonym pb_Timestamp = "int \<times> int"

record pb_SeqNumRange =
  pbr_MinMsgNr :: u64
  pbr_MaxMsgNr :: u64

record pb_MerkleRootChain =
  pbm_ChainSel :: u64
  pbm_OnRampAddress :: "byte list"
  pbm_SeqNumsRange :: "pb_SeqNumRange option"
  pbm_MerkleRoot :: "byte list"

record pb_SeqNumChain =
  pbs_ChainSel :: u64
  pbs_SeqNum :: u64

record pb_TimestampedBig =
  pbt_Value :: "byte list"
  pbt_Timestamp :: "pb_Timestamp option"

record pb_ChainFeeComponents =
  pbc_ExecutionFee :: "byte list"
  pbc_DataAvailabilityFee :: "byte list"

record pb_ComponentsUSDPrices =
  pbu_ExecutionFeePriceUsd :: "byte list"
  pbu_DataAvFeePriceUsd :: "byte list"

record pb_ChainFeeUpdate =
  pbf_ChainFee :: "pb_ComponentsUSDPrices option"
  pbf_Timestamp :: "pb_Timestamp option"

record pb_ChainRange =
  pbcr_ChainSel :: u64
  pbcr_SeqNumRange :: "pb_SeqNumRange option"

record pb_GasPriceChain =
  pbg_ChainSel :: u64
  pbg_GasPrice :: "byte list"

type_synonym pb_FChain = "(u64, int) gomap"
type_synonym pb_ChainAddressMap = "(u64, byte list) gomap"

record pb_MerkleRootObservation =
  pbmo_MerkleRoots :: "pb_MerkleRootChain list"
  pbmo_OnRampMaxSeqNums :: "pb_SeqNumChain list"
  pbmo_OffRampNextSeqNums :: "pb_SeqNumChain list"
  pbmo_FChain :: pb_FChain

record pb_TokenPriceObservation =
  pbto_FeedTokenPrices :: "(string, byte list) gomap"
  pbto_FeeQuoterTokenUpdates :: "(string, pb_TimestampedBig) gomap"
  pbto_FChain :: pb_FChain
  pbto_Timestamp :: "pb_Timestamp option"

record pb_ChainFeeObservation =
  pbco_FeeComponents :: "(u64, pb_ChainFeeComponents) gomap"
  pbco_NativeTokenPrices :: "(u64, byte list) gomap"
  pbco_ChainFeeUpdates :: "(u64, pb_ChainFeeUpdate) gomap"
  pbco_FChain :: pb_FChain
  pbco_TimestampNow :: "pb_Timestamp option"

record pb_DiscoveryObservation =
  pbdo_FChain :: pb_FChain
  pbdo_ContractNames :: "(string, pb_ChainAddressMap) gomap option"

record pb_CommitObservation =
  pbo_MerkleRootObs :: "pb_MerkleRootObservation option"
  pbo_TokenPriceObs :: "pb_TokenPriceObservation option"
  pbo_ChainFeeObs :: "pb_ChainFeeObservation option"
  pbo_DiscoveryObs :: "pb_DiscoveryObservation option"
  pbo_FChain :: pb_FChain
  pbo_OnchainPriceOcrSeqNum :: u64

record pb_MerkleRootOutcome =
  pbmu_OutcomeType :: int
  pbmu_RangesSelectedForReport :: "pb_ChainRange list"
  pbmu_RootsToReport :: "pb_MerkleRootChain list"
  pbmu_OffRampNextSeqNums :: "pb_SeqNumChain list"
  pbmu_ReportTransmissionCheckAttempts :: u64

record pb_MainOutcome =
  pbma_InflightPriceOcrSequenceNumber :: u64
  pbma_RemainingPriceChecks :: int

record pb_CommitOutcome =
  pbu_MerkleRootOutcome :: "pb_MerkleRootOutcome option"
  pbu_TokenPrices :: "(string, byte list) gomap option"
  pbu_GasPrices :: "pb_GasPriceChain list option"
  pbu_MainOutcome :: "pb_MainOutcome option"

text \<open>The runtime. \<open>pl_AsTime\<close> accepts a nil timestamp. \<open>pl_BigInt_Bytes\<close> is \<open>cciptypes.BigInt.Bytes\<close>.\<close>

record 'w proto_lib =
  pl_MarshalObs :: "pb_CommitObservation \<Rightarrow> 'w list result"
  pl_UnmarshalObs :: "'w list \<Rightarrow> pb_CommitObservation result"
  pl_MarshalOutcome :: "pb_CommitOutcome \<Rightarrow> 'w list result"
  pl_UnmarshalOutcome :: "'w list \<Rightarrow> pb_CommitOutcome result"
  pl_MarshalQuery :: "'w list result"
  pl_UnmarshalQuery :: "'w list \<Rightarrow> unit result"
  pl_NewTimestamp :: "time \<Rightarrow> pb_Timestamp"
  pl_AsTime :: "pb_Timestamp option \<Rightarrow> time"
  pl_BigInt_Bytes :: "BigInt \<Rightarrow> byte list result"

section \<open>translate.go\<close>

text \<open>A loop that translates every element of a slice, or every value of a map, and can fail.\<close>

fun traverse_r :: "('a \<Rightarrow> 'b result) \<Rightarrow> 'a list \<Rightarrow> 'b list result" where
  "traverse_r f [] = Ok []"
| "traverse_r f (x # xs) = rbind (f x) (\<lambda>y. rbind (traverse_r f xs) (\<lambda>ys. Ok (y # ys)))"

definition map_values :: "('v \<Rightarrow> 'w) \<Rightarrow> ('k, 'v) gomap \<Rightarrow> ('k, 'w) gomap" where
  "map_values f m = map (\<lambda>(k, v). (k, f v)) m"

definition map_values_r :: "('v \<Rightarrow> 'w result) \<Rightarrow> ('k, 'v) gomap \<Rightarrow> ('k, 'w) gomap result" where
  "map_values_r f m = traverse_r (\<lambda>(k, v). rbind (f v) (\<lambda>w. Ok (k, w))) m"

definition merkleRootsToProto :: "MerkleRootChain list \<Rightarrow> pb_MerkleRootChain list" where
  "merkleRootsToProto merkleRoots = map (\<lambda>mr. \<lparr>pbm_ChainSel = mrc_ChainSel mr, pbm_OnRampAddress = mrc_OnRampAddress mr,
     pbm_SeqNumsRange = Some \<lparr>pbr_MinMsgNr = sr_Start (mrc_SeqNumsRange mr), pbr_MaxMsgNr = sr_End (mrc_SeqNumsRange mr)\<rparr>,
     pbm_MerkleRoot = mrc_MerkleRoot mr\<rparr>) merkleRoots"

text \<open>\<open>mr.SeqNumsRange.MinMsgNr\<close> reads a field of the sub-message without a nil check.\<close>

definition merkleRootFromProto :: "pb_MerkleRootChain \<Rightarrow> MerkleRootChain result" where
  "merkleRootFromProto mr =
     (if length (pbm_MerkleRoot mr) \<noteq> 32 then Error (Err ''merkle root must be 32 bytes'')
      else case pbm_SeqNumsRange mr of
             None \<Rightarrow> Panic
           | Some r \<Rightarrow> Ok \<lparr>mrc_ChainSel = pbm_ChainSel mr, mrc_OnRampAddress = pbm_OnRampAddress mr,
               mrc_SeqNumsRange = \<lparr>sr_Start = pbr_MinMsgNr r, sr_End = pbr_MaxMsgNr r\<rparr>, mrc_MerkleRoot = pbm_MerkleRoot mr\<rparr>)"

definition merkleRootsFromProto :: "pb_MerkleRootChain list \<Rightarrow> MerkleRootChain list result" where
  "merkleRootsFromProto pbMerkleRoots = traverse_r merkleRootFromProto pbMerkleRoots"

definition seqNumChainToProto :: "SeqNumChain list \<Rightarrow> pb_SeqNumChain list" where
  "seqNumChainToProto snc = map (\<lambda>s. \<lparr>pbs_ChainSel = snc_ChainSel s, pbs_SeqNum = snc_SeqNum s\<rparr>) snc"

definition seqNumChainFromProto :: "pb_SeqNumChain list \<Rightarrow> SeqNumChain list" where
  "seqNumChainFromProto pbSnc = map (\<lambda>s. \<lparr>snc_ChainSel = pbs_ChainSel s, snc_SeqNum = pbs_SeqNum s\<rparr>) pbSnc"

definition fChainToProto :: "(ChainSelector, int) gomap \<Rightarrow> pb_FChain" where
  "fChainToProto fChain = map_values s32 fChain"

definition fChainFromProto :: "pb_FChain \<Rightarrow> (ChainSelector, int) gomap" where
  "fChainFromProto pbFChain = map_values (\<lambda>v. v) pbFChain"

definition feedTokenPricesToProto :: "'w proto_lib \<Rightarrow> TokenPriceMap \<Rightarrow> (string, byte list) gomap result" where
  "feedTokenPricesToProto pl feedPrices = map_values_r (pl_BigInt_Bytes pl) feedPrices"

definition feedTokenPricesFromProto :: "(string, byte list) gomap \<Rightarrow> TokenPriceMap" where
  "feedTokenPricesFromProto pbFeedPrices = map_values big_SetBytes pbFeedPrices"

definition feeQuoterTokenUpdatesToProto ::
  "'w proto_lib \<Rightarrow> (UnknownEncodedAddress, TimestampedBig) gomap \<Rightarrow> (string, pb_TimestampedBig) gomap result" where
  "feeQuoterTokenUpdatesToProto pl tokenUpdates = map_values_r (\<lambda>v. rbind (pl_BigInt_Bytes pl (tb_Value v)) (\<lambda>b.
     Ok \<lparr>pbt_Value = b, pbt_Timestamp = Some (pl_NewTimestamp pl (tb_Timestamp v))\<rparr>)) tokenUpdates"

definition feeQuoterTokenUpdatesFromProto ::
  "'w proto_lib \<Rightarrow> (string, pb_TimestampedBig) gomap \<Rightarrow> (UnknownEncodedAddress, TimestampedBig) gomap" where
  "feeQuoterTokenUpdatesFromProto pl pbTokenUpdates = map_values (\<lambda>v.
     \<lparr>tb_Timestamp = pl_AsTime pl (pbt_Timestamp v), tb_Value = big_SetBytes (pbt_Value v)\<rparr>) pbTokenUpdates"

definition feeComponentsToProto ::
  "(ChainSelector, ChainFeeComponents) gomap \<Rightarrow> (u64, pb_ChainFeeComponents) gomap result" where
  "feeComponentsToProto feeComponents = map_values_r (\<lambda>v.
     rbind (big_Bytes (cfc_ExecutionFee v)) (\<lambda>e. rbind (big_Bytes (cfc_DataAvailabilityFee v)) (\<lambda>d.
       Ok \<lparr>pbc_ExecutionFee = e, pbc_DataAvailabilityFee = d\<rparr>))) feeComponents"

definition feeComponentsFromProto ::
  "(u64, pb_ChainFeeComponents) gomap \<Rightarrow> (ChainSelector, ChainFeeComponents) gomap" where
  "feeComponentsFromProto pbFeeComponents = map_values (\<lambda>v.
     \<lparr>cfc_ExecutionFee = big_SetBytes (pbc_ExecutionFee v),
      cfc_DataAvailabilityFee = big_SetBytes (pbc_DataAvailabilityFee v)\<rparr>) pbFeeComponents"

definition nativeTokenPricesToProto :: "'w proto_lib \<Rightarrow> (ChainSelector, BigInt) gomap \<Rightarrow> (u64, byte list) gomap result" where
  "nativeTokenPricesToProto pl prices = map_values_r (pl_BigInt_Bytes pl) prices"

definition nativeTokenPricesFromProto :: "(u64, byte list) gomap \<Rightarrow> (ChainSelector, BigInt) gomap" where
  "nativeTokenPricesFromProto pbPrices = map_values big_SetBytes pbPrices"

definition chainFeeUpdatesToProto ::
  "'w proto_lib \<Rightarrow> (ChainSelector, cf_Update) gomap \<Rightarrow> (u64, pb_ChainFeeUpdate) gomap result" where
  "chainFeeUpdatesToProto pl updates = map_values_r (\<lambda>v.
     rbind (big_Bytes (cup_ExecutionFeePriceUSD (cfu_ChainFee v))) (\<lambda>e.
     rbind (big_Bytes (cup_DataAvFeePriceUSD (cfu_ChainFee v))) (\<lambda>d.
       Ok \<lparr>pbf_ChainFee = Some \<lparr>pbu_ExecutionFeePriceUsd = e, pbu_DataAvFeePriceUsd = d\<rparr>,
           pbf_Timestamp = Some (pl_NewTimestamp pl (cfu_Timestamp v))\<rparr>))) updates"

text \<open>\<open>v.ChainFee.ExecutionFeePriceUsd\<close> reads a field of the sub-message without a nil check.\<close>

definition chainFeeUpdatesFromProto ::
  "'w proto_lib \<Rightarrow> (u64, pb_ChainFeeUpdate) gomap \<Rightarrow> (ChainSelector, cf_Update) gomap result" where
  "chainFeeUpdatesFromProto pl pbUpdates = map_values_r (\<lambda>v.
     case pbf_ChainFee v of
       None \<Rightarrow> Panic
     | Some c \<Rightarrow> Ok \<lparr>cfu_ChainFee = \<lparr>cup_ExecutionFeePriceUSD = big_SetBytes (pbu_ExecutionFeePriceUsd c),
                                     cup_DataAvFeePriceUSD = big_SetBytes (pbu_DataAvFeePriceUsd c)\<rparr>,
                    cfu_Timestamp = pl_AsTime pl (pbf_Timestamp v)\<rparr>) pbUpdates"

definition discoveryAddressesToProto :: "ContractAddresses \<Rightarrow> (string, pb_ChainAddressMap) gomap" where
  "discoveryAddressesToProto addresses = map_values (map_values (\<lambda>addr. addr)) addresses"

definition discoveryAddressesFromProto :: "(string, pb_ChainAddressMap) gomap \<Rightarrow> ContractAddresses" where
  "discoveryAddressesFromProto pbAddresses = map_values (map_values (\<lambda>addr. addr)) pbAddresses"

definition chainRangeToProto :: "ChainRange list \<Rightarrow> pb_ChainRange list" where
  "chainRangeToProto chainRange = map (\<lambda>r. \<lparr>pbcr_ChainSel = cr_ChainSel r,
     pbcr_SeqNumRange = Some \<lparr>pbr_MinMsgNr = sr_Start (cr_SeqNumRange r), pbr_MaxMsgNr = sr_End (cr_SeqNumRange r)\<rparr>\<rparr>) chainRange"

definition chainRangeFromProto :: "pb_ChainRange list \<Rightarrow> ChainRange list result" where
  "chainRangeFromProto pbChainRange = traverse_r (\<lambda>r.
     case pbcr_SeqNumRange r of
       None \<Rightarrow> Panic
     | Some s \<Rightarrow> Ok \<lparr>cr_ChainSel = pbcr_ChainSel r,
                    cr_SeqNumRange = \<lparr>sr_Start = pbr_MinMsgNr s, sr_End = pbr_MaxMsgNr s\<rparr>\<rparr>) pbChainRange"

definition gasPriceChainToProto :: "'w proto_lib \<Rightarrow> GasPriceChain list \<Rightarrow> pb_GasPriceChain list result" where
  "gasPriceChainToProto pl gpc = traverse_r (\<lambda>gp. rbind (pl_BigInt_Bytes pl (gp_GasPrice gp)) (\<lambda>b.
     Ok \<lparr>pbg_ChainSel = gp_ChainSel gp, pbg_GasPrice = b\<rparr>)) gpc"

definition gasPriceChainFromProto :: "pb_GasPriceChain list \<Rightarrow> GasPriceChain list" where
  "gasPriceChainFromProto pbGpc = map (\<lambda>gp.
     \<lparr>gp_ChainSel = pbg_ChainSel gp, gp_GasPrice = big_SetBytes (pbg_GasPrice gp)\<rparr>) pbGpc"

section \<open>commit.go\<close>

text \<open>The getters of a nil message return the zero values.\<close>

definition opt_get :: "'a \<Rightarrow> ('m \<Rightarrow> 'a) \<Rightarrow> 'm option \<Rightarrow> 'a" where
  "opt_get z f m = (case m of None \<Rightarrow> z | Some x \<Rightarrow> f x)"

definition EncodeQuery :: "'w proto_lib \<Rightarrow> 'w list result" where
  "EncodeQuery pl = pl_MarshalQuery pl"

definition DecodeQuery :: "'w proto_lib \<Rightarrow> 'w list \<Rightarrow> unit result" where
  "DecodeQuery pl data = (if data = [] then Ok () else wrap_err ''proto unmarshal query'' (pl_UnmarshalQuery pl data))"

definition obs_to_proto :: "'w proto_lib \<Rightarrow> commit_Observation \<Rightarrow> pb_CommitObservation result" where
  "obs_to_proto pl ob =
     (let mr = cob_MerkleRootObs ob; tk = cob_TokenPriceObs ob; cf = cob_ChainFeeObs ob; d = cob_DiscoveryObs ob in
      rbind (feedTokenPricesToProto pl (tkb_FeedTokenPrices tk)) (\<lambda>feed.
      rbind (feeQuoterTokenUpdatesToProto pl (tkb_FeeQuoterTokenUpdates tk)) (\<lambda>updates.
      rbind (feeComponentsToProto (cfo_FeeComponents cf)) (\<lambda>comps.
      rbind (nativeTokenPricesToProto pl (cfo_NativeTokenPrices cf)) (\<lambda>native.
      rbind (chainFeeUpdatesToProto pl (cfo_ChainFeeUpdates cf)) (\<lambda>feeUpdates.
        Ok \<lparr>pbo_MerkleRootObs = Some
              \<lparr>pbmo_MerkleRoots = merkleRootsToProto (mob_MerkleRoots mr),
               pbmo_OnRampMaxSeqNums = seqNumChainToProto (mob_OnRampMaxSeqNums mr),
               pbmo_OffRampNextSeqNums = seqNumChainToProto (mob_OffRampNextSeqNums mr),
               pbmo_FChain = fChainToProto (mob_FChain mr)\<rparr>,
            pbo_TokenPriceObs = Some
              \<lparr>pbto_FeedTokenPrices = feed, pbto_FeeQuoterTokenUpdates = updates, pbto_FChain = fChainToProto (tkb_FChain tk),
               pbto_Timestamp = Some (pl_NewTimestamp pl (tkb_Timestamp tk))\<rparr>,
            pbo_ChainFeeObs = Some
              \<lparr>pbco_FeeComponents = comps, pbco_NativeTokenPrices = native, pbco_ChainFeeUpdates = feeUpdates,
               pbco_FChain = fChainToProto (cfo_FChain cf), pbco_TimestampNow = Some (pl_NewTimestamp pl (cfo_TimestampNow cf))\<rparr>,
            pbo_DiscoveryObs = Some
              \<lparr>pbdo_FChain = fChainToProto (dt_FChain d), pbdo_ContractNames = Some (discoveryAddressesToProto (dt_Addresses d))\<rparr>,
            pbo_FChain = fChainToProto (cob_FChain ob),
            pbo_OnchainPriceOcrSeqNum = cob_OnChainPriceOcrSeqNum ob\<rparr>))))))"

definition EncodeObservation :: "'w proto_lib \<Rightarrow> commit_Observation \<Rightarrow> 'w list result" where
  "EncodeObservation pl observation = rbind (obs_to_proto pl observation) (pl_MarshalObs pl)"

definition obs_from_proto :: "'w proto_lib \<Rightarrow> pb_CommitObservation \<Rightarrow> commit_Observation result" where
  "obs_from_proto pl pb =
     (let mr = pbo_MerkleRootObs pb; tk = pbo_TokenPriceObs pb; cf = pbo_ChainFeeObs pb; d = pbo_DiscoveryObs pb in
      rbind (wrap_err ''merkle roots from proto'' (merkleRootsFromProto (opt_get [] pbmo_MerkleRoots mr))) (\<lambda>merkleRoots.
      rbind (chainFeeUpdatesFromProto pl (opt_get [] pbco_ChainFeeUpdates cf)) (\<lambda>feeUpdates.
        Ok \<lparr>cob_MerkleRootObs =
              \<lparr>mob_MerkleRoots = merkleRoots,
               mob_OnRampMaxSeqNums = seqNumChainFromProto (opt_get [] pbmo_OnRampMaxSeqNums mr),
               mob_OffRampNextSeqNums = seqNumChainFromProto (opt_get [] pbmo_OffRampNextSeqNums mr),
               mob_FChain = fChainFromProto (opt_get [] pbmo_FChain mr)\<rparr>,
            cob_TokenPriceObs =
              \<lparr>tkb_FeedTokenPrices = feedTokenPricesFromProto (opt_get [] pbto_FeedTokenPrices tk),
               tkb_FeeQuoterTokenUpdates = feeQuoterTokenUpdatesFromProto pl (opt_get [] pbto_FeeQuoterTokenUpdates tk),
               tkb_FChain = fChainFromProto (opt_get [] pbto_FChain tk),
               tkb_Timestamp = pl_AsTime pl (opt_get None pbto_Timestamp tk)\<rparr>,
            cob_ChainFeeObs =
              \<lparr>cfo_FeeComponents = feeComponentsFromProto (opt_get [] pbco_FeeComponents cf),
               cfo_NativeTokenPrices = nativeTokenPricesFromProto (opt_get [] pbco_NativeTokenPrices cf),
               cfo_ChainFeeUpdates = feeUpdates,
               cfo_FChain = fChainFromProto (opt_get [] pbco_FChain cf),
               cfo_TimestampNow = pl_AsTime pl (opt_get None pbco_TimestampNow cf)\<rparr>,
            cob_DiscoveryObs =
              \<lparr>dt_FChain = fChainFromProto (opt_get [] pbdo_FChain d),
               dt_Addresses = discoveryAddressesFromProto (opt_get [] (\<lambda>x. x) (opt_get None pbdo_ContractNames d))\<rparr>,
            cob_FChain = fChainFromProto (pbo_FChain pb),
            cob_OnChainPriceOcrSeqNum = pbo_OnchainPriceOcrSeqNum pb\<rparr>)))"

definition DecodeObservation :: "'w proto_lib \<Rightarrow> 'w list \<Rightarrow> commit_Observation result" where
  "DecodeObservation pl data =
     (if data = [] then Ok commit_Observation_zero
      else rbind (wrap_err ''proto unmarshal observation'' (pl_UnmarshalObs pl data)) (obs_from_proto pl))"

text \<open>\<open>OutcomeType\<close> is an integer; a number without a name behaves as the unset type (the default branch of
  \<open>nextState\<close>).\<close>

fun OutcomeType_number :: "OutcomeType \<Rightarrow> int" where
  "OutcomeType_number OutcomeUnset = 0"
| "OutcomeType_number ReportIntervalsSelected = 1"
| "OutcomeType_number ReportGenerated = 2"
| "OutcomeType_number ReportEmpty = 3"
| "OutcomeType_number ReportInFlight = 4"
| "OutcomeType_number ReportTransmitted = 5"
| "OutcomeType_number ReportTransmissionFailed = 6"

definition OutcomeType_of :: "int \<Rightarrow> OutcomeType" where
  "OutcomeType_of n = (if n = 1 then ReportIntervalsSelected else if n = 2 then ReportGenerated else if n = 3 then ReportEmpty
     else if n = 4 then ReportInFlight else if n = 5 then ReportTransmitted else if n = 6 then ReportTransmissionFailed
     else OutcomeUnset)"

definition outcome_to_proto :: "'w proto_lib \<Rightarrow> commit_Outcome \<Rightarrow> pb_CommitOutcome result" where
  "outcome_to_proto pl out =
     (let mr = co_MerkleRootOutcome out; m = co_MainOutcome out in
      rbind (feedTokenPricesToProto pl (tko_TokenPrices (co_TokenPriceOutcome out))) (\<lambda>prices.
      rbind (gasPriceChainToProto pl (cfout_GasPrices (co_ChainFeeOutcome out))) (\<lambda>gas.
        Ok \<lparr>pbu_MerkleRootOutcome = Some
              \<lparr>pbmu_OutcomeType = s32 (OutcomeType_number (mro_OutcomeType mr)),
               pbmu_RangesSelectedForReport = chainRangeToProto (mro_RangesSelectedForReport mr),
               pbmu_RootsToReport = merkleRootsToProto (mro_RootsToReport mr),
               pbmu_OffRampNextSeqNums = seqNumChainToProto (mro_OffRampNextSeqNums mr),
               pbmu_ReportTransmissionCheckAttempts = u32 (mro_ReportTransmissionCheckAttempts mr)\<rparr>,
            pbu_TokenPrices = Some prices, pbu_GasPrices = Some gas,
            pbu_MainOutcome = Some
              \<lparr>pbma_InflightPriceOcrSequenceNumber = mo_InflightPriceOcrSequenceNumber m,
               pbma_RemainingPriceChecks = s32 (mo_RemainingPriceChecks m)\<rparr>\<rparr>)))"

definition EncodeOutcome :: "'w proto_lib \<Rightarrow> commit_Outcome \<Rightarrow> 'w list result" where
  "EncodeOutcome pl outcome = rbind (outcome_to_proto pl outcome) (pl_MarshalOutcome pl)"

definition outcome_from_proto :: "pb_CommitOutcome \<Rightarrow> commit_Outcome result" where
  "outcome_from_proto pb =
     (let mr = pbu_MerkleRootOutcome pb; m = pbu_MainOutcome pb in
      rbind (wrap_err ''merkle roots from proto'' (merkleRootsFromProto (opt_get [] pbmu_RootsToReport mr))) (\<lambda>rootsToReport.
      rbind (chainRangeFromProto (opt_get [] pbmu_RangesSelectedForReport mr)) (\<lambda>ranges.
        Ok \<lparr>co_MerkleRootOutcome =
              \<lparr>mro_OutcomeType = OutcomeType_of (opt_get 0 pbmu_OutcomeType mr),
               mro_RangesSelectedForReport = ranges, mro_RootsToReport = rootsToReport,
               mro_OffRampNextSeqNums = seqNumChainFromProto (opt_get [] pbmu_OffRampNextSeqNums mr),
               mro_ReportTransmissionCheckAttempts = opt_get 0 pbmu_ReportTransmissionCheckAttempts mr\<rparr>,
            co_TokenPriceOutcome = \<lparr>tko_TokenPrices = feedTokenPricesFromProto (opt_get [] (\<lambda>x. x) (pbu_TokenPrices pb))\<rparr>,
            co_ChainFeeOutcome = \<lparr>cfout_GasPrices = gasPriceChainFromProto (opt_get [] (\<lambda>x. x) (pbu_GasPrices pb))\<rparr>,
            co_MainOutcome =
              \<lparr>mo_InflightPriceOcrSequenceNumber = opt_get 0 pbma_InflightPriceOcrSequenceNumber m,
               mo_RemainingPriceChecks = opt_get 0 pbma_RemainingPriceChecks m\<rparr>\<rparr>)))"

definition commit_Outcome_zero :: commit_Outcome where
  "commit_Outcome_zero = \<lparr>co_MerkleRootOutcome = mr_Outcome_zero, co_TokenPriceOutcome = \<lparr>tko_TokenPrices = []\<rparr>,
     co_ChainFeeOutcome = \<lparr>cfout_GasPrices = []\<rparr>, co_MainOutcome = MainOutcome_zero\<rparr>"

definition DecodeOutcome :: "'w proto_lib \<Rightarrow> 'w list \<Rightarrow> commit_Outcome result" where
  "DecodeOutcome pl data =
     (if data = [] then Ok commit_Outcome_zero
      else rbind (wrap_err ''proto unmarshal outcome'' (pl_UnmarshalOutcome pl data)) outcome_from_proto)"

text \<open>The codec the plugin is made with.\<close>

definition DefaultCommitCodec :: "byte proto_lib \<Rightarrow> commit_codec" where
  "DefaultCommitCodec pl = \<lparr>cdc_EncodeQuery = EncodeQuery pl, cdc_DecodeQuery = DecodeQuery pl,
     cdc_EncodeObservation = EncodeObservation pl, cdc_DecodeObservation = DecodeObservation pl,
     cdc_EncodeOutcome = EncodeOutcome pl, cdc_DecodeOutcome = DecodeOutcome pl\<rparr>"

section \<open>Round trips\<close>

lemma be_bytes_value: "fold (\<lambda>b n. n * 256 + unat b) (be_bytes n) 0 = n"
proof (induction n rule: be_bytes.induct)
  case (1 n)
  show ?case
  proof (cases "n = 0")
    case False
    have "unat (of_nat n :: byte) = n mod 256" by (simp add: unat_of_nat)
    with 1 [OF False] show ?thesis by (subst be_bytes.simps) (simp add: False)
  qed (simp add: be_bytes.simps)
qed

definition nonneg :: "BigInt \<Rightarrow> bool" where
  "nonneg b \<longleftrightarrow> (\<exists>i. b = Some i \<and> 0 \<le> i)"

lemma big_roundtrip: "nonneg b \<Longrightarrow> \<exists>bs. big_Bytes b = Ok bs \<and> big_SetBytes bs = b"
  by (auto simp: nonneg_def big_Bytes_def big_SetBytes_def be_bytes_value)

lemma s32_id: "- (2 ^ 31) \<le> x \<Longrightarrow> x < 2 ^ 31 \<Longrightarrow> s32 x = x"
  by (simp add: s32_def)

lemma traverse_roundtrip:
  assumes "\<And>x. x \<in> set xs \<Longrightarrow> \<exists>y. f x = Ok y \<and> g y = x"
  shows "\<exists>ys. traverse_r f xs = Ok ys \<and> map g ys = xs"
  using assms
proof (induction xs)
  case (Cons x xs)
  then obtain y ys where "f x = Ok y" "g y = x" "traverse_r f xs = Ok ys" "map g ys = xs" by (metis list.set_intros)
  then show ?case by (intro exI [of _ "y # ys"]) simp
qed simp

lemma traverse_r_Ok: "(\<And>x. x \<in> set xs \<Longrightarrow> f x = Ok (g x)) \<Longrightarrow> traverse_r f xs = Ok (map g xs)"
  by (induction xs) auto

lemma map_values_roundtrip:
  assumes "\<And>k v. (k, v) \<in> set m \<Longrightarrow> \<exists>w. f v = Ok w \<and> g w = v"
  shows "\<exists>m'. map_values_r f m = Ok m' \<and> map_values g m' = m"
  unfolding map_values_r_def map_values_def
  by (rule traverse_roundtrip) (use assms in fastforce)

lemma map_values_id: "(\<And>k v. (k, v) \<in> set m \<Longrightarrow> f v = v) \<Longrightarrow> map_values f m = m"
  by (auto simp: map_values_def intro!: map_idI)

lemma roots_roundtrip:
  assumes "\<forall>r \<in> set roots. length (mrc_MerkleRoot r) = 32"
  shows "merkleRootsFromProto (merkleRootsToProto roots) = Ok roots"
  using assms by (induction roots) (auto simp: merkleRootsFromProto_def merkleRootsToProto_def merkleRootFromProto_def)

lemma seqNums_roundtrip [simp]: "seqNumChainFromProto (seqNumChainToProto s) = s"
  by (induction s) (simp_all add: seqNumChainFromProto_def seqNumChainToProto_def)

lemma ranges_roundtrip [simp]: "chainRangeFromProto (chainRangeToProto r) = Ok r"
  by (induction r) (simp_all add: chainRangeFromProto_def chainRangeToProto_def)

lemma fChain_roundtrip:
  assumes "fchain_ok m"
  shows "fChainFromProto (fChainToProto m) = m"
  using assms unfolding fChainFromProto_def fChainToProto_def
  by (subst map_values_id) (auto intro!: map_values_id s32_id simp: fchain_ok_def)

lemma addresses_roundtrip [simp]: "discoveryAddressesFromProto (discoveryAddressesToProto a) = a"
  unfolding discoveryAddressesFromProto_def discoveryAddressesToProto_def by (simp add: map_values_id)

lemma OutcomeType_roundtrip [simp]: "OutcomeType_of (s32 (OutcomeType_number t)) = t"
  by (cases t) (simp_all add: s32_id OutcomeType_of_def)

text \<open>What the theorems rely on of the protobuf runtime: a message with a set sub-message has a non-empty wire
  form, which unmarshals to the message, a timestamp keeps the time, and the bytes of a wrapped integer are those of the integer.\<close>

definition proto_spec :: "'w proto_lib \<Rightarrow> bool" where
  "proto_spec pl \<longleftrightarrow>
     (\<forall>m w. pbo_MerkleRootObs m \<noteq> None \<longrightarrow> pl_MarshalObs pl m = Ok w \<longrightarrow> w \<noteq> [] \<and> pl_UnmarshalObs pl w = Ok m) \<and>
     (\<forall>m w. pbu_MerkleRootOutcome m \<noteq> None \<longrightarrow> pl_MarshalOutcome pl m = Ok w \<longrightarrow> w \<noteq> [] \<and> pl_UnmarshalOutcome pl w = Ok m) \<and>
     (\<forall>t. pl_AsTime pl (Some (pl_NewTimestamp pl t)) = t) \<and>
     (\<forall>i. pl_BigInt_Bytes pl (Some i) = big_Bytes (Some i))"

lemma BigInt_roundtrip:
  "proto_spec pl \<Longrightarrow> nonneg b \<Longrightarrow> \<exists>bs. pl_BigInt_Bytes pl b = Ok bs \<and> big_SetBytes bs = b"
  using big_roundtrip by (fastforce simp: proto_spec_def nonneg_def)

text \<open>The observations and outcomes that fit the wire format.\<close>

definition wire_obs :: "commit_Observation \<Rightarrow> bool" where
  "wire_obs ob \<longleftrightarrow> obs_fchains_ok ob \<and> fchain_ok (dt_FChain (cob_DiscoveryObs ob)) \<and>
     (\<forall>r \<in> set (mob_MerkleRoots (cob_MerkleRootObs ob)). length (mrc_MerkleRoot r) = 32) \<and>
     (\<forall>(_, v) \<in> set (tkb_FeedTokenPrices (cob_TokenPriceObs ob)). nonneg v) \<and>
     (\<forall>(_, v) \<in> set (tkb_FeeQuoterTokenUpdates (cob_TokenPriceObs ob)). nonneg (tb_Value v)) \<and>
     (\<forall>(_, v) \<in> set (cfo_FeeComponents (cob_ChainFeeObs ob)). nonneg (cfc_ExecutionFee v) \<and> nonneg (cfc_DataAvailabilityFee v)) \<and>
     (\<forall>(_, v) \<in> set (cfo_NativeTokenPrices (cob_ChainFeeObs ob)). nonneg v) \<and>
     (\<forall>(_, v) \<in> set (cfo_ChainFeeUpdates (cob_ChainFeeObs ob)).
        nonneg (cup_ExecutionFeePriceUSD (cfu_ChainFee v)) \<and> nonneg (cup_DataAvFeePriceUSD (cfu_ChainFee v)))"

definition wire_outcome :: "commit_Outcome \<Rightarrow> bool" where
  "wire_outcome out \<longleftrightarrow>
     (\<forall>r \<in> set (mro_RootsToReport (co_MerkleRootOutcome out)). length (mrc_MerkleRoot r) = 32) \<and>
     (\<forall>(_, v) \<in> set (tko_TokenPrices (co_TokenPriceOutcome out)). nonneg v) \<and>
     (\<forall>g \<in> set (cfout_GasPrices (co_ChainFeeOutcome out)). nonneg (gp_GasPrice g)) \<and>
     mro_ReportTransmissionCheckAttempts (co_MerkleRootOutcome out) < 2 ^ 32 \<and>
     - (2 ^ 31) \<le> mo_RemainingPriceChecks (co_MainOutcome out) \<and> mo_RemainingPriceChecks (co_MainOutcome out) < 2 ^ 31"

lemma feed_roundtrip:
  "proto_spec pl \<Longrightarrow> \<forall>(_, v) \<in> set m. nonneg v \<Longrightarrow> \<exists>m'. feedTokenPricesToProto pl m = Ok m' \<and> feedTokenPricesFromProto m' = m"
  unfolding feedTokenPricesToProto_def feedTokenPricesFromProto_def
  by (rule map_values_roundtrip) (use BigInt_roundtrip in blast)

lemma native_roundtrip:
  "proto_spec pl \<Longrightarrow> \<forall>(_, v) \<in> set m. nonneg v \<Longrightarrow> \<exists>m'. nativeTokenPricesToProto pl m = Ok m' \<and> nativeTokenPricesFromProto m' = m"
  unfolding nativeTokenPricesToProto_def nativeTokenPricesFromProto_def
  by (rule map_values_roundtrip) (use BigInt_roundtrip in blast)

lemma updates_roundtrip:
  assumes "proto_spec pl" and "\<forall>(_, v) \<in> set m. nonneg (tb_Value v)"
  shows "\<exists>m'. feeQuoterTokenUpdatesToProto pl m = Ok m' \<and> feeQuoterTokenUpdatesFromProto pl m' = m"
  unfolding feeQuoterTokenUpdatesToProto_def feeQuoterTokenUpdatesFromProto_def
proof (rule map_values_roundtrip)
  fix k v assume "(k, v) \<in> set m"
  with assms(2) obtain b where "pl_BigInt_Bytes pl (tb_Value v) = Ok b" "big_SetBytes b = tb_Value v" using BigInt_roundtrip [OF assms(1)] by blast
  then show "\<exists>w. rbind (pl_BigInt_Bytes pl (tb_Value v)) (\<lambda>b. Ok \<lparr>pbt_Value = b, pbt_Timestamp = Some (pl_NewTimestamp pl (tb_Timestamp v))\<rparr>) = Ok w \<and>
      \<lparr>tb_Timestamp = pl_AsTime pl (pbt_Timestamp w), tb_Value = big_SetBytes (pbt_Value w)\<rparr> = v"
    using assms(1) by (simp add: proto_spec_def)
qed

lemma components_roundtrip:
  assumes "\<forall>(_, v) \<in> set m. nonneg (cfc_ExecutionFee v) \<and> nonneg (cfc_DataAvailabilityFee v)"
  shows "\<exists>m'. feeComponentsToProto m = Ok m' \<and> feeComponentsFromProto m' = m"
  unfolding feeComponentsToProto_def feeComponentsFromProto_def
proof (rule map_values_roundtrip)
  fix k v assume "(k, v) \<in> set m"
  with assms obtain e d where "big_Bytes (cfc_ExecutionFee v) = Ok e" "big_SetBytes e = cfc_ExecutionFee v"
    "big_Bytes (cfc_DataAvailabilityFee v) = Ok d" "big_SetBytes d = cfc_DataAvailabilityFee v" using big_roundtrip by blast
  then show "\<exists>w. rbind (big_Bytes (cfc_ExecutionFee v)) (\<lambda>e. rbind (big_Bytes (cfc_DataAvailabilityFee v)) (\<lambda>d.
       Ok \<lparr>pbc_ExecutionFee = e, pbc_DataAvailabilityFee = d\<rparr>)) = Ok w \<and>
      \<lparr>cfc_ExecutionFee = big_SetBytes (pbc_ExecutionFee w), cfc_DataAvailabilityFee = big_SetBytes (pbc_DataAvailabilityFee w)\<rparr> = v"
    by simp
qed

lemma fee_updates_roundtrip:
  assumes "\<And>t. pl_AsTime pl (Some (pl_NewTimestamp pl t)) = t"
    and "\<forall>(_, v) \<in> set m. nonneg (cup_ExecutionFeePriceUSD (cfu_ChainFee v)) \<and> nonneg (cup_DataAvFeePriceUSD (cfu_ChainFee v))"
  shows "\<exists>m'. chainFeeUpdatesToProto pl m = Ok m' \<and> chainFeeUpdatesFromProto pl m' = Ok m"
  using assms(2)
proof (induction m)
  case (Cons p m)
  obtain k v where p: "p = (k, v)" by (cases p)
  from Cons.prems have "nonneg (cup_ExecutionFeePriceUSD (cfu_ChainFee v))" "nonneg (cup_DataAvFeePriceUSD (cfu_ChainFee v))"
    by (auto simp: p)
  then obtain e d where "big_Bytes (cup_ExecutionFeePriceUSD (cfu_ChainFee v)) = Ok e" "big_SetBytes e = cup_ExecutionFeePriceUSD (cfu_ChainFee v)"
    "big_Bytes (cup_DataAvFeePriceUSD (cfu_ChainFee v)) = Ok d" "big_SetBytes d = cup_DataAvFeePriceUSD (cfu_ChainFee v)"
    using big_roundtrip by blast
  with Cons p show ?case
    by (auto simp: chainFeeUpdatesToProto_def chainFeeUpdatesFromProto_def map_values_r_def assms(1))
qed (simp add: chainFeeUpdatesToProto_def chainFeeUpdatesFromProto_def map_values_r_def)

lemma gas_roundtrip:
  assumes "proto_spec pl" and "\<forall>g \<in> set gs. nonneg (gp_GasPrice g)"
  shows "\<exists>m'. gasPriceChainToProto pl gs = Ok m' \<and> gasPriceChainFromProto m' = gs"
  unfolding gasPriceChainToProto_def gasPriceChainFromProto_def
proof (rule traverse_roundtrip)
  fix g assume "g \<in> set gs"
  with assms(2) obtain b where "pl_BigInt_Bytes pl (gp_GasPrice g) = Ok b" "big_SetBytes b = gp_GasPrice g" using BigInt_roundtrip [OF assms(1)] by blast
  then show "\<exists>y. rbind (pl_BigInt_Bytes pl (gp_GasPrice g)) (\<lambda>b. Ok \<lparr>pbg_ChainSel = gp_ChainSel g, pbg_GasPrice = b\<rparr>) = Ok y \<and>
      \<lparr>gp_ChainSel = pbg_ChainSel y, gp_GasPrice = big_SetBytes (pbg_GasPrice y)\<rparr> = g"
    by simp
qed

lemma obs_proto_roundtrip:
  assumes "proto_spec pl" and "wire_obs ob"
  shows "\<exists>m. obs_to_proto pl ob = Ok m \<and> pbo_MerkleRootObs m \<noteq> None \<and> obs_from_proto pl m = Ok ob"
proof -
  have time: "pl_AsTime pl (Some (pl_NewTimestamp pl t)) = t" for t using assms(1) by (simp add: proto_spec_def)
  have w: "\<forall>(_, v) \<in> set (tkb_FeedTokenPrices (cob_TokenPriceObs ob)). nonneg v"
    "\<forall>(_, v) \<in> set (tkb_FeeQuoterTokenUpdates (cob_TokenPriceObs ob)). nonneg (tb_Value v)"
    "\<forall>(_, v) \<in> set (cfo_FeeComponents (cob_ChainFeeObs ob)). nonneg (cfc_ExecutionFee v) \<and> nonneg (cfc_DataAvailabilityFee v)"
    "\<forall>(_, v) \<in> set (cfo_NativeTokenPrices (cob_ChainFeeObs ob)). nonneg v"
    "\<forall>(_, v) \<in> set (cfo_ChainFeeUpdates (cob_ChainFeeObs ob)).
        nonneg (cup_ExecutionFeePriceUSD (cfu_ChainFee v)) \<and> nonneg (cup_DataAvFeePriceUSD (cfu_ChainFee v))"
    "\<forall>r \<in> set (mob_MerkleRoots (cob_MerkleRootObs ob)). length (mrc_MerkleRoot r) = 32"
    using assms(2) unfolding wire_obs_def by simp_all
  obtain a where a: "feedTokenPricesToProto pl (tkb_FeedTokenPrices (cob_TokenPriceObs ob)) = Ok a"
    "feedTokenPricesFromProto a = tkb_FeedTokenPrices (cob_TokenPriceObs ob)"
    using feed_roundtrip [OF assms(1) w(1)] by blast
  obtain b where b: "feeQuoterTokenUpdatesToProto pl (tkb_FeeQuoterTokenUpdates (cob_TokenPriceObs ob)) = Ok b"
    "feeQuoterTokenUpdatesFromProto pl b = tkb_FeeQuoterTokenUpdates (cob_TokenPriceObs ob)"
    using updates_roundtrip [OF assms(1) w(2)] by blast
  obtain c where c: "feeComponentsToProto (cfo_FeeComponents (cob_ChainFeeObs ob)) = Ok c"
    "feeComponentsFromProto c = cfo_FeeComponents (cob_ChainFeeObs ob)"
    using components_roundtrip [OF w(3)] by blast
  obtain d where d: "nativeTokenPricesToProto pl (cfo_NativeTokenPrices (cob_ChainFeeObs ob)) = Ok d"
    "nativeTokenPricesFromProto d = cfo_NativeTokenPrices (cob_ChainFeeObs ob)"
    using native_roundtrip [OF assms(1) w(4)] by blast
  obtain e where e: "chainFeeUpdatesToProto pl (cfo_ChainFeeUpdates (cob_ChainFeeObs ob)) = Ok e"
    "chainFeeUpdatesFromProto pl e = Ok (cfo_ChainFeeUpdates (cob_ChainFeeObs ob))"
    using fee_updates_roundtrip [OF time w(5)] by blast
  have r: "merkleRootsFromProto (merkleRootsToProto (mob_MerkleRoots (cob_MerkleRootObs ob))) = Ok (mob_MerkleRoots (cob_MerkleRootObs ob))"
    by (rule roots_roundtrip [OF w(6)])
  have f: "fChainFromProto (fChainToProto (mob_FChain (cob_MerkleRootObs ob))) = mob_FChain (cob_MerkleRootObs ob)"
    "fChainFromProto (fChainToProto (tkb_FChain (cob_TokenPriceObs ob))) = tkb_FChain (cob_TokenPriceObs ob)"
    "fChainFromProto (fChainToProto (cfo_FChain (cob_ChainFeeObs ob))) = cfo_FChain (cob_ChainFeeObs ob)"
    "fChainFromProto (fChainToProto (dt_FChain (cob_DiscoveryObs ob))) = dt_FChain (cob_DiscoveryObs ob)"
    "fChainFromProto (fChainToProto (cob_FChain ob)) = cob_FChain ob"
    using assms(2) by (simp_all add: fChain_roundtrip wire_obs_def obs_fchains_ok_def)
  show ?thesis
    unfolding obs_to_proto_def Let_def a(1) b(1) c(1) d(1) e(1) rbind.simps
    by (intro exI conjI, rule refl, simp)
      (simp add: obs_from_proto_def opt_get_def a(2) b(2) c(2) d(2) e(2) r f time)
qed

lemma outcome_proto_roundtrip:
  assumes "proto_spec pl" and "wire_outcome out"
  shows "\<exists>m. outcome_to_proto pl out = Ok m \<and> pbu_MerkleRootOutcome m \<noteq> None \<and> outcome_from_proto m = Ok out"
proof -
  obtain a where a: "feedTokenPricesToProto pl (tko_TokenPrices (co_TokenPriceOutcome out)) = Ok a"
    "feedTokenPricesFromProto a = tko_TokenPrices (co_TokenPriceOutcome out)"
    using feed_roundtrip [OF assms(1)] assms(2) unfolding wire_outcome_def by blast
  obtain g where g: "gasPriceChainToProto pl (cfout_GasPrices (co_ChainFeeOutcome out)) = Ok g"
    "gasPriceChainFromProto g = cfout_GasPrices (co_ChainFeeOutcome out)"
    using gas_roundtrip [OF assms(1)] assms(2) unfolding wire_outcome_def by blast
  have r: "merkleRootsFromProto (merkleRootsToProto (mro_RootsToReport (co_MerkleRootOutcome out))) = Ok (mro_RootsToReport (co_MerkleRootOutcome out))"
    using roots_roundtrip assms(2) unfolding wire_outcome_def by blast
  have "unat (mro_ReportTransmissionCheckAttempts (co_MerkleRootOutcome out)) < 2 ^ 32"
    using assms(2) by (simp add: wire_outcome_def word_less_nat_alt)
  then have u: "u32 (mro_ReportTransmissionCheckAttempts (co_MerkleRootOutcome out)) = mro_ReportTransmissionCheckAttempts (co_MerkleRootOutcome out)"
    by (simp add: u32_def word_unat_eq_iff unsigned_take_bit_eq take_bit_nat_eq_self)
  show ?thesis
    using assms(2)
    by (simp add: outcome_to_proto_def outcome_from_proto_def Let_def a g r u opt_get_def s32_id wire_outcome_def)
qed

text \<open>C23. What the commit codec encodes decodes to itself: an observation or outcome that fits the wire format is
  translated without a panic, and if it can be marshalled, decoding the bytes gives it back.\<close>

theorem commit_codec_roundtrip:
  assumes "proto_spec pl" and "wire_obs ob" and "wire_outcome out"
  shows "(\<exists>m. EncodeObservation pl ob = pl_MarshalObs pl m \<and> (\<forall>w. pl_MarshalObs pl m = Ok w \<longrightarrow> DecodeObservation pl w = Ok ob)) \<and>
    (\<exists>m. EncodeOutcome pl out = pl_MarshalOutcome pl m \<and> (\<forall>w. pl_MarshalOutcome pl m = Ok w \<longrightarrow> DecodeOutcome pl w = Ok out))"
proof -
  obtain m where "obs_to_proto pl ob = Ok m" "pbo_MerkleRootObs m \<noteq> None" "obs_from_proto pl m = Ok ob"
    using obs_proto_roundtrip [OF assms(1,2)] by blast
  moreover obtain n where "outcome_to_proto pl out = Ok n" "pbu_MerkleRootOutcome n \<noteq> None" "outcome_from_proto n = Ok out"
    using outcome_proto_roundtrip [OF assms(1,3)] by blast
  ultimately show ?thesis
    using assms(1) unfolding EncodeObservation_def EncodeOutcome_def DecodeObservation_def DecodeOutcome_def proto_spec_def
    by (intro conjI exI [of _ m] exI [of _ n]) auto
qed

section \<open>Malformed messages\<close>

lemma traverse_r_Panic_iff:
  "traverse_r f xs = Panic \<longleftrightarrow> (\<exists>as x bs. xs = as @ x # bs \<and> (\<forall>a \<in> set as. ret_ok (f a)) \<and> f x = Panic)"
proof (induction xs)
  case (Cons x xs)
  show ?case
  proof (cases "f x")
    case (Ok y)
    have "(\<exists>as z bs. x # xs = as @ z # bs \<and> (\<forall>a \<in> set as. ret_ok (f a)) \<and> f z = Panic) \<longleftrightarrow>
      (\<exists>as z bs. xs = as @ z # bs \<and> (\<forall>a \<in> set as. ret_ok (f a)) \<and> f z = Panic)" (is "?l \<longleftrightarrow> ?r")
    proof
      assume ?l
      then obtain as z bs where *: "x # xs = as @ z # bs" "\<forall>a \<in> set as. ret_ok (f a)" "f z = Panic" by blast
      with Ok show ?r by (cases as) auto
    next
      assume ?r
      then obtain as z bs where *: "xs = as @ z # bs" "\<forall>a \<in> set as. ret_ok (f a)" "f z = Panic" by blast
      with Ok show ?l by (intro exI [of _ "x # as"]) auto
    qed
    with Cons.IH Ok show ?thesis by (simp add: rbind_Panic_iff)
  next
    case (Error e)
    then have "\<not> ret_ok (f x)" by simp
    with Error show ?thesis by (auto simp: Cons_eq_append_conv)
  next
    case Panic
    then show ?thesis by (auto intro: exI [of _ "[]"])
  qed
qed simp

lemma merkleRootFromProto_cases:
  "ret_ok (merkleRootFromProto r) \<longleftrightarrow> length (pbm_MerkleRoot r) = 32 \<and> pbm_SeqNumsRange r \<noteq> None"
  "merkleRootFromProto r = Panic \<longleftrightarrow> length (pbm_MerkleRoot r) = 32 \<and> pbm_SeqNumsRange r = None"
  by (auto simp: merkleRootFromProto_def split: option.splits)

lemma chainFeeUpdates_cases:
  "chainFeeUpdatesFromProto pl m = Panic \<longleftrightarrow> (\<exists>(k, v) \<in> set m. pbf_ChainFee v = None)"
  "chainFeeUpdatesFromProto pl m \<noteq> Error e"
  by (induction m) (auto simp: chainFeeUpdatesFromProto_def map_values_r_def rbind_Panic_iff rbind_Error_iff split: option.splits)

lemma merkleRootsFromProto_Ok_iff:
  "ret_ok (merkleRootsFromProto rs) \<longleftrightarrow> (\<forall>r \<in> set rs. length (pbm_MerkleRoot r) = 32 \<and> pbm_SeqNumsRange r \<noteq> None)"
  unfolding merkleRootsFromProto_def
  by (induction rs) (auto simp: ret_ok_iff rbind_Ok_iff merkleRootFromProto_def split: if_splits option.splits)

lemma merkleRootsFromProto_Panic_iff:
  "merkleRootsFromProto rs = Panic \<longleftrightarrow> (\<exists>as r bs. rs = as @ r # bs \<and>
     (\<forall>a \<in> set as. length (pbm_MerkleRoot a) = 32 \<and> pbm_SeqNumsRange a \<noteq> None) \<and>
     length (pbm_MerkleRoot r) = 32 \<and> pbm_SeqNumsRange r = None)"
  unfolding merkleRootsFromProto_def traverse_r_Panic_iff merkleRootFromProto_cases ..

text \<open>C22. Decoding an observation panics exactly when its message defeats one of the two reads without a nil check:
  a root of 32 bytes without a range behind roots that are well formed, or, when all roots are well formed, a
  fee update without prices. Any oracle can send such a message.\<close>

theorem decode_observation_panics_iff:
  assumes "data \<noteq> []" and "pl_UnmarshalObs pl data = Ok m"
  shows "DecodeObservation pl data = Panic \<longleftrightarrow>
    (\<exists>as r bs. opt_get [] pbmo_MerkleRoots (pbo_MerkleRootObs m) = as @ r # bs \<and>
       (\<forall>a \<in> set as. length (pbm_MerkleRoot a) = 32 \<and> pbm_SeqNumsRange a \<noteq> None) \<and>
       length (pbm_MerkleRoot r) = 32 \<and> pbm_SeqNumsRange r = None) \<or>
    (\<forall>r \<in> set (opt_get [] pbmo_MerkleRoots (pbo_MerkleRootObs m)). length (pbm_MerkleRoot r) = 32 \<and> pbm_SeqNumsRange r \<noteq> None) \<and>
    (\<exists>(k, v) \<in> set (opt_get [] pbco_ChainFeeUpdates (pbo_ChainFeeObs m)). pbf_ChainFee v = None)"
proof -
  let ?rs = "opt_get [] pbmo_MerkleRoots (pbo_MerkleRootObs m)"
  have "DecodeObservation pl data = Panic \<longleftrightarrow> merkleRootsFromProto ?rs = Panic \<or>
      ret_ok (merkleRootsFromProto ?rs) \<and> chainFeeUpdatesFromProto pl (opt_get [] pbco_ChainFeeUpdates (pbo_ChainFeeObs m)) = Panic"
    using assms by (auto simp: DecodeObservation_def obs_from_proto_def Let_def rbind_Panic_iff ret_ok_iff)
  then show ?thesis
    by (simp only: merkleRootsFromProto_Ok_iff chainFeeUpdates_cases(1) merkleRootsFromProto_Panic_iff)
qed

section \<open>An instance of the runtime\<close>

definition sample_proto :: "(pb_CommitObservation + pb_CommitOutcome) proto_lib" where
  "sample_proto = \<lparr>pl_MarshalObs = (\<lambda>m. Ok [Inl m]),
     pl_UnmarshalObs = (\<lambda>w. case w of [Inl m] \<Rightarrow> Ok m | _ \<Rightarrow> Error (Err ''malformed'')),
     pl_MarshalOutcome = (\<lambda>m. Ok [Inr m]),
     pl_UnmarshalOutcome = (\<lambda>w. case w of [Inr m] \<Rightarrow> Ok m | _ \<Rightarrow> Error (Err ''malformed'')),
     pl_MarshalQuery = Ok [], pl_UnmarshalQuery = (\<lambda>_. Ok ()), pl_NewTimestamp = (\<lambda>t. (t, 0)),
     pl_AsTime = (\<lambda>t. case t of None \<Rightarrow> 0 | Some (s, _) \<Rightarrow> s), pl_BigInt_Bytes = big_Bytes\<rparr>"

lemma sample_proto_spec: "proto_spec sample_proto"
  by (simp add: proto_spec_def sample_proto_def)

theorem commit_codec_roundtrip_witness:
  "\<exists>w w'. EncodeObservation sample_proto sample_commit_ob = Ok w \<and> DecodeObservation sample_proto w = Ok sample_commit_ob \<and>
     EncodeOutcome sample_proto (sample_in_flight 3) = Ok w' \<and> DecodeOutcome sample_proto w' = Ok (sample_in_flight 3)"
proof -
  have "wire_obs sample_commit_ob"
    by (simp add: wire_obs_def obs_fchains_ok_def fchain_ok_def sample_commit_ob_def commit_Observation_zero_def
        mr_Observation_zero_def tk_Observation_zero_def cf_Observation_zero_def dt_Observation_zero_def gm_ok_def)
  moreover have "wire_outcome (sample_in_flight 3)"
    by (simp add: wire_outcome_def sample_in_flight_def mr_Outcome_zero_def)
  ultimately show ?thesis
    using commit_codec_roundtrip [OF sample_proto_spec, of sample_commit_ob "sample_in_flight 3"]
    by (auto simp: sample_proto_def)
qed

text \<open>A message whose only root has 32 bytes and no range.\<close>

definition sample_bad_message :: pb_CommitObservation where
  "sample_bad_message = \<lparr>pbo_MerkleRootObs = Some \<lparr>pbmo_MerkleRoots = [\<lparr>pbm_ChainSel = 7, pbm_OnRampAddress = [1],
       pbm_SeqNumsRange = None, pbm_MerkleRoot = replicate 32 1\<rparr>], pbmo_OnRampMaxSeqNums = [], pbmo_OffRampNextSeqNums = [],
       pbmo_FChain = []\<rparr>, pbo_TokenPriceObs = None, pbo_ChainFeeObs = None, pbo_DiscoveryObs = None, pbo_FChain = [],
     pbo_OnchainPriceOcrSeqNum = 0\<rparr>"

theorem decode_observation_panics_iff_witness:
  "DecodeObservation sample_proto [Inl sample_bad_message] = Panic"
proof -
  have "pl_UnmarshalObs sample_proto [Inl sample_bad_message] = Ok sample_bad_message" by (simp add: sample_proto_def)
  from decode_observation_panics_iff [OF _ this] show ?thesis
    by (simp add: sample_bad_message_def opt_get_def Cons_eq_append_conv)
qed

end
