(* ===== verification/ExecTypes.thy ===== *)
theory ExecTypes
  imports Discovery "HOL-Library.Product_Lexorder"
begin

text \<open>
  The data of the execute plugin (execute/exectypes): token data, commit data, observations and outcomes, with the
  operations on them; the functions it imports, as the fields of \<open>exec_lib\<close>; and the loop
  \<open>for n := s; n <= e; n++\<close> over sequence numbers, which several parts of the plugin share.

  A nil and an empty slice are both the empty list.
\<close>

section \<open>The imported functions\<close>

text \<open>A tree of the package merklemulti: its root, and the proof of the leaves at the given indices
  (\<open>proof.Hashes\<close> and \<open>proof.SourceFlags\<close>).\<close>

record merkle_tree =
  mt_Root :: Bytes32
  mt_Prove :: "int list \<Rightarrow> (Bytes32 list \<times> bool list) result"

text \<open>The functions of chainlink-common and of golang.org/x/crypto that the execute plugin calls. The last three are
  \<open>sha3.Sum256\<close> of the printed number, of the printed message, and of the two printed fields of a token.\<close>

record exec_lib =
  xl_IsPseudoDeleted :: "Message \<Rightarrow> bool"
  xl_Overlaps :: "SeqNumRange \<Rightarrow> SeqNumRange \<Rightarrow> bool"
  xl_Contains :: "SeqNumRange \<Rightarrow> SeqNum \<Rightarrow> bool"
  xl_FilterSlice :: "SeqNumRange \<Rightarrow> SeqNum list \<Rightarrow> SeqNum list"
  xl_Length :: "SeqNumRange \<Rightarrow> int"
  xl_ToSlice :: "SeqNumRange \<Rightarrow> SeqNum list"
  xl_Bytes32_IsEmpty :: "Bytes32 \<Rightarrow> bool"
  xl_Bytes32_String :: "Bytes32 \<Rightarrow> string"
  xl_ChainSelector_String :: "ChainSelector \<Rightarrow> string"
  xl_NewTree :: "Bytes32 list \<Rightarrow> merkle_tree result"
  xl_sum_int :: "int \<Rightarrow> Bytes32"
  xl_sum_message :: "Message \<Rightarrow> Bytes32"
  xl_sum_token :: "bool \<Rightarrow> byte list \<Rightarrow> Bytes32"

text \<open>What the theorems rely on. The methods of \<open>SeqNumRange\<close> on a range whose start is at most its end, and
  \<open>IsPseudoDeleted\<close>, which holds of a message without anything but its id and its sequence number.\<close>

definition range_wf :: "SeqNumRange \<Rightarrow> bool" where
  "range_wf r \<longleftrightarrow> sr_Start r \<le> sr_End r"

definition range_set :: "SeqNumRange \<Rightarrow> SeqNum set" where
  "range_set r = {sr_Start r .. sr_End r}"

definition range_spec :: "exec_lib \<Rightarrow> bool" where
  "range_spec xl \<longleftrightarrow>
     (\<forall>r s. range_wf r \<longrightarrow> range_wf s \<longrightarrow> xl_Overlaps xl r s \<longleftrightarrow> range_set r \<inter> range_set s \<noteq> {}) \<and>
     (\<forall>r n. xl_Contains xl r n \<longleftrightarrow> n \<in> range_set r) \<and>
     (\<forall>r ns. xl_FilterSlice xl r ns = filter (\<lambda>n. n \<in> range_set r) ns) \<and>
     (\<forall>r. range_wf r \<longrightarrow> uint (sr_End r) - uint (sr_Start r) < 2 ^ 62 \<longrightarrow>
        xl_Length xl r = uint (sr_End r) - uint (sr_Start r) + 1)"

section \<open>exectypes/token.go\<close>

record TokenData =
  td_Ready :: bool
  td_Data :: "byte list"
  td_Error :: "error option"
  td_Supported :: bool

record MessageTokenData =
  mtd_TokenData :: "TokenData list"

definition TokenData_zero :: TokenData where
  "TokenData_zero = \<lparr>td_Ready = False, td_Data = [], td_Error = None, td_Supported = False\<rparr>"

definition NewMessageTokenData :: "TokenData list \<Rightarrow> MessageTokenData" where
  "NewMessageTokenData tokenData = \<lparr>mtd_TokenData = tokenData\<rparr>"

definition MessageTokenData_Append :: "MessageTokenData \<Rightarrow> int \<Rightarrow> TokenData \<Rightarrow> MessageTokenData result" where
  "MessageTokenData_Append mtd index td =
     (let out = (if int (length (mtd_TokenData mtd)) \<le> index
                 then mtd_TokenData mtd @ replicate (nat (s64 (index + 1)) - length (mtd_TokenData mtd)) TokenData_zero
                 else mtd_TokenData mtd)
      in if 0 \<le> index \<and> index < int (length out) then Ok \<lparr>mtd_TokenData = out[nat index := td]\<rparr> else Panic)"

definition MessageTokenData_IsReady :: "MessageTokenData \<Rightarrow> bool" where
  "MessageTokenData_IsReady mtd = list_all td_Ready (mtd_TokenData mtd)"

definition SupportedAreReady :: "MessageTokenData \<Rightarrow> bool" where
  "SupportedAreReady mtd = list_all (\<lambda>td. td_Supported td \<longrightarrow> td_Ready td) (mtd_TokenData mtd)"

definition MessageTokenData_Error :: "MessageTokenData \<Rightarrow> error list" where
  "MessageTokenData_Error mtd = List.map_filter td_Error (mtd_TokenData mtd)"

definition ToByteSlice :: "MessageTokenData \<Rightarrow> byte list list" where
  "ToByteSlice mtd = map td_Data (mtd_TokenData mtd)"

definition NotSupportedTokenData :: TokenData where
  "NotSupportedTokenData = \<lparr>td_Ready = False, td_Data = [], td_Error = None, td_Supported = False\<rparr>"

definition NewNoopTokenData :: TokenData where
  "NewNoopTokenData = \<lparr>td_Ready = True, td_Data = [], td_Error = None, td_Supported = True\<rparr>"

definition NewSuccessTokenData :: "byte list \<Rightarrow> TokenData" where
  "NewSuccessTokenData data = \<lparr>td_Ready = True, td_Data = data, td_Error = None, td_Supported = True\<rparr>"

definition NewErrorTokenData :: "error \<Rightarrow> TokenData" where
  "NewErrorTokenData err = \<lparr>td_Ready = False, td_Data = [], td_Error = Some err, td_Supported = True\<rparr>"

definition NotReadyToken :: TokenData where
  "NotReadyToken = TokenData_zero\<lparr>td_Ready := False\<rparr>"

definition TokenDataHash :: "exec_lib \<Rightarrow> TokenData \<Rightarrow> Bytes32" where
  "TokenDataHash xl td = xl_sum_token xl (td_Ready td) (td_Data td)"

section \<open>exectypes/commit_data.go\<close>

record CommitData =
  cd_SourceChain :: ChainSelector
  cd_OnRampAddress :: UnknownAddress
  cd_Timestamp :: time
  cd_BlockNum :: u64
  cd_MerkleRoot :: Bytes32
  cd_SequenceNumberRange :: SeqNumRange
  cd_ExecutedMessages :: "SeqNum list"
  cd_Messages :: "Message list"
  cd_Hashes :: "Bytes32 list"
  cd_MessageTokenData :: "MessageTokenData list"

definition LessThan :: "CommitData \<Rightarrow> CommitData \<Rightarrow> bool" where
  "LessThan i j =
     (if cd_Timestamp i \<noteq> cd_Timestamp j then cd_Timestamp i < cd_Timestamp j
      else if cd_SourceChain i \<noteq> cd_SourceChain j then cd_SourceChain i < cd_SourceChain j
      else sr_Start (cd_SequenceNumberRange i) < sr_Start (cd_SequenceNumberRange j))"

text \<open>\<open>sort.Slice\<close> with \<open>LessThan\<close> sorts by this key. Go's sort is not stable; the stable sort stands for it, and
  is the only one when the keys are distinct.\<close>

definition cd_key :: "CommitData \<Rightarrow> time \<times> ChainSelector \<times> SeqNum" where
  "cd_key d = (cd_Timestamp d, cd_SourceChain d, sr_Start (cd_SequenceNumberRange d))"

lemma LessThan_key: "LessThan i j \<longleftrightarrow> cd_key i < cd_key j"
  by (auto simp: LessThan_def cd_key_def less_prod_def)

section \<open>exectypes/observation.go\<close>

type_synonym CommitObservations = "(ChainSelector, CommitData list) gomap"
type_synonym MessageObservations = "(ChainSelector, (SeqNum, Message) gomap) gomap"
type_synonym MessageHashes = "(ChainSelector, (SeqNum, Bytes32) gomap) gomap"
type_synonym TokenDataObservations = "(ChainSelector, (SeqNum, MessageTokenData) gomap) gomap"
type_synonym NonceObservations = "(ChainSelector, (string, u64) gomap) gomap"

record exec_Observation =
  xob_CommitReports :: CommitObservations
  xob_Messages :: MessageObservations
  xob_Hashes :: MessageHashes
  xob_TokenData :: TokenDataObservations
  xob_Nonces :: NonceObservations
  xob_Contracts :: dt_Observation
  xob_FChain :: "(ChainSelector, int) gomap"

definition exec_Observation_zero :: exec_Observation where
  "exec_Observation_zero = \<lparr>xob_CommitReports = [], xob_Messages = [], xob_Hashes = [], xob_TokenData = [],
     xob_Nonces = [], xob_Contracts = dt_Observation_zero, xob_FChain = []\<rparr>"

text \<open>\<open>m[k1][k2]\<close> on a map of maps: a missing outer key reads the nil map.\<close>

definition gm_get2 :: "('k, ('l, 'v) gomap) gomap \<Rightarrow> 'k \<Rightarrow> 'l \<Rightarrow> 'v option" where
  "gm_get2 m k l = (case map_of m k of None \<Rightarrow> None | Some m' \<Rightarrow> map_of m' l)"

definition MessageObservations_Flatten :: "MessageObservations \<Rightarrow> Message list" where
  "MessageObservations_Flatten mo = concat (map (\<lambda>(_, msgs). map snd msgs) mo)"

definition MessageObservations_Count :: "MessageObservations \<Rightarrow> int" where
  "MessageObservations_Count mo = fold (\<lambda>(_, msgs) count. count + int (length msgs)) mo 0"

definition CommitObservations_Flatten :: "CommitObservations \<Rightarrow> CommitData list" where
  "CommitObservations_Flatten co = concat (map snd co)"

definition NewObservation ::
  "CommitObservations \<Rightarrow> MessageObservations \<Rightarrow> TokenDataObservations \<Rightarrow> NonceObservations \<Rightarrow> dt_Observation \<Rightarrow>
   MessageHashes \<Rightarrow> exec_Observation" where
  "NewObservation commitReports messages tokenData nonces contracts hashes =
     \<lparr>xob_CommitReports = commitReports, xob_Messages = messages, xob_Hashes = hashes, xob_TokenData = tokenData,
      xob_Nonces = nonces, xob_Contracts = contracts, xob_FChain = []\<rparr>"

text \<open>\<open>GetHashes\<close> and the sizes of the encoded messages (\<open>encodedSize\<close> is the length of the JSON text, 0 when it
  cannot be built).\<close>

definition GetHashes :: "(Message \<Rightarrow> Bytes32 result) \<Rightarrow> MessageObservations \<Rightarrow> MessageHashes result" where
  "GetHashes hasher mo =
     fold (\<lambda>(chain, msgs) r. rbind r (\<lambda>hashes.
             rbind (fold (\<lambda>(s, msg) r2. rbind r2 (\<lambda>hs. rbind (hasher msg) (\<lambda>h. Ok (gm_put s h hs)))) msgs (Ok []))
               (\<lambda>hs. Ok (gm_put chain hs hashes))))
       mo (Ok [])"

section \<open>exectypes/outcome.go\<close>

type_synonym PluginState = string

definition Unknown :: PluginState where "Unknown = ''''"
definition Initialized :: PluginState where "Initialized = ''Initialized''"
definition GetCommitReports :: PluginState where "GetCommitReports = ''GetCommitReports''"
definition GetMessages :: PluginState where "GetMessages = ''GetMessages''"
definition Filter :: PluginState where "Filter = ''Filter''"

definition Next :: "PluginState \<Rightarrow> PluginState result" where
  "Next p =
     (if p = GetCommitReports then Ok GetMessages
      else if p = GetMessages then Ok Filter
      else if p = Unknown \<or> p = Initialized \<or> p = Filter then Ok GetCommitReports
      else Panic)"

record ExecutePluginReportSingleChain =
  er_SourceChainSelector :: ChainSelector
  er_Messages :: "Message list"
  er_OffchainTokenData :: "byte list list list"
  er_Proofs :: "Bytes32 list"
  er_ProofFlagBits :: BigInt

record ExecutePluginReport =
  epr_ChainReports :: "ExecutePluginReportSingleChain list"

record exec_Outcome =
  xo_State :: PluginState
  xo_CommitReports :: "CommitData list"
  xo_Report :: ExecutePluginReport
  xo_Reports :: "ExecutePluginReport list"

definition exec_Outcome_zero :: exec_Outcome where
  "exec_Outcome_zero = \<lparr>xo_State = Unknown, xo_CommitReports = [], xo_Report = \<lparr>epr_ChainReports = []\<rparr>, xo_Reports = []\<rparr>"

definition exec_Outcome_IsEmpty :: "exec_Outcome \<Rightarrow> bool" where
  "exec_Outcome_IsEmpty o1 \<longleftrightarrow> xo_CommitReports o1 = [] \<and>
     (case xo_Reports o1 of [] \<Rightarrow> True | r # _ \<Rightarrow> epr_ChainReports r = [])"

definition exec_NewOutcome :: "PluginState \<Rightarrow> CommitData list \<Rightarrow> ExecutePluginReport list \<Rightarrow> exec_Outcome" where
  "exec_NewOutcome st selectedCommits reports =
     \<lparr>xo_State = st, xo_CommitReports = selectedCommits, xo_Report = \<lparr>epr_ChainReports = []\<rparr>, xo_Reports = reports\<rparr>"

definition NewOutcomeWithSortedCommitReports :: "PluginState \<Rightarrow> CommitData list \<Rightarrow> exec_Outcome" where
  "NewOutcomeWithSortedCommitReports st commitReports =
     \<lparr>xo_State = st, xo_CommitReports = sort_key cd_key commitReports,
      xo_Report = \<lparr>epr_ChainReports = []\<rparr>, xo_Reports = []\<rparr>"

lemmas state_defs = Unknown_def Initialized_def GetCommitReports_def GetMessages_def Filter_def

lemma states_distinct [simp]:
  "distinct [Unknown, Initialized, GetCommitReports, GetMessages, Filter]"
  by (simp add: state_defs)

lemma states_neq [simp]:
  "GetMessages \<noteq> GetCommitReports" "GetCommitReports \<noteq> GetMessages" "Filter \<noteq> GetCommitReports" "GetCommitReports \<noteq> Filter"
  "Filter \<noteq> GetMessages" "GetMessages \<noteq> Filter" "Unknown \<noteq> GetMessages" "Unknown \<noteq> GetCommitReports" "Unknown \<noteq> Filter"
  "Initialized \<noteq> GetMessages" "Initialized \<noteq> GetCommitReports" "Initialized \<noteq> Filter" "Initialized \<noteq> Unknown"
  by (simp_all add: state_defs)

lemma Next_simps [simp]:
  "Next GetCommitReports = Ok GetMessages" "Next GetMessages = Ok Filter" "Next Filter = Ok GetCommitReports"
  "Next Unknown = Ok GetCommitReports" "Next Initialized = Ok GetCommitReports"
  by (simp_all add: Next_def)

section \<open>The loop over a range of sequence numbers\<close>

text \<open>\<open>for n := s; n <= e; n++ { ... }\<close>: the body continues with a new state or returns. At the
  largest number \<open>n++\<close> wraps to 0, so a body that never returns runs forever when \<open>e\<close> is that number.\<close>

partial_function (option) for_seq :: "u64 \<Rightarrow> u64 \<Rightarrow> (u64 \<Rightarrow> 'a \<Rightarrow> 'r + 'a) \<Rightarrow> 'a \<Rightarrow> ('r + 'a) option" where
  [code]: "for_seq s e f a =
     (if s \<le> e then (case f s a of Inl r \<Rightarrow> Some (Inl r) | Inr a' \<Rightarrow> for_seq (s + 1) e f a') else Some (Inr a))"

fun fold_until :: "('b \<Rightarrow> 'a \<Rightarrow> 'r + 'a) \<Rightarrow> 'b list \<Rightarrow> 'a \<Rightarrow> 'r + 'a" where
  "fold_until f [] a = Inr a"
| "fold_until f (x # xs) a = (case f x a of Inl r \<Rightarrow> Inl r | Inr a' \<Rightarrow> fold_until f xs a')"

definition seq_list :: "u64 \<Rightarrow> u64 \<Rightarrow> u64 list" where
  "seq_list s e = map of_nat [unat s ..< Suc (unat e)]"

lemma set_seq_list: "set (seq_list s e) = {s .. e}"
proof -
  have "x \<in> of_nat ` {unat s ..< Suc (unat e)}" if "s \<le> x" "x \<le> e" for x :: u64
  proof
    show "x = of_nat (unat x)" by simp
    show "unat x \<in> {unat s ..< Suc (unat e)}" using that by (simp add: word_le_nat_alt)
  qed
  moreover have "s \<le> of_nat n" "of_nat n \<le> e" if "unat s \<le> n" "n \<le> unat e" for n
  proof -
    have "n < 2 ^ 64" using that(2) unsigned_less [of e, where ?'a = nat] by simp
    then have "unat (of_nat n :: u64) = n" by (simp add: unat_of_nat take_bit_nat_eq_self)
    with that show "s \<le> of_nat n" "of_nat n \<le> e" by (simp_all add: word_le_nat_alt)
  qed
  moreover have "set (seq_list s e) = of_nat ` {unat s ..< Suc (unat e)}"
    unfolding seq_list_def set_map by (simp only: set_upt)
  ultimately show ?thesis by (auto simp: less_Suc_eq_le simp del: set_upt)
qed

lemma seq_list_Cons:
  assumes "s \<le> e" and "e \<noteq> - 1"
  shows "seq_list s e = s # seq_list (s + 1) e"
proof -
  have "s \<noteq> - 1" using assms by (metis word_order.extremum_unique)
  then have "1 + s \<noteq> 0" by (metis add.commute add_eq_0_iff)
  then have "unat (s + 1) = Suc (unat s)" by (simp add: unatSuc add.commute)
  with assms show ?thesis 
    unfolding seq_list_def by (subst upt_conv_Cons) (simp_all add: word_le_nat_alt less_Suc_eq_le del: upt_Suc)
qed

lemma seq_list_Nil: "\<not> s \<le> e \<Longrightarrow> seq_list s e = []"
  by (simp add: seq_list_def word_le_nat_alt)

lemma distinct_seq_list: "distinct (seq_list s e)"
proof -
  have "inj_on (of_nat :: nat \<Rightarrow> u64) (set [unat s ..< Suc (unat e)])"
  proof (rule inj_onI)
    fix m n assume "m \<in> set [unat s ..< Suc (unat e)]" "n \<in> set [unat s ..< Suc (unat e)]"
      and eq: "(of_nat m :: u64) = of_nat n"
    then have "m \<le> unat e" "n \<le> unat e" by auto
    moreover have "unat e < 2 ^ 64" using unsigned_less [of e, where ?'a = nat] by simp
    ultimately have "m < 2 ^ 64" "n < 2 ^ 64" by (meson le_less_trans)+
    then have "unat (of_nat m :: u64) = m" "unat (of_nat n :: u64) = n"
      by (simp_all add: unat_of_nat take_bit_nat_eq_self)
    with eq show "m = n" by metis
  qed
  then show ?thesis by (simp add: seq_list_def distinct_map del: upt_Suc set_upt)
qed

lemma length_seq_list: "s \<le> e \<Longrightarrow> int (length (seq_list s e)) = uint e - uint s + 1"
proof -
  assume "s \<le> e"
  then have "unat s \<le> unat e" by (simp add: word_le_nat_alt)
  moreover have "length (seq_list s e) = Suc (unat e) - unat s" unfolding seq_list_def by (simp only: length_map length_upt)
  moreover have "uint e = int (unat e)" "uint s = int (unat s)" by simp_all
  ultimately show ?thesis by linarith
qed

text \<open>The loop visits the numbers of the range in order and ends, unless the range ends at the largest number.\<close>

lemma for_seq_fold:
  assumes "e \<noteq> - 1"
  shows "for_seq s e f a = Some (fold_until f (seq_list s e) a)"
proof (induction "seq_list s e" arbitrary: s a)
  case Nil
  then have "\<not> s \<le> e" using seq_list_Cons [of s e] assms by (cases "s \<le> e") auto
  with Nil show ?case by (subst for_seq.simps) (simp add: seq_list_Nil)
next
  case (Cons n ns)
  then have le: "s \<le> e" using seq_list_Nil [of s e] by (cases "s \<le> e") auto
  with seq_list_Cons [OF le assms] Cons.hyps(2) have "ns = seq_list (s + 1) e" "seq_list s e = s # ns" by simp_all
  with Cons.hyps(1) le show ?case by (subst for_seq.simps) (simp split: sum.splits)
qed

lemma for_seq_never:
  assumes "\<And>n a. \<exists>a'. f n a = Inr a'"
  shows "for_seq s (- 1) f a = None"
proof -
  have "for_seq s e f' a = Some y \<Longrightarrow> \<not> (e = - 1 \<and> f' = f)" for s e f' a y
  proof (rule for_seq.raw_induct [where P = "\<lambda>s e f' a y. \<not> (e = - 1 \<and> f' = f)"], goal_cases)
    case (1 go s e f' a y)
    obtain a' where "f s a = Inr a'" using assms by blast
    with 1(3) have "e = - 1 \<and> f' = f \<Longrightarrow> go (s + 1) e f' a' = Some y" by (auto simp: word_order.extremum)
    with 1(2) [of "s + 1" e f' a' y] show ?case by blast
  qed
  then show ?thesis by (cases "for_seq s (- 1) f a") blast+
qed

text \<open>Whenever the loop ends, it has visited some numbers from the start on.\<close>

lemma for_seq_Some:
  "for_seq s e f a = Some r \<Longrightarrow> \<exists>ns. r = fold_until f ns a"
proof (rule for_seq.raw_induct [where P = "\<lambda>s e f a r. \<exists>ns. r = fold_until f ns a"], goal_cases)
  case (1 go s e f a r)
  show ?case
  proof (cases "s \<le> e")
    case True
    show ?thesis
    proof (cases "f s a")
      case (Inl x)
      with 1(3) True have "r = Inl x" by simp
      with Inl have "r = fold_until f [s] a" by simp
      then show ?thesis ..
    next
      case (Inr a')
      with 1(3) True have "go (s + 1) e f a' = Some r" by simp
      from 1(2) [OF this] obtain ns where "r = fold_until f ns a'" ..
      with Inr have "r = fold_until f (s # ns) a" by simp
      then show ?thesis ..
    qed
  next
    case False
    with 1(3) have "r = fold_until f [] a" by simp
    then show ?thesis ..
  qed
qed

section \<open>An instance of the imported functions\<close>

definition sample_xl :: exec_lib where
  "sample_xl = \<lparr>
     xl_IsPseudoDeleted = (\<lambda>m. mh_DestChainSelector (msg_Header m) = 0),
     xl_Overlaps = (\<lambda>r s. sr_Start r \<le> sr_End s \<and> sr_Start s \<le> sr_End r),
     xl_Contains = (\<lambda>r n. sr_Start r \<le> n \<and> n \<le> sr_End r),
     xl_FilterSlice = (\<lambda>r ns. filter (\<lambda>n. sr_Start r \<le> n \<and> n \<le> sr_End r) ns),
     xl_Length = (\<lambda>r. s64 (uint (sr_End r - sr_Start r + 1))),
     xl_ToSlice = (\<lambda>r. seq_list (sr_Start r) (sr_End r)),
     xl_Bytes32_IsEmpty = (\<lambda>a. list_all (\<lambda>b. b = 0) a),
     xl_Bytes32_String = map (\<lambda>b. char_of (unat b)),
     xl_ChainSelector_String = (\<lambda>c. replicate (unat c) CHR ''1''),
     xl_NewTree = (\<lambda>hs. case hs of [] \<Rightarrow> Error (Err ''no leaves'')
        | h # _ \<Rightarrow> Ok \<lparr>mt_Root = h, mt_Prove = (\<lambda>_. Ok ([], []))\<rparr>),
     xl_sum_int = (\<lambda>i. [word_of_int i]),
     xl_sum_message = (\<lambda>m. mh_MessageID (msg_Header m)),
     xl_sum_token = (\<lambda>r d. (if r then 1 else 0) # d)\<rparr>"

lemma range_inter:
  assumes "range_wf r" "range_wf s"
  shows "range_set r \<inter> range_set s \<noteq> {} \<longleftrightarrow> sr_Start r \<le> sr_End s \<and> sr_Start s \<le> sr_End r"
proof
  assume "sr_Start r \<le> sr_End s \<and> sr_Start s \<le> sr_End r"
  with assms have "max (sr_Start r) (sr_Start s) \<in> range_set r \<inter> range_set s"
    by (auto simp: range_set_def range_wf_def max_def)
  then show "range_set r \<inter> range_set s \<noteq> {}" by blast
qed (auto simp: range_set_def)

lemma uint_range_length:
  assumes "s \<le> e" and "uint e - uint s < 2 ^ 62"
  shows "uint (e - s + 1 :: u64) = uint e - uint s + 1"
proof -
  have "uint (e - s) = uint e - uint s" using assms(1) uint_sub_lem [of s e] by (simp add: word_le_def)
  with assms(2) have "uint (e - s) + 1 < 2 ^ 64" by simp
  then have "uint (e - s + 1) = uint (e - s) + 1" using uint_add_lem [of "e - s" 1] by simp
  then show ?thesis using \<open>uint (e - s) = uint e - uint s\<close> by simp
qed

lemma sample_xl_range: "range_spec sample_xl"
proof -
  have "s64 (uint (e - s + 1)) = uint e - uint s + 1" if "s \<le> e" "uint e - uint s < 2 ^ 62" for s e :: u64
  proof -
    have "uint s \<le> uint e" using that(1) by (simp add: word_le_def)
    with that(2) have "s64 (uint e - uint s + 1) = uint e - uint s + 1" by (intro s64_id) simp_all
    then show ?thesis using uint_range_length [OF that] by simp
  qed
  then show ?thesis
    by (auto simp: range_spec_def sample_xl_def range_inter range_wf_def) (auto simp: range_set_def)
qed

end
