(* ===== verification/ExecCache.thy ===== *)
theory ExecCache
  imports ExecTypes
begin

text \<open>
  The caches of the execute plugin (execute/internal/cache): the roots that are executed or snoozed, the messages in flight, and
  the finalized commit reports. They are built on a third party cache with expiring entries, which is the record
  \<open>go_cache\<close>; \<open>cache_spec\<close> states its documented behaviour. Locks guard single operations and are left out.
\<close>

section \<open>What the caches are built on\<close>

text \<open>\<open>fmt\<close>'s \<open>%d\<close> of a non-negative number.\<close>

fun show_dec :: "nat \<Rightarrow> string" where
  "show_dec n = (if n < 10 then [char_of (48 + n)] else show_dec (n div 10) @ [char_of (48 + n mod 10)])"

declare show_dec.simps [simp del]

record CommitPluginReportWithMeta =
  cpm_Report :: CommitPluginReport
  cpm_Timestamp :: time
  cpm_BlockNum :: u64

datatype ConfidenceLevel = Unconfirmed | Finalized

text \<open>The answers of the reader to the calls that only the execute plugin makes.\<close>

record exec_reader = ccip_reader +
  rdx_CommitReportsGTETimestamp :: "time \<Rightarrow> ConfidenceLevel \<Rightarrow> int \<Rightarrow> CommitPluginReportWithMeta list result"
  rdx_ExecutedMessages ::
    "(ChainSelector, SeqNumRange list) gomap \<Rightarrow> ConfidenceLevel \<Rightarrow> (ChainSelector, SeqNum list) gomap result"
  rdx_Nonces :: "(ChainSelector, string list) gomap \<Rightarrow> NonceObservations result"

text \<open>The package github.com/patrickmn/go-cache, on caches of type \<open>'c\<close> that hold values of type \<open>'v\<close>. An operation that reads
  the clock takes the reading as its first argument. \<open>gc_New\<close> takes the default expiration and the interval between cleanups.\<close>

record 'v cache_item =
  it_Object :: 'v
  it_Expiration :: time

record ('c, 'v) go_cache =
  gc_New :: "duration \<Rightarrow> duration \<Rightarrow> 'c"
  gc_SetDefault :: "time \<Rightarrow> string \<Rightarrow> 'v \<Rightarrow> 'c \<Rightarrow> 'c"
  gc_Get :: "time \<Rightarrow> string \<Rightarrow> 'c \<Rightarrow> 'v option"
  gc_Delete :: "string \<Rightarrow> 'c \<Rightarrow> 'c"
  gc_Items :: "time \<Rightarrow> 'c \<Rightarrow> (string, 'v cache_item) gomap"
  gc_Expired :: "time \<Rightarrow> 'v cache_item \<Rightarrow> bool"

text \<open>Its documented behaviour, through a view of a cache as its default expiration and the entries it was given: an entry is
  found until its expiration, and \<open>Items\<close> lists the entries that have not expired.\<close>

type_synonym 'v cache_view = "duration \<times> (string \<Rightarrow> 'v cache_item option)"

definition cache_spec :: "('c, 'v) go_cache \<Rightarrow> ('c \<Rightarrow> 'v cache_view) \<Rightarrow> bool" where
  "cache_spec gc view \<longleftrightarrow>
     (\<forall>d i. 0 < d \<longrightarrow> view (gc_New gc d i) = (d, \<lambda>_. None)) \<and>
     (\<forall>now k v c. view (gc_SetDefault gc now k v c) =
        (fst (view c), (snd (view c))(k \<mapsto> \<lparr>it_Object = v, it_Expiration = now + fst (view c)\<rparr>))) \<and>
     (\<forall>k c. view (gc_Delete gc k c) = (fst (view c), (snd (view c))(k := None))) \<and>
     (\<forall>now k c. gc_Get gc now k c =
        (case snd (view c) k of None \<Rightarrow> None
         | Some it \<Rightarrow> if now \<le> it_Expiration it then Some (it_Object it) else None)) \<and>
     (\<forall>now c. gm_ok (gc_Items gc now c) \<and> (\<forall>k. map_of (gc_Items gc now c) k =
        (case snd (view c) k of None \<Rightarrow> None | Some it \<Rightarrow> if now \<le> it_Expiration it then Some it else None))) \<and>
     (\<forall>now it. gc_Expired gc now it \<longleftrightarrow> it_Expiration it < now)"

text \<open>The strings of chain selectors and of 32 byte values tell them apart; the latter have one length.\<close>

definition string_spec :: "exec_lib \<Rightarrow> bool" where
  "string_spec xl \<longleftrightarrow> inj (xl_ChainSelector_String xl) \<and> (\<forall>a b. length a = 32 \<longrightarrow> length b = 32 \<longrightarrow>
     length (xl_Bytes32_String xl a) = length (xl_Bytes32_String xl b) \<and>
     (xl_Bytes32_String xl a = xl_Bytes32_String xl b \<longrightarrow> a = b))"

section \<open>commit_root_cache.go\<close>

definition EvictionGracePeriod :: duration where
  "EvictionGracePeriod = 3600 * 10 ^ 9"

definition CleanupInterval :: duration where
  "CleanupInterval = 1800 * 10 ^ 9"

record 'c commitRootsCache =
  crt_messageVisibilityInterval :: duration
  crt_rootSnoozeTime :: duration
  crt_snoozedRoots :: 'c
  crt_executedRoots :: 'c

definition NewCommitRootsCache :: "('c, unit) go_cache \<Rightarrow> duration \<Rightarrow> duration \<Rightarrow> 'c commitRootsCache" where
  "NewCommitRootsCache gc messageVisibilityInterval rootSnoozeTime =
     \<lparr>crt_messageVisibilityInterval = messageVisibilityInterval, crt_rootSnoozeTime = rootSnoozeTime,
      crt_snoozedRoots = gc_New gc rootSnoozeTime CleanupInterval,
      crt_executedRoots = gc_New gc (s64 (messageVisibilityInterval + EvictionGracePeriod)) CleanupInterval\<rparr>"

definition getKey :: "exec_lib \<Rightarrow> ChainSelector \<Rightarrow> Bytes32 \<Rightarrow> string" where
  "getKey xl source merkleRoot = xl_ChainSelector_String xl source @ ''_'' @ xl_Bytes32_String xl merkleRoot"

definition MarkAsExecuted ::
  "('c, unit) go_cache \<Rightarrow> exec_lib \<Rightarrow> time \<Rightarrow> ChainSelector \<Rightarrow> Bytes32 \<Rightarrow> 'c commitRootsCache \<Rightarrow> 'c commitRootsCache" where
  "MarkAsExecuted gc xl now sel merkleRoot r =
     r\<lparr>crt_executedRoots := gc_SetDefault gc now (getKey xl sel merkleRoot) () (crt_executedRoots r)\<rparr>"

definition Snooze ::
  "('c, unit) go_cache \<Rightarrow> exec_lib \<Rightarrow> time \<Rightarrow> ChainSelector \<Rightarrow> Bytes32 \<Rightarrow> 'c commitRootsCache \<Rightarrow> 'c commitRootsCache" where
  "Snooze gc xl now sel merkleRoot r =
     r\<lparr>crt_snoozedRoots := gc_SetDefault gc now (getKey xl sel merkleRoot) () (crt_snoozedRoots r)\<rparr>"

definition isSnoozed :: "('c, unit) go_cache \<Rightarrow> time \<Rightarrow> string \<Rightarrow> 'c commitRootsCache \<Rightarrow> bool" where
  "isSnoozed gc now key r \<longleftrightarrow> gc_Get gc now key (crt_snoozedRoots r) \<noteq> None"

definition isExecuted :: "('c, unit) go_cache \<Rightarrow> time \<Rightarrow> string \<Rightarrow> 'c commitRootsCache \<Rightarrow> bool" where
  "isExecuted gc now key r \<longleftrightarrow> gc_Get gc now key (crt_executedRoots r) \<noteq> None"

definition CanExecute ::
  "('c, unit) go_cache \<Rightarrow> exec_lib \<Rightarrow> time \<Rightarrow> 'c commitRootsCache \<Rightarrow> ChainSelector \<Rightarrow> Bytes32 \<Rightarrow> bool" where
  "CanExecute gc xl now r sel merkleRoot \<longleftrightarrow>
     \<not> isSnoozed gc now (getKey xl sel merkleRoot) r \<and> \<not> isExecuted gc now (getKey xl sel merkleRoot) r"

section \<open>inflight_message_cache.go\<close>

record 'c InflightMessageCache =
  imc_inflight :: 'c

definition NewInflightMessageCache :: "('c, unit) go_cache \<Rightarrow> duration \<Rightarrow> 'c InflightMessageCache" where
  "NewInflightMessageCache gc cacheExpiry = \<lparr>imc_inflight = gc_New gc cacheExpiry CleanupInterval\<rparr>"

definition toID :: "exec_lib \<Rightarrow> ChainSelector \<Rightarrow> Bytes32 \<Rightarrow> string" where
  "toID xl src msgID = xl_ChainSelector_String xl src @ xl_Bytes32_String xl msgID"

definition IsInflight ::
  "('c, unit) go_cache \<Rightarrow> exec_lib \<Rightarrow> time \<Rightarrow> 'c InflightMessageCache \<Rightarrow> ChainSelector \<Rightarrow> Bytes32 \<Rightarrow> bool" where
  "IsInflight gc xl now c src msgID \<longleftrightarrow> gc_Get gc now (toID xl src msgID) (imc_inflight c) \<noteq> None"

definition MarkInflight ::
  "('c, unit) go_cache \<Rightarrow> exec_lib \<Rightarrow> time \<Rightarrow> ChainSelector \<Rightarrow> Bytes32 \<Rightarrow> 'c InflightMessageCache \<Rightarrow> 'c InflightMessageCache" where
  "MarkInflight gc xl now src msgID c =
     c\<lparr>imc_inflight := gc_SetDefault gc now (toID xl src msgID) () (imc_inflight c)\<rparr>"

definition InflightMessageCache_Delete ::
  "('c, unit) go_cache \<Rightarrow> exec_lib \<Rightarrow> ChainSelector \<Rightarrow> Bytes32 \<Rightarrow> 'c InflightMessageCache \<Rightarrow> 'c InflightMessageCache" where
  "InflightMessageCache_Delete gc xl src msgID c = c\<lparr>imc_inflight := gc_Delete gc (toID xl src msgID) (imc_inflight c)\<rparr>"

section \<open>commit_report_cache.go\<close>

definition DefaultMaxCommitReportsToFetch :: int where
  "DefaultMaxCommitReportsToFetch = 1000"

definition DefaultLookbackGracePeriod :: duration where
  "DefaultLookbackGracePeriod = 1800 * 10 ^ 9"

record CommitReportCacheConfig =
  rcc_MessageVisibilityInterval :: duration
  rcc_EvictionGracePeriod :: duration
  rcc_CleanupInterval :: duration
  rcc_LookbackGracePeriod :: duration

text \<open>The items of the cache are values of any type in the code, asserted to be reports when they are read; only reports are
  ever stored, so the model's cache holds reports.\<close>

record 'd commitReportCache =
  rpc_cfg :: CommitReportCacheConfig
  rpc_reportsCache :: 'd
  rpc_latestFinalizedReportTimestamp :: time

definition NewCommitReportCache ::
  "('d, CommitPluginReportWithMeta) go_cache \<Rightarrow> CommitReportCacheConfig \<Rightarrow> 'd commitReportCache" where
  "NewCommitReportCache gc cfg =
     (let cfg' = (if rcc_LookbackGracePeriod cfg = 0 then cfg\<lparr>rcc_LookbackGracePeriod := DefaultLookbackGracePeriod\<rparr> else cfg)
      in \<lparr>rpc_cfg = cfg',
          rpc_reportsCache = gc_New gc (s64 (rcc_MessageVisibilityInterval cfg' + rcc_EvictionGracePeriod cfg'))
                               (rcc_CleanupInterval cfg'),
          rpc_latestFinalizedReportTimestamp = 0\<rparr>)"

definition generateKey :: "exec_lib \<Rightarrow> CommitPluginReportWithMeta \<Rightarrow> string result" where
  "generateKey xl report =
     (case (cpr_BlessedMerkleRoots (cpm_Report report), cpr_UnblessedMerkleRoots (cpm_Report report)) of
        (root # _, _) \<Rightarrow> Ok (show_dec (unat (mrc_ChainSel root)) @ ''_'' @ xl_Bytes32_String xl (mrc_MerkleRoot root))
      | ([], root # _) \<Rightarrow> Ok (show_dec (unat (mrc_ChainSel root)) @ ''_'' @ xl_Bytes32_String xl (mrc_MerkleRoot root))
      | ([], []) \<Rightarrow> Error (Err ''report has no Merkle roots''))"

definition no_roots :: "CommitPluginReportWithMeta \<Rightarrow> bool" where
  "no_roots report \<longleftrightarrow> cpr_BlessedMerkleRoots (cpm_Report report) = [] \<and> cpr_UnblessedMerkleRoots (cpm_Report report) = []"

definition GetReportsToQueryFromTimestamp :: "time \<Rightarrow> 'd commitReportCache \<Rightarrow> time" where
  "GetReportsToQueryFromTimestamp now c =
     (let queryFrom = now - rcc_MessageVisibilityInterval (rpc_cfg c);
          latest = rpc_latestFinalizedReportTimestamp c
      in if latest \<noteq> 0 \<and> queryFrom < latest - rcc_LookbackGracePeriod (rpc_cfg c)
         then latest - rcc_LookbackGracePeriod (rpc_cfg c) else queryFrom)"

text \<open>The loop of \<open>RefreshCache\<close> that stores the reports; \<open>clk i\<close> is the clock of the cache at its i-th insertion.\<close>

fun store_reports ::
  "('d, CommitPluginReportWithMeta) go_cache \<Rightarrow> exec_lib \<Rightarrow> (nat \<Rightarrow> time) \<Rightarrow> nat \<Rightarrow> CommitPluginReportWithMeta list \<Rightarrow> 'd \<Rightarrow> 'd" where
  "store_reports gc xl clk i [] d = d"
| "store_reports gc xl clk i (report # reports) d =
     (if no_roots report then store_reports gc xl clk i reports d
      else case generateKey xl report of
             Ok key \<Rightarrow> store_reports gc xl clk (Suc i) reports (gc_SetDefault gc (clk i) key report d)
           | _ \<Rightarrow> store_reports gc xl clk i reports d)"

definition RefreshCache ::
  "('d, CommitPluginReportWithMeta) go_cache \<Rightarrow> exec_lib \<Rightarrow> exec_reader \<Rightarrow> time \<Rightarrow> (nat \<Rightarrow> time) \<Rightarrow> 'd commitReportCache \<Rightarrow>
   'd commitReportCache \<times> unit result" where
  "RefreshCache gc xl rd now clk c =
     (case rdx_CommitReportsGTETimestamp rd (GetReportsToQueryFromTimestamp now c) Finalized DefaultMaxCommitReportsToFetch of
        Ok reports \<Rightarrow>
          let c1 = (case reports of
                      [] \<Rightarrow> c
                    | r # rs \<Rightarrow>
                        let maxTs = fold (\<lambda>r m. if m < cpm_Timestamp r then cpm_Timestamp r else m) rs (cpm_Timestamp r)
                        in if rpc_latestFinalizedReportTimestamp c < maxTs
                           then c\<lparr>rpc_latestFinalizedReportTimestamp := maxTs\<rparr> else c)
          in (c1\<lparr>rpc_reportsCache := store_reports gc xl clk 0 reports (rpc_reportsCache c1)\<rparr>, Ok ())
      | Error e \<Rightarrow> (c, Error (Wrap ''failed to get reports from reader'' e))
      | Panic \<Rightarrow> (c, Panic))"

definition GetCachedReports ::
  "('d, CommitPluginReportWithMeta) go_cache \<Rightarrow> time \<Rightarrow> time \<Rightarrow> time \<Rightarrow> 'd commitReportCache \<Rightarrow> CommitPluginReportWithMeta list" where
  "GetCachedReports gc now1 now2 fromTimestamp c =
     sort_key (\<lambda>r. (cpm_Timestamp r, cpm_BlockNum r))
       (filter (\<lambda>r. \<not> cpm_Timestamp r < fromTimestamp)
          (map (\<lambda>(_, it). it_Object it)
             (filter (\<lambda>(_, it). \<not> gc_Expired gc now2 it) (gc_Items gc now1 (rpc_reportsCache c)))))"

fun dedup_reports :: "exec_lib \<Rightarrow> string list \<Rightarrow> CommitPluginReportWithMeta list \<Rightarrow> CommitPluginReportWithMeta list" where
  "dedup_reports xl seen [] = []"
| "dedup_reports xl seen (report # reports) =
     (if no_roots report then dedup_reports xl seen reports
      else case generateKey xl report of
             Ok key \<Rightarrow> if key \<in> set seen then dedup_reports xl seen reports
                      else report # dedup_reports xl (key # seen) reports
           | _ \<Rightarrow> dedup_reports xl seen reports)"

definition DeduplicateReports :: "exec_lib \<Rightarrow> CommitPluginReportWithMeta list \<Rightarrow> CommitPluginReportWithMeta list" where
  "DeduplicateReports xl reports = dedup_reports xl [] reports"

section \<open>Keys\<close>

definition undec :: "string \<Rightarrow> nat" where
  "undec s = foldl (\<lambda>a c. a * 10 + (of_char c - 48)) 0 s"

lemma undec_show_dec: "undec (show_dec n) = n"
proof (induction n rule: show_dec.induct)
  case (1 n)
  have "of_char (char_of (48 + k) :: char) = (48 + k :: nat)" if "k < 10" for k
    using that by (simp add: of_char_of)
  with 1 show ?case
    by (cases "n < 10") (simp_all add: show_dec.simps [of n] undec_def del: of_char_of)
qed

lemma string_specD:
  assumes "string_spec xl" "length a = 32" "length b = 32"
  shows "length (xl_Bytes32_String xl a) = length (xl_Bytes32_String xl b)"
    "xl_Bytes32_String xl a = xl_Bytes32_String xl b \<Longrightarrow> a = b"
    "inj (xl_ChainSelector_String xl)"
  using assms unfolding string_spec_def by blast+

lemma getKey_inj:
  assumes "string_spec xl" "length a = 32" "length b = 32"
  shows "getKey xl c a = getKey xl d b \<longleftrightarrow> c = d \<and> a = b"
proof
  note st = string_specD [OF assms]
  assume "getKey xl c a = getKey xl d b"
  then have "xl_ChainSelector_String xl c = xl_ChainSelector_String xl d" "xl_Bytes32_String xl a = xl_Bytes32_String xl b"
    using st(1) by (simp_all add: getKey_def)
  with st(2,3) show "c = d \<and> a = b" by (simp add: inj_eq)
qed simp


lemma toID_inj:
  assumes "string_spec xl" "length a = 32" "length b = 32"
  shows "toID xl c a = toID xl d b \<longleftrightarrow> c = d \<and> a = b"
proof
  note st = string_specD [OF assms]
  assume "toID xl c a = toID xl d b"
  then have "xl_ChainSelector_String xl c = xl_ChainSelector_String xl d" "xl_Bytes32_String xl a = xl_Bytes32_String xl b"
    using st(1) by (simp_all add: toID_def)
  with st(2,3) show "c = d \<and> a = b" by (simp add: inj_eq)
qed simp


section \<open>Entries expire\<close>

lemma cache_view:
  assumes "cache_spec gc view"
  shows "0 < d \<Longrightarrow> view (gc_New gc d i) = (d, \<lambda>_. None)"
    "view (gc_SetDefault gc now k v c) =
       (fst (view c), (snd (view c))(k \<mapsto> \<lparr>it_Object = v, it_Expiration = now + fst (view c)\<rparr>))"
    "view (gc_Delete gc k c) = (fst (view c), (snd (view c))(k := None))"
    "gc_Get gc now k c = (case snd (view c) k of None \<Rightarrow> None
       | Some it \<Rightarrow> if now \<le> it_Expiration it then Some (it_Object it) else None)"
    "gm_ok (gc_Items gc now c)"
    "map_of (gc_Items gc now c) k = (case snd (view c) k of None \<Rightarrow> None
       | Some it \<Rightarrow> if now \<le> it_Expiration it then Some it else None)"
    "gc_Expired gc now it \<longleftrightarrow> it_Expiration it < now"
  using assms by (simp_all add: cache_spec_def)

text \<open>A sequence of insertions at increasing times: a key is present until \<open>d\<close> after its last insertion.\<close>

lemma cache_history:
  assumes "cache_spec gc view" "0 < d" "sorted (map fst es)"
  shows "gc_Get gc now k (fold (\<lambda>(t, k). gc_SetDefault gc t k v) es (gc_New gc d i)) \<noteq> None \<longleftrightarrow>
    (\<exists>t. (t, k) \<in> set es \<and> now \<le> t + d)"
proof -
  let ?c = "\<lambda>es. fold (\<lambda>(t, k). gc_SetDefault gc t k v) es (gc_New gc d i)"
  have "fst (view (?c es)) = d \<and> (case snd (view (?c es)) k of
      None \<Rightarrow> \<forall>t. (t, k) \<notin> set es
    | Some it \<Rightarrow> (it_Expiration it - d, k) \<in> set es \<and> (\<forall>t. (t, k) \<in> set es \<longrightarrow> t \<le> it_Expiration it - d))"
    using assms(3)
  proof (induction es rule: rev_induct)
    case Nil
    then show ?case by (simp add: cache_view(1) [OF assms(1,2)])
  next
    case (snoc e es)
    obtain t k' where e: "e = (t, k')" by (cases e)
    from snoc.prems have s: "sorted (map fst es)" "\<And>x. x \<in> set es \<Longrightarrow> fst x \<le> t" by (auto simp: e sorted_append)
    from snoc.IH [OF s(1)] have IH: "fst (view (?c es)) = d" "case snd (view (?c es)) k of
        None \<Rightarrow> \<forall>t. (t, k) \<notin> set es
      | Some it \<Rightarrow> (it_Expiration it - d, k) \<in> set es \<and> (\<forall>t. (t, k) \<in> set es \<longrightarrow> t \<le> it_Expiration it - d)"
      by auto
    have v: "view (?c (es @ [e])) = (d, (snd (view (?c es)))(k' \<mapsto> \<lparr>it_Object = v, it_Expiration = t + d\<rparr>))"
      by (simp add: e cache_view(2) [OF assms(1)] IH(1))
    show ?case
    proof (cases "k' = k")
      case True
      then show ?thesis using s(2) unfolding v by (auto simp: e)
    next
      case False
      then show ?thesis using IH(2) unfolding v by (simp add: e split: option.splits)
    qed
  qed
  then show ?thesis
    by (cases "snd (view (?c es)) k") (force simp: cache_view(4) [OF assms(1)])+
qed

section \<open>Executed and snoozed roots\<close>

datatype root_op = OpMarkAsExecuted ChainSelector Bytes32 | OpSnooze ChainSelector Bytes32

fun root_step ::
  "('c, unit) go_cache \<Rightarrow> exec_lib \<Rightarrow> time \<times> root_op \<Rightarrow> 'c commitRootsCache \<Rightarrow> 'c commitRootsCache" where
  "root_step gc xl (now, OpMarkAsExecuted sel root) r = MarkAsExecuted gc xl now sel root r"
| "root_step gc xl (now, OpSnooze sel root) r = Snooze gc xl now sel root r"

definition op_keys :: "exec_lib \<Rightarrow> (root_op \<Rightarrow> (ChainSelector \<times> Bytes32) option) \<Rightarrow> (time \<times> root_op) list \<Rightarrow> (time \<times> string) list" where
  "op_keys xl sel ops = List.map_filter (\<lambda>(t, p). map_option (\<lambda>(c, root). (t, getKey xl c root)) (sel p)) ops"

fun marked :: "root_op \<Rightarrow> (ChainSelector \<times> Bytes32) option" where
  "marked (OpMarkAsExecuted c root) = Some (c, root)"
| "marked _ = None"

fun snoozed :: "root_op \<Rightarrow> (ChainSelector \<times> Bytes32) option" where
  "snoozed (OpSnooze c root) = Some (c, root)"
| "snoozed _ = None"

fun op_root :: "root_op \<Rightarrow> Bytes32" where
  "op_root (OpMarkAsExecuted c root) = root"
| "op_root (OpSnooze c root) = root"

lemma root_steps:
  "crt_executedRoots (fold (root_step gc xl) ops r) =
     fold (\<lambda>(t, k). gc_SetDefault gc t k ()) (op_keys xl marked ops) (crt_executedRoots r)"
  "crt_snoozedRoots (fold (root_step gc xl) ops r) =
     fold (\<lambda>(t, k). gc_SetDefault gc t k ()) (op_keys xl snoozed ops) (crt_snoozedRoots r)"
proof (induction ops arbitrary: r)
  case (Cons p ops)
  obtain t q where p: "p = (t, q)" by (cases p)
  {
    case 1
    show ?case using Cons(1) by (cases q) (simp_all add: p op_keys_def map_filter_simps MarkAsExecuted_def Snooze_def)
  next
    case 2
    show ?case using Cons(2) by (cases q) (simp_all add: p op_keys_def map_filter_simps MarkAsExecuted_def Snooze_def)
  }
qed (simp_all add: op_keys_def map_filter_simps)

lemma op_keys_sorted: "sorted (map fst ops) \<Longrightarrow> sorted (map fst (op_keys xl f ops))"
proof (induction ops)
  case (Cons p ops)
  have "fst ` set (op_keys xl f ops) \<subseteq> fst ` set ops" for ops
    by (force simp: op_keys_def map_filter_def split: prod.splits)
  with Cons show ?case
    by (cases p) (fastforce simp: op_keys_def map_filter_simps split: option.splits prod.splits)
qed (simp add: op_keys_def map_filter_simps)

lemma op_keys_member:
  "(t, k) \<in> set (op_keys xl f ops) \<longleftrightarrow> (\<exists>p c root. (t, p) \<in> set ops \<and> f p = Some (c, root) \<and> k = getKey xl c root)"
  by (force simp: op_keys_def map_filter_def split: prod.splits)

text \<open>After any sequence of operations on a fresh cache of roots, at increasing times, a root can be executed exactly when
  every mark of it as executed is older than the visibility interval plus the grace period and every snooze of it is older
  than the snooze time; operations on other roots do not matter.\<close>

theorem CanExecute_iff:
  assumes "cache_spec gc view" "string_spec xl"
    and "0 < interval" "interval + EvictionGracePeriod < 2 ^ 63" "0 < snooze"
    and "sorted (map fst ops)" and "\<forall>p \<in> set ops. length (op_root (snd p)) = 32" and "length root = 32"
  shows "CanExecute gc xl now (fold (root_step gc xl) ops (NewCommitRootsCache gc interval snooze)) sel root \<longleftrightarrow>
    (\<forall>t. (t, OpMarkAsExecuted sel root) \<in> set ops \<longrightarrow> t + interval + EvictionGracePeriod < now) \<and>
    (\<forall>t. (t, OpSnooze sel root) \<in> set ops \<longrightarrow> t + snooze < now)"
proof -
  let ?r = "fold (root_step gc xl) ops (NewCommitRootsCache gc interval snooze)"
  have d: "s64 (interval + EvictionGracePeriod) = interval + EvictionGracePeriod" "0 < interval + EvictionGracePeriod"
    using assms(3,4) by (simp_all add: s64_id EvictionGracePeriod_def)
  have key: "(\<exists>p c root'. (t, p) \<in> set ops \<and> f p = Some (c, root') \<and> getKey xl sel root = getKey xl c root') \<longleftrightarrow>
      (t, F sel root) \<in> set ops"
    if "\<And>p c root'. f p = Some (c, root') \<longleftrightarrow> p = F c root'" "\<And>c root'. op_root (F c root') = root'" for f F t
  proof -
    have "getKey xl sel root = getKey xl c root' \<longleftrightarrow> sel = c \<and> root = root'" if "(t, F c root') \<in> set ops" for c root'
    proof -
      have "length root' = 32" using bspec [OF assms(7) that] \<open>\<And>c root'. op_root (F c root') = root'\<close> by simp
      then show ?thesis by (rule getKey_inj [OF assms(2,8)])
    qed
    then show ?thesis using that(1) by auto
  qed
  have m: "marked p = Some (c, root') \<longleftrightarrow> p = OpMarkAsExecuted c root'" for p c root' by (cases p) auto
  have z: "snoozed p = Some (c, root') \<longleftrightarrow> p = OpSnooze c root'" for p c root' by (cases p) auto
  have "isExecuted gc now (getKey xl sel root) ?r \<longleftrightarrow>
      (\<exists>t. (t, OpMarkAsExecuted sel root) \<in> set ops \<and> now \<le> t + (interval + EvictionGracePeriod))"
    by (simp only: isExecuted_def root_steps NewCommitRootsCache_def commitRootsCache.simps d(1) op_keys_member
        cache_history [OF assms(1) d(2) op_keys_sorted [OF assms(6)]] key [OF m op_root.simps(1)])
  moreover have "isSnoozed gc now (getKey xl sel root) ?r \<longleftrightarrow> (\<exists>t. (t, OpSnooze sel root) \<in> set ops \<and> now \<le> t + snooze)"
    by (simp only: isSnoozed_def root_steps NewCommitRootsCache_def commitRootsCache.simps op_keys_member
        cache_history [OF assms(1,5) op_keys_sorted [OF assms(6)]] key [OF z op_root.simps(2)])
  ultimately show ?thesis by (fastforce simp: CanExecute_def not_le add.assoc)
qed

text \<open>A cache that meets the specification.\<close>

definition sample_gc :: "(duration \<times> (string, 'v cache_item) gomap, 'v) go_cache" where
  "sample_gc = \<lparr>
     gc_New = (\<lambda>d _. (d, [])),
     gc_SetDefault = (\<lambda>now k v c. (fst c, gm_put k \<lparr>it_Object = v, it_Expiration = now + fst c\<rparr> (snd c))),
     gc_Get = (\<lambda>now k c. case map_of (snd c) k of None \<Rightarrow> None
        | Some it \<Rightarrow> if now \<le> it_Expiration it then Some (it_Object it) else None),
     gc_Delete = (\<lambda>k c. (fst c, gm_del k (snd c))),
     gc_Items = (\<lambda>now c. filter (\<lambda>(_, it). now \<le> it_Expiration it) (AList.clearjunk (snd c))),
     gc_Expired = (\<lambda>now it. it_Expiration it < now)\<rparr>"

lemma map_of_filter_value:
  "distinct (map fst m) \<Longrightarrow> map_of (filter (\<lambda>(_, v). P v) m) k = (case map_of m k of None \<Rightarrow> None | Some v \<Rightarrow> if P v then Some v else None)"
proof (induction m)
  case (Cons p m)
  then have "map_of m (fst p) = None" by (auto simp: map_of_eq_None_iff)
  with Cons show ?case by (auto split: prod.splits option.splits)
qed simp

lemma sample_gc_spec: "cache_spec sample_gc (\<lambda>c. (fst c, map_of (snd c)))"
proof -
  have "distinct (map fst (filter (\<lambda>(_, it). P it) (AList.clearjunk m)))" for P and m :: "(string, 'a cache_item) gomap"
    by (metis distinct_clearjunk distinct_map_filter)
  then show ?thesis
    by (simp add: cache_spec_def sample_gc_def update_conv' delete_conv' gm_ok_def map_of_filter_value distinct_clearjunk
        map_of_clearjunk)
qed

definition sample_xl32 :: exec_lib where
  "sample_xl32 = sample_xl\<lparr>xl_Bytes32_String := (\<lambda>b. if length b = 32 then map (\<lambda>x. char_of (unat x)) b else [])\<rparr>"

lemma sample_strings: "string_spec sample_xl32"
proof -
  have "inj (\<lambda>x :: byte. char_of (unat x) :: char)"
  proof (rule injI)
    fix x y :: byte assume "(char_of (unat x) :: char) = char_of (unat y)"
    then have "unat x mod 256 = unat y mod 256" by (simp only: char_of_quasi_inj)
    moreover have "unat x < 256" "unat y < 256" using unsigned_less [of x, where ?'a = nat] unsigned_less [of y, where ?'a = nat] by simp_all
    ultimately show "x = y" by (simp add: word_unat_eq_iff)
  qed
  then show ?thesis by (auto simp: string_spec_def sample_xl32_def sample_xl_def inj_def inj_map_eq_map word_unat_eq_iff)
qed

theorem CanExecute_iff_witness:
  "CanExecute sample_gc sample_xl32 100 (fold (root_step sample_gc sample_xl32)
       [(10, OpSnooze 5 (replicate 32 1)), (20, OpMarkAsExecuted 6 (replicate 32 1))]
       (NewCommitRootsCache sample_gc 1000 50)) 5 (replicate 32 1) \<and>
   \<not> CanExecute sample_gc sample_xl32 100 (fold (root_step sample_gc sample_xl32)
       [(10, OpSnooze 5 (replicate 32 1)), (20, OpMarkAsExecuted 6 (replicate 32 1))]
       (NewCommitRootsCache sample_gc 1000 50)) 6 (replicate 32 1)"
proof -
  let ?ops = "[(10 :: time, OpSnooze 5 (replicate 32 1)), (20, OpMarkAsExecuted 6 (replicate 32 1))]"
  have "CanExecute sample_gc sample_xl32 100 (fold (root_step sample_gc sample_xl32) ?ops
       (NewCommitRootsCache sample_gc 1000 50)) sel (replicate 32 1) \<longleftrightarrow>
    (\<forall>t. (t, OpMarkAsExecuted sel (replicate 32 1)) \<in> set ?ops \<longrightarrow> t + 1000 + EvictionGracePeriod < 100) \<and>
    (\<forall>t. (t, OpSnooze sel (replicate 32 1)) \<in> set ?ops \<longrightarrow> t + 50 < 100)" for sel
    by (rule CanExecute_iff [OF sample_gc_spec sample_strings]) (simp_all add: EvictionGracePeriod_def)
  then show ?thesis by (simp add: EvictionGracePeriod_def)
qed

section \<open>Finalized reports\<close>

text \<open>A sequence of refreshes, each with the clock, the times of its insertions and the reader's answers; the reports the reader
  returned are collected on the side.\<close>

type_synonym refresh = "time \<times> (nat \<Rightarrow> time) \<times> exec_reader"

definition refresh_step ::
  "('d, CommitPluginReportWithMeta) go_cache \<Rightarrow> exec_lib \<Rightarrow> refresh \<Rightarrow> 'd commitReportCache \<times> CommitPluginReportWithMeta list \<Rightarrow>
   'd commitReportCache \<times> CommitPluginReportWithMeta list" where
  "refresh_step gc xl h s =
     (let (now, clk, rd) = h; (c, fetched) = s
      in (fst (RefreshCache gc xl rd now clk c),
          fetched @ (case rdx_CommitReportsGTETimestamp rd (GetReportsToQueryFromTimestamp now c) Finalized
                       DefaultMaxCommitReportsToFetch of Ok rs \<Rightarrow> rs | _ \<Rightarrow> [])))"

definition refresh_all ::
  "('d, CommitPluginReportWithMeta) go_cache \<Rightarrow> exec_lib \<Rightarrow> CommitReportCacheConfig \<Rightarrow> refresh list \<Rightarrow>
   'd commitReportCache \<times> CommitPluginReportWithMeta list" where
  "refresh_all gc xl cfg hs = fold (refresh_step gc xl) hs (NewCommitReportCache gc cfg, [])"

lemma generateKey_Ok: "\<not> no_roots r \<Longrightarrow> \<exists>key. generateKey xl r = Ok key"
  by (auto simp: generateKey_def no_roots_def split: list.splits)

text \<open>What the cache holds: for each key either nothing was stored, or the last report stored with it, until its insertion plus
  the default expiration.\<close>

definition holds_reports ::
  "exec_lib \<Rightarrow> duration \<Rightarrow> CommitPluginReportWithMeta list \<Rightarrow> (string \<Rightarrow> CommitPluginReportWithMeta cache_item option) \<Rightarrow> bool" where
  "holds_reports xl d rs m \<longleftrightarrow>
     (\<forall>r \<in> set rs. \<forall>k. \<not> no_roots r \<longrightarrow> generateKey xl r = Ok k \<longrightarrow> m k \<noteq> None) \<and>
     (\<forall>k it. m k = Some it \<longrightarrow> it_Object it \<in> set rs \<and> \<not> no_roots (it_Object it) \<and> generateKey xl (it_Object it) = Ok k \<and>
        cpm_Timestamp (it_Object it) + d \<le> it_Expiration it)"

lemma holds_reports_skip: "no_roots r \<Longrightarrow> holds_reports xl d rs m \<Longrightarrow> holds_reports xl d (rs @ [r]) m"
  by (fastforce simp: holds_reports_def)

lemma holds_reports_put:
  assumes "holds_reports xl d rs m" "\<not> no_roots r" "generateKey xl r = Ok k" "cpm_Timestamp r \<le> t"
  shows "holds_reports xl d (rs @ [r]) (m(k \<mapsto> \<lparr>it_Object = r, it_Expiration = t + d\<rparr>))"
  using assms by (auto simp: holds_reports_def)

lemma store_reports_holds:
  assumes "cache_spec gc view" "fst (view c) = d" "holds_reports xl d fetched (snd (view c))"
    and "\<forall>r \<in> set rs. \<forall>i. cpm_Timestamp r \<le> clk i"
  shows "fst (view (store_reports gc xl clk i rs c)) = d \<and>
    holds_reports xl d (fetched @ rs) (snd (view (store_reports gc xl clk i rs c)))"
  using assms(2-)
proof (induction rs arbitrary: i c fetched)
  case (Cons r rs)
  have ts: "\<forall>r \<in> set rs. \<forall>i. cpm_Timestamp r \<le> clk i" "cpm_Timestamp r \<le> clk i" using Cons.prems(3) by auto
  show ?case
  proof (cases "no_roots r")
    case True
    with Cons.IH [OF Cons.prems(1) holds_reports_skip [OF True Cons.prems(2)] ts(1)] show ?thesis by simp
  next
    case False
    then obtain k where k: "generateKey xl r = Ok k" using generateKey_Ok by blast
    let ?c = "gc_SetDefault gc (clk i) k r c"
    have v: "fst (view ?c) = d" "snd (view ?c) = (snd (view c))(k \<mapsto> \<lparr>it_Object = r, it_Expiration = clk i + d\<rparr>)"
      using cache_view(2) [OF assms(1), of "clk i" k r c] Cons.prems(1) by simp_all
    have "holds_reports xl d (fetched @ [r]) (snd (view ?c))"
      unfolding v(2) by (rule holds_reports_put [OF Cons.prems(2) False k ts(2)])
    from Cons.IH [OF v(1) this ts(1)] show ?thesis using False k by simp
  qed
qed simp

lemma RefreshCache_cfg: "rpc_cfg (fst (RefreshCache gc xl rd now clk c)) = rpc_cfg c"
  by (auto simp: RefreshCache_def Let_def split: result.splits list.splits)

lemma RefreshCache_reports:
  "rpc_reportsCache (fst (RefreshCache gc xl rd now clk c)) =
     (case rdx_CommitReportsGTETimestamp rd (GetReportsToQueryFromTimestamp now c) Finalized DefaultMaxCommitReportsToFetch of
        Ok rs \<Rightarrow> store_reports gc xl clk 0 rs (rpc_reportsCache c) | _ \<Rightarrow> rpc_reportsCache c)"
  by (auto simp: RefreshCache_def Let_def split: result.splits list.splits)

lemma refresh_all_holds:
  assumes "cache_spec gc view" and d: "d = rcc_MessageVisibilityInterval cfg + rcc_EvictionGracePeriod cfg" "0 < d" "d < 2 ^ 63"
    and "\<forall>h \<in> set hs. \<forall>r \<in> set (snd (refresh_all gc xl cfg hs)). \<forall>i. cpm_Timestamp r \<le> fst (snd h) i"
  shows "fst (view (rpc_reportsCache (fst (refresh_all gc xl cfg hs)))) = d \<and>
    holds_reports xl d (snd (refresh_all gc xl cfg hs)) (snd (view (rpc_reportsCache (fst (refresh_all gc xl cfg hs)))))"
  using assms(5)
proof (induction hs rule: rev_induct)
  case Nil
  have "view (rpc_reportsCache (NewCommitReportCache gc cfg)) = (d, \<lambda>_. None)"
    using d cache_view(1) [OF assms(1) d(2)] by (simp add: NewCommitReportCache_def Let_def s64_id)
  then show ?case by (simp add: refresh_all_def holds_reports_def)
next
  case (snoc h hs)
  obtain now clk rd where h: "h = (now, clk, rd)" by (cases h)
  obtain c fetched where s: "refresh_all gc xl cfg hs = (c, fetched)" by (cases "refresh_all gc xl cfg hs")
  let ?ans = "rdx_CommitReportsGTETimestamp rd (GetReportsToQueryFromTimestamp now c) Finalized DefaultMaxCommitReportsToFetch"
  have s': "refresh_all gc xl cfg (hs @ [h]) =
      (fst (RefreshCache gc xl rd now clk c), fetched @ (case ?ans of Ok rs \<Rightarrow> rs | _ \<Rightarrow> []))"
    using s by (simp add: refresh_all_def refresh_step_def h)
  have "\<forall>h \<in> set hs. \<forall>r \<in> set (snd (refresh_all gc xl cfg hs)). \<forall>i. cpm_Timestamp r \<le> fst (snd h) i"
    using snoc.prems unfolding s s' by simp
  from snoc.IH [OF this] have IH: "fst (view (rpc_reportsCache c)) = d" "holds_reports xl d fetched (snd (view (rpc_reportsCache c)))"
    by (simp_all add: s)
  show ?case
  proof (cases ?ans)
    case (Ok rs)
    then have "\<forall>r \<in> set rs. \<forall>i. cpm_Timestamp r \<le> clk i" using snoc.prems unfolding s' by (simp add: h)
    from store_reports_holds [OF assms(1) IH this] Ok show ?thesis by (simp add: s' RefreshCache_reports)
  qed (use IH in \<open>simp_all add: s' RefreshCache_reports\<close>)
qed

text \<open>C35. Whatever the reader answers over any sequence of refreshes, the cache loses no report before its visibility ends: a report with
  roots that was fetched at or after its own timestamp is in the cached reports until the visibility interval plus the
  grace period have passed, provided a key determines its finalized report. The cached reports are sorted by time,
  were all fetched, have roots, and are not older than asked for.\<close>

theorem cache_keeps_visible_reports:
  assumes "cache_spec gc view"
    and "0 < rcc_MessageVisibilityInterval cfg + rcc_EvictionGracePeriod cfg"
      "rcc_MessageVisibilityInterval cfg + rcc_EvictionGracePeriod cfg < 2 ^ 63"
    and "refresh_all gc xl cfg hs = (c, fetched)"
    and "\<forall>h \<in> set hs. \<forall>r \<in> set fetched. \<forall>i. cpm_Timestamp r \<le> fst (snd h) i"
    and "\<forall>r \<in> set fetched. \<forall>s \<in> set fetched. generateKey xl r = generateKey xl s \<longrightarrow> r = s \<or> no_roots r"
    and "now1 \<le> now2"
  shows "(\<forall>r \<in> set fetched. \<not> no_roots r \<longrightarrow> from \<le> cpm_Timestamp r \<longrightarrow>
        now2 \<le> cpm_Timestamp r + rcc_MessageVisibilityInterval cfg + rcc_EvictionGracePeriod cfg \<longrightarrow>
        r \<in> set (GetCachedReports gc now1 now2 from c)) \<and>
      sorted (map cpm_Timestamp (GetCachedReports gc now1 now2 from c)) \<and>
      set (GetCachedReports gc now1 now2 from c) \<subseteq> {r \<in> set fetched. \<not> no_roots r \<and> from \<le> cpm_Timestamp r}"
proof -
  let ?d = "rcc_MessageVisibilityInterval cfg + rcc_EvictionGracePeriod cfg"
  let ?m = "snd (view (rpc_reportsCache c))"
  have H: "holds_reports xl ?d fetched ?m"
    using refresh_all_holds [OF assms(1) refl assms(2,3), of hs xl] assms(4,5) by simp
  have mem: "r \<in> set (GetCachedReports gc now1 now2 from c) \<longleftrightarrow>
      (\<exists>k it. ?m k = Some it \<and> r = it_Object it \<and> now2 \<le> it_Expiration it \<and> from \<le> cpm_Timestamp r)" for r
  proof -
    have "(k, it) \<in> set (gc_Items gc now1 (rpc_reportsCache c)) \<longleftrightarrow> ?m k = Some it \<and> now1 \<le> it_Expiration it" for k it
      using cache_view(6) [OF assms(1), of now1 "rpc_reportsCache c" k]
      by (simp add: gm_get_iff [OF cache_view(5) [OF assms(1)], symmetric] split: option.splits if_splits) auto
    then show ?thesis using assms(7) by (force simp: GetCachedReports_def cache_view(7) [OF assms(1)] not_less)
  qed
  have "r \<in> set (GetCachedReports gc now1 now2 from c)"
    if r: "r \<in> set fetched" "\<not> no_roots r" "from \<le> cpm_Timestamp r"
      "now2 \<le> cpm_Timestamp r + rcc_MessageVisibilityInterval cfg + rcc_EvictionGracePeriod cfg" for r
  proof -
    from r(2) obtain k where k: "generateKey xl r = Ok k" using generateKey_Ok by blast
    with H r(1,2) have "?m k \<noteq> None" unfolding holds_reports_def by blast
    then obtain it where it: "?m k = Some it" by blast
    with H have o: "it_Object it \<in> set fetched" "\<not> no_roots (it_Object it)" "generateKey xl (it_Object it) = Ok k"
      "cpm_Timestamp (it_Object it) + ?d \<le> it_Expiration it" by (auto simp: holds_reports_def)
    from assms(6) o(1,3) r(1,2) k have "r = it_Object it" by metis
    moreover from this o(4) r(4) have "now2 \<le> it_Expiration it" by simp
    ultimately show ?thesis using it r(3) unfolding mem by blast
  qed
  moreover have "sorted (map (\<lambda>r. (cpm_Timestamp r, cpm_BlockNum r)) (GetCachedReports gc now1 now2 from c))"
    by (simp add: GetCachedReports_def)
  then have "sorted (map cpm_Timestamp (GetCachedReports gc now1 now2 from c))"
    by (auto simp: sorted_map intro: sorted_wrt_mono_rel [rotated])
  moreover have "set (GetCachedReports gc now1 now2 from c) \<subseteq> {r \<in> set fetched. \<not> no_roots r \<and> from \<le> cpm_Timestamp r}"
    using H by (auto simp: mem holds_reports_def)
  ultimately show ?thesis by blast
qed

definition sample_report :: CommitPluginReportWithMeta where
  "sample_report = \<lparr>cpm_Report = \<lparr>cpr_BlessedMerkleRoots = [],
      cpr_UnblessedMerkleRoots = [\<lparr>mrc_ChainSel = 5, mrc_OnRampAddress = [1],
        mrc_SeqNumsRange = \<lparr>sr_Start = 1, sr_End = 2\<rparr>, mrc_MerkleRoot = [7]\<rparr>],
      cpr_PriceUpdates = \<lparr>pu_TokenPriceUpdates = [], pu_GasPriceUpdates = []\<rparr>\<rparr>,
    cpm_Timestamp = 40, cpm_BlockNum = 3\<rparr>"

definition sample_exec_reader :: exec_reader where
  "sample_exec_reader = ccip_reader.extend sample_reader0 \<lparr>
     rdx_CommitReportsGTETimestamp = (\<lambda>t _ _. if t \<le> 40 then Ok [sample_report] else Ok []),
     rdx_ExecutedMessages = (\<lambda>_ _. Ok []), rdx_Nonces = (\<lambda>_. Ok [])\<rparr>"

definition sample_cache_cfg :: CommitReportCacheConfig where
  "sample_cache_cfg = \<lparr>rcc_MessageVisibilityInterval = 100, rcc_EvictionGracePeriod = 10, rcc_CleanupInterval = 5,
     rcc_LookbackGracePeriod = 20\<rparr>"

theorem cache_keeps_visible_reports_witness:
  "sample_report \<in> set (GetCachedReports sample_gc 120 130 20
     (fst (refresh_all sample_gc sample_xl sample_cache_cfg [(60, \<lambda>_. 61, sample_exec_reader), (110, \<lambda>_. 111, sample_exec_reader)])))"
proof -
  let ?hs = "[(60, \<lambda>_. 61, sample_exec_reader), (110, \<lambda>_. 111, sample_exec_reader)] :: refresh list"
  have f: "snd (refresh_all sample_gc sample_xl sample_cache_cfg ?hs) = [sample_report, sample_report]"
    by code_simp
  obtain c where c: "refresh_all sample_gc sample_xl sample_cache_cfg ?hs = (c, [sample_report, sample_report])"
    using f by (cases "refresh_all sample_gc sample_xl sample_cache_cfg ?hs") simp
  have r: "\<not> no_roots sample_report" "cpm_Timestamp sample_report = 40" by (simp_all add: no_roots_def sample_report_def)
  have "sample_report \<in> set (GetCachedReports sample_gc 120 130 20 c)"
    by (rule cache_keeps_visible_reports [OF sample_gc_spec _ _ c, where ?now2.0 = 130, THEN conjunct1, rule_format])
      (auto simp: r sample_cache_cfg_def)
  with c show ?thesis by simp
qed

end
