(* ===== verification/ExecPending.thy ===== *)
theory ExecPending
  imports ExecCache
begin

text \<open>
  The first phase of the execute plugin: which commit reports are still to be executed (execute/plugin\_functions.go
  and execute/plugin.go). Reports from the cache and from the chain are merged, grouped by source chain without the
  cursed ones, filtered by the cache of roots, and the messages executed so far are taken out.
\<close>

section \<open>plugin_functions.go: ranges and grouping\<close>

definition errOverlappingRanges :: error where
  "errOverlappingRanges = Err ''overlapping sequence numbers in reports''"

fun computeRanges_loop ::
  "exec_lib \<Rightarrow> SeqNumRange \<Rightarrow> SeqNumRange list \<Rightarrow> CommitData list \<Rightarrow> SeqNumRange list result" where
  "computeRanges_loop xl seqRange ranges [] = Ok (ranges @ [seqRange])"
| "computeRanges_loop xl seqRange ranges (report # reports) =
     (let rng = cd_SequenceNumberRange report
      in if sr_End seqRange + 1 = sr_Start rng then computeRanges_loop xl (seqRange\<lparr>sr_End := sr_End rng\<rparr>) ranges reports
         else if xl_Overlaps xl rng seqRange then Error errOverlappingRanges
         else computeRanges_loop xl \<lparr>sr_Start = sr_Start rng, sr_End = sr_End rng\<rparr> (ranges @ [seqRange]) reports)"

definition computeRanges :: "exec_lib \<Rightarrow> CommitData list \<Rightarrow> SeqNumRange list result" where
  "computeRanges xl reports =
     (case reports of
        [] \<Rightarrow> Ok []
      | report # rest \<Rightarrow>
          computeRanges_loop xl \<lparr>sr_Start = sr_Start (cd_SequenceNumberRange report), sr_End = sr_End (cd_SequenceNumberRange report)\<rparr>
            [] rest)"

definition commit_data_of_root :: "CommitPluginReportWithMeta \<Rightarrow> MerkleRootChain \<Rightarrow> CommitData" where
  "commit_data_of_root report root =
     \<lparr>cd_SourceChain = mrc_ChainSel root, cd_OnRampAddress = mrc_OnRampAddress root, cd_Timestamp = cpm_Timestamp report,
      cd_BlockNum = cpm_BlockNum report, cd_MerkleRoot = mrc_MerkleRoot root, cd_SequenceNumberRange = mrc_SeqNumsRange root,
      cd_ExecutedMessages = [], cd_Messages = [], cd_Hashes = [], cd_MessageTokenData = []\<rparr>"

definition groupByChainSelectorWithFilter ::
  "CommitPluginReportWithMeta list \<Rightarrow> (ChainSelector, bool) gomap \<Rightarrow> CommitObservations" where
  "groupByChainSelectorWithFilter reports cursedSourceChains =
     fold (\<lambda>report cache.
        fold (\<lambda>root cache.
                if map_of cursedSourceChains (mrc_ChainSel root) = Some True then cache
                else gm_append (mrc_ChainSel root) (commit_data_of_root report root) cache)
          (cpr_BlessedMerkleRoots (cpm_Report report) @ cpr_UnblessedMerkleRoots (cpm_Report report)) cache)
       reports []"

definition combineReportsAndMessages ::
  "exec_lib \<Rightarrow> CommitData list \<Rightarrow> SeqNum list \<Rightarrow> CommitData list \<times> CommitData list" where
  "combineReportsAndMessages xl reports executedMessages =
     (if executedMessages = [] then (reports, [])
      else fold (\<lambda>report (pending, fullyExecuted).
              let reportRange = cd_SequenceNumberRange report;
                  executedMsgsInReportRange = xl_FilterSlice xl reportRange executedMessages
              in if int (length executedMsgsInReportRange) = xl_Length xl reportRange
                 then (pending, fullyExecuted @ [report])
                 else (pending @ [report\<lparr>cd_ExecutedMessages := cd_ExecutedMessages report @ sort executedMsgsInReportRange\<rparr>],
                       fullyExecuted))
            reports ([], []))"

section \<open>plugin.go: the reports that are still to be executed\<close>

definition getSortedExecutableReports ::
  "CommitData list \<Rightarrow> (ChainSelector \<Rightarrow> Bytes32 \<Rightarrow> bool) \<Rightarrow> CommitData list" where
  "getSortedExecutableReports reports canExecute =
     sort_key cd_key (filter (\<lambda>d. canExecute (cd_SourceChain d) (cd_MerkleRoot d)) reports)"

fun executable_ranges ::
  "exec_lib \<Rightarrow> (ChainSelector \<Rightarrow> Bytes32 \<Rightarrow> bool) \<Rightarrow> (ChainSelector, SeqNumRange list) gomap \<Rightarrow> CommitObservations \<Rightarrow>
   CommitObservations \<Rightarrow> ((ChainSelector, SeqNumRange list) gomap \<times> CommitObservations) result" where
  "executable_ranges xl canExecute rangesBySelector executableReports [] = Ok (rangesBySelector, executableReports)"
| "executable_ranges xl canExecute rangesBySelector executableReports ((selector, reports) # rest) =
     (if reports = [] then executable_ranges xl canExecute rangesBySelector executableReports rest
      else let rs = getSortedExecutableReports reports canExecute
           in rbind (wrap_err ''compute report ranges'' (computeRanges xl rs)) (\<lambda>ranges.
                executable_ranges xl canExecute (gm_put selector ranges rangesBySelector) (gm_put selector rs executableReports) rest))"

definition getExecutableReportRanges ::
  "exec_lib \<Rightarrow> CommitObservations \<Rightarrow> (ChainSelector \<Rightarrow> Bytes32 \<Rightarrow> bool) \<Rightarrow>
   ((ChainSelector, SeqNumRange list) gomap \<times> CommitObservations) result" where
  "getExecutableReportRanges xl groupedCommits canExecute = executable_ranges xl canExecute [] [] groupedCommits"

text \<open>\<open>slicelib.ToSortedSlice\<close> of a set is its elements in increasing order.\<close>

definition removeUnconfirmedAndFinalizedMessages ::
  "exec_lib \<Rightarrow> CommitObservations \<Rightarrow> (ChainSelector, SeqNum list) gomap \<Rightarrow> (ChainSelector, SeqNum list) gomap \<Rightarrow>
   CommitObservations \<times> CommitData list \<times> CommitData list" where
  "removeUnconfirmedAndFinalizedMessages xl executableReports finalizedMessages unconfirmedMessages =
     fold (\<lambda>(selector, reports) (remaining, finalized, unfinalized).
         let unconfirmedMsgSet = set (gm_vals unconfirmedMessages selector);
             finalizedMsgSet = set (gm_vals finalizedMessages selector);
             unfinalizedMessages = sorted_list_of_set (unconfirmedMsgSet - finalizedMsgSet);
             sortedFinalizedMessages = sorted_list_of_set finalizedMsgSet;
             (remainingReports, executedCommitsFinalized) = combineReportsAndMessages xl reports sortedFinalizedMessages;
             (finalRemainingReports, executedCommitsUnfinalized) =
               combineReportsAndMessages xl remainingReports unfinalizedMessages
         in (gm_put selector finalRemainingReports remaining, finalized @ executedCommitsFinalized,
             unfinalized @ executedCommitsUnfinalized))
       executableReports ([], [], [])"

text \<open>The two reads of the cache take the clock of \<open>Items\<close>, the clock of \<open>Expired\<close>, and the clock of the query time.\<close>

definition getPendingReportsForExecution ::
  "('d, CommitPluginReportWithMeta) go_cache \<Rightarrow> exec_lib \<Rightarrow> exec_reader \<Rightarrow> time \<times> time \<times> time \<Rightarrow> 'd commitReportCache \<Rightarrow>
   (ChainSelector \<Rightarrow> Bytes32 \<Rightarrow> bool) \<Rightarrow> time \<Rightarrow> (ChainSelector, bool) gomap \<Rightarrow> int \<Rightarrow>
   (CommitObservations \<times> CommitData list \<times> CommitData list) result" where
  "getPendingReportsForExecution gc xl rd clock commitReportCache canExecute fetchFrom cursedSourceChains limit =
     (let (now1, now2, now3) = clock;
          reportsFromCache = GetCachedReports gc now1 now2 fetchFrom commitReportCache;
          queryFrom = GetReportsToQueryFromTimestamp now3 commitReportCache
      in rbind (rdx_CommitReportsGTETimestamp rd queryFrom Unconfirmed limit) (\<lambda>unfinalizedIncrementReports.
         let candidateReports = DeduplicateReports xl (reportsFromCache @ unfinalizedIncrementReports);
             groupedCommits = groupByChainSelectorWithFilter candidateReports cursedSourceChains
         in rbind (getExecutableReportRanges xl groupedCommits canExecute) (\<lambda>(rangesBySelector, executableReports).
            rbind (wrap_err ''get executed messages in range'' (rdx_ExecutedMessages rd rangesBySelector Unconfirmed)) (\<lambda>unconfirmedMessages.
            rbind (wrap_err ''get finalized executed messages in range'' (rdx_ExecutedMessages rd rangesBySelector Finalized)) (\<lambda>finalizedMessages.
            Ok (removeUnconfirmedAndFinalizedMessages xl executableReports finalizedMessages unconfirmedMessages))))))"

section \<open>computeRanges finds the least cover\<close>

abbreviation rng :: "CommitData \<Rightarrow> SeqNumRange" where
  "rng \<equiv> cd_SequenceNumberRange"

definition disj_ranges :: "SeqNumRange \<Rightarrow> SeqNumRange \<Rightarrow> bool" where
  "disj_ranges r s \<longleftrightarrow> range_set r \<inter> range_set s = {}"

text \<open>A gap of at least one number between the end of one range and the start of the next.\<close>

definition gap :: "SeqNumRange \<Rightarrow> SeqNumRange \<Rightarrow> bool" where
  "gap r s \<longleftrightarrow> unat (sr_End r) + 1 < unat (sr_Start s)"

definition ranges_ok :: "CommitData list \<Rightarrow> bool" where
  "ranges_ok reports \<longleftrightarrow> (\<forall>d \<in> set reports. range_wf (rng d) \<and> 0 < sr_Start (rng d))"

lemma end_plus_one:
  assumes "e + 1 = s" "0 < (s :: u64)"
  shows "unat s = unat e + 1" "x \<le> e \<longleftrightarrow> x < s"
proof -
  have "1 + e \<noteq> 0" using assms by (auto simp: add.commute)
  then show u: "unat s = unat e + 1" using unatSuc [of e] assms(1) by (simp add: add.commute)
  show "x \<le> e \<longleftrightarrow> x < s" by (simp add: word_le_nat_alt word_less_nat_alt u less_Suc_eq_le)
qed

lemma range_extend:
  assumes "sr_End q + 1 = sr_Start r" "0 < sr_Start r" "range_wf q" "range_wf r"
  shows "range_set (q\<lparr>sr_End := sr_End r\<rparr>) = range_set q \<union> range_set r" "range_wf (q\<lparr>sr_End := sr_End r\<rparr>)" "disj_ranges q r"
proof -
  note e = end_plus_one [OF assms(1,2)]
  have "sr_Start q < sr_Start r" using assms(3) e(2) by (simp add: range_wf_def)
  then show "range_wf (q\<lparr>sr_End := sr_End r\<rparr>)" using assms(4) by (simp add: range_wf_def)
  show "range_set (q\<lparr>sr_End := sr_End r\<rparr>) = range_set q \<union> range_set r"
  proof -
    have "unat (sr_Start q) \<le> n \<and> n \<le> unat (sr_End r) \<longleftrightarrow>
        (unat (sr_Start q) \<le> n \<and> n \<le> unat (sr_End q)) \<or> (unat (sr_Start r) \<le> n \<and> n \<le> unat (sr_End r))" for n
      using \<open>sr_Start q < sr_Start r\<close> assms(3,4) e(1) by (auto simp: range_wf_def word_le_nat_alt word_less_nat_alt)
    then show ?thesis by (simp add: range_set_def set_eq_iff word_le_nat_alt)
  qed
  show "disj_ranges q r" using e(2) by (auto simp: disj_ranges_def range_set_def)
qed

lemma same_range [simp]: "range_set \<lparr>sr_Start = sr_Start r, sr_End = sr_End r\<rparr> = range_set r"
  "range_wf \<lparr>sr_Start = sr_Start r, sr_End = sr_End r\<rparr> = range_wf r"
  by (simp_all add: range_set_def range_wf_def)

lemma overlaps_iff: "range_spec xl \<Longrightarrow> range_wf r \<Longrightarrow> range_wf s \<Longrightarrow> xl_Overlaps xl r s \<longleftrightarrow> \<not> disj_ranges s r"
  by (simp add: range_spec_def disj_ranges_def Int_commute)

lemma computeRanges_loop_cover:
  assumes "range_spec xl" "ranges_ok reports" "range_wf q" "\<forall>r \<in> set rs. range_wf r" "computeRanges_loop xl q rs reports = Ok out"
  shows "(\<forall>r \<in> set out. range_wf r) \<and>
    \<Union> (range_set ` set out) = \<Union> (range_set ` set rs) \<union> range_set q \<union> \<Union> ((\<lambda>d. range_set (rng d)) ` set reports)"
  using assms(2-)
proof (induction xl q rs reports arbitrary: out rule: computeRanges_loop.induct)
  case (2 xl q rs d reports)
  have ok: "ranges_ok reports" "range_wf (rng d)" "0 < sr_Start (rng d)" using "2.prems"(1) by (simp_all add: ranges_ok_def)
  show ?case
  proof (cases "sr_End q + 1 = sr_Start (rng d)")
    case True
    note x = range_extend [OF True ok(3) "2.prems"(2) ok(2)]
    from "2.prems"(4) True have "computeRanges_loop xl (q\<lparr>sr_End := sr_End (rng d)\<rparr>) rs reports = Ok out" by (simp add: Let_def)
    from "2.IH"(1) [OF refl True ok(1) x(2) "2.prems"(3) this] show ?thesis by (auto simp: x(1))
  next
    case False
    with "2.prems"(4) have no: "\<not> xl_Overlaps xl (rng d) q"
      and lp: "computeRanges_loop xl \<lparr>sr_Start = sr_Start (rng d), sr_End = sr_End (rng d)\<rparr> (rs @ [q]) reports = Ok out"
      by (simp_all add: Let_def split: if_splits)
    have "\<forall>r \<in> set (rs @ [q]). range_wf r" using "2.prems"(2,3) by auto
    from "2.IH"(2) [OF refl False no ok(1) _ this lp] ok(2) show ?thesis by auto
  qed
qed auto

lemma computeRanges_loop_Ok_iff:
  assumes "range_spec xl" "ranges_ok reports" "range_wf q" "sorted (sr_Start q # map (\<lambda>d. sr_Start (rng d)) reports)"
  shows "(\<exists>out. computeRanges_loop xl q rs reports = Ok out) \<longleftrightarrow> sorted_wrt disj_ranges (q # map rng reports)"
  using assms(2-)
proof (induction reports arbitrary: q rs)
  case (Cons d reports)
  have ok: "ranges_ok reports" "range_wf (rng d)" "0 < sr_Start (rng d)" using Cons.prems(1) by (simp_all add: ranges_ok_def)
  show ?case
  proof (cases "sr_End q + 1 = sr_Start (rng d)")
    case True
    note x = range_extend [OF True ok(3) Cons.prems(2) ok(2)]
    have "disj_ranges (q\<lparr>sr_End := sr_End (rng d)\<rparr>) s \<longleftrightarrow> disj_ranges q s \<and> disj_ranges (rng d) s" for s
      using x(1) by (auto simp: disj_ranges_def)
    moreover have "sorted (sr_Start (q\<lparr>sr_End := sr_End (rng d)\<rparr>) # map (\<lambda>d. sr_Start (rng d)) reports)"
      using Cons.prems(3) by auto
    ultimately show ?thesis using Cons.IH [OF ok(1) x(2)] x(3) True by (auto simp: Let_def)
  next
    case False
    have ov: "xl_Overlaps xl (rng d) q \<longleftrightarrow> \<not> disj_ranges q (rng d)" by (rule overlaps_iff [OF assms(1) ok(2) Cons.prems(2)])
    show ?thesis
    proof (cases "disj_ranges q (rng d)")
      case dj: True
      have "sr_End q < sr_Start (rng d)"
      proof (rule ccontr)
        assume "\<not> sr_End q < sr_Start (rng d)"
        with Cons.prems(3) ok(2) have "sr_Start (rng d) \<in> range_set q \<inter> range_set (rng d)"
          by (simp add: range_set_def range_wf_def)
        with dj show False by (auto simp: disj_ranges_def)
      qed
      moreover have "sr_Start (rng d) \<le> sr_Start (rng x)" if "x \<in> set reports" for x using Cons.prems(3) that by simp
      ultimately have "\<forall>x \<in> set reports. disj_ranges q (rng x)"
        by (fastforce simp: disj_ranges_def range_set_def)
      moreover have "sorted_wrt disj_ranges (\<lparr>sr_Start = sr_Start (rng d), sr_End = sr_End (rng d)\<rparr> # map rng reports) \<longleftrightarrow>
          sorted_wrt disj_ranges (rng d # map rng reports)"
        by (simp add: disj_ranges_def)
      ultimately show ?thesis
        using Cons.IH [OF ok(1), of "\<lparr>sr_Start = sr_Start (rng d), sr_End = sr_End (rng d)\<rparr>" "rs @ [q]"] Cons.prems(3) ok(2) dj ov False
        by (simp add: Let_def)
    qed (simp add: ov False Let_def)
  qed
qed simp

lemma gap_start: "gap a (q\<lparr>sr_End := e\<rparr>) = gap a q"
  by (simp add: gap_def)

lemma computeRanges_loop_gap:
  assumes "range_spec xl" "ranges_ok reports" "range_wf q" "sorted (sr_Start q # map (\<lambda>d. sr_Start (rng d)) reports)"
    and "sorted_wrt gap (rs @ [q])" "computeRanges_loop xl q rs reports = Ok out"
  shows "sorted_wrt gap out"
  using assms(2-)
proof (induction reports arbitrary: q rs)
  case (Cons d reports)
  have ok: "ranges_ok reports" "range_wf (rng d)" "0 < sr_Start (rng d)" using Cons.prems(1) by (simp_all add: ranges_ok_def)
  show ?case
  proof (cases "sr_End q + 1 = sr_Start (rng d)")
    case True
    have "sorted_wrt gap (rs @ [q\<lparr>sr_End := sr_End (rng d)\<rparr>])" using Cons.prems(4) by (simp add: sorted_wrt_append gap_start)
    moreover have "sorted (sr_Start (q\<lparr>sr_End := sr_End (rng d)\<rparr>) # map (\<lambda>d. sr_Start (rng d)) reports)"
      using Cons.prems(3) by auto
    ultimately show ?thesis
      using Cons.IH [OF ok(1) range_extend(2) [OF True ok(3) Cons.prems(2) ok(2)]] Cons.prems(5) True by (simp add: Let_def)
  next
    case False
    with Cons.prems(5) have no: "\<not> xl_Overlaps xl (rng d) q"
      and lp: "computeRanges_loop xl \<lparr>sr_Start = sr_Start (rng d), sr_End = sr_End (rng d)\<rparr> (rs @ [q]) reports = Ok out"
      by (simp_all add: Let_def split: if_splits)
    have "disj_ranges q (rng d)" using no overlaps_iff [OF assms(1) ok(2) Cons.prems(2)] by simp
    then have "\<not> sr_Start (rng d) \<le> sr_End q"
      using Cons.prems(3) ok(2) by (fastforce simp: disj_ranges_def range_set_def range_wf_def)
    moreover have "unat (sr_End q) + 1 \<noteq> unat (sr_Start (rng d))"
    proof
      assume h: "unat (sr_End q) + 1 = unat (sr_Start (rng d))"
      have "sr_Start (rng d) = of_nat (unat (sr_End q) + 1)" unfolding h by simp
      with False show False by simp
    qed
    ultimately have g: "gap q (rng d)" by (simp add: gap_def word_le_nat_alt)
    have "unat (sr_Start q) \<le> unat (sr_Start (rng d))" using Cons.prems(3) by (simp add: word_le_nat_alt)
    then have "gap x q \<Longrightarrow> gap x (rng d)" for x by (simp add: gap_def)
    moreover have "gap x \<lparr>sr_Start = sr_Start (rng d), sr_End = sr_End (rng d)\<rparr> = gap x (rng d)" for x by (simp add: gap_def)
    ultimately have "sorted_wrt gap ((rs @ [q]) @ [\<lparr>sr_Start = sr_Start (rng d), sr_End = sr_End (rng d)\<rparr>])"
      using Cons.prems(4) g unfolding sorted_wrt_append by auto
    with Cons.IH [OF ok(1) _ _ this lp] Cons.prems(3) ok(2) show ?thesis by simp
  qed
qed simp

lemma computeRanges_cover:
  assumes "range_spec xl" "ranges_ok reports" "computeRanges xl reports = Ok ranges"
  shows "\<Union> (range_set ` set ranges) = \<Union> ((\<lambda>d. range_set (rng d)) ` set reports)" "\<forall>r \<in> set ranges. range_wf r"
proof -
  have "(\<forall>r \<in> set ranges. range_wf r) \<and> \<Union> (range_set ` set ranges) = \<Union> ((\<lambda>d. range_set (rng d)) ` set reports)"
  proof (cases reports)
    case Nil
    with assms(3) show ?thesis by (simp add: computeRanges_def)
  next
    case (Cons d rest)
    with assms(2,3) show ?thesis
      using computeRanges_loop_cover [OF assms(1), of rest "\<lparr>sr_Start = sr_Start (rng d), sr_End = sr_End (rng d)\<rparr>" "[]" ranges]
      by (auto simp: computeRanges_def ranges_ok_def)
  qed
  then show "\<Union> (range_set ` set ranges) = \<Union> ((\<lambda>d. range_set (rng d)) ` set reports)" "\<forall>r \<in> set ranges. range_wf r"
    by blast+
qed

text \<open>On reports with proper ranges that start above 0, the computed ranges are proper and cover exactly the numbers of the
  reports, and there is no panic. If the reports are sorted by the start of their range, as the comment on the function
  asks, an error is returned exactly when two reports overlap, and between two successive ranges at least one number is
  missing, so there is no cover with fewer ranges.\<close>

theorem computeRanges_spec:
  assumes "range_spec xl" "ranges_ok reports"
  shows "(case computeRanges xl reports of
      Ok ranges \<Rightarrow> (\<forall>r \<in> set ranges. range_wf r) \<and> \<Union> (range_set ` set ranges) = \<Union> ((\<lambda>d. range_set (rng d)) ` set reports)
    | Error e \<Rightarrow> e = errOverlappingRanges
    | Panic \<Rightarrow> False) \<and>
   (sorted (map (\<lambda>d. sr_Start (rng d)) reports) \<longrightarrow>
      ((\<exists>e. computeRanges xl reports = Error e) \<longleftrightarrow> \<not> sorted_wrt disj_ranges (map rng reports)) \<and>
      (\<forall>ranges. computeRanges xl reports = Ok ranges \<longrightarrow> sorted_wrt gap ranges))"
proof (cases reports)
  case (Cons d rest)
  let ?q = "\<lparr>sr_Start = sr_Start (rng d), sr_End = sr_End (rng d)\<rparr>"
  have eq: "computeRanges xl reports = computeRanges_loop xl ?q [] rest" by (simp add: computeRanges_def Cons)
  have ok: "ranges_ok rest" "range_wf ?q" using assms(2) by (simp_all add: Cons ranges_ok_def)
  have err: "computeRanges_loop xl q rs rest \<noteq> Panic \<and> (\<forall>e. computeRanges_loop xl q rs rest = Error e \<longrightarrow> e = errOverlappingRanges)"
    for q rs by (induction rest arbitrary: q rs) (simp_all add: Let_def)
  have "case computeRanges xl reports of
      Ok ranges \<Rightarrow> (\<forall>r \<in> set ranges. range_wf r) \<and> \<Union> (range_set ` set ranges) = \<Union> ((\<lambda>d. range_set (rng d)) ` set reports)
    | Error e \<Rightarrow> e = errOverlappingRanges | Panic \<Rightarrow> False"
    using computeRanges_cover [OF assms] err [of ?q "[]"] unfolding eq by (auto split: result.splits)
  moreover
  {
    assume s: "sorted (map (\<lambda>d. sr_Start (rng d)) reports)"
    then have s': "sorted (sr_Start ?q # map (\<lambda>d. sr_Start (rng d)) rest)" by (simp add: Cons)
    have dj: "sorted_wrt disj_ranges (?q # map rng rest) \<longleftrightarrow> sorted_wrt disj_ranges (map rng reports)"
      by (simp add: Cons disj_ranges_def)
    have "(\<exists>e. computeRanges xl reports = Error e) \<longleftrightarrow> \<not> (\<exists>out. computeRanges_loop xl ?q [] rest = Ok out)"
      using err [of ?q "[]"] unfolding eq by (cases "computeRanges_loop xl ?q [] rest") auto
    also have "\<dots> \<longleftrightarrow> \<not> sorted_wrt disj_ranges (map rng reports)"
      unfolding computeRanges_loop_Ok_iff [OF assms(1) ok s'] dj ..
    moreover have "\<forall>ranges. computeRanges xl reports = Ok ranges \<longrightarrow> sorted_wrt gap ranges"
      using computeRanges_loop_gap [OF assms(1) ok s', of "[]"] unfolding eq by simp
    ultimately have "((\<exists>e. computeRanges xl reports = Error e) \<longleftrightarrow> \<not> sorted_wrt disj_ranges (map rng reports)) \<and>
        (\<forall>ranges. computeRanges xl reports = Ok ranges \<longrightarrow> sorted_wrt gap ranges)" by blast
  }
  ultimately show ?thesis by blast
qed (simp add: computeRanges_def)

definition sample_cd :: "ChainSelector \<Rightarrow> time \<Rightarrow> SeqNum \<Rightarrow> SeqNum \<Rightarrow> Bytes32 \<Rightarrow> CommitData" where
  "sample_cd c t s e root = \<lparr>cd_SourceChain = c, cd_OnRampAddress = [1], cd_Timestamp = t, cd_BlockNum = 1, cd_MerkleRoot = root,
     cd_SequenceNumberRange = \<lparr>sr_Start = s, sr_End = e\<rparr>, cd_ExecutedMessages = [], cd_Messages = [], cd_Hashes = [],
     cd_MessageTokenData = []\<rparr>"

theorem computeRanges_spec_witness:
  "computeRanges sample_xl [sample_cd 5 1 10 12 [1], sample_cd 5 2 13 15 [2], sample_cd 5 3 20 22 [3]] =
     Ok [\<lparr>sr_Start = 10, sr_End = 15\<rparr>, \<lparr>sr_Start = 20, sr_End = 22\<rparr>] \<and>
   (\<exists>e. computeRanges sample_xl [sample_cd 5 1 10 12 [1], sample_cd 5 2 12 15 [2]] = Error e)"
proof -
  have "ranges_ok [sample_cd 5 1 10 12 [1], sample_cd 5 2 12 15 [2]]"
    by (simp add: ranges_ok_def sample_cd_def range_wf_def)
  moreover have "disj_ranges \<lparr>sr_Start = 10, sr_End = 12\<rparr> \<lparr>sr_Start = 12, sr_End = 15\<rparr> = False"
    by (auto simp: disj_ranges_def range_set_def)
  ultimately have "\<exists>e. computeRanges sample_xl [sample_cd 5 1 10 12 [1], sample_cd 5 2 12 15 [2]] = Error e"
    using computeRanges_spec [OF sample_xl_range, of "[sample_cd 5 1 10 12 [1], sample_cd 5 2 12 15 [2]]"]
    by (simp add: sample_cd_def)
  moreover have "computeRanges sample_xl [sample_cd 5 1 10 12 [1], sample_cd 5 2 13 15 [2], sample_cd 5 3 20 22 [3]] =
     Ok [\<lparr>sr_Start = 10, sr_End = 15\<rparr>, \<lparr>sr_Start = 20, sr_End = 22\<rparr>]" by code_simp
  ultimately show ?thesis by blast
qed

section \<open>Executed reports are taken out\<close>

lemma card_range_set: "range_wf r \<Longrightarrow> int (card (range_set r)) = uint (sr_End r) - uint (sr_Start r) + 1"
  using distinct_card [OF distinct_seq_list, of "sr_Start r" "sr_End r"] length_seq_list [of "sr_Start r" "sr_End r"]
  by (simp add: set_seq_list range_set_def range_wf_def)

definition range_small :: "SeqNumRange \<Rightarrow> bool" where
  "range_small r \<longleftrightarrow> range_wf r \<and> uint (sr_End r) - uint (sr_Start r) < 2 ^ 62"

lemma range_small_wf: "range_small r \<Longrightarrow> range_wf r"
  by (simp add: range_small_def)

lemma filter_slice: "range_spec xl \<Longrightarrow> xl_FilterSlice xl r ns = filter (\<lambda>n. n \<in> range_set r) ns"
  by (simp add: range_spec_def)

lemma all_executed_iff:
  assumes "range_spec xl" "range_small r" "distinct ns"
  shows "int (length (xl_FilterSlice xl r ns)) = xl_Length xl r \<longleftrightarrow> range_set r \<subseteq> set ns"
proof -
  have len: "xl_Length xl r = int (card (range_set r))"
    unfolding card_range_set [OF range_small_wf [OF assms(2)]] using assms(1,2) unfolding range_spec_def range_small_def by blast
  have "length (xl_FilterSlice xl r ns) = card (set ns \<inter> range_set r)"
    using distinct_card [of "filter (\<lambda>n. n \<in> range_set r) ns"] assms(3) filter_slice [OF assms(1)] by (simp add: Int_def)
  moreover have "card (set ns \<inter> range_set r) = card (range_set r) \<longleftrightarrow> range_set r \<subseteq> set ns"
  proof
    assume "card (set ns \<inter> range_set r) = card (range_set r)"
    then have "set ns \<inter> range_set r = range_set r" by (intro card_subset_eq) simp_all
    then show "range_set r \<subseteq> set ns" by blast
  qed (simp add: Int_absorb1)
  ultimately show ?thesis by (simp add: len)
qed

definition with_executed :: "SeqNum set \<Rightarrow> CommitData \<Rightarrow> CommitData" where
  "with_executed ns d =
     d\<lparr>cd_ExecutedMessages := cd_ExecutedMessages d @ sorted_list_of_set (ns \<inter> range_set (rng d))\<rparr>"

lemma with_executed_empty: "with_executed {} = id"
  by (simp add: with_executed_def fun_eq_iff)

lemma with_executed_disjoint: "ns \<inter> range_set (rng d) = {} \<Longrightarrow> with_executed ns d = d"
  by (simp add: with_executed_def)

lemma rng_with_executed [simp]: "rng (with_executed ns d) = rng d"
  by (simp add: with_executed_def)

text \<open>\<open>combineReportsAndMessages\<close> on a set of executed numbers: the reports all of whose numbers are in it are separated, the others
  get the numbers of their range.\<close>

lemma combineReportsAndMessages_eq:
  assumes "range_spec xl" "\<forall>d \<in> set reports. range_small (rng d)"
  shows "combineReportsAndMessages xl reports (sorted_list_of_set ns) =
    (map (with_executed ns) (filter (\<lambda>d. \<not> range_set (rng d) \<subseteq> ns) reports), filter (\<lambda>d. range_set (rng d) \<subseteq> ns) reports)"
proof (cases "ns = {}")
  case True
  have "range_set (rng d) \<noteq> {}" if "d \<in> set reports" for d
    using assms(2) that by (auto simp: range_small_def range_wf_def range_set_def)
  with True show ?thesis
    by (simp add: combineReportsAndMessages_def with_executed_empty filter_empty_conv filter_id_conv)
next
  case False
  let ?ex = "sorted_list_of_set ns"
  let ?step = "\<lambda>d (pending, full). let ms = xl_FilterSlice xl (rng d) ?ex
      in if int (length ms) = xl_Length xl (rng d) then (pending, full @ [d])
         else (pending @ [d\<lparr>cd_ExecutedMessages := cd_ExecutedMessages d @ sort ms\<rparr>], full)"
  have fs: "sort (xl_FilterSlice xl (rng d) ?ex) = sorted_list_of_set (ns \<inter> range_set (rng d))" for d
  proof -
    have "sort (filter (\<lambda>n. n \<in> range_set (rng d)) ?ex) = sorted_list_of_set (set (filter (\<lambda>n. n \<in> range_set (rng d)) ?ex))"
      by (simp add: sorted_list_of_set_sort_remdups distinct_remdups_id del: set_filter)
    then show ?thesis by (simp add: filter_slice [OF assms(1)] Int_def)
  qed
  have "fold ?step reports (p, f) = (p @ map (with_executed ns) (filter (\<lambda>d. \<not> range_set (rng d) \<subseteq> ns) reports),
      f @ filter (\<lambda>d. range_set (rng d) \<subseteq> ns) reports)" for p f
    using assms(2)
  proof (induction reports arbitrary: p f)
    case (Cons d reports)
    have "int (length (xl_FilterSlice xl (rng d) ?ex)) = xl_Length xl (rng d) \<longleftrightarrow> range_set (rng d) \<subseteq> ns"
      using all_executed_iff [OF assms(1), of "rng d" ?ex] Cons.prems by simp
    with Cons show ?case by (simp add: fs with_executed_def Let_def)
  qed simp
  with False show ?thesis by (simp add: combineReportsAndMessages_def Let_def)
qed

definition pending_after :: "SeqNum set \<Rightarrow> SeqNum set \<Rightarrow> CommitData list \<Rightarrow> CommitData list" where
  "pending_after fin unc ds =
     map (\<lambda>d. with_executed (unc - fin) (with_executed fin d))
       (filter (\<lambda>d. \<not> range_set (rng d) \<subseteq> fin \<and> \<not> range_set (rng d) \<subseteq> unc - fin) ds)"

text \<open>One chain: the two passes over its reports.\<close>

lemma combine_twice:
  assumes "range_spec xl" "\<forall>d \<in> set ds. range_small (rng d)"
  shows "(case combineReportsAndMessages xl ds (sorted_list_of_set fin) of (rem, ff) \<Rightarrow>
      case combineReportsAndMessages xl rem (sorted_list_of_set (unc - fin)) of (rem', fu) \<Rightarrow> (rem', ff, fu)) =
    (pending_after fin unc ds, filter (\<lambda>d. range_set (rng d) \<subseteq> fin) ds, filter (\<lambda>d. range_set (rng d) \<subseteq> unc - fin) ds)"
proof -
  let ?rem = "map (with_executed fin) (filter (\<lambda>d. \<not> range_set (rng d) \<subseteq> fin) ds)"
  have "\<forall>d \<in> set ?rem. range_small (rng d)" using assms(2) by auto
  note second = combineReportsAndMessages_eq [OF assms(1) this, of "unc - fin"]
  have ne: "range_set (rng d) \<noteq> {}" if "d \<in> set ds" for d
    using bspec [OF assms(2) that] by (auto simp: range_small_def range_wf_def range_set_def)
  have "filter (\<lambda>d. range_set (rng d) \<subseteq> unc - fin) ?rem =
      map (with_executed fin) (filter (\<lambda>d. \<not> range_set (rng d) \<subseteq> fin \<and> range_set (rng d) \<subseteq> unc - fin) ds)"
    by (simp add: filter_map comp_def conj_commute)
  also have "\<dots> = filter (\<lambda>d. \<not> range_set (rng d) \<subseteq> fin \<and> range_set (rng d) \<subseteq> unc - fin) ds"
    by (rule map_idI) (auto intro: with_executed_disjoint)
  also have "\<dots> = filter (\<lambda>d. range_set (rng d) \<subseteq> unc - fin) ds"
    by (rule filter_cong) (use ne in auto)
  finally have fu: "filter (\<lambda>d. range_set (rng d) \<subseteq> unc - fin) ?rem = filter (\<lambda>d. range_set (rng d) \<subseteq> unc - fin) ds" .
  have "map (with_executed (unc - fin)) (filter (\<lambda>d. \<not> range_set (rng d) \<subseteq> unc - fin) ?rem) = pending_after fin unc ds"
    by (simp add: pending_after_def filter_map comp_def conj_commute)
  with fu show ?thesis by (simp add: combineReportsAndMessages_eq [OF assms] second)
qed

text \<open>All chains: a report whose messages are all executed with finality is finalized, one whose messages are all executed and
  none with finality is unfinalized, every other one stays.\<close>

lemma removeUnconfirmedAndFinalizedMessages_eq:
  assumes "range_spec xl" "gm_ok ex" "\<forall>(c, ds) \<in> set ex. \<forall>d \<in> set ds. range_small (rng d)"
    and "removeUnconfirmedAndFinalizedMessages xl ex fin unc = (rem, ff, fu)"
  shows "ff = concat (map (\<lambda>(c, ds). filter (\<lambda>d. range_set (rng d) \<subseteq> set (gm_vals fin c)) ds) ex)"
    "fu = concat (map (\<lambda>(c, ds). filter (\<lambda>d. range_set (rng d) \<subseteq> set (gm_vals unc c) - set (gm_vals fin c)) ds) ex)"
    "gm_ok rem" "map_of rem c = map_option (pending_after (set (gm_vals fin c)) (set (gm_vals unc c))) (map_of ex c)"
proof -
  let ?F = "\<lambda>c. set (gm_vals fin c)" let ?U = "\<lambda>c. set (gm_vals unc c)"
  let ?step = "\<lambda>(c, ds) (rem, ff, fu). (gm_put c (pending_after (?F c) (?U c) ds) rem,
      ff @ filter (\<lambda>d. range_set (rng d) \<subseteq> ?F c) ds, fu @ filter (\<lambda>d. range_set (rng d) \<subseteq> ?U c - ?F c) ds)"
  have "removeUnconfirmedAndFinalizedMessages xl ex fin unc = fold ?step ex ([], [], [])"
    unfolding removeUnconfirmedAndFinalizedMessages_def
  proof (rule fold_cong [OF refl refl], clarify)
    fix c ds assume "(c, ds) \<in> set ex"
    then have "\<forall>d \<in> set ds. range_small (rng d)" using assms(3) by auto
    from combine_twice [OF assms(1) this, where fin = "?F c" and unc = "?U c"]
    show "(\<lambda>(rem, finalized, unfinalized).
         let unconfirmedMsgSet = set (gm_vals unc c); finalizedMsgSet = set (gm_vals fin c);
             unfinalizedMessages = sorted_list_of_set (unconfirmedMsgSet - finalizedMsgSet);
             sortedFinalizedMessages = sorted_list_of_set finalizedMsgSet;
             (remainingReports, executedCommitsFinalized) = combineReportsAndMessages xl ds sortedFinalizedMessages;
             (finalRemainingReports, executedCommitsUnfinalized) = combineReportsAndMessages xl remainingReports unfinalizedMessages
         in (gm_put c finalRemainingReports rem, finalized @ executedCommitsFinalized, unfinalized @ executedCommitsUnfinalized)) =
       (\<lambda>(rem, ff, fu). (gm_put c (pending_after (?F c) (?U c) ds) rem,
          ff @ filter (\<lambda>d. range_set (rng d) \<subseteq> ?F c) ds, fu @ filter (\<lambda>d. range_set (rng d) \<subseteq> ?U c - ?F c) ds))"
      by (auto simp: fun_eq_iff Let_def split: prod.splits)
  qed
  moreover have "fold ?step ex (r, a, b) =
      (fold (\<lambda>(c, ds). gm_put c (pending_after (?F c) (?U c) ds)) ex r,
       a @ concat (map (\<lambda>(c, ds). filter (\<lambda>d. range_set (rng d) \<subseteq> ?F c) ds) ex),
       b @ concat (map (\<lambda>(c, ds). filter (\<lambda>d. range_set (rng d) \<subseteq> ?U c - ?F c) ds) ex))" for r a b
    by (induction ex arbitrary: r a b) (simp_all split: prod.splits)
  ultimately have *: "rem = fold (\<lambda>(c, ds). gm_put c (pending_after (?F c) (?U c) ds)) ex []"
    "ff = concat (map (\<lambda>(c, ds). filter (\<lambda>d. range_set (rng d) \<subseteq> ?F c) ds) ex)"
    "fu = concat (map (\<lambda>(c, ds). filter (\<lambda>d. range_set (rng d) \<subseteq> ?U c - ?F c) ds) ex)" using assms(4) by simp_all
  show "ff = concat (map (\<lambda>(c, ds). filter (\<lambda>d. range_set (rng d) \<subseteq> set (gm_vals fin c)) ds) ex)"
    "fu = concat (map (\<lambda>(c, ds). filter (\<lambda>d. range_set (rng d) \<subseteq> set (gm_vals unc c) - set (gm_vals fin c)) ds) ex)" by fact+
  have rem: "rem = fold (\<lambda>p. gm_put (fst p) (pending_after (?F (fst p)) (?U (fst p)) (snd p))) ex []"
    unfolding *(1) by (simp add: case_prod_unfold)
  show "gm_ok rem" unfolding rem by (rule gm.ok_fold_put) simp
  show "map_of rem c = map_option (pending_after (?F c) (?U c)) (map_of ex c)"
  proof (cases "map_of ex c")
    case None
    then have "c \<notin> fst ` set ex" by (simp add: map_of_eq_None_iff)
    then show ?thesis using None gm.get_fold_put_notin [of c fst ex _ "[]"] by (simp add: rem)
  next
    case (Some ds)
    then have "(c, ds) \<in> set ex" by (rule map_of_SomeD)
    with assms(2) Some show ?thesis
      using gm.get_fold_put [of fst ex "(c, ds)" "\<lambda>p. pending_after (?F (fst p)) (?U (fst p)) (snd p)" "[]"]
      by (simp add: rem gm_ok_def)
  qed
qed

section \<open>Grouping\<close>

definition report_roots :: "CommitPluginReportWithMeta \<Rightarrow> MerkleRootChain list" where
  "report_roots r = cpr_BlessedMerkleRoots (cpm_Report r) @ cpr_UnblessedMerkleRoots (cpm_Report r)"

lemma group_append_fold_filter:
  "fold (\<lambda>x m. if P x then m else gm_append (k x) (v x) m) xs m =
     group_append (map (\<lambda>x. (k x, v x)) (filter (\<lambda>x. \<not> P x) xs)) m"
  by (induction xs arbitrary: m) (simp_all add: group_append_def)

lemma groupByChainSelectorWithFilter_eq:
  "groupByChainSelectorWithFilter reports cursed = group_append
     (concat (map (\<lambda>rep. map (\<lambda>root. (mrc_ChainSel root, commit_data_of_root rep root))
        (filter (\<lambda>root. map_of cursed (mrc_ChainSel root) \<noteq> Some True) (report_roots rep))) reports)) []"
proof -
  let ?kvs = "\<lambda>rep. map (\<lambda>root. (mrc_ChainSel root, commit_data_of_root rep root))
        (filter (\<lambda>root. map_of cursed (mrc_ChainSel root) \<noteq> Some True) (report_roots rep))"
  have "fold (\<lambda>rep. group_append (?kvs rep)) reports m = group_append (concat (map ?kvs reports)) m" for m
    by (induction reports arbitrary: m) (simp_all add: group_append_append, simp add: group_append_def)
  then show ?thesis
    unfolding groupByChainSelectorWithFilter_def group_append_fold_filter report_roots_def by simp
qed

text \<open>The roots that may be executed: those of the candidate reports on a chain that is not cursed and that the cache of roots does not
  exclude.\<close>

definition executable_roots ::
  "CommitPluginReportWithMeta list \<Rightarrow> (ChainSelector, bool) gomap \<Rightarrow> (ChainSelector \<Rightarrow> Bytes32 \<Rightarrow> bool) \<Rightarrow> CommitData set" where
  "executable_roots reports cursed canExecute =
     {commit_data_of_root rep root | rep root. rep \<in> set reports \<and> root \<in> set (report_roots rep) \<and>
        map_of cursed (mrc_ChainSel root) \<noteq> Some True \<and> canExecute (mrc_ChainSel root) (mrc_MerkleRoot root)}"

lemma gm_vals_put: "gm_vals (gm_put c v m) c' = (if c' = c then v else gm_vals m c')"
  by (simp add: gm_vals_def update_conv')

lemma executable_ranges_map:
  assumes "executable_ranges xl canExecute rs ex m = Ok (rs', ex')" "gm_ok m" "gm_ok ex" "fst ` set m \<inter> fst ` set ex = {}"
  shows "gm_ok ex' \<and> (\<forall>c. map_of ex' c =
    (case map_of m c of Some ds \<Rightarrow> if ds = [] then map_of ex c else Some (getSortedExecutableReports ds canExecute)
     | None \<Rightarrow> map_of ex c)) \<and>
    (\<forall>c. case map_of m c of
       Some ds \<Rightarrow> ds \<noteq> [] \<longrightarrow> computeRanges xl (getSortedExecutableReports ds canExecute) = Ok (gm_vals rs' c)
     | None \<Rightarrow> gm_vals rs' c = gm_vals rs c)"
  using assms
proof (induction xl canExecute rs ex m arbitrary: rs' ex' rule: executable_ranges.induct)
  case (2 xl canExecute rs ex c ds m)
  have ok: "gm_ok m" "c \<notin> fst ` set m" "c \<notin> fst ` set ex" using "2.prems" by (auto simp: gm_ok_def)
  show ?case
  proof (cases "ds = []")
    case True
    with "2.IH"(1) [OF True _ ok(1)] "2.prems" ok(2) show ?thesis by (auto simp: map_of_eq_None_iff split: option.splits)
  next
    case False
    let ?ds = "getSortedExecutableReports ds canExecute"
    from "2.prems"(1) False obtain ranges where
      lp: "executable_ranges xl canExecute (gm_put c ranges rs) (gm_put c ?ds ex) m = Ok (rs', ex')"
      and ra: "computeRanges xl ?ds = Ok ranges"
      by (auto simp: Let_def rbind_Ok_iff)
    have "fst ` set m \<inter> fst ` set (gm_put c ?ds ex) = {}" using "2.prems"(4) ok(2) by (auto simp: gm_keys_put)
    from "2.IH"(2) [OF False refl lp ok(1) gm.ok_put [OF "2.prems"(3)] this] ok(2) False
      ra gm_vals_put [of c ranges rs]
    show ?thesis by (auto simp: update_conv' map_of_eq_None_iff split: option.splits)
  qed
qed simp

lemma group_entries_nonempty: "map_of (group_append kvs []) c \<noteq> Some []"
  by (auto simp: map_of_group_append filter_empty_conv)

lemma gm_ok_grouped: "gm_ok (groupByChainSelectorWithFilter reports cursed)"
  by (simp add: groupByChainSelectorWithFilter_eq gm_ok_group_append)

lemma grouped_nonempty: "map_of (groupByChainSelectorWithFilter reports cursed) c \<noteq> Some []"
  unfolding groupByChainSelectorWithFilter_eq by (rule group_entries_nonempty)

lemma executable_reports:
  assumes "getExecutableReportRanges xl (groupByChainSelectorWithFilter reports cursed) canExecute = Ok (ranges, ex)"
  shows "gm_ok ex" "set (gm_vals ex c) = {d \<in> executable_roots reports cursed canExecute. cd_SourceChain d = c}"
    "computeRanges xl (gm_vals ex c) = Ok (gm_vals ranges c)"
proof -
  let ?g = "groupByChainSelectorWithFilter reports cursed"
  note all = executable_ranges_map [OF assms [unfolded getExecutableReportRanges_def] gm_ok_grouped]
  have R: "case map_of ?g c of
       Some ds \<Rightarrow> ds \<noteq> [] \<longrightarrow> computeRanges xl (getSortedExecutableReports ds canExecute) = Ok (gm_vals ranges c)
     | None \<Rightarrow> gm_vals ranges c = gm_vals [] c" for c
    using all by simp
  have E: "gm_ok ex" "\<And>c. map_of ex c = map_option (\<lambda>ds. getSortedExecutableReports ds canExecute) (map_of ?g c)"
    using all grouped_nonempty [of reports cursed] by (simp_all split: option.splits)
  show "gm_ok ex" by (rule E)
  have vals: "gm_vals ex c = getSortedExecutableReports (gm_vals ?g c) canExecute"
    by (simp add: gm_vals_def E(2) getSortedExecutableReports_def split: option.splits)
  have g: "set (gm_vals ?g c) = {commit_data_of_root rep root | rep root. rep \<in> set reports \<and> root \<in> set (report_roots rep) \<and>
      map_of cursed (mrc_ChainSel root) \<noteq> Some True \<and> mrc_ChainSel root = c}"
    by (force simp: groupByChainSelectorWithFilter_eq gm_vals_group_append gm_vals_def [of "[]"])
  have sel: "cd_SourceChain (commit_data_of_root rep root) = mrc_ChainSel root"
    "cd_MerkleRoot (commit_data_of_root rep root) = mrc_MerkleRoot root" for rep root
    by (simp_all add: commit_data_of_root_def)
  have "d \<in> set (gm_vals ex c) \<longleftrightarrow> d \<in> set (gm_vals ?g c) \<and> canExecute (cd_SourceChain d) (cd_MerkleRoot d)" for d
    by (auto simp: vals getSortedExecutableReports_def)
  moreover have "d \<in> set (gm_vals ?g c) \<and> canExecute (cd_SourceChain d) (cd_MerkleRoot d) \<longleftrightarrow>
      d \<in> executable_roots reports cursed canExecute \<and> cd_SourceChain d = c" for d
    unfolding g executable_roots_def mem_Collect_eq using sel by metis
  ultimately show "set (gm_vals ex c) = {d \<in> executable_roots reports cursed canExecute. cd_SourceChain d = c}" by blast
  show "computeRanges xl (gm_vals ex c) = Ok (gm_vals ranges c)"
  proof (cases "map_of ?g c")
    case None
    with R [of c] E(2) [of c] show ?thesis by (simp add: gm_vals_def computeRanges_def)
  next
    case (Some ds)
    with R [of c] grouped_nonempty [of reports cursed c] show ?thesis by (simp add: vals) (simp add: gm_vals_def)
  qed
qed

lemma gm_vals_entry: "gm_ok m \<Longrightarrow> d \<in> set (gm_vals m c) \<longleftrightarrow> (\<exists>ds. (c, ds) \<in> set m \<and> d \<in> set ds)"
  by (cases "map_of m c") (auto simp: gm_vals_def gm_get_iff [symmetric])

text \<open>C10. The first phase classifies the executable roots exactly. With \<open>fin\<close> and \<open>unc\<close> the messages of a chain that the reader reports as
  executed with and without finality, asked for exactly the messages of these roots: a root is returned as finalized when all its messages are
  in \<open>fin\<close>, as unfinalized when all are in \<open>unc\<close> and none in \<open>fin\<close>, and otherwise it stays pending under its chain, with
  its executed messages added. In particular a root whose messages are all executed, some with finality and some without, stays pending.\<close>

theorem getPendingReports_classifies:
  assumes "range_spec xl"
    and "getPendingReportsForExecution gc xl rd (now1, now2, now3) cache canExecute fetchFrom cursed limit = Ok (rem, ff, fu)"
    and "rdx_CommitReportsGTETimestamp rd (GetReportsToQueryFromTimestamp now3 cache) Unconfirmed limit = Ok fresh"
    and "roots = executable_roots (DeduplicateReports xl (GetCachedReports gc now1 now2 fetchFrom cache @ fresh)) cursed canExecute"
    and "\<forall>d \<in> roots. range_small (rng d) \<and> 0 < sr_Start (rng d)"
  shows "\<exists>ranges fin unc.
    (\<forall>c. \<Union> (range_set ` set (gm_vals ranges c)) = \<Union> (range_set ` rng ` {d \<in> roots. cd_SourceChain d = c})) \<and>
    rdx_ExecutedMessages rd ranges Finalized = Ok fin \<and> rdx_ExecutedMessages rd ranges Unconfirmed = Ok unc \<and>
    set ff = {d \<in> roots. range_set (rng d) \<subseteq> set (gm_vals fin (cd_SourceChain d))} \<and>
    set fu = {d \<in> roots. range_set (rng d) \<subseteq> set (gm_vals unc (cd_SourceChain d)) - set (gm_vals fin (cd_SourceChain d))} \<and>
    (\<forall>c. set (gm_vals rem c) = (\<lambda>d. with_executed (set (gm_vals unc c) - set (gm_vals fin c)) (with_executed (set (gm_vals fin c)) d)) `
       {d \<in> roots. cd_SourceChain d = c \<and> \<not> range_set (rng d) \<subseteq> set (gm_vals fin c) \<and>
          \<not> range_set (rng d) \<subseteq> set (gm_vals unc c) - set (gm_vals fin c)})"
proof -
  let ?cands = "DeduplicateReports xl (GetCachedReports gc now1 now2 fetchFrom cache @ fresh)"
  from assms(2,3) obtain ranges ex unc fin where
    ex: "getExecutableReportRanges xl (groupByChainSelectorWithFilter ?cands cursed) canExecute = Ok (ranges, ex)"
    and rd: "rdx_ExecutedMessages rd ranges Unconfirmed = Ok unc" "rdx_ExecutedMessages rd ranges Finalized = Ok fin"
    and rm: "removeUnconfirmedAndFinalizedMessages xl ex fin unc = (rem, ff, fu)"
    by (auto simp: getPendingReportsForExecution_def Let_def rbind_Ok_iff)
  note e = executable_reports [OF ex, folded assms(4)]
  have ent: "(c, ds) \<in> set ex \<Longrightarrow> d \<in> set ds \<Longrightarrow> d \<in> roots \<and> cd_SourceChain d = c" for c ds d
    using e(2) [of c] gm_vals_entry [OF e(1), of d c] by blast
  have small: "\<forall>(c, ds) \<in> set ex. \<forall>d \<in> set ds. range_small (rng d)" using ent assms(5) by blast
  note r = removeUnconfirmedAndFinalizedMessages_eq [OF assms(1) e(1) small rm]
  have inc: "\<exists>ds. (cd_SourceChain d, ds) \<in> set ex \<and> d \<in> set ds" if "d \<in> roots" for d
    using e(2) [of "cd_SourceChain d"] gm_vals_entry [OF e(1), of d "cd_SourceChain d"] that by blast
  have "set ff = {d \<in> roots. range_set (rng d) \<subseteq> set (gm_vals fin (cd_SourceChain d))}"
  proof -
    have "d \<in> set ff \<longleftrightarrow> (\<exists>c ds. (c, ds) \<in> set ex \<and> d \<in> set ds \<and> range_set (rng d) \<subseteq> set (gm_vals fin c))" for d
      unfolding r(1) by force
    then show ?thesis using ent inc by blast
  qed
  moreover have "set fu = {d \<in> roots. range_set (rng d) \<subseteq> set (gm_vals unc (cd_SourceChain d)) - set (gm_vals fin (cd_SourceChain d))}"
  proof -
    have "d \<in> set fu \<longleftrightarrow> (\<exists>c ds. (c, ds) \<in> set ex \<and> d \<in> set ds \<and> range_set (rng d) \<subseteq> set (gm_vals unc c) - set (gm_vals fin c))" for d
      unfolding r(2) by force
    then show ?thesis using ent inc by blast
  qed
  moreover have gr: "gm_vals rem c = pending_after (set (gm_vals fin c)) (set (gm_vals unc c)) (gm_vals ex c)" for c
    by (simp add: gm_vals_def [of rem] gm_vals_def [of ex] r(4) pending_after_def split: option.splits)
  have "set (gm_vals rem c) =
      (\<lambda>d. with_executed (set (gm_vals unc c) - set (gm_vals fin c)) (with_executed (set (gm_vals fin c)) d)) `
       {d \<in> roots. cd_SourceChain d = c \<and> \<not> range_set (rng d) \<subseteq> set (gm_vals fin c) \<and>
          \<not> range_set (rng d) \<subseteq> set (gm_vals unc c) - set (gm_vals fin c)}" for c
    unfolding gr pending_after_def set_map set_filter e(2) by (intro arg_cong2 [where f = image] refl) auto
  moreover have "\<Union> (range_set ` set (gm_vals ranges c)) = \<Union> (range_set ` rng ` {d \<in> roots. cd_SourceChain d = c})" for c
  proof -
    have "ranges_ok (gm_vals ex c)" using e(2) [of c] assms(5) by (auto simp: ranges_ok_def range_small_def)
    from computeRanges_cover [OF assms(1) this e(3)] show ?thesis by (simp add: e(2) image_image)
  qed
  ultimately show ?thesis using rd by blast
qed

definition sample_exec_reader2 :: exec_reader where
  "sample_exec_reader2 = sample_exec_reader\<lparr>rdx_ExecutedMessages :=
     (\<lambda>_ conf. Ok [(5, if conf = Finalized then [1] else [1, 2])])\<rparr>"

theorem getPendingReports_classifies_witness:
  "\<exists>rem. getPendingReportsForExecution sample_gc sample_xl sample_exec_reader2 (50, 51, 52)
      (NewCommitReportCache sample_gc sample_cache_cfg) (\<lambda>_ _. True) 10 [] 250 = Ok (rem, [], []) \<and>
    set (gm_vals rem 5) = {(sample_cd 5 40 1 2 [7])\<lparr>cd_BlockNum := 3, cd_ExecutedMessages := [1, 2]\<rparr>}"
proof -
  let ?cache = "NewCommitReportCache sample_gc sample_cache_cfg"
  let ?d = "(sample_cd 5 40 1 2 [7])\<lparr>cd_BlockNum := 3\<rparr>"
  let ?res = "getPendingReportsForExecution sample_gc sample_xl sample_exec_reader2 (50, 51, 52) ?cache (\<lambda>_ _. True) 10 [] 250"
  have q: "rdx_CommitReportsGTETimestamp sample_exec_reader2 (GetReportsToQueryFromTimestamp 52 ?cache) Unconfirmed 250 =
      Ok [sample_report]" by code_simp
  have res: "?res = Ok ([(5, [?d\<lparr>cd_ExecutedMessages := [1, 2]\<rparr>])], [], [])" by code_simp
  have roots: "executable_roots (DeduplicateReports sample_xl (GetCachedReports sample_gc 50 51 10 ?cache @ [sample_report])) []
      (\<lambda>_ _. True) = {?d}"
  proof -
    have "DeduplicateReports sample_xl (GetCachedReports sample_gc 50 51 10 ?cache @ [sample_report]) = [sample_report]" by code_simp
    then show ?thesis
      by (auto simp: executable_roots_def report_roots_def sample_report_def commit_data_of_root_def sample_cd_def)
  qed
  have "\<forall>d \<in> {?d}. range_small (rng d) \<and> 0 < sr_Start (rng d)"
    by (simp add: sample_cd_def range_small_def range_wf_def)
  from getPendingReports_classifies [OF sample_xl_range res q, unfolded roots, OF refl this]
  have "set (gm_vals [(5, [?d\<lparr>cd_ExecutedMessages := [1, 2]\<rparr>])] 5) = {?d\<lparr>cd_ExecutedMessages := [1, 2]\<rparr>}"
    by (simp add: gm_vals_def)
  with res show ?thesis by (intro exI [of _ "[(5, [?d\<lparr>cd_ExecutedMessages := [1, 2]\<rparr>])]"]) simp
qed

end
