(* ===== verification/ExecConsensus.thy ===== *)
theory ExecConsensus
  imports ExecPending
begin

text \<open>
  Agreement in the execute plugin (execute/plugin\_functions.go): commit reports with their executed messages, messages,
  message hashes, token data, nonces, and the observation all of them make up.
\<close>

section \<open>encoding/base64\<close>

text \<open>\<open>base64.StdEncoding\<close>; the decoder is only given strings that the encoder made, which have no line breaks.\<close>

definition b64_alphabet :: string where
  "b64_alphabet = ''ABCDEFGHIJKLMNOPQRSTUVWXYZabcdefghijklmnopqrstuvwxyz0123456789+/''"

definition b64_digit :: "nat \<Rightarrow> char" where
  "b64_digit n = b64_alphabet ! n"

definition b64_value :: "char \<Rightarrow> nat option" where
  "b64_value c = List.find (\<lambda>n. b64_alphabet ! n = c) [0 ..< 64]"

fun EncodeToString :: "byte list \<Rightarrow> string" where
  "EncodeToString [] = []"
| "EncodeToString [a] = [b64_digit (unat a div 4), b64_digit (unat a mod 4 * 16), CHR ''='', CHR ''='']"
| "EncodeToString [a, b] = [b64_digit (unat a div 4), b64_digit (unat a mod 4 * 16 + unat b div 16),
     b64_digit (unat b mod 16 * 4), CHR ''='']"
| "EncodeToString (a # b # c # rest) = b64_digit (unat a div 4) # b64_digit (unat a mod 4 * 16 + unat b div 16) #
     b64_digit (unat b mod 16 * 4 + unat c div 64) # b64_digit (unat c mod 64) # EncodeToString rest"

fun DecodeString :: "string \<Rightarrow> byte list result" where
  "DecodeString [] = Ok []"
| "DecodeString (a # b # c # d # rest) =
     (case (b64_value a, b64_value b, b64_value c, b64_value d) of
        (Some i, Some j, Some k, Some l) \<Rightarrow>
          rbind (DecodeString rest) (\<lambda>bs. Ok (of_nat (i * 4 + j div 16) # of_nat (j mod 16 * 16 + k div 4) # of_nat (k mod 4 * 64 + l) # bs))
      | (Some i, Some j, Some k, None) \<Rightarrow>
          if rest = [] \<and> d = CHR ''='' then Ok [of_nat (i * 4 + j div 16), of_nat (j mod 16 * 16 + k div 4)]
          else Error (Err ''illegal base64 data'')
      | (Some i, Some j, None, None) \<Rightarrow>
          if rest = [] \<and> c = CHR ''='' \<and> d = CHR ''='' then Ok [of_nat (i * 4 + j div 16)] else Error (Err ''illegal base64 data'')
      | _ \<Rightarrow> Error (Err ''illegal base64 data''))"
| "DecodeString _ = Error (Err ''illegal base64 data'')"

section \<open>Maps of counters and maps of maps\<close>

text \<open>\<open>m[k]++\<close>, \<open>m[k1][k2]++\<close> and \<open>m[k1][k2] = v\<close>, where a missing inner map is made.\<close>

definition gm_inc :: "'k \<Rightarrow> ('k, int) gomap \<Rightarrow> ('k, int) gomap" where
  "gm_inc k m = gm_put k ((case map_of m k of None \<Rightarrow> 0 | Some n \<Rightarrow> n) + 1) m"

definition gm_inner :: "('k, ('l, 'v) gomap) gomap \<Rightarrow> 'k \<Rightarrow> ('l, 'v) gomap" where
  "gm_inner m k = (case map_of m k of None \<Rightarrow> [] | Some m' \<Rightarrow> m')"

definition gm_put2 :: "'k \<Rightarrow> 'l \<Rightarrow> 'v \<Rightarrow> ('k, ('l, 'v) gomap) gomap \<Rightarrow> ('k, ('l, 'v) gomap) gomap" where
  "gm_put2 k l v m = gm_put k (gm_put l v (gm_inner m k)) m"

definition gm_count :: "('k, int) gomap \<Rightarrow> 'k \<Rightarrow> int" where
  "gm_count m k = (case map_of m k of None \<Rightarrow> 0 | Some n \<Rightarrow> n)"

section \<open>Commit reports\<close>

type_synonym exec_ao = "exec_Observation AttributedObservation"

record merkleRootData =
  mrd_SourceChain :: ChainSelector
  mrd_OnRampAddressBase64 :: string
  mrd_Timestamp :: time
  mrd_BlockNum :: u64
  mrd_MerkleRoot :: Bytes32
  mrd_SequenceNumberRange :: SeqNumRange

definition merkle_root_data :: "ChainSelector \<Rightarrow> CommitData \<Rightarrow> merkleRootData" where
  "merkle_root_data sourceChain d =
     \<lparr>mrd_SourceChain = sourceChain, mrd_OnRampAddressBase64 = EncodeToString (cd_OnRampAddress d), mrd_Timestamp = cd_Timestamp d,
      mrd_BlockNum = cd_BlockNum d, mrd_MerkleRoot = cd_MerkleRoot d, mrd_SequenceNumberRange = cd_SequenceNumberRange d\<rparr>"

definition aggregateMerkleRootObservations ::
  "exec_ao list \<Rightarrow> (merkleRootData, int) gomap \<times> (merkleRootData, (SeqNum, int) gomap) gomap" where
  "aggregateMerkleRootObservations observations =
     fold (\<lambda>ao. fold (\<lambda>(sourceChain, merkleRoots). fold (\<lambda>d (merkleRootsVotes, executedMsgVotes).
         let data = merkle_root_data sourceChain d
         in (gm_inc data merkleRootsVotes,
             gm_put data (fold gm_inc (remdups (cd_ExecutedMessages d)) (gm_inner executedMsgVotes data)) executedMsgVotes))
         merkleRoots) (xob_CommitReports (ao_Observation ao)))
       observations ([], [])"

definition computeCommitObservationsConsensus :: "exec_ao list \<Rightarrow> (ChainSelector, int) gomap \<Rightarrow> CommitObservations" where
  "computeCommitObservationsConsensus observations fChain =
     (let (merkleRootsVotes, executedMsgVotes) = aggregateMerkleRootObservations observations;
          validRoots = map fst (filter (\<lambda>(mr, votes). case map_of fChain (mrd_SourceChain mr) of
              None \<Rightarrow> False | Some f \<Rightarrow> GteFPlusOne f votes) merkleRootsVotes);
          seenCount = fold (\<lambda>mr. gm_inc (mrd_MerkleRoot mr)) validRoots [];
          validRoots = filter (\<lambda>mr. gm_count seenCount (mrd_MerkleRoot mr) = 1) validRoots;
          result = fold (\<lambda>mr result.
              case map_of fChain (mrd_SourceChain mr) of
                None \<Rightarrow> result
              | Some f \<Rightarrow>
                  let executedMessages = sort (map fst (filter (\<lambda>(_, count). \<not> LtFPlusOne f count) (gm_inner executedMsgVotes mr)));
                      result = (if map_of result (mrd_SourceChain mr) = None then gm_put (mrd_SourceChain mr) [] result else result)
                  in case DecodeString (mrd_OnRampAddressBase64 mr) of
                       Ok onRampAddress \<Rightarrow>
                         gm_append (mrd_SourceChain mr)
                           \<lparr>cd_SourceChain = mrd_SourceChain mr, cd_OnRampAddress = onRampAddress, cd_Timestamp = mrd_Timestamp mr,
                            cd_BlockNum = mrd_BlockNum mr, cd_MerkleRoot = mrd_MerkleRoot mr,
                            cd_SequenceNumberRange = mrd_SequenceNumberRange mr, cd_ExecutedMessages = executedMessages,
                            cd_Messages = [], cd_Hashes = [], cd_MessageTokenData = []\<rparr> result
                     | _ \<Rightarrow> result)
            validRoots []
      in map (\<lambda>(c, mr). (c, sort_key (\<lambda>d. sr_Start (cd_SequenceNumberRange d)) mr)) result)"

section \<open>Messages\<close>

definition Message_zero :: Message where
  "Message_zero = \<lparr>msg_Header = \<lparr>mh_MessageID = replicate 32 0, mh_SourceChainSelector = 0, mh_DestChainSelector = 0,
       mh_SequenceNumber = 0, mh_Nonce = 0, mh_MsgHash = replicate 32 0, mh_OnRamp = [], mh_TxHash = []\<rparr>,
     msg_Sender = [], msg_Data = [], msg_Receiver = [], msg_ExtraArgs = [], msg_FeeToken = [], msg_FeeTokenAmount = None,
     msg_FeeValueJuels = None, msg_TokenAmounts = []\<rparr>"

definition createEmptyMessageWithIDAndSeqNum :: "Message \<Rightarrow> Message" where
  "createEmptyMessageWithIDAndSeqNum msg =
     Message_zero\<lparr>msg_Header := (msg_Header Message_zero)\<lparr>mh_MessageID := mh_MessageID (msg_Header msg),
        mh_SequenceNumber := mh_SequenceNumber (msg_Header msg)\<rparr>\<rparr>"

definition pseudo_spec :: "exec_lib \<Rightarrow> bool" where
  "pseudo_spec xl \<longleftrightarrow> (\<forall>m. xl_IsPseudoDeleted xl (createEmptyMessageWithIDAndSeqNum m))"

definition prepareValidatorsForComputeMessageObservationsConsensus ::
  "exec_lib \<Rightarrow> exec_ao list \<Rightarrow> (ChainSelector, int) gomap \<Rightarrow> (ChainSelector, Message oracleMinObservation) gomap" where
  "prepareValidatorsForComputeMessageObservationsConsensus xl observations fChain =
     fold (\<lambda>ao. fold (\<lambda>(selector, messages) validators.
         case map_of validators selector of
           None \<Rightarrow> validators
         | Some validator \<Rightarrow>
             gm_put selector
               (fold (\<lambda>(_, msg) v.
                   let v = oracleMinObservation_Add (createEmptyMessageWithIDAndSeqNum msg, ao_OracleID ao) v
                   in if xl_IsPseudoDeleted xl msg then v else oracleMinObservation_Add (msg, ao_OracleID ao) v)
                 messages validator)
               validators) (xob_Messages (ao_Observation ao)))
       observations
       (fold (\<lambda>(selector, f). gm_put selector (NewOracleMinObservation (xl_sum_message xl) (FPlus1 f) None)) fChain [])"

definition choose_message :: "exec_lib \<Rightarrow> Message list \<Rightarrow> Message option" where
  "choose_message xl msgsWithConsensus =
     (case msgsWithConsensus of
        [m] \<Rightarrow> Some m
      | [a, b] \<Rightarrow>
          if xl_IsPseudoDeleted xl a \<and> \<not> xl_IsPseudoDeleted xl b then Some b
          else if xl_IsPseudoDeleted xl b \<and> \<not> xl_IsPseudoDeleted xl a then Some a
          else None
      | _ \<Rightarrow> None)"

definition computeMessageObservationsConsensus ::
  "exec_lib \<Rightarrow> exec_ao list \<Rightarrow> (ChainSelector, int) gomap \<Rightarrow> MessageObservations" where
  "computeMessageObservationsConsensus xl aos fChain =
     (let validators = prepareValidatorsForComputeMessageObservationsConsensus xl aos fChain;
          messagesReachingConsensus = fold (\<lambda>(selector, validator) m.
              case oracleMinObservation_GetValid validator of
                [] \<Rightarrow> m
              | msgs \<Rightarrow> gm_put selector
                  (fold (\<lambda>msg. gm_append (mh_SequenceNumber (msg_Header msg)) msg) msgs (gm_inner m selector)) m)
            validators []
      in fold (\<lambda>(chain, seqNumToMsgs). fold (\<lambda>(seqNum, msgsWithConsensus) results.
             case choose_message xl msgsWithConsensus of None \<Rightarrow> results | Some msg \<Rightarrow> gm_put2 chain seqNum msg results)
           seqNumToMsgs) messagesReachingConsensus [])"

section \<open>Message hashes\<close>

definition hash_votes :: "exec_ao list \<Rightarrow> (ChainSelector \<times> SeqNum, (Bytes32, int) gomap) gomap" where
  "hash_votes observations =
     fold (\<lambda>ao. fold (\<lambda>(chain, hashes). fold (\<lambda>(seqNum, hash) hashVotes.
         gm_put (chain, seqNum) (gm_inc hash (gm_inner hashVotes (chain, seqNum))) hashVotes) hashes)
       (xob_Hashes (ao_Observation ao)))
     observations []"

text \<open>The loop over the hashes of one message; a second hash with enough votes removes the entry and ends it.\<close>

fun hash_loop :: "int \<Rightarrow> ChainSelector \<Rightarrow> SeqNum \<Rightarrow> (Bytes32, int) gomap \<Rightarrow> MessageHashes \<Rightarrow> MessageHashes" where
  "hash_loop f chain seqNum [] results = results"
| "hash_loop f chain seqNum ((hash, numVotes) # rest) results =
     (if LtFPlusOne f numVotes then hash_loop f chain seqNum rest results
      else let hashExists = (gm_get2 results chain seqNum \<noteq> None);
               results = gm_put2 chain seqNum hash results
           in if hashExists
              then let inner = gm_del seqNum (gm_inner results chain)
                   in if inner = [] then gm_del chain results else gm_put chain inner results
              else hash_loop f chain seqNum rest results)"

definition computeMessageHashesConsensus :: "exec_ao list \<Rightarrow> (ChainSelector, int) gomap \<Rightarrow> MessageHashes" where
  "computeMessageHashesConsensus observations fChain =
     fold (\<lambda>((chain, seqNum), hashesAndVotes) results.
         case map_of fChain chain of None \<Rightarrow> results | Some f \<Rightarrow> hash_loop f chain seqNum hashesAndVotes results)
       (hash_votes observations) []"

section \<open>Token data\<close>

text \<open>A \<open>reader.MessageTokenID\<close> is a sequence number and the index of a token in its message.\<close>

type_synonym MessageTokenID = "SeqNum \<times> int"
type_synonym token_validators = "(ChainSelector, (MessageTokenID, TokenData oracleMinObservation) gomap) gomap"

definition initResultsAndValidators ::
  "exec_lib \<Rightarrow> ChainSelector \<Rightarrow> int \<Rightarrow> (SeqNum, MessageTokenData) gomap \<Rightarrow> OracleID \<Rightarrow> (ChainSelector \<times> SeqNum, int) gomap \<Rightarrow>
   TokenDataObservations \<times> token_validators \<Rightarrow> TokenDataObservations \<times> token_validators" where
  "initResultsAndValidators xl selector f seqMap oracleID chainSeqNumTokenDataObservations =
     fold (\<lambda>(seqNr, msgTokenData) (results, validators).
         if LtFPlusOne f (gm_count chainSeqNumTokenDataObservations (selector, seqNr)) then (results, validators)
         else (if gm_get2 results selector seqNr = None then gm_put2 selector seqNr (NewMessageTokenData []) results else results,
               fold (\<lambda>(tokenIndex, tokenData) validators.
                   let messageTokenID = (seqNr, int tokenIndex);
                       v = (case gm_get2 validators selector messageTokenID of
                              None \<Rightarrow> NewOracleMinObservation (\<lambda>_. []) (FPlus1 f) (Some (TokenDataHash xl))
                            | Some v \<Rightarrow> v)
                   in gm_put2 selector messageTokenID (oracleMinObservation_Add (tokenData, oracleID) v) validators)
                 (enumerate 0 (mtd_TokenData msgTokenData)) validators))
       seqMap"

definition computeTokenDataObservationsConsensus ::
  "exec_lib \<Rightarrow> exec_ao list \<Rightarrow> (ChainSelector, int) gomap \<Rightarrow> TokenDataObservations result" where
  "computeTokenDataObservationsConsensus xl aos fChain =
     (let (numChainObservations, chainSeqNumTokenDataObservations) =
            fold (\<lambda>ao. fold (\<lambda>(selector, seqNums) (n, m).
                (gm_inc selector n, fold (\<lambda>(seqNum, _). gm_inc (selector, seqNum)) seqNums m))
              (xob_TokenData (ao_Observation ao))) aos ([], []);
          (results, validators) =
            fold (\<lambda>ao. fold (\<lambda>(selector, seqMap) (results, validators).
                case map_of fChain selector of
                  None \<Rightarrow> (results, validators)
                | Some f \<Rightarrow>
                    if LtFPlusOne f (gm_count numChainObservations selector) then (results, validators)
                    else initResultsAndValidators xl selector f seqMap (ao_OracleID ao) chainSeqNumTokenDataObservations
                           (if map_of results selector = None then gm_put selector [] results else results,
                            if map_of validators selector = None then gm_put selector [] validators else validators))
              (xob_TokenData (ao_Observation ao))) aos ([], [])
      in fold (\<lambda>(selector, seqNrs). fold (\<lambda>(tokenID, validator) r. rbind r (\<lambda>results.
             let mtd = (case gm_get2 results selector (fst tokenID) of None \<Rightarrow> \<lparr>mtd_TokenData = []\<rparr> | Some mtd \<Rightarrow> mtd)
             in rbind (MessageTokenData_Append mtd (snd tokenID)
                  (case oracleMinObservation_GetValid validator of [v] \<Rightarrow> v | _ \<Rightarrow> NotReadyToken)) (\<lambda>mtd.
                Ok (gm_put2 selector (fst tokenID) mtd results)))) seqNrs) validators (Ok results))"

section \<open>Nonces\<close>

definition observed_nonces :: "exec_ao list \<Rightarrow> (ChainSelector \<times> string, u64 list) gomap" where
  "observed_nonces observations =
     fold (\<lambda>ao. fold (\<lambda>(chain, nonces). fold (\<lambda>(sender, nonce). gm_append (chain, sender) nonce) nonces)
       (xob_Nonces (ao_Observation ao))) observations []"

definition computeNoncesConsensus :: "exec_ao list \<Rightarrow> int \<Rightarrow> NonceObservations result" where
  "computeNoncesConsensus observations fChainDest =
     fold (\<lambda>((chain, sender), nonces) r. rbind r (\<lambda>consensusNonces.
         if nonces = [] \<or> int (length nonces) \<le> fChainDest then Ok consensusNonces
         else rbind (slice_get (sort nonces) fChainDest) (\<lambda>consensusNonce.
              Ok (gm_put2 chain sender consensusNonce consensusNonces))))
       (observed_nonces observations) (Ok [])"

section \<open>The agreed observation\<close>

definition getConsensusFChain :: "exec_lib \<Rightarrow> exec_ao list \<Rightarrow> int \<Rightarrow> (ChainSelector, int) gomap" where
  "getConsensusFChain xl observations f =
     GetConsensusMap (xl_sum_int xl) (group_maps (map (\<lambda>ao. xob_FChain (ao_Observation ao)) observations))
       (MakeConstantThreshold (TwoFPlus1 f))"

definition computeConsensusObservation ::
  "exec_lib \<Rightarrow> exec_ao list \<Rightarrow> ChainSelector \<Rightarrow> int \<Rightarrow> exec_Observation result" where
  "computeConsensusObservation xl observations destChain f =
     (let fChain = getConsensusFChain xl observations f
      in case map_of fChain destChain of
           None \<Rightarrow> Error (Err ''destination chain is not in FChain'')
         | Some destFChain \<Rightarrow>
             rbind (computeTokenDataObservationsConsensus xl observations fChain) (\<lambda>tokenData.
             rbind (computeNoncesConsensus observations destFChain) (\<lambda>nonces.
             Ok (NewObservation (computeCommitObservationsConsensus observations fChain)
                   (computeMessageObservationsConsensus xl observations fChain) tokenData nonces dt_Observation_zero
                   (computeMessageHashesConsensus observations fChain)))))"

definition exec_decodeAttributedObservations ::
  "(byte list \<Rightarrow> exec_Observation result) \<Rightarrow> byte list AttributedObservation list \<Rightarrow> exec_ao list result" where
  "exec_decodeAttributedObservations decode aos =
     concat_r (\<lambda>ao. rbind (decode (ao_Observation ao)) (\<lambda>obs. Ok [\<lparr>ao_OracleID = ao_OracleID ao, ao_Observation = obs\<rparr>])) aos"

section \<open>base64 round trip\<close>

lemma b64_value_digit: "n < 64 \<Longrightarrow> b64_value (b64_digit n) = Some n"
proof -
  have "list_all (\<lambda>n. b64_value (b64_digit n) = Some n) [0 ..< 64]" by code_simp
  then show "n < 64 \<Longrightarrow> ?thesis" by (simp add: list_all_iff)
qed

lemma b64_value_pad: "b64_value (CHR ''='') = None"
  by code_simp

lemma byte_bounds: "unat (a :: byte) < 256"
  using unsigned_less [of a, where ?'a = nat] by simp

lemma b64_parts:
  fixes a b c :: byte
  shows "unat a div 4 < 64" "unat a mod 4 * 16 + unat b div 16 < 64" "unat a mod 4 * 16 < 64"
    "unat b mod 16 * 4 + unat c div 64 < 64" "unat b mod 16 * 4 < 64" "unat c mod 64 < 64"
  using byte_bounds [of a] byte_bounds [of b] byte_bounds [of c] by linarith+

lemma b64_split: "y < 16 \<Longrightarrow> (x * 16 + y) div 16 = (x :: nat)" "y < 16 \<Longrightarrow> (x * 16 + y) mod 16 = (y :: nat)"
  "y < 4 \<Longrightarrow> (x * 4 + y) div 4 = (x :: nat)" "y < 4 \<Longrightarrow> (x * 4 + y) mod 4 = (y :: nat)"
  by simp_all

lemma b64_high: "unat (b :: byte) div 16 < 16" "unat (b :: byte) div 64 < 4"
  using byte_bounds [of b] by (simp_all add: less_mult_imp_div_less)

lemma b64_join:
  fixes a b c :: byte
  shows "unat a div 4 * 4 + (unat a mod 4 * 16 + unat b div 16) div 16 = unat a"
    "unat a div 4 * 4 + (unat a mod 4 * 16) div 16 = unat a"
    "(unat a mod 4 * 16 + unat b div 16) mod 16 * 16 + (unat b mod 16 * 4 + unat c div 64) div 4 = unat b"
    "(unat a mod 4 * 16 + unat b div 16) mod 16 * 16 + (unat b mod 16 * 4) div 4 = unat b"
    "(unat b mod 16 * 4 + unat c div 64) mod 4 * 64 + unat c mod 64 = unat c"
  by (simp_all only: b64_split(1) [OF b64_high(1)] b64_split(2) [OF b64_high(1)] b64_split(3) [OF b64_high(2)] b64_split(4) [OF b64_high(2)] div_mult_mod_eq nonzero_mult_div_cancel_right
      zero_neq_numeral [symmetric] not_False_eq_True)

lemmas b64_steps = EncodeToString.simps DecodeString.simps b64_value_digit b64_parts b64_value_pad option.case prod.case
  simp_thms if_True rbind.simps b64_join

lemma DecodeString_EncodeToString: "DecodeString (EncodeToString bs) = Ok bs"
proof (induction bs rule: EncodeToString.induct)
  case (2 a)
  have "DecodeString (EncodeToString [a]) = Ok [of_nat (unat a)]" by (simp only: b64_steps)
  then show ?case by simp
next
  case (3 a b)
  have "DecodeString (EncodeToString [a, b]) = Ok [of_nat (unat a), of_nat (unat b)]" by (simp only: b64_steps)
  then show ?case by simp
next
  case (4 a b c rest)
  then have "DecodeString (EncodeToString (a # b # c # rest)) = Ok (of_nat (unat a) # of_nat (unat b) # of_nat (unat c) # rest)"
    by (simp only: b64_steps)
  then show ?case by simp
qed simp

section \<open>Counting\<close>

lemma gm_count_inc: "gm_count (gm_inc k m) k' = gm_count m k' + (if k' = k then 1 else 0)"
  by (simp add: gm_count_def gm_inc_def update_conv')

lemma gm_count_fold_inc: "gm_count (fold gm_inc xs m) k = gm_count m k + int (count_list xs k)"
  by (induction xs arbitrary: m) (simp_all add: gm_count_inc)

lemma gm_keys_fold_inc: "fst ` set (fold gm_inc xs m) = set xs \<union> fst ` set m"
  by (induction xs arbitrary: m) (auto simp: gm_inc_def gm_keys_put)

lemma gm_ok_fold_inc: "gm_ok m \<Longrightarrow> gm_ok (fold gm_inc xs m)"
  by (induction xs arbitrary: m) (simp_all add: gm_inc_def gm.ok_put)

lemma gm_entry_count: "gm_ok m \<Longrightarrow> (k, n) \<in> set m \<longleftrightarrow> k \<in> fst ` set m \<and> n = gm_count m k"
proof (cases "map_of m k")
  case (Some x)
  assume "gm_ok m"
  moreover have "k \<in> fst ` set m" using map_of_SomeD [OF Some] by force
  ultimately show ?thesis using Some by (auto simp: gm_get_iff [symmetric] gm_count_def)
next
  case None
  then show ?thesis by (force simp: map_of_eq_None_iff)
qed

lemma fold_concat_map: "fold f (concat (map g xs)) s = fold (\<lambda>x. fold f (g x)) xs s"
  by (induction xs arbitrary: s) simp_all

lemma gm_put_put: "gm_put k v (gm_put k w m) = gm_put k v m"
  by (induction m) auto

lemma gm_append_init: "gm_append k v (if map_of m k = None then gm_put k [] m else m) = gm_append k v m"
  by (simp add: gm_append_def gm_vals_def update_conv' gm_put_put)

section \<open>Agreed commit reports\<close>

text \<open>The votes in the order they are counted: the data voted for, and the messages seen executed.\<close>

definition root_votes :: "exec_Observation \<Rightarrow> (merkleRootData \<times> SeqNum list) list" where
  "root_votes obs = concat (map (\<lambda>(c, ds). map (\<lambda>d. (merkle_root_data c d, cd_ExecutedMessages d)) ds) (xob_CommitReports obs))"

definition all_root_votes :: "exec_ao list \<Rightarrow> (merkleRootData \<times> SeqNum list) list" where
  "all_root_votes aos = concat (map (\<lambda>ao. root_votes (ao_Observation ao)) aos)"

lemma aggregate_fold:
  "aggregateMerkleRootObservations aos =
     (fold gm_inc (map fst (all_root_votes aos)) [],
      fold (\<lambda>(mr, ex) e. gm_put mr (fold gm_inc (remdups ex) (gm_inner e mr)) e) (all_root_votes aos) [])"
proof -
  let ?step = "\<lambda>(mr, ex) (v, e). (gm_inc mr v, gm_put mr (fold gm_inc (remdups ex) (gm_inner e mr)) e)"
  have in2: "fold (\<lambda>d (v, e). let data = merkle_root_data c d
         in (gm_inc data v, gm_put data (fold gm_inc (remdups (cd_ExecutedMessages d)) (gm_inner e data)) e)) ds s =
       fold ?step (map (\<lambda>d. (merkle_root_data c d, cd_ExecutedMessages d)) ds) s" for c ds s
    by (induction ds arbitrary: s) (simp_all add: Let_def split: prod.splits)
  have "aggregateMerkleRootObservations aos = fold ?step (all_root_votes aos) ([], [])"
  proof -
    have "(\<lambda>x. fold ?step (case x of (c, ds) \<Rightarrow> map (\<lambda>d. (merkle_root_data c d, cd_ExecutedMessages d)) ds)) =
        (\<lambda>(c, ds). fold (\<lambda>d (v, e). let data = merkle_root_data c d
         in (gm_inc data v, gm_put data (fold gm_inc (remdups (cd_ExecutedMessages d)) (gm_inner e data)) e)) ds)"
      by (rule ext, clarify, rule ext) (simp only: prod.case in2)
    then show ?thesis
      unfolding aggregateMerkleRootObservations_def all_root_votes_def root_votes_def fold_concat_map by simp
  qed
  moreover have "fold ?step vs (v, e) = (fold gm_inc (map fst vs) v,
      fold (\<lambda>(mr, ex) e. gm_put mr (fold gm_inc (remdups ex) (gm_inner e mr)) e) vs e)" for vs v e
    by (induction vs arbitrary: v e) (simp_all split: prod.splits)
  ultimately show ?thesis by simp
qed

lemma gm_inner_put: "gm_inner (gm_put k v m) k' = (if k' = k then v else gm_inner m k')"
  by (simp add: gm_inner_def update_conv')

lemma executed_votes:
  fixes vs :: "(merkleRootData \<times> SeqNum list) list"
  defines "e \<equiv> fold (\<lambda>(mr, ex) e. gm_put mr (fold gm_inc (remdups ex) (gm_inner e mr)) e) vs []"
  shows "gm_ok (gm_inner e mr)"
    "gm_count (gm_inner e mr) n = int (length (filter (\<lambda>(mr', ex). mr' = mr \<and> n \<in> set ex) vs))"
    "fst ` set (gm_inner e mr) = {n. \<exists>ex. (mr, ex) \<in> set vs \<and> n \<in> set ex}"
  unfolding e_def
proof (induction vs rule: rev_induct)
  case Nil
  {
    case 1 show ?case by (simp add: gm_inner_def)
  next
    case 2 show ?case by (simp add: gm_inner_def gm_count_def)
  next
    case 3 show ?case by (simp add: gm_inner_def)
  }
next
  case (snoc v vs)
  obtain mr' ex where v: "v = (mr', ex)" by (cases v)
  note [simp] = v gm_inner_put
  have "count_list (remdups ex) n = (if n \<in> set ex then 1 else 0)" for n
    by (induction ex) auto
  {
    case 1 show ?case using snoc(1) by (auto intro: gm_ok_fold_inc)
  next
    case 2 show ?case using snoc(2) \<open>\<And>n. count_list (remdups ex) n = _\<close>
      by (cases "mr = mr'") (auto simp: gm_count_fold_inc)
  next
    case 3 show ?case using snoc(3) by (auto simp: v gm_inner_put gm_keys_fold_inc)
  }
qed

definition votes_for :: "exec_ao list \<Rightarrow> merkleRootData \<Rightarrow> int" where
  "votes_for aos mr = int (count_list (map fst (all_root_votes aos)) mr)"

definition executed_votes_for :: "exec_ao list \<Rightarrow> merkleRootData \<Rightarrow> SeqNum \<Rightarrow> int" where
  "executed_votes_for aos mr n = int (length (filter (\<lambda>(mr', ex). mr' = mr \<and> n \<in> set ex) (all_root_votes aos)))"

definition valid_root :: "exec_ao list \<Rightarrow> (ChainSelector, int) gomap \<Rightarrow> merkleRootData \<Rightarrow> bool" where
  "valid_root aos fChain mr \<longleftrightarrow> mr \<in> fst ` set (all_root_votes aos) \<and>
     (\<exists>f. map_of fChain (mrd_SourceChain mr) = Some f \<and> GteFPlusOne f (votes_for aos mr))"

definition commit_of :: "exec_ao list \<Rightarrow> int \<Rightarrow> merkleRootData \<Rightarrow> UnknownAddress \<Rightarrow> CommitData" where
  "commit_of aos f mr onRamp =
     \<lparr>cd_SourceChain = mrd_SourceChain mr, cd_OnRampAddress = onRamp, cd_Timestamp = mrd_Timestamp mr, cd_BlockNum = mrd_BlockNum mr,
      cd_MerkleRoot = mrd_MerkleRoot mr, cd_SequenceNumberRange = mrd_SequenceNumberRange mr,
      cd_ExecutedMessages = sorted_list_of_set {n. (\<exists>ex. (mr, ex) \<in> set (all_root_votes aos) \<and> n \<in> set ex) \<and>
         \<not> LtFPlusOne f (executed_votes_for aos mr n)},
      cd_Messages = [], cd_Hashes = [], cd_MessageTokenData = []\<rparr>"

lemma root_vote_onramp: "mr \<in> fst ` set (all_root_votes aos) \<Longrightarrow> \<exists>a. mrd_OnRampAddressBase64 mr = EncodeToString a"
  by (auto simp: all_root_votes_def root_votes_def merkle_root_data_def)

lemma sort_executed:
  assumes "gm_ok m"
  shows "sort (map fst (filter (\<lambda>(_, count). P count) m)) = sorted_list_of_set {n \<in> fst ` set m. P (gm_count m n)}"
proof -
  let ?xs = "map fst (filter (\<lambda>(_, count). P count) m)"
  have "distinct ?xs" using assms by (simp add: gm_ok_def distinct_map_filter)
  then have "sort ?xs = sorted_list_of_set (set ?xs)" by (simp add: sorted_list_of_set_sort_remdups distinct_remdups_id del: set_map)
  moreover have "set ?xs = {n \<in> fst ` set m. P (gm_count m n)}"
    using gm_entry_count [OF assms] by (auto simp: image_iff)
  ultimately show ?thesis by simp
qed

lemma count_key_one:
  assumes "distinct xs" "x \<in> set xs"
  shows "count_list (map key xs) (key x) = 1 \<longleftrightarrow> (\<forall>y \<in> set xs. key y = key x \<longrightarrow> y = x)"
proof -
  let ?S = "{y \<in> set xs. key y = key x}"
  have "count_list (map key xs) (key x) = card ?S"
    using assms(1) distinct_card [of "filter (\<lambda>y. key y = key x) xs"]
    by (simp add: count_list_eq_length_filter filter_map comp_def eq_commute)
  moreover have "card ?S = 1 \<longleftrightarrow> ?S = {x}"
  proof
    assume "card ?S = 1"
    then obtain a where "?S = {a}" by (rule card_1_singletonE)
    moreover have "x \<in> ?S" using assms(2) by simp
    ultimately show "?S = {x}" by (simp only: singleton_iff)
  next
    assume "?S = {x}"
    then show "card ?S = 1" by simp
  qed
  ultimately show ?thesis using assms(2) by auto
qed

lemma fold_gm_append:
  "(\<And>x m. x \<in> set xs \<Longrightarrow> p x m = gm_append (k x) (v x) m) \<Longrightarrow> fold p xs m = group_append (map (\<lambda>x. (k x, v x)) xs) m"
  by (induction xs arbitrary: m) (simp_all add: group_append_def)

text \<open>The exact result: under a chain, sorted by start, the data with enough votes whose root no other such data has.\<close>

lemma computeCommitObservationsConsensus_exact:
  "\<exists>roots. distinct roots \<and> set roots = {mr. valid_root aos fChain mr \<and>
       (\<forall>mr'. valid_root aos fChain mr' \<and> mrd_MerkleRoot mr' = mrd_MerkleRoot mr \<longrightarrow> mr' = mr)} \<and>
     gm_ok (computeCommitObservationsConsensus aos fChain) \<and>
     (\<forall>c. gm_vals (computeCommitObservationsConsensus aos fChain) c = sort_key (\<lambda>d. sr_Start (rng d))
        (map (\<lambda>mr. commit_of aos (the (map_of fChain (mrd_SourceChain mr))) mr (case DecodeString (mrd_OnRampAddressBase64 mr) of Ok a \<Rightarrow> a | _ \<Rightarrow> []))
          (filter (\<lambda>mr. mrd_SourceChain mr = c) roots)))"
proof -
  let ?vs = "all_root_votes aos"
  let ?V = "fold gm_inc (map fst ?vs) []"
  let ?E = "fold (\<lambda>(mr, ex) e. gm_put mr (fold gm_inc (remdups ex) (gm_inner e mr)) e) ?vs []"
  let ?valid = "map fst (filter (\<lambda>(mr, votes). case map_of fChain (mrd_SourceChain mr) of
              None \<Rightarrow> False | Some f \<Rightarrow> GteFPlusOne f votes) ?V)"
  let ?seen = "fold (\<lambda>mr. gm_inc (mrd_MerkleRoot mr)) ?valid []"
  let ?roots = "filter (\<lambda>mr. gm_count ?seen (mrd_MerkleRoot mr) = 1) ?valid"
  let ?addr = "\<lambda>mr. case DecodeString (mrd_OnRampAddressBase64 mr) of Ok a \<Rightarrow> a | _ \<Rightarrow> []"
  let ?cd = "\<lambda>mr. commit_of aos (the (map_of fChain (mrd_SourceChain mr))) mr (?addr mr)"
  have V: "gm_ok ?V" "fst ` set ?V = fst ` set ?vs" "\<And>mr. gm_count ?V mr = votes_for aos mr"
    using gm_keys_fold_inc [of "map fst ?vs" "[]"]
    by (simp_all add: gm_ok_fold_inc gm_count_fold_inc votes_for_def gm_count_def [of "[]"])
  have dv: "distinct ?valid" using V(1) by (simp add: gm_ok_def distinct_map_filter)
  have sv: "set ?valid = {mr. valid_root aos fChain mr}"
  proof -
    have "mr \<in> set ?valid \<longleftrightarrow> valid_root aos fChain mr" for mr
    proof -
      have "mr \<in> set ?valid \<longleftrightarrow> (\<exists>n. (mr, n) \<in> set ?V \<and> (\<exists>f. map_of fChain (mrd_SourceChain mr) = Some f \<and> GteFPlusOne f n))"
        by (force split: option.splits)
      then show ?thesis by (simp only: gm_entry_count [OF V(1)] V(2,3) valid_root_def) blast
    qed
    then show ?thesis by blast
  qed
  have seen: "gm_count ?seen r = int (count_list (map mrd_MerkleRoot ?valid) r)" for r
    using gm_count_fold_inc [of "map mrd_MerkleRoot ?valid" "[]" r] by (simp add: fold_map comp_def gm_count_def [of "[]"])
  have roots: "set ?roots = {mr. valid_root aos fChain mr \<and>
       (\<forall>mr'. valid_root aos fChain mr' \<and> mrd_MerkleRoot mr' = mrd_MerkleRoot mr \<longrightarrow> mr' = mr)}"
    using count_key_one [OF dv, of _ mrd_MerkleRoot] unfolding set_filter seen sv by auto
  let ?put = "\<lambda>mr result. case map_of fChain (mrd_SourceChain mr) of
                None \<Rightarrow> result
              | Some f \<Rightarrow>
                  let executedMessages = sort (map fst (filter (\<lambda>(_, count). \<not> LtFPlusOne f count) (gm_inner ?E mr)));
                      result = (if map_of result (mrd_SourceChain mr) = None then gm_put (mrd_SourceChain mr) [] result else result)
                  in case DecodeString (mrd_OnRampAddressBase64 mr) of
                       Ok onRampAddress \<Rightarrow>
                         gm_append (mrd_SourceChain mr)
                           \<lparr>cd_SourceChain = mrd_SourceChain mr, cd_OnRampAddress = onRampAddress, cd_Timestamp = mrd_Timestamp mr,
                            cd_BlockNum = mrd_BlockNum mr, cd_MerkleRoot = mrd_MerkleRoot mr,
                            cd_SequenceNumberRange = mrd_SequenceNumberRange mr, cd_ExecutedMessages = executedMessages,
                            cd_Messages = [], cd_Hashes = [], cd_MessageTokenData = []\<rparr> result
                     | _ \<Rightarrow> result"
  have put: "?put mr result = gm_append (mrd_SourceChain mr) (?cd mr) result" if "mr \<in> set ?roots" for mr result
  proof -
    have v: "valid_root aos fChain mr" using that sv by auto
    then obtain f a where f: "map_of fChain (mrd_SourceChain mr) = Some f" "mrd_OnRampAddressBase64 mr = EncodeToString a"
      using root_vote_onramp [of mr aos] unfolding valid_root_def by blast
    have "sort (map fst (filter (\<lambda>(_, count). \<not> LtFPlusOne f count) (gm_inner ?E mr))) = cd_ExecutedMessages (?cd mr)"
      using sort_executed [OF executed_votes(1) [where vs = ?vs and mr = mr], of "\<lambda>n. \<not> LtFPlusOne f n"]
      by (simp add: executed_votes commit_of_def executed_votes_for_def f(1))
    then show ?thesis
      unfolding f option.case DecodeString_EncodeToString result.case Let_def gm_append_init by (simp add: commit_of_def f(1))
  qed
  have "fold ?put ?roots [] = group_append (map (\<lambda>mr. (mrd_SourceChain mr, ?cd mr)) ?roots) []"
    by (rule fold_gm_append) (rule put)
  then have res: "computeCommitObservationsConsensus aos fChain = map (\<lambda>(c, mr). (c, sort_key (\<lambda>d. sr_Start (rng d)) mr))
      (group_append (map (\<lambda>mr. (mrd_SourceChain mr, ?cd mr)) ?roots) [])"
    unfolding computeCommitObservationsConsensus_def aggregate_fold Let_def prod.case by (simp only:)
  let ?g = "group_append (map (\<lambda>mr. (mrd_SourceChain mr, ?cd mr)) ?roots) []"
  have "gm_ok (computeCommitObservationsConsensus aos fChain)"
    using gm_ok_group_append [of "[]"] by (simp add: res gm_ok_def comp_def case_prod_unfold)
  moreover have "gm_vals (computeCommitObservationsConsensus aos fChain) c =
      sort_key (\<lambda>d. sr_Start (rng d)) (map ?cd (filter (\<lambda>mr. mrd_SourceChain mr = c) ?roots))" for c
  proof -
    have "gm_vals (computeCommitObservationsConsensus aos fChain) c = sort_key (\<lambda>d. sr_Start (rng d)) (gm_vals ?g c)"
      unfolding res gm_vals_def map_of_map by (simp split: option.splits)
    also have "gm_vals ?g c = map ?cd (filter (\<lambda>mr. mrd_SourceChain mr = c) ?roots)"
      by (simp add: gm_vals_group_append gm_vals_def [of "[]"] filter_map comp_def)
    finally show ?thesis .
  qed
  ultimately show ?thesis using roots dv by (intro exI [of _ ?roots]) (simp only: distinct_filter, blast)
qed

text \<open>A commit report as an oracle observed it, and the checks of \<open>validateObservedSequenceNumbers\<close> that bound its votes.\<close>

definition same_root :: "CommitData \<Rightarrow> CommitData \<Rightarrow> bool" where
  "same_root d e \<longleftrightarrow> cd_OnRampAddress d = cd_OnRampAddress e \<and> cd_Timestamp d = cd_Timestamp e \<and> cd_BlockNum d = cd_BlockNum e \<and>
     cd_MerkleRoot d = cd_MerkleRoot e \<and> rng d = rng e"

definition one_vote_per_root :: "exec_ao \<Rightarrow> bool" where
  "one_vote_per_root ao \<longleftrightarrow> gm_ok (xob_CommitReports (ao_Observation ao)) \<and>
     (\<forall>(c, ds) \<in> set (xob_CommitReports (ao_Observation ao)). distinct (map cd_MerkleRoot ds))"

abbreviation reports_of :: "exec_ao \<Rightarrow> ChainSelector \<Rightarrow> CommitData list" where
  "reports_of ao c \<equiv> gm_vals (xob_CommitReports (ao_Observation ao)) c"

lemma EncodeToString_inj: "EncodeToString a = EncodeToString b \<longleftrightarrow> a = b"
  by (metis DecodeString_EncodeToString result.inject(1))

lemma merkle_root_data_eq: "merkle_root_data c d = merkle_root_data c' e \<longleftrightarrow> c = c' \<and> same_root d e"
  by (auto simp: merkle_root_data_def same_root_def EncodeToString_inj)

lemma count_list_distinct: "distinct xs \<Longrightarrow> count_list xs x = (if x \<in> set xs then 1 else 0)"
  by (induction xs) auto

lemma root_votes_member:
  assumes "one_vote_per_root ao"
  shows "(mr, ex) \<in> set (root_votes (ao_Observation ao)) \<longleftrightarrow>
    (\<exists>d \<in> set (reports_of ao (mrd_SourceChain mr)). merkle_root_data (mrd_SourceChain mr) d = mr \<and> ex = cd_ExecutedMessages d)"
proof -
  have ok: "gm_ok (xob_CommitReports (ao_Observation ao))" using assms by (simp add: one_vote_per_root_def)
  have c: "mrd_SourceChain (merkle_root_data c d) = c" for c d by (simp add: merkle_root_data_def)
  have "(mr, ex) \<in> set (root_votes (ao_Observation ao)) \<longleftrightarrow> (\<exists>c ds d. (c, ds) \<in> set (xob_CommitReports (ao_Observation ao)) \<and>
      d \<in> set ds \<and> mr = merkle_root_data c d \<and> ex = cd_ExecutedMessages d)"
    unfolding root_votes_def by fastforce
  also have "\<dots> \<longleftrightarrow> (\<exists>c d. d \<in> set (reports_of ao c) \<and> mr = merkle_root_data c d \<and> ex = cd_ExecutedMessages d)"
    unfolding gm_vals_entry [OF ok] by blast
  also have "\<dots> \<longleftrightarrow> (\<exists>d \<in> set (reports_of ao (mrd_SourceChain mr)). merkle_root_data (mrd_SourceChain mr) d = mr \<and> ex = cd_ExecutedMessages d)"
    using c by metis
  finally show ?thesis .
qed

lemma root_votes_distinct:
  assumes "one_vote_per_root ao"
  shows "distinct (map fst (root_votes (ao_Observation ao)))"
proof -
  have "distinct (map fst (concat (map (\<lambda>(c, ds). map (\<lambda>d. (merkle_root_data c d, cd_ExecutedMessages d)) ds) m)))"
    if "gm_ok m" "\<forall>(c, ds) \<in> set m. distinct (map cd_MerkleRoot ds)" for m
    using that
  proof (induction m)
    case (Cons p m)
    obtain c ds where p: "p = (c, ds)" by (cases p)
    have "distinct (map (merkle_root_data c) ds)"
      using Cons.prems(2) by (simp add: p distinct_map inj_on_def merkle_root_data_eq same_root_def)
    moreover have "c \<notin> fst ` set m" "gm_ok m" using Cons.prems(1) by (simp_all add: p gm_ok_def)
    ultimately show ?case using Cons.IH Cons.prems(2) by (force simp: p comp_def merkle_root_data_eq)
  qed simp
  with assms show ?thesis by (simp add: root_votes_def one_vote_per_root_def)
qed

lemma votes_bound:
  assumes "\<forall>ao \<in> set aos. one_vote_per_root ao"
  shows "votes_for aos mr = int (length (filter (\<lambda>ao. \<exists>d \<in> set (reports_of ao (mrd_SourceChain mr)).
      merkle_root_data (mrd_SourceChain mr) d = mr) aos))"
    "executed_votes_for aos mr n \<le> int (length (filter (\<lambda>ao. \<exists>d \<in> set (reports_of ao (mrd_SourceChain mr)).
      merkle_root_data (mrd_SourceChain mr) d = mr \<and> n \<in> set (cd_ExecutedMessages d)) aos))"
  using assms
proof (induction aos)
  case Nil
  {
    case 1 show ?case by (simp add: votes_for_def all_root_votes_def)
  next
    case 2 show ?case by (simp add: executed_votes_for_def all_root_votes_def)
  }
next
  case (Cons ao aos)
  let ?vs = "root_votes (ao_Observation ao)"
  {
    case 1
    then have ao: "one_vote_per_root ao" and rest: "\<forall>ao \<in> set aos. one_vote_per_root ao" by simp_all
    have "count_list (map fst ?vs) mr = (if mr \<in> fst ` set ?vs then 1 else 0)"
      using count_list_distinct [OF root_votes_distinct [OF ao]] by simp
    moreover have "mr \<in> fst ` set ?vs \<longleftrightarrow> (\<exists>d \<in> set (reports_of ao (mrd_SourceChain mr)). merkle_root_data (mrd_SourceChain mr) d = mr)"
    proof -
      have "mr \<in> fst ` set ?vs \<longleftrightarrow> (\<exists>ex. (mr, ex) \<in> set ?vs)" by force
      then show ?thesis unfolding root_votes_member [OF ao] by blast
    qed
    ultimately show ?case using Cons(1) [OF rest] by (simp add: votes_for_def all_root_votes_def)
  next
    case 2
    then have ao: "one_vote_per_root ao" and rest: "\<forall>ao \<in> set aos. one_vote_per_root ao" by simp_all
    let ?P = "\<lambda>(mr', ex). mr' = mr \<and> n \<in> set ex"
    have "length (filter ?P ?vs) \<le> 1"
    proof -
      have "distinct (map fst (filter ?P ?vs))" using root_votes_distinct [OF ao] by (rule distinct_map_filter)
      moreover have "set (map fst (filter ?P ?vs)) \<subseteq> {mr}" by auto
      ultimately show ?thesis using card_mono [of "{mr}" "set (map fst (filter ?P ?vs))"] by (simp add: distinct_card del: set_map)
    qed
    moreover have "filter ?P ?vs \<noteq> [] \<Longrightarrow> \<exists>d \<in> set (reports_of ao (mrd_SourceChain mr)).
        merkle_root_data (mrd_SourceChain mr) d = mr \<and> n \<in> set (cd_ExecutedMessages d)"
    proof -
      assume "filter ?P ?vs \<noteq> []"
      then have "\<exists>ex. (mr, ex) \<in> set ?vs \<and> n \<in> set ex" by (auto simp: filter_empty_conv)
      then show ?thesis unfolding root_votes_member [OF ao] by blast
    qed
    ultimately show ?case using Cons(2) [OF rest]
      by (cases "filter ?P ?vs = []") (auto simp: executed_votes_for_def all_root_votes_def)
  }
qed

abbreviation reporters :: "exec_ao list \<Rightarrow> merkleRootData \<Rightarrow> exec_ao list" where
  "reporters aos mr \<equiv> filter (\<lambda>ao. \<exists>d \<in> set (reports_of ao (mrd_SourceChain mr)). merkle_root_data (mrd_SourceChain mr) d = mr) aos"

lemma valid_root_iff:
  assumes "\<forall>ao \<in> set aos. one_vote_per_root ao" "\<forall>c f. map_of fChain c = Some f \<longrightarrow> 0 \<le> f \<and> f < 2 ^ 62"
  shows "valid_root aos fChain mr \<longleftrightarrow> (\<exists>f. map_of fChain (mrd_SourceChain mr) = Some f \<and> f < int (length (reporters aos mr)))"
proof -
  have "mr \<in> fst ` set (all_root_votes aos) \<longleftrightarrow> 0 < votes_for aos mr"
    using count_list_0_iff [of "map fst (all_root_votes aos)" mr] by (auto simp: votes_for_def)
  moreover have gte: "GteFPlusOne f (votes_for aos mr) \<longleftrightarrow> f < votes_for aos mr" "0 \<le> f" if "map_of fChain c = Some f" for c f
    using assms(2) that less_plus_one_small(2) by blast+
  ultimately have "valid_root aos fChain mr \<longleftrightarrow> (\<exists>f. map_of fChain (mrd_SourceChain mr) = Some f \<and> f < votes_for aos mr)"
    unfolding valid_root_def using order_le_less_trans by (cases "map_of fChain (mrd_SourceChain mr)") (simp_all, blast)
  then show ?thesis by (simp add: votes_bound(1) [OF assms(1)])
qed

lemma agreed_commit:
  assumes "d \<in> set (gm_vals (computeCommitObservationsConsensus aos fChain) c)"
  obtains mr f a where "valid_root aos fChain mr" "mrd_SourceChain mr = c" "map_of fChain c = Some f"
    "mrd_OnRampAddressBase64 mr = EncodeToString a" "d = commit_of aos f mr a"
proof -
  from assms computeCommitObservationsConsensus_exact [of aos fChain] obtain mr where
    mr: "valid_root aos fChain mr" "mrd_SourceChain mr = c"
      "d = commit_of aos (the (map_of fChain c)) mr (case DecodeString (mrd_OnRampAddressBase64 mr) of Ok a \<Rightarrow> a | _ \<Rightarrow> [])"
    by auto
  moreover from mr(1) obtain f a where "map_of fChain (mrd_SourceChain mr) = Some f" "mrd_OnRampAddressBase64 mr = EncodeToString a"
    using root_vote_onramp [of mr aos] unfolding valid_root_def by blast
  ultimately show thesis using that [of mr f a] by (simp add: DecodeString_EncodeToString)
qed

lemma commit_of_same_root:
  assumes "merkle_root_data c e = mr" "mrd_OnRampAddressBase64 mr = EncodeToString a"
  shows "same_root (commit_of aos f mr a) e"
  using assms by (auto simp: same_root_def commit_of_def merkle_root_data_def EncodeToString_inj)

lemma commit_consensus_backed:
  assumes "mset aos = mset hs + mset bs" "\<forall>ao \<in> set aos. one_vote_per_root ao"
    and f: "\<forall>c f. map_of fChain c = Some f \<longrightarrow> int (length bs) \<le> f \<and> f < 2 ^ 62"
    and "d \<in> set (gm_vals (computeCommitObservationsConsensus aos fChain) c)"
  shows "cd_SourceChain d = c" "\<exists>h \<in> set hs. \<exists>e \<in> set (reports_of h c). same_root d e"
    "n \<in> set (cd_ExecutedMessages d) \<Longrightarrow> \<exists>h \<in> set hs. \<exists>e \<in> set (reports_of h c). same_root d e \<and> n \<in> set (cd_ExecutedMessages e)"
proof -
  from assms(4) obtain mr g a where mr: "valid_root aos fChain mr" "mrd_SourceChain mr = c" "map_of fChain c = Some g"
    "mrd_OnRampAddressBase64 mr = EncodeToString a" "d = commit_of aos g mr a" by (rule agreed_commit)
  have f0: "\<forall>c f. map_of fChain c = Some f \<longrightarrow> 0 \<le> f \<and> f < 2 ^ 62" using f by force
  have g: "0 \<le> g" "g < 2 ^ 62" "int (length bs) \<le> g" using f mr(3) by force+
  show "cd_SourceChain d = c" by (simp add: mr(2,5) commit_of_def)
  have same: "merkle_root_data c e = mr \<Longrightarrow> same_root d e" for e
    unfolding mr(5) by (rule commit_of_same_root [OF _ mr(4)])
  from mr(1) have "g < int (length (reporters aos mr))" using valid_root_iff [OF assms(2) f0] mr(2,3) by simp
  then obtain h where "h \<in> set hs" "\<exists>e \<in> set (reports_of h c). merkle_root_data c e = mr"
    using filter_outvotes [OF assms(1), of "\<lambda>ao. \<exists>e \<in> set (reports_of ao c). merkle_root_data c e = mr"] g(3) mr(2) by auto
  with same show "\<exists>h \<in> set hs. \<exists>e \<in> set (reports_of h c). same_root d e" by blast
  assume "n \<in> set (cd_ExecutedMessages d)"
  then have "\<not> LtFPlusOne g (executed_votes_for aos mr n)" by (simp add: mr(5) commit_of_def)
  then have "g < executed_votes_for aos mr n" using less_plus_one_small(1) [OF g(1,2)] by simp
  then have "length bs < length (filter (\<lambda>ao. \<exists>e \<in> set (reports_of ao c). merkle_root_data c e = mr \<and> n \<in> set (cd_ExecutedMessages e)) aos)"
    using votes_bound(2) [OF assms(2), of mr n] g(3) mr(2) by simp
  from filter_outvotes [OF assms(1) this] same
  show "\<exists>h \<in> set hs. \<exists>e \<in> set (reports_of h c). same_root d e \<and> n \<in> set (cd_ExecutedMessages e)" by blast
qed

lemma commit_consensus_unique:
  "distinct (map cd_MerkleRoot (gm_vals (computeCommitObservationsConsensus aos fChain) c))"
  "sorted (map (\<lambda>d. sr_Start (rng d)) (gm_vals (computeCommitObservationsConsensus aos fChain) c))"
proof -
  let ?cd = "\<lambda>mr. commit_of aos (the (map_of fChain (mrd_SourceChain mr))) mr (case DecodeString (mrd_OnRampAddressBase64 mr) of Ok a \<Rightarrow> a | _ \<Rightarrow> [])"
  obtain roots where roots: "distinct roots" "set roots = {mr. valid_root aos fChain mr \<and>
       (\<forall>mr'. valid_root aos fChain mr' \<and> mrd_MerkleRoot mr' = mrd_MerkleRoot mr \<longrightarrow> mr' = mr)}"
    and vals: "gm_vals (computeCommitObservationsConsensus aos fChain) c =
      sort_key (\<lambda>d. sr_Start (rng d)) (map ?cd (filter (\<lambda>mr. mrd_SourceChain mr = c) roots))"
    using computeCommitObservationsConsensus_exact [of aos fChain] by blast
  have "inj_on mrd_MerkleRoot (set roots)" using roots(2) by (auto intro!: inj_onI)
  then have "distinct (map mrd_MerkleRoot (filter (\<lambda>mr. mrd_SourceChain mr = c) roots))"
    using roots(1) by (simp add: distinct_map inj_on_def)
  moreover have "cd_MerkleRoot (?cd mr) = mrd_MerkleRoot mr" for mr by (simp add: commit_of_def)
  ultimately show "distinct (map cd_MerkleRoot (gm_vals (computeCommitObservationsConsensus aos fChain) c))"
    by (simp add: vals distinct_map_sort_key comp_def)
  show "sorted (map (\<lambda>d. sr_Start (rng d)) (gm_vals (computeCommitObservationsConsensus aos fChain) c))" by (simp add: vals)
qed

lemma commit_consensus_live:
  assumes "mset aos = mset hs + mset bs" "\<forall>ao \<in> set aos. one_vote_per_root ao"
    and f: "\<forall>c f. map_of fChain c = Some f \<longrightarrow> int (length bs) \<le> f \<and> f < 2 ^ 62"
    and "map_of fChain c = Some g" "g < int (length (filter (\<lambda>ao. \<exists>d \<in> set (reports_of ao c). same_root d e) aos))"
    and agree: "\<forall>h \<in> set hs. \<forall>c'. \<forall>d \<in> set (reports_of h c'). cd_MerkleRoot d = cd_MerkleRoot e \<longrightarrow> c' = c \<and> same_root d e"
  shows "\<exists>d \<in> set (gm_vals (computeCommitObservationsConsensus aos fChain) c). same_root d e"
proof -
  let ?mr = "merkle_root_data c e"
  have f0: "\<forall>c f. map_of fChain c = Some f \<longrightarrow> 0 \<le> f \<and> f < 2 ^ 62" using f by force
  have c: "mrd_SourceChain ?mr = c" "mrd_MerkleRoot ?mr = cd_MerkleRoot e" by (simp_all add: merkle_root_data_def)
  have "valid_root aos fChain ?mr"
    using assms(4,5) by (simp add: valid_root_iff [OF assms(2) f0] c merkle_root_data_eq)
  moreover have "mr' = ?mr" if v: "valid_root aos fChain mr'" "mrd_MerkleRoot mr' = mrd_MerkleRoot ?mr" for mr'
  proof -
    let ?c = "mrd_SourceChain mr'"
    from v(1) obtain f' where f': "map_of fChain ?c = Some f'" "f' < int (length (reporters aos mr'))"
      using valid_root_iff [OF assms(2) f0] by blast
    with f have "int (length bs) \<le> f'" by blast
    with f'(2) obtain h where "h \<in> set hs" "\<exists>d \<in> set (reports_of h ?c). merkle_root_data ?c d = mr'"
      using filter_outvotes [OF assms(1), of "\<lambda>ao. \<exists>d \<in> set (reports_of ao ?c). merkle_root_data ?c d = mr'"] by auto
    then obtain d where d: "d \<in> set (reports_of h ?c)" "merkle_root_data ?c d = mr'" by blast
    then have "cd_MerkleRoot d = cd_MerkleRoot e" 
    proof -
      have "mrd_MerkleRoot (merkle_root_data ?c d) = cd_MerkleRoot d" by (simp add: merkle_root_data_def)
      with d(2) v(2) c(2) show ?thesis by simp
    qed
    with agree \<open>h \<in> set hs\<close> d(1) have "?c = c" "same_root d e" by blast+
    then show ?thesis using d(2) merkle_root_data_eq [of c d c e] by simp
  qed
  moreover obtain roots where r: "set roots = {mr. valid_root aos fChain mr \<and>
       (\<forall>mr'. valid_root aos fChain mr' \<and> mrd_MerkleRoot mr' = mrd_MerkleRoot mr \<longrightarrow> mr' = mr)}"
    and vals: "gm_vals (computeCommitObservationsConsensus aos fChain) c = sort_key (\<lambda>d. sr_Start (rng d))
        (map (\<lambda>mr. commit_of aos (the (map_of fChain (mrd_SourceChain mr))) mr (case DecodeString (mrd_OnRampAddressBase64 mr) of Ok a \<Rightarrow> a | _ \<Rightarrow> []))
          (filter (\<lambda>mr. mrd_SourceChain mr = c) roots))"
    using computeCommitObservationsConsensus_exact [of aos fChain] by blast
  ultimately have "?mr \<in> {mr \<in> set roots. mrd_SourceChain mr = c}" using c(1) by blast
  then have "commit_of aos (the (map_of fChain (mrd_SourceChain ?mr))) ?mr (case DecodeString (mrd_OnRampAddressBase64 ?mr) of Ok a \<Rightarrow> a | _ \<Rightarrow> [])
      \<in> set (gm_vals (computeCommitObservationsConsensus aos fChain) c)"
    unfolding vals set_sort set_map set_filter by (rule imageI)
  then have "commit_of aos g ?mr (cd_OnRampAddress e) \<in> set (gm_vals (computeCommitObservationsConsensus aos fChain) c)"
    unfolding c(1) assms(4) by (simp add: merkle_root_data_def DecodeString_EncodeToString)
  moreover have "same_root (commit_of aos g ?mr (cd_OnRampAddress e)) e"
    by (rule commit_of_same_root [OF refl]) (simp add: merkle_root_data_def)
  ultimately show ?thesis by blast
qed

text \<open>C9. At most as many faulty oracles as the smallest fault bound. Every agreed commit report was observed by an honest oracle
  under its chain with the same on-ramp, timestamp, block, root and range; every message it marks as executed was seen executed
  by an honest oracle in that report; under a chain the reports are sorted by their start and have distinct roots. A report
  that more oracles observe than the bound of its chain is agreed, if all honest oracles that see its root see this report.\<close>

theorem commit_consensus_honest:
  assumes "mset aos = mset hs + mset bs" "\<forall>ao \<in> set aos. one_vote_per_root ao"
    and "\<forall>c f. map_of fChain c = Some f \<longrightarrow> int (length bs) \<le> f \<and> f < 2 ^ 62"
  shows "(\<forall>c. \<forall>d \<in> set (gm_vals (computeCommitObservationsConsensus aos fChain) c). cd_SourceChain d = c \<and>
      (\<exists>h \<in> set hs. \<exists>e \<in> set (reports_of h c). same_root d e) \<and>
      (\<forall>n \<in> set (cd_ExecutedMessages d). \<exists>h \<in> set hs. \<exists>e \<in> set (reports_of h c). same_root d e \<and> n \<in> set (cd_ExecutedMessages e))) \<and>
    (\<forall>c. distinct (map cd_MerkleRoot (gm_vals (computeCommitObservationsConsensus aos fChain) c)) \<and>
      sorted (map (\<lambda>d. sr_Start (rng d)) (gm_vals (computeCommitObservationsConsensus aos fChain) c))) \<and>
    (\<forall>c f e. map_of fChain c = Some f \<longrightarrow> f < int (length (filter (\<lambda>ao. \<exists>d \<in> set (reports_of ao c). same_root d e) aos)) \<longrightarrow>
      (\<forall>h \<in> set hs. \<forall>c'. \<forall>d \<in> set (reports_of h c'). cd_MerkleRoot d = cd_MerkleRoot e \<longrightarrow> c' = c \<and> same_root d e) \<longrightarrow>
      (\<exists>d \<in> set (gm_vals (computeCommitObservationsConsensus aos fChain) c). same_root d e))"
  by (intro conjI allI impI ballI)
    (use commit_consensus_backed [OF assms] commit_consensus_unique [of aos fChain] commit_consensus_live [OF assms] in blast)+

definition sample_exec_obs :: "CommitData list \<Rightarrow> exec_Observation" where
  "sample_exec_obs ds = exec_Observation_zero\<lparr>xob_CommitReports := [(5, ds)]\<rparr>"

definition sample_exec_aos :: "exec_ao list" where
  "sample_exec_aos =
     [\<lparr>ao_OracleID = 0, ao_Observation = sample_exec_obs [(sample_cd 5 40 1 4 [7])\<lparr>cd_ExecutedMessages := [2]\<rparr>]\<rparr>,
      \<lparr>ao_OracleID = 1, ao_Observation = sample_exec_obs [(sample_cd 5 40 1 4 [7])\<lparr>cd_ExecutedMessages := [2, 3]\<rparr>]\<rparr>,
      \<lparr>ao_OracleID = 2, ao_Observation = sample_exec_obs [sample_cd 5 40 1 9 [7]]\<rparr>]"

theorem commit_consensus_honest_witness:
  "computeCommitObservationsConsensus sample_exec_aos [(5, 1)] = [(5, [(sample_cd 5 40 1 4 [7])\<lparr>cd_ExecutedMessages := [2]\<rparr>])] \<and>
   (\<exists>h \<in> set (take 2 sample_exec_aos). \<exists>e \<in> set (reports_of h 5). same_root (sample_cd 5 40 1 4 [7]) e)"
proof -
  have res: "computeCommitObservationsConsensus sample_exec_aos [(5, 1)] = [(5, [(sample_cd 5 40 1 4 [7])\<lparr>cd_ExecutedMessages := [2]\<rparr>])]"
    by code_simp
  have "mset sample_exec_aos = mset (take 2 sample_exec_aos) + mset (drop 2 sample_exec_aos)"
    by (simp flip: mset_append)
  moreover have "\<forall>ao \<in> set sample_exec_aos. one_vote_per_root ao"
    by (simp add: sample_exec_aos_def one_vote_per_root_def sample_exec_obs_def gm_ok_def)
  moreover have "\<forall>c f. map_of [(5 :: ChainSelector, 1 :: int)] c = Some f \<longrightarrow> int (length (drop 2 sample_exec_aos)) \<le> f \<and> f < 2 ^ 62"
    by (simp add: sample_exec_aos_def)
  moreover have "(sample_cd 5 40 1 4 [7])\<lparr>cd_ExecutedMessages := [2]\<rparr> \<in> set (gm_vals (computeCommitObservationsConsensus sample_exec_aos [(5, 1)]) 5)"
    unfolding res by (simp add: gm_vals_def)
  ultimately have "\<exists>h \<in> set (take 2 sample_exec_aos). \<exists>e \<in> set (reports_of h 5). same_root ((sample_cd 5 40 1 4 [7])\<lparr>cd_ExecutedMessages := [2]\<rparr>) e"
    using commit_consensus_honest [of sample_exec_aos "take 2 sample_exec_aos" "drop 2 sample_exec_aos" "[(5, 1)]"] by blast
  then show ?thesis using res by (simp add: same_root_def sample_cd_def)
qed

end
