(* ===== verification/ExecBuilder.thy ===== *)
theory ExecBuilder
  imports ExecConsensus
begin

text \<open>
  The report builder of the execute plugin (execute/report) and \<open>selectReports\<close> (execute/plugin.go): checking the
  messages of commit reports, building chain reports with their merkle proofs, and cutting them into execute
  reports within the limits of the builder; what the checks guarantee of a message, and what a chain report consists of.

  The builder is a record; a method gives back its result and the builder it leaves behind. Slices are
  values: the model does not share the backing array of \<open>ExecutedMessages\<close> between two commit reports.
\<close>

section \<open>The interfaces the builder is given\<close>

text \<open>\<open>ExecutePluginCodec\<close>, \<open>EstimateProvider\<close> and the method of \<open>AddressCodec\<close> that the plugin calls.\<close>

record ExecutePluginCodec =
  xc_Encode :: "ExecutePluginReport \<Rightarrow> byte list result"
  xc_Decode :: "byte list \<Rightarrow> ExecutePluginReport result"

record EstimateProvider =
  ep_CalculateMessageMaxGas :: "Message \<Rightarrow> u64"
  ep_CalculateMerkleTreeGas :: "int \<Rightarrow> u64"

type_synonym AddressBytesToString = "UnknownAddress \<Rightarrow> ChainSelector \<Rightarrow> string result"

section \<open>report/roots.go\<close>

definition ConstructMerkleTree :: "exec_lib \<Rightarrow> CommitData \<Rightarrow> merkle_tree result" where
  "ConstructMerkleTree xl report =
     (let rng = cd_SequenceNumberRange report;
          numMsgs = s64 (uint (sr_End rng - sr_Start rng + 1))
      in if numMsgs \<noteq> int (length (cd_Messages report)) then Error (Err ''malformed report, unexpected number of messages'')
         else if numMsgs \<noteq> int (length (cd_Hashes report)) then Error (Err ''malformed report, unexpected number of message hashes'')
         else rbind (check_all (\<lambda>(msg, hash).
                  if \<not> xl_Contains xl rng (mh_SequenceNumber (msg_Header msg))
                  then Error (Err ''malformed report, sequence number outside of report range'')
                  else if \<not> xl_IsPseudoDeleted xl msg \<and> cd_SourceChain report \<noteq> mh_SourceChainSelector (msg_Header msg)
                  then Error (Err ''malformed report, message for unexpected source chain'')
                  else if hash = replicate 32 0 then Error (Err ''malformed report, message has empty hash'')
                  else Ok ())
                (zip (cd_Messages report) (cd_Hashes report)))
              (\<lambda>_. xl_NewTree xl (cd_Hashes report)))"

section \<open>report/data.go\<close>

definition markNewMessagesExecuted :: "ExecutePluginReportSingleChain \<Rightarrow> CommitData \<Rightarrow> CommitData" where
  "markNewMessagesExecuted execReport report =
     report\<lparr>cd_ExecutedMessages := sort (cd_ExecutedMessages report @
       map (\<lambda>m. mh_SequenceNumber (msg_Header m)) (er_Messages execReport))\<rparr>"

section \<open>report/report.go: building one chain report\<close>

text \<open>The set of ready messages is \<open>map[int]struct{}\<close>, a set of indices. An empty set is filled with all indices, in
  the caller's map.\<close>

definition fill_ready :: "CommitData \<Rightarrow> nat set \<Rightarrow> nat set" where
  "fill_ready report readyMessages =
     (if readyMessages = {} then set [0 ..< length (cd_Messages report)] else readyMessages)"

definition ExecutePluginReportSingleChain_zero :: ExecutePluginReportSingleChain where
  "ExecutePluginReportSingleChain_zero =
     \<lparr>er_SourceChainSelector = 0, er_Messages = [], er_OffchainTokenData = [], er_Proofs = [], er_ProofFlagBits = None\<rparr>"

definition buildSingleChainReportHelper ::
  "exec_lib \<Rightarrow> CommitData \<Rightarrow> nat set \<Rightarrow> ExecutePluginReportSingleChain result" where
  "buildSingleChainReportHelper xl report readyMessages0 =
     (let readyMessages = fill_ready report readyMessages0
      in if readyMessages = {} then Ok ExecutePluginReportSingleChain_zero
         else if length (cd_MessageTokenData report) \<noteq> length (cd_Messages report) then Error (Err ''token data length mismatch'')
         else
         rbind (wrap_err ''unable to construct merkle tree from messages for report'' (ConstructMerkleTree xl report)) (\<lambda>tree.
         if mt_Root tree \<noteq> cd_MerkleRoot report then Error (Err ''merkle root mismatch'')
         else
         let toExecute = filter (\<lambda>i. i \<in> readyMessages) [0 ..< length (cd_Messages report)]
         in rbind (wrap_err ''unable to prove messages for report'' (mt_Prove tree (map int toExecute))) (\<lambda>(hashes, sourceFlags).
              Ok \<lparr>er_SourceChainSelector = cd_SourceChain report,
                  er_Messages = map (\<lambda>i. cd_Messages report ! i) toExecute,
                  er_OffchainTokenData = map (\<lambda>i. ToByteSlice (cd_MessageTokenData report ! i)) toExecute,
                  er_Proofs = hashes,
                  er_ProofFlagBits = Some (BoolsToBitFlags sourceFlags)\<rparr>)))"

section \<open>report/report.go: the checks of a message\<close>

datatype messageStatus =
    NoStatus | ErrorStatus | ReadyToExecute | AlreadyExecuted | AlreadyInflight | TokenDataNotReady | PseudoDeleted
  | TokenDataFetchError | InsufficientRemainingBatchGas | MissingNoncesForChain | MissingNonce | InvalidNonce

text \<open>A \<open>Check\<close> is a closure: its code and the variable it captures. Only \<open>CheckNonces\<close> captures one, the map
  \<open>expectedNonce\<close>.\<close>

record Check =
  ck_expectedNonce :: NonceObservations
  ck_run :: "Message \<Rightarrow> nat \<Rightarrow> CommitData \<Rightarrow> NonceObservations \<Rightarrow> messageStatus result \<times> NonceObservations"

definition pure_check :: "(Message \<Rightarrow> nat \<Rightarrow> CommitData \<Rightarrow> messageStatus result) \<Rightarrow> Check" where
  "pure_check f = \<lparr>ck_expectedNonce = [], ck_run = (\<lambda>msg idx report env. (f msg idx report, env))\<rparr>"

definition CheckIfPseudoDeleted :: "exec_lib \<Rightarrow> Check" where
  "CheckIfPseudoDeleted xl = pure_check (\<lambda>msg idx report. Ok (if xl_IsPseudoDeleted xl msg then PseudoDeleted else NoStatus))"

definition CheckAlreadyExecuted :: Check where
  "CheckAlreadyExecuted = pure_check (\<lambda>msg idx report.
     Ok (if mh_SequenceNumber (msg_Header msg) \<in> set (cd_ExecutedMessages report) then AlreadyExecuted else NoStatus))"

definition CheckTokenData :: Check where
  "CheckTokenData = pure_check (\<lambda>msg idx report.
     if length (cd_MessageTokenData report) \<le> idx then Error (Err ''token data index out of range'')
     else Ok (if MessageTokenData_IsReady (cd_MessageTokenData report ! idx) then NoStatus else TokenDataNotReady))"

definition CheckNonces :: "NonceObservations \<Rightarrow> AddressBytesToString \<Rightarrow> Check" where
  "CheckNonces sendersNonce addressCodec = \<lparr>ck_expectedNonce = [], ck_run = (\<lambda>msg idx report expectedNonce.
     let nonce = mh_Nonce (msg_Header msg); chain = cd_SourceChain report in
     if nonce = 0 then (Ok NoStatus, expectedNonce)
     else (case map_of sendersNonce chain of
       None \<Rightarrow> (Ok MissingNoncesForChain, expectedNonce)
     | Some chainNonces \<Rightarrow>
         (case addressCodec (msg_Sender msg) (mh_SourceChainSelector (msg_Header msg)) of
            Panic \<Rightarrow> (Panic, expectedNonce)
          | Error e \<Rightarrow> (Error (Wrap ''unable to convert sender address to string'' e), expectedNonce)
          | Ok sender \<Rightarrow>
              (case map_of chainNonces sender of
                 None \<Rightarrow> (Ok MissingNonce, expectedNonce)
               | Some chainNonce \<Rightarrow>
                   let expected = (case gm_get2 expectedNonce chain sender of None \<Rightarrow> chainNonce + 1 | Some n \<Rightarrow> n)
                   in if nonce \<noteq> expected then (Ok InvalidNonce, gm_put2 chain sender expected expectedNonce)
                      else (Ok NoStatus, gm_put2 chain sender (expected + 1) expectedNonce)))))\<rparr>"

definition CheckIfInflight :: "(ChainSelector \<Rightarrow> Bytes32 \<Rightarrow> bool) \<Rightarrow> Check" where
  "CheckIfInflight inflight = pure_check (\<lambda>msg idx report.
     Ok (if inflight (cd_SourceChain report) (mh_MessageID (msg_Header msg)) then AlreadyInflight else NoStatus))"

fun run_checks :: "Message \<Rightarrow> nat \<Rightarrow> CommitData \<Rightarrow> Check list \<Rightarrow> messageStatus result \<times> Check list" where
  "run_checks msg idx report [] = (Ok ReadyToExecute, [])"
| "run_checks msg idx report (c # cs) =
     (let (r, env) = ck_run c msg idx report (ck_expectedNonce c); c' = c\<lparr>ck_expectedNonce := env\<rparr>
      in if r = Ok NoStatus then (let (r', cs') = run_checks msg idx report cs in (r', c' # cs')) else (r, c' # cs))"

section \<open>report/builder.go: the state of the builder\<close>

record validationMetadata =
  vm_encodedSizeBytes :: u64
  vm_gas :: u64

definition validationMetadata_zero :: validationMetadata where
  "validationMetadata_zero = \<lparr>vm_encodedSizeBytes = 0, vm_gas = 0\<rparr>"

definition accumulate :: "validationMetadata \<Rightarrow> validationMetadata \<Rightarrow> validationMetadata" where
  "accumulate vm other =
     \<lparr>vm_encodedSizeBytes = vm_encodedSizeBytes vm + vm_encodedSizeBytes other, vm_gas = vm_gas vm + vm_gas other\<rparr>"

record execReportBuilder =
  b_encoder :: ExecutePluginCodec
  b_hasher :: "Message \<Rightarrow> Bytes32 result"
  b_estimateProvider :: "EstimateProvider option"
  b_addressCodec :: AddressBytesToString
  b_checks :: "Check list"
  b_destChainSelector :: ChainSelector
  b_maxReportSizeBytes :: u64
  b_maxGas :: u64
  b_maxMessages :: u64
  b_maxSingleChainReports :: u64
  b_multipleReportsEnabled :: bool
  b_maxReportCount :: u64
  b_accumulated :: "validationMetadata list"
  b_execReports :: "ExecutePluginReport list"
  b_commitReports :: "CommitData list list"

type_synonym builder_option = "execReportBuilder \<Rightarrow> execReportBuilder"

definition WithMaxGas :: "u64 \<Rightarrow> builder_option" where
  "WithMaxGas maxGas erb = erb\<lparr>b_maxGas := maxGas\<rparr>"

definition WithMaxReportSizeBytes :: "u64 \<Rightarrow> builder_option" where
  "WithMaxReportSizeBytes maxReportSizeBytes erb = erb\<lparr>b_maxReportSizeBytes := maxReportSizeBytes\<rparr>"

definition WithMaxMessages :: "u64 \<Rightarrow> builder_option" where
  "WithMaxMessages maxMessages erb = erb\<lparr>b_maxMessages := maxMessages\<rparr>"

definition WithMaxReportsCount :: "u64 \<Rightarrow> builder_option" where
  "WithMaxReportsCount maxReportCount erb = erb\<lparr>b_maxReportCount := maxReportCount\<rparr>"

definition WithMaxSingleChainReports :: "u64 \<Rightarrow> builder_option" where
  "WithMaxSingleChainReports maxSingleChainReports erb = erb\<lparr>b_maxSingleChainReports := maxSingleChainReports\<rparr>"

definition WithExtraMessageCheck :: "Check \<Rightarrow> builder_option" where
  "WithExtraMessageCheck check erb = erb\<lparr>b_checks := b_checks erb @ [check]\<rparr>"

definition WithMultipleReports :: "bool \<Rightarrow> builder_option" where
  "WithMultipleReports enabled erb = erb\<lparr>b_multipleReportsEnabled := enabled\<rparr>"

definition NewBuilder ::
  "exec_lib \<Rightarrow> (Message \<Rightarrow> Bytes32 result) \<Rightarrow> ExecutePluginCodec \<Rightarrow> EstimateProvider option \<Rightarrow> ChainSelector \<Rightarrow>
   AddressBytesToString \<Rightarrow> builder_option option list \<Rightarrow> execReportBuilder" where
  "NewBuilder xl hasher encoder estimateProvider destChainSelector addressCodec options =
     fold (\<lambda>option1 builder. case option1 of None \<Rightarrow> builder | Some f \<Rightarrow> f builder) options
       \<lparr>b_encoder = encoder, b_hasher = hasher, b_estimateProvider = estimateProvider, b_addressCodec = addressCodec,
        b_checks = [CheckIfPseudoDeleted xl, CheckAlreadyExecuted, CheckTokenData], b_destChainSelector = destChainSelector,
        b_maxReportSizeBytes = 0, b_maxGas = 0, b_maxMessages = 0, b_maxSingleChainReports = 0,
        b_multipleReportsEnabled = False, b_maxReportCount = 0, b_accumulated = [], b_execReports = [], b_commitReports = []\<rparr>"

section \<open>report/report.go: readiness and verification\<close>

text \<open>\<open>checkMessage\<close> gives the commit report back as it received it.\<close>

definition checkMessage :: "execReportBuilder \<Rightarrow> nat \<Rightarrow> CommitData \<Rightarrow> messageStatus result \<times> execReportBuilder" where
  "checkMessage b idx execReport =
     (if length (cd_Messages execReport) \<le> idx then (Error (Err ''message index out of range''), b)
      else let (r, checks) = run_checks (cd_Messages execReport ! idx) idx execReport (b_checks b)
           in (r, b\<lparr>b_checks := checks\<rparr>))"

fun ready_loop :: "CommitData \<Rightarrow> nat list \<Rightarrow> nat set \<Rightarrow> execReportBuilder \<Rightarrow> nat set result \<times> execReportBuilder" where
  "ready_loop report [] readyMessages b = (Ok readyMessages, b)"
| "ready_loop report (i # ixs) readyMessages b =
     (case checkMessage b i report of
        (Ok status, b') \<Rightarrow> ready_loop report ixs (if status = ReadyToExecute then insert i readyMessages else readyMessages) b'
      | (Error e, b') \<Rightarrow> (Error (Wrap ''unable to check message'' e), b')
      | (Panic, b') \<Rightarrow> (Panic, b'))"

definition extractReadyMessages :: "execReportBuilder \<Rightarrow> CommitData \<Rightarrow> nat set result \<times> execReportBuilder" where
  "extractReadyMessages b report = ready_loop report [0 ..< length (cd_Messages report)] {} b"

fun nonce_loop :: "AddressBytesToString \<Rightarrow> (string, u64) gomap \<Rightarrow> Message list \<Rightarrow> unit result" where
  "nonce_loop addressCodec latestNoncePerSender [] = Ok ()"
| "nonce_loop addressCodec latestNoncePerSender (msg # msgs) =
     (let nonce = mh_Nonce (msg_Header msg) in
      if nonce = 0 then nonce_loop addressCodec latestNoncePerSender msgs
      else
      rbind (wrap_err ''unable to convert sender address to string''
               (addressCodec (msg_Sender msg) (mh_SourceChainSelector (msg_Header msg)))) (\<lambda>sender.
        case map_of latestNoncePerSender sender of
          None \<Rightarrow> nonce_loop addressCodec (gm_put sender nonce latestNoncePerSender) msgs
        | Some latestNonce \<Rightarrow>
            if latestNonce = 0 then Error (Err ''assumption violation: bug in the code'')
            else if nonce \<noteq> latestNonce + 1 then Error (Err ''skipped nonce detected'')
            else nonce_loop addressCodec (gm_put sender nonce latestNoncePerSender) msgs))"

definition verifyReportNonceContinuity :: "AddressBytesToString \<Rightarrow> ExecutePluginReportSingleChain \<Rightarrow> unit result" where
  "verifyReportNonceContinuity addressCodec execReport = nonce_loop addressCodec [] (er_Messages execReport)"

definition report_gas :: "EstimateProvider \<Rightarrow> ExecutePluginReportSingleChain \<Rightarrow> u64" where
  "report_gas ep execReport =
     fold (\<lambda>msg gasSum. gasSum + ep_CalculateMessageMaxGas ep msg) (er_Messages execReport) 0 +
     ep_CalculateMerkleTreeGas ep (int (length (er_Messages execReport)))"

definition verifyReport ::
  "execReportBuilder \<Rightarrow> ExecutePluginReportSingleChain \<Rightarrow> (bool \<times> validationMetadata) result" where
  "verifyReport b execReport =
     (case verifyReportNonceContinuity (b_addressCodec b) execReport of
        Panic \<Rightarrow> Panic
      | Error _ \<Rightarrow> Ok (False, validationMetadata_zero)
      | Ok _ \<Rightarrow>
          rbind (wrap_err ''unable to encode report'' (xc_Encode (b_encoder b) \<lparr>epr_ChainReports = [execReport]\<rparr>)) (\<lambda>encoded.
          rbind (slice_get (b_accumulated b) (int (length (b_accumulated b)) - 1)) (\<lambda>accumulated.
            if s64 (uint (b_maxReportSizeBytes b - vm_encodedSizeBytes accumulated)) < int (length encoded)
            then Ok (False, validationMetadata_zero)
            else (case b_estimateProvider b of
                None \<Rightarrow> Error (Err ''gas estimator must be initialized'')
              | Some ep \<Rightarrow>
                  if b_maxGas b - vm_gas accumulated < report_gas ep execReport
                  then Ok (False, validationMetadata_zero)
                  else Ok (True, \<lparr>vm_encodedSizeBytes = of_nat (length encoded), vm_gas = report_gas ep execReport\<rparr>)))))"

text \<open>The two attempts of \<open>buildSingleChainReport\<close>: all ready messages when there is no message limit, and then the
  greedy loop, which drops the messages that do not fit.\<close>

definition all_messages_attempt ::
  "exec_lib \<Rightarrow> execReportBuilder \<Rightarrow> CommitData \<Rightarrow> nat set \<Rightarrow>
   (ExecutePluginReportSingleChain \<times> validationMetadata) option result" where
  "all_messages_attempt xl b commitData readyMessages =
     (if b_maxMessages b \<noteq> 0 then Ok None
      else
      rbind (wrap_err ''unable to build a single chain report (max)''
               (buildSingleChainReportHelper xl commitData readyMessages)) (\<lambda>allMessagesReport.
      rbind (wrap_err ''unable to verify report'' (verifyReport b allMessagesReport)) (\<lambda>(validReport, meta).
        Ok (if validReport then Some (allMessagesReport, meta) else None))))"

fun greedy_loop ::
  "exec_lib \<Rightarrow> execReportBuilder \<Rightarrow> CommitData \<Rightarrow> nat set \<Rightarrow> nat list \<Rightarrow> nat set \<Rightarrow>
   ExecutePluginReportSingleChain \<times> validationMetadata \<Rightarrow>
   (nat set \<times> ExecutePluginReportSingleChain \<times> validationMetadata) result" where
  "greedy_loop xl b commitData readyMessages [] msgs final = Ok (msgs, final)"
| "greedy_loop xl b commitData readyMessages (i # ixs) msgs final =
     (if i \<notin> readyMessages then greedy_loop xl b commitData readyMessages ixs msgs final
      else
      rbind (wrap_err ''unable to build a single chain report (messages)''
               (buildSingleChainReportHelper xl commitData (insert i msgs))) (\<lambda>candidateReport.
      rbind (wrap_err ''unable to verify report'' (verifyReport b candidateReport)) (\<lambda>(validReport, meta2).
        if validReport then
          (if 0 < b_maxMessages b \<and> b_maxMessages b \<le> of_nat (card (insert i msgs))
           then Ok (insert i msgs, candidateReport, meta2)
           else greedy_loop xl b commitData readyMessages ixs (insert i msgs) (candidateReport, meta2))
        else greedy_loop xl b commitData readyMessages ixs (insert i msgs - {i}) final)))"

definition choose_report ::
  "exec_lib \<Rightarrow> execReportBuilder \<Rightarrow> CommitData \<Rightarrow> nat set \<Rightarrow> (ExecutePluginReportSingleChain \<times> validationMetadata) result" where
  "choose_report xl b commitData readyMessages =
     rbind (all_messages_attempt xl b commitData readyMessages) (\<lambda>attempt.
       case attempt of
         Some final \<Rightarrow> Ok final
       | None \<Rightarrow>
           rbind (greedy_loop xl b commitData
                    (if b_maxMessages b = 0 then fill_ready commitData readyMessages else readyMessages)
                    [0 ..< length (cd_Messages commitData)] {} (ExecutePluginReportSingleChain_zero, validationMetadata_zero))
             (\<lambda>(msgs, final). if msgs = {} then Error ErrEmptyReport else Ok final))"

definition buildSingleChainReport ::
  "exec_lib \<Rightarrow> execReportBuilder \<Rightarrow> CommitData \<Rightarrow> nat set \<Rightarrow>
   (ExecutePluginReportSingleChain \<times> CommitData) result \<times> execReportBuilder" where
  "buildSingleChainReport xl b commitData readyMessages =
     (case choose_report xl b commitData readyMessages of
        Panic \<Rightarrow> (Panic, b)
      | Error e \<Rightarrow> (Error e, b)
      | Ok (execReport, meta) \<Rightarrow>
          (Ok (execReport, markNewMessagesExecuted execReport commitData),
           b\<lparr>b_accumulated := (b_accumulated b)
               [length (b_accumulated b) - 1 := accumulate (b_accumulated b ! (length (b_accumulated b) - 1)) meta]\<rparr>))"

section \<open>report/builder.go: the operations\<close>

definition checkInitialize :: "execReportBuilder \<Rightarrow> execReportBuilder" where
  "checkInitialize b =
     (let b = (if b_accumulated b = [] then b\<lparr>b_accumulated := [validationMetadata_zero]\<rparr> else b);
          b = (if b_execReports b = [] then b\<lparr>b_execReports := [\<lparr>epr_ChainReports = []\<rparr>]\<rparr> else b)
      in if b_commitReports b = [] then b\<lparr>b_commitReports := [[]]\<rparr> else b)"

definition shouldCreateNewExecReport :: "execReportBuilder \<Rightarrow> bool result" where
  "shouldCreateNewExecReport b =
     (if b_maxSingleChainReports b = 0 then Ok False
      else rbind (slice_get (b_execReports b) (int (length (b_execReports b)) - 1)) (\<lambda>current.
        Ok (s64 (uint (b_maxSingleChainReports b)) \<le> int (length (epr_ChainReports current)))))"

definition validateNoncesForMultipleReports :: "CommitData \<Rightarrow> unit result" where
  "validateNoncesForMultipleReports commitReport =
     check_all (\<lambda>msg. if 0 < mh_Nonce (msg_Header msg) then Error (Err ''messages with non-zero nonces detected'') else Ok ())
       (cd_Messages commitReport)"

definition createNewExecReport :: "execReportBuilder \<Rightarrow> execReportBuilder" where
  "createNewExecReport b =
     b\<lparr>b_execReports := b_execReports b @ [\<lparr>epr_ChainReports = []\<rparr>], b_commitReports := b_commitReports b @ [[]],
       b_accumulated := b_accumulated b @ [validationMetadata_zero]\<rparr>"

definition removeLastExecReport :: "execReportBuilder \<Rightarrow> execReportBuilder" where
  "removeLastExecReport b =
     (if b_execReports b = [] then b
      else b\<lparr>b_execReports := butlast (b_execReports b), b_commitReports := butlast (b_commitReports b),
             b_accumulated := butlast (b_accumulated b)\<rparr>)"

text \<open>\<open>b.execReports[currentIndex].ChainReports = append(...)\<close> and the same for the commit reports.\<close>

definition push_report :: "execReportBuilder \<Rightarrow> nat \<Rightarrow> ExecutePluginReportSingleChain \<Rightarrow> CommitData \<Rightarrow> execReportBuilder option" where
  "push_report b i execReport updatedReport =
     (if i < length (b_execReports b) \<and> i < length (b_commitReports b)
      then Some (b\<lparr>b_execReports := (b_execReports b)
                     [i := \<lparr>epr_ChainReports = epr_ChainReports (b_execReports b ! i) @ [execReport]\<rparr>],
                   b_commitReports := (b_commitReports b)[i := b_commitReports b ! i @ [updatedReport]]\<rparr>)
      else None)"

fun is_empty_report :: "error \<Rightarrow> bool" where
  "is_empty_report ErrEmptyReport = True"
| "is_empty_report (Wrap _ e) = is_empty_report e"
| "is_empty_report _ = False"

definition handleEmptyReport ::
  "exec_lib \<Rightarrow> execReportBuilder \<Rightarrow> CommitData \<Rightarrow> nat set \<Rightarrow> (CommitData \<times> bool) result \<times> execReportBuilder" where
  "handleEmptyReport xl b commitReport readyMessages =
     (if \<not> b_multipleReportsEnabled b then (Ok (commitReport, False), b)
      else if b_maxReportCount b \<le> of_nat (length (b_execReports b)) then (Ok (commitReport, False), b)
      else
      let b = createNewExecReport b; currentIndex = length (b_execReports b) - 1
      in case buildSingleChainReport xl b commitReport readyMessages of
           (Panic, b) \<Rightarrow> (Panic, b)
         | (Error e, b) \<Rightarrow> (if is_empty_report e then (Ok (commitReport, False), removeLastExecReport b)
                           else (Error (Wrap ''unable to add a single chain report'' e), b))
         | (Ok (execReport, updatedReport), b) \<Rightarrow>
             (case push_report b currentIndex execReport updatedReport of
                None \<Rightarrow> (Panic, b) | Some b \<Rightarrow> (Ok (updatedReport, True), b)))"

definition tryBuildReport ::
  "exec_lib \<Rightarrow> execReportBuilder \<Rightarrow> CommitData \<Rightarrow> nat set \<Rightarrow> (CommitData \<times> bool) result \<times> execReportBuilder" where
  "tryBuildReport xl b commitReport readyMessages =
     (let currentIndex = length (b_execReports b) - 1
      in case buildSingleChainReport xl b commitReport readyMessages of
           (Panic, b) \<Rightarrow> (Panic, b)
         | (Error e, b) \<Rightarrow> (if is_empty_report e then handleEmptyReport xl b commitReport readyMessages
                           else (Error (Wrap ''unable to add a single chain report'' e), b))
         | (Ok (execReport, updatedReport), b) \<Rightarrow>
             (case push_report b currentIndex execReport updatedReport of
                None \<Rightarrow> (Panic, b) | Some b \<Rightarrow> (Ok (updatedReport, b_multipleReportsEnabled b), b)))"

text \<open>One turn of the loop of \<open>Add\<close>: it returns, or it goes on with an updated commit report.\<close>

type_synonym add_result = "(CommitData \<times> unit result) \<times> execReportBuilder"

definition add_step :: "exec_lib \<Rightarrow> execReportBuilder \<Rightarrow> CommitData \<Rightarrow> add_result + execReportBuilder \<times> CommitData" where
  "add_step xl b current =
     (case extractReadyMessages b current of
        (Panic, b) \<Rightarrow> Inl ((current, Panic), b)
      | (Error e, b) \<Rightarrow> Inl ((current, Error (Wrap ''unable to extract ready messages'' e)), b)
      | (Ok readyMessages, b) \<Rightarrow>
          if readyMessages = {} then Inl ((current, Ok ()), b)
          else (case shouldCreateNewExecReport b of
              Panic \<Rightarrow> Inl ((current, Panic), b)
            | Error e \<Rightarrow> Inl ((current, Error e), b)
            | Ok create \<Rightarrow>
                if create \<and> \<not> b_multipleReportsEnabled b then Inl ((current, Ok ()), b)
                else
                let b = (if create then createNewExecReport b else b)
                in if b_maxReportCount b < of_nat (length (b_execReports b)) then Inl ((current, Ok ()), b)
                   else (case tryBuildReport xl b current readyMessages of
                       (Panic, b) \<Rightarrow> Inl ((current, Panic), b)
                     | (Error e, b) \<Rightarrow> Inl ((current, Error e), b)
                     | (Ok (updatedReport, shouldContinue), b) \<Rightarrow>
                         if shouldContinue then Inr (b, updatedReport) else Inl ((updatedReport, Ok ()), b))))"

partial_function (option) add_loop :: "exec_lib \<Rightarrow> execReportBuilder \<Rightarrow> CommitData \<Rightarrow> add_result option" where
  [code]: "add_loop xl b current =
     (case add_step xl b current of Inl r \<Rightarrow> Some r | Inr s \<Rightarrow> (case s of (b', current') \<Rightarrow> add_loop xl b' current'))"

definition Add :: "exec_lib \<Rightarrow> execReportBuilder \<Rightarrow> CommitData \<Rightarrow> add_result option" where
  "Add xl b0 commitReport =
     (let b = checkInitialize b0
      in case (if b_multipleReportsEnabled b then validateNoncesForMultipleReports commitReport else Ok ()) of
           Panic \<Rightarrow> Some ((commitReport, Panic), b)
         | Error e \<Rightarrow> Some ((commitReport, Error (Wrap ''multiple reports validate nonces'' e)), b)
         | Ok _ \<Rightarrow> add_loop xl b commitReport)"

fun build_results :: "bool \<Rightarrow> u64 \<Rightarrow> ExecutePluginReport list \<Rightarrow> ExecutePluginReport list \<Rightarrow> ExecutePluginReport list" where
  "build_results multiple maxReportCount results [] = results"
| "build_results multiple maxReportCount results (report # reports) =
     (if \<not> multiple \<or> maxReportCount \<le> of_nat (length (results @ [report])) then results @ [report]
      else build_results multiple maxReportCount (results @ [report]) reports)"

definition Build :: "execReportBuilder \<Rightarrow> (ExecutePluginReport list \<times> CommitData list list) result" where
  "Build b =
     (if length (b_execReports b) \<noteq> length (b_commitReports b)
      then Error (Err ''expected the same number of exec and commit reports'')
      else Ok (build_results (b_multipleReportsEnabled b) (b_maxReportCount b) [] (b_execReports b), b_commitReports b))"

section \<open>selectReports (execute/plugin.go)\<close>

text \<open>The number of pending reports is only logged. A panic of \<open>Add\<close> ends the round.\<close>

fun add_all :: "exec_lib \<Rightarrow> execReportBuilder \<Rightarrow> CommitData list \<Rightarrow> execReportBuilder result option" where
  "add_all xl b [] = Some (Ok b)"
| "add_all xl b (commitReport # commitReports) =
     (if cd_Messages commitReport = [] then add_all xl b commitReports
      else (case Add xl b commitReport of
          None \<Rightarrow> None
        | Some ((_, Panic), _) \<Rightarrow> Some Panic
        | Some ((_, _), b') \<Rightarrow> add_all xl b' commitReports))"

definition selectReports ::
  "exec_lib \<Rightarrow> CommitData list \<Rightarrow> execReportBuilder \<Rightarrow> (ExecutePluginReport list \<times> CommitData list list) result option" where
  "selectReports xl commitReports builder =
     (case add_all xl builder commitReports of
        None \<Rightarrow> None
      | Some r \<Rightarrow> Some (rbind r Build))"

section \<open>What the checks guarantee\<close>

definition default_checks :: "exec_lib \<Rightarrow> Check list" where
  "default_checks xl = [CheckIfPseudoDeleted xl, CheckAlreadyExecuted, CheckTokenData]"

definition has_defaults :: "exec_lib \<Rightarrow> execReportBuilder \<Rightarrow> bool" where
  "has_defaults xl b \<longleftrightarrow> take 3 (b_checks b) = default_checks xl"

text \<open>Message \<open>i\<close> of a commit report can be executed.\<close>

definition ready_at :: "exec_lib \<Rightarrow> CommitData \<Rightarrow> nat \<Rightarrow> bool" where
  "ready_at xl cd i \<longleftrightarrow> i < length (cd_Messages cd) \<and> \<not> xl_IsPseudoDeleted xl (cd_Messages cd ! i) \<and>
     mh_SequenceNumber (msg_Header (cd_Messages cd ! i)) \<notin> set (cd_ExecutedMessages cd) \<and>
     i < length (cd_MessageTokenData cd) \<and> MessageTokenData_IsReady (cd_MessageTokenData cd ! i)"

lemma run_checks_defaults:
  "run_checks msg idx report (default_checks xl @ cs) =
     (if xl_IsPseudoDeleted xl msg then (Ok PseudoDeleted, default_checks xl @ cs)
      else if mh_SequenceNumber (msg_Header msg) \<in> set (cd_ExecutedMessages report) then (Ok AlreadyExecuted, default_checks xl @ cs)
      else if length (cd_MessageTokenData report) \<le> idx then (Error (Err ''token data index out of range''), default_checks xl @ cs)
      else if \<not> MessageTokenData_IsReady (cd_MessageTokenData report ! idx) then (Ok TokenDataNotReady, default_checks xl @ cs)
      else (fst (run_checks msg idx report cs), default_checks xl @ snd (run_checks msg idx report cs)))"
  by (simp add: default_checks_def CheckIfPseudoDeleted_def CheckAlreadyExecuted_def CheckTokenData_def pure_check_def
      split: prod.splits)

lemma has_defaults_iff: "has_defaults xl b \<longleftrightarrow> (\<exists>cs. b_checks b = default_checks xl @ cs)"
proof
  assume "has_defaults xl b"
  then have "b_checks b = default_checks xl @ drop 3 (b_checks b)"
    unfolding has_defaults_def by (metis append_take_drop_id)
  then show "\<exists>cs. b_checks b = default_checks xl @ cs" ..
qed (auto simp: has_defaults_def default_checks_def)

lemma checkMessage_ready:
  assumes "has_defaults xl b" and "checkMessage b i cd = (r, b')"
  shows "(\<exists>cs. b' = b\<lparr>b_checks := cs\<rparr>) \<and> has_defaults xl b' \<and> (r = Ok ReadyToExecute \<longrightarrow> ready_at xl cd i)"
proof -
  obtain cs where cs: "b_checks b = default_checks xl @ cs" using assms(1) by (auto simp: has_defaults_iff)
  show ?thesis
  proof (cases "length (cd_Messages cd) \<le> i")
    case True
    with assms have "b' = b" "r \<noteq> Ok ReadyToExecute" by (auto simp: checkMessage_def)
    moreover have "b = b\<lparr>b_checks := b_checks b\<rparr>" by simp
    ultimately show ?thesis using assms(1) by blast
  next
    case False
    let ?m = "cd_Messages cd ! i"
    obtain cs' where rc: "run_checks ?m i cd (b_checks b) = (r, default_checks xl @ cs')" "b' = b\<lparr>b_checks := default_checks xl @ cs'\<rparr>"
      using assms(2) False by (auto simp: checkMessage_def cs run_checks_defaults split: if_splits)
    then have "has_defaults xl b'" by (auto simp: has_defaults_iff)
    moreover have "r = Ok ReadyToExecute \<longrightarrow> ready_at xl cd i"
      using rc(1) False by (auto simp: cs run_checks_defaults ready_at_def split: if_splits)
    ultimately show ?thesis using rc(2) by blast
  qed
qed

lemma ready_loop_ready:
  assumes "has_defaults xl b" and "ready_loop cd ixs ready0 b = (r, b')" and "\<forall>i \<in> ready0. ready_at xl cd i"
  shows "(\<exists>cs. b' = b\<lparr>b_checks := cs\<rparr>) \<and> has_defaults xl b' \<and> (\<forall>ready. r = Ok ready \<longrightarrow> (\<forall>i \<in> ready. ready_at xl cd i))"
  using assms
proof (induction ixs arbitrary: ready0 b)
  case Nil
  then have "b' = b\<lparr>b_checks := b_checks b\<rparr>" "has_defaults xl b'" "r = Ok ready0" by simp_all
  then show ?case using Nil.prems(3) by blast
next
  case (Cons i ixs')
  obtain s b1 where s: "checkMessage b i cd = (s, b1)" by fastforce
  from checkMessage_ready [OF Cons.prems(1) s]
  obtain cs where b1: "b1 = b\<lparr>b_checks := cs\<rparr>" "has_defaults xl b1" "s = Ok ReadyToExecute \<longrightarrow> ready_at xl cd i" by blast
  show ?case
  proof (cases s)
    case (Ok st)
    let ?r = "if st = ReadyToExecute then insert i ready0 else ready0"
    have "ready_loop cd ixs' ?r b1 = (r, b')" using Cons.prems(2) s Ok by simp
    moreover have "\<forall>i \<in> ?r. ready_at xl cd i" using b1(3) Ok Cons.prems(3) by simp
    ultimately have "(\<exists>cs. b' = b1\<lparr>b_checks := cs\<rparr>) \<and> has_defaults xl b' \<and> (\<forall>ready. r = Ok ready \<longrightarrow> (\<forall>i \<in> ready. ready_at xl cd i))"
      by (rule Cons.IH [OF b1(2)])
    then show ?thesis unfolding b1(1) by auto
  qed (use Cons.prems(2) s b1 in auto)
qed

lemma extractReadyMessages_ready:
  assumes "has_defaults xl b" and "extractReadyMessages b cd = (r, b')"
  shows "(\<exists>cs. b' = b\<lparr>b_checks := cs\<rparr>) \<and> has_defaults xl b' \<and> (\<forall>ready. r = Ok ready \<longrightarrow> (\<forall>i \<in> ready. ready_at xl cd i))"
  using ready_loop_ready [OF assms(1) assms(2) [unfolded extractReadyMessages_def]] by simp

section \<open>One chain report\<close>

text \<open>The chain report holds the messages at the given indices of the commit report, with their token data, and the
  proof for exactly those leaves of a tree with the committed root.\<close>

definition chain_report_of :: "exec_lib \<Rightarrow> ExecutePluginReportSingleChain \<Rightarrow> CommitData \<Rightarrow> nat list \<Rightarrow> bool" where
  "chain_report_of xl cr cd idxs \<longleftrightarrow>
     idxs \<noteq> [] \<and> sorted_wrt (<) idxs \<and> set idxs \<subseteq> {..< length (cd_Messages cd)} \<and>
     length (cd_MessageTokenData cd) = length (cd_Messages cd) \<and>
     (\<exists>tree proofs flags. ConstructMerkleTree xl cd = Ok tree \<and> mt_Root tree = cd_MerkleRoot cd \<and>
        mt_Prove tree (map int idxs) = Ok (proofs, flags) \<and>
        cr = \<lparr>er_SourceChainSelector = cd_SourceChain cd, er_Messages = map ((!) (cd_Messages cd)) idxs,
              er_OffchainTokenData = map (\<lambda>i. ToByteSlice (cd_MessageTokenData cd ! i)) idxs,
              er_Proofs = proofs, er_ProofFlagBits = Some (BoolsToBitFlags flags)\<rparr>)"

lemma wrap_err_Ok [simp]: "wrap_err s r = Ok x \<longleftrightarrow> r = Ok x"
  by (cases r) auto

definition indices_of :: "CommitData \<Rightarrow> nat set \<Rightarrow> nat list" where
  "indices_of cd msgs = filter (\<lambda>i. i \<in> msgs) [0 ..< length (cd_Messages cd)]"

lemma set_indices_of: "msgs \<subseteq> {..< length (cd_Messages cd)} \<Longrightarrow> set (indices_of cd msgs) = msgs"
  by (auto simp: indices_of_def)

lemma length_indices_of: "msgs \<subseteq> {..< length (cd_Messages cd)} \<Longrightarrow> length (indices_of cd msgs) = card msgs"
  using distinct_card [of "indices_of cd msgs"] by (simp add: set_indices_of) (simp add: indices_of_def)

lemma helper_chain_report:
  assumes "buildSingleChainReportHelper xl cd msgs = Ok cr" and "msgs \<noteq> {}" and "msgs \<subseteq> {..< length (cd_Messages cd)}"
  shows "chain_report_of xl cr cd (indices_of cd msgs)"
proof -
  have "sorted_wrt (<) (indices_of cd msgs)" unfolding indices_of_def by (intro sorted_wrt_filter sorted_wrt_upt)
  moreover have "indices_of cd msgs \<noteq> []" using set_indices_of [OF assms(3)] assms(2) by auto
  ultimately show ?thesis
    using assms set_indices_of [OF assms(3)]
    by (auto simp: buildSingleChainReportHelper_def fill_ready_def chain_report_of_def rbind_Ok_iff indices_of_def Let_def
        split: if_splits)
qed

lemma slice_get_last: "slice_get xs (int (length xs) - 1) = (if xs = [] then Panic else Ok (last xs))"
proof (cases "xs = []")
  case False
  then have "nat (int (length xs) - 1) = length xs - 1" by arith
  with False show ?thesis by (simp add: slice_get_def last_conv_nth)
qed (simp add: slice_get_def)

lemma verifyReport_True:
  assumes "verifyReport b cr = Ok (True, meta)"
  shows "verifyReportNonceContinuity (b_addressCodec b) cr = Ok ()"
    and "\<exists>encoded ep. xc_Encode (b_encoder b) \<lparr>epr_ChainReports = [cr]\<rparr> = Ok encoded \<and> b_accumulated b \<noteq> [] \<and>
      int (length encoded) \<le> s64 (uint (b_maxReportSizeBytes b - vm_encodedSizeBytes (last (b_accumulated b)))) \<and>
      b_estimateProvider b = Some ep \<and> report_gas ep cr \<le> b_maxGas b - vm_gas (last (b_accumulated b)) \<and>
      meta = \<lparr>vm_encodedSizeBytes = of_nat (length encoded), vm_gas = report_gas ep cr\<rparr>"
proof -
  obtain u where u: "verifyReportNonceContinuity (b_addressCodec b) cr = Ok u"
    using assms by (auto simp: verifyReport_def split: result.splits)
  then show "verifyReportNonceContinuity (b_addressCodec b) cr = Ok ()" by simp
  obtain encoded accumulated where e: "xc_Encode (b_encoder b) \<lparr>epr_ChainReports = [cr]\<rparr> = Ok encoded"
      "slice_get (b_accumulated b) (int (length (b_accumulated b)) - 1) = Ok accumulated"
    using assms u by (auto simp: verifyReport_def rbind_Ok_iff)
  then have "b_accumulated b \<noteq> []" "accumulated = last (b_accumulated b)"
    by (auto simp: slice_get_last split: if_splits)
  with assms u e show "\<exists>encoded ep. xc_Encode (b_encoder b) \<lparr>epr_ChainReports = [cr]\<rparr> = Ok encoded \<and> b_accumulated b \<noteq> [] \<and>
      int (length encoded) \<le> s64 (uint (b_maxReportSizeBytes b - vm_encodedSizeBytes (last (b_accumulated b)))) \<and>
      b_estimateProvider b = Some ep \<and> report_gas ep cr \<le> b_maxGas b - vm_gas (last (b_accumulated b)) \<and>
      meta = \<lparr>vm_encodedSizeBytes = of_nat (length encoded), vm_gas = report_gas ep cr\<rparr>"
    by (auto simp: verifyReport_def not_less split: if_splits option.splits)
qed

text \<open>What an accepted candidate satisfies.\<close>

definition good_candidate ::
  "exec_lib \<Rightarrow> execReportBuilder \<Rightarrow> CommitData \<Rightarrow> nat set \<Rightarrow> ExecutePluginReportSingleChain \<times> validationMetadata \<Rightarrow> bool" where
  "good_candidate xl b cd msgs final \<longleftrightarrow>
     buildSingleChainReportHelper xl cd msgs = Ok (fst final) \<and> verifyReport b (fst final) = Ok (True, snd final) \<and>
     (b_maxMessages b \<noteq> 0 \<longrightarrow> card msgs \<le> unat (b_maxMessages b))"

lemma card_below_limit:
  assumes "card msgs < unat (m :: u64)" and "\<not> m \<le> of_nat (Suc (card msgs))"
  shows "Suc (card msgs) < unat m"
proof -
  have "Suc (card msgs) < 2 ^ 64" using assms(1) unsigned_less [of m, where ?'a = nat] by simp
  then have "unat (of_nat (Suc (card msgs)) :: u64) = Suc (card msgs)" by (simp add: unat_of_nat take_bit_nat_eq_self del: of_nat_Suc)
  then show ?thesis using assms(2) by (simp add: word_le_nat_alt del: of_nat_Suc)
qed

lemma greedy_loop_good:
  assumes "greedy_loop xl b cd ready ixs msgs final = Ok (msgs', final')"
    and "distinct ixs" "msgs \<inter> set ixs = {}" "msgs \<subseteq> ready" "finite msgs"
    and "b_maxMessages b \<noteq> 0 \<longrightarrow> card msgs < unat (b_maxMessages b)"
    and "msgs \<noteq> {} \<longrightarrow> good_candidate xl b cd msgs final"
  shows "msgs' \<subseteq> ready \<and> (msgs' \<noteq> {} \<longrightarrow> good_candidate xl b cd msgs' final')"
  using assms
proof (induction ixs arbitrary: msgs final)
  case (Cons i ixs')
  show ?case
  proof (cases "i \<in> ready")
    case False
    with Cons.prems show ?thesis by (intro Cons.IH [of msgs final]) auto
  next
    case True
    obtain cand valid meta where c: "buildSingleChainReportHelper xl cd (insert i msgs) = Ok cand"
        "verifyReport b cand = Ok (valid, meta)"
      using Cons.prems(1) True by (auto simp: rbind_Ok_iff)
    have ins: "insert i msgs - {i} = msgs" "card (insert i msgs) = Suc (card msgs)" using Cons.prems(3,5) by auto
    show ?thesis
    proof (cases valid)
      case False
      with Cons.prems True c ins(1) show ?thesis by (intro Cons.IH [of msgs final]) auto
    next
      case valid: True
      have g: "good_candidate xl b cd (insert i msgs) (cand, meta)"
        using c valid Cons.prems(6) by (simp add: good_candidate_def ins(2) Suc_le_eq)
      show ?thesis
      proof (cases "0 < b_maxMessages b \<and> b_maxMessages b \<le> of_nat (card (insert i msgs))")
        case True
        with Cons.prems(1,4) c valid \<open>i \<in> ready\<close> have "msgs' = insert i msgs" "final' = (cand, meta)" by simp_all
        with g True Cons.prems(4) \<open>i \<in> ready\<close> show ?thesis by simp
      next
        case False
        have "b_maxMessages b \<noteq> 0 \<longrightarrow> card (insert i msgs) < unat (b_maxMessages b)"
          using False Cons.prems(6) card_below_limit [of msgs "b_maxMessages b"] ins(2) by (auto simp: word_gt_0)
        moreover have "greedy_loop xl b cd ready ixs' (insert i msgs) (cand, meta) = Ok (msgs', final')"
          using Cons.prems(1) True c valid False by simp
        ultimately show ?thesis using g Cons.prems \<open>i \<in> ready\<close>
          by (intro Cons.IH [of "insert i msgs" "(cand, meta)"]) simp_all
      qed
    qed
  qed
qed simp

lemma choose_report_good:
  assumes "choose_report xl b cd ready = Ok final" and "ready \<noteq> {}"
  shows "\<exists>msgs. msgs \<noteq> {} \<and> msgs \<subseteq> ready \<and> good_candidate xl b cd msgs final"
proof (cases "all_messages_attempt xl b cd ready")
  case (Ok attempt)
  show ?thesis
  proof (cases attempt)
    case (Some f)
    with Ok assms(1) have "f = final" by (simp add: choose_report_def)
    moreover have "good_candidate xl b cd ready f"
      using Ok Some by (auto simp: all_messages_attempt_def good_candidate_def rbind_Ok_iff split: if_splits)
    ultimately show ?thesis using assms(2) by blast
  next
    case None
    have "(if b_maxMessages b = 0 then fill_ready cd ready else ready) = ready" using assms(2) by (simp add: fill_ready_def)
    with Ok None assms(1) obtain msgs where m: "msgs \<noteq> {}"
        "greedy_loop xl b cd ready [0 ..< length (cd_Messages cd)] {}
           (ExecutePluginReportSingleChain_zero, validationMetadata_zero) = Ok (msgs, final)"
      by (auto simp: choose_report_def rbind_Ok_iff split: if_splits)
    have "b_maxMessages b \<noteq> 0 \<longrightarrow> 0 < unat (b_maxMessages b)" by (simp add: unat_gt_0)
    then have "msgs \<subseteq> ready \<and> (msgs \<noteq> {} \<longrightarrow> good_candidate xl b cd msgs final)"
      by (intro greedy_loop_good [OF m(2)]) simp_all
    with m(1) show ?thesis by blast
  qed
qed (use assms in \<open>auto simp: choose_report_def\<close>)

end
