(* ===== verification/ExecReport.thy ===== *)
theory ExecReport
  imports ExecBuilder
begin

text \<open>
  The correctness of the report builder: the invariant of its state and that every operation keeps it, the limits of
  the reports, their soundness, the end of the loop of \<open>Add\<close>, and the order of nonces.
\<close>

section \<open>The invariant of the builder\<close>

text \<open>The encoded size and the gas of a chain report.\<close>

definition enc_size :: "execReportBuilder \<Rightarrow> ExecutePluginReportSingleChain \<Rightarrow> nat" where
  "enc_size b cr = (case xc_Encode (b_encoder b) \<lparr>epr_ChainReports = [cr]\<rparr> of Ok encoded \<Rightarrow> length encoded | _ \<Rightarrow> 0)"

definition gas_size :: "execReportBuilder \<Rightarrow> ExecutePluginReportSingleChain \<Rightarrow> nat" where
  "gas_size b cr = (case b_estimateProvider b of Some ep \<Rightarrow> unat (report_gas ep cr) | None \<Rightarrow> 0)"

text \<open>A commit report with more messages marked as executed.\<close>

definition grown :: "CommitData \<Rightarrow> CommitData \<Rightarrow> bool" where
  "grown cd0 cd \<longleftrightarrow> set (cd_ExecutedMessages cd0) \<subseteq> set (cd_ExecutedMessages cd) \<and>
     cd = cd0\<lparr>cd_ExecutedMessages := cd_ExecutedMessages cd\<rparr>"

text \<open>How a chain report and the commit report kept beside it came about: from one of the commit reports in \<open>src\<close>, by
  selecting messages that were ready.\<close>

definition selected ::
  "exec_lib \<Rightarrow> CommitData set \<Rightarrow> execReportBuilder \<Rightarrow> ExecutePluginReportSingleChain \<Rightarrow> CommitData \<Rightarrow> bool" where
  "selected xl src b cr cd \<longleftrightarrow> (\<exists>cd0 \<in> src. \<exists>cd1 idxs. grown cd0 cd1 \<and> cd = markNewMessagesExecuted cr cd1 \<and>
     chain_report_of xl cr cd1 idxs \<and> (\<forall>i \<in> set idxs. ready_at xl cd1 i) \<and>
     verifyReportNonceContinuity (b_addressCodec b) cr = Ok () \<and>
     (b_maxMessages b \<noteq> 0 \<longrightarrow> length idxs \<le> unat (b_maxMessages b)))"

text \<open>An execute report, with the metadata and the commit reports kept at the same position.\<close>

definition slot_ok ::
  "exec_lib \<Rightarrow> CommitData set \<Rightarrow> execReportBuilder \<Rightarrow> validationMetadata \<Rightarrow> ExecutePluginReport \<Rightarrow> CommitData list \<Rightarrow> bool" where
  "slot_ok xl src b acc r cds \<longleftrightarrow>
     unat (vm_encodedSizeBytes acc) = sum_list (map (enc_size b) (epr_ChainReports r)) \<and>
     vm_encodedSizeBytes acc \<le> b_maxReportSizeBytes b \<and>
     unat (vm_gas acc) = sum_list (map (gas_size b) (epr_ChainReports r)) \<and> vm_gas acc \<le> b_maxGas b \<and>
     (b_maxSingleChainReports b \<noteq> 0 \<longrightarrow> length (epr_ChainReports r) \<le> unat (b_maxSingleChainReports b)) \<and>
     list_all2 (selected xl src b) (epr_ChainReports r) cds"

definition builder_inv :: "exec_lib \<Rightarrow> CommitData set \<Rightarrow> execReportBuilder \<Rightarrow> bool" where
  "builder_inv xl src b \<longleftrightarrow> has_defaults xl b \<and>
     length (b_accumulated b) = length (b_execReports b) \<and> length (b_commitReports b) = length (b_execReports b) \<and>
     (\<forall>i < length (b_execReports b). slot_ok xl src b (b_accumulated b ! i) (b_execReports b ! i) (b_commitReports b ! i))"

lemma slot_ok_update [simp]:
  "slot_ok xl src (b\<lparr>b_accumulated := x\<rparr>) = slot_ok xl src b" "slot_ok xl src (b\<lparr>b_execReports := y\<rparr>) = slot_ok xl src b"
  "slot_ok xl src (b\<lparr>b_commitReports := z\<rparr>) = slot_ok xl src b" "slot_ok xl src (b\<lparr>b_checks := cs\<rparr>) = slot_ok xl src b"
proof -
  have e: "enc_size (b\<lparr>b_accumulated := x\<rparr>) = enc_size b" "enc_size (b\<lparr>b_execReports := y\<rparr>) = enc_size b"
    "enc_size (b\<lparr>b_commitReports := z\<rparr>) = enc_size b" "enc_size (b\<lparr>b_checks := cs\<rparr>) = enc_size b"
    "gas_size (b\<lparr>b_accumulated := x\<rparr>) = gas_size b" "gas_size (b\<lparr>b_execReports := y\<rparr>) = gas_size b"
    "gas_size (b\<lparr>b_commitReports := z\<rparr>) = gas_size b" "gas_size (b\<lparr>b_checks := cs\<rparr>) = gas_size b"
    "selected xl src (b\<lparr>b_accumulated := x\<rparr>) = selected xl src b" "selected xl src (b\<lparr>b_execReports := y\<rparr>) = selected xl src b"
    "selected xl src (b\<lparr>b_commitReports := z\<rparr>) = selected xl src b" "selected xl src (b\<lparr>b_checks := cs\<rparr>) = selected xl src b"
    by (simp_all add: enc_size_def gas_size_def selected_def fun_eq_iff)
  show "slot_ok xl src (b\<lparr>b_accumulated := x\<rparr>) = slot_ok xl src b" "slot_ok xl src (b\<lparr>b_execReports := y\<rparr>) = slot_ok xl src b"
    "slot_ok xl src (b\<lparr>b_commitReports := z\<rparr>) = slot_ok xl src b" "slot_ok xl src (b\<lparr>b_checks := cs\<rparr>) = slot_ok xl src b"
    by (simp_all add: slot_ok_def e fun_eq_iff)
qed

lemma has_defaults_update [simp]:
  "has_defaults xl (b\<lparr>b_accumulated := x\<rparr>) = has_defaults xl b" "has_defaults xl (b\<lparr>b_execReports := y\<rparr>) = has_defaults xl b"
  "has_defaults xl (b\<lparr>b_commitReports := z\<rparr>) = has_defaults xl b"
  by (simp_all add: has_defaults_def)

lemma builder_inv_checks: "has_defaults xl (b\<lparr>b_checks := cs\<rparr>) \<Longrightarrow> builder_inv xl src b \<Longrightarrow> builder_inv xl src (b\<lparr>b_checks := cs\<rparr>)"
  by (simp add: builder_inv_def)

lemma slot_ok_empty: "slot_ok xl src b validationMetadata_zero \<lparr>epr_ChainReports = []\<rparr> []"
  by (simp add: slot_ok_def validationMetadata_zero_def)

lemma builder_inv_create: "builder_inv xl src b \<Longrightarrow> builder_inv xl src (createNewExecReport b)"
  by (auto simp: builder_inv_def createNewExecReport_def slot_ok_empty nth_append less_Suc_eq)

lemma builder_inv_remove: "builder_inv xl src b \<Longrightarrow> builder_inv xl src (removeLastExecReport b)"
  by (auto simp: builder_inv_def removeLastExecReport_def nth_butlast)

lemma builder_inv_init: "builder_inv xl src b \<Longrightarrow> builder_inv xl src (checkInitialize b) \<and> b_execReports (checkInitialize b) \<noteq> []"
  by (cases "b_execReports b = []"; cases "b_accumulated b = []"; cases "b_commitReports b = []")
    (auto simp: builder_inv_def checkInitialize_def Let_def slot_ok_empty)

text \<open>Adding a verified report keeps the sums exact and within the limits: neither the subtraction in
  \<open>verifyReport\<close> nor the addition in \<open>accumulate\<close> wraps.\<close>

lemma word_budget:
  fixes acc limit amount :: u64
  assumes "acc \<le> limit" and "amount \<le> limit - acc"
  shows "acc + amount \<le> limit" and "unat (acc + amount) = unat acc + unat amount"
proof -
  have d: "unat (limit - acc) = unat limit - unat acc" using assms(1) by (rule unat_sub)
  have le: "unat acc + unat amount \<le> unat limit" using assms d by (simp add: word_le_nat_alt)
  also have "unat limit < 2 ^ 64" using unsigned_less [of limit, where ?'a = nat] by simp
  finally show u: "unat (acc + amount) = unat acc + unat amount" by (subst unat_add_lem [THEN iffD1]) simp_all
  show "acc + amount \<le> limit" using le by (simp add: word_le_nat_alt u)
qed

lemma s64_budget:
  fixes w :: u64
  assumes "int n \<le> s64 (uint w)"
  shows "of_nat n \<le> w" and "unat (of_nat n :: u64) = n"
proof -
  have "s64 (uint w) \<le> uint w" unfolding s64_def
    using uint_lt2p [of w] uint_ge_0 [of w] by (cases "uint w < 2 ^ 63") (simp_all add: mod_if)
  with assms have n: "int n \<le> uint w" by simp
  also have "uint w < 2 ^ 64" using uint_lt2p [of w] by simp
  finally have "n < 2 ^ 64" by simp
  then show u: "unat (of_nat n :: u64) = n" by (simp add: unat_of_nat take_bit_nat_eq_self)
  have "uint w = int (unat w)" by simp
  with n have "n \<le> unat w" by linarith
  then show "of_nat n \<le> w" by (simp add: word_le_nat_alt u)
qed

lemma slot_ok_push:
  assumes "slot_ok xl src b (last (b_accumulated b)) r cds" and "verifyReport b cr = Ok (True, meta)"
    and "selected xl src b cr cd"
    and "b_maxSingleChainReports b \<noteq> 0 \<longrightarrow> length (epr_ChainReports r) < unat (b_maxSingleChainReports b)"
  shows "slot_ok xl src b (accumulate (last (b_accumulated b)) meta) \<lparr>epr_ChainReports = epr_ChainReports r @ [cr]\<rparr> (cds @ [cd])"
proof -
  let ?acc = "last (b_accumulated b)"
  obtain encoded ep where v: "xc_Encode (b_encoder b) \<lparr>epr_ChainReports = [cr]\<rparr> = Ok encoded"
      "int (length encoded) \<le> s64 (uint (b_maxReportSizeBytes b - vm_encodedSizeBytes ?acc))"
      "b_estimateProvider b = Some ep" "report_gas ep cr \<le> b_maxGas b - vm_gas ?acc"
      "meta = \<lparr>vm_encodedSizeBytes = of_nat (length encoded), vm_gas = report_gas ep cr\<rparr>"
    using verifyReport_True(2) [OF assms(2)] by blast
  note slot = assms(1) [unfolded slot_ok_def]
  have size: "enc_size b cr = length encoded" "gas_size b cr = unat (report_gas ep cr)"
    by (simp_all add: enc_size_def gas_size_def v)
  note sz = word_budget [OF slot [THEN conjunct2, THEN conjunct1] s64_budget(1) [OF v(2)]] s64_budget(2) [OF v(2)]
  have "vm_gas ?acc \<le> b_maxGas b" using slot by blast
  note gas = word_budget [OF this v(4)]
  show ?thesis
    unfolding slot_ok_def accumulate_def v(5) using slot assms(3,4) sz gas size
    by (auto simp: list_all2_appendI)
qed

section \<open>Every operation keeps the invariant\<close>

text \<open>The fields that no operation changes.\<close>

definition config :: "execReportBuilder \<Rightarrow> execReportBuilder" where
  "config b = b\<lparr>b_checks := [], b_accumulated := [], b_execReports := [], b_commitReports := []\<rparr>"

lemma config_update [simp]:
  "config (b\<lparr>b_accumulated := x\<rparr>) = config b" "config (b\<lparr>b_execReports := y\<rparr>) = config b"
  "config (b\<lparr>b_commitReports := z\<rparr>) = config b" "config (b\<lparr>b_checks := cs\<rparr>) = config b"
  by (simp_all add: config_def)

lemma config_fields:
  "b_encoder (config b) = b_encoder b" "b_estimateProvider (config b) = b_estimateProvider b"
  "b_addressCodec (config b) = b_addressCodec b" "b_maxMessages (config b) = b_maxMessages b"
  "b_maxReportSizeBytes (config b) = b_maxReportSizeBytes b" "b_maxGas (config b) = b_maxGas b"
  "b_maxSingleChainReports (config b) = b_maxSingleChainReports b" "b_maxReportCount (config b) = b_maxReportCount b"
  "b_multipleReportsEnabled (config b) = b_multipleReportsEnabled b"
  by (simp_all add: config_def)

lemma slot_ok_config: "slot_ok xl src (config b) = slot_ok xl src b"
  by (simp add: config_def)

definition unexecuted :: "CommitData \<Rightarrow> nat set" where
  "unexecuted cd = {i. i < length (cd_Messages cd) \<and>
     mh_SequenceNumber (msg_Header (cd_Messages cd ! i)) \<notin> set (cd_ExecutedMessages cd)}"

lemma grown_trans: "grown cd0 cd \<Longrightarrow> grown cd0 (markNewMessagesExecuted cr cd)"
  by (cases cd0; cases cd) (auto simp: grown_def markNewMessagesExecuted_def)

lemma mark_decreases:
  assumes "chain_report_of xl cr cd idxs" and "\<forall>i \<in> set idxs. ready_at xl cd i"
  shows "card (unexecuted (markNewMessagesExecuted cr cd)) < card (unexecuted cd)"
proof -
  obtain i where i: "i \<in> set idxs" using assms(1) by (cases idxs) (auto simp: chain_report_of_def)
  then have "cd_Messages cd ! i \<in> set (er_Messages cr)" using assms(1) by (auto simp: chain_report_of_def)
  then have "i \<notin> unexecuted (markNewMessagesExecuted cr cd)" by (auto simp: unexecuted_def markNewMessagesExecuted_def)
  moreover have "i \<in> unexecuted cd" using assms(2) i by (auto simp: unexecuted_def ready_at_def)
  moreover have "unexecuted (markNewMessagesExecuted cr cd) \<subseteq> unexecuted cd"
    by (auto simp: unexecuted_def markNewMessagesExecuted_def)
  ultimately have "unexecuted (markNewMessagesExecuted cr cd) \<subset> unexecuted cd" by blast
  moreover have "finite (unexecuted cd)" by (simp add: unexecuted_def)
  ultimately show ?thesis by (rule psubset_card_mono [rotated])
qed

lemma buildSingleChainReport_Ok:
  assumes "buildSingleChainReport xl b cd ready = (Ok (cr, cd'), b')" and "ready \<noteq> {}" and "\<forall>i \<in> ready. ready_at xl cd i"
  obtains idxs meta where "chain_report_of xl cr cd idxs" "\<forall>i \<in> set idxs. ready_at xl cd i"
    "b_maxMessages b \<noteq> 0 \<longrightarrow> length idxs \<le> unat (b_maxMessages b)" "verifyReport b cr = Ok (True, meta)"
    "cd' = markNewMessagesExecuted cr cd" "b_accumulated b \<noteq> []"
    "b' = b\<lparr>b_accumulated := (b_accumulated b)[length (b_accumulated b) - 1 := accumulate (last (b_accumulated b)) meta]\<rparr>"
proof -
  obtain meta where c: "choose_report xl b cd ready = Ok (cr, meta)" "cd' = markNewMessagesExecuted cr cd"
      "b' = b\<lparr>b_accumulated := (b_accumulated b)
         [length (b_accumulated b) - 1 := accumulate (b_accumulated b ! (length (b_accumulated b) - 1)) meta]\<rparr>"
    using assms(1) by (auto simp: buildSingleChainReport_def split: result.splits)
  obtain msgs where m: "msgs \<noteq> {}" "msgs \<subseteq> ready" "good_candidate xl b cd msgs (cr, meta)"
    using choose_report_good [OF c(1) assms(2)] by blast
  have sub: "msgs \<subseteq> {..< length (cd_Messages cd)}" using m(2) assms(3) by (auto simp: ready_at_def)
  have h: "buildSingleChainReportHelper xl cd msgs = Ok cr" and v: "verifyReport b cr = Ok (True, meta)"
    using m(3) by (simp_all add: good_candidate_def)
  have ne: "b_accumulated b \<noteq> []" using verifyReport_True(2) [OF v] by blast
  show thesis
  proof (rule that)
    show "chain_report_of xl cr cd (indices_of cd msgs)" using h m(1) sub by (rule helper_chain_report)
    show "\<forall>i \<in> set (indices_of cd msgs). ready_at xl cd i" using assms(3) m(2) by (simp add: set_indices_of [OF sub] subset_iff)
    show "b_maxMessages b \<noteq> 0 \<longrightarrow> length (indices_of cd msgs) \<le> unat (b_maxMessages b)"
      using m(3) by (simp add: good_candidate_def length_indices_of [OF sub])
    show "b' = b\<lparr>b_accumulated := (b_accumulated b)[length (b_accumulated b) - 1 := accumulate (last (b_accumulated b)) meta]\<rparr>"
      using c(3) ne by (simp add: last_conv_nth)
  qed (use v c(2) ne in simp_all)
qed

lemma buildSingleChainReport_fail:
  "buildSingleChainReport xl b cd ready = (r, b') \<Longrightarrow> \<not> ret_ok r \<Longrightarrow> b' = b"
  by (auto simp: buildSingleChainReport_def split: result.splits)

text \<open>The commit reports that are added come from \<open>src\<close>; the state between two turns of the loop.\<close>

definition add_inv :: "exec_lib \<Rightarrow> CommitData set \<Rightarrow> execReportBuilder \<Rightarrow> CommitData \<Rightarrow> execReportBuilder \<Rightarrow> CommitData \<Rightarrow> bool" where
  "add_inv xl src b0 cd0 b cd \<longleftrightarrow> builder_inv xl src b \<and> b_execReports b \<noteq> [] \<and> config b = config b0 \<and> cd0 \<in> src \<and> grown cd0 cd"

definition has_room :: "execReportBuilder \<Rightarrow> bool" where
  "has_room b \<longleftrightarrow> (b_maxSingleChainReports b \<noteq> 0 \<longrightarrow>
     length (epr_ChainReports (last (b_execReports b))) < unat (b_maxSingleChainReports b))"

lemma build_push:
  assumes "add_inv xl src b0 cd0 b cd" and "has_room b" and "ready \<noteq> {}" and "\<forall>i \<in> ready. ready_at xl cd i"
    and "buildSingleChainReport xl b cd ready = (Ok (cr, cd'), b1)"
  obtains b2 where "push_report b1 (length (b_execReports b) - 1) cr cd' = Some b2" "add_inv xl src b0 cd0 b2 cd'"
    "card (unexecuted cd') < card (unexecuted cd)"
proof -
  obtain idxs meta where B: "chain_report_of xl cr cd idxs" "\<forall>i \<in> set idxs. ready_at xl cd i"
      "b_maxMessages b \<noteq> 0 \<longrightarrow> length idxs \<le> unat (b_maxMessages b)" "verifyReport b cr = Ok (True, meta)"
      "cd' = markNewMessagesExecuted cr cd"
      "b1 = b\<lparr>b_accumulated := (b_accumulated b)[length (b_accumulated b) - 1 := accumulate (last (b_accumulated b)) meta]\<rparr>"
    by (rule buildSingleChainReport_Ok [OF assms(5,3,4)])
  note inv = assms(1) [unfolded add_inv_def builder_inv_def]
  let ?n = "length (b_execReports b) - 1"
  have n: "?n < length (b_execReports b)" "length (b_accumulated b) - 1 = ?n" "length (b_commitReports b) = length (b_execReports b)"
    using inv by auto
  have "selected xl src b cr cd'"
    using inv B verifyReport_True(1) [OF B(4)] unfolding selected_def by blast
  moreover have "slot_ok xl src b (last (b_accumulated b)) (b_execReports b ! ?n) (b_commitReports b ! ?n)"
  proof -
    have "b_accumulated b \<noteq> []" using inv by (metis length_0_conv)
    then show ?thesis using inv n by (simp add: last_conv_nth)
  qed
  ultimately have new: "slot_ok xl src b (accumulate (last (b_accumulated b)) meta)
      \<lparr>epr_ChainReports = epr_ChainReports (b_execReports b ! ?n) @ [cr]\<rparr> (b_commitReports b ! ?n @ [cd'])"
    using assms(2) inv B(4) by (intro slot_ok_push) (simp_all add: has_room_def last_conv_nth)
  define b2 where "b2 = b1\<lparr>b_execReports := (b_execReports b)[?n := \<lparr>epr_ChainReports = epr_ChainReports (b_execReports b ! ?n) @ [cr]\<rparr>],
      b_commitReports := (b_commitReports b)[?n := b_commitReports b ! ?n @ [cd']]\<rparr>"
  have p: "push_report b1 ?n cr cd' = Some b2" using n(1,3) by (simp add: push_report_def B(6) b2_def)
  have "builder_inv xl src b2"
    using inv new n by (auto simp: b2_def B(6) builder_inv_def nth_list_update)
  moreover have "b_execReports b2 \<noteq> []" "config b2 = config b" using inv by (simp_all add: b2_def B(6))
  moreover have "grown cd0 cd'" using inv grown_trans by (simp add: B(5))
  ultimately have a: "add_inv xl src b0 cd0 b2 cd'" using inv by (simp add: add_inv_def)
  have "card (unexecuted cd') < card (unexecuted cd)" unfolding B(5) by (rule mark_decreases [OF B(1,2)])
  with p a show thesis by (rule that)
qed

lemma add_inv_create: "add_inv xl src b0 cd0 b cd \<Longrightarrow> add_inv xl src b0 cd0 (createNewExecReport b) cd"
proof -
  assume a: "add_inv xl src b0 cd0 b cd"
  have "config (createNewExecReport b) = config b" by (simp add: createNewExecReport_def)
  moreover have "b_execReports (createNewExecReport b) \<noteq> []" by (simp add: createNewExecReport_def)
  ultimately show ?thesis using a builder_inv_create by (simp add: add_inv_def)
qed

lemma has_room_create: "has_room (createNewExecReport b)"
  by (simp add: has_room_def createNewExecReport_def unat_gt_0)

lemma remove_create: "removeLastExecReport (createNewExecReport b) = b"
  by (simp add: removeLastExecReport_def createNewExecReport_def)

text \<open>What \<open>tryBuildReport\<close> and \<open>handleEmptyReport\<close> leave behind.\<close>

definition try_post ::
  "exec_lib \<Rightarrow> CommitData set \<Rightarrow> execReportBuilder \<Rightarrow> CommitData \<Rightarrow> CommitData \<Rightarrow> (CommitData \<times> bool) result \<times> execReportBuilder \<Rightarrow> bool" where
  "try_post xl src b0 cd0 cd res \<longleftrightarrow> (case res of (r, b') \<Rightarrow> add_inv xl src b0 cd0 b' cd \<and>
     (\<forall>cd' continue. r = Ok (cd', continue) \<longrightarrow> add_inv xl src b0 cd0 b' cd' \<and>
        (continue \<longrightarrow> card (unexecuted cd') < card (unexecuted cd))))"

lemma try_post_same: "add_inv xl src b0 cd0 b cd \<Longrightarrow> (\<And>cd' c. r = Ok (cd', c) \<Longrightarrow> cd' = cd \<and> \<not> c) \<Longrightarrow> try_post xl src b0 cd0 cd (r, b)"
  by (auto simp: try_post_def)

lemma add_inv_any: "add_inv xl src b0 cd0 b cd \<Longrightarrow> add_inv xl src b0 cd0 b' cd' \<Longrightarrow> add_inv xl src b0 cd0 b' cd"
  by (simp add: add_inv_def)

lemma handleEmptyReport_post:
  assumes "add_inv xl src b0 cd0 b cd" and "ready \<noteq> {}" and "\<forall>i \<in> ready. ready_at xl cd i"
  shows "try_post xl src b0 cd0 cd (handleEmptyReport xl b cd ready)"
proof (cases "b_multipleReportsEnabled b \<and> \<not> b_maxReportCount b \<le> of_nat (length (b_execReports b))")
  case False
  then have "handleEmptyReport xl b cd ready = (Ok (cd, False), b)" by (auto simp: handleEmptyReport_def)
  with assms(1) show ?thesis by (auto intro!: try_post_same)
next
  case True
  let ?b = "createNewExecReport b"
  note inv = add_inv_create [OF assms(1)]
  obtain r b1 where r: "buildSingleChainReport xl ?b cd ready = (r, b1)" by fastforce
  show ?thesis
  proof (cases r)
    case (Ok p)
    obtain cr cd' where p: "p = (cr, cd')" by fastforce
    from r have r': "buildSingleChainReport xl ?b cd ready = (Ok (cr, cd'), b1)" by (simp add: Ok p)
    obtain b2 where b2: "push_report b1 (length (b_execReports ?b) - 1) cr cd' = Some b2" "add_inv xl src b0 cd0 b2 cd'"
        "card (unexecuted cd') < card (unexecuted cd)"
      by (rule build_push [OF inv has_room_create assms(2,3) r'])
    have "handleEmptyReport xl b cd ready = (Ok (cd', True), b2)"
      using True r' b2(1) by (simp add: handleEmptyReport_def Let_def)
    with b2 assms(1) show ?thesis by (auto simp: try_post_def intro: add_inv_any)
  next
    case (Error e)
    with buildSingleChainReport_fail [OF r] have "b1 = ?b" by simp
    with True r Error have "handleEmptyReport xl b cd ready =
        (if is_empty_report e then (Ok (cd, False), b) else (Error (Wrap ''unable to add a single chain report'' e), ?b))"
      by (simp add: handleEmptyReport_def Let_def remove_create)
    with assms(1) inv show ?thesis by (auto intro!: try_post_same)
  next
    case Panic
    with buildSingleChainReport_fail [OF r] have "b1 = ?b" by simp
    with True r Panic have "handleEmptyReport xl b cd ready = (Panic, ?b)" by (simp add: handleEmptyReport_def Let_def)
    with inv show ?thesis by (auto intro!: try_post_same)
  qed
qed

lemma tryBuildReport_post:
  assumes "add_inv xl src b0 cd0 b cd" and "has_room b" and "ready \<noteq> {}" and "\<forall>i \<in> ready. ready_at xl cd i"
  shows "try_post xl src b0 cd0 cd (tryBuildReport xl b cd ready)"
proof -
  obtain r b1 where r: "buildSingleChainReport xl b cd ready = (r, b1)" by fastforce
  show ?thesis
  proof (cases r)
    case (Ok p)
    obtain cr cd' where p: "p = (cr, cd')" by fastforce
    from r have r': "buildSingleChainReport xl b cd ready = (Ok (cr, cd'), b1)" by (simp add: Ok p)
    obtain b2 where b2: "push_report b1 (length (b_execReports b) - 1) cr cd' = Some b2" "add_inv xl src b0 cd0 b2 cd'"
        "card (unexecuted cd') < card (unexecuted cd)"
      by (rule build_push [OF assms r'])
    have "tryBuildReport xl b cd ready = (Ok (cd', b_multipleReportsEnabled b2), b2)"
      using r' b2(1) by (simp add: tryBuildReport_def Let_def)
    with b2 assms(1) show ?thesis by (auto simp: try_post_def intro: add_inv_any)
  next
    case (Error e)
    with buildSingleChainReport_fail [OF r] have "b1 = b" by simp
    with r Error have "tryBuildReport xl b cd ready =
        (if is_empty_report e then handleEmptyReport xl b cd ready else (Error (Wrap ''unable to add a single chain report'' e), b))"
      by (simp add: tryBuildReport_def Let_def)
    with assms(1) handleEmptyReport_post [OF assms(1,3,4)] show ?thesis by (auto intro!: try_post_same)
  next
    case Panic
    with buildSingleChainReport_fail [OF r] have "b1 = b" by simp
    with r Panic have "tryBuildReport xl b cd ready = (Panic, b)" by (simp add: tryBuildReport_def Let_def)
    with assms(1) show ?thesis by (auto intro!: try_post_same)
  qed
qed

text \<open>When no new report is asked for, the current one has room for another chain report.\<close>

lemma no_create_has_room:
  assumes "shouldCreateNewExecReport b = Ok False"
  shows "has_room b"
proof (cases "b_maxSingleChainReports b = 0")
  case False
  with assms have "b_execReports b \<noteq> []" "\<not> s64 (uint (b_maxSingleChainReports b)) \<le> int (length (epr_ChainReports (last (b_execReports b))))"
    by (auto simp: shouldCreateNewExecReport_def rbind_Ok_iff slice_get_last split: if_splits)
  then have "int (Suc (length (epr_ChainReports (last (b_execReports b))))) \<le> s64 (uint (b_maxSingleChainReports b))" by simp
  from s64_budget [OF this] have "Suc (length (epr_ChainReports (last (b_execReports b)))) \<le> unat (b_maxSingleChainReports b)"
    by (metis word_le_nat_alt)
  then show ?thesis by (simp add: has_room_def)
qed (simp add: has_room_def)

lemma add_step_post:
  assumes "add_inv xl src b0 cd0 b cd"
  shows "case add_step xl b cd of
      Inl ((cd', _), b') \<Rightarrow> add_inv xl src b0 cd0 b' cd'
    | Inr (b', cd') \<Rightarrow> add_inv xl src b0 cd0 b' cd' \<and> card (unexecuted cd') < card (unexecuted cd)"
proof -
  obtain r b1 where r: "extractReadyMessages b cd = (r, b1)" by fastforce
  have "has_defaults xl b" using assms by (simp add: add_inv_def builder_inv_def)
  from extractReadyMessages_ready [OF this r] obtain cs where b1: "b1 = b\<lparr>b_checks := cs\<rparr>" "has_defaults xl b1"
      and ready: "\<And>ready. r = Ok ready \<Longrightarrow> \<forall>i \<in> ready. ready_at xl cd i" by blast
  have inv: "add_inv xl src b0 cd0 b1 cd"
    using assms b1 builder_inv_checks unfolding add_inv_def by simp
  show ?thesis
  proof (cases r)
    case (Ok rdy)
    show ?thesis
    proof (cases "rdy = {}")
      case True
      with r Ok inv show ?thesis by (simp add: add_step_def)
    next
      case ne: False
      show ?thesis
      proof (cases "shouldCreateNewExecReport b1")
        case sc: (Ok create)
        let ?b2 = "if create then createNewExecReport b1 else b1"
        have inv2: "add_inv xl src b0 cd0 ?b2 cd" using inv add_inv_create by auto
        have room: "has_room ?b2" using sc no_create_has_room has_room_create by (cases create) auto
        obtain t b3 where t: "tryBuildReport xl ?b2 cd rdy = (t, b3)" by fastforce
        have post: "try_post xl src b0 cd0 cd (t, b3)"
          using tryBuildReport_post [OF inv2 room ne ready [OF Ok]] by (simp add: t)
        have "add_step xl b cd =
            (if create \<and> \<not> b_multipleReportsEnabled b1 then Inl ((cd, Ok ()), b1)
             else if b_maxReportCount ?b2 < of_nat (length (b_execReports ?b2)) then Inl ((cd, Ok ()), ?b2)
             else (case t of Panic \<Rightarrow> Inl ((cd, Panic), b3) | Error e \<Rightarrow> Inl ((cd, Error e), b3)
               | Ok (updated, continue) \<Rightarrow> if continue then Inr (b3, updated) else Inl ((updated, Ok ()), b3)))"
          using r Ok ne sc t by (simp add: add_step_def Let_def split: result.splits)
        with inv inv2 post show ?thesis by (auto simp: try_post_def split: result.splits)
      next
        case (Error e)
        with r Ok ne inv show ?thesis by (simp add: add_step_def)
      next
        case Panic
        with r Ok ne inv show ?thesis by (simp add: add_step_def)
      qed
    qed
  qed (use r inv in \<open>simp_all add: add_step_def\<close>)
qed

text \<open>The loop of \<open>Add\<close> ends: every further turn marks at least one more message of the commit report as executed.\<close>

lemma add_loop_returns:
  assumes "add_inv xl src b0 cd0 b cd"
  shows "\<exists>cd' r b'. add_loop xl b cd = Some ((cd', r), b') \<and> add_inv xl src b0 cd0 b' cd'"
  using assms
proof (induction "card (unexecuted cd)" arbitrary: b cd rule: less_induct)
  case less
  show ?case
  proof (cases "add_step xl b cd")
    case (Inl res)
    obtain cd' r b' where res: "res = ((cd', r), b')" by (metis prod.collapse)
    with add_step_post [OF less.prems] Inl show ?thesis by (subst add_loop.simps) simp
  next
    case (Inr s)
    obtain b' cd' where s: "s = (b', cd')" by fastforce
    with add_step_post [OF less.prems] Inr have "add_inv xl src b0 cd0 b' cd'" "card (unexecuted cd') < card (unexecuted cd)" by simp_all
    from less.hyps [OF this(2,1)] Inr s show ?thesis by (subst add_loop.simps) simp
  qed
qed

lemma grown_refl: "grown cd cd"
  by (simp add: grown_def)

lemma config_init: "config (checkInitialize b) = config b"
  by (simp add: checkInitialize_def Let_def)

lemma Add_returns:
  assumes "builder_inv xl src b" and "cd \<in> src"
  shows "\<exists>cd' r b'. Add xl b cd = Some ((cd', r), b') \<and> add_inv xl src b cd b' cd'"
proof -
  have inv: "add_inv xl src b cd (checkInitialize b) cd"
    using builder_inv_init [OF assms(1)] assms(2) by (simp add: add_inv_def config_init grown_refl)
  show ?thesis
  proof (cases "if b_multipleReportsEnabled (checkInitialize b) then validateNoncesForMultipleReports cd else Ok ()")
    case (Ok u)
    then have "Add xl b cd = add_loop xl (checkInitialize b) cd" by (simp add: Add_def Let_def)
    with add_loop_returns [OF inv] show ?thesis by simp
  qed (use inv in \<open>auto simp: Add_def Let_def\<close>)
qed

lemma add_all_returns:
  assumes "builder_inv xl src b" and "set cds \<subseteq> src"
  shows "\<exists>r. add_all xl b cds = Some r \<and> (r = Panic \<or> (\<exists>b'. r = Ok b' \<and> builder_inv xl src b' \<and> config b' = config b))"
  using assms
proof (induction cds arbitrary: b)
  case (Cons cd cds)
  show ?case
  proof (cases "cd_Messages cd = []")
    case True
    with Cons show ?thesis by simp
  next
    case False
    obtain cd' r b' where a: "Add xl b cd = Some ((cd', r), b')" "add_inv xl src b cd b' cd'"
      using Add_returns [OF Cons.prems(1), of cd] Cons.prems(2) by auto
    show ?thesis
    proof (cases "r = Panic")
      case True
      with a False show ?thesis by simp
    next
      case nr: False
      have "builder_inv xl src b'" "config b' = config b" using a(2) by (simp_all add: add_inv_def)
      moreover have "add_all xl b (cd # cds) = add_all xl b' cds" using a(1) False nr by (cases r) simp_all
      ultimately show ?thesis using Cons.IH [of b'] Cons.prems(2) by simp
    qed
  qed
qed simp

definition fresh_builder :: "exec_lib \<Rightarrow> execReportBuilder \<Rightarrow> bool" where
  "fresh_builder xl b \<longleftrightarrow> has_defaults xl b \<and> b_accumulated b = [] \<and> b_execReports b = [] \<and> b_commitReports b = []"

lemma fresh_builder_inv: "fresh_builder xl b \<Longrightarrow> builder_inv xl src b"
  by (simp add: fresh_builder_def builder_inv_def)

text \<open>\<open>Build\<close> returns a prefix of the reports.\<close>

lemma build_results_prefix:
  "\<exists>n. build_results multi m results rs = results @ take n rs \<and> n \<le> length rs \<and>
     (\<not> multi \<or> m = 0 \<longrightarrow> n \<le> 1) \<and> (length results < unat m \<longrightarrow> length results + n \<le> unat m)"
proof (induction rs arbitrary: results)
  case (Cons r rs)
  show ?case
  proof (cases "\<not> multi \<or> m \<le> of_nat (length (results @ [r]))")
    case True
    then show ?thesis by (intro exI [of _ 1]) auto
  next
    case False
    obtain n where n: "build_results multi m (results @ [r]) rs = (results @ [r]) @ take n rs" "n \<le> length rs"
        "length (results @ [r]) < unat m \<longrightarrow> length (results @ [r]) + n \<le> unat m"
      using Cons.IH [of "results @ [r]"] by blast
    have "length results + Suc n \<le> unat m" if "length results < unat m"
    proof -
      have "Suc (length results) < unat m"
        using card_below_limit [of "{..< length results}" m] that False by simp
      with n(3) show ?thesis by simp
    qed
    moreover have "m \<noteq> 0" using False by auto
    ultimately show ?thesis using n(1,2) False by (intro exI [of _ "Suc n"]) auto
  qed
qed simp

lemma selectReports_slots:
  assumes "fresh_builder xl b" and "selectReports xl cds b = Some (Ok (reports, commits))"
  obtains accs where "length reports \<le> length accs" "length commits = length accs"
    "\<And>i. i < length reports \<Longrightarrow> slot_ok xl (set cds) b (accs ! i) (reports ! i) (commits ! i)"
    "length reports \<le> max 1 (unat (b_maxReportCount b))" "\<not> b_multipleReportsEnabled b \<longrightarrow> length reports \<le> 1"
proof -
  obtain r where "add_all xl b cds = Some r" "r = Panic \<or> (\<exists>b'. r = Ok b' \<and> builder_inv xl (set cds) b' \<and> config b' = config b)"
    using add_all_returns [OF fresh_builder_inv [OF assms(1)] subset_refl] by blast
  with assms(2) obtain b' where inv: "builder_inv xl (set cds) b'" and cfg: "config b' = config b" and bld: "Build b' = Ok (reports, commits)"
    by (auto simp: selectReports_def)
  have f: "b_multipleReportsEnabled b' = b_multipleReportsEnabled b" "b_maxReportCount b' = b_maxReportCount b"
    using cfg by (metis config_fields)+
  have com: "commits = b_commitReports b'"
    and res: "reports = build_results (b_multipleReportsEnabled b) (b_maxReportCount b) [] (b_execReports b')"
    using bld by (auto simp: Build_def f split: if_splits)
  obtain n where n0: "build_results (b_multipleReportsEnabled b) (b_maxReportCount b) [] (b_execReports b') = [] @ take n (b_execReports b')"
      "n \<le> length (b_execReports b')" "\<not> b_multipleReportsEnabled b \<or> b_maxReportCount b = 0 \<longrightarrow> n \<le> 1"
      "length ([] :: ExecutePluginReport list) < unat (b_maxReportCount b) \<longrightarrow>
         length ([] :: ExecutePluginReport list) + n \<le> unat (b_maxReportCount b)"
    using build_results_prefix [of "b_multipleReportsEnabled b" "b_maxReportCount b" "[]" "b_execReports b'"] by blast
  then have n: "reports = take n (b_execReports b')" "n \<le> length (b_execReports b')"
      "\<not> b_multipleReportsEnabled b \<or> b_maxReportCount b = 0 \<longrightarrow> n \<le> 1"
      "0 < unat (b_maxReportCount b) \<longrightarrow> n \<le> unat (b_maxReportCount b)"
    by (simp_all add: res)
  have slot: "slot_ok xl (set cds) b' = slot_ok xl (set cds) b" by (metis cfg slot_ok_config)
  show thesis
  proof (rule that [of "b_accumulated b'"])
    show "length reports \<le> length (b_accumulated b')" "length commits = length (b_accumulated b')"
      using inv n(1,2) com by (simp_all add: builder_inv_def)
    show "slot_ok xl (set cds) b (b_accumulated b' ! i) (reports ! i) (commits ! i)" if "i < length reports" for i
      using that inv n(1,2) com by (simp add: builder_inv_def flip: slot)
    show "length reports \<le> max 1 (unat (b_maxReportCount b))"
      using n by (cases "b_maxReportCount b = 0") (auto simp: unat_gt_0)
    show "\<not> b_multipleReportsEnabled b \<longrightarrow> length reports \<le> 1" using n(1,3) by auto
  qed
qed

lemma selected_messages:
  assumes "selected xl src b cr cd"
  shows "er_Messages cr \<noteq> [] \<and> (b_maxMessages b \<noteq> 0 \<longrightarrow> length (er_Messages cr) \<le> unat (b_maxMessages b))"
proof -
  obtain cd1 idxs where "chain_report_of xl cr cd1 idxs" "b_maxMessages b \<noteq> 0 \<longrightarrow> length idxs \<le> unat (b_maxMessages b)"
    using assms unfolding selected_def by blast
  moreover from this have "length (er_Messages cr) = length idxs" "idxs \<noteq> []" by (auto simp: chain_report_of_def)
  ultimately show ?thesis by (metis length_0_conv)
qed

text \<open>C2. Whatever the builder returns respects its limits: the encoded chain reports of one execute report together fit into the
  size limit, their gas fits into the gas limit, no execute report has more chain reports than allowed, no chain report is
  empty or has more messages than allowed, and there are at most as many execute reports as configured (one without
  multiple reports). The gas of a chain report is the builder's own estimate, a 64 bit sum over its messages; the sums over the chain
  reports are exact.\<close>

theorem selectReports_limits:
  assumes "fresh_builder xl b" and "selectReports xl cds b = Some (Ok (reports, commits))"
  shows "length reports \<le> max 1 (unat (b_maxReportCount b)) \<and>
    (\<not> b_multipleReportsEnabled b \<longrightarrow> length reports \<le> 1) \<and>
    (\<forall>r \<in> set reports.
       sum_list (map (enc_size b) (epr_ChainReports r)) \<le> unat (b_maxReportSizeBytes b) \<and>
       sum_list (map (gas_size b) (epr_ChainReports r)) \<le> unat (b_maxGas b) \<and>
       (b_maxSingleChainReports b \<noteq> 0 \<longrightarrow> length (epr_ChainReports r) \<le> unat (b_maxSingleChainReports b)) \<and>
       (\<forall>cr \<in> set (epr_ChainReports r). er_Messages cr \<noteq> [] \<and>
          (b_maxMessages b \<noteq> 0 \<longrightarrow> length (er_Messages cr) \<le> unat (b_maxMessages b))))"
proof -
  obtain accs where slots: "\<And>i. i < length reports \<Longrightarrow> slot_ok xl (set cds) b (accs ! i) (reports ! i) (commits ! i)"
    and len: "length reports \<le> max 1 (unat (b_maxReportCount b))" "\<not> b_multipleReportsEnabled b \<longrightarrow> length reports \<le> 1"
    by (rule selectReports_slots [OF assms]) blast
  have "sum_list (map (enc_size b) (epr_ChainReports r)) \<le> unat (b_maxReportSizeBytes b) \<and>
       sum_list (map (gas_size b) (epr_ChainReports r)) \<le> unat (b_maxGas b) \<and>
       (b_maxSingleChainReports b \<noteq> 0 \<longrightarrow> length (epr_ChainReports r) \<le> unat (b_maxSingleChainReports b)) \<and>
       (\<forall>cr \<in> set (epr_ChainReports r). er_Messages cr \<noteq> [] \<and>
          (b_maxMessages b \<noteq> 0 \<longrightarrow> length (er_Messages cr) \<le> unat (b_maxMessages b)))" if r: "r \<in> set reports" for r
  proof -
    obtain i where "i < length reports" "r = reports ! i" using r by (metis in_set_conv_nth)
    with slots have s: "slot_ok xl (set cds) b (accs ! i) r (commits ! i)" by simp
    then have "\<exists>cd. selected xl (set cds) b cr cd" if "cr \<in> set (epr_ChainReports r)" for cr
      using that by (auto simp: slot_ok_def list_all2_conv_all_nth in_set_conv_nth)
    then have "\<forall>cr \<in> set (epr_ChainReports r). er_Messages cr \<noteq> [] \<and>
          (b_maxMessages b \<noteq> 0 \<longrightarrow> length (er_Messages cr) \<le> unat (b_maxMessages b))"
      using selected_messages by blast
    with s show ?thesis by (simp add: slot_ok_def word_le_nat_alt)
  qed
  with len show ?thesis by blast
qed

text \<open>C3. Every chain report that is returned stands at the position of the commit report it was built from, which is one of the given
  commit reports with more messages marked as executed. It consists of messages of that commit report, in order, none of
  which had been executed or deleted and all of which had their token data; the tree of the commit report's hashes
  has the committed root, and the proof is the one for these messages; per sender the nonces are consecutive; and the
  messages are marked as executed afterwards.\<close>

theorem selectReports_sound:
  assumes "fresh_builder xl b" and "selectReports xl cds b = Some (Ok (reports, commits))"
  shows "length reports \<le> length commits \<and>
    (\<forall>i < length reports. list_all2 (\<lambda>cr cd. \<exists>cd0 \<in> set cds. \<exists>cd1 idxs.
         grown cd0 cd1 \<and> cd = markNewMessagesExecuted cr cd1 \<and>
         chain_report_of xl cr cd1 idxs \<and> (\<forall>k \<in> set idxs. ready_at xl cd1 k) \<and>
         verifyReportNonceContinuity (b_addressCodec b) cr = Ok ())
       (epr_ChainReports (reports ! i)) (commits ! i))"
proof -
  obtain accs where len: "length reports \<le> length accs" "length commits = length accs"
    and slots: "\<And>i. i < length reports \<Longrightarrow> slot_ok xl (set cds) b (accs ! i) (reports ! i) (commits ! i)"
    by (rule selectReports_slots [OF assms]) blast
  have "list_all2 (selected xl (set cds) b) (epr_ChainReports (reports ! i)) (commits ! i)" if "i < length reports" for i
    using slots [OF that] by (simp add: slot_ok_def)
  then have "list_all2 (\<lambda>cr cd. \<exists>cd0 \<in> set cds. \<exists>cd1 idxs.
         grown cd0 cd1 \<and> cd = markNewMessagesExecuted cr cd1 \<and>
         chain_report_of xl cr cd1 idxs \<and> (\<forall>k \<in> set idxs. ready_at xl cd1 k) \<and>
         verifyReportNonceContinuity (b_addressCodec b) cr = Ok ())
       (epr_ChainReports (reports ! i)) (commits ! i)" if "i < length reports" for i
    using that unfolding selected_def by (blast intro: list_all2_mono)
  with len show ?thesis by simp
qed

section \<open>The builder returns\<close>

text \<open>None of the functions the builder is given panics.\<close>

definition panic_free :: "exec_lib \<Rightarrow> execReportBuilder \<Rightarrow> bool" where
  "panic_free xl b \<longleftrightarrow> (\<forall>hs. xl_NewTree xl hs \<noteq> Panic) \<and> (\<forall>hs tree ixs. xl_NewTree xl hs = Ok tree \<longrightarrow> mt_Prove tree ixs \<noteq> Panic) \<and>
     (\<forall>r. xc_Encode (b_encoder b) r \<noteq> Panic) \<and> (\<forall>a c. b_addressCodec b a c \<noteq> Panic) \<and>
     (\<forall>run \<in> ck_run ` set (b_checks b). \<forall>msg i cd env. fst (run msg i cd env) \<noteq> Panic)"

lemma wrap_err_Panic [simp]: "wrap_err s r = Panic \<longleftrightarrow> r = Panic"
  by (cases r) auto

lemma run_checks_panic_free:
  assumes "\<forall>run \<in> ck_run ` set cs. \<forall>msg i cd env. fst (run msg i cd env) \<noteq> Panic"
  shows "fst (run_checks msg i cd cs) \<noteq> Panic" and "ck_run ` set (snd (run_checks msg i cd cs)) = ck_run ` set cs"
proof -
  have "fst (run_checks msg i cd cs) \<noteq> Panic \<and> map ck_run (snd (run_checks msg i cd cs)) = map ck_run cs" using assms
  proof (induction cs)
    case (Cons c cs)
    obtain r env where r: "ck_run c msg i cd (ck_expectedNonce c) = (r, env)" by fastforce
    have "r \<noteq> Panic" using Cons.prems r by (metis fst_conv image_eqI list.set_intros(1))
    with Cons r show ?case by (simp add: Let_def case_prod_unfold)
  qed simp
  then show "fst (run_checks msg i cd cs) \<noteq> Panic" "ck_run ` set (snd (run_checks msg i cd cs)) = ck_run ` set cs"
    by (simp, metis set_map)
qed

lemma ready_loop_panic_free:
  assumes "panic_free xl b" and "ready_loop cd ixs ready b = (r, b')"
  shows "r \<noteq> Panic \<and> panic_free xl b'"
  using assms
proof (induction ixs arbitrary: ready b)
  case (Cons i ixs)
  obtain s b1 where s: "checkMessage b i cd = (s, b1)" by fastforce
  have "s \<noteq> Panic \<and> panic_free xl b1"
  proof (cases "length (cd_Messages cd) \<le> i")
    case False
    have "\<forall>run \<in> ck_run ` set (b_checks b). \<forall>msg i cd env. fst (run msg i cd env) \<noteq> Panic"
      using Cons.prems(1) unfolding panic_free_def by (elim conjE)
    note R = run_checks_panic_free [OF this, of "cd_Messages cd ! i" i cd]
    have eq: "s = fst (run_checks (cd_Messages cd ! i) i cd (b_checks b))"
      "b1 = b\<lparr>b_checks := snd (run_checks (cd_Messages cd ! i) i cd (b_checks b))\<rparr>"
      using s False by (auto simp: checkMessage_def split: prod.splits)
    have "panic_free xl b1" using Cons.prems(1) R(2) unfolding panic_free_def eq(2) by simp
    with R(1) show ?thesis by (simp add: eq(1))
  qed (use s Cons.prems(1) in \<open>auto simp: checkMessage_def\<close>)
  with Cons s show ?case by (cases s) auto
qed auto

lemma helper_panic_free: "panic_free xl b \<Longrightarrow> buildSingleChainReportHelper xl cd ready \<noteq> Panic"
proof -
  assume p: "panic_free xl b"
  have "check_all f (zip ms hs) \<noteq> Panic" if "\<And>x. f x \<noteq> Panic" for f :: "Message \<times> Bytes32 \<Rightarrow> unit result" and ms hs
    using that by (rule check_all_no_panic)
  then have "ConstructMerkleTree xl cd \<noteq> Panic"
    using p by (auto simp: ConstructMerkleTree_def Let_def rbind_Panic_iff panic_free_def split: if_splits prod.splits)
  moreover have "mt_Prove tree ixs \<noteq> Panic" if "ConstructMerkleTree xl cd = Ok tree" for tree ixs
    using that p unfolding panic_free_def ConstructMerkleTree_def Let_def
    by (auto simp: rbind_Ok_iff split: if_splits)
  ultimately show ?thesis
    by (auto simp: buildSingleChainReportHelper_def Let_def rbind_Panic_iff split: if_splits)
qed

lemma nonce_loop_panic_free: "(\<And>a c. codec a c \<noteq> Panic) \<Longrightarrow> nonce_loop codec m msgs \<noteq> Panic"
  by (induction msgs arbitrary: m) (auto simp: Let_def rbind_Panic_iff split: option.splits)

lemma verifyReport_panic_free:
  assumes "panic_free xl b" and "b_accumulated b \<noteq> []"
  shows "verifyReport b cr \<noteq> Panic"
proof -
  have "verifyReportNonceContinuity (b_addressCodec b) cr \<noteq> Panic"
    using assms(1) nonce_loop_panic_free by (auto simp: verifyReportNonceContinuity_def panic_free_def)
  moreover have "xc_Encode (b_encoder b) r \<noteq> Panic" for r using assms(1) by (simp add: panic_free_def)
  ultimately show ?thesis using assms(2)
    by (auto simp: verifyReport_def rbind_Panic_iff slice_get_last split: result.splits option.splits if_splits)
qed

lemma greedy_loop_panic_free:
  assumes "panic_free xl b" and "b_accumulated b \<noteq> []"
  shows "greedy_loop xl b cd ready ixs msgs final \<noteq> Panic"
proof (induction ixs arbitrary: msgs final)
  case (Cons i ixs)
  then show ?case
    using helper_panic_free [OF assms(1)] verifyReport_panic_free [OF assms] by (auto simp: rbind_Panic_iff split: if_splits)
qed simp

lemma buildSingleChainReport_panic_free:
  assumes "panic_free xl b" and "b_accumulated b \<noteq> []"
  shows "fst (buildSingleChainReport xl b cd ready) \<noteq> Panic"
proof -
  have "all_messages_attempt xl b cd ready \<noteq> Panic"
    using helper_panic_free [OF assms(1)] verifyReport_panic_free [OF assms] by (auto simp: all_messages_attempt_def rbind_Panic_iff)
  then have "choose_report xl b cd ready \<noteq> Panic"
    using greedy_loop_panic_free [OF assms] by (auto simp: choose_report_def rbind_Panic_iff split: option.splits if_splits)
  then show ?thesis by (auto simp: buildSingleChainReport_def split: result.splits)
qed

lemma panic_free_update [simp]:
  "panic_free xl (b\<lparr>b_accumulated := x\<rparr>) = panic_free xl b" "panic_free xl (b\<lparr>b_execReports := y\<rparr>) = panic_free xl b"
  "panic_free xl (b\<lparr>b_commitReports := z\<rparr>) = panic_free xl b"
  by (simp_all add: panic_free_def)

lemma panic_free_operations [simp]:
  "panic_free xl (createNewExecReport b) = panic_free xl b" "panic_free xl (removeLastExecReport b) = panic_free xl b"
  "panic_free xl (checkInitialize b) = panic_free xl b" "push_report b i cr cd = Some b' \<Longrightarrow> panic_free xl b' = panic_free xl b"
  by (auto simp: createNewExecReport_def removeLastExecReport_def checkInitialize_def Let_def push_report_def split: if_splits)

lemma panic_free_build: "buildSingleChainReport xl b cd ready = (r, b') \<Longrightarrow> panic_free xl b' = panic_free xl b"
  by (auto simp: buildSingleChainReport_def split: result.splits)

lemma add_inv_accumulated: "add_inv xl src b0 cd0 b cd \<Longrightarrow> b_accumulated b \<noteq> []"
  by (metis add_inv_def builder_inv_def length_0_conv)

lemma handleEmptyReport_panic_free:
  assumes "add_inv xl src b0 cd0 b cd" and "panic_free xl b" and "ready \<noteq> {}" and "\<forall>i \<in> ready. ready_at xl cd i"
    and "handleEmptyReport xl b cd ready = (t, b')"
  shows "t \<noteq> Panic \<and> panic_free xl b'"
proof -
  let ?b = "createNewExecReport b"
  obtain r b1 where r: "buildSingleChainReport xl ?b cd ready = (r, b1)" by fastforce
  have pf: "panic_free xl b1" using panic_free_build [OF r] assms(2) by simp
  have np: "r \<noteq> Panic" using buildSingleChainReport_panic_free [of xl ?b cd ready] assms(2) add_inv_accumulated [OF add_inv_create [OF assms(1)]] r by simp
  show ?thesis
  proof (cases r)
    case (Ok p)
    obtain cr cd' where p: "p = (cr, cd')" by fastforce
    from r have r': "buildSingleChainReport xl ?b cd ready = (Ok (cr, cd'), b1)" by (simp add: Ok p)
    obtain b2 where b2: "push_report b1 (length (b_execReports ?b) - 1) cr cd' = Some b2"
      by (rule build_push [OF add_inv_create [OF assms(1)] has_room_create assms(3,4) r'])
    with pf have "panic_free xl b2" by simp
    with assms(2,5) r' b2 show ?thesis by (auto simp: handleEmptyReport_def Let_def split: if_splits)
  qed (use np pf r assms(2,5) in \<open>auto simp: handleEmptyReport_def Let_def split: if_splits\<close>)
qed

lemma tryBuildReport_panic_free:
  assumes "add_inv xl src b0 cd0 b cd" and "has_room b" and "panic_free xl b" and "ready \<noteq> {}" and "\<forall>i \<in> ready. ready_at xl cd i"
    and "tryBuildReport xl b cd ready = (t, b')"
  shows "t \<noteq> Panic \<and> panic_free xl b'"
proof -
  obtain r b1 where r: "buildSingleChainReport xl b cd ready = (r, b1)" by fastforce
  have pf: "panic_free xl b1" using panic_free_build [OF r] assms(3) by simp
  have np: "r \<noteq> Panic" using buildSingleChainReport_panic_free [OF assms(3) add_inv_accumulated [OF assms(1)], of cd ready] r by simp
  show ?thesis
  proof (cases r)
    case (Ok p)
    obtain cr cd' where p: "p = (cr, cd')" by fastforce
    from r have r': "buildSingleChainReport xl b cd ready = (Ok (cr, cd'), b1)" by (simp add: Ok p)
    obtain b2 where b2: "push_report b1 (length (b_execReports b) - 1) cr cd' = Some b2"
      by (rule build_push [OF assms(1,2,4,5) r'])
    with pf have "panic_free xl b2" by simp
    with assms(6) r' b2 show ?thesis by (auto simp: tryBuildReport_def Let_def)
  next
    case (Error e)
    with buildSingleChainReport_fail [OF r] have "b1 = b" by simp
    with Error r assms(6) handleEmptyReport_panic_free [OF assms(1,3,4,5), of t b'] assms(3) show ?thesis
      by (auto simp: tryBuildReport_def Let_def split: if_splits)
  qed (use np in simp)
qed

lemma add_step_panic_free:
  assumes "add_inv xl src b0 cd0 b cd" and "panic_free xl b"
  shows "case add_step xl b cd of Inl ((_, r), b') \<Rightarrow> r \<noteq> Panic \<and> panic_free xl b' | Inr (b', _) \<Rightarrow> panic_free xl b'"
proof -
  obtain r b1 where r: "extractReadyMessages b cd = (r, b1)" by fastforce
  have "has_defaults xl b" using assms(1) by (simp add: add_inv_def builder_inv_def)
  from extractReadyMessages_ready [OF this r] obtain cs where b1: "b1 = b\<lparr>b_checks := cs\<rparr>" "has_defaults xl b1"
      and ready: "\<And>ready. r = Ok ready \<Longrightarrow> \<forall>i \<in> ready. ready_at xl cd i" by blast
  have inv: "add_inv xl src b0 cd0 b1 cd" using assms(1) b1 builder_inv_checks unfolding add_inv_def by simp
  have pf: "r \<noteq> Panic \<and> panic_free xl b1"
    using ready_loop_panic_free [OF assms(2)] r unfolding extractReadyMessages_def by blast
  show ?thesis
  proof (cases "\<exists>rdy. r = Ok rdy \<and> rdy \<noteq> {}")
    case True
    then obtain rdy where Ok: "r = Ok rdy" and ne: "rdy \<noteq> {}" by blast
    have sc: "\<exists>create. shouldCreateNewExecReport b1 = Ok create"
      using inv by (auto simp: shouldCreateNewExecReport_def slice_get_last add_inv_def)
    then obtain create where sc: "shouldCreateNewExecReport b1 = Ok create" ..
    let ?b2 = "if create then createNewExecReport b1 else b1"
    have inv2: "add_inv xl src b0 cd0 ?b2 cd" using inv add_inv_create by auto
    have room: "has_room ?b2" using sc no_create_has_room has_room_create by (cases create) auto
    obtain t b3 where t: "tryBuildReport xl ?b2 cd rdy = (t, b3)" by fastforce
    have "t \<noteq> Panic \<and> panic_free xl b3"
      using pf by (intro tryBuildReport_panic_free [OF inv2 room _ ne ready [OF Ok] t]) simp
    with r Ok ne sc t pf show ?thesis
      by (auto simp: add_step_def Let_def split: result.splits if_splits)
  qed (use r pf in \<open>cases r; auto simp: add_step_def\<close>)
qed

lemma add_loop_panic_free:
  assumes "add_inv xl src b0 cd0 b cd" and "panic_free xl b"
  shows "\<exists>cd' r b'. add_loop xl b cd = Some ((cd', r), b') \<and> r \<noteq> Panic \<and> panic_free xl b'"
  using assms
proof (induction "card (unexecuted cd)" arbitrary: b cd rule: less_induct)
  case less
  note post = add_step_post [OF less.prems(1)] add_step_panic_free [OF less.prems]
  show ?case
  proof (cases "add_step xl b cd")
    case (Inl res)
    obtain cd' r b' where "res = ((cd', r), b')" by (metis prod.collapse)
    with post Inl show ?thesis by (subst add_loop.simps) simp
  next
    case (Inr s)
    obtain b' cd' where s: "s = (b', cd')" by fastforce
    with post Inr have "card (unexecuted cd') < card (unexecuted cd)" "add_inv xl src b0 cd0 b' cd'" "panic_free xl b'" by simp_all
    from less.hyps [OF this] Inr s show ?thesis by (subst add_loop.simps) simp
  qed
qed

lemma Add_panic_free:
  assumes "builder_inv xl src b" and "cd \<in> src" and "panic_free xl b"
  shows "\<exists>cd' r b'. Add xl b cd = Some ((cd', r), b') \<and> r \<noteq> Panic \<and> panic_free xl b'"
proof -
  have inv: "add_inv xl src b cd (checkInitialize b) cd"
    using builder_inv_init [OF assms(1)] assms(2) by (simp add: add_inv_def config_init grown_refl)
  have pf: "panic_free xl (checkInitialize b)" using assms(3) by simp
  have "validateNoncesForMultipleReports cd \<noteq> Panic"
    unfolding validateNoncesForMultipleReports_def by (rule check_all_no_panic) simp
  with add_loop_panic_free [OF inv pf] pf show ?thesis
    by (cases "if b_multipleReportsEnabled (checkInitialize b) then validateNoncesForMultipleReports cd else Ok ()")
      (auto simp: Add_def Let_def split: if_splits)
qed

lemma add_all_panic_free:
  assumes "builder_inv xl src b" and "set cds \<subseteq> src" and "panic_free xl b"
  shows "add_all xl b cds \<noteq> Some Panic"
  using assms
proof (induction cds arbitrary: b)
  case (Cons cd cds)
  obtain cd' r b' where a: "Add xl b cd = Some ((cd', r), b')" "r \<noteq> Panic" "panic_free xl b'"
    using Add_panic_free [OF Cons.prems(1) _ Cons.prems(3), of cd] Cons.prems(2) by auto
  have "add_inv xl src b cd b' cd'" using Add_returns [OF Cons.prems(1), of cd] Cons.prems(2) a(1) by auto
  then have "builder_inv xl src b'" by (simp add: add_inv_def)
  with Cons a show ?case by (cases r) auto
qed simp

text \<open>C6. Selecting reports always ends. With functions that do not panic it returns reports: an
  error on one commit report does not stop the others, and the lists of \<open>Build\<close> have the same length.\<close>

theorem selectReports_returns:
  assumes "fresh_builder xl b"
  shows "(\<exists>r. selectReports xl cds b = Some r) \<and>
    (panic_free xl b \<longrightarrow> (\<exists>reports commits. selectReports xl cds b = Some (Ok (reports, commits))))"
proof -
  note inv = fresh_builder_inv [OF assms, of "set cds"]
  obtain r where r: "add_all xl b cds = Some r" "r = Panic \<or> (\<exists>b'. r = Ok b' \<and> builder_inv xl (set cds) b' \<and> config b' = config b)"
    using add_all_returns [OF inv subset_refl] by blast
  have "\<exists>reports commits. selectReports xl cds b = Some (Ok (reports, commits))" if "panic_free xl b"
  proof -
    have "r \<noteq> Panic" using add_all_panic_free [OF inv subset_refl that] r(1) by auto
    with r(2) obtain b' where b': "r = Ok b'" "builder_inv xl (set cds) b'" by blast
    then have "\<exists>reports commits. Build b' = Ok (reports, commits)" by (simp add: Build_def builder_inv_def)
    with r(1) b'(1) show ?thesis by (simp add: selectReports_def)
  qed
  with r(1) show ?thesis by (simp add: selectReports_def)
qed

section \<open>Nonces\<close>

fun consecutive :: "u64 list \<Rightarrow> bool" where
  "consecutive (x # y # ys) \<longleftrightarrow> y = x + 1 \<and> consecutive (y # ys)"
| "consecutive _ \<longleftrightarrow> True"

definition msg_sender :: "AddressBytesToString \<Rightarrow> Message \<Rightarrow> string result" where
  "msg_sender codec m = codec (msg_Sender m) (mh_SourceChainSelector (msg_Header m))"

text \<open>The nonces of one sender's ordered messages.\<close>

definition sender_nonces :: "AddressBytesToString \<Rightarrow> string \<Rightarrow> Message list \<Rightarrow> u64 list" where
  "sender_nonces codec s msgs =
     map (\<lambda>m. mh_Nonce (msg_Header m)) (filter (\<lambda>m. mh_Nonce (msg_Header m) \<noteq> 0 \<and> msg_sender codec m = Ok s) msgs)"

lemma nonce_loop_iff:
  assumes "\<forall>s. map_of latest s \<noteq> Some 0"
  shows "nonce_loop codec latest msgs = Ok () \<longleftrightarrow>
    (\<forall>m \<in> set msgs. mh_Nonce (msg_Header m) \<noteq> 0 \<longrightarrow> ret_ok (msg_sender codec m)) \<and>
    (\<forall>s. consecutive ((case map_of latest s of None \<Rightarrow> [] | Some n \<Rightarrow> [n]) @ sender_nonces codec s msgs))"
  using assms
proof (induction msgs arbitrary: latest)
  case Nil
  then show ?case by (auto simp: sender_nonces_def split: option.splits)
next
  case (Cons m msgs)
  let ?n = "mh_Nonce (msg_Header m)"
  show ?case
  proof (cases "?n = 0 \<or> \<not> ret_ok (msg_sender codec m)")
    case True
    then show ?thesis
    proof (cases "?n = 0")
      case True
      with Cons show ?thesis by (simp add: sender_nonces_def)
    next
      case nz: False
      with True have "\<not> ret_ok (codec (msg_Sender m) (mh_SourceChainSelector (msg_Header m)))" by (simp add: msg_sender_def)
      then have "nonce_loop codec latest (m # msgs) \<noteq> Ok ()"
        using nz by (cases "codec (msg_Sender m) (mh_SourceChainSelector (msg_Header m))") (auto simp: Let_def)
      with nz True show ?thesis by auto
    qed
  next
    case False
    then obtain s where nz: "?n \<noteq> 0" and s: "msg_sender codec m = Ok s" by (auto simp: ret_ok_iff)
    let ?latest = "gm_put s ?n latest"
    have IH: "nonce_loop codec ?latest msgs = Ok () \<longleftrightarrow>
        (\<forall>m \<in> set msgs. mh_Nonce (msg_Header m) \<noteq> 0 \<longrightarrow> ret_ok (msg_sender codec m)) \<and>
        (\<forall>t. consecutive ((case map_of ?latest t of None \<Rightarrow> [] | Some n \<Rightarrow> [n]) @ sender_nonces codec t msgs))"
      using Cons.prems nz by (intro Cons.IH) (simp add: gm.get_put)
    have loop: "nonce_loop codec latest (m # msgs) = Ok () \<longleftrightarrow>
        (map_of latest s = None \<or> map_of latest s = Some (?n - 1)) \<and> nonce_loop codec ?latest msgs = Ok ()"
      using nz s Cons.prems by (auto simp: msg_sender_def Let_def split: option.splits)
    have sn: "sender_nonces codec t (m # msgs) = (if t = s then ?n # sender_nonces codec s msgs else sender_nonces codec t msgs)" for t
      using nz s by (auto simp: sender_nonces_def)
    have "(\<forall>t. consecutive ((case map_of latest t of None \<Rightarrow> [] | Some n \<Rightarrow> [n]) @ sender_nonces codec t (m # msgs))) \<longleftrightarrow>
        (map_of latest s = None \<or> map_of latest s = Some (?n - 1)) \<and>
        (\<forall>t. consecutive ((case map_of ?latest t of None \<Rightarrow> [] | Some n \<Rightarrow> [n]) @ sender_nonces codec t msgs))" (is "?L \<longleftrightarrow> ?A \<and> ?R")
    proof -
      have "?L \<longleftrightarrow> consecutive ((case map_of latest s of None \<Rightarrow> [] | Some n \<Rightarrow> [n]) @ ?n # sender_nonces codec s msgs) \<and>
          (\<forall>t. t \<noteq> s \<longrightarrow> consecutive ((case map_of latest t of None \<Rightarrow> [] | Some n \<Rightarrow> [n]) @ sender_nonces codec t msgs))"
        using sn by auto
      also have "\<dots> \<longleftrightarrow> ?A \<and> consecutive (?n # sender_nonces codec s msgs) \<and>
          (\<forall>t. t \<noteq> s \<longrightarrow> consecutive ((case map_of latest t of None \<Rightarrow> [] | Some n \<Rightarrow> [n]) @ sender_nonces codec t msgs))"
        by (auto split: option.splits)
      also have "\<dots> \<longleftrightarrow> ?A \<and> ?R" by (auto simp: gm.get_put)
      finally show ?thesis .
    qed
    with loop IH s show ?thesis by auto
  qed
qed

text \<open>\<open>verifyReportNonceContinuity\<close> accepts a chain report exactly when the sender of every ordered message (nonce not 0) can be
  printed and the nonces of every sender, in the order of the report, increase by one.\<close>

theorem verifyReportNonceContinuity_iff:
  "verifyReportNonceContinuity codec cr = Ok () \<longleftrightarrow>
     (\<forall>m \<in> set (er_Messages cr). mh_Nonce (msg_Header m) \<noteq> 0 \<longrightarrow> ret_ok (msg_sender codec m)) \<and>
     (\<forall>s. consecutive (sender_nonces codec s (er_Messages cr)))"
  using nonce_loop_iff [of "[]" codec "er_Messages cr"] by (simp add: verifyReportNonceContinuity_def)


text \<open>\<open>CheckNonces\<close> with the given captured map, and the nonce it expects next of a sender.\<close>

definition nonce_check :: "NonceObservations \<Rightarrow> AddressBytesToString \<Rightarrow> NonceObservations \<Rightarrow> Check" where
  "nonce_check sendersNonce codec env = (CheckNonces sendersNonce codec)\<lparr>ck_expectedNonce := env\<rparr>"

definition next_nonce :: "NonceObservations \<Rightarrow> ChainSelector \<Rightarrow> NonceObservations \<Rightarrow> string \<Rightarrow> u64" where
  "next_nonce sendersNonce chain env s =
     (case gm_get2 env chain s of Some n \<Rightarrow> n
      | None \<Rightarrow> (case gm_get2 sendersNonce chain s of Some n \<Rightarrow> n + 1 | None \<Rightarrow> 0))"

lemma gm_get2_put2: "gm_get2 (gm_put2 k l v m) k' l' = (if k' = k \<and> l' = l then Some v else gm_get2 m k' l')"
  by (auto simp: gm_get2_def gm_put2_def gm_inner_def gm.get_put split: option.splits)

text \<open>One message: it passes with the nonce that is expected next, or without a nonce; only a passing ordered message moves
  the expected nonce.\<close>

lemma nonce_check_step:
  assumes "run_checks msg i cd [nonce_check sn codec env] = (r, cs)"
  obtains env' where "cs = [nonce_check sn codec env']"
    "r \<noteq> Ok ReadyToExecute \<longrightarrow> next_nonce sn (cd_SourceChain cd) env' = next_nonce sn (cd_SourceChain cd) env"
    "r = Ok ReadyToExecute \<longrightarrow> mh_Nonce (msg_Header msg) = 0 \<longrightarrow> env' = env"
    "r = Ok ReadyToExecute \<longrightarrow> mh_Nonce (msg_Header msg) \<noteq> 0 \<longrightarrow> (\<exists>s. msg_sender codec msg = Ok s \<and>
       mh_Nonce (msg_Header msg) = next_nonce sn (cd_SourceChain cd) env s \<and>
       next_nonce sn (cd_SourceChain cd) env' = (next_nonce sn (cd_SourceChain cd) env)(s := next_nonce sn (cd_SourceChain cd) env s + 1))"
proof -
  let ?c = "cd_SourceChain cd" and ?n = "mh_Nonce (msg_Header msg)"
  define res where "res = ck_run (CheckNonces sn codec) msg i cd env"
  have run: "run_checks msg i cd [nonce_check sn codec env] =
      ((if fst res = Ok NoStatus then Ok ReadyToExecute else fst res), [nonce_check sn codec (snd res)])"
    by (simp add: nonce_check_def res_def Let_def case_prod_unfold)
  have nready: "fst res \<noteq> Ok ReadyToExecute"
    by (auto simp: res_def CheckNonces_def Let_def split: option.splits result.splits)
  have ok: "fst res = Ok NoStatus \<longleftrightarrow> r = Ok ReadyToExecute" using run assms nready by (auto split: if_splits)
  have zero: "?n = 0 \<Longrightarrow> res = (Ok NoStatus, env)" by (simp add: res_def CheckNonces_def)
  have same: "next_nonce sn ?c (snd res) = next_nonce sn ?c env" if "fst res \<noteq> Ok NoStatus"
    using that by (auto simp: res_def CheckNonces_def Let_def next_nonce_def gm_get2_put2 gm_get2_def [of sn] fun_eq_iff
        split: option.splits result.splits if_splits)
  have pass: "\<exists>s. msg_sender codec msg = Ok s \<and> ?n = next_nonce sn ?c env s \<and>
       next_nonce sn ?c (snd res) = (next_nonce sn ?c env)(s := next_nonce sn ?c env s + 1)" if "fst res = Ok NoStatus" "?n \<noteq> 0"
    using that by (auto simp: res_def CheckNonces_def Let_def next_nonce_def gm_get2_put2 gm_get2_def [of sn] fun_eq_iff msg_sender_def
        split: option.splits result.splits if_splits)
  show thesis
    by (rule that [of "snd res"]) (use run assms ok zero same pass in auto)
qed

lemma ready_loop_mono: "ready_loop cd ixs ready b = (Ok ready', b') \<Longrightarrow> ready \<subseteq> ready' \<and> ready' \<subseteq> ready \<union> set ixs"
proof (induction ixs arbitrary: ready b)
  case (Cons i ixs)
  obtain s b1 where s: "checkMessage b i cd = (s, b1)" by fastforce
  with Cons.prems obtain st where st: "s = Ok st" by (cases s) auto
  let ?r = "if st = ReadyToExecute then insert i ready else ready"
  have "ready_loop cd ixs ?r b1 = (Ok ready', b')" using Cons.prems s st by simp
  from Cons.IH [OF this] show ?case by (auto split: if_splits)
qed simp

lemma ready_loop_nonces:
  assumes "ready_loop cd ixs ready b = (Ok ready', b')" and "b_checks b = default_checks xl @ [nonce_check sn codec env]"
    and "distinct ixs" "ready \<inter> set ixs = {}"
  shows "\<exists>env'. b_checks b' = default_checks xl @ [nonce_check sn codec env'] \<and>
    (\<forall>s. let passed = sender_nonces codec s (map ((!) (cd_Messages cd)) (filter (\<lambda>i. i \<in> ready') ixs)) in
       consecutive ((next_nonce sn (cd_SourceChain cd) env s - 1) # passed) \<and>
       next_nonce sn (cd_SourceChain cd) env' s = next_nonce sn (cd_SourceChain cd) env s + of_nat (length passed))"
  using assms
proof (induction ixs arbitrary: ready b env)
  case Nil
  then show ?case by (intro exI [of _ env]) (simp add: sender_nonces_def)
next
  case (Cons i ixs)
  obtain r b1 where r: "checkMessage b i cd = (r, b1)" by fastforce
  with Cons.prems(1) obtain st where st: "r = Ok st" by (cases r) auto
  let ?m = "cd_Messages cd ! i" and ?c = "cd_SourceChain cd"
  let ?rdy = "if st = ReadyToExecute then insert i ready else ready"
  have rest: "ready_loop cd ixs ?rdy b1 = (Ok ready', b')" using Cons.prems(1) r st by simp
  have i: "i < length (cd_Messages cd)" using r st by (auto simp: checkMessage_def split: if_splits)
  have "(st \<noteq> ReadyToExecute \<longrightarrow> i \<notin> ready') \<and> (st = ReadyToExecute \<longrightarrow> i \<in> ready')"
    using ready_loop_mono [OF rest] Cons.prems(3,4) by (auto split: if_splits)
  then have mem: "i \<in> ready' \<longleftrightarrow> st = ReadyToExecute" by blast
  obtain env1 where b1: "b_checks b1 = default_checks xl @ [nonce_check sn codec env1]"
    and e: "st \<noteq> ReadyToExecute \<longrightarrow> next_nonce sn ?c env1 = next_nonce sn ?c env"
      "st = ReadyToExecute \<longrightarrow> mh_Nonce (msg_Header ?m) = 0 \<longrightarrow> env1 = env"
      "st = ReadyToExecute \<longrightarrow> mh_Nonce (msg_Header ?m) \<noteq> 0 \<longrightarrow> (\<exists>s. msg_sender codec ?m = Ok s \<and>
         mh_Nonce (msg_Header ?m) = next_nonce sn ?c env s \<and> next_nonce sn ?c env1 = (next_nonce sn ?c env)(s := next_nonce sn ?c env s + 1))"
  proof -
    obtain q cs where q: "run_checks ?m i cd [nonce_check sn codec env] = (q, cs)" by fastforce
    obtain env2 where E: "cs = [nonce_check sn codec env2]"
      "q \<noteq> Ok ReadyToExecute \<longrightarrow> next_nonce sn ?c env2 = next_nonce sn ?c env"
      "q = Ok ReadyToExecute \<longrightarrow> mh_Nonce (msg_Header ?m) = 0 \<longrightarrow> env2 = env"
      "q = Ok ReadyToExecute \<longrightarrow> mh_Nonce (msg_Header ?m) \<noteq> 0 \<longrightarrow> (\<exists>s. msg_sender codec ?m = Ok s \<and>
         mh_Nonce (msg_Header ?m) = next_nonce sn ?c env s \<and> next_nonce sn ?c env2 = (next_nonce sn ?c env)(s := next_nonce sn ?c env s + 1))"
      by (rule nonce_check_step [OF q])
    have "(st \<noteq> ReadyToExecute \<and> b_checks b1 = default_checks xl @ [nonce_check sn codec env]) \<or>
        (q = Ok st \<and> b_checks b1 = default_checks xl @ cs)"
      using r st i Cons.prems(2) q by (auto simp: checkMessage_def run_checks_defaults simp del: run_checks.simps split: if_splits)
    then show thesis
    proof
      assume "st \<noteq> ReadyToExecute \<and> b_checks b1 = default_checks xl @ [nonce_check sn codec env]"
      then show thesis by (intro that [of env]) simp_all
    next
      assume q2: "q = Ok st \<and> b_checks b1 = default_checks xl @ cs"
      then have "(q = Ok ReadyToExecute) = (st = ReadyToExecute)" by simp
      with q2 E show thesis by (intro that [of env2]) simp_all
    qed
  qed
  have "distinct ixs" "?rdy \<inter> set ixs = {}" using Cons.prems(3,4) by auto
  from Cons.IH [OF rest b1 this] obtain env' where env': "b_checks b' = default_checks xl @ [nonce_check sn codec env']"
    and IH: "\<And>s. consecutive ((next_nonce sn ?c env1 s - 1) # sender_nonces codec s (map ((!) (cd_Messages cd)) (filter (\<lambda>i. i \<in> ready') ixs)))"
      "\<And>s. next_nonce sn ?c env' s = next_nonce sn ?c env1 s +
         of_nat (length (sender_nonces codec s (map ((!) (cd_Messages cd)) (filter (\<lambda>i. i \<in> ready') ixs))))"
    unfolding Let_def by blast
  have "consecutive ((next_nonce sn ?c env s - 1) # sender_nonces codec s (map ((!) (cd_Messages cd)) (filter (\<lambda>i. i \<in> ready') (i # ixs)))) \<and>
       next_nonce sn ?c env' s = next_nonce sn ?c env s +
         of_nat (length (sender_nonces codec s (map ((!) (cd_Messages cd)) (filter (\<lambda>i. i \<in> ready') (i # ixs)))))" for s
  proof (cases "st = ReadyToExecute \<and> mh_Nonce (msg_Header ?m) \<noteq> 0")
    case False
    then have "next_nonce sn ?c env1 = next_nonce sn ?c env" using e(1,2) by auto
    moreover have "sender_nonces codec s (map ((!) (cd_Messages cd)) (filter (\<lambda>i. i \<in> ready') (i # ixs)))
        = sender_nonces codec s (map ((!) (cd_Messages cd)) (filter (\<lambda>i. i \<in> ready') ixs))"
      using False mem by (auto simp: sender_nonces_def)
    ultimately show ?thesis using IH [of s] by simp
  next
    case True
    then obtain t where t: "msg_sender codec ?m = Ok t" "mh_Nonce (msg_Header ?m) = next_nonce sn ?c env t"
        "next_nonce sn ?c env1 = (next_nonce sn ?c env)(t := next_nonce sn ?c env t + 1)" using e(3) by blast
    have "sender_nonces codec s (map ((!) (cd_Messages cd)) (filter (\<lambda>i. i \<in> ready') (i # ixs))) =
        (if s = t then [next_nonce sn ?c env t] else []) @ sender_nonces codec s (map ((!) (cd_Messages cd)) (filter (\<lambda>i. i \<in> ready') ixs))"
      using True mem t(1,2) by (auto simp: sender_nonces_def)
    moreover have "next_nonce sn ?c env1 s = next_nonce sn ?c env s + (if s = t then 1 else 0)" by (simp add: t(3))
    ultimately show ?thesis using IH [of s] by (cases "s = t") simp_all
  qed
  with env' show ?case unfolding Let_def by blast
qed

text \<open>C8. Before the first commit report the check has seen nothing. Then, for every sender, the ordered messages that pass have the
  nonces that directly follow the sender's nonce on the destination chain, and the check expects the next
  one afterwards, also when a message that passed is not put into a report in the end.\<close>

theorem extractReadyMessages_nonces:
  assumes "b_checks b = default_checks xl @ [CheckNonces sn codec]" and "extractReadyMessages b cd = (Ok ready, b')"
    and "gm_get2 sn (cd_SourceChain cd) s = Some n"
  shows "let passed = sender_nonces codec s (map ((!) (cd_Messages cd)) (indices_of cd ready)) in
    consecutive (n # passed) \<and>
    (\<exists>env. b_checks b' = default_checks xl @ [(CheckNonces sn codec)\<lparr>ck_expectedNonce := env\<rparr>] \<and>
       next_nonce sn (cd_SourceChain cd) env s = n + 1 + of_nat (length passed))"
proof -
  have "nonce_check sn codec [] = CheckNonces sn codec" by (simp add: nonce_check_def CheckNonces_def)
  with assms(1) have "b_checks b = default_checks xl @ [nonce_check sn codec []]" by simp
  from ready_loop_nonces [OF assms(2) [unfolded extractReadyMessages_def] this] obtain env
    where "b_checks b' = default_checks xl @ [nonce_check sn codec env]"
      and "let passed = sender_nonces codec s (map ((!) (cd_Messages cd)) (indices_of cd ready)) in
         consecutive ((next_nonce sn (cd_SourceChain cd) [] s - 1) # passed) \<and>
         next_nonce sn (cd_SourceChain cd) env s = next_nonce sn (cd_SourceChain cd) [] s + of_nat (length passed)"
    unfolding indices_of_def by auto
  moreover have "next_nonce sn (cd_SourceChain cd) [] s = n + 1" using assms(3) by (simp add: next_nonce_def gm_get2_def)
  ultimately show ?thesis unfolding nonce_check_def Let_def by auto
qed

section \<open>Concrete runs\<close>

definition sample_exec_msg :: "u64 \<Rightarrow> u64 \<Rightarrow> byte list \<Rightarrow> Message" where
  "sample_exec_msg seqNum nonce data = \<lparr>msg_Header = \<lparr>mh_MessageID = replicate 32 1, mh_SourceChainSelector = 5, mh_DestChainSelector = 7,
       mh_SequenceNumber = seqNum, mh_Nonce = nonce, mh_MsgHash = replicate 32 0, mh_OnRamp = [], mh_TxHash = []\<rparr>,
     msg_Sender = [9], msg_Data = data, msg_Receiver = [], msg_ExtraArgs = [], msg_FeeToken = [], msg_FeeTokenAmount = None,
     msg_FeeValueJuels = None, msg_TokenAmounts = []\<rparr>"

definition sample_exec_cd :: "u64 \<Rightarrow> u64 \<Rightarrow> Message list \<Rightarrow> CommitData" where
  "sample_exec_cd s e msgs = \<lparr>cd_SourceChain = 5, cd_OnRampAddress = [], cd_Timestamp = 0, cd_BlockNum = 0, cd_MerkleRoot = [1],
     cd_SequenceNumberRange = \<lparr>sr_Start = s, sr_End = e\<rparr>, cd_ExecutedMessages = [], cd_Messages = msgs,
     cd_Hashes = map (\<lambda>_. [1]) msgs, cd_MessageTokenData = map (\<lambda>_. \<lparr>mtd_TokenData = []\<rparr>) msgs\<rparr>"

definition sample_xcodec :: ExecutePluginCodec where
  "sample_xcodec = \<lparr>xc_Encode = (\<lambda>r. Ok (concat (map (\<lambda>cr. concat (map msg_Data (er_Messages cr))) (epr_ChainReports r)))),
     xc_Decode = (\<lambda>bs. Ok \<lparr>epr_ChainReports = []\<rparr>)\<rparr>"

definition sample_estimate :: EstimateProvider where
  "sample_estimate = \<lparr>ep_CalculateMessageMaxGas = (\<lambda>_. 10), ep_CalculateMerkleTreeGas = (\<lambda>_. 1)\<rparr>"

definition sample_builder :: "bool \<Rightarrow> u64 \<Rightarrow> u64 \<Rightarrow> execReportBuilder" where
  "sample_builder multiple size0 maxMessages = NewBuilder sample_xl (\<lambda>_. Ok [1]) sample_xcodec (Some sample_estimate) 7 (\<lambda>_ _. Ok ''a'')
     [Some (WithMultipleReports multiple), Some (WithMaxReportsCount 2), Some (WithMaxReportSizeBytes size0), Some (WithMaxGas 100),
      Some (WithExtraMessageCheck (CheckNonces [(5, [(''a'', 4)])] (\<lambda>_ _. Ok ''a''))), Some (WithMaxMessages maxMessages),
      Some (WithMaxSingleChainReports 2)]"

lemma sample_builder_checks:
  "b_checks (sample_builder multiple size0 maxMessages) = default_checks sample_xl @ [CheckNonces [(5, [(''a'', 4)])] (\<lambda>_ _. Ok ''a'')]"
  "b_encoder (sample_builder multiple size0 maxMessages) = sample_xcodec"
  "b_addressCodec (sample_builder multiple size0 maxMessages) = (\<lambda>_ _. Ok ''a'')"
  "fresh_builder sample_xl (sample_builder multiple size0 maxMessages)"
  by (simp_all add: sample_builder_def NewBuilder_def default_checks_def WithMultipleReports_def WithMaxReportsCount_def
      WithMaxReportSizeBytes_def WithMaxGas_def WithExtraMessageCheck_def WithMaxMessages_def WithMaxSingleChainReports_def
      fresh_builder_def has_defaults_def)

definition sample_exec_cds :: "CommitData list" where
  "sample_exec_cds = [sample_exec_cd 1 3 [sample_exec_msg 1 0 [1, 2], sample_exec_msg 2 0 [3, 4], sample_exec_msg 3 0 [5]]]"

lemma sample_select:
  obtains reports commits where
    "selectReports sample_xl sample_exec_cds (sample_builder True 3 0) = Some (Ok (reports, commits))" "length reports = 2"
proof -
  have "(case selectReports sample_xl sample_exec_cds (sample_builder True 3 0) of
      Some (Ok (reports, commits)) \<Rightarrow> length reports = 2 | _ \<Rightarrow> False)"
    by code_simp
  then show thesis by (auto split: option.splits result.splits intro: that)
qed

theorem selectReports_limits_witness:
  "\<exists>reports commits. selectReports sample_xl sample_exec_cds (sample_builder True 3 0) = Some (Ok (reports, commits)) \<and>
     length reports = 2 \<and> (\<forall>r \<in> set reports. sum_list (map (enc_size (sample_builder True 3 0)) (epr_ChainReports r)) \<le> 3)"
proof -
  obtain reports commits where
    r: "selectReports sample_xl sample_exec_cds (sample_builder True 3 0) = Some (Ok (reports, commits))" "length reports = 2"
    by (rule sample_select)
  have "unat (b_maxReportSizeBytes (sample_builder True 3 0)) = 3" by code_simp
  with selectReports_limits [OF sample_builder_checks(4) r(1)] r show ?thesis by auto
qed

theorem selectReports_sound_witness:
  "\<exists>reports commits. selectReports sample_xl sample_exec_cds (sample_builder True 3 0) = Some (Ok (reports, commits)) \<and>
     length reports = 2 \<and> length reports \<le> length commits"
proof -
  obtain reports commits where
    r: "selectReports sample_xl sample_exec_cds (sample_builder True 3 0) = Some (Ok (reports, commits))" "length reports = 2"
    by (rule sample_select)
  with selectReports_sound [OF sample_builder_checks(4) r(1)] show ?thesis by blast
qed

lemma sample_panic_free: "panic_free sample_xl (sample_builder multiple size0 maxMessages)"
  unfolding panic_free_def sample_builder_checks default_checks_def
  by (auto simp: sample_xl_def sample_xcodec_def CheckIfPseudoDeleted_def CheckAlreadyExecuted_def CheckTokenData_def pure_check_def
      CheckNonces_def Let_def split: list.splits option.splits)

theorem selectReports_returns_witness:
  "panic_free sample_xl (sample_builder True 3 0) \<and>
   (\<exists>reports commits. selectReports sample_xl sample_exec_cds (sample_builder True 3 0) = Some (Ok (reports, commits)))"
  using selectReports_returns [OF sample_builder_checks(4), of sample_exec_cds True 3 0] sample_panic_free by blast

theorem extractReadyMessages_nonces_witness:
  "\<exists>ready b'. extractReadyMessages (sample_builder False 3 0) (sample_exec_cd 1 2 [sample_exec_msg 1 5 [1, 2, 3, 4], sample_exec_msg 2 6 [5]])
       = (Ok ready, b') \<and> ready = {0, 1} \<and>
     consecutive (4 # sender_nonces (\<lambda>_ _. Ok ''a'') ''a'' [sample_exec_msg 1 5 [1, 2, 3, 4], sample_exec_msg 2 6 [5]])"
proof -
  let ?cd = "sample_exec_cd 1 2 [sample_exec_msg 1 5 [1, 2, 3, 4], sample_exec_msg 2 6 [5]]"
  obtain r b' where r: "extractReadyMessages (sample_builder False 3 0) ?cd = (r, b')" by fastforce
  have "fst (extractReadyMessages (sample_builder False 3 0) ?cd) = Ok {0, 1}" by code_simp
  with r have ok: "extractReadyMessages (sample_builder False 3 0) ?cd = (Ok {0, 1}, b')" by simp
  have get: "gm_get2 [(5, [(''a'', 4)])] (cd_SourceChain ?cd) ''a'' = Some (4 :: u64)" by code_simp
  have idx: "map ((!) (cd_Messages ?cd)) (indices_of ?cd {0, 1}) = [sample_exec_msg 1 5 [1, 2, 3, 4], sample_exec_msg 2 6 [5]]"
    by (simp add: indices_of_def sample_exec_cd_def)
  show ?thesis
    using extractReadyMessages_nonces [OF sample_builder_checks(1) ok get] ok unfolding Let_def idx by blast
qed

text \<open>Two runs that show what the checks do not rule out. The on-chain nonce of the sender is 4. The message with nonce 5 is too large
  for the report, the greedy loop drops it, and the message with nonce 6 is selected on its own: the continuity check
  starts at the first nonce it sees.\<close>

theorem skipped_nonce_is_selected:
  "map_option (\<lambda>r. case r of Ok (reports, _) \<Rightarrow>
       map (\<lambda>r. map (\<lambda>cr. map (\<lambda>m. mh_Nonce (msg_Header m)) (er_Messages cr)) (epr_ChainReports r)) reports | _ \<Rightarrow> [])
     (selectReports sample_xl [sample_exec_cd 1 2 [sample_exec_msg 1 5 [1, 2, 3, 4], sample_exec_msg 2 6 [5]]] (sample_builder False 3 0))
   = Some [[[6]]]"
  by code_simp

text \<open>The message limit holds for every chain report, not for the report: with a limit of one message, a report has two.\<close>

theorem message_limit_per_chain_report:
  "map_option (\<lambda>r. case r of Ok (reports, _) \<Rightarrow> map (\<lambda>r. map (\<lambda>cr. length (er_Messages cr)) (epr_ChainReports r)) reports | _ \<Rightarrow> [])
     (selectReports sample_xl [sample_exec_cd 1 2 [sample_exec_msg 1 0 [1], sample_exec_msg 2 0 [2]], sample_exec_cd 3 4 [sample_exec_msg 3 0 [1], sample_exec_msg 4 0 [2]]]
        (sample_builder False 9 1))
   = Some [[1, 1]]"
  by code_simp

definition sample_nonce_report :: "u64 list \<Rightarrow> ExecutePluginReportSingleChain" where
  "sample_nonce_report ns = \<lparr>er_SourceChainSelector = 5, er_Messages = map (\<lambda>n. sample_exec_msg 1 n []) ns,
     er_OffchainTokenData = [], er_Proofs = [], er_ProofFlagBits = None\<rparr>"

theorem verifyReportNonceContinuity_iff_witness:
  "verifyReportNonceContinuity (\<lambda>_ _. Ok ''a'') (sample_nonce_report [5, 0, 6]) = Ok () \<and>
   consecutive (sender_nonces (\<lambda>_ _. Ok ''a'') ''a'' (er_Messages (sample_nonce_report [5, 0, 6]))) \<and>
   \<not> consecutive (sender_nonces (\<lambda>_ _. Ok ''a'') ''a'' (er_Messages (sample_nonce_report [5, 7]))) \<and>
   verifyReportNonceContinuity (\<lambda>_ _. Ok ''a'') (sample_nonce_report [5, 7]) \<noteq> Ok ()"
proof -
  have "verifyReportNonceContinuity (\<lambda>_ _. Ok ''a'') (sample_nonce_report [5, 0, 6]) = Ok ()" by code_simp
  moreover have "\<not> consecutive (sender_nonces (\<lambda>_ _. Ok ''a'') ''a'' (er_Messages (sample_nonce_report [5, 7])))" by code_simp
  ultimately show ?thesis
    using verifyReportNonceContinuity_iff [of "\<lambda>_ _. Ok ''a''" "sample_nonce_report [5, 0, 6]"]
      verifyReportNonceContinuity_iff [of "\<lambda>_ _. Ok ''a''" "sample_nonce_report [5, 7]"] by blast
qed

end
