(* ===== verification/ExecValidate.thy ===== *)
theory ExecValidate
  imports ExecReport
begin

text \<open>
  The validation of observations of the execute plugin (the validate functions of execute/plugin\_functions.go and
  execute/plugin.go): who may read what, hashes and token data for exactly the observed messages, and messages for
  exactly the numbers of the observed commit reports. The exact conditions of each check.
\<close>

section \<open>Functions that may not return\<close>

text \<open>A function that runs a loop over sequence numbers has the type \<open>'a result option\<close>, \<^const>\<open>None\<close> when the loop does not end.\<close>

fun obind :: "'a result option \<Rightarrow> ('a \<Rightarrow> 'b result option) \<Rightarrow> 'b result option" where
  "obind None f = None"
| "obind (Some (Ok x)) f = f x"
| "obind (Some (Error e)) f = Some (Error e)"
| "obind (Some Panic) f = Some Panic"

lemma obind_Ok_iff [go_simps]: "obind m f = Some (Ok y) \<longleftrightarrow> (\<exists>x. m = Some (Ok x) \<and> f x = Some (Ok y))"
  by (cases "(m, f)" rule: obind.cases) auto

text \<open>A loop that adds up and stops at the first failure.\<close>

fun fold_or :: "('a \<Rightarrow> 'b \<Rightarrow> 'b result option) \<Rightarrow> 'a list \<Rightarrow> 'b \<Rightarrow> 'b result option" where
  "fold_or f [] s = Some (Ok s)"
| "fold_or f (x # xs) s = obind (f x s) (fold_or f xs)"

section \<open>Reading eligibility (plugin\_functions.go)\<close>

definition validateGetCommitReportsObservation ::
  "exec_lib \<Rightarrow> ChainSelector list \<Rightarrow> ChainSelector \<Rightarrow> CommitObservations \<Rightarrow> unit result" where
  "validateGetCommitReportsObservation xl supportedChains destChain observedData =
     check_all (\<lambda>(_, observedDataOfChain). check_all (\<lambda>data.
         if xl_Bytes32_IsEmpty xl (cd_MerkleRoot data) then Ok ()
         else if destChain \<notin> set supportedChains
         then Error (Err ''invalid observation, destination chain not supported but observed commit report'')
         else Ok ()) observedDataOfChain) observedData"

definition validateGetMessagesObservation :: "ChainSelector list \<Rightarrow> CommitObservations \<Rightarrow> unit result" where
  "validateGetMessagesObservation supportedChains observedData =
     check_all (\<lambda>(chainSel, observedDataOfChain).
         let containsMsgs = list_ex (\<lambda>data. cd_Messages data \<noteq> []) observedDataOfChain
         in if containsMsgs \<and> chainSel \<notin> set supportedChains
            then Error (Err ''observed messages on chain while chain is not supported'') else Ok ()) observedData"

definition validateCommitReportsReadingEligibility ::
  "exec_lib \<Rightarrow> PluginState \<Rightarrow> ChainSelector list \<Rightarrow> ChainSelector \<Rightarrow> CommitObservations \<Rightarrow> unit result" where
  "validateCommitReportsReadingEligibility xl st supportedChains destChain observedData =
     rbind (if st = GetCommitReports
            then wrap_err ''validate get commit reports observation'' (validateGetCommitReportsObservation xl supportedChains destChain observedData)
            else if st = GetMessages
            then wrap_err ''validate get messages observation'' (validateGetMessagesObservation supportedChains observedData)
            else Ok ()) (\<lambda>_.
       check_all (\<lambda>(chainSel, observedDataOfChain).
         check_all (\<lambda>data. if cd_SourceChain data \<noteq> chainSel then Error (Err ''invalid observed data'') else Ok ())
           observedDataOfChain) observedData)"

definition validateMsgsReadingEligibility :: "ChainSelector list \<Rightarrow> MessageObservations \<Rightarrow> unit result" where
  "validateMsgsReadingEligibility supportedChains observedMsgs =
     check_all (\<lambda>(chainSel, msgs).
         if msgs = [] then Ok ()
         else if chainSel \<notin> set supportedChains then Error (Err ''observer not allowed to read from chain'') else Ok ()) observedMsgs"

section \<open>Token data and hashes\<close>

definition validateTokenDataObservations :: "MessageObservations \<Rightarrow> TokenDataObservations \<Rightarrow> unit result" where
  "validateTokenDataObservations observedMsgs tokenData =
     (if length observedMsgs \<noteq> length tokenData then Error (Err ''unexpected number of token data observations'')
      else check_all (\<lambda>(chain, msgs).
        case map_of tokenData chain of
          None \<Rightarrow> Error (Err ''token data not found for chain'')
        | Some chainTd \<Rightarrow>
            if length msgs \<noteq> length chainTd then Error (Err ''unexpected number of token data observations for chain'')
            else check_all (\<lambda>(seq, msg).
                if map_of chainTd seq = None then Error (Err ''token data not found for message'') else Ok ()) msgs) observedMsgs)"

definition validateHashesExist :: "exec_lib \<Rightarrow> MessageObservations \<Rightarrow> MessageHashes \<Rightarrow> unit result" where
  "validateHashesExist xl observedMsgs hashes =
     (if length observedMsgs \<noteq> length hashes then Error (Err ''malformed observation, unexpected number of message hashes'')
      else check_all (\<lambda>(chain, msgs).
        case map_of hashes chain of
          None \<Rightarrow> Error (Err ''hash not found for chain'')
        | Some hashesForChain \<Rightarrow>
            if length msgs \<noteq> length hashesForChain then Error (Err ''unexpected number of message hashes for chain'')
            else check_all (\<lambda>(seq, msg).
                case map_of hashesForChain seq of
                  None \<Rightarrow> Error (Err ''hash not found for message'')
                | Some h \<Rightarrow> if xl_Bytes32_IsEmpty xl h then Error (Err ''hash is empty for message'') else Ok ()) msgs) observedMsgs)"

section \<open>Messages and commit reports\<close>

definition count_range :: "(SeqNum, Message) gomap \<Rightarrow> CommitData \<Rightarrow> int \<Rightarrow> int result option" where
  "count_range msgsMap data msgsCount =
     (case for_seq (sr_Start (cd_SequenceNumberRange data)) (sr_End (cd_SequenceNumberRange data))
        (\<lambda>seqNum n. if map_of msgsMap seqNum = None then Inl (Err ''no message observed for sequence number'') else Inr (n + 1))
        msgsCount of
        None \<Rightarrow> None
      | Some (Inl e) \<Rightarrow> Some (Error e)
      | Some (Inr n) \<Rightarrow> Some (Ok n))"

definition validateMessagesConformToCommitReports :: "CommitObservations \<Rightarrow> MessageObservations \<Rightarrow> unit result option" where
  "validateMessagesConformToCommitReports observedData observedMsgs =
     (if length observedData \<noteq> length observedMsgs
      then Some (Error (Err ''count of observed data and observed msgs do not match''))
      else obind (fold_or (\<lambda>(chain, report) msgsCount.
            case map_of observedMsgs chain of
              None \<Rightarrow> Some (Error (Err ''no messages observed for chain, while report was observed''))
            | Some msgsMap \<Rightarrow> fold_or (count_range msgsMap) report msgsCount) observedData 0) (\<lambda>msgsCount.
          Some (if msgsCount \<noteq> int (length (MessageObservations_Flatten observedMsgs))
                then Error (Err ''messages observed do not match the messages in the commit reports'') else Ok ())))"

fun observed_ranges_loop :: "exec_lib \<Rightarrow> string list \<Rightarrow> SeqNumRange list \<Rightarrow> CommitData list \<Rightarrow> unit result" where
  "observed_ranges_loop xl observedMerkleRoots observedRanges [] = Ok ()"
| "observed_ranges_loop xl observedMerkleRoots observedRanges (data # rest) =
     (let rootStr = xl_Bytes32_String xl (cd_MerkleRoot data); r = cd_SequenceNumberRange data in
      if rootStr \<in> set observedMerkleRoots then Error (Err ''duplicate merkle root observed'')
      else if list_ex (\<lambda>rng. xl_Overlaps xl rng r) observedRanges then Error (Err ''sequence number range overlaps'')
      else if \<not> list_all (xl_Contains xl r) (cd_ExecutedMessages data) then Error (Err ''executed message not in observed range'')
      else observed_ranges_loop xl (rootStr # observedMerkleRoots) (observedRanges @ [r]) rest)"

definition validateObservedSequenceNumbers :: "exec_lib \<Rightarrow> CommitObservations \<Rightarrow> unit result" where
  "validateObservedSequenceNumbers xl observedData =
     check_all (\<lambda>(_, commitData). observed_ranges_loop xl [] [] commitData) observedData"

text \<open>The map of the messages' sequence numbers is only asked for its keys.\<close>

definition msgsConformToSeqRange :: "exec_lib \<Rightarrow> Message list \<Rightarrow> SeqNumRange \<Rightarrow> bool option" where
  "msgsConformToSeqRange xl msgs numberRange =
     (let seqNums = map (\<lambda>msg. mh_SequenceNumber (msg_Header msg)) msgs in
      if int (length (remdups seqNums)) \<noteq> xl_Length xl numberRange then Some False
      else (case for_seq (sr_Start numberRange) (sr_End numberRange)
                   (\<lambda>i u. if i \<notin> set seqNums then Inl False else Inr u) () of
              None \<Rightarrow> None
            | Some (Inl b) \<Rightarrow> Some b
            | Some (Inr _) \<Rightarrow> Some True))"

section \<open>plugin.go: the two groups of checks\<close>

definition validateNoMessageRelatedObservations ::
  "MessageObservations \<Rightarrow> TokenDataObservations \<Rightarrow> MessageHashes \<Rightarrow> unit result" where
  "validateNoMessageRelatedObservations messages tokenData hashes =
     (if messages \<noteq> [] then Error (Err ''messages are not expected in initial or GetCommitRerports states'')
      else if tokenData \<noteq> [] then Error (Err ''token data is not expected in initial or GetCommitRerports states'')
      else if hashes \<noteq> [] then Error (Err ''hashes are not expected in initial or GetCommitRerports states'')
      else Ok ())"

definition validateMessagesRelatedObservations ::
  "exec_lib \<Rightarrow> CommitObservations \<Rightarrow> MessageObservations \<Rightarrow> TokenDataObservations \<Rightarrow> MessageHashes \<Rightarrow> unit result option" where
  "validateMessagesRelatedObservations xl commitReports messages tokenData hashes =
     obind (map_option (wrap_err ''validate messages conform to commit reports'')
              (validateMessagesConformToCommitReports commitReports messages)) (\<lambda>_.
       Some (rbind (wrap_err ''validate hashes exist'' (validateHashesExist xl messages hashes)) (\<lambda>_.
               wrap_err ''validate token data observations'' (validateTokenDataObservations messages tokenData))))"

section \<open>Maps with the same keys\<close>

definition gm_ok2 :: "('k, ('l, 'v) gomap) gomap \<Rightarrow> bool" where
  "gm_ok2 m \<longleftrightarrow> gm_ok m \<and> (\<forall>(_, m') \<in> set m. gm_ok m')"

definition inner_keys :: "('k, ('l, 'v) gomap) gomap \<Rightarrow> 'k \<Rightarrow> 'l set" where
  "inner_keys m k = fst ` set (gm_inner m k)"

lemma gm_ok2_inner: "gm_ok2 m \<Longrightarrow> map_of m k = Some m' \<Longrightarrow> gm_ok m'"
  by (auto simp: gm_ok2_def dest: map_of_SomeD)

lemma gm_inner_Some: "map_of m k = Some m' \<Longrightarrow> gm_inner m k = m'"
  by (simp add: gm_inner_def)

lemma card_keys: "gm_ok m \<Longrightarrow> card (fst ` set m) = length m"
  unfolding gm_ok_def by (metis distinct_card length_map set_map)

lemma same_length_keys:
  assumes "gm_ok m" and "gm_ok m'"
  shows "length m = length m' \<and> fst ` set m \<subseteq> fst ` set m' \<longleftrightarrow> fst ` set m = fst ` set m'"
  using card_keys [OF assms(1)] card_keys [OF assms(2)] card_subset_eq [of "fst ` set m'" "fst ` set m"] by auto

lemma key_in_map: "map_of m k \<noteq> None \<longleftrightarrow> k \<in> fst ` set m"
  by (simp add: map_of_eq_None_iff)

lemma ball_keys: "(\<forall>(k, _) \<in> set m. P k) \<longleftrightarrow> (\<forall>k \<in> fst ` set m. P k)"
  by (auto simp: case_prod_unfold)

text \<open>The loop that checks, for every message, an entry in another map of maps, after comparing the numbers of entries.\<close>

lemma check_keys:
  assumes "gm_ok2 m" and "gm_ok2 m'"
    and check: "\<And>chain msgs. (chain, msgs) \<in> set m \<Longrightarrow> check (chain, msgs) = Ok () \<longleftrightarrow>
      (\<exists>m1. map_of m' chain = Some m1 \<and> length msgs = length m1 \<and> (\<forall>seq \<in> fst ` set msgs. \<exists>x. map_of m1 seq = Some x \<and> P x))"
  shows "length m = length m' \<and> check_all check m = Ok () \<longleftrightarrow> fst ` set m = fst ` set m' \<and>
    (\<forall>chain \<in> fst ` set m. inner_keys m chain = inner_keys m' chain \<and> (\<forall>x \<in> snd ` set (gm_inner m' chain). P x))"
proof -
  have one: "(\<exists>m1. map_of m' chain = Some m1 \<and> length msgs = length m1 \<and> (\<forall>seq \<in> fst ` set msgs. \<exists>x. map_of m1 seq = Some x \<and> P x))
     \<longleftrightarrow> chain \<in> fst ` set m' \<and> inner_keys m chain = inner_keys m' chain \<and> (\<forall>x \<in> snd ` set (gm_inner m' chain). P x)" (is "?L \<longleftrightarrow> ?R")
    if mem: "(chain, msgs) \<in> set m" for chain msgs
  proof (cases "map_of m' chain")
    case None
    then have "chain \<notin> fst ` set m'" by (simp add: map_of_eq_None_iff)
    with None show ?thesis by simp
  next
    case (Some m1)
    have get: "map_of m chain = Some msgs" using mem assms(1) by (simp add: gm_ok2_def gm_get_iff)
    have ok: "gm_ok msgs" "gm_ok m1" using gm_ok2_inner [OF assms(1) get] gm_ok2_inner [OF assms(2) Some] by blast+
    have "chain \<in> fst ` set m'" using Some key_in_map by (metis option.distinct(1))
    moreover have "inner_keys m chain = fst ` set msgs" "inner_keys m' chain = fst ` set m1" "gm_inner m' chain = m1"
      using get Some by (simp_all add: inner_keys_def gm_inner_Some)
    moreover have "length msgs = length m1 \<and> (\<forall>seq \<in> fst ` set msgs. \<exists>x. map_of m1 seq = Some x \<and> P x) \<longleftrightarrow>
        fst ` set msgs = fst ` set m1 \<and> (\<forall>x \<in> snd ` set m1. P x)" (is "?A \<longleftrightarrow> ?B")
    proof
      assume a: ?A
      have "fst ` set msgs \<subseteq> fst ` set m1" using a key_in_map [of m1] by fastforce
      with a have eq: "fst ` set msgs = fst ` set m1" using same_length_keys [OF ok] by blast
      have "P x" if "(seq, x) \<in> set m1" for seq x
      proof -
        have "seq \<in> fst ` set msgs" using that eq by force
        with a obtain y where "map_of m1 seq = Some y" "P y" by blast
        moreover have "map_of m1 seq = Some x" using that ok(2) by (simp add: gm_get_iff)
        ultimately show ?thesis by simp
      qed
      with eq show ?B by auto
    next
      assume b: ?B
      have "\<exists>x. map_of m1 seq = Some x \<and> P x" if "seq \<in> fst ` set msgs" for seq
      proof -
        have "seq \<in> fst ` set m1" using that b by simp
        then obtain x where "map_of m1 seq = Some x" using key_in_map [of m1 seq] by blast
        moreover from this have "x \<in> snd ` set m1" by (metis map_of_SomeD image_eqI snd_conv)
        ultimately show ?thesis using b by blast
      qed
      then show ?A using b same_length_keys [OF ok] by auto
    qed
    ultimately show ?thesis using Some by simp
  qed
  have "check_all check m = Ok () \<longleftrightarrow> (\<forall>(chain, msgs) \<in> set m. chain \<in> fst ` set m' \<and> inner_keys m chain = inner_keys m' chain \<and>
      (\<forall>x \<in> snd ` set (gm_inner m' chain). P x))"
    unfolding check_all_Ok_iff
  proof (rule ball_cong [OF refl])
    fix x assume "x \<in> set m"
    moreover obtain chain msgs where x: "x = (chain, msgs)" by fastforce
    ultimately have "(chain, msgs) \<in> set m" by simp
    from check [OF this] one [OF this] show "check x = Ok () \<longleftrightarrow> (case x of (chain, msgs) \<Rightarrow> chain \<in> fst ` set m' \<and>
        inner_keys m chain = inner_keys m' chain \<and> (\<forall>x \<in> snd ` set (gm_inner m' chain). P x))"
      by (simp only: x prod.case)
  qed
  also have "\<dots> \<longleftrightarrow> fst ` set m \<subseteq> fst ` set m' \<and> (\<forall>chain \<in> fst ` set m. inner_keys m chain = inner_keys m' chain \<and>
      (\<forall>x \<in> snd ` set (gm_inner m' chain). P x))"
    unfolding ball_keys by blast
  finally show ?thesis using same_length_keys [of m m'] assms(1,2) by (auto simp: gm_ok2_def)
qed

lemma validateTokenDataObservations_iff:
  assumes "gm_ok2 m" and "gm_ok2 td"
  shows "validateTokenDataObservations m td = Ok () \<longleftrightarrow>
    fst ` set m = fst ` set td \<and> (\<forall>chain \<in> fst ` set m. inner_keys m chain = inner_keys td chain)"
proof -
  let ?check = "\<lambda>(chain, msgs). case map_of td chain of
          None \<Rightarrow> Error (Err ''token data not found for chain'')
        | Some chainTd \<Rightarrow>
            if length msgs \<noteq> length chainTd then Error (Err ''unexpected number of token data observations for chain'')
            else check_all (\<lambda>(seq, msg).
                if map_of chainTd seq = None then Error (Err ''token data not found for message'') else Ok ()) msgs"
  have "length m = length td \<and> check_all ?check m = Ok () \<longleftrightarrow> fst ` set m = fst ` set td \<and>
      (\<forall>chain \<in> fst ` set m. inner_keys m chain = inner_keys td chain \<and> (\<forall>x \<in> snd ` set (gm_inner td chain). True))"
    by (rule check_keys [OF assms]) (fastforce simp: check_all_Ok_iff split: option.splits if_splits)
  then show ?thesis by (auto simp: validateTokenDataObservations_def)
qed

lemma validateHashesExist_iff:
  assumes "gm_ok2 m" and "gm_ok2 hs"
  shows "validateHashesExist xl m hs = Ok () \<longleftrightarrow>
    fst ` set m = fst ` set hs \<and> (\<forall>chain \<in> fst ` set m. inner_keys m chain = inner_keys hs chain \<and>
      (\<forall>h \<in> snd ` set (gm_inner hs chain). \<not> xl_Bytes32_IsEmpty xl h))"
proof -
  let ?check = "\<lambda>(chain, msgs). case map_of hs chain of
          None \<Rightarrow> Error (Err ''hash not found for chain'')
        | Some hashesForChain \<Rightarrow>
            if length msgs \<noteq> length hashesForChain then Error (Err ''unexpected number of message hashes for chain'')
            else check_all (\<lambda>(seq, msg).
                case map_of hashesForChain seq of
                  None \<Rightarrow> Error (Err ''hash not found for message'')
                | Some h \<Rightarrow> if xl_Bytes32_IsEmpty xl h then Error (Err ''hash is empty for message'') else Ok ()) msgs"
  have "length m = length hs \<and> check_all ?check m = Ok () \<longleftrightarrow> fst ` set m = fst ` set hs \<and>
      (\<forall>chain \<in> fst ` set m. inner_keys m chain = inner_keys hs chain \<and>
         (\<forall>x \<in> snd ` set (gm_inner hs chain). \<not> xl_Bytes32_IsEmpty xl x))"
    by (rule check_keys [OF assms]) (fastforce simp: check_all_Ok_iff split: option.splits if_splits)
  then show ?thesis by (auto simp: validateHashesExist_def)
qed

section \<open>Counting the messages of the commit reports\<close>

lemma fold_until_check:
  "fold_until (\<lambda>x n. if P x then Inl e else Inr (n + 1)) xs (a :: int) =
     (if \<forall>x \<in> set xs. \<not> P x then Inr (a + int (length xs)) else Inl e)"
  by (induction xs arbitrary: a) auto

text \<open>A range that ends at the largest number never completes.\<close>

lemma for_seq_max_not_Inr: "for_seq s e f a = Some (Inr x) \<Longrightarrow> e \<noteq> - 1"
proof -
  have "for_seq s e f a = Some r \<Longrightarrow> r = Inr x \<longrightarrow> e \<noteq> - 1" for r
  proof (rule for_seq.raw_induct [where P = "\<lambda>s e f a r. r = Inr x \<longrightarrow> e \<noteq> - 1"], goal_cases)
    case (1 go s e f a r)
    show ?case
    proof (cases "s \<le> e")
      case True
      show ?thesis
      proof (cases "f s a")
        case (Inr a')
        with 1(3) True have "go (s + 1) e f a' = Some r" by simp
        with 1(2) show ?thesis by blast
      qed (use 1(3) True in auto)
    qed (auto simp: word_order.extremum)
  qed
  then show "for_seq s e f a = Some (Inr x) \<Longrightarrow> e \<noteq> - 1" by blast
qed

lemma count_range_Ok:
  "count_range m d n = Some (Ok n') \<longleftrightarrow>
     sr_End (rng d) \<noteq> - 1 \<and> range_set (rng d) \<subseteq> fst ` set m \<and> n' = n + int (length (seq_list (sr_Start (rng d)) (sr_End (rng d))))"
proof (cases "sr_End (rng d) = - 1")
  case True
  have "count_range m d n \<noteq> Some (Ok n')"
    using for_seq_max_not_Inr True by (fastforce simp: count_range_def split: option.splits sum.splits)
  with True show ?thesis by simp
next
  case False
  have "(\<forall>x \<in> set (seq_list (sr_Start (rng d)) (sr_End (rng d))). map_of m x \<noteq> None) \<longleftrightarrow> range_set (rng d) \<subseteq> fst ` set m"
    by (simp only: set_seq_list range_set_def key_in_map subset_iff Ball_def)
  then show ?thesis using False
    by (auto simp: count_range_def for_seq_fold fold_until_check)
qed

definition ranges_sum :: "CommitData list \<Rightarrow> nat" where
  "ranges_sum ds = sum_list (map (\<lambda>d. length (seq_list (sr_Start (rng d)) (sr_End (rng d)))) ds)"

definition all_ranges :: "CommitData list \<Rightarrow> SeqNum set" where
  "all_ranges ds = (\<Union>d \<in> set ds. range_set (rng d))"

definition disjoint_ranges :: "CommitData list \<Rightarrow> bool" where
  "disjoint_ranges ds \<longleftrightarrow> sorted_wrt (\<lambda>a b. range_set (rng a) \<inter> range_set (rng b) = {}) ds"

lemma length_seq_list_card: "length (seq_list s e) = card {s .. e}"
  by (metis distinct_card distinct_seq_list set_seq_list)

lemma ranges_sum_card: "disjoint_ranges ds \<Longrightarrow> ranges_sum ds = card (all_ranges ds)"
proof (induction ds)
  case (Cons d ds)
  have "range_set (rng d) \<inter> all_ranges ds = {}" using Cons.prems by (auto simp: disjoint_ranges_def all_ranges_def)
  moreover have "finite (range_set (rng d))" "finite (all_ranges ds)"
    by (simp_all add: range_set_def all_ranges_def)
  ultimately have "card (all_ranges (d # ds)) = card (range_set (rng d)) + card (all_ranges ds)"
    by (simp add: all_ranges_def card_Un_disjoint)
  moreover have "ranges_sum ds = card (all_ranges ds)" using Cons by (simp add: disjoint_ranges_def)
  ultimately show ?case by (simp add: ranges_sum_def length_seq_list_card range_set_def)
qed (simp add: ranges_sum_def all_ranges_def)

lemma fold_count_range_Ok:
  "fold_or (count_range m) ds n = Some (Ok n') \<longleftrightarrow>
     (\<forall>d \<in> set ds. sr_End (rng d) \<noteq> - 1) \<and> all_ranges ds \<subseteq> fst ` set m \<and> n' = n + int (ranges_sum ds)"
  by (induction ds arbitrary: n) (auto simp: obind_Ok_iff count_range_Ok ranges_sum_def all_ranges_def)

lemma fold_chains_Ok:
  "fold_or (\<lambda>(chain, report) n. case map_of msgs chain of None \<Rightarrow> Some (Error e) | Some m \<Rightarrow> fold_or (count_range m) report n) co n = Some (Ok n') \<longleftrightarrow>
     (\<forall>(chain, ds) \<in> set co. chain \<in> fst ` set msgs \<and> (\<forall>d \<in> set ds. sr_End (rng d) \<noteq> - 1) \<and> all_ranges ds \<subseteq> inner_keys msgs chain) \<and>
     n' = n + (\<Sum>(chain, ds) \<leftarrow> co. int (ranges_sum ds))"
proof (induction co arbitrary: n)
  case (Cons p co)
  obtain chain ds where p: "p = (chain, ds)" by fastforce
  show ?case
  proof (cases "map_of msgs chain")
    case None
    then have "chain \<notin> fst ` set msgs" by (simp add: map_of_eq_None_iff)
    with None show ?thesis by (auto simp: p obind_Ok_iff)
  next
    case (Some m)
    then have "chain \<in> fst ` set msgs" "inner_keys msgs chain = fst ` set m"
      using key_in_map by (force, simp add: inner_keys_def gm_inner_Some)
    with Some show ?thesis by (auto simp: p obind_Ok_iff fold_count_range_Ok Cons.IH)
  qed
qed auto

lemma flatten_length: "gm_ok2 msgs \<Longrightarrow> length (MessageObservations_Flatten msgs) = (\<Sum>chain \<in> fst ` set msgs. card (inner_keys msgs chain))"
proof -
  assume ok: "gm_ok2 msgs"
  have "length (MessageObservations_Flatten msgs) = (\<Sum>(chain, m) \<leftarrow> msgs. length m)"
    by (simp add: MessageObservations_Flatten_def length_concat comp_def case_prod_unfold)
  also have "\<dots> = (\<Sum>chain \<leftarrow> map fst msgs. card (inner_keys msgs chain))"
  proof -
    have "length m = card (inner_keys msgs chain)" if "(chain, m) \<in> set msgs" for chain m
    proof -
      have "map_of msgs chain = Some m" using that ok by (simp add: gm_ok2_def gm_get_iff)
      with gm_ok2_inner [OF ok this] show ?thesis by (simp add: inner_keys_def gm_inner_Some card_keys)
    qed
    then show ?thesis by (auto simp: comp_def case_prod_unfold intro!: arg_cong [where f = sum_list] map_cong)
  qed
  also have "\<dots> = (\<Sum>chain \<in> fst ` set msgs. card (inner_keys msgs chain))"
    using ok by (subst sum_list_distinct_conv_sum_set) (simp_all add: gm_ok2_def gm_ok_def)
  finally show ?thesis .
qed

text \<open>With disjoint ranges, the observed messages of every chain are exactly those of its commit reports.\<close>

lemma messages_conform_iff:
  assumes "gm_ok co" and "gm_ok2 msgs" and "\<forall>(chain, ds) \<in> set co. disjoint_ranges ds"
  shows "validateMessagesConformToCommitReports co msgs = Some (Ok ()) \<longleftrightarrow>
    fst ` set co = fst ` set msgs \<and>
    (\<forall>(chain, ds) \<in> set co. (\<forall>d \<in> set ds. sr_End (rng d) \<noteq> - 1) \<and> inner_keys msgs chain = all_ranges ds)"
proof -
  let ?ends = "\<forall>(chain, ds) \<in> set co. \<forall>d \<in> set ds. sr_End (rng d) \<noteq> - 1"
  let ?sub = "\<forall>(chain, ds) \<in> set co. all_ranges ds \<subseteq> inner_keys msgs chain"
  have gm: "gm_ok msgs" using assms(2) by (simp add: gm_ok2_def)
  have get: "gm_vals co chain = ds" if "(chain, ds) \<in> set co" for chain ds
    using that assms(1) by (simp add: gm_vals_def flip: gm_get_iff)
  have sum: "(\<Sum>(chain, ds) \<leftarrow> co. int (ranges_sum ds)) = int (\<Sum>chain \<in> fst ` set co. card (all_ranges (gm_vals co chain)))"
  proof -
    have "(\<Sum>(chain, ds) \<leftarrow> co. int (ranges_sum ds)) = (\<Sum>chain \<leftarrow> map fst co. int (card (all_ranges (gm_vals co chain))))"
      using assms(3) get by (auto simp: comp_def case_prod_unfold ranges_sum_card intro!: arg_cong [where f = sum_list] map_cong)
    also have "\<dots> = (\<Sum>chain \<in> fst ` set co. int (card (all_ranges (gm_vals co chain))))"
      using assms(1) by (subst sum_list_distinct_conv_sum_set) (simp_all add: gm_ok_def)
    finally show ?thesis by simp
  qed
  have split: "(\<forall>(chain, ds) \<in> set co. chain \<in> fst ` set msgs \<and> (\<forall>d \<in> set ds. sr_End (rng d) \<noteq> - 1) \<and> all_ranges ds \<subseteq> inner_keys msgs chain)
      \<longleftrightarrow> fst ` set co \<subseteq> fst ` set msgs \<and> ?ends \<and> ?sub"
    by (auto simp: case_prod_unfold image_subset_iff)
  have "validateMessagesConformToCommitReports co msgs = Some (Ok ()) \<longleftrightarrow>
      length co = length msgs \<and> fst ` set co \<subseteq> fst ` set msgs \<and> ?ends \<and> ?sub \<and>
      int (\<Sum>chain \<in> fst ` set co. card (all_ranges (gm_vals co chain))) = int (\<Sum>chain \<in> fst ` set msgs. card (inner_keys msgs chain))"
    unfolding validateMessagesConformToCommitReports_def
    by (cases "length co = length msgs") (simp_all add: obind_Ok_iff fold_chains_Ok split sum flatten_length [OF assms(2)])
  also have "\<dots> \<longleftrightarrow> fst ` set co = fst ` set msgs \<and> ?ends \<and> ?sub \<and>
      (\<Sum>chain \<in> fst ` set msgs. card (all_ranges (gm_vals co chain))) = (\<Sum>chain \<in> fst ` set msgs. card (inner_keys msgs chain))"
  proof (cases "fst ` set co = fst ` set msgs")
    case True
    then have "length co = length msgs" using same_length_keys [OF assms(1) gm] by blast
    then show ?thesis by (simp only: True int_int_eq subset_refl simp_thms)
  next
    case False
    then have "\<not> (length co = length msgs \<and> fst ` set co \<subseteq> fst ` set msgs)" using same_length_keys [OF assms(1) gm] by blast
    with False show ?thesis by argo
  qed
  also have "\<dots> \<longleftrightarrow> fst ` set co = fst ` set msgs \<and> ?ends \<and> (\<forall>(chain, ds) \<in> set co. inner_keys msgs chain = all_ranges ds)"
    (is "?k \<and> _ \<and> _ \<and> ?s \<longleftrightarrow> _ \<and> _ \<and> ?eq")
  proof -
    have "?sub \<and> ?s \<longleftrightarrow> ?eq" if keys: ?k
    proof
      assume a: "?sub \<and> ?s"
      then have s: ?s by (rule conjunct2)
      have sub: "all_ranges ds \<subseteq> inner_keys msgs chain" if "(chain, ds) \<in> set co" for chain ds
        using conjunct1 [OF a] that by auto
      have fin: "finite (inner_keys msgs chain)" for chain by (simp add: inner_keys_def)
      have le: "card (all_ranges (gm_vals co chain)) \<le> card (inner_keys msgs chain)" if "chain \<in> fst ` set msgs" for chain
      proof -
        have "chain \<in> fst ` set co" using that unfolding keys .
        then obtain ds where ds: "(chain, ds) \<in> set co" by auto
        show ?thesis unfolding get [OF ds] by (rule card_mono [OF fin sub [OF ds]])
      qed
      show ?eq
      proof clarify
        fix chain ds assume mem: "(chain, ds) \<in> set co"
        have c: "chain \<in> fst ` set msgs" unfolding keys [symmetric] using mem by (rule image_eqI [rotated]) simp
        have "card (all_ranges (gm_vals co chain)) = card (inner_keys msgs chain)"
          by (rule sum_mono_inv [OF s le c]) simp_all
        then show "inner_keys msgs chain = all_ranges ds"
          using card_subset_eq [OF fin sub [OF mem]] by (simp add: get [OF mem])
      qed
    next
      assume eq: ?eq
      have "card (all_ranges (gm_vals co chain)) = card (inner_keys msgs chain)" if "chain \<in> fst ` set msgs" for chain
      proof -
        have "chain \<in> fst ` set co" using that unfolding keys .
        then obtain ds where ds: "(chain, ds) \<in> set co" by auto
        with eq show ?thesis unfolding get [OF ds] by auto
      qed
      then have ?s by (rule sum.cong [OF refl])
      moreover have ?sub using eq by auto
      ultimately show "?sub \<and> ?s" by blast
    qed
    then show ?thesis by blast
  qed
  finally show ?thesis by auto
qed

lemma observed_ranges_iff:
  "observed_ranges_loop xl roots ranges ds = Ok () \<longleftrightarrow>
     distinct (map (\<lambda>d. xl_Bytes32_String xl (cd_MerkleRoot d)) ds) \<and>
     (\<forall>d \<in> set ds. xl_Bytes32_String xl (cd_MerkleRoot d) \<notin> set roots \<and> (\<forall>r \<in> set ranges. \<not> xl_Overlaps xl r (rng d)) \<and>
        (\<forall>n \<in> set (cd_ExecutedMessages d). xl_Contains xl (rng d) n)) \<and>
     sorted_wrt (\<lambda>a b. \<not> xl_Overlaps xl (rng a) (rng b)) ds"
proof (induction ds arbitrary: roots ranges)
  case (Cons d ds)
  let ?key = "\<lambda>d. xl_Bytes32_String xl (cd_MerkleRoot d)"
  have "observed_ranges_loop xl roots ranges (d # ds) = Ok () \<longleftrightarrow>
      ?key d \<notin> set roots \<and> (\<forall>r \<in> set ranges. \<not> xl_Overlaps xl r (rng d)) \<and> (\<forall>n \<in> set (cd_ExecutedMessages d). xl_Contains xl (rng d) n) \<and>
      observed_ranges_loop xl (?key d # roots) (ranges @ [rng d]) ds = Ok ()"
    by (simp add: Let_def list_ex_iff list_all_iff)
  moreover have "?key d \<in> ?key ` set ds \<longleftrightarrow> (\<exists>e \<in> set ds. ?key e = ?key d)" by (metis (no_types, lifting) image_iff)
  ultimately show ?case unfolding Cons.IH by (auto simp del: observed_ranges_loop.simps)
qed simp

text \<open>On ranges that are not reversed, no overlap means no common number.\<close>

lemma observed_ranges_disjoint:
  assumes "range_spec xl" and "\<forall>d \<in> set ds. range_wf (rng d)" and "observed_ranges_loop xl [] [] ds = Ok ()"
  shows "disjoint_ranges ds \<and> (\<forall>d \<in> set ds. set (cd_ExecutedMessages d) \<subseteq> range_set (rng d))"
proof -
  have "sorted_wrt (\<lambda>a b. \<not> xl_Overlaps xl (rng a) (rng b)) ds" using assms(3) unfolding observed_ranges_iff by blast
  then have "disjoint_ranges ds" unfolding disjoint_ranges_def
    by (rule sorted_wrt_mono_rel [rotated]) (use assms(1,2) in \<open>auto simp: range_spec_def\<close>)
  moreover have "\<forall>d \<in> set ds. \<forall>n \<in> set (cd_ExecutedMessages d). xl_Contains xl (rng d) n" using assms(3) unfolding observed_ranges_iff by blast
  ultimately show ?thesis using assms(1) unfolding range_spec_def by blast
qed

text \<open>The messages read for a commit report are accepted exactly when their numbers are those of the range.\<close>

lemma msgsConformToSeqRange_iff:
  assumes "range_spec xl" and "range_wf r" and "range_small r" and "sr_End r \<noteq> - 1"
  shows "msgsConformToSeqRange xl msgs r = Some ((\<lambda>m. mh_SequenceNumber (msg_Header m)) ` set msgs = range_set r)"
proof -
  let ?ns = "map (\<lambda>m. mh_SequenceNumber (msg_Header m)) msgs"
  have loop: "fold_until (\<lambda>i u. if P i then Inl False else Inr u) xs () = (if \<exists>i \<in> set xs. P i then Inl False else Inr ())"
    for P :: "u64 \<Rightarrow> bool" and xs by (induction xs) auto
  have len: "xl_Length xl r = int (card (range_set r))"
    using assms length_seq_list [of "sr_Start r" "sr_End r"] length_seq_list_card [of "sr_Start r" "sr_End r"]
    by (simp add: range_spec_def range_wf_def range_small_def range_set_def)
  have card: "length (remdups ?ns) = card (set ?ns)" by (metis length_remdups_card_conv)
  have "msgsConformToSeqRange xl msgs r =
      Some (card (set ?ns) = card (range_set r) \<and> range_set r \<subseteq> set ?ns)"
    unfolding msgsConformToSeqRange_def Let_def card len for_seq_fold [OF assms(4)] loop
    by (auto simp: set_seq_list range_set_def)
  moreover have "card (set ?ns) = card (range_set r) \<and> range_set r \<subseteq> set ?ns \<longleftrightarrow> set ?ns = range_set r"
    using card_subset_eq [of "set ?ns" "range_set r"] by auto
  ultimately show ?thesis by simp
qed

end
