(* ===== verification/ExecConfig.thy ===== *)
theory ExecConfig
  imports CommitConfig HomeChain
begin

text \<open>
  The offchain configuration of the execute plugin (pluginconfig/execute.go) and of its token data observers
  (pluginconfig/token.go): defaults and validation. \<open>Validate\<close> of an observer's configuration also sets
  its defaults, through a pointer, so it gives back the configuration it leaves behind. The custom JSON encoding is not
  modelled. \<open>isBadHex\<close> is \<open>cciptypes.IsZeroOrEmptyOrInvalidHexAddress\<close>.
\<close>

section \<open>token.go\<close>

record AttestationConfig =
  atc_AttestationAPI :: string
  atc_AttestationAPITimeout :: "duration option"
  atc_AttestationAPIInterval :: "duration option"

record WorkerConfig =
  wkc_NumWorkers :: int
  wkc_CacheExpirationInterval :: "duration option"
  wkc_CacheCleanupInterval :: "duration option"
  wkc_ObserveTimeout :: "duration option"

record USDCCCTPTokenConfig =
  utc_SourcePoolAddress :: string
  utc_SourceMessageTransmitterAddr :: string

record USDCCCTPObserverConfig =
  uoc_Attestation :: AttestationConfig
  uoc_Worker :: WorkerConfig
  uoc_AttestationAPICooldown :: "duration option"
  uoc_Tokens :: "(ChainSelector, USDCCCTPTokenConfig) gomap"

record LBTCObserverConfig =
  loc_Attestation :: AttestationConfig
  loc_Worker :: WorkerConfig
  loc_AttestationAPIBatchSize :: int
  loc_SourcePoolAddressByChain :: "(ChainSelector, string) gomap"

record TokenDataObserverConfig =
  tdo_Type :: string
  tdo_Version :: string
  tdo_USDC :: "USDCCCTPObserverConfig option"
  tdo_LBTC :: "LBTCObserverConfig option"

definition USDCCCTPHandlerType :: string where "USDCCCTPHandlerType = ''usdc-cctp''"
definition LBTCHandlerType :: string where "LBTCHandlerType = ''lbtc''"

definition IsUSDC :: "TokenDataObserverConfig \<Rightarrow> bool" where
  "IsUSDC t \<longleftrightarrow> tdo_Type t = USDCCCTPHandlerType"

definition IsLBTC :: "TokenDataObserverConfig \<Rightarrow> bool" where
  "IsLBTC t \<longleftrightarrow> tdo_Type t = LBTCHandlerType"

text \<open>\<open>if p.X == nil { p.X = d }\<close>.\<close>

definition dflt_nil :: "'a option \<Rightarrow> 'a \<Rightarrow> 'a option" where
  "dflt_nil x d = (case x of None \<Rightarrow> Some d | Some _ \<Rightarrow> x)"

definition unset :: "duration option \<Rightarrow> bool" where
  "unset x \<longleftrightarrow> x = None \<or> x = Some 0"

definition AttestationConfig_setDefaults :: "AttestationConfig \<Rightarrow> AttestationConfig" where
  "AttestationConfig_setDefaults p =
     p\<lparr>atc_AttestationAPITimeout := dflt_nil (atc_AttestationAPITimeout p) (1 * second),
       atc_AttestationAPIInterval := dflt_nil (atc_AttestationAPIInterval p) (100 * 1000000)\<rparr>"

definition AttestationConfig_Validate :: "AttestationConfig \<Rightarrow> AttestationConfig \<times> unit result" where
  "AttestationConfig_Validate p0 =
     (let p = AttestationConfig_setDefaults p0
      in (p, if atc_AttestationAPI p = [] then Error (Err ''AttestationAPI not set'')
             else if unset (atc_AttestationAPIInterval p) then Error (Err ''AttestationAPIInterval not set'')
             else if unset (atc_AttestationAPITimeout p) then Error (Err ''AttestationAPITimeout not set'')
             else Ok ()))"

definition IsForeground :: "WorkerConfig \<Rightarrow> bool" where
  "IsForeground c \<longleftrightarrow> wkc_NumWorkers c = 0"

definition WorkerConfig_setDefaults :: "WorkerConfig \<Rightarrow> WorkerConfig" where
  "WorkerConfig_setDefaults c =
     c\<lparr>wkc_CacheExpirationInterval := dflt_nil (wkc_CacheExpirationInterval c) (10 * minute),
       wkc_CacheCleanupInterval := dflt_nil (wkc_CacheCleanupInterval c) (15 * minute),
       wkc_ObserveTimeout := dflt_nil (wkc_ObserveTimeout c) (5 * second)\<rparr>"

definition WorkerConfig_Validate :: "WorkerConfig \<Rightarrow> WorkerConfig \<times> unit result" where
  "WorkerConfig_Validate c0 =
     (let c = WorkerConfig_setDefaults c0
      in (c, if IsForeground c then Ok ()
             else if unset (wkc_CacheExpirationInterval c) then Error (Err ''CacheExpirationInterval not set'')
             else if unset (wkc_CacheCleanupInterval c) then Error (Err ''CacheCleanupInterval not set'')
             else if unset (wkc_ObserveTimeout c) then Error (Err ''ObserveTimeout not set'')
             else Ok ()))"

text \<open>\<open>strings.Replace(addr, "0", "", -1)\<close> removes every occurrence of the character.\<close>

definition invalidAddress :: "(string \<Rightarrow> bool) \<Rightarrow> string \<Rightarrow> bool" where
  "invalidAddress isBadHex addr =
     (if take 2 addr = ''0x'' then isBadHex addr
      else filter (\<lambda>c. c \<noteq> CHR '' '') (filter (\<lambda>c. c \<noteq> CHR ''0'') addr) = [])"

definition USDCCCTPTokenConfig_Validate :: "(string \<Rightarrow> bool) \<Rightarrow> USDCCCTPTokenConfig \<Rightarrow> unit result" where
  "USDCCCTPTokenConfig_Validate isBadHex t =
     (if invalidAddress isBadHex (utc_SourcePoolAddress t) then Error (Err ''SourcePoolAddress not set'')
      else if invalidAddress isBadHex (utc_SourceMessageTransmitterAddr t) then Error (Err ''SourceMessageTransmitterAddress not set'')
      else Ok ())"

definition USDCCCTPObserverConfig_setDefaults :: "USDCCCTPObserverConfig \<Rightarrow> USDCCCTPObserverConfig" where
  "USDCCCTPObserverConfig_setDefaults p =
     (if unset (uoc_AttestationAPICooldown p) then p\<lparr>uoc_AttestationAPICooldown := Some (5 * minute)\<rparr> else p)"

definition USDCCCTPObserverConfig_Validate ::
  "(string \<Rightarrow> bool) \<Rightarrow> USDCCCTPObserverConfig \<Rightarrow> USDCCCTPObserverConfig \<times> unit result" where
  "USDCCCTPObserverConfig_Validate isBadHex p0 =
     (let p = USDCCCTPObserverConfig_setDefaults p0;
          (at, r1) = AttestationConfig_Validate (uoc_Attestation p); p = p\<lparr>uoc_Attestation := at\<rparr>
      in if r1 \<noteq> Ok () then (p, r1)
         else let (wk, r2) = WorkerConfig_Validate (uoc_Worker p); p = p\<lparr>uoc_Worker := wk\<rparr>
              in if r2 \<noteq> Ok () then (p, r2)
                 else if uoc_Tokens p = [] then (p, Error (Err ''Tokens not set''))
                 else (p, check_all (\<lambda>(_, token). wrap_err ''invalid usdc token config'' (USDCCCTPTokenConfig_Validate isBadHex token))
                            (uoc_Tokens p)))"

definition LBTCObserverConfig_setDefaults :: "LBTCObserverConfig \<Rightarrow> LBTCObserverConfig" where
  "LBTCObserverConfig_setDefaults c = c\<lparr>loc_AttestationAPIBatchSize := dflt (loc_AttestationAPIBatchSize c) 50\<rparr>"

definition LBTCObserverConfig_Validate :: "(string \<Rightarrow> bool) \<Rightarrow> LBTCObserverConfig \<Rightarrow> LBTCObserverConfig \<times> unit result" where
  "LBTCObserverConfig_Validate isBadHex c0 =
     (let c = LBTCObserverConfig_setDefaults c0
      in if loc_AttestationAPIBatchSize c = 0 then (c, Error (Err ''AttestationAPIBatchSize is not set''))
         else if loc_SourcePoolAddressByChain c = [] then (c, Error (Err ''SourcePoolAddressByChain is not set''))
         else if list_ex (\<lambda>(_, a). invalidAddress isBadHex a) (loc_SourcePoolAddressByChain c)
         then (c, Error (Err ''SourcePoolAddressByChain is empty''))
         else let (at, r1) = AttestationConfig_Validate (loc_Attestation c); c = c\<lparr>loc_Attestation := at\<rparr>
              in if r1 \<noteq> Ok () then (c, r1)
                 else let (wk, r2) = WorkerConfig_Validate (loc_Worker c) in (c\<lparr>loc_Worker := wk\<rparr>, r2))"

definition WellFormed :: "TokenDataObserverConfig \<Rightarrow> unit result" where
  "WellFormed t =
     (if IsUSDC t then (if tdo_USDC t = None then Error (Err ''USDCCCTPObserverConfig is empty'') else Ok ())
      else if IsLBTC t then (if tdo_LBTC t = None then Error (Err ''LBTCObserverConfig is empty'') else Ok ())
      else Error (Err ''unknown token data observer type''))"

definition TokenDataObserverConfig_Validate ::
  "(string \<Rightarrow> bool) \<Rightarrow> TokenDataObserverConfig \<Rightarrow> TokenDataObserverConfig \<times> unit result" where
  "TokenDataObserverConfig_Validate isBadHex t =
     (case WellFormed t of
        Panic \<Rightarrow> (t, Panic)
      | Error e \<Rightarrow> (t, Error e)
      | Ok _ \<Rightarrow>
          if IsUSDC t then
            (if tdo_LBTC t \<noteq> None then (t, Error (Err ''LBTCObserverConfig must be null with USDC plugin type''))
             else case tdo_USDC t of
                    None \<Rightarrow> (t, Panic)
                  | Some u \<Rightarrow> let (u', r) = USDCCCTPObserverConfig_Validate isBadHex u in (t\<lparr>tdo_USDC := Some u'\<rparr>, r))
          else if IsLBTC t then
            (if tdo_USDC t \<noteq> None then (t, Error (Err ''USDCCCTPObserverConfig must be null with LBTC plugin type''))
             else case tdo_LBTC t of
                    None \<Rightarrow> (t, Panic)
                  | Some l \<Rightarrow> let (l', r) = LBTCObserverConfig_Validate isBadHex l in (t\<lparr>tdo_LBTC := Some l'\<rparr>, r))
          else (t, Error (Err ''unknown token data observer type'')))"

section \<open>execute.go\<close>

definition defaultMaxCommitReportsToFetch :: u64 where
  "defaultMaxCommitReportsToFetch = 250"

record ExecuteOffchainConfig =
  eoc_BatchGasLimit :: u64
  eoc_InflightCacheExpiry :: duration
  eoc_RootSnoozeTime :: duration
  eoc_MessageVisibilityInterval :: duration
  eoc_BatchingStrategyID :: "32 word"
  eoc_TokenDataObservers :: "TokenDataObserverConfig list"
  eoc_TransmissionDelayMultiplier :: duration
  eoc_MaxReportMessages :: u64
  eoc_MaxSingleChainReports :: u64
  eoc_MaxCommitReportsToFetch :: u64
  eoc_MultipleReportsEnabled :: bool
  eoc_PopulateTxHashEnabled :: bool
  eoc_SolanaChainWriterConfigVersion :: "string option"

definition exec_applyDefaults :: "ExecuteOffchainConfig \<Rightarrow> ExecuteOffchainConfig" where
  "exec_applyDefaults e =
     e\<lparr>eoc_TransmissionDelayMultiplier := dflt (eoc_TransmissionDelayMultiplier e) defaultTransmissionDelayMultiplier,
       eoc_MaxCommitReportsToFetch := dflt (eoc_MaxCommitReportsToFetch e) defaultMaxCommitReportsToFetch\<rparr>"

definition observer_key :: "TokenDataObserverConfig \<Rightarrow> string" where
  "observer_key ob = tdo_Type ob @ tdo_Version ob"

text \<open>The loop over the observers: it sets the defaults of those it has visited.\<close>

fun validate_observers ::
  "(string \<Rightarrow> bool) \<Rightarrow> string list \<Rightarrow> TokenDataObserverConfig list \<Rightarrow> TokenDataObserverConfig list \<times> unit result" where
  "validate_observers isBadHex seen [] = ([], Ok ())"
| "validate_observers isBadHex seen (ob # obs) =
     (let (ob', r) = TokenDataObserverConfig_Validate isBadHex ob; key = observer_key ob
      in if r \<noteq> Ok () then (ob' # obs, r)
         else if key \<in> set seen then (ob' # obs, Error (Err ''duplicate token data observer type and version''))
         else let (obs', r') = validate_observers isBadHex (key # seen) obs in (ob' # obs', r'))"

definition ExecuteOffchainConfig_Validate ::
  "(string \<Rightarrow> bool) \<Rightarrow> ExecuteOffchainConfig \<Rightarrow> ExecuteOffchainConfig \<times> unit result" where
  "ExecuteOffchainConfig_Validate isBadHex e =
     (if eoc_BatchGasLimit e = 0 then (e, Error (Err ''BatchGasLimit not set''))
      else if eoc_InflightCacheExpiry e = 0 then (e, Error (Err ''InflightCacheExpiry not set''))
      else if eoc_RootSnoozeTime e = 0 then (e, Error (Err ''RootSnoozeTime not set''))
      else if eoc_MessageVisibilityInterval e = 0 then (e, Error (Err ''MessageVisibilityInterval not set''))
      else if eoc_MaxCommitReportsToFetch e = 0 then (e, Error (Err ''MaxCommitReportsToFetch not set''))
      else let (obs, r) = validate_observers isBadHex [] (eoc_TokenDataObservers e)
           in (e\<lparr>eoc_TokenDataObservers := obs\<rparr>, r))"

definition exec_ApplyDefaultsAndValidate ::
  "(string \<Rightarrow> bool) \<Rightarrow> ExecuteOffchainConfig \<Rightarrow> ExecuteOffchainConfig \<times> unit result" where
  "exec_ApplyDefaultsAndValidate isBadHex e = ExecuteOffchainConfig_Validate isBadHex (exec_applyDefaults e)"

definition IsUSDCEnabled :: "ExecuteOffchainConfig \<Rightarrow> bool" where
  "IsUSDCEnabled e = list_ex (\<lambda>ob. WellFormed ob = Ok () \<and> IsUSDC ob) (eoc_TokenDataObservers e)"

definition IsLBTCEnabled :: "ExecuteOffchainConfig \<Rightarrow> bool" where
  "IsLBTCEnabled e = list_ex (\<lambda>ob. WellFormed ob = Ok () \<and> IsLBTC ob) (eoc_TokenDataObservers e)"

section \<open>Validation is exact and its defaults are final\<close>

definition attestation_valid :: "AttestationConfig \<Rightarrow> bool" where
  "attestation_valid a \<longleftrightarrow> atc_AttestationAPI a \<noteq> [] \<and> atc_AttestationAPIInterval a \<noteq> Some 0 \<and> atc_AttestationAPITimeout a \<noteq> Some 0"

definition worker_valid :: "WorkerConfig \<Rightarrow> bool" where
  "worker_valid w \<longleftrightarrow> wkc_NumWorkers w = 0 \<or>
     (wkc_CacheExpirationInterval w \<noteq> Some 0 \<and> wkc_CacheCleanupInterval w \<noteq> Some 0 \<and> wkc_ObserveTimeout w \<noteq> Some 0)"

definition usdc_valid :: "(string \<Rightarrow> bool) \<Rightarrow> USDCCCTPObserverConfig \<Rightarrow> bool" where
  "usdc_valid isBadHex u \<longleftrightarrow> attestation_valid (uoc_Attestation u) \<and> worker_valid (uoc_Worker u) \<and> uoc_Tokens u \<noteq> [] \<and>
     (\<forall>(_, t) \<in> set (uoc_Tokens u). \<not> invalidAddress isBadHex (utc_SourcePoolAddress t) \<and>
        \<not> invalidAddress isBadHex (utc_SourceMessageTransmitterAddr t))"

definition lbtc_valid :: "(string \<Rightarrow> bool) \<Rightarrow> LBTCObserverConfig \<Rightarrow> bool" where
  "lbtc_valid isBadHex l \<longleftrightarrow> attestation_valid (loc_Attestation l) \<and> worker_valid (loc_Worker l) \<and>
     loc_SourcePoolAddressByChain l \<noteq> [] \<and> (\<forall>(_, a) \<in> set (loc_SourcePoolAddressByChain l). \<not> invalidAddress isBadHex a)"

definition observer_valid :: "(string \<Rightarrow> bool) \<Rightarrow> TokenDataObserverConfig \<Rightarrow> bool" where
  "observer_valid isBadHex t \<longleftrightarrow>
     (\<exists>u. tdo_Type t = USDCCCTPHandlerType \<and> tdo_USDC t = Some u \<and> tdo_LBTC t = None \<and> usdc_valid isBadHex u) \<or>
     (\<exists>l. tdo_Type t = LBTCHandlerType \<and> tdo_LBTC t = Some l \<and> tdo_USDC t = None \<and> lbtc_valid isBadHex l)"

lemma unset_dflt: "unset (dflt_nil x d) \<longleftrightarrow> x = Some 0 \<or> (x = None \<and> d = 0)"
  by (auto simp: unset_def dflt_nil_def split: option.splits)

lemma dflt_nil_idem [simp]: "dflt_nil (dflt_nil x d) d' = dflt_nil x d"
  by (auto simp: dflt_nil_def split: option.splits)

lemmas config_times = second_def minute_def

lemma AttestationConfig_Validate_iff: "snd (AttestationConfig_Validate a) = Ok () \<longleftrightarrow> attestation_valid a"
  by (auto simp: AttestationConfig_Validate_def AttestationConfig_setDefaults_def attestation_valid_def unset_dflt config_times Let_def)

lemma WorkerConfig_Validate_iff: "snd (WorkerConfig_Validate w) = Ok () \<longleftrightarrow> worker_valid w"
  by (auto simp: WorkerConfig_Validate_def WorkerConfig_setDefaults_def worker_valid_def IsForeground_def unset_dflt config_times Let_def)

lemma setDefaults_Attestation [simp]: "uoc_Attestation (USDCCCTPObserverConfig_setDefaults u) = uoc_Attestation u"
  "uoc_Worker (USDCCCTPObserverConfig_setDefaults u) = uoc_Worker u" "uoc_Tokens (USDCCCTPObserverConfig_setDefaults u) = uoc_Tokens u"
  by (simp_all add: USDCCCTPObserverConfig_setDefaults_def)

lemma USDC_Validate_iff: "snd (USDCCCTPObserverConfig_Validate isBadHex u) = Ok () \<longleftrightarrow> usdc_valid isBadHex u"
proof -
  have "USDCCCTPTokenConfig_Validate isBadHex t = Ok () \<longleftrightarrow>
      \<not> invalidAddress isBadHex (utc_SourcePoolAddress t) \<and> \<not> invalidAddress isBadHex (utc_SourceMessageTransmitterAddr t)" for t
    by (simp add: USDCCCTPTokenConfig_Validate_def)
  moreover have "wrap_err s r = Ok () \<longleftrightarrow> r = Ok ()" for s and r :: "unit result" by (cases r) auto
  ultimately have "check_all (\<lambda>(_, token). wrap_err s (USDCCCTPTokenConfig_Validate isBadHex token)) ts = Ok () \<longleftrightarrow>
      (\<forall>(_, t) \<in> set ts. \<not> invalidAddress isBadHex (utc_SourcePoolAddress t) \<and> \<not> invalidAddress isBadHex (utc_SourceMessageTransmitterAddr t))"
    for s and ts :: "(ChainSelector \<times> USDCCCTPTokenConfig) list" by (auto simp: check_all_Ok_iff)
  then show ?thesis
    using AttestationConfig_Validate_iff [of "uoc_Attestation u"] WorkerConfig_Validate_iff [of "uoc_Worker u"]
    by (auto simp: USDCCCTPObserverConfig_Validate_def usdc_valid_def Let_def case_prod_unfold)
qed

lemma LBTC_Validate_iff: "snd (LBTCObserverConfig_Validate isBadHex l) = Ok () \<longleftrightarrow> lbtc_valid isBadHex l"
  using AttestationConfig_Validate_iff [of "loc_Attestation l"] WorkerConfig_Validate_iff [of "loc_Worker l"]
  by (auto simp: LBTCObserverConfig_Validate_def LBTCObserverConfig_setDefaults_def lbtc_valid_def dflt_def Let_def case_prod_unfold
      list_ex_iff)

lemma observer_Validate_iff: "snd (TokenDataObserverConfig_Validate isBadHex t) = Ok () \<longleftrightarrow> observer_valid isBadHex t"
proof -
  have d: "USDCCCTPHandlerType \<noteq> LBTCHandlerType" by (simp add: USDCCCTPHandlerType_def LBTCHandlerType_def)
  show ?thesis
    using d USDC_Validate_iff [of isBadHex] LBTC_Validate_iff [of isBadHex]
    by (auto simp: TokenDataObserverConfig_Validate_def WellFormed_def IsUSDC_def IsLBTC_def observer_valid_def case_prod_unfold
        Let_def split: option.splits)
qed

lemma validate_observers_iff:
  "snd (validate_observers isBadHex seen obs) = Ok () \<longleftrightarrow> (\<forall>ob \<in> set obs. observer_valid isBadHex ob) \<and>
     distinct (map observer_key obs) \<and> (\<forall>ob \<in> set obs. observer_key ob \<notin> set seen)"
proof (induction obs arbitrary: seen)
  case (Cons ob obs)
  have "snd (validate_observers isBadHex seen (ob # obs)) = Ok () \<longleftrightarrow>
      observer_valid isBadHex ob \<and> observer_key ob \<notin> set seen \<and> snd (validate_observers isBadHex (observer_key ob # seen) obs) = Ok ()"
    using observer_Validate_iff [of isBadHex ob] by (simp add: Let_def case_prod_unfold)
  moreover have "observer_key ob \<in> observer_key ` set obs \<longleftrightarrow> (\<exists>o' \<in> set obs. observer_key o' = observer_key ob)" by (metis image_iff)
  ultimately show ?case unfolding Cons.IH by (auto simp del: validate_observers.simps)
qed simp

text \<open>Defaults are final: a validated configuration is not changed by another validation.\<close>

lemma setDefaults_idem [simp]:
  "AttestationConfig_setDefaults (AttestationConfig_setDefaults a) = AttestationConfig_setDefaults a"
  "WorkerConfig_setDefaults (WorkerConfig_setDefaults w) = WorkerConfig_setDefaults w"
  "USDCCCTPObserverConfig_setDefaults (USDCCCTPObserverConfig_setDefaults u) = USDCCCTPObserverConfig_setDefaults u"
  "LBTCObserverConfig_setDefaults (LBTCObserverConfig_setDefaults l) = LBTCObserverConfig_setDefaults l"
  "exec_applyDefaults (exec_applyDefaults e) = exec_applyDefaults e"
  by (simp_all add: AttestationConfig_setDefaults_def WorkerConfig_setDefaults_def USDCCCTPObserverConfig_setDefaults_def
      LBTCObserverConfig_setDefaults_def exec_applyDefaults_def dflt_def unset_def config_times)

text \<open>A configuration of the execute plugin is accepted exactly when its gas limit and its three intervals are set, every token data
  observer is of a known type with only its own settings, which are set, and no two observers share type and version. The
  missing delay multiplier and fetch limit never cause a refusal, because defaults are set first; and the
  observers' defaults do not make a value acceptable that was explicitly set to 0.\<close>

theorem exec_ApplyDefaultsAndValidate_iff:
  "snd (exec_ApplyDefaultsAndValidate isBadHex e) = Ok () \<longleftrightarrow>
     eoc_BatchGasLimit e \<noteq> 0 \<and> eoc_InflightCacheExpiry e \<noteq> 0 \<and> eoc_RootSnoozeTime e \<noteq> 0 \<and> eoc_MessageVisibilityInterval e \<noteq> 0 \<and>
     (\<forall>ob \<in> set (eoc_TokenDataObservers e). observer_valid isBadHex ob) \<and>
     distinct (map observer_key (eoc_TokenDataObservers e))"
  using validate_observers_iff [of isBadHex "[]" "eoc_TokenDataObservers e"]
  by (auto simp: exec_ApplyDefaultsAndValidate_def ExecuteOffchainConfig_Validate_def exec_applyDefaults_def dflt_def
      defaultMaxCommitReportsToFetch_def Let_def case_prod_unfold)

definition sample_usdc :: USDCCCTPObserverConfig where
  "sample_usdc = \<lparr>uoc_Attestation = \<lparr>atc_AttestationAPI = ''a'', atc_AttestationAPITimeout = None, atc_AttestationAPIInterval = None\<rparr>,
     uoc_Worker = \<lparr>wkc_NumWorkers = 1, wkc_CacheExpirationInterval = None, wkc_CacheCleanupInterval = None, wkc_ObserveTimeout = None\<rparr>,
     uoc_AttestationAPICooldown = None, uoc_Tokens = [(1, \<lparr>utc_SourcePoolAddress = ''pool'', utc_SourceMessageTransmitterAddr = ''mt''\<rparr>)]\<rparr>"

definition sample_exec_config :: ExecuteOffchainConfig where
  "sample_exec_config = \<lparr>eoc_BatchGasLimit = 100, eoc_InflightCacheExpiry = second, eoc_RootSnoozeTime = second,
     eoc_MessageVisibilityInterval = second, eoc_BatchingStrategyID = 0,
     eoc_TokenDataObservers = [\<lparr>tdo_Type = ''usdc-cctp'', tdo_Version = ''1.0'', tdo_USDC = Some sample_usdc, tdo_LBTC = None\<rparr>],
     eoc_TransmissionDelayMultiplier = 0, eoc_MaxReportMessages = 0, eoc_MaxSingleChainReports = 0, eoc_MaxCommitReportsToFetch = 0,
     eoc_MultipleReportsEnabled = False, eoc_PopulateTxHashEnabled = False, eoc_SolanaChainWriterConfigVersion = None\<rparr>"

theorem exec_ApplyDefaultsAndValidate_iff_witness:
  "snd (exec_ApplyDefaultsAndValidate (\<lambda>_. True) sample_exec_config) = Ok () \<and>
   snd (exec_ApplyDefaultsAndValidate (\<lambda>_. True) (sample_exec_config\<lparr>eoc_RootSnoozeTime := 0\<rparr>)) \<noteq> Ok ()"
proof -
  have "list_all (\<lambda>ob. snd (TokenDataObserverConfig_Validate (\<lambda>_. True) ob) = Ok ()) (eoc_TokenDataObservers sample_exec_config)" by code_simp
  then have "\<forall>ob \<in> set (eoc_TokenDataObservers sample_exec_config). observer_valid (\<lambda>_. True) ob"
    by (simp add: list_all_iff observer_Validate_iff)
  moreover have "eoc_BatchGasLimit sample_exec_config \<noteq> 0" "eoc_InflightCacheExpiry sample_exec_config \<noteq> 0"
    "eoc_RootSnoozeTime sample_exec_config \<noteq> 0" "eoc_MessageVisibilityInterval sample_exec_config \<noteq> 0"
    "distinct (map observer_key (eoc_TokenDataObservers sample_exec_config))"
    by code_simp+
  ultimately have "snd (exec_ApplyDefaultsAndValidate (\<lambda>_. True) sample_exec_config) = Ok ()"
    unfolding exec_ApplyDefaultsAndValidate_iff by blast
  moreover have "snd (exec_ApplyDefaultsAndValidate (\<lambda>_. True) (sample_exec_config\<lparr>eoc_RootSnoozeTime := 0\<rparr>)) \<noteq> Ok ()"
    unfolding exec_ApplyDefaultsAndValidate_iff by simp
  ultimately show ?thesis ..
qed

end
