(* ===== verification/ExecPlugin.thy ===== *)
theory ExecPlugin
  imports ExecValidate ExecConfig CommitPlugin
begin

text \<open>The execute plugin (\<open>execute/plugin.go\<close>, \<open>outcome.go\<close>, \<open>observation.go\<close>): the plugin's record, its observation in each of the
  three states of the cycle (with the caches it updates), the validation of an observation, the outcome, the reports and the decision to
  accept and to transmit one. A method that may not return yields \<^const>\<open>None\<close>; one that changes the plugin returns the new plugin.\<close>

section \<open>The plugin\<close>

text \<open>The codec of the OCR types (\<open>ocrtypecodec.ExecCodec\<close>), and the constants of libocr that bound reports and
  observations.\<close>

record exec_codec =
  xcd_EncodeObservation :: "exec_Observation \<Rightarrow> byte list result"
  xcd_DecodeObservation :: "byte list \<Rightarrow> exec_Observation result"
  xcd_EncodeOutcome :: "exec_Outcome \<Rightarrow> byte list result"
  xcd_DecodeOutcome :: "byte list \<Rightarrow> exec_Outcome result"

record ocr_limits =
  ol_MaxMaxObservationLength :: int
  ol_MaxMaxReportLength :: u64

definition maxReportCount :: u64 where
  "maxReportCount = 50"

definition lenientMaxMsgsPerObs :: int where
  "lenientMaxMsgsPerObs = 100"

definition lenientMaxObservationLength :: "ocr_limits \<Rightarrow> int" where
  "lenientMaxObservationLength ol = ol_MaxMaxObservationLength ol * 50 div 100"

record ('c, 'd) exec_Plugin =
  xpl_oracleID :: OracleID
  xpl_F :: int
  xpl_N :: int
  xpl_configDigest :: Bytes32
  xpl_offchainCfg :: ExecuteOffchainConfig
  xpl_destChain :: ChainSelector
  xpl_ccipReader :: exec_reader
  xpl_reportCodec :: ExecutePluginCodec
  xpl_msgHasher :: "Message \<Rightarrow> Bytes32 result"
  xpl_homeChain :: homeChainPoller
  xpl_discovery :: "ContractDiscoveryProcessor option"
  xpl_chainSupport :: ccipChainSupport
  xpl_oracleIDToP2pID :: "(OracleID, PeerID) gomap"
  xpl_tokenDataObserver :: "MessageObservations \<Rightarrow> TokenDataObservations result"
  xpl_estimateProvider :: "EstimateProvider option"
  xpl_ocrTypeCodec :: exec_codec
  xpl_addrCodec :: AddressBytesToString
  xpl_contractsInitialized :: bool
  xpl_commitRootsCache :: "'c commitRootsCache"
  xpl_commitReportCache :: "'d commitReportCache"
  xpl_inflightMessageCache :: "'c InflightMessageCache"

definition exec_supportedChains :: "('c, 'd) exec_Plugin \<Rightarrow> OracleID \<Rightarrow> ChainSelector list result" where
  "exec_supportedChains p oid =
     (case map_of (xpl_oracleIDToP2pID p) oid of
        None \<Rightarrow> Error (Err ''oracle ID not found in oracleIDToP2pID'')
      | Some p2pID \<Rightarrow> wrap_err ''error getting supported chains'' (GetSupportedChainsForPeer (xpl_homeChain p) p2pID))"

definition exec_supportsChain :: "('c, 'd) exec_Plugin \<Rightarrow> ChainSelector \<Rightarrow> bool result" where
  "exec_supportsChain p chainSel =
     rbind (wrap_err ''error getting supported chains'' (exec_supportedChains p (xpl_oracleID p))) (\<lambda>chains.
       Ok (chainSel \<in> set chains))"

definition exec_supportsDestChain :: "('c, 'd) exec_Plugin \<Rightarrow> bool result" where
  "exec_supportsDestChain p = exec_supportsChain p (xpl_destChain p)"

text \<open>\<open>pluginTypeExecute\<close> is the constant of that name.\<close>

definition checkConfigDigest :: "byte \<Rightarrow> ('c, 'd) exec_Plugin \<Rightarrow> unit result" where
  "checkConfigDigest pluginTypeExecute p =
     rbind (ConfigDigestsMatch (rd_GetOffRampConfigDigest (xpl_ccipReader p) pluginTypeExecute) (xpl_configDigest p)) (\<lambda>(digestsMatch, _).
       if digestsMatch then Ok () else Error ErrOffRampConfigMismatch)"

section \<open>ValidateObservation\<close>

definition validateCommonStateObservations ::
  "exec_lib \<Rightarrow> contract_names \<Rightarrow> ('c, 'd) exec_Plugin \<Rightarrow> OracleID \<Rightarrow> exec_Observation \<Rightarrow> ChainSelector list \<Rightarrow> PluginState \<Rightarrow> unit result" where
  "validateCommonStateObservations xl cn p oracleID obs supportedChains st =
     rbind (wrap_err ''failed to validate FChain'' (ValidateFChain (xob_FChain obs))) (\<lambda>_.
     rbind (wrap_err ''validate commit reports reading eligibility''
              (validateCommitReportsReadingEligibility xl st supportedChains (xpl_destChain p) (xob_CommitReports obs))) (\<lambda>_.
     rbind (wrap_err ''validate observed sequence numbers'' (validateObservedSequenceNumbers xl (xob_CommitReports obs))) (\<lambda>_.
       case xpl_discovery p of
         None \<Rightarrow> Ok ()
       | Some d \<Rightarrow> wrap_err ''process contracts''
           (dt_ValidateObservation cn d \<lparr>ao_OracleID = oracleID, ao_Observation = xob_Contracts obs\<rparr>))))"

definition exec_validate ::
  "exec_lib \<Rightarrow> contract_names \<Rightarrow> ('c, 'd) exec_Plugin \<Rightarrow> exec_Outcome \<Rightarrow> OracleID \<Rightarrow> exec_Observation \<Rightarrow> unit result option" where
  "exec_validate xl cn p previousOutcome observer obs =
     obind (Some (wrap_err ''error finding supported chains by node'' (exec_supportedChains p observer))) (\<lambda>supportedChains.
     obind (Some (Next (xo_State previousOutcome))) (\<lambda>nextState.
     obind (Some (if nextState = GetCommitReports
                  then validateNoMessageRelatedObservations (xob_Messages obs) (xob_TokenData obs) (xob_Hashes obs) else Ok ())) (\<lambda>_.
     obind (Some (validateCommonStateObservations xl cn p observer obs supportedChains nextState)) (\<lambda>_.
       if nextState = GetMessages \<or> nextState = Filter
       then obind (Some (wrap_err ''validate observer reading eligibility''
                          (validateMsgsReadingEligibility supportedChains (xob_Messages obs)))) (\<lambda>_.
              validateMessagesRelatedObservations xl (xob_CommitReports obs) (xob_Messages obs) (xob_TokenData obs) (xob_Hashes obs))
       else Some (Ok ())))))"

definition exec_ValidateObservation ::
  "exec_lib \<Rightarrow> contract_names \<Rightarrow> ('c, 'd) exec_Plugin \<Rightarrow> byte list \<Rightarrow> byte list AttributedObservation \<Rightarrow> unit result option" where
  "exec_ValidateObservation xl cn p previousOutcome ao =
     obind (Some (wrap_err ''unable to decode observation'' (xcd_DecodeObservation (xpl_ocrTypeCodec p) (ao_Observation ao)))) (\<lambda>obs.
     obind (Some (wrap_err ''unable to decode previous outcome'' (xcd_DecodeOutcome (xpl_ocrTypeCodec p) previousOutcome))) (\<lambda>prev.
       exec_validate xl cn p prev (ao_OracleID ao) obs))"

section \<open>Outcome (outcome.go)\<close>

definition getCommitReportsOutcome :: "exec_Observation \<Rightarrow> exec_Outcome" where
  "getCommitReportsOutcome observation =
     NewOutcomeWithSortedCommitReports GetCommitReports (sort_key cd_Timestamp (concat (map snd (xob_CommitReports observation))))"

definition RemoveIthElement :: "'a list \<Rightarrow> int \<Rightarrow> 'a list" where
  "RemoveIthElement xs i =
     (if i < 0 \<or> int (length xs) \<le> i then xs else take (nat i) xs @ drop (nat i + 1) xs)"

definition add_messages :: "exec_Observation \<Rightarrow> CommitData \<Rightarrow> CommitData option" where
  "add_messages observation report =
     (case for_seq (sr_Start (cd_SequenceNumberRange report)) (sr_End (cd_SequenceNumberRange report)) (\<lambda>j r.
        case gm_get2 (xob_Messages observation) (cd_SourceChain report) j of
          None \<Rightarrow> Inr r
        | Some msg \<Rightarrow>
            Inr (r\<lparr>cd_Messages := cd_Messages r @ [msg],
                   cd_Hashes := cd_Hashes r @ [case gm_get2 (xob_Hashes observation) (cd_SourceChain report) j of
                       None \<Rightarrow> replicate 32 0 | Some h \<Rightarrow> h],
                   cd_MessageTokenData := cd_MessageTokenData r @ [case gm_get2 (xob_TokenData observation) (cd_SourceChain report) j of
                       None \<Rightarrow> NewMessageTokenData [] | Some td \<Rightarrow> td]\<rparr>))
        (report\<lparr>cd_Messages := []\<rparr>) of
        None \<Rightarrow> None
      | Some (Inl r) \<Rightarrow> Some r
      | Some (Inr r) \<Rightarrow> Some r)"

fun messages_loop :: "exec_Observation \<Rightarrow> nat \<Rightarrow> CommitData list \<Rightarrow> CommitData list \<Rightarrow> CommitData list option" where
  "messages_loop observation i commitReports [] = Some commitReports"
| "messages_loop observation i commitReports (report # reports) =
     (case add_messages observation report of
        None \<Rightarrow> None
      | Some r \<Rightarrow>
          messages_loop observation (Suc i)
            ((if cd_Messages r = [] then RemoveIthElement commitReports (int i) else commitReports) @ [r]) reports)"

definition getMessagesOutcome :: "exec_lib \<Rightarrow> exec_Observation \<Rightarrow> exec_Outcome result option" where
  "getMessagesOutcome xl observation =
     (case validateHashesExist xl (xob_Messages observation) (xob_Hashes observation) of
        Panic \<Rightarrow> Some Panic
      | Error _ \<Rightarrow> Some (Ok exec_Outcome_zero)
      | Ok _ \<Rightarrow>
          (case validateTokenDataObservations (xob_Messages observation) (xob_TokenData observation) of
             Panic \<Rightarrow> Some Panic
           | Error _ \<Rightarrow> Some (Ok exec_Outcome_zero)
           | Ok _ \<Rightarrow>
               (case messages_loop observation 0 [] (CommitObservations_Flatten (xob_CommitReports observation)) of
                  None \<Rightarrow> None
                | Some commitReports \<Rightarrow> Some (Ok (NewOutcomeWithSortedCommitReports GetMessages commitReports)))))"

definition filter_builder :: "exec_lib \<Rightarrow> ocr_limits \<Rightarrow> ('c, 'd) exec_Plugin \<Rightarrow> NonceObservations \<Rightarrow> execReportBuilder" where
  "filter_builder xl ol p nonces =
     NewBuilder xl (xpl_msgHasher p) (xpl_reportCodec p) (xpl_estimateProvider p) (xpl_destChain p) (xpl_addrCodec p)
       [Some (WithMultipleReports (eoc_MultipleReportsEnabled (xpl_offchainCfg p))),
        Some (WithMaxReportsCount maxReportCount),
        Some (WithMaxReportSizeBytes (ol_MaxMaxReportLength ol)),
        Some (WithMaxGas (eoc_BatchGasLimit (xpl_offchainCfg p))),
        Some (WithExtraMessageCheck (CheckNonces nonces (xpl_addrCodec p))),
        Some (WithMaxMessages (eoc_MaxReportMessages (xpl_offchainCfg p))),
        Some (WithMaxSingleChainReports (eoc_MaxSingleChainReports (xpl_offchainCfg p)))]"

definition getFilterOutcome ::
  "exec_lib \<Rightarrow> ocr_limits \<Rightarrow> ('c, 'd) exec_Plugin \<Rightarrow> exec_Observation \<Rightarrow> exec_Outcome \<Rightarrow> exec_Outcome result option" where
  "getFilterOutcome xl ol p observation previousOutcome =
     obind (map_option (wrap_err ''unable to select report'')
              (selectReports xl (xo_CommitReports previousOutcome) (filter_builder xl ol p (xob_Nonces observation))))
       (\<lambda>(execReports, selectedCommitReports). Some (Ok (exec_NewOutcome Filter (concat selectedCommitReports) execReports)))"

definition exec_initialize_contracts :: "('c, 'd) exec_Plugin \<Rightarrow> ('c, 'd) exec_Plugin" where
  "exec_initialize_contracts p = (if xpl_discovery p \<noteq> None then p\<lparr>xpl_contractsInitialized := True\<rparr> else p)"

text \<open>The outcome is \<^const>\<open>None\<close> when the code returns nil.\<close>

definition exec_outcome ::
  "exec_lib \<Rightarrow> ocr_limits \<Rightarrow> ('c, 'd) exec_Plugin \<Rightarrow> exec_Outcome \<Rightarrow> exec_ao list \<Rightarrow>
   exec_Outcome option result option" where
  "exec_outcome xl ol p previousOutcome aos =
     obind (Some (Next (xo_State previousOutcome))) (\<lambda>st.
     obind (Some (wrap_err ''unable to get consensus observation''
                    (computeConsensusObservation xl aos (xpl_destChain p) (xpl_F p)))) (\<lambda>observation.
     obind (if st = GetCommitReports then Some (Ok (Some (getCommitReportsOutcome observation)))
            else if st = GetMessages then obind (getMessagesOutcome xl observation) (\<lambda>out. Some (Ok (Some out)))
            else if st = Filter then
              (case getFilterOutcome xl ol p observation previousOutcome of
                 None \<Rightarrow> None
               | Some (Ok out) \<Rightarrow> Some (Ok (Some out))
               | Some (Error _) \<Rightarrow> Some (Ok None)
               | Some Panic \<Rightarrow> Some Panic)
            else Some Panic) (\<lambda>filtered.
       Some (Ok (case filtered of
           None \<Rightarrow> None
         | Some outcome \<Rightarrow>
             if exec_Outcome_IsEmpty outcome
             then (if xpl_contractsInitialized (exec_initialize_contracts p) then Some (exec_Outcome_zero\<lparr>xo_State := Initialized\<rparr>) else None)
             else Some outcome)))))"

definition exec_Outcome_method ::
  "exec_lib \<Rightarrow> ocr_limits \<Rightarrow> ('c, 'd) exec_Plugin \<Rightarrow> byte list \<Rightarrow> byte list AttributedObservation list \<Rightarrow>
   ('c, 'd) exec_Plugin \<times> byte list option result option" where
  "exec_Outcome_method xl ol p previousOutcome aos =
     (case wrap_err ''unable to decode previous outcome'' (xcd_DecodeOutcome (xpl_ocrTypeCodec p) previousOutcome) of
        Panic \<Rightarrow> (p, Some Panic)
      | Error e \<Rightarrow> (p, Some (Error e))
      | Ok prev \<Rightarrow>
          (case rbind (Next (xo_State prev)) (\<lambda>_.
             wrap_err ''unable to decode observations''
               (exec_decodeAttributedObservations (xcd_DecodeObservation (xpl_ocrTypeCodec p)) aos)) of
             Panic \<Rightarrow> (p, Some Panic)
           | Error e \<Rightarrow> (p, Some (Error e))
           | Ok decodedAos \<Rightarrow>
               (exec_initialize_contracts p,
                obind (exec_outcome xl ol p prev decodedAos) (\<lambda>out.
                  case out of
                    None \<Rightarrow> Some (Ok None)
                  | Some outcome \<Rightarrow>
                      obind (Some (xcd_EncodeOutcome (xpl_ocrTypeCodec p) outcome)) (\<lambda>bytes. Some (Ok (Some bytes)))))))"

section \<open>Observation (observation.go)\<close>

text \<open>The readings of the clock during one observation: for the query time, in the refresh of the report cache (its own and the ones of
  its insertions), in the reads of the report cache, when a root or a message is looked up, and at the i-th mark.\<close>

record exec_clock =
  xck_now :: time
  xck_refresh :: time
  xck_store :: "nat \<Rightarrow> time"
  xck_cache :: "time \<times> time \<times> time"
  xck_root :: "ChainSelector \<Rightarrow> Bytes32 \<Rightarrow> time"
  xck_message :: "ChainSelector \<Rightarrow> Bytes32 \<Rightarrow> time"
  xck_mark :: "nat \<Rightarrow> time"

text \<open>The three third party caches.\<close>

record ('c, 'd) cache_libs =
  cl_keys :: "('c, unit) go_cache"
  cl_reports :: "('d, CommitPluginReportWithMeta) go_cache"

definition getCurseInfo :: "('c, 'd) exec_Plugin \<Rightarrow> CurseInfo result" where
  "getCurseInfo p = wrap_err ''get rmn curse info: rmn read error'' (rd_GetRmnCurseInfo (xpl_ccipReader p))"

definition mark_executed ::
  "('c, 'd) cache_libs \<Rightarrow> exec_lib \<Rightarrow> exec_clock \<Rightarrow> CommitData list \<Rightarrow> CommitData list \<Rightarrow> 'c commitRootsCache \<Rightarrow> 'c commitRootsCache" where
  "mark_executed cl xl clock fullyExecutedFinalized fullyExecutedUnfinalized roots =
     (let n = length fullyExecutedFinalized;
          roots = fold (\<lambda>(i, d). MarkAsExecuted (cl_keys cl) xl (xck_mark clock i) (cd_SourceChain d) (cd_MerkleRoot d))
                    (enumerate 0 fullyExecutedFinalized) roots
      in fold (\<lambda>(i, d). Snooze (cl_keys cl) xl (xck_mark clock i) (cd_SourceChain d) (cd_MerkleRoot d))
           (enumerate n fullyExecutedUnfinalized) roots)"

definition getCommitReportsObservation ::
  "('c, 'd) cache_libs \<Rightarrow> exec_lib \<Rightarrow> exec_clock \<Rightarrow> ('c, 'd) exec_Plugin \<Rightarrow> exec_Observation \<Rightarrow>
   ('c, 'd) exec_Plugin \<times> exec_Observation result" where
  "getCommitReportsObservation cl xl clock p observation =
     pbind p (wrap_err ''unable to determine if the destination chain is supported'' (exec_supportsDestChain p)) (\<lambda>supportsDest.
       let fetchFrom = xck_now clock - eoc_MessageVisibilityInterval (xpl_offchainCfg p) in
       if \<not> supportsDest then (p, Ok observation)
       else
       let (cache, refreshed) = RefreshCache (cl_reports cl) xl (xpl_ccipReader p) (xck_refresh clock) (xck_store clock) (xpl_commitReportCache p);
           p = p\<lparr>xpl_commitReportCache := cache\<rparr>
       in pbind p (or_zero () refreshed) (\<lambda>_.
          case getCurseInfo p of
            Panic \<Rightarrow> (p, Panic)
          | Error _ \<Rightarrow> (p, Ok observation)
          | Ok ci \<Rightarrow>
              if ci_GlobalCurse ci \<or> ci_CursedDestination ci then (p, Ok observation)
              else pbind p (getPendingReportsForExecution (cl_reports cl) xl (xpl_ccipReader p) (xck_cache clock) (xpl_commitReportCache p)
                     (\<lambda>sel root. CanExecute (cl_keys cl) xl (xck_root clock sel root) (xpl_commitRootsCache p) sel root)
                     fetchFrom (ci_CursedSourceChains ci) (s64 (uint (eoc_MaxCommitReportsToFetch (xpl_offchainCfg p)))))
                (\<lambda>(groupedCommits, fullyExecutedFinalized, fullyExecutedUnfinalized).
                   (p\<lparr>xpl_commitRootsCache := mark_executed cl xl clock fullyExecutedFinalized fullyExecutedUnfinalized (xpl_commitRootsCache p)\<rparr>,
                    Ok (observation\<lparr>xob_CommitReports := groupedCommits\<rparr>)))))"

definition observeTokenDataForMessage :: "('c, 'd) exec_Plugin \<Rightarrow> Message \<Rightarrow> MessageTokenData result" where
  "observeTokenDataForMessage p msg =
     (let srcChain = mh_SourceChainSelector (msg_Header msg); seqNum = mh_SequenceNumber (msg_Header msg)
      in case xpl_tokenDataObserver p [(srcChain, [(seqNum, msg)])] of
           Panic \<Rightarrow> Panic
         | Error e \<Rightarrow> Ok (NewMessageTokenData [NewErrorTokenData e])
         | Ok td \<Rightarrow> Ok (case gm_get2 td srcChain seqNum of None \<Rightarrow> NewMessageTokenData [] | Some mtd \<Rightarrow> mtd))"

definition readMessagesForReport ::
  "exec_lib \<Rightarrow> ('c, 'd) exec_Plugin \<Rightarrow> ChainSelector \<Rightarrow> CommitData \<Rightarrow> Message list result option" where
  "readMessagesForReport xl p srcChain report =
     obind (Some (rd_MsgsBetweenSeqNums (xpl_ccipReader p) srcChain (cd_SequenceNumberRange report))) (\<lambda>msgs.
       case msgsConformToSeqRange xl msgs (cd_SequenceNumberRange report) of
         None \<Rightarrow> None
       | Some conform \<Rightarrow> Some (if conform then Ok msgs else Error (Err ''missing messages in range'')))"

text \<open>The four maps that the observation of the second phase is made of. The observation refers to them, so that a later write
  to a map shows in it.\<close>

record obs_maps =
  om_messages :: MessageObservations
  om_reports :: CommitObservations
  om_hashes :: MessageHashes
  om_tokens :: TokenDataObservations

definition with_maps :: "exec_Observation \<Rightarrow> obs_maps \<Rightarrow> exec_Observation" where
  "with_maps obs om = obs\<lparr>xob_CommitReports := om_reports om, xob_Hashes := om_hashes om, xob_Messages := om_messages om,
     xob_TokenData := om_tokens om\<rparr>"

definition put_message :: "ChainSelector \<Rightarrow> SeqNum \<Rightarrow> Message \<Rightarrow> MessageTokenData \<Rightarrow> obs_maps \<Rightarrow> obs_maps" where
  "put_message srcChain seqNum msg td om =
     om\<lparr>om_messages := gm_put2 srcChain seqNum msg (om_messages om), om_tokens := gm_put2 srcChain seqNum td (om_tokens om)\<rparr>"

definition init_chain :: "ChainSelector \<Rightarrow> CommitData \<Rightarrow> obs_maps \<Rightarrow> obs_maps" where
  "init_chain srcChain report om =
     (let om = om\<lparr>om_reports := gm_append srcChain report (om_reports om)\<rparr>
      in if map_of (om_messages om) srcChain = None
         then om\<lparr>om_messages := gm_put srcChain [] (om_messages om), om_hashes := gm_put srcChain [] (om_hashes om),
                 om_tokens := gm_put srcChain [] (om_tokens om)\<rparr>
         else om)"

fun init_messages :: "(Message \<Rightarrow> Bytes32 result) \<Rightarrow> ChainSelector \<Rightarrow> Message list \<Rightarrow> obs_maps \<Rightarrow> obs_maps result" where
  "init_messages hasher srcChain [] om = Ok om"
| "init_messages hasher srcChain (msg # msgs) om =
     (let seqNum = mh_SequenceNumber (msg_Header msg);
          om = put_message srcChain seqNum (createEmptyMessageWithIDAndSeqNum msg) (NewMessageTokenData []) om
      in rbind (wrap_err ''unable to hash message'' (hasher msg)) (\<lambda>hash.
           init_messages hasher srcChain msgs (om\<lparr>om_hashes := gm_put2 srcChain seqNum hash (om_hashes om)\<rparr>)))"

text \<open>The messages that are not in flight and not executed, until the observation is too large.\<close>

fun fill_messages ::
  "('c, 'd) cache_libs \<Rightarrow> exec_lib \<Rightarrow> ocr_limits \<Rightarrow> exec_clock \<Rightarrow> ('c, 'd) exec_Plugin \<Rightarrow> exec_Observation \<Rightarrow> CommitData \<Rightarrow> Message list \<Rightarrow>
   obs_maps \<Rightarrow> int \<Rightarrow> (obs_maps \<times> int \<times> bool) result" where
  "fill_messages cl xl ol clock p observation report [] om totalMsgs = Ok (om, totalMsgs, False)"
| "fill_messages cl xl ol clock p observation report (msg # msgs) om totalMsgs =
     (let srcChain = cd_SourceChain report; seqNum = mh_SequenceNumber (msg_Header msg); msgID = mh_MessageID (msg_Header msg) in
      if IsInflight (cl_keys cl) xl (xck_message clock srcChain msgID) (xpl_inflightMessageCache p) srcChain msgID
      then fill_messages cl xl ol clock p observation report msgs om totalMsgs
      else if seqNum \<in> set (cd_ExecutedMessages report)
      then fill_messages cl xl ol clock p observation report msgs om totalMsgs
      else
      rbind (observeTokenDataForMessage p msg) (\<lambda>td.
      let om' = put_message srcChain seqNum msg td om
      in rbind (wrap_err ''unable to encode observation''
                  (xcd_EncodeObservation (xpl_ocrTypeCodec p) (with_maps observation om'))) (\<lambda>encodedObs.
         if lenientMaxMsgsPerObs < totalMsgs + 1 \<or> lenientMaxObservationLength ol < int (length encodedObs)
         then Ok (put_message srcChain seqNum (createEmptyMessageWithIDAndSeqNum msg) (NewMessageTokenData []) om', totalMsgs + 1, True)
         else fill_messages cl xl ol clock p observation report msgs om' (totalMsgs + 1))))"

text \<open>The loop over the commit reports. The observation is only assigned its maps when a report is read.\<close>

fun observe_reports ::
  "('c, 'd) cache_libs \<Rightarrow> exec_lib \<Rightarrow> ocr_limits \<Rightarrow> exec_clock \<Rightarrow> ('c, 'd) exec_Plugin \<Rightarrow> ChainSelector list \<Rightarrow> CommitData list \<Rightarrow>
   obs_maps \<Rightarrow> int \<Rightarrow> exec_Observation \<Rightarrow> exec_Observation result option" where
  "observe_reports cl xl ol clock p supportedChains [] om totalMsgs observation = Some (Ok observation)"
| "observe_reports cl xl ol clock p supportedChains (report # reports) om totalMsgs observation =
     (let srcChain = cd_SourceChain report in
      if srcChain \<notin> set supportedChains
      then observe_reports cl xl ol clock p supportedChains reports om totalMsgs observation
      else (case readMessagesForReport xl p srcChain report of
          None \<Rightarrow> None
        | Some Panic \<Rightarrow> Some Panic
        | Some (Error _) \<Rightarrow> observe_reports cl xl ol clock p supportedChains reports om totalMsgs observation
        | Some (Ok msgs) \<Rightarrow>
            obind (Some (init_messages (xpl_msgHasher p) srcChain msgs (init_chain srcChain report om))) (\<lambda>om.
            obind (Some (fill_messages cl xl ol clock p observation report msgs om totalMsgs)) (\<lambda>(om, totalMsgs, stop).
              if stop then Some (Ok (with_maps observation om))
              else observe_reports cl xl ol clock p supportedChains reports om totalMsgs (with_maps observation om)))))"

definition getMessagesObservation ::
  "('c, 'd) cache_libs \<Rightarrow> exec_lib \<Rightarrow> ocr_limits \<Rightarrow> exec_clock \<Rightarrow> ('c, 'd) exec_Plugin \<Rightarrow> exec_Outcome \<Rightarrow> exec_Observation \<Rightarrow>
   exec_Observation result option" where
  "getMessagesObservation cl xl ol clock p previousOutcome observation =
     (if xo_CommitReports previousOutcome = [] then Some (Ok observation)
      else
      let commitData = sort_key cd_key (xo_CommitReports previousOutcome)
      in obind (Some (wrap_err ''get supported chains'' (exec_supportedChains p (xpl_oracleID p)))) (\<lambda>supportedChains.
           observe_reports cl xl ol clock p supportedChains commitData
             \<lparr>om_messages = [], om_reports = [], om_hashes = [], om_tokens = []\<rparr> 0 observation))"

text \<open>The senders of each chain, each once, in the order in which they are first met.\<close>

definition add_sender :: "exec_lib \<Rightarrow> ('c, 'd) exec_Plugin \<Rightarrow> ChainSelector \<Rightarrow> Message \<Rightarrow> (ChainSelector, string list) gomap \<Rightarrow>
  (ChainSelector, string list) gomap result" where
  "add_sender xl p srcChain msg senders =
     (if xl_IsPseudoDeleted xl msg then Ok senders
      else case xpl_addrCodec p (msg_Sender msg) srcChain of
             Panic \<Rightarrow> Panic
           | Error _ \<Rightarrow> Ok senders
           | Ok sender \<Rightarrow> Ok (if sender \<in> set (gm_vals senders srcChain) then senders else gm_append srcChain sender senders))"

fun add_senders :: "exec_lib \<Rightarrow> ('c, 'd) exec_Plugin \<Rightarrow> ChainSelector \<Rightarrow> Message list \<Rightarrow> (ChainSelector, string list) gomap \<Rightarrow>
  (ChainSelector, string list) gomap result" where
  "add_senders xl p srcChain [] senders = Ok senders"
| "add_senders xl p srcChain (msg # msgs) senders = rbind (add_sender xl p srcChain msg senders) (add_senders xl p srcChain msgs)"

fun report_senders :: "exec_lib \<Rightarrow> ('c, 'd) exec_Plugin \<Rightarrow> CommitData list \<Rightarrow> (ChainSelector, string list) gomap \<Rightarrow>
  (ChainSelector, string list) gomap result" where
  "report_senders xl p [] senders = Ok senders"
| "report_senders xl p (report # reports) senders =
     (let srcChain = cd_SourceChain report;
          senders = (if map_of senders srcChain = None then gm_put srcChain [] senders else senders)
      in rbind (add_senders xl p srcChain (cd_Messages report) senders) (report_senders xl p reports))"

definition getFilterObservation ::
  "exec_lib \<Rightarrow> ('c, 'd) exec_Plugin \<Rightarrow> exec_Outcome \<Rightarrow> exec_Observation \<Rightarrow> exec_Observation result" where
  "getFilterObservation xl p previousOutcome observation =
     rbind (wrap_err ''unable to determine if the destination chain is supported'' (exec_supportsDestChain p)) (\<lambda>supportsDest.
       if \<not> supportsDest then Ok observation
       else
       rbind (report_senders xl p (xo_CommitReports previousOutcome) []) (\<lambda>commitReportSenders.
         case rdx_Nonces (xpl_ccipReader p) commitReportSenders of
           Panic \<Rightarrow> Panic
         | Error _ \<Rightarrow> Ok observation
         | Ok nonceObservations \<Rightarrow> Ok (observation\<lparr>xob_Nonces := nonceObservations\<rparr>)))"

definition mark_inflight ::
  "('c, 'd) cache_libs \<Rightarrow> exec_lib \<Rightarrow> exec_clock \<Rightarrow> exec_Outcome \<Rightarrow> ('c, 'd) exec_Plugin \<Rightarrow> ('c, 'd) exec_Plugin" where
  "mark_inflight cl xl clock previousOutcome p =
     p\<lparr>xpl_inflightMessageCache :=
        fold (\<lambda>execReport. fold (\<lambda>chainReport. fold (\<lambda>message.
            MarkInflight (cl_keys cl) xl (xck_message clock (er_SourceChainSelector chainReport) (mh_MessageID (msg_Header message)))
              (er_SourceChainSelector chainReport) (mh_MessageID (msg_Header message)))
          (er_Messages chainReport)) (epr_ChainReports execReport)) (xo_Reports previousOutcome) (xpl_inflightMessageCache p)\<rparr>"

text \<open>The observation is \<^const>\<open>None\<close> when the code returns nil. The comparison of config digests at the start of every
  round only feeds a metric.\<close>

definition exec_observe ::
  "('c, 'd) cache_libs \<Rightarrow> exec_lib \<Rightarrow> ocr_limits \<Rightarrow> byte \<Rightarrow> exec_clock \<Rightarrow> ('c, 'd) exec_Plugin \<Rightarrow> exec_Outcome \<Rightarrow>
   ('c, 'd) exec_Plugin \<times> exec_Observation option result option" where
  "exec_observe cl xl ol pluginTypeExecute clock p previousOutcome =
     (case (if xo_State previousOutcome = Filter then wrap_err ''skipping observation'' (checkConfigDigest pluginTypeExecute p) else Ok ()) of
        Panic \<Rightarrow> (p, Some Panic)
      | Error e \<Rightarrow> (p, Some (Error e))
      | Ok _ \<Rightarrow>
          let p = (if xo_State previousOutcome = Filter then mark_inflight cl xl clock previousOutcome p else p)
          in case rbind (wrap_err ''unable to get FChain'' (GetFChain (xpl_homeChain p))) (\<lambda>fChain.
                    rbind (case xpl_discovery p of
                             None \<Rightarrow> Ok dt_Observation_zero
                           | Some d \<Rightarrow> or_zero dt_Observation_zero (dt_Observation_method d)) (\<lambda>discoveryObs. Ok (fChain, discoveryObs))) of
               Panic \<Rightarrow> (p, Some Panic)
             | Error e \<Rightarrow> (p, Some (Error e))
             | Ok (fChain, discoveryObs) \<Rightarrow>
                 let observation = exec_Observation_zero\<lparr>xob_Contracts := discoveryObs, xob_FChain := fChain\<rparr>
                 in if xpl_discovery p \<noteq> None \<and> \<not> xpl_contractsInitialized p then (p, Some (Ok (Some observation)))
                    else (case Next (xo_State previousOutcome) of
                        Panic \<Rightarrow> (p, Some Panic)
                      | Error e \<Rightarrow> (p, Some (Error e))
                      | Ok st \<Rightarrow>
                          if st = GetCommitReports
                          then (let (p', r) = getCommitReportsObservation cl xl clock p observation
                                in (p', Some (rbind (wrap_err ''getCommitReportsObservation'' r) (\<lambda>obs. Ok (Some obs)))))
                          else if st = GetMessages
                          then (p, case getMessagesObservation cl xl ol clock p previousOutcome observation of
                                None \<Rightarrow> None | Some Panic \<Rightarrow> Some Panic | Some (Error _) \<Rightarrow> Some (Ok None) | Some (Ok obs) \<Rightarrow> Some (Ok (Some obs)))
                          else if st = Filter
                          then (p, Some (case getFilterObservation xl p previousOutcome observation of
                                Panic \<Rightarrow> Panic | Error _ \<Rightarrow> Ok None | Ok obs \<Rightarrow> Ok (Some obs)))
                          else (p, Some (Error (Err ''get observation: unknown state'')))))"

definition exec_Observation_method ::
  "('c, 'd) cache_libs \<Rightarrow> exec_lib \<Rightarrow> ocr_limits \<Rightarrow> byte \<Rightarrow> exec_clock \<Rightarrow> ('c, 'd) exec_Plugin \<Rightarrow> byte list \<Rightarrow>
   ('c, 'd) exec_Plugin \<times> byte list option result option" where
  "exec_Observation_method cl xl ol pluginTypeExecute clock p previousOutcome =
     (case wrap_err ''unable to decode previous outcome'' (xcd_DecodeOutcome (xpl_ocrTypeCodec p) previousOutcome) of
        Panic \<Rightarrow> (p, Some Panic)
      | Error e \<Rightarrow> (p, Some (Error e))
      | Ok prev \<Rightarrow>
          let (p', r) = exec_observe cl xl ol pluginTypeExecute clock p prev
          in (p', obind r (\<lambda>obs.
               case obs of
                 None \<Rightarrow> Some (Ok None)
               | Some observation \<Rightarrow>
                   obind (Some (xcd_EncodeObservation (xpl_ocrTypeCodec p) observation)) (\<lambda>bytes. Some (Ok (Some bytes))))))"

section \<open>Reports (plugin.go)\<close>

record ExecuteReportInfo =
  eri_AbstractReports :: "ExecutePluginReportSingleChain list"
  eri_MerkleRoots :: "MerkleRootChain list"

definition root_of_commit :: "CommitData \<Rightarrow> MerkleRootChain" where
  "root_of_commit cr = \<lparr>mrc_ChainSel = cd_SourceChain cr, mrc_OnRampAddress = cd_OnRampAddress cr,
     mrc_SeqNumsRange = cd_SequenceNumberRange cr, mrc_MerkleRoot = cd_MerkleRoot cr\<rparr>"

text \<open>The roots of the chain reports of one execute report, from the given position of the commit reports on.\<close>

fun take_roots :: "CommitData list \<Rightarrow> nat \<Rightarrow> nat \<Rightarrow> MerkleRootChain list result" where
  "take_roots commitReports idx 0 = Ok []"
| "take_roots commitReports idx (Suc n) =
     (if length commitReports \<le> idx then Error (Err ''not enough commit reports for the number of chain reports'')
      else rbind (take_roots commitReports (Suc idx) n) (\<lambda>roots. Ok (root_of_commit (commitReports ! idx) # roots)))"

fun report_infos :: "CommitData list \<Rightarrow> nat \<Rightarrow> ExecutePluginReport list \<Rightarrow> ExecuteReportInfo list result" where
  "report_infos commitReports idx [] = Ok []"
| "report_infos commitReports idx (execReport # reports) =
     rbind (take_roots commitReports idx (length (epr_ChainReports execReport))) (\<lambda>merkleRoots.
     rbind (report_infos commitReports (idx + length (epr_ChainReports execReport)) reports) (\<lambda>ri.
       Ok (\<lparr>eri_AbstractReports = epr_ChainReports execReport, eri_MerkleRoots = merkleRoots\<rparr> # ri)))"

definition extractReportInfo :: "exec_Outcome \<Rightarrow> ExecuteReportInfo list result" where
  "extractReportInfo report = report_infos (xo_CommitReports report) 0 (xo_Reports report)"

fun encode_exec_reports ::
  "ExecutePluginCodec \<Rightarrow> (ExecuteReportInfo \<Rightarrow> byte list result) \<Rightarrow> TransmissionSchedule \<Rightarrow>
   (ExecutePluginReport \<times> ExecuteReportInfo) list \<Rightarrow> (ReportWithInfo \<times> TransmissionSchedule) list result" where
  "encode_exec_reports codec encodeInfo schedule [] = Ok []"
| "encode_exec_reports codec encodeInfo schedule ((execReport, info) # rest) =
     rbind (wrap_err ''unable to encode report'' (xc_Encode codec execReport)) (\<lambda>encodedReport.
     rbind (wrap_err ''unable to encode report info'' (encodeInfo info)) (\<lambda>encodedInfo.
     rbind (encode_exec_reports codec encodeInfo schedule rest) (\<lambda>reports.
       Ok ((\<lparr>rwi_Report = Some encodedReport, rwi_Info = encodedInfo\<rparr>, schedule) # reports))))"

text \<open>\<open>encodeInfo\<close> is \<open>ExecuteReportInfo.Encode\<close>. A nil outcome is \<^const>\<open>None\<close>.\<close>

definition exec_Reports ::
  "(ExecuteReportInfo \<Rightarrow> byte list result) \<Rightarrow> ('c, 'd) exec_Plugin \<Rightarrow> byte list option \<Rightarrow> (ReportWithInfo \<times> TransmissionSchedule) list result" where
  "exec_Reports encodeInfo p outcome =
     (case outcome of
        None \<Rightarrow> Ok []
      | Some bytes \<Rightarrow>
          rbind (wrap_err ''unable to decode outcome'' (xcd_DecodeOutcome (xpl_ocrTypeCodec p) bytes)) (\<lambda>decodedOutcome.
            if xo_Reports decodedOutcome = [] then Ok []
            else
            rbind (wrap_err ''extract report info'' (extractReportInfo decodedOutcome)) (\<lambda>reportInfos.
              if length reportInfos \<noteq> length (xo_Reports decodedOutcome)
              then Error (Err ''expected report infos that equals number of reports'')
              else
              rbind (wrap_err ''get transmission schedule''
                       (GetTransmissionSchedule (SupportsDestChain (xpl_chainSupport p)) (map fst (xpl_oracleIDToP2pID p))
                          (eoc_TransmissionDelayMultiplier (xpl_offchainCfg p)))) (\<lambda>transmissionSchedule.
                encode_exec_reports (xpl_reportCodec p) encodeInfo transmissionSchedule (zip (xo_Reports decodedOutcome) reportInfos)))))"

section \<open>Acceptance (plugin.go)\<close>

definition seq_numbers :: "ExecutePluginReportSingleChain \<Rightarrow> SeqNum list" where
  "seq_numbers cr = map (\<lambda>m. mh_SequenceNumber (msg_Header m)) (er_Messages cr)"

definition getSeqNrRangesBySource :: "ExecutePluginReportSingleChain list \<Rightarrow> (ChainSelector, SeqNumRange list) gomap" where
  "getSeqNrRangesBySource chainReports =
     fold (\<lambda>cr m. if er_Messages cr = [] then m
         else gm_append (er_SourceChainSelector cr)
                \<lparr>sr_Start = Min (set (seq_numbers cr)), sr_End = Max (set (seq_numbers cr))\<rparr> m) chainReports []"

text \<open>Whether all numbers of a source are executed; a source without any executed message ends the search as well.\<close>

fun all_sources_executed :: "exec_lib \<Rightarrow> (ChainSelector, SeqNum list) gomap \<Rightarrow> (ChainSelector, SeqNumRange list) gomap \<Rightarrow> bool" where
  "all_sources_executed xl executed [] = True"
| "all_sources_executed xl executed ((source, reportRanges) # rest) =
     (case map_of executed source of
        None \<Rightarrow> False
      | Some ns \<Rightarrow>
          let snSet = set (concat (map (xl_ToSlice xl) reportRanges))
          in if card (set ns \<inter> snSet) \<noteq> card snSet then False else all_sources_executed xl executed rest)"

definition checkAlreadyExecuted :: "exec_lib \<Rightarrow> ('c, 'd) exec_Plugin \<Rightarrow> ExecutePluginReportSingleChain list \<Rightarrow> unit result" where
  "checkAlreadyExecuted xl p reports =
     (let seqNrRangesBySource = getSeqNrRangesBySource reports
      in rbind (wrap_err ''couldn't check if messages already executed''
                  (rdx_ExecutedMessages (xpl_ccipReader p) seqNrRangesBySource Unconfirmed)) (\<lambda>executed.
           if all_sources_executed xl executed seqNrRangesBySource then Error (Wrap ''all messages already executed'' ErrAlreadyExecuted)
           else Ok ()))"

fun is_error :: "(error \<Rightarrow> bool) \<Rightarrow> error \<Rightarrow> bool" where
  "is_error P (Wrap s e) \<longleftrightarrow> P (Wrap s e) \<or> is_error P e"
| "is_error P e \<longleftrightarrow> P e"

definition is_invalid_report :: "error \<Rightarrow> bool" where
  "is_invalid_report = is_error (\<lambda>e. case e of ErrInvalidReport _ \<Rightarrow> True | _ \<Rightarrow> False)"

definition exec_validateReport :: "exec_lib \<Rightarrow> byte \<Rightarrow> ('c, 'd) exec_Plugin \<Rightarrow> ReportWithInfo \<Rightarrow> ExecutePluginReport result" where
  "exec_validateReport xl pluginTypeExecute p r =
     (case rwi_Report r of
        None \<Rightarrow> Error (ErrInvalidReport ''nil report'')
      | Some report \<Rightarrow>
          rbind (validating (wrap_err ''decode exec plugin report'' (xc_Decode (xpl_reportCodec p) report))) (\<lambda>decodedReport.
          if epr_ChainReports decodedReport = [] then Error (ErrInvalidReport ''empty report'')
          else
          rbind (validating (wrap_err ''supports dest chain'' (SupportsDestChain (xpl_chainSupport p) (xpl_oracleID p)))) (\<lambda>supports.
          if \<not> supports then Error (ErrInvalidReport ''dest chain not supported'')
          else
          (case checkConfigDigest pluginTypeExecute p of
             Panic \<Rightarrow> Panic
           | Error e \<Rightarrow> (if is_error (\<lambda>e. e = ErrOffRampConfigMismatch) e then Error (ErrInvalidReport (error_text e))
                        else Error (ErrReportValidation e))
           | Ok _ \<Rightarrow>
               (case checkAlreadyExecuted xl p (epr_ChainReports decodedReport) of
                  Panic \<Rightarrow> Panic
                | Error e \<Rightarrow> (if is_error (\<lambda>e. e = ErrAlreadyExecuted) e then Error (ErrInvalidReport (error_text e))
                             else Error (ErrReportValidation (Wrap ''checking for already executed messages failed'' e)))
                | Ok _ \<Rightarrow> Ok decodedReport)))))"

definition exec_ShouldAcceptAttestedReport ::
  "ccip_lib \<Rightarrow> exec_lib \<Rightarrow> byte \<Rightarrow> ('c, 'd) exec_Plugin \<Rightarrow> ReportWithInfo \<Rightarrow> bool result" where
  "exec_ShouldAcceptAttestedReport lib xl pluginTypeExecute p r =
     rbind (wrap_err ''checking if destination chain is supported'' (exec_supportsDestChain p)) (\<lambda>supportsDest.
       if \<not> supportsDest then Error (ErrInvalidReport ''destination chain not supported'')
       else (case exec_validateReport xl pluginTypeExecute p r of
           Panic \<Rightarrow> Panic
         | Error e \<Rightarrow> (if is_invalid_report e then Ok False else Error (Wrap ''validating report'' e))
         | Ok decodedReport \<Rightarrow>
             rbind (IsReportCursed lib (rd_GetRmnCurseInfo (xpl_ccipReader p))
                      (map er_SourceChainSelector (epr_ChainReports decodedReport))) (\<lambda>isCursed. Ok (\<not> isCursed))))"

definition exec_ShouldTransmitAcceptedReport ::
  "exec_lib \<Rightarrow> byte \<Rightarrow> ('c, 'd) exec_Plugin \<Rightarrow> ReportWithInfo \<Rightarrow> bool result" where
  "exec_ShouldTransmitAcceptedReport xl pluginTypeExecute p r =
     (case exec_validateReport xl pluginTypeExecute p r of
        Panic \<Rightarrow> Panic
      | Error e \<Rightarrow> (if is_invalid_report e then Ok False else Error (Wrap ''validating report'' e))
      | Ok _ \<Rightarrow> Ok True)"

text \<open>\<open>quorum\<close> is \<open>ObservationCountReachesObservationQuorum\<close> of libocr with two thirds plus one.\<close>

definition exec_ObservationQuorum ::
  "(int \<Rightarrow> int \<Rightarrow> byte list AttributedObservation list \<Rightarrow> bool) \<Rightarrow> ('c, 'd) exec_Plugin \<Rightarrow> byte list AttributedObservation list \<Rightarrow> bool result" where
  "exec_ObservationQuorum quorum p aos = Ok (quorum (xpl_N p) (xpl_F p) aos)"

text \<open>What \<open>NewPlugin\<close> sets up; the observers and codecs are passed through, and the plugin is then wrapped for metrics.\<close>

definition NewExecPlugin ::
  "('c, 'd) cache_libs \<Rightarrow> OracleID \<Rightarrow> int \<Rightarrow> int \<Rightarrow> Bytes32 \<Rightarrow> ExecuteOffchainConfig \<Rightarrow> ChainSelector \<Rightarrow> (OracleID, PeerID) gomap \<Rightarrow>
   exec_reader \<Rightarrow> ExecutePluginCodec \<Rightarrow> (Message \<Rightarrow> Bytes32 result) \<Rightarrow> homeChainPoller \<Rightarrow>
   (MessageObservations \<Rightarrow> TokenDataObservations result) \<Rightarrow> EstimateProvider option \<Rightarrow> exec_codec \<Rightarrow> AddressBytesToString \<Rightarrow>
   ('c, 'd) exec_Plugin" where
  "NewExecPlugin cl oracleID f n configDigest offchainCfg destChain oracleIDToP2pID ccipReader reportCodec msgHasher homeChain
     tokenDataObserver estimateProvider ocrTypeCodec addrCodec =
     \<lparr>xpl_oracleID = oracleID, xpl_F = f, xpl_N = n, xpl_configDigest = configDigest, xpl_offchainCfg = offchainCfg,
      xpl_destChain = destChain, xpl_ccipReader = ccipReader, xpl_reportCodec = reportCodec, xpl_msgHasher = msgHasher,
      xpl_homeChain = homeChain,
      xpl_discovery = NewContractDiscoveryProcessor (ccip_reader.truncate ccipReader) homeChain destChain f oracleIDToP2pID oracleID,
      xpl_chainSupport = \<lparr>cs_homeChain = Some homeChain, cs_oracleIDToP2PID = oracleIDToP2pID, cs_nodeID = oracleID, cs_destChain = destChain\<rparr>,
      xpl_oracleIDToP2pID = oracleIDToP2pID, xpl_tokenDataObserver = tokenDataObserver, xpl_estimateProvider = estimateProvider,
      xpl_ocrTypeCodec = ocrTypeCodec, xpl_addrCodec = addrCodec, xpl_contractsInitialized = False,
      xpl_commitRootsCache = NewCommitRootsCache (cl_keys cl) (eoc_MessageVisibilityInterval offchainCfg) (eoc_RootSnoozeTime offchainCfg),
      xpl_commitReportCache = NewCommitReportCache (cl_reports cl)
        \<lparr>rcc_MessageVisibilityInterval = eoc_MessageVisibilityInterval offchainCfg, rcc_EvictionGracePeriod = EvictionGracePeriod,
         rcc_CleanupInterval = CleanupInterval, rcc_LookbackGracePeriod = 0\<rparr>,
      xpl_inflightMessageCache = NewInflightMessageCache (cl_keys cl) (eoc_InflightCacheExpiry offchainCfg)\<rparr>"


end
