(* ===== verification/ExecCodec.thy ===== *)
theory ExecCodec
  imports Codec ExecPlugin
begin

text \<open>
  The protobuf codec of the execute plugin (pkg/ocrtypecodec/v1: exec.go and the part of translate.go it uses), with the
  conventions of the commit codec. A message with a single field is its field.

  The lemmas show what a value becomes when it is encoded and decoded, that whatever is decoded is well typed, and
  which messages make the decoder fail or panic. The deprecated JSON codec is not modelled.
\<close>

section \<open>Messages\<close>

record pb_TokenData =
  pbtd_Ready :: bool
  pbtd_Data :: "byte list"

type_synonym pb_MessageTokenData = "pb_TokenData list"

record pb_RampMessageHeader =
  pbh_MessageId :: "byte list"
  pbh_SourceChainSelector :: u64
  pbh_DestChainSelector :: u64
  pbh_SequenceNumber :: u64
  pbh_Nonce :: u64
  pbh_MsgHash :: "byte list"
  pbh_OnRamp :: "byte list"
  pbh_TxHash :: string

record pb_RampTokenAmount =
  pbra_SourcePoolAddress :: "byte list"
  pbra_DestTokenAddress :: "byte list"
  pbra_ExtraData :: "byte list"
  pbra_Amount :: "byte list"
  pbra_DestExecData :: "byte list"

record pb_Message =
  pbms_Header :: "pb_RampMessageHeader option"
  pbms_Sender :: "byte list"
  pbms_Data :: "byte list"
  pbms_Receiver :: "byte list"
  pbms_ExtraArgs :: "byte list"
  pbms_FeeToken :: "byte list"
  pbms_FeeTokenAmount :: "byte list"
  pbms_FeeValueJuels :: "byte list"
  pbms_TokenAmounts :: "pb_RampTokenAmount list"

record pb_CommitData =
  pbcd_SourceChain :: u64
  pbcd_OnRampAddress :: "byte list"
  pbcd_Timestamp :: "pb_Timestamp option"
  pbcd_BlockNum :: u64
  pbcd_MerkleRoot :: "byte list"
  pbcd_SequenceNumberRange :: "pb_SeqNumRange option"
  pbcd_ExecutedMessages :: "u64 list"
  pbcd_Messages :: "pb_Message list"
  pbcd_Hashes :: "byte list list"
  pbcd_MessageTokenData :: "pb_MessageTokenData list"

record pb_ChainReport =
  pbrp_SourceChainSelector :: u64
  pbrp_Messages :: "pb_Message list"
  pbrp_OffchainTokenData :: "byte list list list"
  pbrp_Proofs :: "byte list list"
  pbrp_ProofFlagBits :: "byte list"

type_synonym pb_ExecutePluginReport = "pb_ChainReport list"

record pb_ExecObservation =
  pbx_CommitReports :: "(u64, pb_CommitData list) gomap"
  pbx_SeqNumsToMsgs :: "(u64, (u64, pb_Message) gomap) gomap"
  pbx_MsgHashes :: "(u64, (u64, byte list) gomap) gomap"
  pbx_TokenDataObservations :: "(u64, (u64, pb_MessageTokenData) gomap) gomap option"
  pbx_Nonces :: "(u64, (string, u64) gomap) gomap"
  pbx_Contracts :: "pb_DiscoveryObservation option"
  pbx_FChain :: pb_FChain

record pb_ExecOutcome =
  pby_PluginState :: string
  pby_CommitReports :: "pb_CommitData list"
  pby_ExecutePluginReport :: "pb_ExecutePluginReport option"
  pby_ExecutePluginReports :: "pb_ExecutePluginReport list"

definition pb_ExecOutcome_zero :: pb_ExecOutcome where
  "pb_ExecOutcome_zero = \<lparr>pby_PluginState = [], pby_CommitReports = [], pby_ExecutePluginReport = None, pby_ExecutePluginReports = []\<rparr>"

text \<open>The protobuf runtime and \<open>cciptypes.BigInt.Bytes\<close>, as for the commit codec.\<close>

record 'w exec_proto =
  xpr_MarshalObs :: "pb_ExecObservation \<Rightarrow> 'w list result"
  xpr_UnmarshalObs :: "'w list \<Rightarrow> pb_ExecObservation result"
  xpr_MarshalOutcome :: "pb_ExecOutcome \<Rightarrow> 'w list result"
  xpr_UnmarshalOutcome :: "'w list \<Rightarrow> pb_ExecOutcome result"
  xpr_NewTimestamp :: "time \<Rightarrow> pb_Timestamp"
  xpr_AsTime :: "pb_Timestamp option \<Rightarrow> time"
  xpr_BigInt_Bytes :: "BigInt \<Rightarrow> byte list result"

section \<open>translate.go: to protobuf\<close>

definition encodeRampTokenAmounts :: "'w exec_proto \<Rightarrow> RampTokenAmount list \<Rightarrow> pb_RampTokenAmount list result" where
  "encodeRampTokenAmounts xp tokenAmounts = traverse_r (\<lambda>token. rbind (xpr_BigInt_Bytes xp (rta_Amount token)) (\<lambda>amount.
     Ok \<lparr>pbra_SourcePoolAddress = rta_SourcePoolAddress token, pbra_DestTokenAddress = rta_DestTokenAddress token,
         pbra_ExtraData = rta_ExtraData token, pbra_Amount = amount, pbra_DestExecData = rta_DestExecData token\<rparr>)) tokenAmounts"

definition encodeMessage :: "'w exec_proto \<Rightarrow> Message \<Rightarrow> pb_Message result" where
  "encodeMessage xp msg =
     rbind (xpr_BigInt_Bytes xp (msg_FeeTokenAmount msg)) (\<lambda>feeTokenAmount.
     rbind (xpr_BigInt_Bytes xp (msg_FeeValueJuels msg)) (\<lambda>feeValueJuels.
     rbind (encodeRampTokenAmounts xp (msg_TokenAmounts msg)) (\<lambda>tokenAmounts.
       Ok \<lparr>pbms_Header = Some
             \<lparr>pbh_MessageId = mh_MessageID (msg_Header msg), pbh_SourceChainSelector = mh_SourceChainSelector (msg_Header msg),
              pbh_DestChainSelector = mh_DestChainSelector (msg_Header msg), pbh_SequenceNumber = mh_SequenceNumber (msg_Header msg),
              pbh_Nonce = mh_Nonce (msg_Header msg), pbh_MsgHash = mh_MsgHash (msg_Header msg),
              pbh_OnRamp = mh_OnRamp (msg_Header msg), pbh_TxHash = mh_TxHash (msg_Header msg)\<rparr>,
           pbms_Sender = msg_Sender msg, pbms_Data = msg_Data msg, pbms_Receiver = msg_Receiver msg,
           pbms_ExtraArgs = msg_ExtraArgs msg, pbms_FeeToken = msg_FeeToken msg, pbms_FeeTokenAmount = feeTokenAmount,
           pbms_FeeValueJuels = feeValueJuels, pbms_TokenAmounts = tokenAmounts\<rparr>)))"

definition messagesToProto :: "'w exec_proto \<Rightarrow> Message list \<Rightarrow> pb_Message list result" where
  "messagesToProto xp messages = traverse_r (encodeMessage xp) messages"

definition seqNumsToProto :: "SeqNum list \<Rightarrow> u64 list" where
  "seqNumsToProto seqNums = map (\<lambda>num. num) seqNums"

definition bytes32SliceToProto :: "Bytes32 list \<Rightarrow> byte list list" where
  "bytes32SliceToProto sl = map (\<lambda>val. val) sl"

definition messageTokenDataToProto :: "MessageTokenData \<Rightarrow> pb_MessageTokenData" where
  "messageTokenDataToProto data = map (\<lambda>td. \<lparr>pbtd_Ready = td_Ready td, pbtd_Data = td_Data td\<rparr>) (mtd_TokenData data)"

definition messageTokenDataSliceToProto :: "MessageTokenData list \<Rightarrow> pb_MessageTokenData list" where
  "messageTokenDataSliceToProto data = map messageTokenDataToProto data"

definition commitDataSliceToProto :: "'w exec_proto \<Rightarrow> CommitData list \<Rightarrow> pb_CommitData list result" where
  "commitDataSliceToProto xp commits = traverse_r (\<lambda>commit. rbind (messagesToProto xp (cd_Messages commit)) (\<lambda>messages.
     Ok \<lparr>pbcd_SourceChain = cd_SourceChain commit, pbcd_OnRampAddress = cd_OnRampAddress commit,
         pbcd_Timestamp = Some (xpr_NewTimestamp xp (cd_Timestamp commit)), pbcd_BlockNum = cd_BlockNum commit,
         pbcd_MerkleRoot = cd_MerkleRoot commit,
         pbcd_SequenceNumberRange = Some \<lparr>pbr_MinMsgNr = sr_Start (cd_SequenceNumberRange commit),
                                          pbr_MaxMsgNr = sr_End (cd_SequenceNumberRange commit)\<rparr>,
         pbcd_ExecutedMessages = seqNumsToProto (cd_ExecutedMessages commit), pbcd_Messages = messages,
         pbcd_Hashes = bytes32SliceToProto (cd_Hashes commit),
         pbcd_MessageTokenData = messageTokenDataSliceToProto (cd_MessageTokenData commit)\<rparr>)) commits"

definition commitReportsToProto :: "'w exec_proto \<Rightarrow> CommitObservations \<Rightarrow> (u64, pb_CommitData list) gomap result" where
  "commitReportsToProto xp observations = map_values_r (commitDataSliceToProto xp) observations"

definition messageObservationsToProto ::
  "'w exec_proto \<Rightarrow> MessageObservations \<Rightarrow> (u64, (u64, pb_Message) gomap) gomap result" where
  "messageObservationsToProto xp msgs = map_values_r (map_values_r (encodeMessage xp)) msgs"

definition messageHashesToProto :: "MessageHashes \<Rightarrow> (u64, (u64, byte list) gomap) gomap" where
  "messageHashesToProto hashes = map_values (map_values (\<lambda>hash. hash)) hashes"

definition tokenDataObservationsToProto :: "TokenDataObservations \<Rightarrow> (u64, (u64, pb_MessageTokenData) gomap) gomap" where
  "tokenDataObservationsToProto observations = map_values (map_values messageTokenDataToProto) observations"

definition nonceObservationsToProto :: "NonceObservations \<Rightarrow> (u64, (string, u64) gomap) gomap" where
  "nonceObservationsToProto observations = map_values (map_values (\<lambda>nonce. nonce)) observations"

definition chainReportToProto :: "'w exec_proto \<Rightarrow> ExecutePluginReportSingleChain \<Rightarrow> pb_ChainReport result" where
  "chainReportToProto xp cr =
     rbind (messagesToProto xp (er_Messages cr)) (\<lambda>messages.
     rbind (xpr_BigInt_Bytes xp (er_ProofFlagBits cr)) (\<lambda>proofFlagBits.
       Ok \<lparr>pbrp_SourceChainSelector = er_SourceChainSelector cr, pbrp_Messages = messages,
           pbrp_OffchainTokenData = map (\<lambda>data. data) (er_OffchainTokenData cr),
           pbrp_Proofs = bytes32SliceToProto (er_Proofs cr), pbrp_ProofFlagBits = proofFlagBits\<rparr>))"

definition execPluginReportsToProto :: "'w exec_proto \<Rightarrow> ExecutePluginReport list \<Rightarrow> pb_ExecutePluginReport list result" where
  "execPluginReportsToProto xp reports = traverse_r (\<lambda>r. traverse_r (chainReportToProto xp) (epr_ChainReports r)) reports"

section \<open>translate.go: from protobuf\<close>

text \<open>\<open>header.MessageId\<close> reads a field of the sub-message without a nil check; the other fields are read by getters,
  which accept nil.\<close>

definition decodeMessageHeader :: "pb_RampMessageHeader option \<Rightarrow> RampMessageHeader result" where
  "decodeMessageHeader header =
     (case header of
        None \<Rightarrow> Panic
      | Some h \<Rightarrow>
          if length (pbh_MessageId h) \<noteq> 32 then Error (Err ''message id length is not 32'')
          else if length (pbh_MsgHash h) \<noteq> 32 then Error (Err ''msg hash length is not 32'')
          else Ok \<lparr>mh_MessageID = pbh_MessageId h, mh_SourceChainSelector = pbh_SourceChainSelector h,
                   mh_DestChainSelector = pbh_DestChainSelector h, mh_SequenceNumber = pbh_SequenceNumber h,
                   mh_Nonce = pbh_Nonce h, mh_MsgHash = pbh_MsgHash h, mh_OnRamp = pbh_OnRamp h, mh_TxHash = pbh_TxHash h\<rparr>)"

definition decodeRampTokenAmounts :: "pb_RampTokenAmount list \<Rightarrow> RampTokenAmount list" where
  "decodeRampTokenAmounts tokenAmounts = map (\<lambda>token.
     \<lparr>rta_SourcePoolAddress = pbra_SourcePoolAddress token, rta_DestTokenAddress = pbra_DestTokenAddress token,
      rta_ExtraData = pbra_ExtraData token, rta_Amount = big_SetBytes (pbra_Amount token),
      rta_DestExecData = pbra_DestExecData token\<rparr>) tokenAmounts"

definition decodeMessage :: "pb_Message \<Rightarrow> Message result" where
  "decodeMessage msg = rbind (decodeMessageHeader (pbms_Header msg)) (\<lambda>header.
     Ok \<lparr>msg_Header = header, msg_Sender = pbms_Sender msg, msg_Data = pbms_Data msg, msg_Receiver = pbms_Receiver msg,
         msg_ExtraArgs = pbms_ExtraArgs msg, msg_FeeToken = pbms_FeeToken msg,
         msg_FeeTokenAmount = big_SetBytes (pbms_FeeTokenAmount msg), msg_FeeValueJuels = big_SetBytes (pbms_FeeValueJuels msg),
         msg_TokenAmounts = decodeRampTokenAmounts (pbms_TokenAmounts msg)\<rparr>)"

definition decodeMessages :: "pb_Message list \<Rightarrow> Message list result" where
  "decodeMessages messages = traverse_r decodeMessage messages"

definition decodeSeqNums :: "u64 list \<Rightarrow> SeqNum list" where
  "decodeSeqNums seqNums = map (\<lambda>num. num) seqNums"

definition decodeMessageTokenDataEntry :: "pb_MessageTokenData \<Rightarrow> MessageTokenData" where
  "decodeMessageTokenDataEntry data = \<lparr>mtd_TokenData = map (\<lambda>td.
     TokenData_zero\<lparr>td_Ready := pbtd_Ready td, td_Data := pbtd_Data td\<rparr>) data\<rparr>"

definition decodeMessageTokenData :: "pb_MessageTokenData list \<Rightarrow> MessageTokenData list" where
  "decodeMessageTokenData data = map decodeMessageTokenDataEntry data"

definition bytes32FromProto :: "byte list \<Rightarrow> Bytes32 result" where
  "bytes32FromProto val = (if length val \<noteq> 32 then Error (Err ''bytes32 length is not 32'') else Ok val)"

definition bytes32SliceFromProto :: "byte list list \<Rightarrow> Bytes32 list result" where
  "bytes32SliceFromProto pbSlice = traverse_r bytes32FromProto pbSlice"

definition commitDataFromProto :: "'w exec_proto \<Rightarrow> pb_CommitData \<Rightarrow> CommitData result" where
  "commitDataFromProto xp commit =
     (if length (pbcd_MerkleRoot commit) \<noteq> 32 then Error (Err ''merkle root length is not 32'')
      else rbind (bytes32SliceFromProto (pbcd_Hashes commit)) (\<lambda>hashes.
           rbind (decodeMessages (pbcd_Messages commit)) (\<lambda>messages.
             Ok \<lparr>cd_SourceChain = pbcd_SourceChain commit, cd_OnRampAddress = pbcd_OnRampAddress commit,
                 cd_Timestamp = xpr_AsTime xp (pbcd_Timestamp commit), cd_BlockNum = pbcd_BlockNum commit,
                 cd_MerkleRoot = pbcd_MerkleRoot commit,
                 cd_SequenceNumberRange = \<lparr>sr_Start = opt_get 0 pbr_MinMsgNr (pbcd_SequenceNumberRange commit),
                                           sr_End = opt_get 0 pbr_MaxMsgNr (pbcd_SequenceNumberRange commit)\<rparr>,
                 cd_ExecutedMessages = decodeSeqNums (pbcd_ExecutedMessages commit), cd_Messages = messages,
                 cd_Hashes = hashes, cd_MessageTokenData = decodeMessageTokenData (pbcd_MessageTokenData commit)\<rparr>)))"

definition commitDataSliceFromProto :: "'w exec_proto \<Rightarrow> pb_CommitData list \<Rightarrow> CommitData list result" where
  "commitDataSliceFromProto xp pbCommits = traverse_r (commitDataFromProto xp) pbCommits"

definition commitReportsFromProto :: "'w exec_proto \<Rightarrow> (u64, pb_CommitData list) gomap \<Rightarrow> CommitObservations result" where
  "commitReportsFromProto xp pbObservations = map_values_r (commitDataSliceFromProto xp) pbObservations"

definition messageObservationsFromProto :: "(u64, (u64, pb_Message) gomap) gomap \<Rightarrow> MessageObservations result" where
  "messageObservationsFromProto pbMsgs = map_values_r (map_values_r decodeMessage) pbMsgs"

definition messageHashesFromProto :: "(u64, (u64, byte list) gomap) gomap \<Rightarrow> MessageHashes result" where
  "messageHashesFromProto pbHashes = map_values_r (map_values_r bytes32FromProto) pbHashes"

definition tokenDataObservationsFromProto :: "(u64, (u64, pb_MessageTokenData) gomap) gomap \<Rightarrow> TokenDataObservations" where
  "tokenDataObservationsFromProto pbObservations = map_values (map_values decodeMessageTokenDataEntry) pbObservations"

definition nonceObservationsFromProto :: "(u64, (string, u64) gomap) gomap \<Rightarrow> NonceObservations" where
  "nonceObservationsFromProto pbObservations = map_values (map_values (\<lambda>nonce. nonce)) pbObservations"

definition chainReportFromProto :: "pb_ChainReport \<Rightarrow> ExecutePluginReportSingleChain result" where
  "chainReportFromProto cr =
     rbind (bytes32SliceFromProto (pbrp_Proofs cr)) (\<lambda>proofs.
     rbind (decodeMessages (pbrp_Messages cr)) (\<lambda>messages.
       Ok \<lparr>er_SourceChainSelector = pbrp_SourceChainSelector cr, er_Messages = messages,
           er_OffchainTokenData = map (\<lambda>data. data) (pbrp_OffchainTokenData cr), er_Proofs = proofs,
           er_ProofFlagBits = big_SetBytes (pbrp_ProofFlagBits cr)\<rparr>))"

definition execPluginReportsFromProto :: "pb_ExecutePluginReport list \<Rightarrow> ExecutePluginReport list result" where
  "execPluginReportsFromProto pbReports = traverse_r (\<lambda>r.
     rbind (traverse_r chainReportFromProto r) (\<lambda>chainReports. Ok \<lparr>epr_ChainReports = chainReports\<rparr>)) pbReports"

section \<open>exec.go\<close>

definition exec_obs_to_proto :: "'w exec_proto \<Rightarrow> exec_Observation \<Rightarrow> pb_ExecObservation result" where
  "exec_obs_to_proto xp observation =
     rbind (commitReportsToProto xp (xob_CommitReports observation)) (\<lambda>commitReports.
     rbind (messageObservationsToProto xp (xob_Messages observation)) (\<lambda>messages.
       Ok \<lparr>pbx_CommitReports = commitReports, pbx_SeqNumsToMsgs = messages,
           pbx_MsgHashes = messageHashesToProto (xob_Hashes observation),
           pbx_TokenDataObservations = Some (tokenDataObservationsToProto (xob_TokenData observation)),
           pbx_Nonces = nonceObservationsToProto (xob_Nonces observation),
           pbx_Contracts = Some \<lparr>pbdo_FChain = fChainToProto (dt_FChain (xob_Contracts observation)),
             pbdo_ContractNames = Some (discoveryAddressesToProto (dt_Addresses (xob_Contracts observation)))\<rparr>,
           pbx_FChain = fChainToProto (xob_FChain observation)\<rparr>))"

definition exec_EncodeObservation :: "'w exec_proto \<Rightarrow> exec_Observation \<Rightarrow> 'w list result" where
  "exec_EncodeObservation xp observation = rbind (exec_obs_to_proto xp observation) (xpr_MarshalObs xp)"

definition exec_obs_from_proto :: "'w exec_proto \<Rightarrow> pb_ExecObservation \<Rightarrow> exec_Observation result" where
  "exec_obs_from_proto xp pbObs =
     rbind (wrap_err ''commit reports from proto'' (commitReportsFromProto xp (pbx_CommitReports pbObs))) (\<lambda>commitReports.
     rbind (wrap_err ''message observations from proto'' (messageObservationsFromProto (pbx_SeqNumsToMsgs pbObs))) (\<lambda>messages.
     rbind (wrap_err ''message hashes from proto'' (messageHashesFromProto (pbx_MsgHashes pbObs))) (\<lambda>hashes.
       Ok \<lparr>xob_CommitReports = commitReports, xob_Messages = messages, xob_Hashes = hashes,
           xob_TokenData = tokenDataObservationsFromProto (opt_get [] (\<lambda>x. x) (pbx_TokenDataObservations pbObs)),
           xob_Nonces = nonceObservationsFromProto (pbx_Nonces pbObs),
           xob_Contracts = \<lparr>dt_FChain = fChainFromProto (opt_get [] pbdo_FChain (pbx_Contracts pbObs)),
             dt_Addresses = discoveryAddressesFromProto (opt_get [] (\<lambda>x. x) (opt_get None pbdo_ContractNames (pbx_Contracts pbObs)))\<rparr>,
           xob_FChain = fChainFromProto (pbx_FChain pbObs)\<rparr>)))"

definition exec_DecodeObservation :: "'w exec_proto \<Rightarrow> 'w list \<Rightarrow> exec_Observation result" where
  "exec_DecodeObservation xp data =
     (if data = [] then Ok exec_Observation_zero
      else rbind (wrap_err ''proto unmarshal ExecObservation'' (xpr_UnmarshalObs xp data)) (exec_obs_from_proto xp))"

text \<open>A single report is written to the legacy field, and so is the legacy report when it has chain reports.\<close>

definition exec_outcome_to_proto :: "'w exec_proto \<Rightarrow> exec_Outcome \<Rightarrow> pb_ExecOutcome result" where
  "exec_outcome_to_proto xp outcome =
     rbind (commitDataSliceToProto xp (xo_CommitReports outcome)) (\<lambda>commitReports.
     rbind (execPluginReportsToProto xp (xo_Reports outcome)) (\<lambda>reports.
       let pb = \<lparr>pby_PluginState = xo_State outcome, pby_CommitReports = commitReports,
                 pby_ExecutePluginReport = None, pby_ExecutePluginReports = reports\<rparr>;
           pb = (if length (pby_ExecutePluginReports pb) = 1
                 then pb\<lparr>pby_ExecutePluginReport := Some (pby_ExecutePluginReports pb ! 0), pby_ExecutePluginReports := []\<rparr> else pb)
       in if length (epr_ChainReports (xo_Report outcome)) \<noteq> 0
          then rbind (execPluginReportsToProto xp [xo_Report outcome]) (\<lambda>r.
            Ok (if 0 < length r then pb\<lparr>pby_ExecutePluginReport := Some (r ! 0)\<rparr> else pb))
          else Ok pb))"

definition exec_EncodeOutcome :: "'w exec_proto \<Rightarrow> exec_Outcome \<Rightarrow> 'w list result" where
  "exec_EncodeOutcome xp outcome = rbind (exec_outcome_to_proto xp outcome) (xpr_MarshalOutcome xp)"

definition exec_outcome_from_proto :: "'w exec_proto \<Rightarrow> pb_ExecOutcome \<Rightarrow> exec_Outcome result" where
  "exec_outcome_from_proto xp pb =
     rbind (wrap_err ''commit reports from proto'' (commitDataSliceFromProto xp (pby_CommitReports pb))) (\<lambda>commitReports.
     rbind (wrap_err ''exec plugin reports from proto'' (execPluginReportsFromProto (pby_ExecutePluginReports pb))) (\<lambda>reports.
       let otcm = exec_Outcome_zero\<lparr>xo_State := pby_PluginState pb, xo_CommitReports := commitReports, xo_Reports := reports\<rparr>
       in rbind (case pby_ExecutePluginReport pb of
                   None \<Rightarrow> Ok otcm
                 | Some r \<Rightarrow> rbind (wrap_err ''exec plugin reports from proto'' (execPluginReportsFromProto [r]))
                     (\<lambda>reports. Ok (otcm\<lparr>xo_Reports := reports\<rparr>))) (\<lambda>otcm.
            Ok (if 0 < length (xo_Reports otcm) then otcm\<lparr>xo_Report := xo_Reports otcm ! 0\<rparr> else otcm))))"

definition exec_DecodeOutcome :: "'w exec_proto \<Rightarrow> 'w list \<Rightarrow> exec_Outcome result" where
  "exec_DecodeOutcome xp data =
     (if data = [] then Ok exec_Outcome_zero
      else rbind (wrap_err ''proto unmarshal ExecOutcome'' (xpr_UnmarshalOutcome xp data)) (exec_outcome_from_proto xp))"

text \<open>The codec the plugin is made with.\<close>

definition DefaultExecCodec :: "byte exec_proto \<Rightarrow> exec_codec" where
  "DefaultExecCodec xp = \<lparr>xcd_EncodeObservation = exec_EncodeObservation xp, xcd_DecodeObservation = exec_DecodeObservation xp,
     xcd_EncodeOutcome = exec_EncodeOutcome xp, xcd_DecodeOutcome = exec_DecodeOutcome xp\<rparr>"

section \<open>Loops that translate every element\<close>

lemma traverse_r_map: "traverse_r f (map g xs) = traverse_r (\<lambda>x. f (g x)) xs"
  by (induction xs) simp_all

lemma traverse_r_chain:
  assumes "\<And>x. x \<in> set xs \<Longrightarrow> \<exists>y. f x = Ok y \<and> g y = Ok (n x)"
  shows "\<exists>ys. traverse_r f xs = Ok ys \<and> traverse_r g ys = Ok (map n xs)"
  using assms
proof (induction xs)
  case (Cons x xs)
  then obtain y ys where "f x = Ok y" "g y = Ok (n x)" "traverse_r f xs = Ok ys" "traverse_r g ys = Ok (map n xs)"
    by (metis list.set_intros)
  then show ?case by (intro exI [of _ "y # ys"]) simp
qed simp

lemma map_values_r_chain:
  assumes "\<And>k v. (k, v) \<in> set m \<Longrightarrow> \<exists>w. f v = Ok w \<and> g w = Ok (n v)"
  shows "\<exists>m'. map_values_r f m = Ok m' \<and> map_values_r g m' = Ok (map_values n m)"
  unfolding map_values_r_def map_values_def
proof (rule traverse_r_chain)
  fix p assume "p \<in> set m"
  moreover obtain k v where p: "p = (k, v)" by (cases p)
  ultimately obtain w where "f v = Ok w" "g w = Ok (n v)" using assms by blast
  then show "\<exists>y. (case p of (k, v) \<Rightarrow> rbind (f v) (\<lambda>w. Ok (k, w))) = Ok y \<and>
      (case y of (k, v) \<Rightarrow> rbind (g v) (\<lambda>w. Ok (k, w))) = Ok (case p of (k, v) \<Rightarrow> (k, n v))"
    by (simp add: p)
qed

lemma traverse_r_set:
  assumes "traverse_r f xs = Ok ys" and "y \<in> set ys"
  shows "\<exists>x \<in> set xs. f x = Ok y"
  using assms by (induction xs arbitrary: ys) (auto simp: rbind_Ok_iff)

lemma map_values_r_set:
  assumes "map_values_r f m = Ok m'" and "(k, w) \<in> set m'"
  shows "\<exists>v. (k, v) \<in> set m \<and> f v = Ok w"
  using traverse_r_set [OF assms(1) [unfolded map_values_r_def] assms(2)] by (auto simp: rbind_Ok_iff)

lemma map_values_comp: "map_values f (map_values g m) = map_values (\<lambda>v. f (g v)) m"
  by (induction m) (auto simp: map_values_def)

lemma traverse_r_length: "traverse_r f xs = Ok ys \<Longrightarrow> length ys = length xs"
  by (induction xs arbitrary: ys) (auto simp: rbind_Ok_iff)

section \<open>What the wire keeps\<close>

text \<open>The wire has no nil integer, no sign, and of the token data only the flag and the bytes; the two fields for
  reports hold one list. This is the value that an observation or outcome becomes when it is encoded and decoded.\<close>

definition norm_big :: "BigInt \<Rightarrow> BigInt" where
  "norm_big b = (case b of None \<Rightarrow> Some 0 | Some i \<Rightarrow> Some i)"

definition norm_message :: "Message \<Rightarrow> Message" where
  "norm_message m = m\<lparr>msg_FeeTokenAmount := norm_big (msg_FeeTokenAmount m), msg_FeeValueJuels := norm_big (msg_FeeValueJuels m),
     msg_TokenAmounts := map (\<lambda>t. t\<lparr>rta_Amount := norm_big (rta_Amount t)\<rparr>) (msg_TokenAmounts m)\<rparr>"

definition norm_token_data :: "MessageTokenData \<Rightarrow> MessageTokenData" where
  "norm_token_data d = \<lparr>mtd_TokenData = map (\<lambda>td. td\<lparr>td_Error := None, td_Supported := False\<rparr>) (mtd_TokenData d)\<rparr>"

definition norm_commit :: "CommitData \<Rightarrow> CommitData" where
  "norm_commit c = c\<lparr>cd_Messages := map norm_message (cd_Messages c),
     cd_MessageTokenData := map norm_token_data (cd_MessageTokenData c)\<rparr>"

definition norm_chain_report :: "ExecutePluginReportSingleChain \<Rightarrow> ExecutePluginReportSingleChain" where
  "norm_chain_report r = r\<lparr>er_Messages := map norm_message (er_Messages r), er_ProofFlagBits := norm_big (er_ProofFlagBits r)\<rparr>"

definition norm_report :: "ExecutePluginReport \<Rightarrow> ExecutePluginReport" where
  "norm_report r = \<lparr>epr_ChainReports = map norm_chain_report (epr_ChainReports r)\<rparr>"

definition norm_exec_obs :: "exec_Observation \<Rightarrow> exec_Observation" where
  "norm_exec_obs ob = ob\<lparr>xob_CommitReports := map_values (map norm_commit) (xob_CommitReports ob),
     xob_Messages := map_values (map_values norm_message) (xob_Messages ob),
     xob_TokenData := map_values (map_values norm_token_data) (xob_TokenData ob)\<rparr>"

definition first_report :: "ExecutePluginReport list \<Rightarrow> ExecutePluginReport" where
  "first_report rs = (case rs of [] \<Rightarrow> \<lparr>epr_ChainReports = []\<rparr> | r # _ \<Rightarrow> r)"

definition norm_exec_outcome :: "exec_Outcome \<Rightarrow> exec_Outcome" where
  "norm_exec_outcome out =
     (let rs = map norm_report (if epr_ChainReports (xo_Report out) \<noteq> [] then [xo_Report out] else xo_Reports out)
      in \<lparr>xo_State = xo_State out, xo_CommitReports = map norm_commit (xo_CommitReports out),
          xo_Report = first_report rs, xo_Reports = rs\<rparr>)"

text \<open>What fits the wire. A fixed array of the code has its 32 bytes; an integer has no sign, and may be nil only
  when the library gives the nil integer no bytes.\<close>

definition wire_big :: "'w exec_proto \<Rightarrow> BigInt \<Rightarrow> bool" where
  "wire_big xp b \<longleftrightarrow> nonneg b \<or> b = None \<and> xpr_BigInt_Bytes xp None = Ok []"

definition wire_message :: "'w exec_proto \<Rightarrow> Message \<Rightarrow> bool" where
  "wire_message xp m \<longleftrightarrow> length (mh_MessageID (msg_Header m)) = 32 \<and> length (mh_MsgHash (msg_Header m)) = 32 \<and>
     wire_big xp (msg_FeeTokenAmount m) \<and> wire_big xp (msg_FeeValueJuels m) \<and>
     (\<forall>t \<in> set (msg_TokenAmounts m). wire_big xp (rta_Amount t))"

definition wire_commit :: "'w exec_proto \<Rightarrow> CommitData \<Rightarrow> bool" where
  "wire_commit xp c \<longleftrightarrow> length (cd_MerkleRoot c) = 32 \<and> (\<forall>h \<in> set (cd_Hashes c). length h = 32) \<and>
     (\<forall>m \<in> set (cd_Messages c). wire_message xp m)"

definition wire_report :: "'w exec_proto \<Rightarrow> ExecutePluginReport \<Rightarrow> bool" where
  "wire_report xp r \<longleftrightarrow> (\<forall>cr \<in> set (epr_ChainReports r). (\<forall>h \<in> set (er_Proofs cr). length h = 32) \<and>
     (\<forall>m \<in> set (er_Messages cr). wire_message xp m) \<and> wire_big xp (er_ProofFlagBits cr))"

definition wire_exec_obs :: "'w exec_proto \<Rightarrow> exec_Observation \<Rightarrow> bool" where
  "wire_exec_obs xp ob \<longleftrightarrow> (\<forall>(_, cs) \<in> set (xob_CommitReports ob). \<forall>c \<in> set cs. wire_commit xp c) \<and>
     (\<forall>(_, ms) \<in> set (xob_Messages ob). \<forall>(_, m) \<in> set ms. wire_message xp m) \<and>
     (\<forall>(_, hs) \<in> set (xob_Hashes ob). \<forall>(_, h) \<in> set hs. length h = 32) \<and>
     fchain_ok (dt_FChain (xob_Contracts ob)) \<and> fchain_ok (xob_FChain ob)"

definition wire_exec_outcome :: "'w exec_proto \<Rightarrow> exec_Outcome \<Rightarrow> bool" where
  "wire_exec_outcome xp out \<longleftrightarrow> (\<forall>c \<in> set (xo_CommitReports out). wire_commit xp c) \<and>
     (\<forall>r \<in> set (xo_Reports out). wire_report xp r) \<and> wire_report xp (xo_Report out)"

text \<open>What the theorems rely on of the runtime, with the empty wire for the outcome that has no field set.\<close>

definition exec_proto_spec :: "'w exec_proto \<Rightarrow> bool" where
  "exec_proto_spec xp \<longleftrightarrow>
     (\<forall>m w. pbx_Contracts m \<noteq> None \<longrightarrow> xpr_MarshalObs xp m = Ok w \<longrightarrow> w \<noteq> [] \<and> xpr_UnmarshalObs xp w = Ok m) \<and>
     (\<forall>m w. xpr_MarshalOutcome xp m = Ok w \<longrightarrow>
        (if m = pb_ExecOutcome_zero then w = [] else w \<noteq> [] \<and> xpr_UnmarshalOutcome xp w = Ok m)) \<and>
     (\<forall>t. xpr_AsTime xp (Some (xpr_NewTimestamp xp t)) = t) \<and>
     (\<forall>i. xpr_BigInt_Bytes xp (Some i) = big_Bytes (Some i))"

section \<open>Round trips\<close>

lemma wire_big_roundtrip:
  assumes "exec_proto_spec xp" and "wire_big xp b"
  shows "\<exists>bs. xpr_BigInt_Bytes xp b = Ok bs \<and> big_SetBytes bs = norm_big b"
proof (cases b)
  case None
  with assms(2) have "xpr_BigInt_Bytes xp None = Ok []" by (auto simp: wire_big_def nonneg_def)
  with None show ?thesis by (simp add: norm_big_def big_SetBytes_def)
next
  case (Some i)
  with assms big_roundtrip [of b] show ?thesis by (auto simp: wire_big_def exec_proto_spec_def norm_big_def)
qed

lemma amounts_roundtrip:
  assumes "exec_proto_spec xp" and "\<forall>t \<in> set ts. wire_big xp (rta_Amount t)"
  shows "\<exists>ts'. encodeRampTokenAmounts xp ts = Ok ts' \<and>
    decodeRampTokenAmounts ts' = map (\<lambda>t. t\<lparr>rta_Amount := norm_big (rta_Amount t)\<rparr>) ts"
  using assms(2)
proof (induction ts)
  case (Cons t ts)
  then obtain b where "xpr_BigInt_Bytes xp (rta_Amount t) = Ok b" "big_SetBytes b = norm_big (rta_Amount t)"
    using wire_big_roundtrip [OF assms(1), of "rta_Amount t"] by auto
  with Cons show ?case by (auto simp: encodeRampTokenAmounts_def decodeRampTokenAmounts_def)
qed (simp add: encodeRampTokenAmounts_def decodeRampTokenAmounts_def)

lemma message_roundtrip:
  assumes "exec_proto_spec xp" and "wire_message xp m"
  shows "\<exists>m'. encodeMessage xp m = Ok m' \<and> decodeMessage m' = Ok (norm_message m)"
proof -
  obtain a where a: "xpr_BigInt_Bytes xp (msg_FeeTokenAmount m) = Ok a" "big_SetBytes a = norm_big (msg_FeeTokenAmount m)"
    using wire_big_roundtrip [OF assms(1)] assms(2) unfolding wire_message_def by blast
  obtain b where b: "xpr_BigInt_Bytes xp (msg_FeeValueJuels m) = Ok b" "big_SetBytes b = norm_big (msg_FeeValueJuels m)"
    using wire_big_roundtrip [OF assms(1)] assms(2) unfolding wire_message_def by blast
  obtain ts where ts: "encodeRampTokenAmounts xp (msg_TokenAmounts m) = Ok ts"
    "decodeRampTokenAmounts ts = map (\<lambda>t. t\<lparr>rta_Amount := norm_big (rta_Amount t)\<rparr>) (msg_TokenAmounts m)"
    using amounts_roundtrip [OF assms(1)] assms(2) unfolding wire_message_def by blast
  show ?thesis
    using assms(2) by (simp add: encodeMessage_def decodeMessage_def decodeMessageHeader_def a b ts norm_message_def wire_message_def)
qed

lemma messages_roundtrip:
  assumes "exec_proto_spec xp" and "\<forall>m \<in> set ms. wire_message xp m"
  shows "\<exists>ms'. messagesToProto xp ms = Ok ms' \<and> decodeMessages ms' = Ok (map norm_message ms)"
  unfolding messagesToProto_def decodeMessages_def
  by (rule traverse_r_chain) (use assms message_roundtrip in blast)

lemma bytes32_roundtrip:
  "\<forall>h \<in> set hs. length h = 32 \<Longrightarrow> bytes32SliceFromProto (bytes32SliceToProto hs) = Ok hs"
  by (induction hs) (auto simp: bytes32SliceFromProto_def bytes32SliceToProto_def bytes32FromProto_def)

lemma token_data_entry_roundtrip [simp]: "decodeMessageTokenDataEntry (messageTokenDataToProto d) = norm_token_data d"
  by (simp add: decodeMessageTokenDataEntry_def messageTokenDataToProto_def norm_token_data_def TokenData_zero_def)

lemma commits_roundtrip:
  assumes "exec_proto_spec xp" and "\<forall>c \<in> set cs. wire_commit xp c"
  shows "\<exists>cs'. commitDataSliceToProto xp cs = Ok cs' \<and> commitDataSliceFromProto xp cs' = Ok (map norm_commit cs)"
  unfolding commitDataSliceToProto_def commitDataSliceFromProto_def
proof (rule traverse_r_chain, goal_cases)
  case (1 c)
  have time: "xpr_AsTime xp (Some (xpr_NewTimestamp xp t)) = t" for t using assms(1) by (simp add: exec_proto_spec_def)
  have c: "wire_commit xp c" using 1 assms(2) by blast
  obtain ms where ms: "messagesToProto xp (cd_Messages c) = Ok ms" "decodeMessages ms = Ok (map norm_message (cd_Messages c))"
    using messages_roundtrip [OF assms(1)] c unfolding wire_commit_def by blast
  have hs: "bytes32SliceFromProto (bytes32SliceToProto (cd_Hashes c)) = Ok (cd_Hashes c)"
    using c by (simp add: wire_commit_def bytes32_roundtrip)
  show ?case
    using c by (simp add: ms hs time commitDataFromProto_def opt_get_def norm_commit_def wire_commit_def decodeSeqNums_def
        seqNumsToProto_def decodeMessageTokenData_def messageTokenDataSliceToProto_def)
qed

lemma chain_report_roundtrip:
  assumes "exec_proto_spec xp" and "\<forall>h \<in> set (er_Proofs cr). length h = 32" and "\<forall>m \<in> set (er_Messages cr). wire_message xp m"
    and "wire_big xp (er_ProofFlagBits cr)"
  shows "\<exists>cr'. chainReportToProto xp cr = Ok cr' \<and> chainReportFromProto cr' = Ok (norm_chain_report cr)"
proof -
  obtain ms where ms: "messagesToProto xp (er_Messages cr) = Ok ms" "decodeMessages ms = Ok (map norm_message (er_Messages cr))"
    using messages_roundtrip [OF assms(1,3)] by blast
  obtain b where b: "xpr_BigInt_Bytes xp (er_ProofFlagBits cr) = Ok b" "big_SetBytes b = norm_big (er_ProofFlagBits cr)"
    using wire_big_roundtrip [OF assms(1,4)] by blast
  show ?thesis
    by (simp add: ms b bytes32_roundtrip [OF assms(2)] chainReportToProto_def chainReportFromProto_def norm_chain_report_def)
qed

lemma reports_roundtrip:
  assumes "exec_proto_spec xp" and "\<forall>r \<in> set rs. wire_report xp r"
  shows "\<exists>rs'. execPluginReportsToProto xp rs = Ok rs' \<and> length rs' = length rs \<and>
    execPluginReportsFromProto rs' = Ok (map norm_report rs)"
proof -
  have "\<exists>r'. traverse_r (chainReportToProto xp) (epr_ChainReports r) = Ok r' \<and>
      rbind (traverse_r chainReportFromProto r') (\<lambda>chainReports. Ok \<lparr>epr_ChainReports = chainReports\<rparr>) = Ok (norm_report r)"
    if "r \<in> set rs" for r
  proof -
    have "\<exists>cr'. chainReportToProto xp cr = Ok cr' \<and> chainReportFromProto cr' = Ok (norm_chain_report cr)"
      if "cr \<in> set (epr_ChainReports r)" for cr
      using chain_report_roundtrip [OF assms(1)] assms(2) \<open>r \<in> set rs\<close> that unfolding wire_report_def by blast
    then have "\<exists>r'. traverse_r (chainReportToProto xp) (epr_ChainReports r) = Ok r' \<and>
        traverse_r chainReportFromProto r' = Ok (map norm_chain_report (epr_ChainReports r))"
      by (rule traverse_r_chain)
    then show ?thesis by (auto simp: norm_report_def)
  qed
  then have "\<exists>rs'. execPluginReportsToProto xp rs = Ok rs' \<and> execPluginReportsFromProto rs' = Ok (map norm_report rs)"
    unfolding execPluginReportsToProto_def execPluginReportsFromProto_def by (rule traverse_r_chain)
  then show ?thesis unfolding execPluginReportsToProto_def using traverse_r_length by blast
qed

lemma exec_obs_proto_roundtrip:
  assumes "exec_proto_spec xp" and "wire_exec_obs xp ob"
  shows "\<exists>m. exec_obs_to_proto xp ob = Ok m \<and> pbx_Contracts m \<noteq> None \<and> exec_obs_from_proto xp m = Ok (norm_exec_obs ob)"
proof -
  obtain cs where cs: "commitReportsToProto xp (xob_CommitReports ob) = Ok cs"
    "commitReportsFromProto xp cs = Ok (map_values (map norm_commit) (xob_CommitReports ob))"
    using map_values_r_chain [of "xob_CommitReports ob" "commitDataSliceToProto xp" "commitDataSliceFromProto xp" "map norm_commit"]
      commits_roundtrip [OF assms(1)] assms(2)
    unfolding commitReportsToProto_def commitReportsFromProto_def wire_exec_obs_def by blast
  have "\<exists>ms'. map_values_r (encodeMessage xp) ms = Ok ms' \<and> map_values_r decodeMessage ms' = Ok (map_values norm_message ms)"
    if "(c, ms) \<in> set (xob_Messages ob)" for c ms
    by (rule map_values_r_chain) (use message_roundtrip [OF assms(1)] assms(2) that in \<open>unfold wire_exec_obs_def, blast\<close>)
  then have "\<exists>ms. messageObservationsToProto xp (xob_Messages ob) = Ok ms \<and>
      messageObservationsFromProto ms = Ok (map_values (map_values norm_message) (xob_Messages ob))"
    unfolding messageObservationsToProto_def messageObservationsFromProto_def by (rule map_values_r_chain)
  then obtain ms where ms: "messageObservationsToProto xp (xob_Messages ob) = Ok ms"
    "messageObservationsFromProto ms = Ok (map_values (map_values norm_message) (xob_Messages ob))" by blast
  have "map_values_r bytes32FromProto hs = Ok hs" if "(c, hs) \<in> set (xob_Hashes ob)" for c hs
  proof -
    have "length h = 32" if "(n, h) \<in> set hs" for n h
      using assms(2) \<open>(c, hs) \<in> set (xob_Hashes ob)\<close> that unfolding wire_exec_obs_def by fast
    then show ?thesis unfolding map_values_r_def
      by (subst traverse_r_Ok [where g = "\<lambda>p. p"]) (auto simp: bytes32FromProto_def)
  qed
  then have hs: "messageHashesFromProto (messageHashesToProto (xob_Hashes ob)) = Ok (xob_Hashes ob)"
    unfolding messageHashesFromProto_def messageHashesToProto_def map_values_r_def [of "map_values_r bytes32FromProto"]
    by (subst traverse_r_Ok [where g = "\<lambda>p. p"]) (auto simp: map_values_def map_idI)
  have "fChainFromProto (fChainToProto (dt_FChain (xob_Contracts ob))) = dt_FChain (xob_Contracts ob)"
    "fChainFromProto (fChainToProto (xob_FChain ob)) = xob_FChain ob"
    using assms(2) by (simp_all add: fChain_roundtrip wire_exec_obs_def)
  then show ?thesis
    by (simp add: exec_obs_to_proto_def exec_obs_from_proto_def cs ms hs opt_get_def norm_exec_obs_def map_values_id
        nonceObservationsFromProto_def nonceObservationsToProto_def tokenDataObservationsFromProto_def
        tokenDataObservationsToProto_def map_values_comp)
qed

lemma exec_outcome_proto_roundtrip:
  assumes "exec_proto_spec xp" and "wire_exec_outcome xp out"
  shows "\<exists>m. exec_outcome_to_proto xp out = Ok m \<and> exec_outcome_from_proto xp m = Ok (norm_exec_outcome out) \<and>
    (m = pb_ExecOutcome_zero \<longrightarrow> norm_exec_outcome out = exec_Outcome_zero)"
proof -
  have w: "\<forall>c \<in> set (xo_CommitReports out). wire_commit xp c" "\<forall>r \<in> set (xo_Reports out). wire_report xp r"
    "\<forall>r \<in> set [xo_Report out]. wire_report xp r" using assms(2) by (simp_all add: wire_exec_outcome_def)
  obtain cs where cs: "commitDataSliceToProto xp (xo_CommitReports out) = Ok cs"
    "commitDataSliceFromProto xp cs = Ok (map norm_commit (xo_CommitReports out))"
    using commits_roundtrip [OF assms(1) w(1)] by blast
  obtain rs where rs: "execPluginReportsToProto xp (xo_Reports out) = Ok rs" "length rs = length (xo_Reports out)"
    "execPluginReportsFromProto rs = Ok (map norm_report (xo_Reports out))"
    using reports_roundtrip [OF assms(1) w(2)] by blast
  obtain r' where "execPluginReportsToProto xp [xo_Report out] = Ok r'" "length r' = 1"
    "execPluginReportsFromProto r' = Ok [norm_report (xo_Report out)]"
    using reports_roundtrip [OF assms(1) w(3)] by auto
  moreover from this obtain r where "r' = [r]" by (auto simp: length_Suc_conv)
  ultimately have r: "execPluginReportsToProto xp [xo_Report out] = Ok [r]"
    "execPluginReportsFromProto [r] = Ok [norm_report (xo_Report out)]" by simp_all
  have nil: "execPluginReportsFromProto [] = Ok []" by (simp add: execPluginReportsFromProto_def)
  have cs0: "cs = [] \<Longrightarrow> xo_CommitReports out = []" using cs(2) by (auto simp: commitDataSliceFromProto_def)
  show ?thesis
  proof (cases "length rs = 1")
    case True
    then obtain x where "rs = [x]" by (auto simp: length_Suc_conv)
    with rs(2) have "length (xo_Reports out) = 1" by simp
    then obtain y where "xo_Reports out = [y]" by (auto simp: length_Suc_conv)
    with \<open>rs = [x]\<close> rs show ?thesis
      by (simp add: exec_outcome_to_proto_def exec_outcome_from_proto_def cs r nil Let_def norm_exec_outcome_def first_report_def
          exec_Outcome_zero_def pb_ExecOutcome_zero_def)
  next
    case False
    with rs(2) cs0 show ?thesis
      by (auto simp: exec_outcome_to_proto_def exec_outcome_from_proto_def cs r rs(1,3) nil Let_def norm_exec_outcome_def
          first_report_def exec_Outcome_zero_def pb_ExecOutcome_zero_def Unknown_def split: list.splits)
  qed
qed

text \<open>C24. What the execute codec encodes decodes to what the wire keeps of it: an observation or outcome that fits the
  wire format is translated without a panic, and if it can be marshalled, decoding the bytes gives it back, with nil
  integers as 0, without the errors of the token data, and with the reports of an outcome in both of its fields.\<close>

theorem exec_codec_roundtrip:
  assumes "exec_proto_spec xp" and "wire_exec_obs xp ob" and "wire_exec_outcome xp out"
  shows "(\<exists>m. exec_EncodeObservation xp ob = xpr_MarshalObs xp m \<and>
      (\<forall>w. xpr_MarshalObs xp m = Ok w \<longrightarrow> exec_DecodeObservation xp w = Ok (norm_exec_obs ob))) \<and>
    (\<exists>m. exec_EncodeOutcome xp out = xpr_MarshalOutcome xp m \<and>
      (\<forall>w. xpr_MarshalOutcome xp m = Ok w \<longrightarrow> exec_DecodeOutcome xp w = Ok (norm_exec_outcome out)))"
proof (intro conjI)
  obtain m where "exec_obs_to_proto xp ob = Ok m" "pbx_Contracts m \<noteq> None" "exec_obs_from_proto xp m = Ok (norm_exec_obs ob)"
    using exec_obs_proto_roundtrip [OF assms(1,2)] by blast
  with assms(1) show "\<exists>m. exec_EncodeObservation xp ob = xpr_MarshalObs xp m \<and>
      (\<forall>w. xpr_MarshalObs xp m = Ok w \<longrightarrow> exec_DecodeObservation xp w = Ok (norm_exec_obs ob))"
    unfolding exec_EncodeObservation_def exec_DecodeObservation_def exec_proto_spec_def by (intro exI [of _ m]) auto
  obtain m where m: "exec_outcome_to_proto xp out = Ok m" "exec_outcome_from_proto xp m = Ok (norm_exec_outcome out)"
    "m = pb_ExecOutcome_zero \<longrightarrow> norm_exec_outcome out = exec_Outcome_zero"
    using exec_outcome_proto_roundtrip [OF assms(1,3)] by blast
  have "exec_DecodeOutcome xp w = Ok (norm_exec_outcome out)" if "xpr_MarshalOutcome xp m = Ok w" for w
  proof -
    have "if m = pb_ExecOutcome_zero then w = [] else w \<noteq> [] \<and> xpr_UnmarshalOutcome xp w = Ok m"
      using assms(1) that unfolding exec_proto_spec_def by blast
    with m(2,3) show ?thesis by (auto simp: exec_DecodeOutcome_def split: if_splits)
  qed
  then show "\<exists>m. exec_EncodeOutcome xp out = xpr_MarshalOutcome xp m \<and>
      (\<forall>w. xpr_MarshalOutcome xp m = Ok w \<longrightarrow> exec_DecodeOutcome xp w = Ok (norm_exec_outcome out))"
    using m(1) unfolding exec_EncodeOutcome_def by (intro exI [of _ m]) simp
qed

section \<open>The types of what is decoded\<close>

text \<open>Every 32 byte array has 32 bytes and every integer is set and without a sign.\<close>

definition typed_message :: "Message \<Rightarrow> bool" where
  "typed_message m \<longleftrightarrow> length (mh_MessageID (msg_Header m)) = 32 \<and> length (mh_MsgHash (msg_Header m)) = 32 \<and>
     nonneg (msg_FeeTokenAmount m) \<and> nonneg (msg_FeeValueJuels m) \<and> (\<forall>t \<in> set (msg_TokenAmounts m). nonneg (rta_Amount t))"

definition typed_commit :: "CommitData \<Rightarrow> bool" where
  "typed_commit c \<longleftrightarrow> length (cd_MerkleRoot c) = 32 \<and> (\<forall>h \<in> set (cd_Hashes c). length h = 32) \<and>
     (\<forall>m \<in> set (cd_Messages c). typed_message m)"

definition typed_report :: "ExecutePluginReport \<Rightarrow> bool" where
  "typed_report r \<longleftrightarrow> (\<forall>cr \<in> set (epr_ChainReports r). (\<forall>h \<in> set (er_Proofs cr). length h = 32) \<and>
     (\<forall>m \<in> set (er_Messages cr). typed_message m) \<and> nonneg (er_ProofFlagBits cr))"

definition typed_exec_obs :: "exec_Observation \<Rightarrow> bool" where
  "typed_exec_obs ob \<longleftrightarrow> (\<forall>(_, cs) \<in> set (xob_CommitReports ob). \<forall>c \<in> set cs. typed_commit c) \<and>
     (\<forall>(_, ms) \<in> set (xob_Messages ob). \<forall>(_, m) \<in> set ms. typed_message m) \<and>
     (\<forall>(_, hs) \<in> set (xob_Hashes ob). \<forall>(_, h) \<in> set hs. length h = 32)"

definition typed_exec_outcome :: "exec_Outcome \<Rightarrow> bool" where
  "typed_exec_outcome out \<longleftrightarrow> (\<forall>c \<in> set (xo_CommitReports out). typed_commit c) \<and> (\<forall>r \<in> set (xo_Reports out). typed_report r) \<and>
     xo_Report out = first_report (xo_Reports out)"

lemma nonneg_SetBytes [simp]: "nonneg (big_SetBytes bs)"
  by (simp add: nonneg_def big_SetBytes_def)

lemma typed_decodeMessage: "decodeMessage m = Ok msg \<Longrightarrow> typed_message msg"
  by (auto simp: decodeMessage_def rbind_Ok_iff decodeMessageHeader_def typed_message_def decodeRampTokenAmounts_def
      split: option.splits if_splits)

lemma typed_decodeMessages: "decodeMessages ms = Ok msgs \<Longrightarrow> m \<in> set msgs \<Longrightarrow> typed_message m"
  unfolding decodeMessages_def using traverse_r_set typed_decodeMessage by metis

lemma typed_bytes32: "bytes32SliceFromProto hs = Ok hs' \<Longrightarrow> h \<in> set hs' \<Longrightarrow> length h = 32"
  unfolding bytes32SliceFromProto_def by (drule (1) traverse_r_set) (auto simp: bytes32FromProto_def split: if_splits)

lemma typed_commits: "commitDataSliceFromProto xp cs = Ok cs' \<Longrightarrow> c \<in> set cs' \<Longrightarrow> typed_commit c"
  unfolding commitDataSliceFromProto_def
  by (drule (1) traverse_r_set)
    (auto simp: commitDataFromProto_def rbind_Ok_iff typed_commit_def dest: typed_bytes32 typed_decodeMessages split: if_splits)

lemma typed_reports:
  assumes "execPluginReportsFromProto rs = Ok rs'" and "r \<in> set rs'"
  shows "typed_report r"
  unfolding typed_report_def
proof
  fix cr assume cr: "cr \<in> set (epr_ChainReports r)"
  obtain pr crs where "traverse_r chainReportFromProto pr = Ok crs" "r = \<lparr>epr_ChainReports = crs\<rparr>"
    using traverse_r_set [OF assms(1) [unfolded execPluginReportsFromProto_def] assms(2)] by (auto simp: rbind_Ok_iff)
  with cr obtain x where "chainReportFromProto x = Ok cr" using traverse_r_set by fastforce
  then obtain ps ms where "bytes32SliceFromProto (pbrp_Proofs x) = Ok ps" "decodeMessages (pbrp_Messages x) = Ok ms"
    "er_Proofs cr = ps" "er_Messages cr = ms" "nonneg (er_ProofFlagBits cr)"
    by (auto simp: chainReportFromProto_def rbind_Ok_iff)
  then show "(\<forall>h \<in> set (er_Proofs cr). length h = 32) \<and> (\<forall>m \<in> set (er_Messages cr). typed_message m) \<and> nonneg (er_ProofFlagBits cr)"
    using typed_bytes32 typed_decodeMessages by blast
qed

lemma typed_obs_from_proto:
  assumes "exec_obs_from_proto xp m = Ok ob"
  shows "typed_exec_obs ob"
proof -
  obtain cs ms hs where ok: "map_values_r (commitDataSliceFromProto xp) (pbx_CommitReports m) = Ok cs"
    "map_values_r (map_values_r decodeMessage) (pbx_SeqNumsToMsgs m) = Ok ms"
    "map_values_r (map_values_r bytes32FromProto) (pbx_MsgHashes m) = Ok hs"
    and ob: "xob_CommitReports ob = cs" "xob_Messages ob = ms" "xob_Hashes ob = hs"
    using assms unfolding exec_obs_from_proto_def commitReportsFromProto_def messageObservationsFromProto_def messageHashesFromProto_def
    by (auto simp: rbind_Ok_iff)
  have "typed_commit c" if "(k, x) \<in> set cs" "c \<in> set x" for k x c
    using map_values_r_set [OF ok(1) that(1)] that(2) typed_commits by blast
  moreover have "typed_message y" if "(k, x) \<in> set ms" "(n, y) \<in> set x" for k x n y
    using map_values_r_set [OF ok(2) that(1)] that(2) map_values_r_set typed_decodeMessage by metis
  moreover have "length h = 32" if h: "(k, x) \<in> set hs" "(n, h) \<in> set x" for k x n h
  proof -
    obtain v where "map_values_r bytes32FromProto v = Ok x" using map_values_r_set [OF ok(3) h(1)] by blast
    from map_values_r_set [OF this h(2)] show ?thesis by (auto simp: bytes32FromProto_def split: if_splits)
  qed
  ultimately show ?thesis unfolding typed_exec_obs_def ob by fast
qed

lemma typed_outcome_from_proto:
  assumes "exec_outcome_from_proto xp m = Ok out"
  shows "typed_exec_outcome out"
proof -
  obtain cs prs rs where "commitDataSliceFromProto xp (pby_CommitReports m) = Ok cs" "xo_CommitReports out = cs"
    "execPluginReportsFromProto prs = Ok rs" "xo_Reports out = rs" "xo_Report out = first_report rs"
    using assms
    by (auto simp: exec_outcome_from_proto_def rbind_Ok_iff Let_def exec_Outcome_zero_def first_report_def nth_Cons'
        split: option.splits if_splits list.splits)
  then show ?thesis using typed_commits typed_reports unfolding typed_exec_outcome_def by blast
qed

lemma typed_zero: "typed_exec_obs exec_Observation_zero" "typed_exec_outcome exec_Outcome_zero"
  by (simp_all add: typed_exec_obs_def exec_Observation_zero_def typed_exec_outcome_def exec_Outcome_zero_def first_report_def)

text \<open>C25. Whatever bytes an oracle sends, what the execute codec decodes is well typed: roots, hashes, proofs, message ids and message
  hashes have 32 bytes, the amounts and the proof flags are integers without a sign, and the legacy report of an
  outcome is the first of its reports.\<close>

theorem exec_decode_typed:
  "(\<forall>ob. exec_DecodeObservation xp data = Ok ob \<longrightarrow> typed_exec_obs ob) \<and>
   (\<forall>out. exec_DecodeOutcome xp data = Ok out \<longrightarrow> typed_exec_outcome out)"
  by (auto simp: exec_DecodeObservation_def exec_DecodeOutcome_def rbind_Ok_iff typed_zero
      dest: typed_obs_from_proto typed_outcome_from_proto split: if_splits)

section \<open>Malformed messages\<close>

text \<open>A loop panics or fails only where one of its elements does; it succeeds exactly when all do; and without errors it
  panics as soon as one element does.\<close>

definition no_error :: "'a result \<Rightarrow> bool" where
  "no_error r \<longleftrightarrow> (\<forall>e. r \<noteq> Error e)"

lemma no_error_simps [simp]: "no_error (Ok x)" "no_error Panic" "\<not> no_error (Error e)"
  by (simp_all add: no_error_def)

lemma no_error_rbind: "no_error m \<Longrightarrow> (\<And>x. m = Ok x \<Longrightarrow> no_error (f x)) \<Longrightarrow> no_error (rbind m f)"
  by (cases m) auto

lemma no_error_wrap [simp]: "no_error (wrap_err s r) \<longleftrightarrow> no_error r"
  by (cases r) auto

lemma ret_ok_rbind: "ret_ok (rbind m f) \<longleftrightarrow> (\<exists>x. m = Ok x \<and> ret_ok (f x))"
  by (cases m) auto

lemma ret_ok_wrap [simp]: "ret_ok (wrap_err s r) \<longleftrightarrow> ret_ok r"
  by (cases r) auto

lemma ret_ok_iff_no_error: "ret_ok r \<longleftrightarrow> no_error r \<and> r \<noteq> Panic"
  by (cases r) auto

lemma traverse_r_ret_ok: "ret_ok (traverse_r f xs) \<longleftrightarrow> (\<forall>x \<in> set xs. ret_ok (f x))"
proof (induction xs)
  case (Cons x xs)
  then show ?case by (cases "f x"; cases "traverse_r f xs") auto
qed simp

lemma traverse_r_no_error: "(\<And>x. x \<in> set xs \<Longrightarrow> no_error (f x)) \<Longrightarrow> no_error (traverse_r f xs)"
  by (induction xs) (auto intro!: no_error_rbind)

lemma traverse_r_PanicD: "traverse_r f xs = Panic \<Longrightarrow> \<exists>x \<in> set xs. f x = Panic"
  by (induction xs) (auto simp: rbind_Panic_iff)

lemma ret_ok_pair: "ret_ok (rbind r (\<lambda>w. Ok (k, w))) \<longleftrightarrow> ret_ok r"
  by (cases r) simp_all

lemma map_values_r_ret_ok: "ret_ok (map_values_r f m) \<longleftrightarrow> (\<forall>(_, v) \<in> set m. ret_ok (f v))"
  unfolding map_values_r_def traverse_r_ret_ok by (simp add: case_prod_beta ret_ok_pair)

lemma map_values_r_no_error: "(\<And>k v. (k, v) \<in> set m \<Longrightarrow> no_error (f v)) \<Longrightarrow> no_error (map_values_r f m)"
  unfolding map_values_r_def by (rule traverse_r_no_error) (auto intro!: no_error_rbind)

lemma map_values_r_PanicD: "map_values_r f m = Panic \<Longrightarrow> \<exists>(_, v) \<in> set m. f v = Panic"
  unfolding map_values_r_def by (drule traverse_r_PanicD) (fastforce simp: rbind_Panic_iff)

text \<open>The messages of an observation, those without a header, and what else the decoder checks.\<close>

definition pb_messages :: "pb_ExecObservation \<Rightarrow> pb_Message list" where
  "pb_messages m = concat (map (\<lambda>(_, cs). concat (map pbcd_Messages cs)) (pbx_CommitReports m)) @
     concat (map (\<lambda>(_, ms). map snd ms) (pbx_SeqNumsToMsgs m))"

definition header_sized :: "pb_Message \<Rightarrow> bool" where
  "header_sized m \<longleftrightarrow> (case pbms_Header m of None \<Rightarrow> True
     | Some h \<Rightarrow> length (pbh_MessageId h) = 32 \<and> length (pbh_MsgHash h) = 32)"

definition pb_sized :: "pb_ExecObservation \<Rightarrow> bool" where
  "pb_sized m \<longleftrightarrow> (\<forall>x \<in> set (pb_messages m). header_sized x) \<and>
     (\<forall>(_, cs) \<in> set (pbx_CommitReports m). \<forall>c \<in> set cs. length (pbcd_MerkleRoot c) = 32 \<and> (\<forall>h \<in> set (pbcd_Hashes c). length h = 32)) \<and>
     (\<forall>(_, hs) \<in> set (pbx_MsgHashes m). \<forall>(_, h) \<in> set hs. length h = 32)"

lemma ball_pairs: "(\<forall>(k, v) \<in> A. P k v) \<longleftrightarrow> (\<forall>k v. (k, v) \<in> A \<longrightarrow> P k v)"
  by auto

lemma pb_messages_iff:
  "x \<in> set (pb_messages m) \<longleftrightarrow> (\<exists>k cs c. (k, cs) \<in> set (pbx_CommitReports m) \<and> c \<in> set cs \<and> x \<in> set (pbcd_Messages c)) \<or>
     (\<exists>k ms n. (k, ms) \<in> set (pbx_SeqNumsToMsgs m) \<and> (n, x) \<in> set ms)"
proof -
  have "x \<in> set (concat (map (\<lambda>(_, cs). concat (map pbcd_Messages cs)) A)) \<longleftrightarrow>
      (\<exists>k cs c. (k, cs) \<in> set A \<and> c \<in> set cs \<and> x \<in> set (pbcd_Messages c))" for A :: "(u64 \<times> pb_CommitData list) list"
    by (induction A) auto
  moreover have "x \<in> snd ` set ms \<longleftrightarrow> (\<exists>n. (n, x) \<in> set ms)" for ms :: "(u64 \<times> pb_Message) list"
    by (induction ms) auto
  then have "x \<in> set (concat (map (\<lambda>(_, ms). map snd ms) B)) \<longleftrightarrow> (\<exists>k ms n. (k, ms) \<in> set B \<and> (n, x) \<in> set ms)"
    for B :: "(u64 \<times> (u64 \<times> pb_Message) list) list"
    by (induction B) auto
  ultimately show ?thesis unfolding pb_messages_def set_append Un_iff by simp
qed

lemma decodeMessage_cases:
  "ret_ok (decodeMessage m) \<longleftrightarrow> pbms_Header m \<noteq> None \<and> header_sized m"
  "no_error (decodeMessage m) \<longleftrightarrow> header_sized m"
  "decodeMessage m = Panic \<longleftrightarrow> pbms_Header m = None"
  by (auto simp: decodeMessage_def decodeMessageHeader_def header_sized_def rbind_Panic_iff split: option.splits)

lemma bytes32FromProto_cases:
  "ret_ok (bytes32FromProto h) \<longleftrightarrow> length h = 32" "no_error (bytes32FromProto h) \<longleftrightarrow> length h = 32" "bytes32FromProto h \<noteq> Panic"
  by (auto simp: bytes32FromProto_def)

lemma commitDataFromProto_ret_ok:
  "ret_ok (commitDataFromProto xp c) \<longleftrightarrow> length (pbcd_MerkleRoot c) = 32 \<and> (\<forall>h \<in> set (pbcd_Hashes c). length h = 32) \<and>
     (\<forall>m \<in> set (pbcd_Messages c). pbms_Header m \<noteq> None \<and> header_sized m)"
proof -
  have "ret_ok (commitDataFromProto xp c) \<longleftrightarrow> length (pbcd_MerkleRoot c) = 32 \<and>
      ret_ok (bytes32SliceFromProto (pbcd_Hashes c)) \<and> ret_ok (decodeMessages (pbcd_Messages c))"
    by (auto simp: commitDataFromProto_def ret_ok_rbind ret_ok_iff [of "bytes32SliceFromProto _"] ret_ok_iff [of "decodeMessages _"])
  then show ?thesis
    unfolding bytes32SliceFromProto_def decodeMessages_def traverse_r_ret_ok by (simp add: bytes32FromProto_cases decodeMessage_cases)
qed

lemma commitDataFromProto_no_error:
  assumes "length (pbcd_MerkleRoot c) = 32" and "\<forall>h \<in> set (pbcd_Hashes c). length h = 32" and "\<forall>m \<in> set (pbcd_Messages c). header_sized m"
  shows "no_error (commitDataFromProto xp c)"
  unfolding commitDataFromProto_def bytes32SliceFromProto_def decodeMessages_def
  using assms by (auto intro!: no_error_rbind traverse_r_no_error simp: bytes32FromProto_cases decodeMessage_cases)

lemma commitDataFromProto_PanicD:
  "commitDataFromProto xp c = Panic \<Longrightarrow> \<exists>m \<in> set (pbcd_Messages c). pbms_Header m = None"
  unfolding commitDataFromProto_def bytes32SliceFromProto_def decodeMessages_def
  by (auto simp: rbind_Panic_iff bytes32FromProto_cases decodeMessage_cases(3) dest!: traverse_r_PanicD split: if_splits)

lemma exec_obs_from_proto_ret_ok:
  "ret_ok (exec_obs_from_proto xp m) \<longleftrightarrow> pb_sized m \<and> (\<forall>x \<in> set (pb_messages m). pbms_Header x \<noteq> None)"
proof -
  have all: "ret_ok (exec_obs_from_proto xp m) \<longleftrightarrow> ret_ok (commitReportsFromProto xp (pbx_CommitReports m)) \<and>
      ret_ok (messageObservationsFromProto (pbx_SeqNumsToMsgs m)) \<and> ret_ok (messageHashesFromProto (pbx_MsgHashes m))"
    by (auto simp: exec_obs_from_proto_def ret_ok_rbind ret_ok_iff [of "commitReportsFromProto _ _"]
        ret_ok_iff [of "messageObservationsFromProto _"] ret_ok_iff [of "messageHashesFromProto _"])
  have c: "ret_ok (commitReportsFromProto xp (pbx_CommitReports m)) \<longleftrightarrow>
      (\<forall>k cs. (k, cs) \<in> set (pbx_CommitReports m) \<longrightarrow> (\<forall>c \<in> set cs. length (pbcd_MerkleRoot c) = 32 \<and>
        (\<forall>h \<in> set (pbcd_Hashes c). length h = 32) \<and> (\<forall>x \<in> set (pbcd_Messages c). pbms_Header x \<noteq> None \<and> header_sized x)))"
    unfolding commitReportsFromProto_def commitDataSliceFromProto_def map_values_r_ret_ok traverse_r_ret_ok commitDataFromProto_ret_ok
      ball_pairs ..
  have ms: "ret_ok (messageObservationsFromProto (pbx_SeqNumsToMsgs m)) \<longleftrightarrow>
      (\<forall>k ms. (k, ms) \<in> set (pbx_SeqNumsToMsgs m) \<longrightarrow> (\<forall>n x. (n, x) \<in> set ms \<longrightarrow> pbms_Header x \<noteq> None \<and> header_sized x))"
    unfolding messageObservationsFromProto_def map_values_r_ret_ok decodeMessage_cases(1) ball_pairs ..
  have hs: "ret_ok (messageHashesFromProto (pbx_MsgHashes m)) \<longleftrightarrow>
      (\<forall>k hs. (k, hs) \<in> set (pbx_MsgHashes m) \<longrightarrow> (\<forall>n h. (n, h) \<in> set hs \<longrightarrow> length h = 32))"
    unfolding messageHashesFromProto_def map_values_r_ret_ok bytes32FromProto_cases(1) ball_pairs ..
  show ?thesis unfolding all c ms hs pb_sized_def ball_pairs unfolding Ball_def pb_messages_iff by blast
qed

lemma exec_obs_from_proto_no_error:
  assumes "pb_sized m"
  shows "no_error (exec_obs_from_proto xp m)"
proof -
  have sized: "header_sized x" if "x \<in> set (pb_messages m)" for x using assms that by (simp add: pb_sized_def)
  have "no_error (commitReportsFromProto xp (pbx_CommitReports m))"
    unfolding commitReportsFromProto_def commitDataSliceFromProto_def
    by (intro map_values_r_no_error traverse_r_no_error commitDataFromProto_no_error)
      (use assms sized in \<open>unfold pb_sized_def ball_pairs pb_messages_iff, blast+\<close>)
  moreover have "no_error (messageObservationsFromProto (pbx_SeqNumsToMsgs m))"
    unfolding messageObservationsFromProto_def
    by (intro map_values_r_no_error) (use sized in \<open>unfold decodeMessage_cases(2) pb_messages_iff, blast\<close>)
  moreover have "no_error (messageHashesFromProto (pbx_MsgHashes m))"
    unfolding messageHashesFromProto_def
    by (intro map_values_r_no_error) (use assms in \<open>unfold pb_sized_def ball_pairs bytes32FromProto_cases(2), blast\<close>)
  ultimately show ?thesis unfolding exec_obs_from_proto_def by (intro no_error_rbind) simp_all
qed

lemma exec_obs_from_proto_PanicD:
  assumes "exec_obs_from_proto xp m = Panic"
  shows "\<exists>x \<in> set (pb_messages m). pbms_Header x = None"
proof -
  consider "commitReportsFromProto xp (pbx_CommitReports m) = Panic" | "messageObservationsFromProto (pbx_SeqNumsToMsgs m) = Panic"
    | "messageHashesFromProto (pbx_MsgHashes m) = Panic"
    using assms by (auto simp: exec_obs_from_proto_def rbind_Panic_iff)
  then show ?thesis
  proof cases
    case 1
    then obtain k cs where "(k, cs) \<in> set (pbx_CommitReports m)" "traverse_r (commitDataFromProto xp) cs = Panic"
      unfolding commitReportsFromProto_def commitDataSliceFromProto_def by (blast dest: map_values_r_PanicD)
    then show ?thesis unfolding pb_messages_iff Bex_def using traverse_r_PanicD commitDataFromProto_PanicD by blast
  next
    case 2
    then obtain k ms where "(k, ms) \<in> set (pbx_SeqNumsToMsgs m)" "map_values_r decodeMessage ms = Panic"
      unfolding messageObservationsFromProto_def by (blast dest: map_values_r_PanicD)
    then show ?thesis unfolding pb_messages_iff Bex_def using map_values_r_PanicD decodeMessage_cases(3) by blast
  next
    case 3
    then obtain hs :: "(u64 \<times> byte list) list" where "map_values_r bytes32FromProto hs = Panic"
      unfolding messageHashesFromProto_def using map_values_r_PanicD by fast
    from map_values_r_PanicD [OF this] show ?thesis by (auto simp: bytes32FromProto_cases(3))
  qed
qed

text \<open>Which observations the execute codec decodes: exactly those whose roots, hashes and message headers have the right sizes
  and whose messages all have a header. A message without a header is read without a nil check: the decoder panics
  on it when the sizes are right, and it panics on nothing else. Any oracle can send such a message.\<close>

theorem exec_decode_observation_iff:
  assumes "data \<noteq> []" and "xpr_UnmarshalObs xp data = Ok m"
  shows "(ret_ok (exec_DecodeObservation xp data) \<longleftrightarrow> pb_sized m \<and> (\<forall>x \<in> set (pb_messages m). pbms_Header x \<noteq> None)) \<and>
    (exec_DecodeObservation xp data = Panic \<longrightarrow> (\<exists>x \<in> set (pb_messages m). pbms_Header x = None)) \<and>
    (pb_sized m \<and> (\<exists>x \<in> set (pb_messages m). pbms_Header x = None) \<longrightarrow> exec_DecodeObservation xp data = Panic)"
proof -
  have "exec_DecodeObservation xp data = exec_obs_from_proto xp m" using assms by (simp add: exec_DecodeObservation_def)
  with exec_obs_from_proto_ret_ok [of xp m] exec_obs_from_proto_PanicD [of xp m] exec_obs_from_proto_no_error [of m xp]
  show ?thesis unfolding ret_ok_iff_no_error by metis
qed

section \<open>An instance of the runtime\<close>

definition sample_exec_proto :: "(pb_ExecObservation + pb_ExecOutcome) exec_proto" where
  "sample_exec_proto = \<lparr>xpr_MarshalObs = (\<lambda>m. Ok [Inl m]),
     xpr_UnmarshalObs = (\<lambda>w. case w of [Inl m] \<Rightarrow> Ok m | _ \<Rightarrow> Error (Err ''malformed'')),
     xpr_MarshalOutcome = (\<lambda>m. Ok (if m = pb_ExecOutcome_zero then [] else [Inr m])),
     xpr_UnmarshalOutcome = (\<lambda>w. case w of [Inr m] \<Rightarrow> Ok m | _ \<Rightarrow> Error (Err ''malformed'')),
     xpr_NewTimestamp = (\<lambda>t. (t, 0)), xpr_AsTime = (\<lambda>t. case t of None \<Rightarrow> 0 | Some (s, _) \<Rightarrow> s),
     xpr_BigInt_Bytes = (\<lambda>b. case b of None \<Rightarrow> Ok [] | Some i \<Rightarrow> big_Bytes (Some i))\<rparr>"

lemma sample_exec_proto_spec: "exec_proto_spec sample_exec_proto"
  by (simp add: exec_proto_spec_def sample_exec_proto_def)

text \<open>A message with a token, whose fee in juels is nil; a commit report that holds it, with token data that is not
  ready; and an outcome with two reports.\<close>

definition sample_wire_msg :: Message where
  "sample_wire_msg = \<lparr>msg_Header = \<lparr>mh_MessageID = replicate 32 1, mh_SourceChainSelector = 7, mh_DestChainSelector = 9,
       mh_SequenceNumber = 4, mh_Nonce = 1, mh_MsgHash = replicate 32 2, mh_OnRamp = [5], mh_TxHash = ''0x01''\<rparr>,
     msg_Sender = [1], msg_Data = [2], msg_Receiver = [3], msg_ExtraArgs = [], msg_FeeToken = [4],
     msg_FeeTokenAmount = Some 300, msg_FeeValueJuels = None,
     msg_TokenAmounts = [\<lparr>rta_SourcePoolAddress = [6], rta_DestTokenAddress = [7], rta_ExtraData = [], rta_Amount = Some 1000,
       rta_DestExecData = []\<rparr>]\<rparr>"

definition sample_wire_commit :: CommitData where
  "sample_wire_commit = \<lparr>cd_SourceChain = 7, cd_OnRampAddress = [5], cd_Timestamp = 100, cd_BlockNum = 11,
     cd_MerkleRoot = replicate 32 3, cd_SequenceNumberRange = \<lparr>sr_Start = 4, sr_End = 4\<rparr>, cd_ExecutedMessages = [],
     cd_Messages = [sample_wire_msg], cd_Hashes = [replicate 32 2],
     cd_MessageTokenData = [\<lparr>mtd_TokenData = [NewErrorTokenData (Err ''not ready'')]\<rparr>]\<rparr>"

definition sample_wire_obs :: exec_Observation where
  "sample_wire_obs = exec_Observation_zero\<lparr>xob_CommitReports := [(7, [sample_wire_commit])],
     xob_Messages := [(7, [(4, sample_wire_msg)])], xob_Hashes := [(7, [(4, replicate 32 2)])], xob_FChain := [(7, 1)]\<rparr>"

definition sample_wire_report :: ExecutePluginReport where
  "sample_wire_report = \<lparr>epr_ChainReports = [\<lparr>er_SourceChainSelector = 7, er_Messages = [sample_wire_msg],
     er_OffchainTokenData = [[[8]]], er_Proofs = [replicate 32 4], er_ProofFlagBits = Some 1\<rparr>]\<rparr>"

definition sample_wire_outcome :: exec_Outcome where
  "sample_wire_outcome = exec_NewOutcome Filter [sample_wire_commit] [sample_wire_report, sample_wire_report]"

lemma sample_wire:
  "wire_exec_obs sample_exec_proto sample_wire_obs" "wire_exec_outcome sample_exec_proto sample_wire_outcome"
proof -
  have m: "wire_message sample_exec_proto sample_wire_msg"
    by (simp add: wire_message_def sample_wire_msg_def wire_big_def nonneg_def sample_exec_proto_def)
  then have c: "wire_commit sample_exec_proto sample_wire_commit" by (simp add: wire_commit_def sample_wire_commit_def)
  with m show "wire_exec_obs sample_exec_proto sample_wire_obs"
    by (simp add: wire_exec_obs_def sample_wire_obs_def exec_Observation_zero_def dt_Observation_zero_def fchain_ok_def gm_ok_def)
  have "wire_report sample_exec_proto sample_wire_report"
    using m by (simp add: wire_report_def sample_wire_report_def wire_big_def nonneg_def)
  with c show "wire_exec_outcome sample_exec_proto sample_wire_outcome"
    by (simp add: wire_exec_outcome_def sample_wire_outcome_def exec_NewOutcome_def wire_report_def)
qed

theorem exec_codec_roundtrip_witness:
  "\<exists>w w'. exec_EncodeObservation sample_exec_proto sample_wire_obs = Ok w \<and>
     exec_DecodeObservation sample_exec_proto w = Ok (norm_exec_obs sample_wire_obs) \<and>
     exec_EncodeOutcome sample_exec_proto sample_wire_outcome = Ok w' \<and>
     exec_DecodeOutcome sample_exec_proto w' = Ok (sample_wire_outcome\<lparr>xo_CommitReports := [norm_commit sample_wire_commit],
       xo_Reports := [norm_report sample_wire_report, norm_report sample_wire_report], xo_Report := norm_report sample_wire_report\<rparr>)"
proof -
  have "norm_exec_outcome sample_wire_outcome = sample_wire_outcome\<lparr>xo_CommitReports := [norm_commit sample_wire_commit],
       xo_Reports := [norm_report sample_wire_report, norm_report sample_wire_report], xo_Report := norm_report sample_wire_report\<rparr>"
    by (simp add: norm_exec_outcome_def sample_wire_outcome_def exec_NewOutcome_def first_report_def)
  with exec_codec_roundtrip [OF sample_exec_proto_spec sample_wire] show ?thesis
    by (auto simp: sample_exec_proto_def)
qed

theorem exec_decode_typed_witness:
  "\<exists>w ob. exec_EncodeObservation sample_exec_proto sample_wire_obs = Ok w \<and>
     exec_DecodeObservation sample_exec_proto w = Ok ob \<and> typed_exec_obs ob"
proof -
  obtain m where "exec_obs_to_proto sample_exec_proto sample_wire_obs = Ok m"
    "exec_obs_from_proto sample_exec_proto m = Ok (norm_exec_obs sample_wire_obs)"
    using exec_obs_proto_roundtrip [OF sample_exec_proto_spec sample_wire(1)] by blast
  then have "exec_EncodeObservation sample_exec_proto sample_wire_obs = Ok [Inl m]"
    "exec_DecodeObservation sample_exec_proto [Inl m] = Ok (norm_exec_obs sample_wire_obs)"
    by (simp_all add: exec_EncodeObservation_def exec_DecodeObservation_def sample_exec_proto_def)
  with exec_decode_typed show ?thesis by blast
qed

text \<open>An observation of one message without a header.\<close>

definition sample_headerless :: pb_ExecObservation where
  "sample_headerless = \<lparr>pbx_CommitReports = [],
     pbx_SeqNumsToMsgs = [(7, [(4, \<lparr>pbms_Header = None, pbms_Sender = [], pbms_Data = [], pbms_Receiver = [], pbms_ExtraArgs = [],
       pbms_FeeToken = [], pbms_FeeTokenAmount = [], pbms_FeeValueJuels = [], pbms_TokenAmounts = []\<rparr>)])],
     pbx_MsgHashes = [], pbx_TokenDataObservations = None, pbx_Nonces = [], pbx_Contracts = None, pbx_FChain = []\<rparr>"

theorem exec_decode_observation_iff_witness:
  "exec_DecodeObservation sample_exec_proto [Inl sample_headerless] = Panic"
proof -
  have "xpr_UnmarshalObs sample_exec_proto [Inl sample_headerless] = Ok sample_headerless" by (simp add: sample_exec_proto_def)
  from exec_decode_observation_iff [OF _ this] show ?thesis
    by (simp add: sample_headerless_def pb_sized_def pb_messages_def header_sized_def)
qed

end
