(* ===== verification/TokenObservers.thy ===== *)
theory TokenObservers imports ExecCodec begin

text \<open>
  Token data of the execute plugin (\<open>execute/tokendata\<close>). A message may carry tokens that need an attestation of their
  issuer before they can be executed. An observer of an issuer answers for the tokens it supports; the composite observer
  of \<open>observer/observer.go\<close> merges the answers into one value for every token of every message.

  The theory models the composite and the no-op observer, the USDC observer with its attestation client (\<open>usdc/\<close>) and the
  LBTC observer with its client (\<open>lbtc/\<close>), which asks for attestations in batches. The HTTP client, the JSON decoder, the
  hash function and the reader of USDC events are fields of the records \<open>usdc_api\<close>, \<open>lbtc_api\<close> and
  \<open>USDCTokenDataObserver\<close>.

  The locale \<open>token_data_observer\<close> is the contract of the interface \<open>TokenDataObserver\<close>; the USDC and the LBTC observer
  meet it. \<open>composite_Observe_spec\<close> says what the composite makes of observers that do, and
  \<open>lbtc_Attestations_batches\<close> that the loop of the LBTC client is the same as cutting the hashes into pieces.
\<close>

section \<open>Walking over the tokens of the messages\<close>

text \<open>The loop that all observers share: for every chain, every message and every token of it, one value; the result is
  a map of the same shape. \<open>MessageTokenID\<close> is the pair of a sequence number and an index.\<close>

type_synonym MessageTokenID = "SeqNum \<times> nat"

definition map_keyed :: "('k \<Rightarrow> 'v \<Rightarrow> 'w) \<Rightarrow> ('k, 'v) gomap \<Rightarrow> ('k, 'w) gomap" where
  "map_keyed f m = map (\<lambda>(k, v). (k, f k v)) m"

definition map_tokens ::
  "(ChainSelector \<Rightarrow> SeqNum \<Rightarrow> nat \<Rightarrow> RampTokenAmount \<Rightarrow> TokenData) \<Rightarrow> MessageObservations \<Rightarrow> TokenDataObservations" where
  "map_tokens f observations = map_keyed (\<lambda>chain msgs. map_keyed (\<lambda>seq msg.
     \<lparr>mtd_TokenData = map (\<lambda>(i, token). f chain seq i token) (enumerate 0 (msg_TokenAmounts msg))\<rparr>) msgs) observations"

text \<open>\<open>strings.EqualFold\<close> on the printed addresses, which are ASCII.\<close>

definition to_lower :: "char \<Rightarrow> char" where
  "to_lower c = (if CHR ''A'' \<le> c \<and> c \<le> CHR ''Z'' then char_of (of_char c + 32 :: nat) else c)"

definition EqualFold :: "string \<Rightarrow> string \<Rightarrow> bool" where
  "EqualFold s t \<longleftrightarrow> map to_lower s = map to_lower t"

section \<open>tokendata/token_data.go\<close>

definition ErrDataMissing :: error where "ErrDataMissing = Err ''token data missing''"
definition ErrNotReady :: error where "ErrNotReady = Err ''token data not ready''"
definition ErrRateLimit :: error where "ErrRateLimit = Err ''token data API is being rate limited''"
definition ErrTimeout :: error where "ErrTimeout = Err ''token data API timed out''"
definition ErrUnknownResponse :: error where "ErrUnknownResponse = Err ''unexpected response from attestation API''"

record AttestationStatus =
  ats_ID :: "byte list"
  ats_MessageBody :: "byte list"
  ats_Attestation :: "byte list"
  ats_Error :: "error option"

definition SuccessAttestationStatus :: "byte list \<Rightarrow> byte list \<Rightarrow> byte list \<Rightarrow> AttestationStatus" where
  "SuccessAttestationStatus ident body attestation =
     \<lparr>ats_ID = ident, ats_MessageBody = body, ats_Attestation = attestation, ats_Error = None\<rparr>"

definition ErrorAttestationStatus :: "error \<Rightarrow> AttestationStatus" where
  "ErrorAttestationStatus err = \<lparr>ats_ID = [], ats_MessageBody = [], ats_Attestation = [], ats_Error = Some err\<rparr>"

type_synonym token_bytes = "(ChainSelector, (MessageTokenID, byte list) gomap) gomap"
type_synonym attestations = "(ChainSelector, (MessageTokenID, AttestationStatus) gomap) gomap"

text \<open>\<open>AttestationClient\<close>: the answer of \<open>Attestations\<close>.\<close>

type_synonym AttestationClient = "token_bytes \<Rightarrow> attestations result"

text \<open>The client of the tests; a missing entry is the zero value.\<close>

definition fake_Attestations :: "(byte list, AttestationStatus) gomap \<Rightarrow> AttestationClient" where
  "fake_Attestations data messagesByChain = Ok (map_keyed (\<lambda>chainSelector messagesByTokenID. map_keyed (\<lambda>tokenID message.
     case map_of data message of None \<Rightarrow> SuccessAttestationStatus [] [] [] | Some status \<Rightarrow> status) messagesByTokenID) messagesByChain)"

section \<open>observer/observer.go\<close>

text \<open>The interface \<open>TokenDataObserver\<close>.\<close>

record TokenDataObserver =
  tob_Observe :: "MessageObservations \<Rightarrow> TokenDataObservations result"
  tob_IsTokenSupported :: "ChainSelector \<Rightarrow> RampTokenAmount \<Rightarrow> bool"

definition composite_IsTokenSupported :: "TokenDataObserver list \<Rightarrow> ChainSelector \<Rightarrow> RampTokenAmount \<Rightarrow> bool" where
  "composite_IsTokenSupported observers chainSelector token = list_ex (\<lambda>ob. tob_IsTokenSupported ob chainSelector token) observers"

definition initTokenDataObservations :: "TokenDataObserver list \<Rightarrow> MessageObservations \<Rightarrow> TokenDataObservations" where
  "initTokenDataObservations observers observations = map_tokens (\<lambda>chainSelector seq i token.
     if \<not> composite_IsTokenSupported observers chainSelector token then NewNoopTokenData
     else TokenData_zero\<lparr>td_Ready := False, td_Supported := True\<rparr>) observations"

definition merge_token :: "TokenData \<Rightarrow> TokenData \<Rightarrow> TokenData" where
  "merge_token old newTokenData = (if td_Ready old then old else if td_Supported newTokenData then newTokenData else old)"

text \<open>\<open>merge\<close> writes into the slices of \<open>base\<close>, also before it fails: it yields what \<open>base\<close> holds and whether it
  failed. A missing entry of \<open>base\<close> is the zero value, without tokens.\<close>

fun merge_messages ::
  "ChainSelector \<Rightarrow> (SeqNum, MessageTokenData) gomap \<Rightarrow> TokenDataObservations \<Rightarrow> TokenDataObservations \<times> unit result" where
  "merge_messages chainSelector [] base = (base, Ok ())"
| "merge_messages chainSelector ((seq, messageTokenData) # rest) base =
     (let old = (case gm_get2 base chainSelector seq of None \<Rightarrow> [] | Some m \<Rightarrow> mtd_TokenData m) in
      if length (mtd_TokenData messageTokenData) \<noteq> length old then (base, Error (Err ''token data length mismatch''))
      else merge_messages chainSelector rest
             (if gm_get2 base chainSelector seq = None then base
              else gm_put2 chainSelector seq \<lparr>mtd_TokenData = map2 merge_token old (mtd_TokenData messageTokenData)\<rparr> base))"

fun merge_observations :: "TokenDataObservations \<Rightarrow> TokenDataObservations \<Rightarrow> TokenDataObservations \<times> unit result" where
  "merge_observations base [] = (base, Ok ())"
| "merge_observations base ((chainSelector, chainObservations) # rest) =
     (let (base', r) = merge_messages chainSelector chainObservations base
      in if r = Ok () then merge_observations base' rest else (base', r))"

text \<open>The map that is returned is always the one that \<open>merge\<close> writes into.\<close>

definition composite_Observe :: "TokenDataObserver list \<Rightarrow> MessageObservations \<Rightarrow> TokenDataObservations result" where
  "composite_Observe observers msgObservations =
     fold (\<lambda>ob r. rbind r (\<lambda>tokenDataObservations.
             case tob_Observe ob msgObservations of
               Ok tokenData \<Rightarrow> Ok (fst (merge_observations tokenDataObservations tokenData))
             | Error err \<Rightarrow> Ok tokenDataObservations
             | Panic \<Rightarrow> Panic))
       observers (Ok (initTokenDataObservations observers msgObservations))"

definition NewCompositeObservers :: "TokenDataObserver list \<Rightarrow> TokenDataObserver" where
  "NewCompositeObservers observers =
     \<lparr>tob_Observe = composite_Observe observers, tob_IsTokenSupported = composite_IsTokenSupported observers\<rparr>"

record NoopTokenDataObserver =
  nob_tokenSupported :: bool
  nob_errorTokenData :: "(ChainSelector, (SeqNum, int list) gomap) gomap"

definition noop_isError :: "NoopTokenDataObserver \<Rightarrow> ChainSelector \<Rightarrow> SeqNum \<Rightarrow> nat \<Rightarrow> bool" where
  "noop_isError n selector seq tokenIdx =
     (case gm_get2 (nob_errorTokenData n) selector seq of None \<Rightarrow> False | Some tokenIdxs \<Rightarrow> int tokenIdx \<in> set tokenIdxs)"

definition noop_Observe :: "NoopTokenDataObserver \<Rightarrow> MessageObservations \<Rightarrow> TokenDataObservations result" where
  "noop_Observe n observations = Ok (map_tokens (\<lambda>selector seq i token.
     if noop_isError n selector seq i then NewErrorTokenData (Err ''some error'') else NewNoopTokenData) observations)"

section \<open>usdc/usdc.go\<close>

text \<open>\<open>addrString\<close> is \<open>UnknownAddress.String\<close> of chainlink-common.\<close>

record USDCTokenDataObserver =
  uso_destChainSelector :: ChainSelector
  uso_supportedPoolsBySelector :: "(ChainSelector, string) gomap"
  uso_attestationEncoder :: "byte list \<Rightarrow> byte list \<Rightarrow> error + byte list"
  uso_usdcMessageReader ::
    "ChainSelector \<Rightarrow> ChainSelector \<Rightarrow> (MessageTokenID, RampTokenAmount) gomap \<Rightarrow> (MessageTokenID, byte list) gomap result"
  uso_attestationClient :: AttestationClient

definition pool_of :: "(ChainSelector, string) gomap \<Rightarrow> ChainSelector \<Rightarrow> string" where
  "pool_of pools chain = (case map_of pools chain of None \<Rightarrow> [] | Some pool \<Rightarrow> pool)"

definition usdc_IsTokenSupported ::
  "(UnknownAddress \<Rightarrow> string) \<Rightarrow> USDCTokenDataObserver \<Rightarrow> ChainSelector \<Rightarrow> RampTokenAmount \<Rightarrow> bool" where
  "usdc_IsTokenSupported addrString u sourceChain msgToken =
     EqualFold (pool_of (uso_supportedPoolsBySelector u) sourceChain) (addrString (rta_SourcePoolAddress msgToken))"

text \<open>The tokens that an observer supports, by message and index; used by two observers.\<close>

definition pick_tokens ::
  "(ChainSelector \<Rightarrow> RampTokenAmount \<Rightarrow> bool) \<Rightarrow> (RampTokenAmount \<Rightarrow> 'a) \<Rightarrow> MessageObservations \<Rightarrow>
   (ChainSelector, (MessageTokenID, 'a) gomap) gomap" where
  "pick_tokens supported value observations = map_keyed (\<lambda>chain msgs. concat (map (\<lambda>(seq, msg).
     map (\<lambda>(i, token). ((seq, i), value token)) (filter (\<lambda>(i, token). supported chain token) (enumerate 0 (msg_TokenAmounts msg)))) msgs))
     observations"

definition pickOnlyUSDCMessages ::
  "(UnknownAddress \<Rightarrow> string) \<Rightarrow> USDCTokenDataObserver \<Rightarrow> MessageObservations \<Rightarrow>
   (ChainSelector, (MessageTokenID, RampTokenAmount) gomap) gomap" where
  "pickOnlyUSDCMessages addrString u messageObservations =
     pick_tokens (usdc_IsTokenSupported addrString u) (\<lambda>token. token) messageObservations"

fun fetchUSDCEventMessages ::
  "USDCTokenDataObserver \<Rightarrow> (ChainSelector, (MessageTokenID, RampTokenAmount) gomap) gomap \<Rightarrow> token_bytes result" where
  "fetchUSDCEventMessages u [] = Ok []"
| "fetchUSDCEventMessages u ((chainSelector, messages) # rest) =
     (if messages = [] then fetchUSDCEventMessages u rest
      else rbind (uso_usdcMessageReader u chainSelector (uso_destChainSelector u) messages) (\<lambda>msgByTokenID.
           rbind (fetchUSDCEventMessages u rest) (\<lambda>output. Ok ((chainSelector, msgByTokenID) # output))))"

definition usdc_attestationToTokenData ::
  "USDCTokenDataObserver \<Rightarrow> SeqNum \<Rightarrow> nat \<Rightarrow> (MessageTokenID, AttestationStatus) gomap \<Rightarrow> TokenData" where
  "usdc_attestationToTokenData u seqNr tokenIndex attestations =
     (case map_of attestations (seqNr, tokenIndex) of
        None \<Rightarrow> NewErrorTokenData ErrDataMissing
      | Some status \<Rightarrow>
          (case ats_Error status of
             Some err \<Rightarrow> NewErrorTokenData err
           | None \<Rightarrow>
               (case uso_attestationEncoder u (ats_MessageBody status) (ats_Attestation status) of
                  Inl err \<Rightarrow> NewErrorTokenData (Wrap ''unable to encode attestation'' err)
                | Inr tokenData \<Rightarrow> NewSuccessTokenData tokenData)))"

text \<open>\<open>attestations[chainSelector]\<close>: a missing chain is the nil map.\<close>

definition extractTokenData ::
  "(UnknownAddress \<Rightarrow> string) \<Rightarrow> USDCTokenDataObserver \<Rightarrow> MessageObservations \<Rightarrow> attestations \<Rightarrow> TokenDataObservations" where
  "extractTokenData addrString u messages attestations = map_tokens (\<lambda>chainSelector seqNum i tokenAmount.
     if \<not> usdc_IsTokenSupported addrString u chainSelector tokenAmount then NotSupportedTokenData
     else usdc_attestationToTokenData u seqNum i (gm_inner attestations chainSelector)) messages"

definition usdc_Observe :: "(UnknownAddress \<Rightarrow> string) \<Rightarrow> USDCTokenDataObserver \<Rightarrow> MessageObservations \<Rightarrow> TokenDataObservations result" where
  "usdc_Observe addrString u messages =
     rbind (fetchUSDCEventMessages u (pickOnlyUSDCMessages addrString u messages)) (\<lambda>usdcMessagesByTokenID.
     rbind (uso_attestationClient u usdcMessagesByTokenID) (\<lambda>attestations.
       Ok (extractTokenData addrString u messages attestations)))"

definition InitUSDCTokenDataObserver where
  "InitUSDCTokenDataObserver destChainSelector supportedPoolsBySelector attestationEncoder usdcMessageReader attestationClient =
     \<lparr>uso_destChainSelector = destChainSelector, uso_supportedPoolsBySelector = supportedPoolsBySelector,
      uso_attestationEncoder = attestationEncoder, uso_usdcMessageReader = usdcMessageReader, uso_attestationClient = attestationClient\<rparr>"

text \<open>\<open>newClient\<close> is the result of \<open>NewSequentialAttestationClient\<close>.\<close>

definition internalNewUSDCTokenDataObserver where
  "internalNewUSDCTokenDataObserver newClient destChainSelector usdcConfig attestationEncoder usdcReader =
     rbind (wrap_err ''create attestation client'' newClient) (\<lambda>attestationClient.
       Ok (InitUSDCTokenDataObserver destChainSelector
         (map_keyed (\<lambda>chainSelector tokenConfig. utc_SourcePoolAddress tokenConfig) (uoc_Tokens usdcConfig))
         attestationEncoder usdcReader attestationClient))"

section \<open>usdc/attestation.go\<close>

text \<open>\<open>hash\<close> is Keccak, \<open>get\<close> the HTTP client, \<open>parse\<close> the JSON decoding of a response, and \<open>toBytes\<close> is
  \<open>cciptypes.NewBytesFromString\<close>.\<close>

record httpResponse =
  hrs_Status :: string
  hrs_Attestation :: string
  hrs_Error :: string

definition httpResponse_validate :: "httpResponse \<Rightarrow> unit result" where
  "httpResponse_validate r =
     (if hrs_Error r \<noteq> [] then Error (Wrap ''attestation API error'' (Err (hrs_Error r)))
      else if hrs_Status r = [] then Error (Err ''invalid attestation response'')
      else if hrs_Status r \<noteq> ''complete'' then Error ErrNotReady
      else Ok ())"

record usdc_api =
  uap_hash :: "byte list \<Rightarrow> Bytes32"
  uap_get :: "Bytes32 \<Rightarrow> byte list result"
  uap_parse :: "byte list \<Rightarrow> httpResponse result"
  uap_toBytes :: "string \<Rightarrow> byte list result"

definition attestationToBytes :: "usdc_api \<Rightarrow> httpResponse \<Rightarrow> byte list result" where
  "attestationToBytes api r = wrap_err ''failed to decode attestation hex'' (uap_toBytes api (hrs_Attestation r))"

definition attestationFromResponse :: "usdc_api \<Rightarrow> byte list \<Rightarrow> byte list result" where
  "attestationFromResponse api body =
     rbind (wrap_err ''failed to decode json'' (uap_parse api body)) (\<lambda>response.
     rbind (httpResponse_validate response) (\<lambda>_. attestationToBytes api response))"

text \<open>The errors become part of the status; a panic of the client or of the decoder would end the call.\<close>

definition fetchSingleMessage :: "usdc_api \<Rightarrow> byte list \<Rightarrow> AttestationStatus result" where
  "fetchSingleMessage api message =
     (let messageHash = uap_hash api message
      in case uap_get api messageHash of
           Error err \<Rightarrow> Ok (ErrorAttestationStatus err)
         | Panic \<Rightarrow> Panic
         | Ok body \<Rightarrow>
             (case attestationFromResponse api body of
                Error err \<Rightarrow> Ok (ErrorAttestationStatus err)
              | Panic \<Rightarrow> Panic
              | Ok response \<Rightarrow> Ok (SuccessAttestationStatus messageHash message response)))"

definition usdc_Attestations :: "usdc_api \<Rightarrow> token_bytes \<Rightarrow> attestations result" where
  "usdc_Attestations api messagesByChain = map_values_r (map_values_r (fetchSingleMessage api)) messagesByChain"

section \<open>lbtc/lbtc.go\<close>

record LBTCTokenDataObserver =
  lbo_destChainSelector :: ChainSelector
  lbo_supportedPoolsBySelector :: "(ChainSelector, string) gomap"
  lbo_client :: AttestationClient

definition lbtc_IsTokenSupported ::
  "(UnknownAddress \<Rightarrow> string) \<Rightarrow> LBTCTokenDataObserver \<Rightarrow> ChainSelector \<Rightarrow> RampTokenAmount \<Rightarrow> bool" where
  "lbtc_IsTokenSupported addrString ob sourceChain msgToken \<longleftrightarrow>
     EqualFold (pool_of (lbo_supportedPoolsBySelector ob) sourceChain) (addrString (rta_SourcePoolAddress msgToken)) \<and>
     length (rta_ExtraData msgToken) = 32"

definition pickOnlyLBTCMessages :: "(UnknownAddress \<Rightarrow> string) \<Rightarrow> LBTCTokenDataObserver \<Rightarrow> MessageObservations \<Rightarrow> token_bytes" where
  "pickOnlyLBTCMessages addrString ob messageObservations =
     pick_tokens (lbtc_IsTokenSupported addrString ob) rta_ExtraData messageObservations"

definition lbtc_attestationToTokenData :: "SeqNum \<Rightarrow> nat \<Rightarrow> (MessageTokenID, AttestationStatus) gomap \<Rightarrow> TokenData" where
  "lbtc_attestationToTokenData seqNr tokenIndex attestations =
     (case map_of attestations (seqNr, tokenIndex) of
        None \<Rightarrow> NewErrorTokenData ErrDataMissing
      | Some status \<Rightarrow>
          (case ats_Error status of Some err \<Rightarrow> NewErrorTokenData err | None \<Rightarrow> NewSuccessTokenData (ats_Attestation status)))"

definition createTokenDataObservations ::
  "(UnknownAddress \<Rightarrow> string) \<Rightarrow> LBTCTokenDataObserver \<Rightarrow> MessageObservations \<Rightarrow> attestations \<Rightarrow> TokenDataObservations" where
  "createTokenDataObservations addrString ob messages attestations = map_tokens (\<lambda>chainSelector seqNum i tokenAmount.
     if \<not> lbtc_IsTokenSupported addrString ob chainSelector tokenAmount then NotSupportedTokenData
     else lbtc_attestationToTokenData seqNum i (gm_inner attestations chainSelector)) messages"

definition lbtc_Observe :: "(UnknownAddress \<Rightarrow> string) \<Rightarrow> LBTCTokenDataObserver \<Rightarrow> MessageObservations \<Rightarrow> TokenDataObservations result" where
  "lbtc_Observe addrString ob observations =
     rbind (wrap_err ''failed to fetch attestations'' (lbo_client ob (pickOnlyLBTCMessages addrString ob observations)))
       (\<lambda>attestations. Ok (createTokenDataObservations addrString ob observations attestations))"

definition InitLBTCTokenDataObserver where
  "InitLBTCTokenDataObserver destChainSelector supportedPoolsBySelector client =
     \<lparr>lbo_destChainSelector = destChainSelector, lbo_supportedPoolsBySelector = supportedPoolsBySelector, lbo_client = client\<rparr>"

definition NewLBTCTokenDataObserver where
  "NewLBTCTokenDataObserver newClient destChainSelector lbtcConfig =
     rbind (wrap_err ''create attestation client'' newClient) (\<lambda>client.
       Ok (InitLBTCTokenDataObserver destChainSelector (loc_SourcePoolAddressByChain lbtcConfig) client))"

section \<open>lbtc/attestation.go\<close>

text \<open>\<open>post\<close> is the HTTP client with the encoded request, \<open>parse\<close> the JSON decoding, \<open>toString\<close> is
  \<open>cciptypes.Bytes.String\<close>.\<close>

record lbtc_Attestation =
  lat_MessageHash :: string
  lat_Status :: string
  lat_Data :: string

record AttestationResponse =
  lar_Attestations :: "lbtc_Attestation list"
  lar_Code :: int
  lar_Message :: string

record lbtc_api =
  lap_marshal :: "string list \<Rightarrow> byte list result"
  lap_post :: "byte list \<Rightarrow> byte list result"
  lap_parse :: "byte list \<Rightarrow> AttestationResponse result"
  lap_toBytes :: "string \<Rightarrow> error + byte list"
  lap_toString :: "byte list \<Rightarrow> string"

definition attestationToAttestationStatus :: "lbtc_api \<Rightarrow> lbtc_Attestation \<Rightarrow> AttestationStatus" where
  "attestationToAttestationStatus api attestation =
     (if lat_Status attestation = ''NOTARIZATION_STATUS_SUBMITTED'' \<or> lat_Status attestation = ''NOTARIZATION_STATUS_PENDING''
      then ErrorAttestationStatus ErrNotReady
      else if lat_Status attestation = ''NOTARIZATION_STATUS_FAILED'' \<or> lat_Status attestation = ''NOTARIZATION_STATUS_UNSPECIFIED''
      then ErrorAttestationStatus ErrUnknownResponse
      else case lap_toBytes api (lat_MessageHash attestation) of
             Inl err \<Rightarrow> ErrorAttestationStatus (Wrap ''failed to decode message hash in attestation'' err)
           | Inr payloadHashBytes \<Rightarrow>
               (case lap_toBytes api (lat_Data attestation) of
                  Inl err \<Rightarrow> ErrorAttestationStatus (Wrap ''failed to decode attestation'' err)
                | Inr attestationBytes \<Rightarrow> SuccessAttestationStatus payloadHashBytes [] attestationBytes))"

definition put_all :: "('k \<times> 'v) list \<Rightarrow> ('k, 'v) gomap \<Rightarrow> ('k, 'v) gomap" where
  "put_all kvs m = fold (\<lambda>(k, v). gm_put k v) kvs m"

definition fetchBatch :: "lbtc_api \<Rightarrow> string list \<Rightarrow> (string, AttestationStatus) gomap result" where
  "fetchBatch api messageHashes =
     rbind (wrap_err ''failed to marshal attestation request'' (lap_marshal api messageHashes)) (\<lambda>encodedRequest.
     case lap_post api encodedRequest of
       Panic \<Rightarrow> Panic
     | Error err \<Rightarrow> Ok (put_all (map (\<lambda>h. (h, ErrorAttestationStatus err)) messageHashes) [])
     | Ok respRaw \<Rightarrow>
         rbind (wrap_err ''failed to unmarshal attestation response'' (lap_parse api respRaw)) (\<lambda>resp.
           let attestations = (if lar_Code resp \<noteq> 0
                 then put_all (map (\<lambda>h. (h, ErrorAttestationStatus (Wrap ''attestation request failed'' (Err (lar_Message resp))))) messageHashes) []
                 else [])
           in Ok (put_all (map (\<lambda>a. (lat_MessageHash a, attestationToAttestationStatus api a)) (lar_Attestations resp)) attestations)))"

text \<open>The loop that fills batches. \<open>make\<close> with a negative capacity panics.\<close>

fun batch_loop ::
  "lbtc_api \<Rightarrow> int \<Rightarrow> string list \<Rightarrow> string list \<Rightarrow> (string, AttestationStatus) gomap \<Rightarrow>
   (string list \<times> (string, AttestationStatus) gomap) result" where
  "batch_loop api batchSize [] batch attestations = Ok (batch, attestations)"
| "batch_loop api batchSize (hash # hashes) batch attestations =
     (let batch = batch @ [hash]
      in if int (length batch) = batchSize
         then rbind (fetchBatch api batch) (\<lambda>batchAttestations. batch_loop api batchSize hashes [] (put_all batchAttestations attestations))
         else batch_loop api batchSize hashes batch attestations)"

definition token_hashes :: "lbtc_api \<Rightarrow> token_bytes \<Rightarrow> string list" where
  "token_hashes api messages = concat (map (\<lambda>(_, tokenDatas). map (\<lambda>(_, tokenData). lap_toString api tokenData) tokenDatas) messages)"

definition lbtc_Attestations :: "lbtc_api \<Rightarrow> int \<Rightarrow> token_bytes \<Rightarrow> attestations result" where
  "lbtc_Attestations api batchSize messages =
     (if batchSize < 0 then Panic
      else rbind (batch_loop api batchSize (token_hashes api messages) [] []) (\<lambda>(batch, attestations).
           rbind (if 0 < length batch
                  then rbind (fetchBatch api batch) (\<lambda>batchAttestations. Ok (put_all batchAttestations attestations))
                  else Ok attestations) (\<lambda>attestations.
             Ok (map_keyed (\<lambda>chainSelector tokenDatas. List.map_filter (\<lambda>(messageTokenID, tokenData).
               map_option (\<lambda>attestation. (messageTokenID, attestation)) (map_of attestations (lap_toString api tokenData))) tokenDatas)
               messages))))"

section \<open>The shape of token data\<close>

text \<open>What the interface asks of an observer: the answer has an entry for every message, with one element for each token.\<close>

definition same_shape :: "MessageObservations \<Rightarrow> TokenDataObservations \<Rightarrow> bool" where
  "same_shape msgs td \<longleftrightarrow> (\<forall>chain seq.
     rel_option (\<lambda>m d. length (msg_TokenAmounts m) = length (mtd_TokenData d)) (gm_get2 msgs chain seq) (gm_get2 td chain seq))"

definition data_at :: "TokenDataObservations \<Rightarrow> ChainSelector \<Rightarrow> SeqNum \<Rightarrow> nat \<Rightarrow> TokenData" where
  "data_at td chain seq i = mtd_TokenData (the (gm_get2 td chain seq)) ! i"

lemma map_of_map_keyed: "map_of (map_keyed f m) k = map_option (f k) (map_of m k)"
  by (induction m) (auto simp: map_keyed_def)

lemma keys_map_keyed [simp]: "map fst (map_keyed f m) = map fst m"
  by (induction m) (auto simp: map_keyed_def)

lemma gm_ok_map_keyed [simp]: "gm_ok (map_keyed f m) \<longleftrightarrow> gm_ok m"
  unfolding gm_ok_def keys_map_keyed ..

lemma map_keyed_cong: "(\<And>k v. (k, v) \<in> set m \<Longrightarrow> f k v = g k v) \<Longrightarrow> map_keyed f m = map_keyed g m"
  by (auto simp: map_keyed_def)

lemma gm_put_map_keyed:
  assumes "gm_ok m" and "map_of m k = Some v"
  shows "gm_put k w (map_keyed f m) = map_keyed (\<lambda>k' v'. if k' = k then w else f k' v') m"
  using assms
proof (induction m)
  case (Cons p m)
  obtain a b where p: "p = (a, b)" by (cases p)
  show ?case
  proof (cases "a = k")
    case True
    with Cons.prems(1) have "k \<notin> fst ` set m" by (simp add: p gm_ok_def)
    then have "map_keyed (\<lambda>k' v'. if k' = k then w else f k' v') m = map_keyed f m" by (intro map_keyed_cong) force
    with True show ?thesis by (simp add: p map_keyed_def)
  next
    case False
    with Cons show ?thesis by (simp add: p map_keyed_def gm_ok_def)
  qed
qed simp

lemma gm_get2_map_tokens:
  "gm_get2 (map_tokens f msgs) c s =
     map_option (\<lambda>m. \<lparr>mtd_TokenData = map (\<lambda>(i, t). f c s i t) (enumerate 0 (msg_TokenAmounts m))\<rparr>) (gm_get2 msgs c s)"
  unfolding map_tokens_def gm_get2_def map_of_map_keyed by (cases "map_of msgs c") (simp_all add: map_of_map_keyed)

lemma gm_ok2_map_keyed:
  assumes "\<And>k v. map fst (f k v) = map fst v"
  shows "gm_ok2 (map_keyed f m) \<longleftrightarrow> gm_ok2 m"
proof -
  have "gm_ok (f k v) \<longleftrightarrow> gm_ok v" for k v by (simp only: gm_ok_def assms)
  then have "(\<forall>(_, w) \<in> set (map_keyed f m). gm_ok w) \<longleftrightarrow> (\<forall>(_, v) \<in> set m. gm_ok v)" by (induction m) (auto simp: map_keyed_def)
  then show ?thesis unfolding gm_ok2_def gm_ok_map_keyed by (rule conj_cong [OF refl])
qed

lemma gm_ok2_map_tokens [simp]: "gm_ok2 (map_tokens f msgs) \<longleftrightarrow> gm_ok2 msgs"
  unfolding map_tokens_def by (rule gm_ok2_map_keyed) simp

lemma same_shape_entry:
  assumes "same_shape msgs td"
  shows "gm_get2 td c s = Some d \<Longrightarrow> \<exists>m. gm_get2 msgs c s = Some m \<and> length (mtd_TokenData d) = length (msg_TokenAmounts m)"
    and "gm_get2 msgs c s = Some m \<Longrightarrow> \<exists>d. gm_get2 td c s = Some d \<and> length (mtd_TokenData d) = length (msg_TokenAmounts m)"
  using assms [unfolded same_shape_def, rule_format, of c s] by (auto simp: option_rel_Some1 option_rel_Some2)

lemma map_tokens_shape: "same_shape msgs (map_tokens f msgs)"
  unfolding same_shape_def gm_get2_map_tokens by (auto simp: option.rel_map option.rel_refl)

lemma map_tokens_at:
  assumes "gm_get2 msgs c s = Some m" and "i < length (msg_TokenAmounts m)"
  shows "data_at (map_tokens f msgs) c s i = f c s i (msg_TokenAmounts m ! i)"
  using assms by (simp add: data_at_def gm_get2_map_tokens nth_enumerate_eq)

lemma map_tokens_cong:
  assumes "gm_ok2 msgs" and "\<And>c s m i. gm_get2 msgs c s = Some m \<Longrightarrow> i < length (msg_TokenAmounts m) \<Longrightarrow>
    f c s i (msg_TokenAmounts m ! i) = g c s i (msg_TokenAmounts m ! i)"
  shows "map_tokens f msgs = map_tokens g msgs"
  unfolding map_tokens_def
proof (intro map_keyed_cong)
  fix c ms s m assume "(c, ms) \<in> set msgs" "(s, m) \<in> set ms"
  with assms(1) have "map_of msgs c = Some ms" by (simp add: gm_ok2_def gm_get_iff)
  with gm_ok2_inner [OF assms(1) this] \<open>(s, m) \<in> set ms\<close> have "gm_get2 msgs c s = Some m" by (simp add: gm_get2_def gm_get_iff)
  then show "\<lparr>mtd_TokenData = map (\<lambda>(i, token). f c s i token) (enumerate 0 (msg_TokenAmounts m))\<rparr> =
      \<lparr>mtd_TokenData = map (\<lambda>(i, token). g c s i token) (enumerate 0 (msg_TokenAmounts m))\<rparr>"
    using assms(2) by (auto simp: in_set_enumerate_eq)
qed

text \<open>The contract of \<open>TokenDataObserver\<close>.\<close>

locale token_data_observer =
  fixes observe :: "MessageObservations \<Rightarrow> TokenDataObservations result"
    and supported :: "ChainSelector \<Rightarrow> RampTokenAmount \<Rightarrow> bool"
  assumes observe_ok: "gm_ok2 msgs \<Longrightarrow> observe msgs = Ok td \<Longrightarrow> gm_ok2 td"
    and observe_shape: "gm_ok2 msgs \<Longrightarrow> observe msgs = Ok td \<Longrightarrow> same_shape msgs td"
    and observe_unsupported: "gm_ok2 msgs \<Longrightarrow> observe msgs = Ok td \<Longrightarrow> gm_get2 msgs c s = Some m \<Longrightarrow>
      i < length (msg_TokenAmounts m) \<Longrightarrow> \<not> supported c (msg_TokenAmounts m ! i) \<Longrightarrow> \<not> td_Supported (data_at td c s i)"
begin

lemmas observe_entry = same_shape_entry [OF observe_shape]

lemma supported_only: "gm_ok2 msgs \<Longrightarrow> observe msgs = Ok td \<Longrightarrow> gm_get2 msgs c s = Some m \<Longrightarrow>
    i < length (msg_TokenAmounts m) \<Longrightarrow> td_Supported (data_at td c s i) \<Longrightarrow> supported c (msg_TokenAmounts m ! i)"
  using observe_unsupported by blast

end

text \<open>An observer that walks over the tokens and answers \<open>NotSupportedTokenData\<close> for those it does not support.\<close>

lemma token_data_observerI:
  assumes "\<And>msgs td. observe msgs = Ok td \<Longrightarrow>
    \<exists>f. td = map_tokens (\<lambda>c s i t. if \<not> supported c t then NotSupportedTokenData else f c s i t) msgs"
  shows "token_data_observer observe supported"
proof
  fix msgs td assume ok: "gm_ok2 msgs" and ob: "observe msgs = Ok td"
  then obtain f where td: "td = map_tokens (\<lambda>c s i t. if \<not> supported c t then NotSupportedTokenData else f c s i t) msgs"
    using assms by blast
  show "gm_ok2 td" using ok by (simp add: td)
  show "same_shape msgs td" unfolding td by (rule map_tokens_shape)
  show "\<not> td_Supported (data_at td c s i)" if "gm_get2 msgs c s = Some m" "i < length (msg_TokenAmounts m)"
    "\<not> supported c (msg_TokenAmounts m ! i)" for c s m i
    using that by (simp add: td map_tokens_at NotSupportedTokenData_def)
qed

interpretation usdc: token_data_observer "usdc_Observe addrString u" "usdc_IsTokenSupported addrString u" for addrString u
  by (rule token_data_observerI) (auto simp: usdc_Observe_def rbind_Ok_iff extractTokenData_def)

interpretation lbtc: token_data_observer "lbtc_Observe addrString ob" "lbtc_IsTokenSupported addrString ob" for addrString ob
  by (rule token_data_observerI) (auto simp: lbtc_Observe_def rbind_Ok_iff createTokenDataObservations_def)

section \<open>The composite observer\<close>

lemma gm_put2_map_tokens:
  assumes "gm_ok2 msgs" and "gm_get2 msgs c s = Some m" and "length xs = length (msg_TokenAmounts m)"
  shows "gm_put2 c s \<lparr>mtd_TokenData = xs\<rparr> (map_tokens f msgs) = map_tokens (\<lambda>c' s' i t. if c' = c \<and> s' = s then xs ! i else f c' s' i t) msgs"
proof -
  obtain ms where ms: "map_of msgs c = Some ms" "map_of ms s = Some m"
    using assms(2) by (auto simp: gm_get2_def split: option.splits)
  have ok: "gm_ok msgs" "gm_ok ms" using assms(1) map_of_SomeD [OF ms(1)] by (auto simp: gm_ok2_def)
  let ?in = "\<lambda>f c ms. map_keyed (\<lambda>seq msg. \<lparr>mtd_TokenData = map (\<lambda>(i, token). f c seq i token) (enumerate 0 (msg_TokenAmounts msg))\<rparr>) ms"
  have inner: "gm_inner (map_tokens f msgs) c = ?in f c ms"
    by (simp add: gm_inner_def map_tokens_def map_of_map_keyed ms(1))
  have xs: "map (\<lambda>(i, token). xs ! i) (enumerate 0 (msg_TokenAmounts m)) = xs"
    using assms(3) by (intro nth_equalityI) (simp_all add: nth_enumerate_eq)
  have "gm_put s \<lparr>mtd_TokenData = xs\<rparr> (?in f c ms) = ?in (\<lambda>c' s' i t. if c' = c \<and> s' = s then xs ! i else f c' s' i t) c ms"
    unfolding gm_put_map_keyed [OF ok(2) ms(2)]
    by (rule map_keyed_cong) (use ok(2) ms(2) xs in \<open>auto simp: gm_get_iff [symmetric]\<close>)
  then show ?thesis
    unfolding gm_put2_def inner unfolding map_tokens_def gm_put_map_keyed [OF ok(1) ms(1)]
    by (intro map_keyed_cong) (use ok(1) ms(1) in \<open>auto simp: gm_get_iff [symmetric]\<close>)
qed

lemma merge_messages_map_tokens:
  assumes "gm_ok2 msgs" and "gm_ok inner"
    and "\<And>s d. (s, d) \<in> set inner \<Longrightarrow> \<exists>m. gm_get2 msgs c s = Some m \<and> length (mtd_TokenData d) = length (msg_TokenAmounts m)"
  shows "merge_messages c inner (map_tokens f msgs) = (map_tokens (\<lambda>c' s i t. case (if c' = c then map_of inner s else None) of
    None \<Rightarrow> f c' s i t | Some d \<Rightarrow> merge_token (f c' s i t) (mtd_TokenData d ! i)) msgs, Ok ())"
  using assms(2,3)
proof (induction inner arbitrary: f)
  case (Cons p inner)
  obtain s d where p: "p = (s, d)" by (cases p)
  obtain m where m: "gm_get2 msgs c s = Some m" "length (mtd_TokenData d) = length (msg_TokenAmounts m)" using Cons.prems(2) p by auto
  let ?old = "map (\<lambda>(i, t). f c s i t) (enumerate 0 (msg_TokenAmounts m))"
  have s: "map_of inner s = None" using Cons.prems(1) by (simp add: p gm_ok_def map_of_eq_None_iff)
  have get: "gm_get2 (map_tokens f msgs) c s = Some \<lparr>mtd_TokenData = ?old\<rparr>" by (simp add: gm_get2_map_tokens m(1))
  let ?g = "\<lambda>c' s' i t. if c' = c \<and> s' = s then map2 merge_token ?old (mtd_TokenData d) ! i else f c' s' i t"
  have put: "gm_put2 c s \<lparr>mtd_TokenData = map2 merge_token ?old (mtd_TokenData d)\<rparr> (map_tokens f msgs) = map_tokens ?g msgs"
    by (rule gm_put2_map_tokens [OF assms(1) m(1)]) (simp add: m(2))
  have IH: "merge_messages c inner (map_tokens ?g msgs) = (map_tokens (\<lambda>c' s i t. case (if c' = c then map_of inner s else None) of
      None \<Rightarrow> ?g c' s i t | Some d \<Rightarrow> merge_token (?g c' s i t) (mtd_TokenData d ! i)) msgs, Ok ())"
    using Cons.IH [of ?g] Cons.prems by (simp add: p gm_ok_def)
  have "merge_messages c (p # inner) (map_tokens f msgs) = merge_messages c inner (map_tokens ?g msgs)"
    by (simp add: p get m(2) put)
  also have "\<dots> = (map_tokens (\<lambda>c' s i t. case (if c' = c then map_of (p # inner) s else None) of
      None \<Rightarrow> f c' s i t | Some d \<Rightarrow> merge_token (f c' s i t) (mtd_TokenData d ! i)) msgs, Ok ())"
    unfolding IH by (intro arg_cong2 [of _ _ _ _ Pair] map_tokens_cong [OF assms(1)] refl)
      (use m s in \<open>auto simp: p nth_enumerate_eq\<close>)
  finally show ?case .
qed (auto intro!: map_tokens_cong [OF assms(1)])

lemma merge_observations_map_tokens:
  assumes "gm_ok2 msgs" and "gm_ok2 td"
    and "\<And>c s d. gm_get2 td c s = Some d \<Longrightarrow> \<exists>m. gm_get2 msgs c s = Some m \<and> length (mtd_TokenData d) = length (msg_TokenAmounts m)"
  shows "merge_observations (map_tokens f msgs) td = (map_tokens (\<lambda>c s i t. case gm_get2 td c s of
    None \<Rightarrow> f c s i t | Some d \<Rightarrow> merge_token (f c s i t) (mtd_TokenData d ! i)) msgs, Ok ())"
  using assms(2,3)
proof (induction td arbitrary: f)
  case (Cons p td)
  obtain c inner where p: "p = (c, inner)" by (cases p)
  have ok: "gm_ok inner" "gm_ok2 td" "map_of td c = None"
    using Cons.prems(1) by (auto simp: p gm_ok2_def gm_ok_def map_of_eq_None_iff)
  have entry: "\<exists>m. gm_get2 msgs c s = Some m \<and> length (mtd_TokenData d) = length (msg_TokenAmounts m)" if "(s, d) \<in> set inner" for s d
  proof -
    have "gm_get2 (p # td) c s = Some d" using that ok(1) by (simp add: p gm_get2_def gm_get_iff)
    then show ?thesis by (rule Cons.prems(2))
  qed
  have rest: "\<exists>m. gm_get2 msgs c' s = Some m \<and> length (mtd_TokenData d) = length (msg_TokenAmounts m)"
    if "gm_get2 td c' s = Some d" for c' s d
  proof -
    have "c' \<noteq> c" using that ok(3) by (auto simp: gm_get2_def)
    with that have "gm_get2 (p # td) c' s = Some d" by (simp add: p gm_get2_def)
    then show ?thesis by (rule Cons.prems(2))
  qed
  let ?g = "\<lambda>c' s i t. case (if c' = c then map_of inner s else None) of
      None \<Rightarrow> f c' s i t | Some d \<Rightarrow> merge_token (f c' s i t) (mtd_TokenData d ! i)"
  have "merge_observations (map_tokens f msgs) (p # td) = merge_observations (map_tokens ?g msgs) td"
    using merge_messages_map_tokens [OF assms(1) ok(1) entry] by (simp add: p)
  also have "\<dots> = (map_tokens (\<lambda>c s i t. case gm_get2 td c s of
      None \<Rightarrow> ?g c s i t | Some d \<Rightarrow> merge_token (?g c s i t) (mtd_TokenData d ! i)) msgs, Ok ())"
    by (rule Cons.IH [OF ok(2) rest])
  also have "\<dots> = (map_tokens (\<lambda>c s i t. case gm_get2 (p # td) c s of
      None \<Rightarrow> f c s i t | Some d \<Rightarrow> merge_token (f c s i t) (mtd_TokenData d ! i)) msgs, Ok ())"
    by (intro arg_cong2 [of _ _ _ _ Pair] map_tokens_cong [OF assms(1)] refl) (use ok(3) in \<open>auto simp: p gm_get2_def split: option.split\<close>)
  finally show ?case .
qed (simp add: gm_get2_def)

text \<open>The answers of the observers for one token, in the order of the observers; an observer that fails has none.\<close>

definition answers_at :: "TokenDataObserver list \<Rightarrow> MessageObservations \<Rightarrow> ChainSelector \<Rightarrow> SeqNum \<Rightarrow> nat \<Rightarrow> TokenData list" where
  "answers_at observers msgs c s i = List.map_filter (\<lambda>ob. case tob_Observe ob msgs of
     Ok td \<Rightarrow> if td_Supported (data_at td c s i) then Some (data_at td c s i) else None | _ \<Rightarrow> None) observers"

text \<open>The reference: the first ready answer; without one, the last answer, and before any answer \<open>start\<close>.\<close>

definition resolve :: "TokenData \<Rightarrow> TokenData list \<Rightarrow> TokenData" where
  "resolve start answers =
     (if td_Ready start then start else case List.find td_Ready answers of Some d \<Rightarrow> d | None \<Rightarrow> last (start # answers))"

lemma resolve_Cons: "td_Supported d \<Longrightarrow> resolve start (d # ds) = resolve (merge_token start d) ds"
  by (auto simp: resolve_def merge_token_def split: option.split)

lemma resolve_find:
  assumes "\<not> td_Ready start"
  shows "case List.find td_Ready ds of Some d \<Rightarrow> resolve start ds = d | None \<Rightarrow> \<not> td_Ready (resolve start ds)"
proof (cases "List.find td_Ready ds")
  case None
  then have "\<forall>d \<in> set ds. \<not> td_Ready d" by (auto simp: find_None_iff)
  moreover have "last (start # ds) \<in> set (start # ds)" by (rule last_in_set) simp
  ultimately have "\<not> td_Ready (last (start # ds))" using assms by auto
  with None assms show ?thesis by (simp add: resolve_def)
qed (use assms in \<open>simp add: resolve_def\<close>)

lemma composite_fold:
  assumes "gm_ok2 msgs" and "\<forall>ob \<in> set obs. token_data_observer (tob_Observe ob) (tob_IsTokenSupported ob)"
    and "\<forall>ob \<in> set obs. tob_Observe ob msgs \<noteq> Panic"
  shows "fold (\<lambda>ob r. rbind r (\<lambda>tokenDataObservations.
             case tob_Observe ob msgs of
               Ok tokenData \<Rightarrow> Ok (fst (merge_observations tokenDataObservations tokenData))
             | Error err \<Rightarrow> Ok tokenDataObservations
             | Panic \<Rightarrow> Panic)) obs (Ok (map_tokens f msgs)) =
    Ok (map_tokens (\<lambda>c s i t. resolve (f c s i t) (answers_at obs msgs c s i)) msgs)"
  using assms(2,3)
proof (induction obs arbitrary: f)
  case Nil
  then show ?case by (auto simp: answers_at_def resolve_def map_filter_simps intro!: map_tokens_cong [OF assms(1)])
next
  case (Cons ob obs)
  show ?case
  proof (cases "tob_Observe ob msgs")
    case (Ok td)
    have ob: "token_data_observer (tob_Observe ob) (tob_IsTokenSupported ob)" using Cons.prems(1) by simp
    note entry = token_data_observer.observe_entry [OF ob assms(1) Ok]
    let ?g = "\<lambda>c s i t. case gm_get2 td c s of None \<Rightarrow> f c s i t | Some d \<Rightarrow> merge_token (f c s i t) (mtd_TokenData d ! i)"
    have merged: "fst (merge_observations (map_tokens f msgs) td) = map_tokens ?g msgs"
      using merge_observations_map_tokens [OF assms(1) token_data_observer.observe_ok [OF ob assms(1) Ok] entry(1)] by simp
    have "resolve (?g c s i t) (answers_at obs msgs c s i) = resolve (f c s i t) (answers_at (ob # obs) msgs c s i)"
      if m: "gm_get2 msgs c s = Some m" for c s i t m
    proof -
      obtain d where d: "gm_get2 td c s = Some d" using entry(2) [OF m] by blast
      show ?thesis
        by (cases "td_Supported (mtd_TokenData d ! i)")
          (simp_all add: answers_at_def map_filter_simps Ok data_at_def d resolve_Cons, simp add: merge_token_def)
    qed
    then have "map_tokens (\<lambda>c s i t. resolve (?g c s i t) (answers_at obs msgs c s i)) msgs =
        map_tokens (\<lambda>c s i t. resolve (f c s i t) (answers_at (ob # obs) msgs c s i)) msgs"
      by (intro map_tokens_cong [OF assms(1)])
    with Cons.IH [of ?g] Cons.prems show ?thesis by (simp add: Ok merged)
  next
    case (Error e)
    with Cons show ?thesis by (simp add: answers_at_def map_filter_simps)
  next
    case Panic
    with Cons.prems(2) show ?thesis by simp
  qed
qed

lemma composite_Observe_resolve:
  assumes "gm_ok2 msgs" and "\<forall>ob \<in> set observers. token_data_observer (tob_Observe ob) (tob_IsTokenSupported ob)"
    and "\<forall>ob \<in> set observers. tob_Observe ob msgs \<noteq> Panic"
  shows "composite_Observe observers msgs = Ok (map_tokens (\<lambda>c s i t.
    resolve (if \<not> composite_IsTokenSupported observers c t then NewNoopTokenData else TokenData_zero\<lparr>td_Ready := False, td_Supported := True\<rparr>)
      (answers_at observers msgs c s i)) msgs)"
  unfolding composite_Observe_def initTokenDataObservations_def by (rule composite_fold [OF assms])

text \<open>C11. The composite observer keeps the contract of its parts. When every registered observer does what the interface asks and none
  panics, \<open>Observe\<close> returns token data of the shape of the messages. A token that no observer supports is ready without
  data. The data of any other token is the first ready answer of the observers that support it, in their order; while there
  is none it is not ready. An observer that fails does not change what the others answer.\<close>

theorem composite_Observe_spec:
  assumes "gm_ok2 msgs" and "\<forall>ob \<in> set observers. token_data_observer (tob_Observe ob) (tob_IsTokenSupported ob)"
    and "\<forall>ob \<in> set observers. tob_Observe ob msgs \<noteq> Panic"
  shows "\<exists>td. composite_Observe observers msgs = Ok td \<and> same_shape msgs td \<and>
    (\<forall>c s m i. gm_get2 msgs c s = Some m \<and> i < length (msg_TokenAmounts m) \<longrightarrow>
      (if \<exists>ob \<in> set observers. tob_IsTokenSupported ob c (msg_TokenAmounts m ! i)
       then (case List.find td_Ready (answers_at observers msgs c s i) of
               Some d \<Rightarrow> data_at td c s i = d | None \<Rightarrow> \<not> td_Ready (data_at td c s i))
       else data_at td c s i = NewNoopTokenData))"
proof -
  obtain td where td: "composite_Observe observers msgs = Ok td" "td = map_tokens (\<lambda>c s i t.
      resolve (if \<not> composite_IsTokenSupported observers c t then NewNoopTokenData else TokenData_zero\<lparr>td_Ready := False, td_Supported := True\<rparr>)
        (answers_at observers msgs c s i)) msgs"
    using composite_Observe_resolve [OF assms] by blast
  have "if \<exists>ob \<in> set observers. tob_IsTokenSupported ob c (msg_TokenAmounts m ! i)
       then (case List.find td_Ready (answers_at observers msgs c s i) of
               Some d \<Rightarrow> data_at td c s i = d | None \<Rightarrow> \<not> td_Ready (data_at td c s i))
       else data_at td c s i = NewNoopTokenData"
    if "gm_get2 msgs c s = Some m" "i < length (msg_TokenAmounts m)" for c s m i
  proof (cases "composite_IsTokenSupported observers c (msg_TokenAmounts m ! i)")
    case True
    then have eq: "data_at td c s i = resolve (TokenData_zero\<lparr>td_Ready := False, td_Supported := True\<rparr>) (answers_at observers msgs c s i)"
      unfolding td(2) by (simp add: map_tokens_at [OF that])
    have "\<not> td_Ready (TokenData_zero\<lparr>td_Ready := False, td_Supported := True\<rparr>)" by simp
    from resolve_find [OF this] True show ?thesis
      unfolding eq composite_IsTokenSupported_def list_ex_iff by (simp only: if_True)
  next
    case False
    then have "data_at td c s i = resolve NewNoopTokenData (answers_at observers msgs c s i)"
      unfolding td(2) by (simp add: map_tokens_at [OF that])
    also have "\<dots> = NewNoopTokenData" by (simp add: resolve_def NewNoopTokenData_def)
    finally show ?thesis using False by (simp add: composite_IsTokenSupported_def list_ex_iff)
  qed
  then show ?thesis using td map_tokens_shape by blast
qed

section \<open>Batches of the LBTC client\<close>

text \<open>The reference: the hashes cut into pieces of the configured size, the last one shorter; size 0 makes one piece.\<close>

fun pieces :: "nat \<Rightarrow> 'a list \<Rightarrow> 'a list list" where
  "pieces n xs = (if xs = [] then [] else if n = 0 then [xs] else take n xs # pieces n (drop n xs))"

declare pieces.simps [simp del]

lemma pieces_Nil [simp]: "pieces n [] = []"
  by (simp add: pieces.simps)

lemma pieces_short: "xs \<noteq> [] \<Longrightarrow> n = 0 \<or> length xs < n \<Longrightarrow> pieces n xs = [xs]"
  by (subst pieces.simps) auto

lemma pieces_full: "length xs = n \<Longrightarrow> 0 < n \<Longrightarrow> pieces n (xs @ ys) = xs # pieces n ys"
  by (subst pieces.simps) auto

lemma concat_pieces: "concat (pieces n xs) = xs"
  by (induction n xs rule: pieces.induct) (subst pieces.simps, simp)

lemma pieces_bounded: "0 < n \<Longrightarrow> c \<in> set (pieces n xs) \<Longrightarrow> 0 < length c \<and> length c \<le> n"
proof (induction n xs rule: pieces.induct)
  case (1 n xs)
  then show ?case by (cases "xs = []") (auto simp: pieces.simps [of n xs])
qed

lemma batch_loop_pieces:
  assumes "0 \<le> batchSize" and "batchSize = 0 \<or> int (length batch) < batchSize"
  shows "rbind (batch_loop api batchSize hashes batch att) (\<lambda>(batch, att).
      if 0 < length batch then rbind (fetchBatch api batch) (\<lambda>r. Ok (put_all r att)) else Ok att) =
    rbind (traverse_r (fetchBatch api) (pieces (nat batchSize) (batch @ hashes))) (\<lambda>rs. Ok (fold put_all rs att))"
  using assms(2)
proof (induction hashes arbitrary: batch att)
  case Nil
  show ?case
  proof (cases "batch = []")
    case False
    with Nil have "pieces (nat batchSize) batch = [batch]" by (intro pieces_short) auto
    with False show ?thesis by (cases "fetchBatch api batch") simp_all
  qed simp
next
  case (Cons h hs)
  show ?case
  proof (cases "int (length (batch @ [h])) = batchSize")
    case True
    then have "length (batch @ [h]) = nat batchSize" "0 < nat batchSize" by simp_all
    from pieces_full [OF this, of hs] have "pieces (nat batchSize) (batch @ h # hs) = (batch @ [h]) # pieces (nat batchSize) hs" by simp
    moreover have "rbind (batch_loop api batchSize hs [] att') (\<lambda>(batch, att).
        if 0 < length batch then rbind (fetchBatch api batch) (\<lambda>r. Ok (put_all r att)) else Ok att) =
      rbind (traverse_r (fetchBatch api) (pieces (nat batchSize) hs)) (\<lambda>rs. Ok (fold put_all rs att'))" for att'
      using Cons.IH [of "[]" att'] True by simp
    ultimately show ?thesis using True by (cases "fetchBatch api (batch @ [h])") (simp_all add: Let_def rbind_assoc)
  next
    case False
    with Cons.prems have "batchSize = 0 \<or> int (length (batch @ [h])) < batchSize" by auto
    from Cons.IH [OF this, of att] False show ?thesis by (simp add: Let_def)
  qed
qed

text \<open>C18. The LBTC client asks for every requested hash exactly once, in order, in requests of at most the configured
  number of hashes, and merges the answers: its loop is the same as cutting the list of hashes into pieces and asking
  for each piece. A token has an entry in the result exactly when its hash is in the merged answers.\<close>

theorem lbtc_Attestations_batches:
  assumes "0 < batchSize"
  shows "lbtc_Attestations api batchSize messages =
      rbind (traverse_r (fetchBatch api) (pieces (nat batchSize) (token_hashes api messages))) (\<lambda>rs.
        Ok (map_keyed (\<lambda>_ tokenDatas. List.map_filter (\<lambda>(ident, tokenData).
          map_option (Pair ident) (map_of (fold put_all rs []) (lap_toString api tokenData))) tokenDatas) messages)) \<and>
    concat (pieces (nat batchSize) (token_hashes api messages)) = token_hashes api messages \<and>
    (\<forall>c \<in> set (pieces (nat batchSize) (token_hashes api messages)). 0 < length c \<and> int (length c) \<le> batchSize)"
proof (intro conjI)
  let ?out = "\<lambda>att. Ok (map_keyed (\<lambda>_ tokenDatas. List.map_filter (\<lambda>(ident, tokenData).
      map_option (Pair ident) (map_of att (lap_toString api tokenData))) tokenDatas) messages)"
  have "lbtc_Attestations api batchSize messages =
      rbind (rbind (batch_loop api batchSize (token_hashes api messages) [] []) (\<lambda>(batch, att).
        if 0 < length batch then rbind (fetchBatch api batch) (\<lambda>r. Ok (put_all r att)) else Ok att)) ?out"
    using assms unfolding lbtc_Attestations_def rbind_assoc 
    by (cases "batch_loop api batchSize (token_hashes api messages) [] []") (auto split: prod.split)
  also have "\<dots> = rbind (traverse_r (fetchBatch api) (pieces (nat batchSize) (token_hashes api messages))) (\<lambda>rs. ?out (fold put_all rs []))"
    using assms batch_loop_pieces [of batchSize "[]" api "token_hashes api messages" "[]"] by (simp add: rbind_assoc)
  finally show "lbtc_Attestations api batchSize messages =
    rbind (traverse_r (fetchBatch api) (pieces (nat batchSize) (token_hashes api messages))) (\<lambda>rs. ?out (fold put_all rs []))" .
  show "\<forall>c \<in> set (pieces (nat batchSize) (token_hashes api messages)). 0 < length c \<and> int (length c) \<le> batchSize"
    using assms pieces_bounded [of "nat batchSize" _ "token_hashes api messages"] by (auto simp: nat_le_eq_zle le_nat_iff)
qed (rule concat_pieces)

section \<open>Examples\<close>

definition ex_token :: "byte \<Rightarrow> RampTokenAmount" where
  "ex_token pool = \<lparr>rta_SourcePoolAddress = [pool], rta_DestTokenAddress = [], rta_ExtraData = replicate 32 pool, rta_Amount = Some 1, rta_DestExecData = []\<rparr>"

definition ex_token_msgs :: MessageObservations where
  "ex_token_msgs = [(1, [(7, Message_zero\<lparr>msg_TokenAmounts := [ex_token 1, ex_token 2, ex_token 3]\<rparr>)])]"

definition ex_addrString :: "UnknownAddress \<Rightarrow> string" where
  "ex_addrString a = (if a = [1] then ''0xA'' else if a = [2] then ''0xb'' else ''0xC'')"

definition ex_usdc :: USDCTokenDataObserver where
  "ex_usdc = \<lparr>uso_destChainSelector = 9, uso_supportedPoolsBySelector = [(1, ''0xa'')], uso_attestationEncoder = (\<lambda>body att. Inr (body @ att)),
     uso_usdcMessageReader = (\<lambda>source dest tokens. Ok (map_keyed (\<lambda>_ _. [4]) tokens)),
     uso_attestationClient = usdc_Attestations \<lparr>uap_hash = (\<lambda>m. m), uap_get = (\<lambda>h. Ok h),
       uap_parse = (\<lambda>b. Ok \<lparr>hrs_Status = ''complete'', hrs_Attestation = ''05'', hrs_Error = []\<rparr>), uap_toBytes = (\<lambda>s. Ok [5])\<rparr>\<rparr>"

definition ex_lbtc_api :: lbtc_api where
  "ex_lbtc_api = \<lparr>lap_marshal = (\<lambda>hs. Ok (map (\<lambda>h. of_nat (length h)) hs)), lap_post = (\<lambda>b. Ok b),
     lap_parse = (\<lambda>b. Ok \<lparr>lar_Attestations = map (\<lambda>h. \<lparr>lat_MessageHash = replicate (unat h) (CHR ''x''), lat_Status = ''NOTARIZATION_STATUS_PENDING'', lat_Data = []\<rparr>) b,
       lar_Code = 0, lar_Message = []\<rparr>),
     lap_toBytes = (\<lambda>s. Inr []), lap_toString = (\<lambda>b. replicate (unat (hd b)) (CHR ''x''))\<rparr>"

definition ex_lbtc :: LBTCTokenDataObserver where
  "ex_lbtc = \<lparr>lbo_destChainSelector = 9, lbo_supportedPoolsBySelector = [(1, ''0xB'')], lbo_client = lbtc_Attestations ex_lbtc_api 2\<rparr>"

definition ex_observers :: "TokenDataObserver list" where
  "ex_observers =
     [\<lparr>tob_Observe = usdc_Observe ex_addrString ex_usdc, tob_IsTokenSupported = usdc_IsTokenSupported ex_addrString ex_usdc\<rparr>,
      \<lparr>tob_Observe = lbtc_Observe ex_addrString ex_lbtc, tob_IsTokenSupported = lbtc_IsTokenSupported ex_addrString ex_lbtc\<rparr>]"

lemma ex_usdc_Observe: "usdc_Observe ex_addrString ex_usdc ex_token_msgs =
    Ok [(1, [(7, \<lparr>mtd_TokenData = [NewSuccessTokenData [4, 5], NotSupportedTokenData, NotSupportedTokenData]\<rparr>)])]"
  by code_simp

lemma ex_lbtc_Observe: "lbtc_Observe ex_addrString ex_lbtc ex_token_msgs =
    Ok [(1, [(7, \<lparr>mtd_TokenData = [NotSupportedTokenData, NewErrorTokenData ErrNotReady, NotSupportedTokenData]\<rparr>)])]"
  by code_simp

text \<open>USDC, LBTC and an ordinary token in one message: the first is attested, the second still pending.\<close>

theorem composite_Observe_spec_witness:
  "\<exists>td. composite_Observe ex_observers ex_token_msgs = Ok td \<and> data_at td 1 7 0 = NewSuccessTokenData [4, 5] \<and>
     \<not> td_Ready (data_at td 1 7 1) \<and> data_at td 1 7 2 = NewNoopTokenData"
proof -
  have ok: "gm_ok2 ex_token_msgs" by code_simp
  have "\<forall>ob \<in> set ex_observers. token_data_observer (tob_Observe ob) (tob_IsTokenSupported ob)"
    by (simp add: ex_observers_def usdc.token_data_observer_axioms lbtc.token_data_observer_axioms)
  moreover have "\<forall>ob \<in> set ex_observers. tob_Observe ob ex_token_msgs \<noteq> Panic"
    by (simp add: ex_observers_def ex_usdc_Observe ex_lbtc_Observe)
  ultimately obtain td where td: "composite_Observe ex_observers ex_token_msgs = Ok td"
    "\<And>c s m i. gm_get2 ex_token_msgs c s = Some m \<and> i < length (msg_TokenAmounts m) \<longrightarrow>
      (if \<exists>ob \<in> set ex_observers. tob_IsTokenSupported ob c (msg_TokenAmounts m ! i)
       then (case List.find td_Ready (answers_at ex_observers ex_token_msgs c s i) of
               Some d \<Rightarrow> data_at td c s i = d | None \<Rightarrow> \<not> td_Ready (data_at td c s i))
       else data_at td c s i = NewNoopTokenData)"
    using composite_Observe_spec [OF ok] by blast
  let ?m = "Message_zero\<lparr>msg_TokenAmounts := [ex_token 1, ex_token 2, ex_token 3]\<rparr>"
  have m: "gm_get2 ex_token_msgs 1 7 = Some ?m" by (simp add: gm_get2_def ex_token_msgs_def)
  have answers: "answers_at ex_observers ex_token_msgs 1 7 0 = [NewSuccessTokenData [4, 5]]"
    "answers_at ex_observers ex_token_msgs 1 7 1 = [NewErrorTokenData ErrNotReady]"
    by (simp_all add: answers_at_def ex_observers_def map_filter_simps ex_usdc_Observe ex_lbtc_Observe data_at_def gm_get2_def
        NewSuccessTokenData_def NewErrorTokenData_def NotSupportedTokenData_def)
  have supp: "\<exists>ob \<in> set ex_observers. tob_IsTokenSupported ob 1 (ex_token 1)"
    "\<exists>ob \<in> set ex_observers. tob_IsTokenSupported ob 1 (ex_token 2)"
    "\<not> (\<exists>ob \<in> set ex_observers. tob_IsTokenSupported ob 1 (ex_token 3))"
    by code_simp+
  have "data_at td 1 7 0 = NewSuccessTokenData [4, 5]"
    using td(2) [of 1 7 ?m 0] m answers(1) supp(1) by (simp add: NewSuccessTokenData_def)
  moreover have "\<not> td_Ready (data_at td 1 7 1)"
    using td(2) [of 1 7 ?m 1] m answers(2) supp(2) by (simp add: NewErrorTokenData_def)
  moreover have "data_at td 1 7 2 = NewNoopTokenData" using td(2) [of 1 7 ?m 2] m supp(3) by simp
  ultimately show ?thesis using td(1) by blast
qed

text \<open>Three hashes in batches of two: two requests; the first and the last token have the same hash.\<close>

theorem lbtc_Attestations_batches_witness:
  "lbtc_Attestations ex_lbtc_api 2 [(1, [((7, 0), [1]), ((7, 2), [2]), ((8, 0), [1])])] =
     Ok [(1, [((7, 0), ErrorAttestationStatus ErrNotReady), ((7, 2), ErrorAttestationStatus ErrNotReady), ((8, 0), ErrorAttestationStatus ErrNotReady)])] \<and>
   pieces 2 (token_hashes ex_lbtc_api [(1, [((7, 0), [1]), ((7, 2), [2]), ((8, 0), [1])])]) = [[''x'', ''xx''], [''x'']]"
proof -
  let ?ms = "[(1, [((7, 0), [1]), ((7, 2), [2]), ((8, 0), [1])])] :: token_bytes"
  have h: "token_hashes ex_lbtc_api ?ms = [''x'', ''xx'', ''x'']" by code_simp
  have p: "pieces 2 [''x'', ''xx'', ''x''] = [[''x'', ''xx''], [''x'']]" by code_simp
  have f: "fetchBatch ex_lbtc_api [''x'', ''xx''] = Ok [(''x'', ErrorAttestationStatus ErrNotReady), (''xx'', ErrorAttestationStatus ErrNotReady)]"
    "fetchBatch ex_lbtc_api [''x''] = Ok [(''x'', ErrorAttestationStatus ErrNotReady)]" by code_simp+
  have s: "lap_toString ex_lbtc_api [1] = ''x''" "lap_toString ex_lbtc_api [2] = ''xx''" by code_simp+
  from lbtc_Attestations_batches [of 2 ex_lbtc_api ?ms] show ?thesis
    by (simp add: h p f s put_all_def map_keyed_def map_filter_simps)
qed

end
