(* ===== verification/ExecAccept.thy ===== *)
theory ExecAccept
  imports ExecPlugin
begin

text \<open>The last two decisions of the execute plugin, whether to accept and whether to transmit a report, characterised exactly: which
  reports count as executed already, which are invalid, and which answers are errors.\<close>

section \<open>Which reports are executed already\<close>

text \<open>\<open>SeqNumRange.ToSlice\<close> lists the numbers of the range.\<close>

definition to_slice_spec :: "exec_lib \<Rightarrow> bool" where
  "to_slice_spec xl \<longleftrightarrow> (\<forall>r. set (xl_ToSlice xl r) = range_set r)"

text \<open>Every number between the smallest and the largest one of a chain report is executed.\<close>

definition executed_report :: "(ChainSelector, SeqNum list) gomap \<Rightarrow> ExecutePluginReportSingleChain \<Rightarrow> bool" where
  "executed_report executed cr \<longleftrightarrow>
     (\<exists>ns. map_of executed (er_SourceChainSelector cr) = Some ns \<and>
        {Min (set (seq_numbers cr)) .. Max (set (seq_numbers cr))} \<subseteq> set ns)"

lemma card_inter_eq_iff: "finite B \<Longrightarrow> card (A \<inter> B) = card B \<longleftrightarrow> B \<subseteq> A"
  by (metis Int_absorb1 Int_lower2 card_subset_eq inf_commute inf.absorb_iff1)

lemma all_sources_executed_entries:
  assumes "to_slice_spec xl"
  shows "all_sources_executed xl executed m \<longleftrightarrow>
    (\<forall>(source, rs) \<in> set m. \<exists>ns. map_of executed source = Some ns \<and> (\<forall>r \<in> set rs. range_set r \<subseteq> set ns))"
proof (induction m)
  case (Cons a m)
  obtain source rs where a: "a = (source, rs)" by (cases a)
  have "set (concat (map (xl_ToSlice xl) rs)) = (\<Union>r \<in> set rs. range_set r)"
    using assms by (auto simp: to_slice_spec_def)
  moreover have "finite (\<Union>r \<in> set rs. range_set r)" by simp
  ultimately show ?case
    by (cases "map_of executed source") (auto simp: a Cons.IH Let_def card_inter_eq_iff UN_subset_iff)
qed simp

lemma getSeqNrRangesBySource_eq:
  "getSeqNrRangesBySource crs = group_append (map (\<lambda>cr. (er_SourceChainSelector cr,
      \<lparr>sr_Start = Min (set (seq_numbers cr)), sr_End = Max (set (seq_numbers cr))\<rparr>)) (filter (\<lambda>cr. \<not> er_Messages cr = []) crs)) []"
  unfolding getSeqNrRangesBySource_def by (rule group_append_fold_filter)

lemma all_sources_executed_iff:
  assumes "to_slice_spec xl"
  shows "all_sources_executed xl executed (getSeqNrRangesBySource crs) \<longleftrightarrow>
    (\<forall>cr \<in> set crs. er_Messages cr \<noteq> [] \<longrightarrow> executed_report executed cr)"
    (is "_ \<longleftrightarrow> ?R")
proof -
  let ?key = "er_SourceChainSelector"
  let ?rng = "\<lambda>cr. \<lparr>sr_Start = Min (set (seq_numbers cr)), sr_End = Max (set (seq_numbers cr))\<rparr>"
  let ?crs = "filter (\<lambda>cr. er_Messages cr \<noteq> []) crs"
  let ?m = "getSeqNrRangesBySource crs"
  have m: "map_of ?m s = (if s \<in> ?key ` set ?crs then Some (map ?rng (filter (\<lambda>cr. ?key cr = s) ?crs)) else None)" for s
    by (simp add: getSeqNrRangesBySource_eq map_of_group_append image_image filter_map o_def)
  have ok: "gm_ok ?m" by (simp add: getSeqNrRangesBySource_eq gm_ok_group_append)
  have "(s, rs) \<in> set ?m \<longleftrightarrow> map_of ?m s = Some rs" for s rs using ok by (simp add: gm_get_iff)
  then have "all_sources_executed xl executed ?m \<longleftrightarrow>
      (\<forall>s rs. map_of ?m s = Some rs \<longrightarrow> (\<exists>ns. map_of executed s = Some ns \<and> (\<forall>r \<in> set rs. range_set r \<subseteq> set ns)))"
    by (simp only: all_sources_executed_entries [OF assms] split_beta Ball_def) auto
  also have "\<dots> \<longleftrightarrow> ?R"
  proof (intro iffI allI impI ballI)
    fix cr
    assume all: "\<forall>s rs. map_of ?m s = Some rs \<longrightarrow> (\<exists>ns. map_of executed s = Some ns \<and> (\<forall>r \<in> set rs. range_set r \<subseteq> set ns))"
      and cr: "cr \<in> set crs" "er_Messages cr \<noteq> []"
    then have "map_of ?m (?key cr) = Some (map ?rng (filter (\<lambda>cr'. ?key cr' = ?key cr) ?crs))" by (simp add: m)
    with all obtain ns where "map_of executed (?key cr) = Some ns"
      "\<forall>r \<in> set (map ?rng (filter (\<lambda>cr'. ?key cr' = ?key cr) ?crs)). range_set r \<subseteq> set ns" by blast
    with cr show "executed_report executed cr" by (simp add: executed_report_def range_set_def)
  next
    fix s rs
    assume R: ?R and "map_of ?m s = Some rs"
    then have rs: "rs = map ?rng (filter (\<lambda>cr. ?key cr = s) ?crs)" "s \<in> ?key ` set ?crs"
      by (simp_all add: m split: if_splits)
    then obtain cr where "cr \<in> set crs" "er_Messages cr \<noteq> []" "?key cr = s" by auto
    with R obtain ns where ns: "map_of executed s = Some ns" by (auto simp: executed_report_def)
    have "{Min (set (seq_numbers cr)) .. Max (set (seq_numbers cr))} \<subseteq> set ns"
      if "cr \<in> set crs" "er_Messages cr \<noteq> []" "?key cr = s" for cr
      using R that ns by (auto simp: executed_report_def dest!: bspec)
    with ns rs(1) show "\<exists>ns. map_of executed s = Some ns \<and> (\<forall>r \<in> set rs. range_set r \<subseteq> set ns)"
      by (auto simp: range_set_def)
  qed
  finally show ?thesis .
qed


section \<open>Acceptance and transmission\<close>

text \<open>A report that decodes, is not empty, and is checked by an oracle of the destination with the right config digest.\<close>

definition exec_checkable :: "byte \<Rightarrow> ('c, 'd) exec_Plugin \<Rightarrow> byte list \<Rightarrow> ExecutePluginReport \<Rightarrow> bool" where
  "exec_checkable pt p b rep \<longleftrightarrow> xc_Decode (xpl_reportCodec p) b = Ok rep \<and> epr_ChainReports rep \<noteq> [] \<and>
     SupportsDestChain (xpl_chainSupport p) (xpl_oracleID p) = Ok True \<and>
     rd_GetOffRampConfigDigest (xpl_ccipReader p) pt = Ok (xpl_configDigest p)"

text \<open>The messages executed on chain, as the reader reports them for the ranges of the report.\<close>

definition executed_on_chain :: "('c, 'd) exec_Plugin \<Rightarrow> ExecutePluginReport \<Rightarrow> (ChainSelector, SeqNum list) gomap result" where
  "executed_on_chain p rep = rdx_ExecutedMessages (xpl_ccipReader p) (getSeqNrRangesBySource (epr_ChainReports rep)) Unconfirmed"

definition fully_executed :: "(ChainSelector, SeqNum list) gomap \<Rightarrow> ExecutePluginReport \<Rightarrow> bool" where
  "fully_executed executed rep \<longleftrightarrow>
     (\<forall>cr \<in> set (epr_ChainReports rep). er_Messages cr \<noteq> [] \<longrightarrow> executed_report executed cr)"

definition exec_valid :: "byte \<Rightarrow> ('c, 'd) exec_Plugin \<Rightarrow> byte list \<Rightarrow> ExecutePluginReport \<Rightarrow> bool" where
  "exec_valid pt p b rep \<longleftrightarrow> exec_checkable pt p b rep \<and> (\<exists>ex. executed_on_chain p rep = Ok ex \<and> \<not> fully_executed ex rep)"

text \<open>The ways in which a report is found invalid.\<close>

definition exec_invalid :: "byte \<Rightarrow> ('c, 'd) exec_Plugin \<Rightarrow> byte list \<Rightarrow> bool" where
  "exec_invalid pt p b \<longleftrightarrow>
     (\<exists>rep. xc_Decode (xpl_reportCodec p) b = Ok rep \<and>
        (epr_ChainReports rep = [] \<or>
         SupportsDestChain (xpl_chainSupport p) (xpl_oracleID p) = Ok False \<or>
         SupportsDestChain (xpl_chainSupport p) (xpl_oracleID p) = Ok True \<and>
           (\<exists>d. rd_GetOffRampConfigDigest (xpl_ccipReader p) pt = Ok d \<and> d \<noteq> xpl_configDigest p) \<or>
         exec_checkable pt p b rep \<and> (\<exists>ex. executed_on_chain p rep = Ok ex \<and> fully_executed ex rep)))"

text \<open>The reader does not return the plugin's own sentinel errors, which are private to the package.\<close>

definition foreign_errors :: "byte \<Rightarrow> ('c, 'd) exec_Plugin \<Rightarrow> bool" where
  "foreign_errors pt p \<longleftrightarrow>
     (\<forall>e. rd_GetOffRampConfigDigest (xpl_ccipReader p) pt = Error e \<longrightarrow> \<not> is_error (\<lambda>e. e = ErrOffRampConfigMismatch) e) \<and>
     (\<forall>rs c e. rdx_ExecutedMessages (xpl_ccipReader p) rs c = Error e \<longrightarrow> \<not> is_error (\<lambda>e. e = ErrAlreadyExecuted) e)"

lemma validating_not_invalid: "validating r = Error e \<Longrightarrow> \<not> is_invalid_report e"
  by (cases r) (auto simp: is_invalid_report_def)

lemma invalid_simps [simp]:
  "is_invalid_report (ErrInvalidReport s)" "\<not> is_invalid_report (ErrReportValidation e)"
  by (simp_all add: is_invalid_report_def)

lemma checkConfigDigest_cases:
  "checkConfigDigest pt p = (case rd_GetOffRampConfigDigest (xpl_ccipReader p) pt of
      Panic \<Rightarrow> Panic | Error e \<Rightarrow> Error (Wrap ''get offramp config digest'' e)
    | Ok d \<Rightarrow> if d = xpl_configDigest p then Ok () else Error ErrOffRampConfigMismatch)"
  by (simp add: checkConfigDigest_def ConfigDigestsMatch_def split: result.splits)

lemma checkAlreadyExecuted_cases:
  assumes "to_slice_spec xl"
  shows "checkAlreadyExecuted xl p (epr_ChainReports rep) = (case executed_on_chain p rep of
      Panic \<Rightarrow> Panic | Error e \<Rightarrow> Error (Wrap ''couldn't check if messages already executed'' e)
    | Ok ex \<Rightarrow> if fully_executed ex rep then Error (Wrap ''all messages already executed'' ErrAlreadyExecuted) else Ok ())"
  by (simp add: checkAlreadyExecuted_def Let_def executed_on_chain_def fully_executed_def all_sources_executed_iff [OF assms]
      split: result.splits)

lemma exec_validateReport_iff:
  assumes "to_slice_spec xl" and "foreign_errors pt p"
  shows "exec_validateReport xl pt p r = Ok rep \<longleftrightarrow> (\<exists>b. rwi_Report r = Some b \<and> exec_valid pt p b rep)"
    and "(\<exists>e. exec_validateReport xl pt p r = Error e \<and> is_invalid_report e) \<longleftrightarrow>
       (case rwi_Report r of None \<Rightarrow> True | Some b \<Rightarrow> exec_invalid pt p b)"
proof -
  let ?dg = "rd_GetOffRampConfigDigest (xpl_ccipReader p) pt"
  have fe: "?dg = Error e \<Longrightarrow> \<not> is_error (\<lambda>e. e = ErrOffRampConfigMismatch) e"
    "executed_on_chain p rp = Error e \<Longrightarrow> \<not> is_error (\<lambda>e. e = ErrAlreadyExecuted) e" for e rp
    using assms(2) by (auto simp: foreign_errors_def executed_on_chain_def)
  note unfolds = exec_validateReport_def checkConfigDigest_cases checkAlreadyExecuted_cases [OF assms(1)]
  have *: "(exec_validateReport xl pt p r = Ok rep \<longleftrightarrow> (\<exists>b. rwi_Report r = Some b \<and> exec_valid pt p b rep)) \<and>
     ((\<exists>e. exec_validateReport xl pt p r = Error e \<and> is_invalid_report e) \<longleftrightarrow>
       (case rwi_Report r of None \<Rightarrow> True | Some b \<Rightarrow> exec_invalid pt p b))"
  proof (cases "rwi_Report r")
    case (Some b)
    show ?thesis
    proof (cases "xc_Decode (xpl_reportCodec p) b")
      case (Ok rp)
      then show ?thesis
        using fe unfolding unfolds
        by (cases "SupportsDestChain (xpl_chainSupport p) (xpl_oracleID p)"; cases ?dg; cases "executed_on_chain p rp")
          (auto simp: Some exec_invalid_def exec_valid_def exec_checkable_def)
    qed (auto simp: Some exec_invalid_def exec_valid_def exec_checkable_def exec_validateReport_def)
  qed (auto simp: exec_validateReport_def)
  show "exec_validateReport xl pt p r = Ok rep \<longleftrightarrow> (\<exists>b. rwi_Report r = Some b \<and> exec_valid pt p b rep)"
    using * by blast
  show "(\<exists>e. exec_validateReport xl pt p r = Error e \<and> is_invalid_report e) \<longleftrightarrow>
       (case rwi_Report r of None \<Rightarrow> True | Some b \<Rightarrow> exec_invalid pt p b)"
    using * by blast
qed


text \<open>No lane of the report is cursed, as far as the curse information says.\<close>

definition exec_lanes_open :: "CurseInfo \<Rightarrow> ExecutePluginReport \<Rightarrow> bool" where
  "exec_lanes_open ci rep \<longleftrightarrow> \<not> ci_GlobalCurse ci \<and> \<not> ci_CursedDestination ci \<and>
     (\<forall>cr \<in> set (epr_ChainReports rep). map_of (ci_CursedSourceChains ci) (er_SourceChainSelector cr) \<noteq> Some True)"

lemma IsReportCursed_lanes:
  assumes "non_cursed_spec lib" and "epr_ChainReports rep \<noteq> []"
  shows "IsReportCursed lib info (map er_SourceChainSelector (epr_ChainReports rep)) =
    (case info of Panic \<Rightarrow> Panic | Error e \<Rightarrow> Error (Wrap ''error while fetching curse info'' e)
     | Ok ci \<Rightarrow> Ok (\<not> exec_lanes_open ci rep))"
  using assms
  by (auto simp: IsReportCursed_def non_cursed_spec_def exec_lanes_open_def Let_def length_filter_eq_iff split: result.splits)

lemma exec_ShouldTransmit_cases:
  "exec_ShouldTransmitAcceptedReport xl pt p r = Ok True \<longleftrightarrow> (\<exists>rep. exec_validateReport xl pt p r = Ok rep)"
  "exec_ShouldTransmitAcceptedReport xl pt p r = Ok False \<longleftrightarrow>
     (\<exists>e. exec_validateReport xl pt p r = Error e \<and> is_invalid_report e)"
  by (auto simp: exec_ShouldTransmitAcceptedReport_def split: result.splits)

lemma exec_ShouldAccept_cases:
  assumes "non_cursed_spec lib" and "\<forall>rep. exec_validateReport xl pt p r = Ok rep \<longrightarrow> epr_ChainReports rep \<noteq> []"
  shows "exec_ShouldAcceptAttestedReport lib xl pt p r = Ok True \<longleftrightarrow> exec_supportsDestChain p = Ok True \<and>
      (\<exists>rep ci. exec_validateReport xl pt p r = Ok rep \<and> rd_GetRmnCurseInfo (xpl_ccipReader p) = Ok ci \<and> exec_lanes_open ci rep)"
    and "exec_ShouldAcceptAttestedReport lib xl pt p r = Ok False \<longleftrightarrow> exec_supportsDestChain p = Ok True \<and>
      ((\<exists>e. exec_validateReport xl pt p r = Error e \<and> is_invalid_report e) \<or>
       (\<exists>rep ci. exec_validateReport xl pt p r = Ok rep \<and> rd_GetRmnCurseInfo (xpl_ccipReader p) = Ok ci \<and> \<not> exec_lanes_open ci rep))"
  using assms(2)
  by (cases "exec_supportsDestChain p"; cases "exec_validateReport xl pt p r"; cases "rd_GetRmnCurseInfo (xpl_ccipReader p)";
      auto simp: exec_ShouldAcceptAttestedReport_def IsReportCursed_lanes [OF assms(1)])+

text \<open>C4. Exactly when an execute report is accepted and transmitted. It is transmitted when it decodes to a non-empty report, this
  oracle supports the destination, the config digests match and not every message range of it is executed; it
  is accepted when moreover no lane of it is cursed. It is refused without an error exactly when it is nil, empty, checked by an
  oracle without the destination, of another config, or executed already (for acceptance: or cursed). All other outcomes are errors: among
  them, for acceptance, an oracle that does not support the destination.\<close>

theorem exec_ShouldAccept_iff:
  assumes "non_cursed_spec lib" and "to_slice_spec xl" and "foreign_errors pt p"
  shows "(exec_ShouldTransmitAcceptedReport xl pt p r = Ok True \<longleftrightarrow> (\<exists>b rep. rwi_Report r = Some b \<and> exec_valid pt p b rep)) \<and>
    (exec_ShouldTransmitAcceptedReport xl pt p r = Ok False \<longleftrightarrow> (\<forall>b. rwi_Report r = Some b \<longrightarrow> exec_invalid pt p b)) \<and>
    (exec_ShouldAcceptAttestedReport lib xl pt p r = Ok True \<longleftrightarrow> exec_supportsDestChain p = Ok True \<and>
       (\<exists>b rep ci. rwi_Report r = Some b \<and> exec_valid pt p b rep \<and>
          rd_GetRmnCurseInfo (xpl_ccipReader p) = Ok ci \<and> exec_lanes_open ci rep)) \<and>
    (exec_ShouldAcceptAttestedReport lib xl pt p r = Ok False \<longleftrightarrow> exec_supportsDestChain p = Ok True \<and>
       ((\<forall>b. rwi_Report r = Some b \<longrightarrow> exec_invalid pt p b) \<or>
        (\<exists>b rep ci. rwi_Report r = Some b \<and> exec_valid pt p b rep \<and>
           rd_GetRmnCurseInfo (xpl_ccipReader p) = Ok ci \<and> \<not> exec_lanes_open ci rep)))"
proof -
  note V = exec_validateReport_iff [OF assms(2,3)]
  have inv: "(case rwi_Report r of None \<Rightarrow> True | Some b \<Rightarrow> exec_invalid pt p b) \<longleftrightarrow>
      (\<forall>b. rwi_Report r = Some b \<longrightarrow> exec_invalid pt p b)" by (simp split: option.split)
  have ne: "\<forall>rep. exec_validateReport xl pt p r = Ok rep \<longrightarrow> epr_ChainReports rep \<noteq> []"
    by (auto simp: V exec_valid_def exec_checkable_def)
  show ?thesis
    unfolding exec_ShouldTransmit_cases exec_ShouldAccept_cases [OF assms(1) ne] V inv by blast
qed

section \<open>An instance\<close>

text \<open>A report with messages 3 and 5 of chain 7; number 4 was never in it.\<close>

definition sample_chain_report :: ExecutePluginReportSingleChain where
  "sample_chain_report = \<lparr>er_SourceChainSelector = 7, er_Messages = [sample_exec_msg 3 0 [1], sample_exec_msg 5 0 [1]],
     er_OffchainTokenData = [[], []], er_Proofs = [], er_ProofFlagBits = Some 0\<rparr>"

definition sample_exec_report :: ExecutePluginReport where
  "sample_exec_report = \<lparr>epr_ChainReports = [sample_chain_report]\<rparr>"

definition sample_exec_codec :: exec_codec where
  "sample_exec_codec = \<lparr>xcd_EncodeObservation = (\<lambda>_. Ok [1]), xcd_DecodeObservation = (\<lambda>_. Ok exec_Observation_zero),
     xcd_EncodeOutcome = (\<lambda>_. Ok [2]), xcd_DecodeOutcome = (\<lambda>_. Ok exec_Outcome_zero)\<rparr>"


definition sample_cache_libs ::
  "(duration \<times> (string, unit cache_item) gomap, duration \<times> (string, CommitPluginReportWithMeta cache_item) gomap) cache_libs" where
  "sample_cache_libs = \<lparr>cl_keys = sample_gc, cl_reports = sample_gc\<rparr>"

definition sample_exec_plugin ::
  "SeqNum list \<Rightarrow> (duration \<times> (string, unit cache_item) gomap, duration \<times> (string, CommitPluginReportWithMeta cache_item) gomap) exec_Plugin" where
  "sample_exec_plugin executed = NewExecPlugin sample_cache_libs 3 1 4 [0] (exec_applyDefaults sample_exec_config) 5 [(3, [2])]
     (sample_exec_reader\<lparr>rdx_ExecutedMessages := (\<lambda>_ _. Ok [(7, executed)])\<rparr>)
     \<lparr>xc_Encode = (\<lambda>_. Ok [1]), xc_Decode = (\<lambda>_. Ok sample_exec_report)\<rparr> (\<lambda>_. Ok [1]) sample_poller2 (\<lambda>_. Ok []) (Some sample_estimate)
     sample_exec_codec (\<lambda>_ _. Ok ''a'')"

lemma sample_xl_to_slice: "to_slice_spec sample_xl"
  by (simp add: to_slice_spec_def sample_xl_def set_seq_list range_set_def)

text \<open>The two messages of the report are executed, but the number between them is not, so that the report is transmitted again; once that
  one is executed too, it is refused.\<close>

theorem exec_ShouldAccept_iff_witness:
  "(\<exists>b rep. exec_valid 0 (sample_exec_plugin [3, 5]) b rep) \<and> exec_invalid 0 (sample_exec_plugin [3, 4, 5]) [1]"
proof -
  let ?r = "\<lparr>rwi_Report = Some [1], rwi_Info = []\<rparr>"
  have f: "foreign_errors 0 (sample_exec_plugin ns)" for ns
    by (simp add: foreign_errors_def sample_exec_plugin_def NewExecPlugin_def sample_exec_reader_def ccip_reader.defs sample_reader0_def)
  have "exec_ShouldTransmitAcceptedReport sample_xl 0 (sample_exec_plugin [3, 5]) ?r = Ok True" by code_simp
  moreover have "exec_ShouldTransmitAcceptedReport sample_xl 0 (sample_exec_plugin [3, 4, 5]) ?r = Ok False" by code_simp
  ultimately show ?thesis
    using exec_ShouldAccept_iff [OF sample_lib_specs(3) sample_xl_to_slice f, of "[3, 5]" ?r, THEN conjunct1]
      exec_ShouldAccept_iff [OF sample_lib_specs(3) sample_xl_to_slice f, of "[3, 4, 5]" ?r, THEN conjunct2, THEN conjunct1]
    by auto
qed

text \<open>A report all of whose messages are executed is transmitted again when the numbers of its messages have a gap.\<close>

lemma executed_report_with_gap_is_transmitted:
  "seq_numbers sample_chain_report = [3, 5] \<and>
   exec_ShouldTransmitAcceptedReport sample_xl 0 (sample_exec_plugin [3, 5]) \<lparr>rwi_Report = Some [1], rwi_Info = []\<rparr> = Ok True"
  by code_simp

end
