(* ===== verification/ExecOutcome.thy ===== *)
theory ExecOutcome
  imports ExecAccept
begin

text \<open>The outcomes of the execute plugin: what the second phase makes of an agreed observation, the infos of the reports of the third, and
  an invariant of all outcomes that rounds can reach, whatever is observed. At the end, a run of the three phases.\<close>

section \<open>Messages of the agreed commit reports\<close>

text \<open>The sequence numbers of a commit report whose message is agreed, and the commit report with the agreed messages, hashes and token
  data at these numbers.\<close>

definition agreed_numbers :: "exec_Observation \<Rightarrow> CommitData \<Rightarrow> SeqNum list" where
  "agreed_numbers obs cd = filter (\<lambda>j. gm_get2 (xob_Messages obs) (cd_SourceChain cd) j \<noteq> None)
     (seq_list (sr_Start (cd_SequenceNumberRange cd)) (sr_End (cd_SequenceNumberRange cd)))"

definition get_or :: "'v \<Rightarrow> ('k, ('l, 'v) gomap) gomap \<Rightarrow> 'k \<Rightarrow> 'l \<Rightarrow> 'v" where
  "get_or d m k l = (case gm_get2 m k l of None \<Rightarrow> d | Some v \<Rightarrow> v)"

definition attach :: "exec_Observation \<Rightarrow> CommitData \<Rightarrow> CommitData" where
  "attach obs cd =
     (let c = cd_SourceChain cd; js = agreed_numbers obs cd in
      cd\<lparr>cd_Messages := map (\<lambda>j. the (gm_get2 (xob_Messages obs) c j)) js,
         cd_Hashes := cd_Hashes cd @ map (get_or (replicate 32 0) (xob_Hashes obs) c) js,
         cd_MessageTokenData := cd_MessageTokenData cd @ map (get_or (NewMessageTokenData []) (xob_TokenData obs) c) js\<rparr>)"

lemma add_messages_attach:
  assumes "sr_End (cd_SequenceNumberRange cd) \<noteq> - 1"
  shows "add_messages obs cd = Some (attach obs cd)"
proof -
  let ?c = "cd_SourceChain cd"
  let ?M = "\<lambda>j. gm_get2 (xob_Messages obs) ?c j"
  let ?H = "get_or (replicate 32 0) (xob_Hashes obs) ?c" let ?T = "get_or (NewMessageTokenData []) (xob_TokenData obs) ?c"
  let ?step = "\<lambda>j r. case ?M j of
          None \<Rightarrow> Inr r
        | Some msg \<Rightarrow>
            Inr (r\<lparr>cd_Messages := cd_Messages r @ [msg],
                   cd_Hashes := cd_Hashes r @ [case gm_get2 (xob_Hashes obs) ?c j of None \<Rightarrow> replicate 32 0 | Some h \<Rightarrow> h],
                   cd_MessageTokenData := cd_MessageTokenData r @ [case gm_get2 (xob_TokenData obs) ?c j of
                       None \<Rightarrow> NewMessageTokenData [] | Some td \<Rightarrow> td]\<rparr>)"
  have loop: "fold_until ?step js r = (Inr (r\<lparr>cd_Messages := cd_Messages r @ map (\<lambda>j. the (?M j)) (filter (\<lambda>j. ?M j \<noteq> None) js),
      cd_Hashes := cd_Hashes r @ map ?H (filter (\<lambda>j. ?M j \<noteq> None) js),
      cd_MessageTokenData := cd_MessageTokenData r @ map ?T (filter (\<lambda>j. ?M j \<noteq> None) js)\<rparr>) :: CommitData + CommitData)" for js r
  proof (induction js arbitrary: r)
    case (Cons j js)
    show ?case by (cases "?M j") (simp_all only: fold_until.simps option.case sum.case Cons.IH filter.simps, simp_all add: get_or_def)
  qed simp
  show ?thesis
    unfolding add_messages_def for_seq_fold [OF assms] loop by (simp add: attach_def agreed_numbers_def Let_def)
qed

text \<open>\<open>RemoveIthElement\<close> is called with an index that is never in the slice, so no report is removed.\<close>

lemma messages_loop_attach:
  assumes "\<forall>cd \<in> set cds. sr_End (cd_SequenceNumberRange cd) \<noteq> - 1"
  shows "length acc = i \<Longrightarrow> messages_loop obs i acc cds = Some (acc @ map (attach obs) cds)"
  using assms
proof (induction cds arbitrary: i acc)
  case (Cons cd cds)
  then have "add_messages obs cd = Some (attach obs cd)" by (simp add: add_messages_attach)
  moreover have "RemoveIthElement acc (int i) = acc" using Cons.prems(1) by (simp add: RemoveIthElement_def)
  ultimately show ?case using Cons.IH [of "acc @ [attach obs cd]" "Suc i"] Cons.prems by simp
qed simp

text \<open>Every agreed message has a hash that is not empty and token data, and nothing else has.\<close>

definition complete :: "exec_lib \<Rightarrow> exec_Observation \<Rightarrow> bool" where
  "complete xl obs \<longleftrightarrow> fst ` set (xob_Messages obs) = fst ` set (xob_Hashes obs) \<and> fst ` set (xob_Messages obs) = fst ` set (xob_TokenData obs) \<and>
     (\<forall>c \<in> fst ` set (xob_Messages obs). inner_keys (xob_Messages obs) c = inner_keys (xob_Hashes obs) c \<and>
        inner_keys (xob_Messages obs) c = inner_keys (xob_TokenData obs) c \<and>
        (\<forall>h \<in> snd ` set (gm_inner (xob_Hashes obs) c). \<not> xl_Bytes32_IsEmpty xl h))"

lemma complete_iff:
  assumes "gm_ok2 (xob_Messages obs)" "gm_ok2 (xob_Hashes obs)" "gm_ok2 (xob_TokenData obs)"
  shows "complete xl obs \<longleftrightarrow> validateHashesExist xl (xob_Messages obs) (xob_Hashes obs) = Ok () \<and>
    validateTokenDataObservations (xob_Messages obs) (xob_TokenData obs) = Ok ()"
proof -
  have arrange: "A \<and> B \<and> P \<and> Q \<and> R \<longleftrightarrow> (A \<and> P \<and> R) \<and> B \<and> Q" for A B P Q R by blast
  show ?thesis
    unfolding validateHashesExist_iff [OF assms(1,2)] validateTokenDataObservations_iff [OF assms(1,3)] complete_def ball_conj_distrib
    by (rule arrange)
qed

lemma check_all_Panic: "check_all f xs = Panic \<Longrightarrow> \<exists>x \<in> set xs. f x = Panic"
  using check_all_no_panic [of xs f] by blast

lemma checks_never_panic:
  "validateHashesExist xl m hs \<noteq> Panic" "validateTokenDataObservations m td \<noteq> Panic"
  unfolding validateHashesExist_def validateTokenDataObservations_def
  by (auto dest!: check_all_Panic split: if_splits option.splits)

lemma gm_get2_keys: "gm_get2 m c j \<noteq> None \<longleftrightarrow> c \<in> fst ` set m \<and> j \<in> inner_keys m c"
proof (cases "map_of m c")
  case None
  then have "c \<notin> fst ` set m" by (simp add: map_of_eq_None_iff)
  with None show ?thesis by (simp add: gm_get2_def)
next
  case (Some m')
  then have "c \<in> fst ` set m" by (force dest: map_of_SomeD)
  moreover have "map_of m' j \<noteq> None \<longleftrightarrow> j \<in> fst ` set m'" by (simp add: map_of_eq_None_iff)
  ultimately show ?thesis using Some by (simp add: gm_get2_def inner_keys_def gm_inner_def)
qed

text \<open>On a complete observation no default is used.\<close>

lemma attach_complete:
  assumes "complete xl obs" and "gm_ok2 (xob_Hashes obs)" and "j \<in> set (agreed_numbers obs cd)"
  shows "\<exists>h td. gm_get2 (xob_Hashes obs) (cd_SourceChain cd) j = Some h \<and> \<not> xl_Bytes32_IsEmpty xl h \<and>
    gm_get2 (xob_TokenData obs) (cd_SourceChain cd) j = Some td"
proof -
  let ?c = "cd_SourceChain cd"
  have k: "?c \<in> fst ` set (xob_Messages obs)" "j \<in> inner_keys (xob_Messages obs) ?c"
    using assms(3) unfolding agreed_numbers_def set_filter gm_get2_keys by blast+
  with assms(1) have "gm_get2 (xob_Hashes obs) ?c j \<noteq> None" "gm_get2 (xob_TokenData obs) ?c j \<noteq> None"
    unfolding gm_get2_keys complete_def by blast+
  then obtain h td where h: "gm_get2 (xob_Hashes obs) ?c j = Some h" "gm_get2 (xob_TokenData obs) ?c j = Some td" by blast
  then have "h \<in> snd ` set (gm_inner (xob_Hashes obs) ?c)"
    by (force simp: gm_get2_def gm_inner_def split: option.splits dest: map_of_SomeD)
  with assms(1) k(1) h show ?thesis unfolding complete_def by blast
qed

text \<open>C7. What the second phase decides. When every agreed message has an agreed hash that is not empty and agreed token data, and nothing
  else has, the outcome has all agreed commit reports, sorted, each with exactly the agreed messages of its range and, position by
  position, their agreed hashes, which are not empty, and token data; otherwise the outcome is empty. It is computed without running into a loop that does not end when
  no agreed range ends at the largest number. A report without agreed messages is kept too.\<close>

theorem getMessagesOutcome_spec:
  assumes "gm_ok2 (xob_Messages obs)" "gm_ok2 (xob_Hashes obs)" "gm_ok2 (xob_TokenData obs)"
    and "\<forall>cd \<in> set (CommitObservations_Flatten (xob_CommitReports obs)). sr_End (cd_SequenceNumberRange cd) \<noteq> - 1"
  shows "getMessagesOutcome xl obs = Some (Ok (if complete xl obs
      then NewOutcomeWithSortedCommitReports GetMessages (map (attach obs) (CommitObservations_Flatten (xob_CommitReports obs)))
      else exec_Outcome_zero)) \<and>
    (complete xl obs \<longrightarrow> (\<forall>cd. \<forall>j \<in> set (agreed_numbers obs cd). \<exists>h td.
       gm_get2 (xob_Hashes obs) (cd_SourceChain cd) j = Some h \<and> \<not> xl_Bytes32_IsEmpty xl h \<and>
       gm_get2 (xob_TokenData obs) (cd_SourceChain cd) j = Some td))"
proof -
  note complete_iff [OF assms(1-3), of xl]
  moreover have "messages_loop obs 0 [] (CommitObservations_Flatten (xob_CommitReports obs)) =
      Some (map (attach obs) (CommitObservations_Flatten (xob_CommitReports obs)))"
    using messages_loop_attach [OF assms(4), of "[]" 0] by simp
  ultimately have "getMessagesOutcome xl obs = Some (Ok (if complete xl obs
      then NewOutcomeWithSortedCommitReports GetMessages (map (attach obs) (CommitObservations_Flatten (xob_CommitReports obs)))
      else exec_Outcome_zero))"
    using checks_never_panic(1) [of xl "xob_Messages obs" "xob_Hashes obs"] checks_never_panic(2) [of "xob_Messages obs" "xob_TokenData obs"]
    by (simp add: getMessagesOutcome_def split: result.splits)
  then show ?thesis using attach_complete [OF _ assms(2)] by blast
qed

section \<open>The roots of a report\<close>

lemma take_roots_Ok:
  "idx + n \<le> length cds \<Longrightarrow> take_roots cds idx n = Ok (map root_of_commit (take n (drop idx cds)))"
proof (induction n arbitrary: idx)
  case (Suc n)
  then have "take_roots cds (Suc idx) n = Ok (map root_of_commit (take n (drop (Suc idx) cds)))" by simp
  moreover have "drop idx cds = cds ! idx # drop (Suc idx) cds" using Suc.prems by (simp add: Cons_nth_drop_Suc)
  ultimately show ?case using Suc.prems by simp
qed simp

text \<open>The report infos when the commit reports are kept in one list per execute report, in the same order.\<close>

lemma report_infos_aligned:
  assumes "list_all2 (\<lambda>r ds. length ds = length (epr_ChainReports r)) reports dss"
  shows "report_infos (pre @ concat dss @ post) (length pre) reports =
    Ok (map2 (\<lambda>r ds. \<lparr>eri_AbstractReports = epr_ChainReports r, eri_MerkleRoots = map root_of_commit ds\<rparr>) reports dss)"
  using assms
proof (induction reports dss arbitrary: pre rule: list_all2_induct)
  case (Cons r rs ds dss)
  have "take_roots (pre @ ds @ concat dss @ post) (length pre) (length (epr_ChainReports r)) = Ok (map root_of_commit ds)"
    using Cons.hyps(1) by (subst take_roots_Ok) simp_all
  moreover have "report_infos (pre @ ds @ concat dss @ post) (length pre + length (epr_ChainReports r)) rs =
      Ok (map2 (\<lambda>r ds. \<lparr>eri_AbstractReports = epr_ChainReports r, eri_MerkleRoots = map root_of_commit ds\<rparr>) rs dss)"
    using Cons.IH [of "pre @ ds"] Cons.hyps(1) by simp
  ultimately show ?case by simp
qed simp

lemma filter_builder_fields:
  "fresh_builder xl (filter_builder xl ol p nonces)" "b_maxReportCount (filter_builder xl ol p nonces) = 50"
  "b_multipleReportsEnabled (filter_builder xl ol p nonces) = eoc_MultipleReportsEnabled (xpl_offchainCfg p)"
  "b_maxReportSizeBytes (filter_builder xl ol p nonces) = ol_MaxMaxReportLength ol"
  "b_maxGas (filter_builder xl ol p nonces) = eoc_BatchGasLimit (xpl_offchainCfg p)"
  "b_maxMessages (filter_builder xl ol p nonces) = eoc_MaxReportMessages (xpl_offchainCfg p)"
  "b_maxSingleChainReports (filter_builder xl ol p nonces) = eoc_MaxSingleChainReports (xpl_offchainCfg p)"
  "b_encoder (filter_builder xl ol p nonces) = xpl_reportCodec p"
  "b_estimateProvider (filter_builder xl ol p nonces) = xpl_estimateProvider p"
  "b_addressCodec (filter_builder xl ol p nonces) = xpl_addrCodec p"
  by (simp_all add: filter_builder_def NewBuilder_def default_checks_def WithMultipleReports_def WithMaxReportsCount_def
      WithMaxReportSizeBytes_def WithMaxGas_def WithExtraMessageCheck_def WithMaxMessages_def WithMaxSingleChainReports_def
      fresh_builder_def has_defaults_def maxReportCount_def)

text \<open>The encoded size and the gas of a chain report, as the plugin's codec and estimator see it.\<close>

definition plugin_size :: "('c, 'd) exec_Plugin \<Rightarrow> ExecutePluginReportSingleChain \<Rightarrow> nat" where
  "plugin_size p cr = (case xc_Encode (xpl_reportCodec p) \<lparr>epr_ChainReports = [cr]\<rparr> of Ok encoded \<Rightarrow> length encoded | _ \<Rightarrow> 0)"

definition plugin_gas :: "('c, 'd) exec_Plugin \<Rightarrow> ExecutePluginReportSingleChain \<Rightarrow> nat" where
  "plugin_gas p cr = (case xpl_estimateProvider p of Some ep \<Rightarrow> unat (report_gas ep cr) | None \<Rightarrow> 0)"

lemma plugin_sizes: "enc_size (filter_builder xl ol p nonces) = plugin_size p" "gas_size (filter_builder xl ol p nonces) = plugin_gas p"
  by (simp_all add: fun_eq_iff enc_size_def gas_size_def plugin_size_def plugin_gas_def filter_builder_fields)

text \<open>An execute report within the limits of the plugin's configuration.\<close>

definition within_limits :: "ocr_limits \<Rightarrow> ('c, 'd) exec_Plugin \<Rightarrow> ExecutePluginReport \<Rightarrow> bool" where
  "within_limits ol p r \<longleftrightarrow>
     sum_list (map (plugin_size p) (epr_ChainReports r)) \<le> unat (ol_MaxMaxReportLength ol) \<and>
     sum_list (map (plugin_gas p) (epr_ChainReports r)) \<le> unat (eoc_BatchGasLimit (xpl_offchainCfg p)) \<and>
     (eoc_MaxSingleChainReports (xpl_offchainCfg p) \<noteq> 0 \<longrightarrow>
        length (epr_ChainReports r) \<le> unat (eoc_MaxSingleChainReports (xpl_offchainCfg p))) \<and>
     (\<forall>cr \<in> set (epr_ChainReports r). er_Messages cr \<noteq> [] \<and> verifyReportNonceContinuity (xpl_addrCodec p) cr = Ok () \<and>
        (eoc_MaxReportMessages (xpl_offchainCfg p) \<noteq> 0 \<longrightarrow> length (er_Messages cr) \<le> unat (eoc_MaxReportMessages (xpl_offchainCfg p))))"

text \<open>A chain report beside the root that its info names: both come from one commit report of the previous outcome, the messages of
  the chain report are messages of it that were not executed, with the proof that the tree of its hashes gives.\<close>

definition proved_by :: "exec_lib \<Rightarrow> CommitData set \<Rightarrow> ExecutePluginReportSingleChain \<Rightarrow> MerkleRootChain \<Rightarrow> bool" where
  "proved_by xl src cr root \<longleftrightarrow> (\<exists>cd0 \<in> src. root = root_of_commit cd0 \<and> er_SourceChainSelector cr = cd_SourceChain cd0 \<and>
     set (er_Messages cr) \<subseteq> set (cd_Messages cd0) \<and>
     (\<forall>m \<in> set (er_Messages cr). mh_SequenceNumber (msg_Header m) \<notin> set (cd_ExecutedMessages cd0) \<and> \<not> xl_IsPseudoDeleted xl m) \<and>
     (\<exists>tree. xl_NewTree xl (cd_Hashes cd0) = Ok tree \<and> mt_Root tree = cd_MerkleRoot cd0))"

lemma selected_proved:
  assumes "selected xl src b cr cd"
  shows "proved_by xl src cr (root_of_commit cd)"
proof -
  obtain cd0 cd1 idxs where s: "cd0 \<in> src" "grown cd0 cd1" "cd = markNewMessagesExecuted cr cd1"
      "chain_report_of xl cr cd1 idxs" "\<forall>i \<in> set idxs. ready_at xl cd1 i"
    using assms unfolding selected_def by blast
  have cd1: "cd1 = cd0\<lparr>cd_ExecutedMessages := cd_ExecutedMessages cd1\<rparr>" "set (cd_ExecutedMessages cd0) \<subseteq> set (cd_ExecutedMessages cd1)"
    using s(2) unfolding grown_def by blast+
  have f: "cd_SourceChain cd1 = cd_SourceChain cd0" "cd_OnRampAddress cd1 = cd_OnRampAddress cd0" "cd_MerkleRoot cd1 = cd_MerkleRoot cd0"
      "cd_SequenceNumberRange cd1 = cd_SequenceNumberRange cd0" "cd_Messages cd1 = cd_Messages cd0" "cd_Hashes cd1 = cd_Hashes cd0"
    by (subst cd1(1), simp)+
  have root: "root_of_commit cd = root_of_commit cd0" by (simp add: s(3) markNewMessagesExecuted_def root_of_commit_def f)
  obtain tree where t: "ConstructMerkleTree xl cd1 = Ok tree" "mt_Root tree = cd_MerkleRoot cd0"
    using s(4) by (auto simp: chain_report_of_def f)
  have "xl_NewTree xl (cd_Hashes cd0) = Ok tree"
    using t(1) by (auto simp: ConstructMerkleTree_def Let_def rbind_Ok_iff f split: if_splits)
  moreover have "er_Messages cr = map ((!) (cd_Messages cd0)) idxs" "er_SourceChainSelector cr = cd_SourceChain cd0"
      "set idxs \<subseteq> {..< length (cd_Messages cd0)}"
    using s(4) by (auto simp: chain_report_of_def f)
  moreover have "mh_SequenceNumber (msg_Header (cd_Messages cd0 ! i)) \<notin> set (cd_ExecutedMessages cd0) \<and>
      \<not> xl_IsPseudoDeleted xl (cd_Messages cd0 ! i)" if "i \<in> set idxs" for i
    using s(5) that cd1(2) by (auto simp: ready_at_def f)
  ultimately show ?thesis
    using s(1) t(2) root unfolding proved_by_def by (intro bexI [of _ cd0]) auto
qed

text \<open>The infos of the reports of an outcome: one for each, naming a root for each chain report.\<close>

definition infos_match :: "exec_lib \<Rightarrow> CommitData set \<Rightarrow> exec_Outcome \<Rightarrow> bool" where
  "infos_match xl src out \<longleftrightarrow> (\<exists>infos. extractReportInfo out = Ok infos \<and>
     list_all2 (\<lambda>r info. eri_AbstractReports info = epr_ChainReports r \<and>
       list_all2 (proved_by xl src) (epr_ChainReports r) (eri_MerkleRoots info)) (xo_Reports out) infos)"

lemma list_all2_map2I:
  assumes "length xs = length ys" and "\<And>i. i < length xs \<Longrightarrow> P (xs ! i) (f (xs ! i) (ys ! i))"
  shows "list_all2 P xs (map2 f xs ys)"
  using assms by (auto simp: list_all2_conv_all_nth)

lemma list_all2_left: "list_all2 P xs ys \<Longrightarrow> x \<in> set xs \<Longrightarrow> \<exists>y. P x y"
  by (induction rule: list_all2_induct) auto

lemma filter_outcome_infos:
  assumes "getFilterOutcome xl ol p obs prev = Some (Ok out)"
  shows "xo_State out = Filter" "length (xo_Reports out) \<le> 50"
    "\<forall>r \<in> set (xo_Reports out). within_limits ol p r" "infos_match xl (set (xo_CommitReports prev)) out"
proof -
  let ?b = "filter_builder xl ol p (xob_Nonces obs)" and ?src = "set (xo_CommitReports prev)"
  obtain reports commits where sel: "selectReports xl (xo_CommitReports prev) ?b = Some (Ok (reports, commits))"
    and out: "out = exec_NewOutcome Filter (concat commits) reports"
    using assms by (auto simp: getFilterOutcome_def obind_Ok_iff)
  obtain accs where len: "length reports \<le> length accs" "length commits = length accs"
    and slots: "\<And>i. i < length reports \<Longrightarrow> slot_ok xl ?src ?b (accs ! i) (reports ! i) (commits ! i)"
    and count: "length reports \<le> max 1 (unat (b_maxReportCount ?b))"
    by (rule selectReports_slots [OF filter_builder_fields(1) sel]) blast
  show "xo_State out = Filter" by (simp add: out exec_NewOutcome_def)
  show "length (xo_Reports out) \<le> 50" using count by (simp add: filter_builder_fields out exec_NewOutcome_def)
  show "\<forall>r \<in> set (xo_Reports out). within_limits ol p r"
  proof
    fix r assume "r \<in> set (xo_Reports out)"
    then obtain i where i: "i < length reports" "r = reports ! i" by (auto simp: out exec_NewOutcome_def in_set_conv_nth)
    with slots have s: "slot_ok xl ?src ?b (accs ! i) r (commits ! i)" by simp
    have "er_Messages cr \<noteq> [] \<and> verifyReportNonceContinuity (xpl_addrCodec p) cr = Ok () \<and>
        (eoc_MaxReportMessages (xpl_offchainCfg p) \<noteq> 0 \<longrightarrow> length (er_Messages cr) \<le> unat (eoc_MaxReportMessages (xpl_offchainCfg p)))"
      if cr: "cr \<in> set (epr_ChainReports r)" for cr
    proof -
      obtain cd where cd: "selected xl ?src ?b cr cd"
        using list_all2_left [OF _ cr] s unfolding slot_ok_def by blast
      then have "verifyReportNonceContinuity (b_addressCodec ?b) cr = Ok ()" unfolding selected_def by blast
      with selected_messages [OF cd] show ?thesis by (simp add: filter_builder_fields)
    qed
    with s show "within_limits ol p r"
      by (simp add: within_limits_def slot_ok_def plugin_sizes filter_builder_fields word_le_nat_alt)
  qed
  let ?dss = "take (length reports) commits"
  have sel2: "list_all2 (selected xl ?src ?b) (epr_ChainReports (reports ! i)) (commits ! i)" if "i < length reports" for i
    using slots [OF that] by (simp add: slot_ok_def)
  have al: "list_all2 (\<lambda>r ds. length ds = length (epr_ChainReports r)) reports ?dss"
    using len sel2 by (auto simp: list_all2_conv_all_nth dest: list_all2_lengthD)
  have "concat commits = [] @ concat ?dss @ concat (drop (length reports) commits)"
    by (metis append_Nil append_take_drop_id concat_append)
  with report_infos_aligned [OF al, of "[]"]
  have "extractReportInfo out = Ok (map2 (\<lambda>r ds. \<lparr>eri_AbstractReports = epr_ChainReports r, eri_MerkleRoots = map root_of_commit ds\<rparr>) reports ?dss)"
    by (simp add: extractReportInfo_def out exec_NewOutcome_def)
  moreover have "list_all2 (\<lambda>r info. eri_AbstractReports info = epr_ChainReports r \<and>
       list_all2 (proved_by xl ?src) (epr_ChainReports r) (eri_MerkleRoots info)) reports
       (map2 (\<lambda>r ds. \<lparr>eri_AbstractReports = epr_ChainReports r, eri_MerkleRoots = map root_of_commit ds\<rparr>) reports ?dss)"
  proof (rule list_all2_map2I)
    show "length reports = length ?dss" using len by simp
    fix i assume i: "i < length reports"
    have "list_all2 (proved_by xl ?src) (epr_ChainReports (reports ! i)) (map root_of_commit (commits ! i))"
      unfolding list.rel_map using sel2 [OF i] by (rule list_all2_mono) (rule selected_proved)
    with i show "eri_AbstractReports \<lparr>eri_AbstractReports = epr_ChainReports (reports ! i), eri_MerkleRoots = map root_of_commit (?dss ! i)\<rparr> =
        epr_ChainReports (reports ! i) \<and> list_all2 (proved_by xl ?src) (epr_ChainReports (reports ! i))
        (eri_MerkleRoots \<lparr>eri_AbstractReports = epr_ChainReports (reports ! i), eri_MerkleRoots = map root_of_commit (?dss ! i)\<rparr>)"
      by simp
  qed
  ultimately show "infos_match xl ?src out" by (auto simp: infos_match_def out exec_NewOutcome_def)
qed

section \<open>The cycle of outcomes\<close>

text \<open>Two oracles, or one oracle at two times, that compute outcomes with the same configuration; their caches and connections may
  differ.\<close>

definition same_setup :: "('c, 'd) exec_Plugin \<Rightarrow> ('c, 'd) exec_Plugin \<Rightarrow> bool" where
  "same_setup p p' \<longleftrightarrow> xpl_offchainCfg p' = xpl_offchainCfg p \<and> xpl_reportCodec p' = xpl_reportCodec p \<and>
     xpl_estimateProvider p' = xpl_estimateProvider p \<and> xpl_addrCodec p' = xpl_addrCodec p"

lemma within_limits_setup: "same_setup p p' \<Longrightarrow> within_limits ol p' = within_limits ol p"
proof -
  assume s: "same_setup p p'"
  have "plugin_size p' = plugin_size p" "plugin_gas p' = plugin_gas p"
    using s by (simp_all add: fun_eq_iff plugin_size_def plugin_gas_def same_setup_def)
  moreover have "xpl_offchainCfg p' = xpl_offchainCfg p" "xpl_addrCodec p' = xpl_addrCodec p" using s by (simp_all add: same_setup_def)
  ultimately show ?thesis by (intro ext) (simp only: within_limits_def)
qed

text \<open>One round, on any observations and with any answers of the environment: a round that returns nothing leaves the empty
  outcome. The outcome goes to the next round as it is; what its encoding drops (nil integers, errors of token data and their
  support) is in none of the statements below.\<close>

definition exec_round :: "exec_lib \<Rightarrow> ocr_limits \<Rightarrow> ('c, 'd) exec_Plugin \<Rightarrow> exec_Outcome \<Rightarrow> exec_Outcome \<Rightarrow> bool" where
  "exec_round xl ol p prev out \<longleftrightarrow>
     (\<exists>p' aos res. same_setup p p' \<and> exec_outcome xl ol p' prev aos = Some (Ok res) \<and>
        out = (case res of None \<Rightarrow> exec_Outcome_zero | Some out' \<Rightarrow> out'))"

text \<open>Which state a round can leave after which: commit reports, then messages, then filter, then commit reports again; a round
  that finds nothing falls back to the initial states.\<close>

definition follows :: "PluginState \<Rightarrow> PluginState \<Rightarrow> bool" where
  "follows s t \<longleftrightarrow>
     t = Unknown \<or> t = Initialized \<or>
     t = GetCommitReports \<and> (s = Unknown \<or> s = Initialized \<or> s = Filter) \<or>
     t = GetMessages \<and> s = GetCommitReports \<or>
     t = Filter \<and> s = GetMessages"

text \<open>The outcomes that rounds can reach from the empty one.\<close>

inductive exec_reach :: "exec_lib \<Rightarrow> ocr_limits \<Rightarrow> ('c, 'd) exec_Plugin \<Rightarrow> exec_Outcome \<Rightarrow> bool"
  for xl :: exec_lib and ol :: ocr_limits and p :: "('c, 'd) exec_Plugin" where
  start: "exec_reach xl ol p exec_Outcome_zero"
| round: "exec_reach xl ol p prev \<Longrightarrow> exec_round xl ol p prev out \<Longrightarrow> exec_reach xl ol p out"

definition exec_inv :: "exec_lib \<Rightarrow> ocr_limits \<Rightarrow> ('c, 'd) exec_Plugin \<Rightarrow> exec_Outcome \<Rightarrow> bool" where
  "exec_inv xl ol p out \<longleftrightarrow>
     (xo_State out = Unknown \<or> xo_State out = Initialized) \<and> xo_CommitReports out = [] \<and> xo_Reports out = [] \<or>
     (xo_State out = GetCommitReports \<or> xo_State out = GetMessages) \<and> xo_CommitReports out \<noteq> [] \<and> xo_Reports out = [] \<and>
       sorted (map cd_key (xo_CommitReports out)) \<and>
       (\<forall>cd \<in> set (xo_CommitReports out). length (cd_Hashes cd) = length (cd_Messages cd) \<and>
          length (cd_MessageTokenData cd) = length (cd_Messages cd) \<and> (xo_State out = GetCommitReports \<longrightarrow> cd_Messages cd = [])) \<or>
     xo_State out = Filter \<and> length (xo_Reports out) \<le> 50 \<and> (\<forall>r \<in> set (xo_Reports out). within_limits ol p r) \<and>
       (\<exists>prev. exec_reach xl ol p prev \<and> xo_State prev = GetMessages \<and> infos_match xl (set (xo_CommitReports prev)) out)"

text \<open>Agreed commit reports carry no messages.\<close>

definition bare :: "CommitData \<Rightarrow> bool" where
  "bare cd \<longleftrightarrow> cd_Messages cd = [] \<and> cd_Hashes cd = [] \<and> cd_MessageTokenData cd = []"

lemma commit_consensus_bare:
  "\<forall>cd \<in> set (CommitObservations_Flatten (computeCommitObservationsConsensus aos fChain)). bare cd"
proof
  fix cd assume "cd \<in> set (CommitObservations_Flatten (computeCommitObservationsConsensus aos fChain))"
  then obtain c ds where "(c, ds) \<in> set (computeCommitObservationsConsensus aos fChain)" "cd \<in> set ds"
    by (auto simp: CommitObservations_Flatten_def)
  moreover have "gm_ok (computeCommitObservationsConsensus aos fChain)"
    using computeCommitObservationsConsensus_exact [of aos fChain] by blast
  ultimately have "cd \<in> set (gm_vals (computeCommitObservationsConsensus aos fChain) c)" by (auto simp: gm_vals_entry)
  then show "bare cd" by (rule agreed_commit) (simp add: bare_def commit_of_def)
qed

lemma attach_lengths:
  "bare cd \<Longrightarrow> length (cd_Hashes (attach obs cd)) = length (cd_Messages (attach obs cd)) \<and>
     length (cd_MessageTokenData (attach obs cd)) = length (cd_Messages (attach obs cd))"
  by (simp add: attach_def bare_def Let_def)

lemma add_messages_max:
  assumes "sr_End (cd_SequenceNumberRange cd) = - 1"
  shows "add_messages obs cd = None"
  unfolding add_messages_def assms by (subst for_seq_never) (auto split: option.split)

lemma messages_loop_Some:
  assumes "messages_loop obs i acc cds = Some res" and "length acc = i"
  shows "res = acc @ map (attach obs) cds"
proof -
  have "messages_loop obs i acc cds = Some res \<Longrightarrow> \<forall>cd \<in> set cds. sr_End (cd_SequenceNumberRange cd) \<noteq> - 1"
    by (induction cds arbitrary: i acc) (auto simp: add_messages_max split: option.splits)
  with assms messages_loop_attach [OF _ assms(2)] show ?thesis by (metis option.inject)
qed

lemma getMessagesOutcome_result:
  assumes "getMessagesOutcome xl obs = Some (Ok out)"
  shows "out = exec_Outcome_zero \<or>
    out = NewOutcomeWithSortedCommitReports GetMessages (map (attach obs) (CommitObservations_Flatten (xob_CommitReports obs)))"
  using assms messages_loop_Some [of obs 0 "[]"]
  by (auto simp: getMessagesOutcome_def split: result.splits option.splits)

lemma consensus_reports_bare:
  assumes "computeConsensusObservation xl aos dest f = Ok obs"
  shows "\<forall>cd \<in> set (CommitObservations_Flatten (xob_CommitReports obs)). bare cd"
  using assms commit_consensus_bare
  by (auto simp: computeConsensusObservation_def Let_def rbind_Ok_iff NewObservation_def split: option.splits)

text \<open>What one round decides, by the state it is in.\<close>

lemma exec_outcome_cases:
  assumes "exec_outcome xl ol p prev aos = Some (Ok (Some out))"
  obtains (empty) "out = exec_Outcome_zero\<lparr>xo_State := Initialized\<rparr>"
    | (reports) obs where "out = getCommitReportsOutcome obs" "\<not> exec_Outcome_IsEmpty out"
        "xo_State prev = Unknown \<or> xo_State prev = Initialized \<or> xo_State prev = Filter"
        "\<forall>cd \<in> set (CommitObservations_Flatten (xob_CommitReports obs)). bare cd"
    | (messages) obs where "out = NewOutcomeWithSortedCommitReports GetMessages (map (attach obs) (CommitObservations_Flatten (xob_CommitReports obs)))"
        "\<not> exec_Outcome_IsEmpty out" "xo_State prev = GetCommitReports"
        "\<forall>cd \<in> set (CommitObservations_Flatten (xob_CommitReports obs)). bare cd"
    | (filter) obs where "xo_State prev = GetMessages" "getFilterOutcome xl ol p obs prev = Some (Ok out)"
proof -
  obtain st obs filtered where st: "Next (xo_State prev) = Ok st" and obs: "computeConsensusObservation xl aos (xpl_destChain p) (xpl_F p) = Ok obs"
    and fl: "(if st = GetCommitReports then Some (Ok (Some (getCommitReportsOutcome obs)))
            else if st = GetMessages then obind (getMessagesOutcome xl obs) (\<lambda>out. Some (Ok (Some out)))
            else if st = Filter then
              (case getFilterOutcome xl ol p obs prev of
                 None \<Rightarrow> None
               | Some (Ok out) \<Rightarrow> Some (Ok (Some out))
               | Some (Error _) \<Rightarrow> Some (Ok None)
               | Some Panic \<Rightarrow> Some Panic)
            else Some Panic) = Some (Ok (Some filtered))"
    and out: "out = (if exec_Outcome_IsEmpty filtered then exec_Outcome_zero\<lparr>xo_State := Initialized\<rparr> else filtered)"
    using assms unfolding exec_outcome_def obind_Ok_iff by (fastforce split: option.splits if_splits)
  note bare = consensus_reports_bare [OF obs]
  show thesis
  proof (cases "exec_Outcome_IsEmpty filtered")
    case True
    with out empty show thesis by simp
  next
    case False
    with out have f: "filtered = out" "\<not> exec_Outcome_IsEmpty out" by simp_all
    consider "st = GetCommitReports" | "st = GetMessages" | "st = Filter" using fl by (auto split: if_splits)
    then show thesis
    proof cases
      case 1
      with st have "xo_State prev = Unknown \<or> xo_State prev = Initialized \<or> xo_State prev = Filter"
        by (auto simp: Next_def split: if_splits)
      with 1 fl f bare show thesis by (intro reports [of obs]) simp_all
    next
      case 2
      then have "getMessagesOutcome xl obs = Some (Ok out)" using fl f by (auto simp: obind_Ok_iff)
      then have "out = NewOutcomeWithSortedCommitReports GetMessages (map (attach obs) (CommitObservations_Flatten (xob_CommitReports obs)))"
        using getMessagesOutcome_result [of xl obs out] f(2) by (auto simp: exec_Outcome_IsEmpty_def exec_Outcome_zero_def)
      moreover have "xo_State prev = GetCommitReports" using 2 st by (auto simp: Next_def split: if_splits)
      ultimately show thesis using f bare by (intro messages [of obs]) simp_all
    next
      case 3
      with st have "xo_State prev = GetMessages" by (auto simp: Next_def split: if_splits)
      with 3 fl f show thesis by (intro filter [of obs]) (auto split: option.splits result.splits)
    qed
  qed
qed

text \<open>What a round leaves: nothing, or an outcome by its state.\<close>

lemma exec_round_cases:
  assumes "exec_round xl ol p prev out"
  obtains (nothing) "out = exec_Outcome_zero"
    | (some) p' aos where "same_setup p p'" "exec_outcome xl ol p' prev aos = Some (Ok (Some out))"
  using assms by (auto simp: exec_round_def split: option.splits)

lemma exec_round_follows:
  assumes "exec_round xl ol p prev out"
  shows "follows (xo_State prev) (xo_State out) \<and>
    (xo_State out = Filter \<longrightarrow> infos_match xl (set (xo_CommitReports prev)) out)"
  using assms
proof (cases rule: exec_round_cases)
  case nothing
  then show ?thesis by (simp add: follows_def exec_Outcome_zero_def)
next
  case (some p' aos)
  from some(2) show ?thesis
  proof (cases rule: exec_outcome_cases)
    case empty
    then show ?thesis by (simp add: follows_def exec_Outcome_zero_def)
  next
    case (reports obs)
    then show ?thesis by (auto simp: follows_def getCommitReportsOutcome_def NewOutcomeWithSortedCommitReports_def)
  next
    case (messages obs)
    then show ?thesis by (auto simp: follows_def NewOutcomeWithSortedCommitReports_def)
  next
    case (filter obs)
    from filter_outcome_infos [OF filter(2)] filter(1) show ?thesis by (simp add: follows_def)
  qed
qed

lemma exec_reach_predecessor:
  assumes "exec_reach xl ol p out" and "out \<noteq> exec_Outcome_zero"
  shows "\<exists>prev. exec_reach xl ol p prev \<and> exec_round xl ol p prev out"
  using assms by cases auto

lemma exec_reach_inv:
  assumes "exec_reach xl ol p out"
  shows "exec_inv xl ol p out"
  using assms
proof cases
  case start
  then show ?thesis by (simp add: exec_inv_def exec_Outcome_zero_def)
next
  case (round prev)
  from round(2) show ?thesis
  proof (cases rule: exec_round_cases)
    case nothing
    then show ?thesis by (simp add: exec_inv_def exec_Outcome_zero_def)
  next
    case (some p' aos)
    from some(2) show ?thesis
    proof (cases rule: exec_outcome_cases)
      case empty
      then show ?thesis by (simp add: exec_inv_def exec_Outcome_zero_def)
    next
      case (reports obs)
      have "\<forall>cd \<in> set (xo_CommitReports out). bare cd"
        using reports(4) by (simp add: reports(1) getCommitReportsOutcome_def NewOutcomeWithSortedCommitReports_def CommitObservations_Flatten_def)
      with reports(2) show ?thesis
        by (simp add: exec_inv_def reports(1) getCommitReportsOutcome_def NewOutcomeWithSortedCommitReports_def exec_Outcome_IsEmpty_def bare_def)
    next
      case (messages obs)
      have "\<forall>cd \<in> set (xo_CommitReports out). length (cd_Hashes cd) = length (cd_Messages cd) \<and>
          length (cd_MessageTokenData cd) = length (cd_Messages cd)"
        using messages(4) attach_lengths by (auto simp: messages(1) NewOutcomeWithSortedCommitReports_def)
      with messages(2) show ?thesis
        by (simp add: exec_inv_def messages(1) NewOutcomeWithSortedCommitReports_def exec_Outcome_IsEmpty_def)
    next
      case (filter obs)
      from filter_outcome_infos [OF filter(2)] filter(1) round(1) within_limits_setup [OF some(1), of ol]
      show ?thesis unfolding exec_inv_def by metis
    qed
  qed
qed

text \<open>C1. The outcomes of the execute plugin, over any rounds and observations, faulty ones included. Whatever outcome a round
  starts from, its state and that of the outcome it leaves follow one another in the cycle of commit reports, messages and filter,
  a round that finds nothing falling back to the initial states; and every outcome but the empty one is left by a round from a
  reachable outcome. Commit reports and messages come sorted, without reports, and as many hashes and token data as messages.
  A filter outcome has at most 50 reports, each within the configured size, gas, numbers of chain reports and of messages and with
  continuous nonces; and the infos of its reports exist and name, for each chain report, the root of a commit report of the
  round before that its messages are in and that the tree of the agreed hashes has.\<close>

theorem exec_reachable_invariant:
  assumes "exec_reach xl ol p out"
  shows "exec_inv xl ol p out \<and>
    (out \<noteq> exec_Outcome_zero \<longrightarrow> (\<exists>prev. exec_reach xl ol p prev \<and> exec_round xl ol p prev out)) \<and>
    (\<forall>prev. exec_round xl ol p prev out \<longrightarrow> follows (xo_State prev) (xo_State out) \<and>
       (xo_State out = Filter \<longrightarrow> infos_match xl (set (xo_CommitReports prev)) out))"
  using exec_reach_inv [OF assms] exec_reach_predecessor [OF assms] exec_round_follows by blast

section \<open>A run\<close>

text \<open>Three oracles that see one commit report of chain 7 with two messages, through the three phases.\<close>

definition sample_run_msg :: "u64 \<Rightarrow> Message" where
  "sample_run_msg n = (sample_exec_msg n 0 [1])\<lparr>msg_Header := (msg_Header (sample_exec_msg n 0 [1]))\<lparr>
       mh_MessageID := replicate 32 (ucast n), mh_SourceChainSelector := 7,
       mh_DestChainSelector := 5\<rparr>\<rparr>"

definition sample_run_cd :: CommitData where
  "sample_run_cd = (sample_exec_cd 1 2 [])\<lparr>cd_SourceChain := 7, cd_MerkleRoot := replicate 32 1\<rparr>"

definition sample_run_aos :: "nat \<Rightarrow> exec_ao list" where
  "sample_run_aos phase =
     (let reports = [(7, [sample_run_cd])];
          obs = (if phase = 0 then exec_Observation_zero\<lparr>xob_CommitReports := reports\<rparr>
             else if phase = 1 then exec_Observation_zero\<lparr>xob_CommitReports := reports,
               xob_Messages := [(7, [(1, sample_run_msg 1), (2, sample_run_msg 2)])],
               xob_Hashes := [(7, [(1, replicate 32 1), (2, replicate 32 2)])],
               xob_TokenData := [(7, [(1, NewMessageTokenData []), (2, NewMessageTokenData [])])]\<rparr>
             else exec_Observation_zero\<lparr>xob_Nonces := [(7, [(''a'', 0)])]\<rparr>)
      in map (\<lambda>i. \<lparr>ao_OracleID = i, ao_Observation = obs\<lparr>xob_FChain := [(5, 1), (7, 1)]\<rparr>\<rparr>) [0, 1, 2])"

text \<open>A checksum that tells a message from its empty form.\<close>

definition sample_run_xl :: exec_lib where
  "sample_run_xl = sample_xl\<lparr>xl_sum_message := (\<lambda>m. ucast (mh_DestChainSelector (msg_Header m)) # mh_MessageID (msg_Header m))\<rparr>"

definition sample_limits :: ocr_limits where
  "sample_limits = \<lparr>ol_MaxMaxObservationLength = 1000, ol_MaxMaxReportLength = 100\<rparr>"

definition sample_step :: "nat \<Rightarrow> exec_Outcome \<Rightarrow> exec_Outcome option result option" where
  "sample_step phase prev = exec_outcome sample_run_xl sample_limits (sample_exec_plugin []) prev (sample_run_aos phase)"

definition sample_outcome :: "nat \<Rightarrow> exec_Outcome" where
  "sample_outcome n = fold (\<lambda>phase prev. case sample_step phase prev of Some (Ok (Some out)) \<Rightarrow> out | _ \<Rightarrow> exec_Outcome_zero)
     [0 ..< n] exec_Outcome_zero"

lemma sample_outcome_Suc:
  "sample_step n (sample_outcome n) = Some (Ok (Some out)) \<Longrightarrow> sample_outcome (Suc n) = out"
  by (simp add: sample_outcome_def)

lemma sample_round:
  assumes "sample_step n (sample_outcome n) = Some (Ok (Some out))"
  shows "exec_round sample_run_xl sample_limits (sample_exec_plugin []) (sample_outcome n) (sample_outcome (Suc n))"
proof -
  have "same_setup (sample_exec_plugin []) (sample_exec_plugin [])" by (simp add: same_setup_def)
  with assms show ?thesis unfolding exec_round_def sample_outcome_Suc [OF assms] sample_step_def
    by (intro exI [of _ "sample_exec_plugin []"] exI [of _ "sample_run_aos n"] exI [of _ "Some out"]) simp
qed

lemma sample_reach:
  assumes "list_all (\<lambda>k. case sample_step k (sample_outcome k) of Some (Ok (Some _)) \<Rightarrow> True | _ \<Rightarrow> False) [0 ..< n]"
  shows "exec_reach sample_run_xl sample_limits (sample_exec_plugin []) (sample_outcome n)"
  using assms
proof (induction n)
  case 0
  show ?case by (simp add: sample_outcome_def exec_reach.start)
next
  case (Suc n)
  then obtain out where "sample_step n (sample_outcome n) = Some (Ok (Some out))"
    by (auto split: option.splits result.splits)
  with Suc show ?case by (auto intro: exec_reach.round sample_round)
qed

theorem exec_reachable_invariant_witness:
  "map (\<lambda>n. xo_State (sample_outcome n)) [0, 1, 2, 3] = [Unknown, GetCommitReports, GetMessages, Filter] \<and>
   map seq_numbers (concat (map epr_ChainReports (xo_Reports (sample_outcome 3)))) = [[1, 2]] \<and>
   exec_inv sample_run_xl sample_limits (sample_exec_plugin []) (sample_outcome 3) \<and>
   follows (xo_State (sample_outcome 2)) (xo_State (sample_outcome 3)) \<and>
   infos_match sample_run_xl (set (xo_CommitReports (sample_outcome 2))) (sample_outcome 3)"
proof -
  have run: "list_all (\<lambda>k. case sample_step k (sample_outcome k) of Some (Ok (Some _)) \<Rightarrow> True | _ \<Rightarrow> False) [0 ..< 3]" by code_simp
  then have "case sample_step 2 (sample_outcome 2) of Some (Ok (Some _)) \<Rightarrow> True | _ \<Rightarrow> False"
    by (simp add: list_all_iff)
  then obtain out where "sample_step 2 (sample_outcome 2) = Some (Ok (Some out))" by (auto split: option.splits result.splits)
  moreover have "Suc 2 = 3" by simp
  ultimately have round: "exec_round sample_run_xl sample_limits (sample_exec_plugin []) (sample_outcome 2) (sample_outcome 3)"
    using sample_round [of 2 out] by (simp only:)
  have states: "map (\<lambda>n. xo_State (sample_outcome n)) [0, 1, 2, 3] = [Unknown, GetCommitReports, GetMessages, Filter]"
    "map seq_numbers (concat (map epr_ChainReports (xo_Reports (sample_outcome 3)))) = [[1, 2]]"
    by code_simp+
  with exec_reachable_invariant [OF sample_reach [OF run]] round show ?thesis by (simp add: follows_def)
qed

text \<open>A complete observation, and the two messages it attaches to the report.\<close>

definition sample_run_obs :: exec_Observation where
  "sample_run_obs = ao_Observation (hd (sample_run_aos 1))"

theorem getMessagesOutcome_spec_witness:
  "\<exists>out. getMessagesOutcome sample_run_xl sample_run_obs = Some (Ok out) \<and> complete sample_run_xl sample_run_obs \<and>
     map cd_Messages (xo_CommitReports out) = [[sample_run_msg 1, sample_run_msg 2]] \<and>
     agreed_numbers sample_run_obs sample_run_cd = [1, 2]"
proof -
  have ok: "gm_ok2 (xob_Messages sample_run_obs)" "gm_ok2 (xob_Hashes sample_run_obs)" "gm_ok2 (xob_TokenData sample_run_obs)"
    by (simp_all add: sample_run_obs_def sample_run_aos_def Let_def gm_ok2_def gm_ok_def)
  have ends: "\<forall>cd \<in> set (CommitObservations_Flatten (xob_CommitReports sample_run_obs)). sr_End (cd_SequenceNumberRange cd) \<noteq> - 1"
    by (simp add: sample_run_obs_def sample_run_aos_def Let_def CommitObservations_Flatten_def sample_run_cd_def sample_exec_cd_def)
  have "validateHashesExist sample_run_xl (xob_Messages sample_run_obs) (xob_Hashes sample_run_obs) = Ok ()"
    "validateTokenDataObservations (xob_Messages sample_run_obs) (xob_TokenData sample_run_obs) = Ok ()"
    by code_simp+
  then have c: "complete sample_run_xl sample_run_obs" unfolding complete_iff [OF ok] by blast
  have "map cd_Messages (xo_CommitReports (NewOutcomeWithSortedCommitReports GetMessages
      (map (attach sample_run_obs) (CommitObservations_Flatten (xob_CommitReports sample_run_obs))))) =
      [[sample_run_msg 1, sample_run_msg 2]]" "agreed_numbers sample_run_obs sample_run_cd = [1, 2]"
    by code_simp+
  with getMessagesOutcome_spec [OF ok ends, of sample_run_xl] c show ?thesis by simp
qed

text \<open>A report without any agreed message stays in the outcome.\<close>

lemma empty_report_is_kept:
  "map_option (\<lambda>r. rbind r (\<lambda>out. Ok (xo_CommitReports out)))
     (getMessagesOutcome sample_run_xl (sample_run_obs\<lparr>xob_Messages := [], xob_Hashes := [], xob_TokenData := []\<rparr>)) =
     Some (Ok [sample_run_cd])"
  by code_simp

end
