(* ===== verification/ReaderDiscovery.thy ===== *)
theory ReaderDiscovery
  imports ExecConsensus Discovery
begin

text \<open>
  How the chain reader discovers the contracts (pkg/reader/ccip.go, \<open>DiscoverContracts\<close>), from the configs that its config
  poller returns. The other methods of the reader are not modelled: the plugins see them as the answers in \<open>ccip_reader\<close>.

  The lemmas show that what the discovery processor observes through this reader passes its own validation: only contracts of
  chains that the oracle supports are observed, and those that are read from the destination only by an oracle that supports it.
\<close>

section \<open>DiscoverContracts\<close>

text \<open>The parts of \<open>ChainConfigSnapshot\<close> that discovery reads.\<close>

record ChainConfigSnapshot =
  ccs_OffRampRmnRemote :: "byte list"
  ccs_OffRampNonceManager :: "byte list"
  ccs_OffRampFeeQuoter :: "byte list"
  ccs_OnRampFeeQuoter :: "byte list"
  ccs_OnRampRouter :: "byte list"

text \<open>The reader: the chains that it has a contract reader or an accessor for, what the config poller answers during one discovery, and
  the order in which the goroutines of a list of chains take the mutex.\<close>

record ccipChainReader =
  ccr_destChain :: ChainSelector
  ccr_readers :: "ChainSelector list"
  ccr_GetChainConfig :: "ChainSelector \<Rightarrow> ChainConfigSnapshot result"
  ccr_GetOfframpSourceChainConfigs :: "ChainSelector \<Rightarrow> ChainSelector list \<Rightarrow> (ChainSelector, StaticSourceChainConfig) gomap result"
  ccr_order :: "ChainSelector list \<Rightarrow> ChainSelector list"

definition StaticSourceChainConfig_check :: "StaticSourceChainConfig \<Rightarrow> bool result" where
  "StaticSourceChainConfig_check s =
     (if \<not> ssc_IsEnabled s then Ok False
      else if ssc_OnRamp s = [] then Error (Err ''onRamp misconfigured/didn't unmarshal'')
      else if ssc_Router s = [] then Error (Err ''router is empty'')
      else Ok (ssc_IsEnabled s))"

definition ContractAddresses_Append :: "string \<Rightarrow> ChainSelector \<Rightarrow> byte list \<Rightarrow> ContractAddresses \<Rightarrow> ContractAddresses" where
  "ContractAddresses_Append contract chain address ca = gm_put2 contract chain address ca"

text \<open>The loop that deletes the disabled chains.\<close>

fun delete_disabled :: "(ChainSelector, StaticSourceChainConfig) gomap \<Rightarrow> (ChainSelector, StaticSourceChainConfig) gomap result" where
  "delete_disabled [] = Ok []"
| "delete_disabled ((chain, cfg) # configs) =
     rbind (wrap_err ''source chain config check failed'' (StaticSourceChainConfig_check cfg)) (\<lambda>enabled.
     rbind (delete_disabled configs) (\<lambda>rest. Ok (if enabled then (chain, cfg) # rest else rest)))"

definition getOffRampSourceChainsConfig ::
  "ccipChainReader \<Rightarrow> ChainSelector list \<Rightarrow> bool \<Rightarrow> (ChainSelector, StaticSourceChainConfig) gomap result" where
  "getOffRampSourceChainsConfig r chs includeDisabled =
     rbind (wrap_err ''get source chain configs'' (ccr_GetOfframpSourceChainConfigs r (ccr_destChain r) chs)) (\<lambda>configs.
       if \<not> includeDisabled then delete_disabled configs else Ok configs)"

definition append_source_config ::
  "contract_names \<Rightarrow> ChainSelector \<Rightarrow> (ChainSelector, StaticSourceChainConfig) gomap \<Rightarrow> ChainSelector \<Rightarrow> ContractAddresses \<Rightarrow> ContractAddresses" where
  "append_source_config cn dest sourceConfigs sourceChain resp =
     (case map_of sourceConfigs sourceChain of
        None \<Rightarrow> resp
      | Some cfg \<Rightarrow>
          let resp = ContractAddresses_Append (cn_OnRamp cn) sourceChain (ssc_OnRamp cfg) resp
          in if (case gm_get2 resp (cn_Router cn) dest of None \<Rightarrow> True | Some address \<Rightarrow> address = [])
             then ContractAddresses_Append (cn_Router cn) dest (ssc_Router cfg) resp else resp)"

definition discoverOffRampContracts :: "contract_names \<Rightarrow> ccipChainReader \<Rightarrow> ChainSelector list \<Rightarrow> ContractAddresses result" where
  "discoverOffRampContracts cn r chs =
     rbind (wrap_err ''get chain config'' (ccr_GetChainConfig r (ccr_destChain r))) (\<lambda>snapshot.
     rbind (wrap_err ''unable to get SourceChainsConfig'' (getOffRampSourceChainsConfig r chs False)) (\<lambda>sourceConfigs.
       let dest = ccr_destChain r;
           resp = fold (append_source_config cn dest sourceConfigs) (sort (map fst sourceConfigs)) [];
           resp = (if ccs_OffRampRmnRemote snapshot \<noteq> []
                   then ContractAddresses_Append (cn_RMNRemote cn) dest (ccs_OffRampRmnRemote snapshot) resp else resp);
           resp = (if ccs_OffRampNonceManager snapshot \<noteq> []
                   then ContractAddresses_Append (cn_NonceManager cn) dest (ccs_OffRampNonceManager snapshot) resp else resp);
           resp = (if ccs_OffRampFeeQuoter snapshot \<noteq> []
                   then ContractAddresses_Append (cn_FeeQuoter cn) dest (ccs_OffRampFeeQuoter snapshot) resp else resp)
       in Ok resp))"

text \<open>One goroutine after the other, in the order of the mutex; a failed read of the config is logged. \<open>lib_IsZeroOrEmpty\<close> is a
  method of another module.\<close>

fun discover_sources :: "ccip_lib \<Rightarrow> contract_names \<Rightarrow> ccipChainReader \<Rightarrow> ChainSelector list \<Rightarrow> ContractAddresses \<Rightarrow> ContractAddresses result" where
  "discover_sources lib cn r [] resp = Ok resp"
| "discover_sources lib cn r (chainSel # chs) resp =
     (case ccr_GetChainConfig r chainSel of
        Panic \<Rightarrow> Panic
      | Error _ \<Rightarrow> discover_sources lib cn r chs resp
      | Ok snapshot \<Rightarrow>
          let resp = (if \<not> lib_IsZeroOrEmpty lib (ccs_OnRampFeeQuoter snapshot)
                      then ContractAddresses_Append (cn_FeeQuoter cn) chainSel (ccs_OnRampFeeQuoter snapshot) resp else resp);
              resp = (if \<not> lib_IsZeroOrEmpty lib (ccs_OnRampRouter snapshot)
                      then ContractAddresses_Append (cn_Router cn) chainSel (ccs_OnRampRouter snapshot) resp else resp)
          in discover_sources lib cn r chs resp)"

definition DiscoverContracts ::
  "ccip_lib \<Rightarrow> contract_names \<Rightarrow> ccipChainReader \<Rightarrow> ChainSelector list \<Rightarrow> ChainSelector list \<Rightarrow> ContractAddresses result" where
  "DiscoverContracts lib cn r supportedChains allChains =
     rbind (if ccr_destChain r \<in> set supportedChains
            then wrap_err ''discover destination contracts'' (discoverOffRampContracts cn r allChains) else Ok []) (\<lambda>resp.
       discover_sources lib cn r
         (ccr_order r (filter (\<lambda>chain. chain \<noteq> ccr_destChain r \<and> chain \<in> set (ccr_readers r)) supportedChains)) resp)"

section \<open>What is discovered may be observed\<close>

text \<open>A contract that an oracle which supports \<open>supported\<close> may observe on a chain.\<close>

definition may_observe :: "contract_names \<Rightarrow> ChainSelector \<Rightarrow> ChainSelector set \<Rightarrow> string \<Rightarrow> ChainSelector \<Rightarrow> bool" where
  "may_observe cn dest supported contract chain \<longleftrightarrow>
     (contract = cn_FeeQuoter cn \<or> contract = cn_Router cn) \<and> chain \<in> supported \<or>
     contract \<in> {cn_OnRamp cn, cn_NonceManager cn, cn_RMNRemote cn} \<and> dest \<in> supported"

text \<open>Every entry is allowed, and no contract is there without an entry.\<close>

definition allowed_entry ::
  "contract_names \<Rightarrow> ChainSelector \<Rightarrow> ChainSelector set \<Rightarrow> string \<Rightarrow> (ChainSelector, UnknownAddress) gomap \<Rightarrow> bool" where
  "allowed_entry cn dest supported contract addrs \<longleftrightarrow>
     addrs \<noteq> [] \<and> (\<forall>(chain, _) \<in> set addrs. may_observe cn dest supported contract chain)"

definition all_allowed :: "contract_names \<Rightarrow> ChainSelector \<Rightarrow> ChainSelector set \<Rightarrow> ContractAddresses \<Rightarrow> bool" where
  "all_allowed cn dest supported cas \<longleftrightarrow> (\<forall>(contract, addrs) \<in> set cas. allowed_entry cn dest supported contract addrs)"

lemma gm_put_subset: "set (gm_put k v m) \<subseteq> insert (k, v) (set m)"
  by (induction m) auto

lemma all_allowed_Append:
  assumes "all_allowed cn dest supported cas" and "may_observe cn dest supported contract chain"
  shows "all_allowed cn dest supported (ContractAddresses_Append contract chain address cas)"
proof -
  let ?new = "gm_put chain address (gm_inner cas contract)"
  have inner: "\<forall>(c, _) \<in> set (gm_inner cas contract). may_observe cn dest supported contract c"
  proof (cases "map_of cas contract")
    case (Some addrs)
    with assms(1) map_of_SomeD [OF Some] show ?thesis by (auto simp: gm_inner_def all_allowed_def allowed_entry_def)
  qed (simp add: gm_inner_def)
  have "set ?new \<subseteq> insert (chain, address) (set (gm_inner cas contract))" by (rule gm_put_subset)
  with inner assms(2) have new: "allowed_entry cn dest supported contract ?new"
    unfolding allowed_entry_def by (fastforce simp: update_nonempty)
  have "set (gm_put2 contract chain address cas) \<subseteq> insert (contract, ?new) (set cas)"
    unfolding gm_put2_def by (rule gm_put_subset)
  with assms(1) new show ?thesis unfolding all_allowed_def ContractAddresses_Append_def by blast
qed

lemma all_allowed_source_configs:
  assumes "dest \<in> supported" and "all_allowed cn dest supported resp"
  shows "all_allowed cn dest supported (fold (append_source_config cn dest sourceConfigs) chs resp)"
  using assms(2)
proof (induction chs arbitrary: resp)
  case (Cons c chs)
  have "all_allowed cn dest supported (append_source_config cn dest sourceConfigs c resp)"
    using Cons.prems assms(1)
    by (auto simp: append_source_config_def Let_def may_observe_def intro!: all_allowed_Append split: option.split)
  with Cons.IH show ?case by simp
qed simp

lemma discoverOffRampContracts_allowed:
  assumes "discoverOffRampContracts cn r chs = Ok resp" and "ccr_destChain r \<in> supported"
  shows "all_allowed cn (ccr_destChain r) supported resp"
proof -
  obtain snapshot sourceConfigs where resp: "discoverOffRampContracts cn r chs = Ok resp"
    "ccr_GetChainConfig r (ccr_destChain r) = Ok snapshot" "getOffRampSourceChainsConfig r chs False = Ok sourceConfigs"
    using assms(1) by (auto simp: discoverOffRampContracts_def rbind_Ok_iff)
  have "all_allowed cn (ccr_destChain r) supported []" by (simp add: all_allowed_def)
  note start = all_allowed_source_configs [OF assms(2) this, of sourceConfigs "sort (map fst sourceConfigs)"]
  have "may_observe cn (ccr_destChain r) supported c (ccr_destChain r)" if "c \<in> {cn_RMNRemote cn, cn_NonceManager cn, cn_FeeQuoter cn}" for c
    using that assms(2) by (auto simp: may_observe_def)
  with resp start show ?thesis
    by (auto simp: discoverOffRampContracts_def Let_def all_allowed_Append)
qed

lemma discover_sources_allowed:
  "discover_sources lib cn r chs resp = Ok resp' \<Longrightarrow> set chs \<subseteq> supported \<Longrightarrow> all_allowed cn dest supported resp \<Longrightarrow>
    all_allowed cn dest supported resp'"
proof (induction chs arbitrary: resp)
  case (Cons c chs)
  have "may_observe cn dest supported (cn_FeeQuoter cn) c" "may_observe cn dest supported (cn_Router cn) c"
    using Cons.prems(2) by (simp_all add: may_observe_def)
  with Cons show ?case by (auto simp: Let_def all_allowed_Append split: result.splits if_splits)
qed simp

text \<open>The order of the goroutines adds no chain.\<close>

definition order_ok :: "ccipChainReader \<Rightarrow> bool" where
  "order_ok r \<longleftrightarrow> (\<forall>chs. set (ccr_order r chs) \<subseteq> set chs)"

lemma DiscoverContracts_allowed:
  assumes "DiscoverContracts lib cn r supported chs = Ok resp" and "order_ok r"
  shows "all_allowed cn (ccr_destChain r) (set supported) resp"
proof -
  obtain resp0 where resp0: "(if ccr_destChain r \<in> set supported
      then wrap_err ''discover destination contracts'' (discoverOffRampContracts cn r chs) else Ok []) = Ok resp0"
    and d: "discover_sources lib cn r
        (ccr_order r (filter (\<lambda>chain. chain \<noteq> ccr_destChain r \<and> chain \<in> set (ccr_readers r)) supported)) resp0 = Ok resp"
    using assms(1) unfolding DiscoverContracts_def rbind_Ok_iff by blast
  have "all_allowed cn (ccr_destChain r) (set supported) resp0"
    using resp0 discoverOffRampContracts_allowed by (auto simp: all_allowed_def [of _ _ _ "[]"] split: if_splits)
  moreover have "set (ccr_order r (filter (\<lambda>chain. chain \<noteq> ccr_destChain r \<and> chain \<in> set (ccr_readers r)) supported)) \<subseteq> set supported"
    using assms(2) unfolding order_ok_def by fastforce
  ultimately show ?thesis using discover_sources_allowed [OF d] by blast
qed

lemma DiscoverContracts_returns:
  assumes "\<And>c. ccr_GetChainConfig r c \<noteq> Panic" and "\<And>d cs. ccr_GetOfframpSourceChainConfigs r d cs \<noteq> Panic"
  shows "DiscoverContracts lib cn r supported chs \<noteq> Panic"
proof -
  have "delete_disabled m \<noteq> Panic" for m
    by (induction m rule: delete_disabled.induct) (auto simp: rbind_Panic_iff StaticSourceChainConfig_check_def)
  then have "discoverOffRampContracts cn r chs \<noteq> Panic"
    using assms by (auto simp: discoverOffRampContracts_def getOffRampSourceChainsConfig_def rbind_Panic_iff Let_def)
  moreover have "discover_sources lib cn r cs resp \<noteq> Panic" for cs resp
    using assms(1) by (induction cs arbitrary: resp) (auto simp: Let_def split: result.split)
  ultimately show ?thesis by (auto simp: DiscoverContracts_def rbind_Panic_iff)
qed

section \<open>An honest oracle's discovery\<close>

text \<open>The processor observes through this reader, over a home chain that polling can reach.\<close>

lemma discovery_observation_valid:
  assumes "distinct_names cn" and "poller_reachable hc" and "order_ok r" and "ccr_destChain r = dest"
    and "NewContractDiscoveryProcessor rd hc dest f oracles oracle = Some cdp" and "rd_DiscoverContracts rd = DiscoverContracts lib cn r"
    and "dt_Observation_method cdp = Ok obs"
  shows "dt_ValidateObservation cn cdp \<lparr>ao_OracleID = oracle, ao_Observation = obs\<rparr> = Ok ()"
proof -
  obtain peer where cdp: "map_of oracles oracle = Some peer" "cdp_reader cdp = rd" "cdp_homechain cdp = hc" "cdp_dest cdp = dest"
      "cdp_oracleIDToP2PID cdp = oracles" "cdp_peerID cdp = peer"
    using assms(5) by (auto simp: NewContractDiscoveryProcessor_def split: option.splits)
  obtain supported where sup: "GetSupportedChainsForPeer hc peer = Ok supported"
    and d: "DiscoverContracts lib cn r (sort supported) (map fst (hs_chainConfigs (hp_state hc))) = Ok (dt_Addresses obs)"
    and fc: "GetFChain hc = Ok (dt_FChain obs)"
    using assms(7) unfolding dt_Observation_method_def cdp_getSupportedChains_def cdp assms(6)
    by (auto simp: rbind_Ok_iff GetAllChainConfigs_def)
  have f: "ValidateFChain (dt_FChain obs) = Ok ()" using GetFChain_valid [OF assms(2)] fc by auto
  have a: "all_allowed cn dest (set supported) (dt_Addresses obs)"
    using DiscoverContracts_allowed [OF d assms(3)] assms(4) by simp
  have "(if contract = cn_FeeQuoter cn \<or> contract = cn_Router cn then \<forall>(chain, _) \<in> set addrs. chain \<in> set supported
      else (contract = cn_OnRamp cn \<or> contract = cn_OffRamp cn \<or> contract = cn_NonceManager cn \<or> contract = cn_RMNRemote cn) \<and> dest \<in> set supported)"
    if "(contract, addrs) \<in> set (dt_Addresses obs)" for contract addrs
  proof -
    have e: "addrs \<noteq> []" "\<forall>(chain, _) \<in> set addrs. may_observe cn dest (set supported) contract chain"
      using a that unfolding all_allowed_def allowed_entry_def by auto
    then obtain chain addr where "(chain, addr) \<in> set addrs" by (cases addrs) auto
    with e(2) have "may_observe cn dest (set supported) contract chain" by blast
    with e(2) assms(1) show ?thesis by (auto simp: may_observe_def distinct_names_def)
  qed
  then have "\<forall>(contract, addrs) \<in> set (dt_Addresses obs).
      if contract = cn_FeeQuoter cn \<or> contract = cn_Router cn then \<forall>(chain, _) \<in> set addrs. chain \<in> set supported
      else (contract = cn_OnRamp cn \<or> contract = cn_OffRamp cn \<or> contract = cn_NonceManager cn \<or> contract = cn_RMNRemote cn) \<and> dest \<in> set supported"
    by blast
  then show ?thesis
    by (fastforce simp: dt_ValidateObservation_def cdp sup f check_all_Ok_iff check_that_def split: if_splits)
qed

lemma discovery_observation_returns:
  assumes "poller_reachable hc" and "NewContractDiscoveryProcessor rd hc dest f oracles oracle = Some cdp"
    and "\<And>cs ds. rd_DiscoverContracts rd cs ds \<noteq> Panic"
  shows "dt_Observation_method cdp \<noteq> Panic"
proof -
  have "cdp_reader cdp = rd" "cdp_homechain cdp = hc"
    using assms(2) by (auto simp: NewContractDiscoveryProcessor_def split: option.splits)
  with assms(1,3) GetFChain_valid [OF assms(1)] show ?thesis
    by (auto simp: dt_Observation_method_def cdp_getSupportedChains_def rbind_Panic_iff GetAllChainConfigs_def GetSupportedChainsForPeer_def
        split: option.splits)
qed

end
