(* ===== verification/ExecObserve.thy ===== *)
theory ExecObserve
  imports ExecOutcome ReaderDiscovery
begin

text \<open>Observations of the execute plugin in the rounds of messages and nonces: the exact condition under which one is valid, and that the
  observation of an honest oracle is computed and satisfies it, whatever its chain reader returns and wherever it is cut off.\<close>

section \<open>Exactly which observations are valid\<close>

text \<open>The commit reports that were observed for one chain: they are of this chain, with different roots and disjoint ranges that do not
  end at the largest number, and the messages seen executed are in the range.\<close>

definition reports_conform :: "exec_lib \<Rightarrow> ChainSelector \<Rightarrow> CommitData list \<Rightarrow> bool" where
  "reports_conform xl c ds \<longleftrightarrow> (\<forall>d \<in> set ds. cd_SourceChain d = c \<and> sr_End (rng d) \<noteq> - 1 \<and> set (cd_ExecutedMessages d) \<subseteq> range_set (rng d)) \<and>
     distinct (map (\<lambda>d. xl_Bytes32_String xl (cd_MerkleRoot d)) ds) \<and> disjoint_ranges ds"

text \<open>The messages of an observation: exactly those of the ranges of the observed commit reports, each with a hash and token data; of
  chains that the oracle may read.\<close>

definition messages_conform :: "exec_lib \<Rightarrow> ChainSelector list \<Rightarrow> exec_Observation \<Rightarrow> bool" where
  "messages_conform xl readable obs \<longleftrightarrow> complete xl obs \<and> fst ` set (xob_CommitReports obs) = fst ` set (xob_Messages obs) \<and>
     (\<forall>(c, ds) \<in> set (xob_CommitReports obs). inner_keys (xob_Messages obs) c = all_ranges ds \<and>
        (all_ranges ds \<noteq> {} \<longrightarrow> c \<in> set readable))"

definition contracts_conform :: "contract_names \<Rightarrow> ('c, 'd) exec_Plugin \<Rightarrow> OracleID \<Rightarrow> exec_Observation \<Rightarrow> bool" where
  "contracts_conform cn p observer obs \<longleftrightarrow> (case xpl_discovery p of None \<Rightarrow> True
     | Some d \<Rightarrow> dt_ValidateObservation cn d \<lparr>ao_OracleID = observer, ao_Observation = xob_Contracts obs\<rparr> = Ok ())"

lemma observed_sequence_numbers_iff:
  assumes "range_spec xl" and "\<forall>(c, ds) \<in> set co. \<forall>d \<in> set ds. range_wf (rng d)"
  shows "validateObservedSequenceNumbers xl co = Ok () \<longleftrightarrow> (\<forall>(c, ds) \<in> set co.
     distinct (map (\<lambda>d. xl_Bytes32_String xl (cd_MerkleRoot d)) ds) \<and> disjoint_ranges ds \<and>
     (\<forall>d \<in> set ds. set (cd_ExecutedMessages d) \<subseteq> range_set (rng d)))"
proof -
  have "observed_ranges_loop xl [] [] ds = Ok () \<longleftrightarrow> distinct (map (\<lambda>d. xl_Bytes32_String xl (cd_MerkleRoot d)) ds) \<and> disjoint_ranges ds \<and>
     (\<forall>d \<in> set ds. set (cd_ExecutedMessages d) \<subseteq> range_set (rng d))" if "\<forall>d \<in> set ds. range_wf (rng d)" for ds
  proof -
    have "sorted_wrt (\<lambda>a b. \<not> xl_Overlaps xl (rng a) (rng b)) ds \<longleftrightarrow> disjoint_ranges ds"
      unfolding disjoint_ranges_def using that assms(1) by (induction ds) (auto simp: range_spec_def)
    moreover have "xl_Contains xl r n \<longleftrightarrow> n \<in> range_set r" for r n using assms(1) by (simp add: range_spec_def)
    ultimately show ?thesis unfolding observed_ranges_iff by auto
  qed
  with assms(2) show ?thesis unfolding validateObservedSequenceNumbers_def check_all_Ok_iff by fastforce
qed

lemma exec_validate_Ok_iff:
  assumes "Next (xo_State prev) = Ok st" and "st = GetMessages \<or> st = Filter"
  shows "exec_validate xl cn p prev observer obs = Some (Ok ()) \<longleftrightarrow> (\<exists>readable. exec_supportedChains p observer = Ok readable \<and>
     ValidateFChain (xob_FChain obs) = Ok () \<and>
     validateCommitReportsReadingEligibility xl st readable (xpl_destChain p) (xob_CommitReports obs) = Ok () \<and>
     validateObservedSequenceNumbers xl (xob_CommitReports obs) = Ok () \<and> contracts_conform cn p observer obs \<and>
     validateMsgsReadingEligibility readable (xob_Messages obs) = Ok () \<and>
     validateMessagesConformToCommitReports (xob_CommitReports obs) (xob_Messages obs) = Some (Ok ()) \<and>
     validateHashesExist xl (xob_Messages obs) (xob_Hashes obs) = Ok () \<and>
     validateTokenDataObservations (xob_Messages obs) (xob_TokenData obs) = Ok ())"
proof -
  have "st \<noteq> GetCommitReports" using assms(2) by auto
  then show ?thesis
    using assms
    unfolding exec_validate_def obind_Ok_iff validateCommonStateObservations_def contracts_conform_def validateMessagesRelatedObservations_def
    by (simp add: rbind_Ok_iff obind_Ok_iff split: option.split)
qed

lemma reading_eligibility_iff:
  assumes "st = GetMessages \<or> st = Filter" and "\<forall>(c, ds) \<in> set co. ds \<noteq> [] \<longrightarrow> c \<in> set readable"
  shows "validateCommitReportsReadingEligibility xl st readable dest co = Ok () \<longleftrightarrow> (\<forall>(c, ds) \<in> set co. \<forall>d \<in> set ds. cd_SourceChain d = c)"
proof -
  have "validateGetMessagesObservation readable co = Ok ()"
    using assms(2) by (auto simp: validateGetMessagesObservation_def check_all_Ok_iff Let_def list_ex_iff)
  moreover have "check_all (\<lambda>(chainSel, ds). check_all (\<lambda>data. if cd_SourceChain data \<noteq> chainSel then Error (Err ''invalid observed data'') else Ok ()) ds) co = Ok ()
      \<longleftrightarrow> (\<forall>(c, ds) \<in> set co. \<forall>d \<in> set ds. cd_SourceChain d = c)"
    by (fastforce simp: check_all_Ok_iff split: if_splits)
  ultimately show ?thesis using assms(1) by (auto simp: validateCommitReportsReadingEligibility_def)
qed

lemma msgs_eligibility_iff:
  "gm_ok2 m \<Longrightarrow> validateMsgsReadingEligibility readable m = Ok () \<longleftrightarrow> (\<forall>c \<in> fst ` set m. inner_keys m c \<noteq> {} \<longrightarrow> c \<in> set readable)"
proof -
  assume "gm_ok2 m"
  then have "gm_inner m c = msgs" if "(c, msgs) \<in> set m" for c msgs
    using that by (auto simp: gm_ok2_def gm_get_iff [symmetric] gm_inner_def)
  then have "(\<forall>(c, msgs) \<in> set m. msgs \<noteq> [] \<longrightarrow> c \<in> set readable) \<longleftrightarrow> (\<forall>c \<in> fst ` set m. inner_keys m c \<noteq> {} \<longrightarrow> c \<in> set readable)"
    by (fastforce simp: inner_keys_def)
  then show ?thesis by (auto simp: validateMsgsReadingEligibility_def check_all_Ok_iff split: if_splits)
qed

lemma all_ranges_empty_iff: "\<forall>d \<in> set ds. range_wf (rng d) \<Longrightarrow> all_ranges ds = {} \<longleftrightarrow> ds = []"
  by (cases ds) (auto simp: all_ranges_def range_set_def range_wf_def)

lemma exec_validate_iff:
  assumes "range_spec xl" and "Next (xo_State prev) = Ok st" and "st = GetMessages \<or> st = Filter"
    and "gm_ok (xob_CommitReports obs)" "gm_ok2 (xob_Messages obs)" "gm_ok2 (xob_Hashes obs)" "gm_ok2 (xob_TokenData obs)"
    and "\<forall>(c, ds) \<in> set (xob_CommitReports obs). \<forall>d \<in> set ds. range_wf (rng d)"
  shows "exec_validate xl cn p prev observer obs = Some (Ok ()) \<longleftrightarrow> (\<exists>readable. exec_supportedChains p observer = Ok readable \<and>
    ValidateFChain (xob_FChain obs) = Ok () \<and> contracts_conform cn p observer obs \<and>
    (\<forall>(c, ds) \<in> set (xob_CommitReports obs). reports_conform xl c ds) \<and> messages_conform xl readable obs)"
proof -
  let ?co = "xob_CommitReports obs" and ?m = "xob_Messages obs"
  have comp: "complete xl obs \<longleftrightarrow> validateHashesExist xl ?m (xob_Hashes obs) = Ok () \<and> validateTokenDataObservations ?m (xob_TokenData obs) = Ok ()"
    by (rule complete_iff [OF assms(5-7)])
  have "validateCommitReportsReadingEligibility xl st readable (xpl_destChain p) ?co = Ok () \<and>
     validateObservedSequenceNumbers xl ?co = Ok () \<and> validateMsgsReadingEligibility readable ?m = Ok () \<and>
     validateMessagesConformToCommitReports ?co ?m = Some (Ok ()) \<and> complete xl obs \<longleftrightarrow>
     (\<forall>(c, ds) \<in> set ?co. reports_conform xl c ds) \<and> messages_conform xl readable obs" (is "?L \<longleftrightarrow> ?R") for readable
  proof -
    have seq: "validateObservedSequenceNumbers xl ?co = Ok () \<longleftrightarrow> (\<forall>(c, ds) \<in> set ?co.
       distinct (map (\<lambda>d. xl_Bytes32_String xl (cd_MerkleRoot d)) ds) \<and> disjoint_ranges ds \<and>
       (\<forall>d \<in> set ds. set (cd_ExecutedMessages d) \<subseteq> range_set (rng d)))"
      by (rule observed_sequence_numbers_iff [OF assms(1,8)])
    have conf: "validateMessagesConformToCommitReports ?co ?m = Some (Ok ()) \<longleftrightarrow> fst ` set ?co = fst ` set ?m \<and>
       (\<forall>(c, ds) \<in> set ?co. (\<forall>d \<in> set ds. sr_End (rng d) \<noteq> - 1) \<and> inner_keys ?m c = all_ranges ds)"
      if "\<forall>(c, ds) \<in> set ?co. disjoint_ranges ds" by (rule messages_conform_iff [OF assms(4,5) that])
    have elig: "validateMsgsReadingEligibility readable ?m = Ok () \<longleftrightarrow> (\<forall>(c, ds) \<in> set ?co. all_ranges ds \<noteq> {} \<longrightarrow> c \<in> set readable)"
      if "fst ` set ?co = fst ` set ?m" "\<forall>(c, ds) \<in> set ?co. inner_keys ?m c = all_ranges ds"
    proof -
      have "(\<forall>c \<in> fst ` set ?m. inner_keys ?m c \<noteq> {} \<longrightarrow> c \<in> set readable) \<longleftrightarrow> (\<forall>(c, ds) \<in> set ?co. inner_keys ?m c \<noteq> {} \<longrightarrow> c \<in> set readable)"
        unfolding that(1) [symmetric] ball_keys ..
      with that(2) show ?thesis unfolding msgs_eligibility_iff [OF assms(5)] by fastforce
    qed
    have read: "validateCommitReportsReadingEligibility xl st readable (xpl_destChain p) ?co = Ok () \<longleftrightarrow>
        (\<forall>(c, ds) \<in> set ?co. \<forall>d \<in> set ds. cd_SourceChain d = c)"
      if "\<forall>(c, ds) \<in> set ?co. all_ranges ds \<noteq> {} \<longrightarrow> c \<in> set readable"
    proof (rule reading_eligibility_iff [OF assms(3)])
      show "\<forall>(c, ds) \<in> set ?co. ds \<noteq> [] \<longrightarrow> c \<in> set readable" using that assms(8) all_ranges_empty_iff by fastforce
    qed
    show ?thesis
    proof
      assume L: ?L
      then have dis: "\<forall>(c, ds) \<in> set ?co. disjoint_ranges ds" unfolding seq by fastforce
      with L conf have c: "fst ` set ?co = fst ` set ?m" "\<forall>(c, ds) \<in> set ?co. (\<forall>d \<in> set ds. sr_End (rng d) \<noteq> - 1) \<and> inner_keys ?m c = all_ranges ds"
        by blast+
      then have k: "\<forall>(c, ds) \<in> set ?co. inner_keys ?m c = all_ranges ds" by fastforce
      with L elig [OF c(1)] have e: "\<forall>(c, ds) \<in> set ?co. all_ranges ds \<noteq> {} \<longrightarrow> c \<in> set readable" by blast
      with L read have "\<forall>(c, ds) \<in> set ?co. \<forall>d \<in> set ds. cd_SourceChain d = c" by blast
      with L c k e show ?R unfolding seq reports_conform_def messages_conform_def by fast
    next
      assume R: ?R
      then have dis: "\<forall>(c, ds) \<in> set ?co. disjoint_ranges ds"
        and s: "validateObservedSequenceNumbers xl ?co = Ok ()" and src: "\<forall>(c, ds) \<in> set ?co. \<forall>d \<in> set ds. cd_SourceChain d = c"
        unfolding seq reports_conform_def by fast+
      have c: "fst ` set ?co = fst ` set ?m" "\<forall>(c, ds) \<in> set ?co. (\<forall>d \<in> set ds. sr_End (rng d) \<noteq> - 1) \<and> inner_keys ?m c = all_ranges ds"
        and k: "\<forall>(c, ds) \<in> set ?co. inner_keys ?m c = all_ranges ds" and e: "\<forall>(c, ds) \<in> set ?co. all_ranges ds \<noteq> {} \<longrightarrow> c \<in> set readable"
        and "complete xl obs"
        using R unfolding reports_conform_def messages_conform_def by fast+
      with dis s src conf [OF dis] elig [OF c(1) k] read [OF e] show ?L by blast
    qed
  qed
  then show ?thesis unfolding exec_validate_Ok_iff [OF assms(2,3)] comp by blast
qed

text \<open>In the rounds of messages and of nonces, an observation is valid exactly when: the observer is known; the fault bounds and
  contracts are valid; the commit reports of each chain are of this chain, with different roots and disjoint ranges that contain what
  is marked executed and do not end at the largest number; and the observed messages are exactly the messages of these ranges, all on
  chains the observer may read, each with a hash that is not empty and token data, and there are no other hashes and token data.\<close>

theorem exec_validate_messages_iff:
  assumes "range_spec xl" and "Next (xo_State prev) = Ok st" and "st = GetMessages \<or> st = Filter"
    and "gm_ok (xob_CommitReports obs)" "gm_ok2 (xob_Messages obs)" "gm_ok2 (xob_Hashes obs)" "gm_ok2 (xob_TokenData obs)"
    and "\<forall>(c, ds) \<in> set (xob_CommitReports obs). \<forall>d \<in> set ds. range_wf (rng d)"
  shows "exec_validate xl cn p prev observer obs = Some (Ok ()) \<longleftrightarrow> (\<exists>readable. exec_supportedChains p observer = Ok readable \<and>
    ValidateFChain (xob_FChain obs) = Ok () \<and> contracts_conform cn p observer obs \<and>
    (\<forall>(c, ds) \<in> set (xob_CommitReports obs). reports_conform xl c ds) \<and> messages_conform xl readable obs)"
  by (rule exec_validate_iff [OF assms])

section \<open>The observation of an honest oracle\<close>

text \<open>The keys of a map of maps.\<close>

definition shape :: "('k, ('l, 'v) gomap) gomap \<Rightarrow> 'k set \<Rightarrow> ('k \<Rightarrow> 'l set) \<Rightarrow> bool" where
  "shape m K I \<longleftrightarrow> gm_ok2 m \<and> fst ` set m = K \<and> (\<forall>k. inner_keys m k = I k)"








definition om_shape :: "exec_lib \<Rightarrow> ChainSelector set \<Rightarrow> (ChainSelector \<Rightarrow> SeqNum set) \<Rightarrow> obs_maps \<Rightarrow> bool" where
  "om_shape xl K I om \<longleftrightarrow> shape (om_messages om) K I \<and> shape (om_hashes om) K I \<and> shape (om_tokens om) K I \<and>
     (\<forall>c. \<forall>h \<in> snd ` set (gm_inner (om_hashes om) c). \<not> xl_Bytes32_IsEmpty xl h)"






text \<open>Two commit reports of a chain have different roots and disjoint ranges.\<close>

definition apart :: "exec_lib \<Rightarrow> CommitData \<Rightarrow> CommitData \<Rightarrow> bool" where
  "apart xl a b \<longleftrightarrow> (cd_SourceChain a = cd_SourceChain b \<longrightarrow>
     xl_Bytes32_String xl (cd_MerkleRoot a) \<noteq> xl_Bytes32_String xl (cd_MerkleRoot b) \<and> range_set (rng a) \<inter> range_set (rng b) = {})"


text \<open>The maps after the given reports have been read.\<close>

definition of_chain :: "ChainSelector \<Rightarrow> CommitData list \<Rightarrow> CommitData list" where
  "of_chain c ds = filter (\<lambda>d. cd_SourceChain d = c) ds"

definition maps_for :: "exec_lib \<Rightarrow> CommitData list \<Rightarrow> obs_maps \<Rightarrow> bool" where
  "maps_for xl ds om \<longleftrightarrow> om_shape xl (cd_SourceChain ` set ds) (\<lambda>c. all_ranges (of_chain c ds)) om \<and> gm_ok (om_reports om) \<and>
     fst ` set (om_reports om) = cd_SourceChain ` set ds \<and> (\<forall>c. gm_vals (om_reports om) c = of_chain c ds)"



text \<open>A result of the loop over the commit reports: a failure, or the maps for the reports before and some of the reports given to it.\<close>

definition observed_from ::
  "exec_lib \<Rightarrow> ChainSelector list \<Rightarrow> exec_Observation \<Rightarrow> CommitData list \<Rightarrow> CommitData list \<Rightarrow> exec_Observation result \<Rightarrow> bool" where
  "observed_from xl readable obs0 ds reports r \<longleftrightarrow> (\<forall>obs. r = Ok obs \<longrightarrow> (\<exists>ds' om. obs = with_maps obs0 om \<and> maps_for xl (ds @ ds') om \<and>
     sorted_wrt (apart xl) (ds @ ds') \<and> set ds' \<subseteq> set reports \<and> cd_SourceChain ` set ds' \<subseteq> set readable))"




lemma observed_from_failed [simp]: "observed_from xl readable obs0 ds reports Panic" "observed_from xl readable obs0 ds reports (Error e)"
  by (simp_all add: observed_from_def)















section \<open>The observation is computed\<close>














section \<open>Instances\<close>

theorem exec_validate_messages_iff_witness:
  "(\<exists>readable. messages_conform sample_run_xl readable sample_run_obs) \<and> reports_conform sample_run_xl 7 [sample_run_cd]"
proof -
  have r: "range_spec sample_run_xl" using sample_xl_range by (simp add: range_spec_def sample_run_xl_def)
  have n: "Next (xo_State (sample_outcome 1)) = Ok GetMessages" by code_simp
  have ok: "gm_ok2 (xob_Messages sample_run_obs)" "gm_ok2 (xob_Hashes sample_run_obs)" "gm_ok2 (xob_TokenData sample_run_obs)"
      "gm_ok (xob_CommitReports sample_run_obs)"
    by (simp_all add: sample_run_obs_def sample_run_aos_def Let_def gm_ok2_def gm_ok_def)
  have co: "xob_CommitReports sample_run_obs = [(7, [sample_run_cd])]" by (simp add: sample_run_obs_def sample_run_aos_def Let_def)
  have wf: "\<forall>(c, ds) \<in> set (xob_CommitReports sample_run_obs). \<forall>d \<in> set ds. range_wf (rng d)"
    unfolding co by (simp add: sample_run_cd_def sample_exec_cd_def range_wf_def)
  have "exec_validate sample_run_xl sample_names (sample_exec_plugin []) (sample_outcome 1) 3 sample_run_obs = Some (Ok ())" by code_simp
  with exec_validate_messages_iff [OF r n _ ok(4) ok(1-3) wf, of sample_names "sample_exec_plugin []" 3]
  show ?thesis by (auto simp: co)
qed







end
