(* ===== verification/CctpV2.thy ===== *)
theory CctpV2
  imports TokenObservers ExecObserve
begin

text \<open>
  The observer of CCTP v2 transfers of USDC (\<open>execute/tokendata/cctp/v2\<close>): the payload that the source pool puts into
  \<open>ExtraData\<close>, the deposit hash, the client of Circle's API and the observer. The API answers for a whole transaction; the
  observer computes the deposit hash of each of its messages and hands the attestations out to the tokens of the
  observed messages with the same hash, one each.

  The parsing of numbers and of hexadecimal strings follows Go's standard library. The HTTP client and the JSON decoder are
  fields of \<open>circle_api\<close>, the packing of ABI values and Keccak fields of \<open>abi_lib\<close>, and the encoder of the token data is
  an argument. The set of requests is a list without repetitions. The slices in the map of attestations are consumed
  from the front, so that the map is threaded through the loops over chains, messages and tokens.

  \<open>cctp_Observe_assigns\<close> states which attestation every token gets, \<open>cctp_Observe_deterministic\<close> when the result does not
  depend on the order of the maps, \<open>payload_roundtrip\<close> which byte strings are payloads, and \<open>deposit_params_roundtrip\<close>
  that the parameters of the hash are read back from their printed form. The observer meets the contract
  \<open>token_data_observer\<close>.
\<close>

unbundle bit_operations_syntax

section \<open>Parts of Go's standard library\<close>

text \<open>\<open>strings.TrimPrefix\<close> and \<open>hex.DecodeString\<close>.\<close>

definition TrimPrefix :: "string \<Rightarrow> string \<Rightarrow> string" where
  "TrimPrefix s p = (if take (length p) s = p then drop (length p) s else s)"

definition hex_digit :: "char \<Rightarrow> nat option" where
  "hex_digit c = (let n = of_char c :: nat in
     if 48 \<le> n \<and> n \<le> 57 then Some (n - 48)
     else if 97 \<le> n \<and> n \<le> 102 then Some (n - 87)
     else if 65 \<le> n \<and> n \<le> 70 then Some (n - 55) else None)"

definition InvalidByteError :: "char \<Rightarrow> error" where "InvalidByteError c = Wrap ''encoding/hex: invalid byte'' (Err [c])"
definition ErrLength :: error where "ErrLength = Err ''encoding/hex: odd length hex string''"

fun hex_DecodeString :: "string \<Rightarrow> error + byte list" where
  "hex_DecodeString [] = Inr []"
| "hex_DecodeString [c] = (case hex_digit c of None \<Rightarrow> Inl (InvalidByteError c) | Some _ \<Rightarrow> Inl ErrLength)"
| "hex_DecodeString (p # q # rest) =
     (case hex_digit p of None \<Rightarrow> Inl (InvalidByteError p)
      | Some a \<Rightarrow> (case hex_digit q of None \<Rightarrow> Inl (InvalidByteError q)
         | Some b \<Rightarrow> (case hex_DecodeString rest of Inl err \<Rightarrow> Inl err | Inr bs \<Rightarrow> Inr (of_nat (16 * a + b) # bs))))"

text \<open>\<open>strconv.ParseUint\<close> in base 10: it stops at the first character that is no digit, or as soon as the value does not fit.\<close>

definition ErrSyntax :: error where "ErrSyntax = Err ''invalid syntax''"
definition ErrRange :: error where "ErrRange = Err ''value out of range''"

definition dec_digit :: "char \<Rightarrow> nat option" where
  "dec_digit c = (let n = of_char c :: nat in if 48 \<le> n \<and> n \<le> 57 then Some (n - 48) else None)"

fun ParseUint_loop :: "nat \<Rightarrow> string \<Rightarrow> int \<Rightarrow> error + int" where
  "ParseUint_loop bits [] n = Inr n"
| "ParseUint_loop bits (c # cs) n =
     (case dec_digit c of None \<Rightarrow> Inl ErrSyntax
      | Some d \<Rightarrow> if 2 ^ bits \<le> 10 * n + int d then Inl ErrRange else ParseUint_loop bits cs (10 * n + int d))"

definition ParseUint :: "nat \<Rightarrow> string \<Rightarrow> error + int" where
  "ParseUint bits s = (if s = [] then Inl ErrSyntax else ParseUint_loop bits s 0)"

text \<open>\<open>big.Int.SetString\<close> in base 10: an optional sign, at least one digit, and nothing else.\<close>

fun digits_value :: "string \<Rightarrow> int \<Rightarrow> int option" where
  "digits_value [] n = Some n"
| "digits_value (c # cs) n = (case dec_digit c of None \<Rightarrow> None | Some d \<Rightarrow> digits_value cs (10 * n + int d))"

definition SetString :: "string \<Rightarrow> int option" where
  "SetString s =
     (let neg = (s \<noteq> [] \<and> hd s = CHR ''-'');
          ds = (if s \<noteq> [] \<and> (hd s = CHR ''-'' \<or> hd s = CHR ''+'') then tl s else s)
      in if ds = [] then None else map_option (\<lambda>n. if neg then - n else n) (digits_value ds 0))"

text \<open>The decimal notation of a natural number (\<open>%d\<close>) and \<open>url.QueryEscape\<close>.\<close>

fun print_nat :: "nat \<Rightarrow> string" where
  "print_nat n = (if n < 10 then [] else print_nat (n div 10)) @ [char_of (48 + n mod 10)]"

declare print_nat.simps [simp del]

definition upper_hex :: "nat \<Rightarrow> char" where
  "upper_hex n = char_of (if n < 10 then 48 + n else 55 + n)"

definition QueryEscape_char :: "char \<Rightarrow> string" where
  "QueryEscape_char c = (let n = of_char c :: nat in
     if 97 \<le> n \<and> n \<le> 122 \<or> 65 \<le> n \<and> n \<le> 90 \<or> 48 \<le> n \<and> n \<le> 57 \<or> c \<in> set ''-_.~'' then [c]
     else if c = CHR '' '' then ''+''
     else [CHR ''%'', upper_hex (n div 16), upper_hex (n mod 16)])"

definition QueryEscape :: "string \<Rightarrow> string" where
  "QueryEscape s = concat (map QueryEscape_char s)"

section \<open>cctp/v2/source_token_data_payload.go\<close>

definition CCTPVersion2Tag :: "32 word" where "CCTPVersion2Tag = 0xb148ea5f"
definition CCTPVersion2CCVTag :: "32 word" where "CCTPVersion2CCVTag = 0x3047587c"

record SourceTokenDataPayloadV2 =
  stp_SourceDomain :: "32 word"
  stp_DepositHash :: Bytes32

text \<open>\<open>binary.BigEndian.Uint32\<close> of four bytes.\<close>

definition Uint32 :: "byte list \<Rightarrow> 32 word" where
  "Uint32 b = ucast (b ! 3) OR push_bit 8 (ucast (b ! 2)) OR push_bit 16 (ucast (b ! 1)) OR push_bit 24 (ucast (b ! 0))"

definition DecodeSourceTokenDataPayloadV2 :: "byte list \<Rightarrow> error + SourceTokenDataPayloadV2" where
  "DecodeSourceTokenDataPayloadV2 extraData =
     (if length extraData \<noteq> 40 then Inl (Err ''invalid V2 source pool data length'')
      else let versionTag = Uint32 (take 4 extraData)
           in if versionTag \<noteq> CCTPVersion2Tag \<and> versionTag \<noteq> CCTPVersion2CCVTag then Inl (Err ''invalid CCTPv2 version tag'')
              else Inr \<lparr>stp_SourceDomain = Uint32 (take 4 (drop 4 extraData)), stp_DepositHash = take 32 (drop 8 extraData)\<rparr>)"

section \<open>cctp/v2/deposit_hash.go\<close>

record CCTPv2DecodedMessageBody =
  cmb_BurnToken :: string
  cmb_MintRecipient :: string
  cmb_Amount :: string
  cmb_MessageSender :: string
  cmb_MaxFee :: string
  cmb_FeeExecuted :: string
  cmb_ExpirationBlock :: string
  cmb_HookData :: string

record CCTPv2DecodedMessage =
  cdm_SourceDomain :: string
  cdm_DestinationDomain :: string
  cdm_Nonce :: string
  cdm_Sender :: string
  cdm_Recipient :: string
  cdm_DestinationCaller :: string
  cdm_MessageBody :: string
  cdm_DecodedMessageBody :: CCTPv2DecodedMessageBody
  cdm_MinFinalityThreshold :: string
  cdm_FinalityThresholdExecuted :: string

record depositHashParams =
  dhp_sourceDomain :: "32 word"
  dhp_destinationDomain :: "32 word"
  dhp_amount :: int
  dhp_maxFee :: int
  dhp_minFinalityThreshold :: "32 word"
  dhp_mintRecipient :: Bytes32
  dhp_burnToken :: Bytes32
  dhp_destinationCaller :: Bytes32

definition parseUint32Param :: "string \<Rightarrow> string \<Rightarrow> (32 word) result" where
  "parseUint32Param param paramName =
     (case ParseUint 32 param of
        Inl err \<Rightarrow> Error (Wrap (''failed to parse '' @ paramName) err)
      | Inr parsed \<Rightarrow> Ok (of_int parsed))"

definition hexToBytes32 :: "string \<Rightarrow> Bytes32 result" where
  "hexToBytes32 hexStr =
     (case hex_DecodeString (TrimPrefix hexStr ''0x'') of
        Inl err \<Rightarrow> Error (Wrap ''failed to decode hex string'' err)
      | Inr decoded \<Rightarrow>
          if 32 < length decoded then Error (Err ''failed to convert hex to bytes32: hex string too long'')
          else Ok (replicate (32 - length decoded) 0 @ decoded))"

text \<open>A number of the message body that must not be negative.\<close>

definition parse_unsigned :: "string \<Rightarrow> string \<Rightarrow> string \<Rightarrow> int result" where
  "parse_unsigned s name noun =
     (case SetString s of
        None \<Rightarrow> Error (Err (''failed to parse '' @ name @ '': invalid number''))
      | Some n \<Rightarrow> if n < 0 then Error (Err (''failed to parse '' @ name @ '': negative '' @ noun @ '' not allowed'')) else Ok n)"

definition parseDepositHashParams :: "CCTPv2DecodedMessage \<Rightarrow> depositHashParams result" where
  "parseDepositHashParams msg =
     (let body = cdm_DecodedMessageBody msg in
      rbind (parseUint32Param (cdm_SourceDomain msg) ''source domain'') (\<lambda>sourceDomain.
      rbind (parseUint32Param (cdm_DestinationDomain msg) ''destination domain'') (\<lambda>destinationDomain.
      rbind (parse_unsigned (cmb_Amount body) ''amount'' ''amount'') (\<lambda>amount.
      rbind (if cmb_MaxFee body \<noteq> [] then parse_unsigned (cmb_MaxFee body) ''max fee'' ''fee'' else Ok 0) (\<lambda>maxFee.
      rbind (parseUint32Param (cdm_MinFinalityThreshold msg) ''min finality threshold'') (\<lambda>minFinalityThreshold.
      rbind (wrap_err ''failed to parse mint recipient'' (hexToBytes32 (cmb_MintRecipient body))) (\<lambda>mintRecipient.
      rbind (wrap_err ''failed to parse burn token'' (hexToBytes32 (cmb_BurnToken body))) (\<lambda>burnToken.
      rbind (wrap_err ''failed to parse destination caller'' (hexToBytes32 (cdm_DestinationCaller msg))) (\<lambda>destinationCaller.
        Ok \<lparr>dhp_sourceDomain = sourceDomain, dhp_destinationDomain = destinationDomain, dhp_amount = amount, dhp_maxFee = maxFee,
            dhp_minFinalityThreshold = minFinalityThreshold, dhp_mintRecipient = mintRecipient, dhp_burnToken = burnToken,
            dhp_destinationCaller = destinationCaller\<rparr>)))))))))"

text \<open>The values in the order in which they are packed; \<open>pack\<close> is \<open>abi.Arguments.Pack\<close> for the types of
  \<open>initDepositHashABIArguments\<close>, \<open>keccak\<close> is \<open>crypto.Keccak256Hash\<close>.\<close>

datatype abi_value = abi_uint32 "32 word" | abi_uint256 int | abi_bytes32 Bytes32

record abi_lib =
  abl_Pack :: "abi_value list \<Rightarrow> error + byte list"
  abl_Keccak256Hash :: "byte list \<Rightarrow> Bytes32"

definition CalculateDepositHash :: "abi_lib \<Rightarrow> CCTPv2DecodedMessage \<Rightarrow> Bytes32 result" where
  "CalculateDepositHash lib msg =
     rbind (parseDepositHashParams msg) (\<lambda>params.
       case abl_Pack lib [abi_uint32 (dhp_sourceDomain params), abi_uint256 (dhp_amount params), abi_uint32 (dhp_destinationDomain params),
              abi_bytes32 (dhp_mintRecipient params), abi_bytes32 (dhp_burnToken params), abi_bytes32 (dhp_destinationCaller params),
              abi_uint256 (dhp_maxFee params), abi_uint32 (dhp_minFinalityThreshold params)] of
         Inl err \<Rightarrow> Error (Wrap ''failed to ABI encode deposit hash parameters'' err)
       | Inr encoded \<Rightarrow> Ok (abl_Keccak256Hash lib encoded))"

section \<open>cctp/v2/http\_client.go\<close>

record CCTPv2Message =
  cvm_Message :: string
  cvm_EventNonce :: string
  cvm_Attestation :: string
  cvm_DecodedMessage :: CCTPv2DecodedMessage
  cvm_CCTPVersion :: int
  cvm_Status :: string

record CCTPv2Messages =
  cvs_Messages :: "CCTPv2Message list"

text \<open>\<open>Get\<close> is the HTTP client, which yields the body and the status, and \<open>Unmarshal\<close> the JSON decoder.\<close>

record circle_api =
  cap_Get :: "string \<Rightarrow> error + (byte list \<times> int)"
  cap_Unmarshal :: "byte list \<Rightarrow> error + CCTPv2Messages"

definition parseResponseBody :: "circle_api \<Rightarrow> byte list \<Rightarrow> error + CCTPv2Messages" where
  "parseResponseBody api body =
     (case cap_Unmarshal api body of Inl err \<Rightarrow> Inl (Wrap ''failed to decode json'' err) | Inr messages \<Rightarrow> Inr messages)"

definition messages_path :: "32 word \<Rightarrow> string \<Rightarrow> string" where
  "messages_path sourceDomainID transactionHash =
     ''v2/messages/'' @ print_nat (unat sourceDomainID) @ ''?transactionHash='' @ QueryEscape transactionHash"

definition GetMessages :: "circle_api \<Rightarrow> 32 word \<Rightarrow> string \<Rightarrow> error + CCTPv2Messages" where
  "GetMessages api sourceDomainID transactionHash =
     (if transactionHash = [] then Inl (Err ''transaction hash cannot be empty'')
      else if take 2 transactionHash \<noteq> ''0x'' \<or> length transactionHash \<noteq> 66 then Inl (Wrap ''invalid transaction hash format'' (Err transactionHash))
      else case cap_Get api (messages_path sourceDomainID transactionHash) of
             Inl err \<Rightarrow> Inl (Wrap ''http call failed to get CCTPv2 messages'' err)
           | Inr (body, status) \<Rightarrow>
               if status \<noteq> 200 then Inl (Err ''circle API returned status'') else parseResponseBody api body)"

section \<open>cctp/v2/observer.go\<close>

record CCTPv2RequestParams =
  crp_chainSelector :: ChainSelector
  crp_sourceDomain :: "32 word"
  crp_txHash :: string

text \<open>\<open>GetMessages\<close>, \<open>calculateDepositHashFn\<close> and the encoder are fields of the observer. \<open>ctxErr n\<close> is the answer of
  the n-th check of the context in one call.\<close>

record CCTPv2TokenDataObserver =
  cob_destChainSelector :: ChainSelector
  cob_attestationEncoder :: "byte list \<Rightarrow> byte list \<Rightarrow> error + byte list"
  cob_GetMessages :: "ChainSelector \<Rightarrow> 32 word \<Rightarrow> string \<Rightarrow> error + CCTPv2Messages"
  cob_calculateDepositHashFn :: "CCTPv2DecodedMessage \<Rightarrow> Bytes32 result"

type_synonym cctp_token_data = "(CCTPv2RequestParams, (Bytes32, TokenData list) gomap) gomap"

text \<open>\<open>newReporter\<close> and \<open>newClient\<close> are the results of \<open>NewMetricsReporter\<close> and of \<open>GetHTTPClient\<close>.\<close>

definition NewCCTPv2TokenDataObserver ::
  "abi_lib \<Rightarrow> unit result \<Rightarrow> circle_api result \<Rightarrow> ChainSelector \<Rightarrow> (byte list \<Rightarrow> byte list \<Rightarrow> error + byte list) \<Rightarrow> CCTPv2TokenDataObserver result" where
  "NewCCTPv2TokenDataObserver lib newReporter newClient destChainSelector attestationEncoder =
     rbind (wrap_err ''create metrics reporter'' newReporter) (\<lambda>_.
     rbind (wrap_err ''create attestation client'' (wrap_err ''create HTTP client'' newClient)) (\<lambda>api.
       Ok \<lparr>cob_destChainSelector = destChainSelector, cob_attestationEncoder = attestationEncoder,
           cob_GetMessages = (\<lambda>_. GetMessages api), cob_calculateDepositHashFn = CalculateDepositHash lib\<rparr>))"

definition cctp_IsTokenSupported :: "ChainSelector \<Rightarrow> RampTokenAmount \<Rightarrow> bool" where
  "cctp_IsTokenSupported sourceChain msgToken =
     (case DecodeSourceTokenDataPayloadV2 (rta_ExtraData msgToken) of Inl _ \<Rightarrow> False | Inr _ \<Rightarrow> True)"

text \<open>The set of parameters is a list without repetitions, in the order in which it is walked over.\<close>

definition message_params :: "ChainSelector \<Rightarrow> Message \<Rightarrow> CCTPv2RequestParams list" where
  "message_params chainSelector msg =
     (if mh_TxHash (msg_Header msg) = [] then []
      else List.map_filter (\<lambda>tokenAmount.
        if \<not> cctp_IsTokenSupported chainSelector tokenAmount then None
        else case DecodeSourceTokenDataPayloadV2 (rta_ExtraData tokenAmount) of
               Inl _ \<Rightarrow> None
             | Inr payload \<Rightarrow> Some \<lparr>crp_chainSelector = chainSelector, crp_sourceDomain = stp_SourceDomain payload,
                                     crp_txHash = mh_TxHash (msg_Header msg)\<rparr>) (msg_TokenAmounts msg))"

definition getCCTPv2RequestParams :: "MessageObservations \<Rightarrow> CCTPv2RequestParams list" where
  "getCCTPv2RequestParams messages =
     remdups (concat (map (\<lambda>(chainSelector, chainMessages). concat (map (\<lambda>(_, msg). message_params chainSelector msg) chainMessages)) messages))"

definition makeCCTPv2Requests :: "CCTPv2TokenDataObserver \<Rightarrow> CCTPv2RequestParams list \<Rightarrow> (CCTPv2RequestParams, CCTPv2Messages) gomap" where
  "makeCCTPv2Requests ob params = List.map_filter (\<lambda>p.
     case cob_GetMessages ob (crp_chainSelector p) (crp_sourceDomain p) (crp_txHash p) of
       Inl err \<Rightarrow> None | Inr messages \<Rightarrow> Some (p, messages)) params"

definition CCTPv2MessageToTokenData :: "CCTPv2Message \<Rightarrow> (byte list \<Rightarrow> byte list \<Rightarrow> error + byte list) \<Rightarrow> TokenData" where
  "CCTPv2MessageToTokenData msg attestationEncoder =
     (if cvm_Status msg \<noteq> ''complete'' then NewErrorTokenData ErrNotReady
      else case hex_DecodeString (TrimPrefix (cvm_Message msg) ''0x'') of
        Inl err \<Rightarrow> NewErrorTokenData err
      | Inr messageBytes \<Rightarrow>
          if messageBytes = [] then NewErrorTokenData ErrDataMissing
          else case hex_DecodeString (TrimPrefix (cvm_Attestation msg) ''0x'') of
            Inl err \<Rightarrow> NewErrorTokenData err
          | Inr attestationBytes \<Rightarrow>
              if attestationBytes = [] then NewErrorTokenData ErrDataMissing
              else case attestationEncoder messageBytes attestationBytes of
                Inl err \<Rightarrow> NewErrorTokenData (Wrap ''unable to encode attestation'' err)
              | Inr encodedData \<Rightarrow> NewSuccessTokenData encodedData)"

text \<open>The loops of \<open>convertCCTPv2MessagesToTokenData\<close>; a cancelled context ends both. \<open>n\<close> counts the checks.\<close>

fun convert_messages :: "CCTPv2TokenDataObserver \<Rightarrow> (nat \<Rightarrow> bool) \<Rightarrow> CCTPv2Message list \<Rightarrow> (Bytes32, TokenData list) gomap \<Rightarrow> nat \<Rightarrow>
    ((Bytes32, TokenData list) gomap \<times> nat \<times> bool) result" where
  "convert_messages ob ctxErr [] inner n = Ok (inner, n, True)"
| "convert_messages ob ctxErr (msg # msgs) inner n =
     (if ctxErr n then Ok (inner, n, False)
      else case cob_calculateDepositHashFn ob (cvm_DecodedMessage msg) of
        Panic \<Rightarrow> Panic
      | Error err \<Rightarrow> convert_messages ob ctxErr msgs inner (Suc n)
      | Ok depositHash \<Rightarrow>
          convert_messages ob ctxErr msgs (gm_append depositHash (CCTPv2MessageToTokenData msg (cob_attestationEncoder ob)) inner) (Suc n))"

fun convert_loop :: "CCTPv2TokenDataObserver \<Rightarrow> (nat \<Rightarrow> bool) \<Rightarrow> (CCTPv2RequestParams, CCTPv2Messages) gomap \<Rightarrow> nat \<Rightarrow> cctp_token_data result" where
  "convert_loop ob ctxErr [] n = Ok []"
| "convert_loop ob ctxErr ((requestParams, messages) # rest) n =
     rbind (convert_messages ob ctxErr (cvs_Messages messages) [] n) (\<lambda>(inner, n', go_on).
       if go_on then rbind (convert_loop ob ctxErr rest n') (\<lambda>result. Ok ((requestParams, inner) # result))
       else Ok [(requestParams, inner)])"

definition convertCCTPv2MessagesToTokenData where
  "convertCCTPv2MessagesToTokenData ob ctxErr cctpV2Messages = convert_loop ob ctxErr cctpV2Messages 0"

definition assignSingleTokenData :: "ChainSelector \<Rightarrow> string \<Rightarrow> RampTokenAmount \<Rightarrow> cctp_token_data \<Rightarrow> TokenData \<times> cctp_token_data" where
  "assignSingleTokenData chainSelector txHash tokenAmount tokenData =
     (if \<not> cctp_IsTokenSupported chainSelector tokenAmount then (NotSupportedTokenData, tokenData)
      else case DecodeSourceTokenDataPayloadV2 (rta_ExtraData tokenAmount) of
        Inl err \<Rightarrow> (NewErrorTokenData ErrDataMissing, tokenData)
      | Inr payload \<Rightarrow>
          let requestParams = \<lparr>crp_chainSelector = chainSelector, crp_sourceDomain = stp_SourceDomain payload, crp_txHash = txHash\<rparr>
          in case map_of tokenData requestParams of
               None \<Rightarrow> (NewErrorTokenData ErrDataMissing, tokenData)
             | Some depositHashMap \<Rightarrow>
                 (case map_of depositHashMap (stp_DepositHash payload) of
                    Some (result # rest) \<Rightarrow> (result, gm_put2 requestParams (stp_DepositHash payload) rest tokenData)
                  | _ \<Rightarrow> (NewErrorTokenData ErrDataMissing, tokenData)))"

text \<open>The loops of \<open>assignTokenData\<close>, which hand on what is left of the token data.\<close>

fun assign_amounts :: "ChainSelector \<Rightarrow> string \<Rightarrow> RampTokenAmount list \<Rightarrow> cctp_token_data \<Rightarrow> TokenData list \<times> cctp_token_data" where
  "assign_amounts chainSelector txHash [] tokenData = ([], tokenData)"
| "assign_amounts chainSelector txHash (tokenAmount # rest) tokenData =
     (let (td, tokenData) = assignSingleTokenData chainSelector txHash tokenAmount tokenData;
          (tds, tokenData) = assign_amounts chainSelector txHash rest tokenData
      in (td # tds, tokenData))"

fun assign_messages ::
  "ChainSelector \<Rightarrow> (SeqNum, Message) gomap \<Rightarrow> cctp_token_data \<Rightarrow> (SeqNum, MessageTokenData) gomap \<times> cctp_token_data" where
  "assign_messages chainSelector [] tokenData = ([], tokenData)"
| "assign_messages chainSelector ((seqNum, msg) # rest) tokenData =
     (let (tds, tokenData) = assign_amounts chainSelector (mh_TxHash (msg_Header msg)) (msg_TokenAmounts msg) tokenData;
          (result, tokenData) = assign_messages chainSelector rest tokenData
      in ((seqNum, NewMessageTokenData tds) # result, tokenData))"

fun assignTokenData :: "MessageObservations \<Rightarrow> cctp_token_data \<Rightarrow> TokenDataObservations \<times> cctp_token_data" where
  "assignTokenData [] tokenData = ([], tokenData)"
| "assignTokenData ((chainSelector, chainMessages) # rest) tokenData =
     (let (inner, tokenData) = assign_messages chainSelector chainMessages tokenData;
          (result, tokenData) = assignTokenData rest tokenData
      in ((chainSelector, inner) # result, tokenData))"

definition cctp_Observe :: "CCTPv2TokenDataObserver \<Rightarrow> (nat \<Rightarrow> bool) \<Rightarrow> MessageObservations \<Rightarrow> TokenDataObservations result" where
  "cctp_Observe ob ctxErr messages =
     rbind (convertCCTPv2MessagesToTokenData ob ctxErr (makeCCTPv2Requests ob (getCCTPv2RequestParams messages))) (\<lambda>tokenData.
       Ok (fst (assignTokenData messages tokenData)))"

section \<open>The payload\<close>

definition PutUint32 :: "32 word \<Rightarrow> byte list" where
  "PutUint32 w = [ucast (drop_bit 24 w), ucast (drop_bit 16 w), ucast (drop_bit 8 w), ucast w]"

lemma length_PutUint32 [simp]: "length (PutUint32 w) = 4"
  by (simp add: PutUint32_def)

lemma Uint32_PutUint32 [simp]: "Uint32 (PutUint32 w) = w"
proof (rule bit_word_eqI)
  fix n assume "n < LENGTH(32)"
  then consider "n < 8" | "8 \<le> n" "n < 16" | "16 \<le> n" "n < 24" | "24 \<le> n" "n < 32" by fastforce
  then show "bit (Uint32 (PutUint32 w)) n \<longleftrightarrow> bit w n"
    by cases (auto simp: Uint32_def PutUint32_def bit_simps)
qed

lemma PutUint32_Uint32:
  assumes "length b = 4"
  shows "PutUint32 (Uint32 b) = b"
proof -
  obtain b0 b1 b2 b3 where b: "b = [b0, b1, b2, b3]"
    using assms by (auto simp: length_Suc_conv eval_nat_numeral)
  have "ucast (drop_bit 24 (Uint32 b)) = b0" "ucast (drop_bit 16 (Uint32 b)) = b1"
    "ucast (drop_bit 8 (Uint32 b)) = b2" "ucast (Uint32 b) = b3"
    by (rule bit_word_eqI, auto simp: b Uint32_def bit_simps dest: bit_imp_le_length)+
  then show ?thesis by (simp add: PutUint32_def b)
qed

text \<open>A byte string is a payload exactly when it consists of one of the two version tags, the domain and a hash of 32
  bytes, in big-endian order; decoding gives back the domain and the hash.\<close>

theorem payload_roundtrip:
  "DecodeSourceTokenDataPayloadV2 extraData = Inr p \<longleftrightarrow>
     length (stp_DepositHash p) = 32 \<and>
     (\<exists>tag \<in> {CCTPVersion2Tag, CCTPVersion2CCVTag}. extraData = PutUint32 tag @ PutUint32 (stp_SourceDomain p) @ stp_DepositHash p)"
    (is "?L \<longleftrightarrow> ?R")
proof
  assume ?L
  then have len: "length extraData = 40" and tag: "Uint32 (take 4 extraData) \<in> {CCTPVersion2Tag, CCTPVersion2CCVTag}"
    and p: "p = \<lparr>stp_SourceDomain = Uint32 (take 4 (drop 4 extraData)), stp_DepositHash = take 32 (drop 8 extraData)\<rparr>"
    by (auto simp: DecodeSourceTokenDataPayloadV2_def Let_def split: if_splits)
  have "extraData = take 4 extraData @ take 4 (drop 4 extraData) @ take 32 (drop 8 extraData)"
    using len append_take_drop_id [of 4 extraData] append_take_drop_id [of 4 "drop 4 extraData"] by simp
  then have "extraData = PutUint32 (Uint32 (take 4 extraData)) @ PutUint32 (stp_SourceDomain p) @ stp_DepositHash p"
    using len by (simp add: p PutUint32_Uint32)
  with tag len show ?R by (auto simp: p)
next
  assume ?R
  then show ?L by (auto simp: DecodeSourceTokenDataPayloadV2_def)
qed

section \<open>Handing out the attestations\<close>

text \<open>The key of a token: the request that fetches its attestation, and its deposit hash. \<open>items\<close> are the attestations that
  are left for a key.\<close>

type_synonym cctp_key = "CCTPv2RequestParams \<times> Bytes32"

definition token_key :: "ChainSelector \<Rightarrow> string \<Rightarrow> RampTokenAmount \<Rightarrow> cctp_key option" where
  "token_key c txHash t = (case DecodeSourceTokenDataPayloadV2 (rta_ExtraData t) of Inl _ \<Rightarrow> None
     | Inr p \<Rightarrow> Some (\<lparr>crp_chainSelector = c, crp_sourceDomain = stp_SourceDomain p, crp_txHash = txHash\<rparr>, stp_DepositHash p))"

definition items :: "cctp_token_data \<Rightarrow> cctp_key \<Rightarrow> TokenData list" where
  "items td k = (case gm_get2 td (fst k) (snd k) of None \<Rightarrow> [] | Some ds \<Rightarrow> ds)"

text \<open>What a token gets when \<open>n\<close> tokens with its key came before it.\<close>

definition nth_item :: "(cctp_key \<Rightarrow> TokenData list) \<Rightarrow> cctp_key option \<Rightarrow> nat \<Rightarrow> TokenData" where
  "nth_item it key n = (case key of None \<Rightarrow> NotSupportedTokenData
     | Some k \<Rightarrow> if n < length (it k) then it k ! n else NewErrorTokenData ErrDataMissing)"

definition message_keys :: "ChainSelector \<Rightarrow> Message \<Rightarrow> cctp_key option list" where
  "message_keys c m = map (token_key c (mh_TxHash (msg_Header m))) (msg_TokenAmounts m)"

definition chain_keys :: "ChainSelector \<Rightarrow> (SeqNum, Message) gomap \<Rightarrow> cctp_key option list" where
  "chain_keys c ms = concat (map (message_keys c \<circ> snd) ms)"

definition all_keys :: "MessageObservations \<Rightarrow> cctp_key option list" where
  "all_keys msgs = concat (map (\<lambda>(c, ms). chain_keys c ms) msgs)"

lemma length_message_keys [simp]: "length (message_keys c m) = length (msg_TokenAmounts m)"
  by (simp add: message_keys_def)

lemma no_key_iff: "token_key c txHash t = None \<longleftrightarrow> \<not> cctp_IsTokenSupported c t"
  by (simp add: cctp_IsTokenSupported_def token_key_def split: sum.split)

lemma items_put2: "items (gm_put2 p h ds td) k = (if k = (p, h) then ds else items td k)"
  by (auto simp: items_def gm_get2_put2 prod_eq_iff)

lemma assignSingle:
  assumes "assignSingleTokenData c tx t td = (d, td')"
  shows "d = nth_item (items td) (token_key c tx t) 0"
    and "items td' k = drop (of_bool (token_key c tx t = Some k)) (items td k)"
proof -
  have "d = nth_item (items td) (token_key c tx t) 0 \<and> items td' k = drop (of_bool (token_key c tx t = Some k)) (items td k)"
  proof (cases "DecodeSourceTokenDataPayloadV2 (rta_ExtraData t)")
    case (Inl e)
    with assms show ?thesis by (simp add: assignSingleTokenData_def cctp_IsTokenSupported_def token_key_def nth_item_def)
  next
    case (Inr p)
    let ?p = "\<lparr>crp_chainSelector = c, crp_sourceDomain = stp_SourceDomain p, crp_txHash = tx\<rparr>"
    have "(d, td') = (case items td (?p, stp_DepositHash p) of [] \<Rightarrow> (NewErrorTokenData ErrDataMissing, td)
        | result # rest \<Rightarrow> (result, gm_put2 ?p (stp_DepositHash p) rest td))"
      using assms by (auto simp: assignSingleTokenData_def cctp_IsTokenSupported_def Inr items_def gm_get2_def split: option.split list.split)
    then show ?thesis
      by (cases "items td (?p, stp_DepositHash p)") (auto simp: token_key_def Inr nth_item_def items_put2)
  qed
  then show "d = nth_item (items td) (token_key c tx t) 0" "items td' k = drop (of_bool (token_key c tx t = Some k)) (items td k)"
    by blast+
qed

lemma nth_item_drop:
  assumes "\<And>k. it' k = drop (count_list ks (Some k)) (it k)"
  shows "nth_item it' key n = nth_item it key (count_list ks key + n)"
  using assms by (auto simp: nth_item_def split: option.split)

lemma assign_amounts_length: "assign_amounts c tx ts td = (ds, td') \<Longrightarrow> length ds = length ts"
  by (induction ts arbitrary: td ds) (auto split: prod.splits)

lemma assign_amounts_items:
  "assign_amounts c tx ts td = (ds, td') \<Longrightarrow> items td' k = drop (count_list (map (token_key c tx) ts) (Some k)) (items td k)"
proof (induction ts arbitrary: td ds)
  case (Cons t ts)
  obtain d td1 ds' where step: "assignSingleTokenData c tx t td = (d, td1)" "assign_amounts c tx ts td1 = (ds', td')"
    using Cons.prems by (auto split: prod.splits)
  show ?case using Cons.IH [OF step(2)] assignSingle(2) [OF step(1), of k] by (auto simp: drop_drop add.commute)
qed simp

lemma assign_amounts_nth:
  assumes "assign_amounts c tx ts td = (ds, td')" and "i < length ts"
  shows "ds ! i = nth_item (items td) (token_key c tx (ts ! i)) (count_list (take i (map (token_key c tx) ts)) (token_key c tx (ts ! i)))"
  using assms
proof (induction ts arbitrary: td ds i)
  case (Cons t ts)
  obtain d td1 ds' where step: "assignSingleTokenData c tx t td = (d, td1)" "assign_amounts c tx ts td1 = (ds', td')" "ds = d # ds'"
    using Cons.prems by (auto split: prod.splits)
  note single = assignSingle [OF step(1)]
  have drop: "items td1 k = drop (count_list [token_key c tx t] (Some k)) (items td k)" for k using single(2) [of k] by auto
  show ?case
  proof (cases i)
    case 0
    then show ?thesis using single(1) step(3) by simp
  next
    case (Suc j)
    then show ?thesis using Cons.IH [OF step(2), of j] Cons.prems(2) step(3) nth_item_drop [OF drop] by (simp add: add.commute)
  qed
qed simp

lemma assign_messages_items:
  "assign_messages c ms td = (r, td') \<Longrightarrow> items td' k = drop (count_list (chain_keys c ms) (Some k)) (items td k)"
proof (induction ms arbitrary: td r)
  case (Cons p ms)
  obtain s m where p: "p = (s, m)" by (cases p)
  obtain ds td1 r' where step: "assign_amounts c (mh_TxHash (msg_Header m)) (msg_TokenAmounts m) td = (ds, td1)" "assign_messages c ms td1 = (r', td')"
    using Cons.prems by (auto simp: p split: prod.splits)
  show ?case using Cons.IH [OF step(2)] assign_amounts_items [OF step(1), of k]
    by (simp add: chain_keys_def message_keys_def p drop_drop add.commute)
qed (simp add: chain_keys_def)

lemma assignTokenData_items:
  "assignTokenData msgs td = (r, td') \<Longrightarrow> items td' k = drop (count_list (all_keys msgs) (Some k)) (items td k)"
proof (induction msgs arbitrary: td r)
  case (Cons p msgs)
  obtain c ms where p: "p = (c, ms)" by (cases p)
  obtain inner td1 r' where step: "assign_messages c ms td = (inner, td1)" "assignTokenData msgs td1 = (r', td')"
    using Cons.prems by (auto simp: p split: prod.splits)
  show ?case using Cons.IH [OF step(2)] assign_messages_items [OF step(1), of k]
    by (simp add: all_keys_def p drop_drop add.commute)
qed (simp add: all_keys_def)

lemma assign_messages_append:
  "assign_messages c (xs @ ys) td =
     (let (r, td1) = assign_messages c xs td; (r', td2) = assign_messages c ys td1 in (r @ r', td2))"
  by (induction xs arbitrary: td) (auto split: prod.split)

lemma assignTokenData_append:
  "assignTokenData (xs @ ys) td =
     (let (r, td1) = assignTokenData xs td; (r', td2) = assignTokenData ys td1 in (r @ r', td2))"
  by (induction xs arbitrary: td) (auto split: prod.split)

lemma assign_messages_shape:
  assumes "assign_messages c ms td = (r, td')"
  shows "map fst r = map fst ms"
    and "rel_option (\<lambda>m d. length (msg_TokenAmounts m) = length (mtd_TokenData d)) (map_of ms s) (map_of r s)"
  using assms by (induction ms arbitrary: td r) (auto simp: NewMessageTokenData_def assign_amounts_length split: prod.splits)

lemma assignTokenData_shape:
  assumes "assignTokenData msgs td = (r, td')"
  shows "map fst r = map fst msgs" and "same_shape msgs r" and "gm_ok2 msgs \<Longrightarrow> gm_ok2 r"
proof -
  have "map fst r = map fst msgs \<and> rel_option (\<lambda>m d. length (msg_TokenAmounts m) = length (mtd_TokenData d)) (gm_get2 msgs c s) (gm_get2 r c s) \<and>
      (gm_ok2 msgs \<longrightarrow> gm_ok2 r)" for c s
    using assms
  proof (induction msgs arbitrary: td r)
    case (Cons p msgs)
    obtain c' ms where p: "p = (c', ms)" by (cases p)
    obtain inner td1 r' where step: "assign_messages c' ms td = (inner, td1)" "assignTokenData msgs td1 = (r', td')" "r = (c', inner) # r'"
      using Cons.prems by (auto simp: p split: prod.splits)
    have "fst ` set r' = fst ` set msgs" using Cons.IH [OF step(2)] by (metis list.set_map)
    then show ?case using Cons.IH [OF step(2)] assign_messages_shape [OF step(1)]
      by (auto simp: p step(3) gm_get2_def gm_ok2_def gm_ok_def)
  qed (simp_all add: gm_get2_def gm_ok2_def)
  then show "map fst r = map fst msgs" "same_shape msgs r" "gm_ok2 msgs \<Longrightarrow> gm_ok2 r" by (auto simp: same_shape_def)
qed

text \<open>The value of the i-th token of a message: the tokens that are walked over before it, in the order of the maps, take
  their items first.\<close>

lemma assignTokenData_nth:
  assumes "gm_ok2 msgs" and "msgs = Pre @ (c, pre @ (s, m) # post) # Post" and "i < length (msg_TokenAmounts m)"
    and "assignTokenData msgs td = (r, td')"
  defines "key \<equiv> message_keys c m ! i"
  shows "data_at r c s i = nth_item (items td) key (count_list (all_keys Pre @ chain_keys c pre @ take i (message_keys c m)) key)"
proof -
  obtain r0 td0 inner td1 r1 where outer: "assignTokenData Pre td = (r0, td0)"
      "assign_messages c (pre @ (s, m) # post) td0 = (inner, td1)" "assignTokenData Post td1 = (r1, td')" "r = r0 @ (c, inner) # r1"
    using assms(2,4) by (auto simp: assignTokenData_append Let_def split: prod.splits)
  obtain i0 td2 ds td3 i1 where inn: "assign_messages c pre td0 = (i0, td2)"
      "assign_amounts c (mh_TxHash (msg_Header m)) (msg_TokenAmounts m) td2 = (ds, td3)" "inner = i0 @ (s, NewMessageTokenData ds) # i1"
    using outer(2) by (auto simp: assign_messages_append Let_def split: prod.splits)
  have "gm_ok2 r" by (rule assignTokenData_shape(3) [OF assms(4,1)])
  then have "gm_ok r" "gm_ok inner" by (simp_all add: gm_ok2_def outer(4))
  then have "map_of r c = Some inner" "map_of inner s = Some (NewMessageTokenData ds)"
    unfolding gm_get_iff [OF \<open>gm_ok r\<close>] gm_get_iff [OF \<open>gm_ok inner\<close>] by (simp_all add: outer(4) inn(3))
  then have "gm_get2 r c s = Some (NewMessageTokenData ds)" by (simp add: gm_get2_def)
  then have "data_at r c s i = nth_item (items td2) key (count_list (take i (message_keys c m)) key)"
    using assign_amounts_nth [OF inn(2) assms(3)] assms(3) by (simp add: data_at_def NewMessageTokenData_def key_def message_keys_def)
  also have "\<dots> = nth_item (items td0) key (count_list (chain_keys c pre) key + count_list (take i (message_keys c m)) key)"
    by (rule nth_item_drop) (rule assign_messages_items [OF inn(1)])
  also have "\<dots> = nth_item (items td) key (count_list (all_keys Pre) key + (count_list (chain_keys c pre) key + count_list (take i (message_keys c m)) key))"
    by (rule nth_item_drop) (rule assignTokenData_items [OF outer(1)])
  finally show ?thesis by simp
qed

section \<open>The observer\<close>

text \<open>The reference: what the API holds for a key, in the order of the API.\<close>

definition attested :: "CCTPv2TokenDataObserver \<Rightarrow> cctp_key \<Rightarrow> TokenData list" where
  "attested ob k = (if crp_txHash (fst k) = [] then []
     else case cob_GetMessages ob (crp_chainSelector (fst k)) (crp_sourceDomain (fst k)) (crp_txHash (fst k)) of
       Inl _ \<Rightarrow> []
     | Inr ms \<Rightarrow> map (\<lambda>m. CCTPv2MessageToTokenData m (cob_attestationEncoder ob))
                   (filter (\<lambda>m. cob_calculateDepositHashFn ob (cvm_DecodedMessage m) = Ok (snd k)) (cvs_Messages ms)))"

lemma parseUint32Param_no_panic [simp]: "parseUint32Param s name \<noteq> Panic"
  by (simp add: parseUint32Param_def split: sum.split)

lemma hexToBytes32_no_panic [simp]: "hexToBytes32 s \<noteq> Panic"
  by (simp add: hexToBytes32_def split: sum.split)

lemma parse_unsigned_no_panic [simp]: "parse_unsigned s name noun \<noteq> Panic"
  by (simp add: parse_unsigned_def split: option.split)

lemma CalculateDepositHash_no_panic: "CalculateDepositHash lib msg \<noteq> Panic"
  by (auto simp: CalculateDepositHash_def parseDepositHashParams_def Let_def rbind_Panic_iff split: sum.splits if_splits)

lemma NewCCTPv2_no_panic:
  "NewCCTPv2TokenDataObserver lib newReporter newClient dest enc = Ok ob \<Longrightarrow> \<forall>m. cob_calculateDepositHashFn ob m \<noteq> Panic"
  by (auto simp: NewCCTPv2TokenDataObserver_def rbind_Ok_iff CalculateDepositHash_no_panic)

definition hashed :: "CCTPv2TokenDataObserver \<Rightarrow> CCTPv2Message list \<Rightarrow> (Bytes32 \<times> TokenData) list" where
  "hashed ob = List.map_filter (\<lambda>m. case cob_calculateDepositHashFn ob (cvm_DecodedMessage m) of
     Ok h \<Rightarrow> Some (h, CCTPv2MessageToTokenData m (cob_attestationEncoder ob)) | _ \<Rightarrow> None)"

lemma hashed_key: "map snd (filter (\<lambda>p. fst p = h) (hashed ob ms)) =
    map (\<lambda>m. CCTPv2MessageToTokenData m (cob_attestationEncoder ob)) (filter (\<lambda>m. cob_calculateDepositHashFn ob (cvm_DecodedMessage m) = Ok h) ms)"
  by (induction ms) (auto simp: hashed_def map_filter_simps split: result.split)

lemma convert_messages_hashed:
  assumes "\<forall>n. \<not> ctxErr n" and "\<forall>m. cob_calculateDepositHashFn ob m \<noteq> Panic"
  shows "convert_messages ob ctxErr ms inner n = Ok (group_append (hashed ob ms) inner, n + length ms, True)"
proof (induction ms arbitrary: inner n)
  case (Cons m ms)
  then show ?case
    using assms by (cases "cob_calculateDepositHashFn ob (cvm_DecodedMessage m)") (simp_all add: hashed_def map_filter_simps group_append_def)
qed (simp add: hashed_def map_filter_simps group_append_def)

lemma convert_loop_hashed:
  assumes "\<forall>n. \<not> ctxErr n" and "\<forall>m. cob_calculateDepositHashFn ob m \<noteq> Panic"
  shows "convert_loop ob ctxErr cms n = Ok (map_keyed (\<lambda>_ ms. group_append (hashed ob (cvs_Messages ms)) []) cms)"
  by (induction cms arbitrary: n) (auto simp: convert_messages_hashed [OF assms] map_keyed_def)

lemma map_of_requests:
  "map_of (makeCCTPv2Requests ob ps) p = (if p \<in> set ps
     then case cob_GetMessages ob (crp_chainSelector p) (crp_sourceDomain p) (crp_txHash p) of Inl _ \<Rightarrow> None | Inr ms \<Rightarrow> Some ms else None)"
  by (induction ps) (auto simp: makeCCTPv2Requests_def map_filter_simps split: sum.splits)

lemma token_params:
  assumes "(c, ms) \<in> set msgs" and "(s, m) \<in> set ms" and "Some (p, h) \<in> set (message_keys c m)"
  shows "crp_txHash p = mh_TxHash (msg_Header m)" and "crp_chainSelector p = c"
    and "mh_TxHash (msg_Header m) \<noteq> [] \<Longrightarrow> p \<in> set (getCCTPv2RequestParams msgs)"
proof -
  obtain t q where t: "t \<in> set (msg_TokenAmounts m)" "DecodeSourceTokenDataPayloadV2 (rta_ExtraData t) = Inr q"
      "p = \<lparr>crp_chainSelector = c, crp_sourceDomain = stp_SourceDomain q, crp_txHash = mh_TxHash (msg_Header m)\<rparr>"
    using assms(3) by (auto simp: message_keys_def token_key_def split: sum.splits)
  show "crp_txHash p = mh_TxHash (msg_Header m)" "crp_chainSelector p = c" using t(3) by simp_all
  assume "mh_TxHash (msg_Header m) \<noteq> []"
  with t have "p \<in> set (message_params c m)"
    by (force simp: message_params_def cctp_IsTokenSupported_def map_filter_def)
  with assms(1,2) show "p \<in> set (getCCTPv2RequestParams msgs)" unfolding getCCTPv2RequestParams_def by force
qed

lemma no_empty_request: "p \<in> set (getCCTPv2RequestParams msgs) \<Longrightarrow> crp_txHash p \<noteq> []"
  by (auto simp: getCCTPv2RequestParams_def message_params_def map_filter_def split: if_splits sum.splits)

lemma items_attested:
  assumes "\<forall>m. cob_calculateDepositHashFn ob m \<noteq> Panic" and "p \<in> set ps \<longleftrightarrow> crp_txHash p \<noteq> []"
  shows "items (map_keyed (\<lambda>_ ms. group_append (hashed ob (cvs_Messages ms)) []) (makeCCTPv2Requests ob ps)) (p, h) = attested ob (p, h)"
proof -
  have "(case map_of (group_append (hashed ob ms) []) h of None \<Rightarrow> [] | Some ds \<Rightarrow> ds) = map snd (filter (\<lambda>q. fst q = h) (hashed ob ms))" for ms
    using gm_vals_group_append [of "hashed ob ms" "[]" h] by (simp add: gm_vals_def)
  then show ?thesis
    using assms(2) by (auto simp: items_def gm_get2_def map_of_map_keyed map_of_requests attested_def hashed_key split: sum.split)
qed

lemma cctp_Observe_nth:
  assumes "gm_ok2 msgs" and "\<forall>n. \<not> ctxErr n" and "\<forall>m. cob_calculateDepositHashFn ob m \<noteq> Panic"
  shows "\<exists>td. cctp_Observe ob ctxErr msgs = Ok td \<and> same_shape msgs td \<and>
    (\<forall>Pre c pre s m post Post i. msgs = Pre @ (c, pre @ (s, m) # post) # Post \<and> i < length (msg_TokenAmounts m) \<longrightarrow>
      data_at td c s i = nth_item (attested ob) (message_keys c m ! i)
        (count_list (all_keys Pre @ chain_keys c pre @ take i (message_keys c m)) (message_keys c m ! i)))"
proof -
  let ?td = "map_keyed (\<lambda>_ ms. group_append (hashed ob (cvs_Messages ms)) []) (makeCCTPv2Requests ob (getCCTPv2RequestParams msgs))"
  obtain r td' where r: "assignTokenData msgs ?td = (r, td')" by fastforce
  then have ob: "cctp_Observe ob ctxErr msgs = Ok r"
    by (simp add: cctp_Observe_def convertCCTPv2MessagesToTokenData_def convert_loop_hashed [OF assms(2,3)])
  have "data_at r c s i = nth_item (attested ob) (message_keys c m ! i)
        (count_list (all_keys Pre @ chain_keys c pre @ take i (message_keys c m)) (message_keys c m ! i))"
    if split: "msgs = Pre @ (c, pre @ (s, m) # post) # Post" and i: "i < length (msg_TokenAmounts m)" for Pre c pre s m post Post i
  proof -
    have "nth_item (items ?td) (message_keys c m ! i) n = nth_item (attested ob) (message_keys c m ! i) n" for n
    proof (cases "message_keys c m ! i")
      case (Some k)
      obtain p h where k: "k = (p, h)" by (cases k)
      then have "Some (p, h) \<in> set (message_keys c m)" using Some i by (metis length_message_keys nth_mem)
      note params = token_params [of c _ msgs s m, OF _ _ this]
      have "p \<in> set (getCCTPv2RequestParams msgs) \<longleftrightarrow> crp_txHash p \<noteq> []"
        using params [of "pre @ (s, m) # post"] no_empty_request split by auto
      from items_attested [OF assms(3) this] show ?thesis by (simp add: Some k nth_item_def)
    qed (simp add: nth_item_def)
    with assignTokenData_nth [OF assms(1) split i r] show ?thesis by simp
  qed
  with ob assignTokenData_shape(2) [OF r] show ?thesis by blast
qed

lemma split_message:
  assumes "gm_get2 msgs c s = Some m"
  obtains Pre pre post Post where "msgs = Pre @ (c, pre @ (s, m) # post) # Post"
proof -
  obtain ms where ms: "map_of msgs c = Some ms" "map_of ms s = Some m" using assms by (auto simp: gm_get2_def split: option.splits)
  from map_of_SomeD [OF ms(1)] obtain Pre Post where "msgs = Pre @ (c, ms) # Post" by (auto dest: split_list)
  moreover from map_of_SomeD [OF ms(2)] obtain pre post where "ms = pre @ (s, m) # post" by (auto dest: split_list)
  ultimately show thesis using that by blast
qed

interpretation cctp: token_data_observer "cctp_Observe ob ctxErr" cctp_IsTokenSupported for ob ctxErr
proof
  fix msgs td assume ok: "gm_ok2 msgs" and ob: "cctp_Observe ob ctxErr msgs = Ok td"
  then obtain tokenData td' where r: "assignTokenData msgs tokenData = (td, td')"
    by (auto simp: cctp_Observe_def rbind_Ok_iff) (metis prod.collapse)
  show "gm_ok2 td" "same_shape msgs td" using assignTokenData_shape [OF r] ok by blast+
  fix c s m i assume m: "gm_get2 msgs c s = Some m" "i < length (msg_TokenAmounts m)" "\<not> cctp_IsTokenSupported c (msg_TokenAmounts m ! i)"
  obtain Pre pre post Post where "msgs = Pre @ (c, pre @ (s, m) # post) # Post" using split_message [OF m(1)] .
  moreover have "message_keys c m ! i = None"
    using m(2,3) by (simp add: message_keys_def no_key_iff)
  ultimately show "\<not> td_Supported (data_at td c s i)"
    using assignTokenData_nth [OF ok _ m(2) r] by (simp add: nth_item_def NotSupportedTokenData_def)
qed

section \<open>Properties\<close>

text \<open>C15. The CCTP v2 observer of \<open>NewCCTPv2TokenDataObserver\<close> never fails. While the context is not cancelled, a token whose
  \<open>ExtraData\<close> is no payload of version 2 is not supported; any other token gets the attestation with the number that says
  how many tokens with the same transaction, domain and deposit hash come before it in the order of the maps, among
  those that the API holds for its transaction and hash, and \<open>ErrDataMissing\<close> when there are not that many. So no attestation
  is given out twice, and none is left over while a token of its key goes without.\<close>

theorem cctp_Observe_assigns:
  assumes "NewCCTPv2TokenDataObserver lib newReporter newClient dest enc = Ok ob" and "gm_ok2 msgs" and "\<forall>n. \<not> ctxErr n"
  shows "\<exists>td. cctp_Observe ob ctxErr msgs = Ok td \<and> same_shape msgs td \<and>
    (\<forall>Pre c pre s m post Post i. msgs = Pre @ (c, pre @ (s, m) # post) # Post \<and> i < length (msg_TokenAmounts m) \<longrightarrow>
      data_at td c s i = nth_item (attested ob) (message_keys c m ! i)
        (count_list (all_keys Pre @ chain_keys c pre @ take i (message_keys c m)) (message_keys c m ! i)))"
  by (rule cctp_Observe_nth [OF assms(2,3) NewCCTPv2_no_panic [OF assms(1)]])

text \<open>When the tokens of a key belong to one message, only the order within that message counts.\<close>

definition own_keys :: "MessageObservations \<Rightarrow> bool" where
  "own_keys msgs \<longleftrightarrow> (\<forall>c s s' m m' k. gm_get2 msgs c s = Some m \<and> gm_get2 msgs c s' = Some m' \<and>
     Some k \<in> set (message_keys c m) \<and> Some k \<in> set (message_keys c m') \<longrightarrow> s' = s)"

lemma own_key_count:
  assumes "gm_ok2 msgs" and "msgs = Pre @ (c, pre @ (s, m) # post) # Post" and "Some k \<in> set (message_keys c m)"
    and "own_keys msgs"
  shows "count_list (all_keys Pre @ chain_keys c pre @ ks) (Some k) = count_list ks (Some k)"
proof -
  have ok: "gm_ok msgs" "gm_ok (pre @ (s, m) # post)" using assms(1) by (simp_all add: gm_ok2_def assms(2))
  obtain p h where k: "k = (p, h)" by (cases k)
  have c: "crp_chainSelector p = c'" if "Some (p, h) \<in> set (message_keys c' m')" for c' m'
    using that by (auto simp: message_keys_def token_key_def split: sum.splits)
  have "Some k \<notin> set (all_keys Pre)"
  proof
    assume "Some k \<in> set (all_keys Pre)"
    then obtain c' ms' e where e: "(c', ms') \<in> set Pre" "e \<in> set ms'" "Some k \<in> set (message_keys c' (snd e))"
      by (auto simp: all_keys_def chain_keys_def)
    then have "c' = c" using c [of c' "snd e"] c [of c m] assms(3) k by simp
    with e(1) have "c \<in> fst ` set Pre" by force
    with ok(1) show False by (simp add: gm_ok_def assms(2))
  qed
  moreover have "Some k \<notin> set (chain_keys c pre)"
  proof
    assume "Some k \<in> set (chain_keys c pre)"
    then obtain s' m' where e: "(s', m') \<in> set pre" "Some k \<in> set (message_keys c m')" by (force simp: chain_keys_def)
    have "map_of msgs c = Some (pre @ (s, m) # post)" "map_of (pre @ (s, m) # post) s' = Some m'"
      unfolding gm_get_iff [OF ok(1)] gm_get_iff [OF ok(2)] using e(1) by (simp_all add: assms(2))
    then have "gm_get2 msgs c s' = Some m'" by (simp add: gm_get2_def)
    moreover have "map_of (pre @ (s, m) # post) s = Some m" unfolding gm_get_iff [OF ok(2)] by simp
    then have "gm_get2 msgs c s = Some m" using \<open>map_of msgs c = _\<close> by (simp add: gm_get2_def)
    ultimately have "s' = s" using assms(3,4) e(2) unfolding own_keys_def by blast
    with e(1) have "s \<in> fst ` set pre" by force
    with ok(2) show False by (simp add: gm_ok_def)
  qed
  ultimately show ?thesis by simp
qed

lemma cctp_Observe_own_keys:
  assumes "gm_ok2 msgs" and "\<forall>n. \<not> ctxErr n" and "\<forall>m. cob_calculateDepositHashFn ob m \<noteq> Panic"
    and "own_keys msgs"
  shows "\<exists>td. cctp_Observe ob ctxErr msgs = Ok td \<and>
    (\<forall>c s m i. gm_get2 msgs c s = Some m \<and> i < length (msg_TokenAmounts m) \<longrightarrow>
      data_at td c s i = nth_item (attested ob) (message_keys c m ! i) (count_list (take i (message_keys c m)) (message_keys c m ! i)))"
proof -
  obtain td where td: "cctp_Observe ob ctxErr msgs = Ok td"
    "\<forall>Pre c pre s m post Post i. msgs = Pre @ (c, pre @ (s, m) # post) # Post \<and> i < length (msg_TokenAmounts m) \<longrightarrow>
      data_at td c s i = nth_item (attested ob) (message_keys c m ! i)
        (count_list (all_keys Pre @ chain_keys c pre @ take i (message_keys c m)) (message_keys c m ! i))"
    using cctp_Observe_nth [OF assms(1-3)] by blast
  have "data_at td c s i = nth_item (attested ob) (message_keys c m ! i) (count_list (take i (message_keys c m)) (message_keys c m ! i))"
    if m: "gm_get2 msgs c s = Some m" "i < length (msg_TokenAmounts m)" for c s m i
  proof -
    obtain Pre pre post Post where split: "msgs = Pre @ (c, pre @ (s, m) # post) # Post" using split_message [OF m(1)] .
    have "data_at td c s i = nth_item (attested ob) (message_keys c m ! i)
        (count_list (all_keys Pre @ chain_keys c pre @ take i (message_keys c m)) (message_keys c m ! i))"
      using td(2) split m(2) by blast
    also have "\<dots> = nth_item (attested ob) (message_keys c m ! i) (count_list (take i (message_keys c m)) (message_keys c m ! i))"
    proof (cases "message_keys c m ! i")
      case (Some k)
      then have k: "Some k \<in> set (message_keys c m)" using m(2) by (metis length_message_keys nth_mem)
      show ?thesis unfolding Some own_key_count [OF assms(1) split k assms(4)] ..
    qed (simp add: nth_item_def)
    finally show ?thesis .
  qed
  with td(1) show ?thesis by blast
qed

text \<open>C16. Two oracles that ask at the same time agree, although each walks over its maps in its own order, provided that no
  two messages of a chain share a key, that is, a transaction, a domain and a deposit hash.\<close>

theorem cctp_Observe_deterministic:
  assumes "NewCCTPv2TokenDataObserver lib newReporter newClient dest enc = Ok ob"
    and "gm_ok2 msgs" and "gm_ok2 msgs'" and "gm_get2 msgs' = gm_get2 msgs" and "\<forall>n. \<not> ctxErr n"
    and "own_keys msgs"
  shows "\<exists>td td'. cctp_Observe ob ctxErr msgs = Ok td \<and> cctp_Observe ob ctxErr msgs' = Ok td' \<and>
    (\<forall>c s m i. gm_get2 msgs c s = Some m \<and> i < length (msg_TokenAmounts m) \<longrightarrow> data_at td c s i = data_at td' c s i)"
proof -
  note no_panic = NewCCTPv2_no_panic [OF assms(1)]
  have "own_keys msgs'" using assms(6) unfolding own_keys_def assms(4) .
  from cctp_Observe_own_keys [OF assms(2,5) no_panic assms(6)] cctp_Observe_own_keys [OF assms(3,5) no_panic this]
  obtain td td' where "cctp_Observe ob ctxErr msgs = Ok td" "cctp_Observe ob ctxErr msgs' = Ok td'"
    "\<forall>c s m i. gm_get2 msgs c s = Some m \<and> i < length (msg_TokenAmounts m) \<longrightarrow>
      data_at td c s i = nth_item (attested ob) (message_keys c m ! i) (count_list (take i (message_keys c m)) (message_keys c m ! i))"
    "\<forall>c s m i. gm_get2 msgs c s = Some m \<and> i < length (msg_TokenAmounts m) \<longrightarrow>
      data_at td' c s i = nth_item (attested ob) (message_keys c m ! i) (count_list (take i (message_keys c m)) (message_keys c m ! i))"
    unfolding assms(4) by blast
  note td = this
  have "data_at td c s i = data_at td' c s i" if "gm_get2 msgs c s = Some m" "i < length (msg_TokenAmounts m)" for c s m i
    using td(3) [rule_format, of c s m i] td(4) [rule_format, of c s m i] that by simp
  with td(1,2) show ?thesis by blast
qed

text \<open>The printed form of the parameters: decimal numbers, and hexadecimal bytes after \<open>0x\<close>.\<close>

definition lower_hex :: "nat \<Rightarrow> char" where
  "lower_hex n = char_of (if n < 10 then 48 + n else 87 + n)"

definition print_hex :: "byte list \<Rightarrow> string" where
  "print_hex bs = ''0x'' @ concat (map (\<lambda>b. [lower_hex (unat b div 16), lower_hex (unat b mod 16)]) bs)"

lemma hex_digit_lower [simp]: "n < 16 \<Longrightarrow> hex_digit (lower_hex n) = Some n"
  by (auto simp: hex_digit_def lower_hex_def Let_def)

lemma hexToBytes32_print:
  assumes "length bs = 32"
  shows "hexToBytes32 (print_hex bs) = Ok bs"
proof -
  have byte: "unat (b :: byte) div 16 < 16" for b
  proof -
    have "unat b < 2 ^ LENGTH(8)" by (rule unsigned_less)
    then show ?thesis by simp
  qed
  have "hex_DecodeString (concat (map (\<lambda>b. [lower_hex (unat b div 16), lower_hex (unat b mod 16)]) bs)) = Inr bs"
    by (induction bs) (simp_all add: byte)
  then show ?thesis using assms by (simp add: hexToBytes32_def TrimPrefix_def print_hex_def)
qed

lemma dec_digit_print [simp]: "d < 10 \<Longrightarrow> dec_digit (char_of (48 + d)) = Some d"
  by (simp add: dec_digit_def Let_def)

lemma print_nat_not_Nil [simp]: "print_nat n \<noteq> []"
  by (subst print_nat.simps) simp

lemma digits_value_append: "digits_value (xs @ ys) n = Option.bind (digits_value xs n) (digits_value ys)"
  by (induction xs arbitrary: n) (auto split: option.split)

lemma digits_value_print: "digits_value (print_nat n) 0 = Some (int n)"
proof (induction n rule: print_nat.induct)
  case (1 n)
  then show ?case
  proof (cases "n < 10")
    case False
    then have "digits_value (print_nat (n div 10)) 0 = Some (int (n div 10))" using 1 by blast
    moreover have "10 * int (n div 10) + int (n mod 10) = int n" by presburger
    ultimately show ?thesis by (subst print_nat.simps) (simp add: False digits_value_append)
  qed (simp add: print_nat.simps [of n])
qed

lemma digits_value_le: "digits_value s k = Some n \<Longrightarrow> 0 \<le> k \<Longrightarrow> k \<le> n"
  by (induction s arbitrary: k) (force split: option.splits)+

lemma ParseUint_loop_value: "digits_value s m = Some n \<Longrightarrow> 0 \<le> m \<Longrightarrow> n < 2 ^ bits \<Longrightarrow> ParseUint_loop bits s m = Inr n"
proof (induction s arbitrary: m)
  case (Cons ch s)
  obtain d where d: "dec_digit ch = Some d" "digits_value s (10 * m + int d) = Some n" using Cons.prems(1) by (auto split: option.splits)
  have "10 * m + int d < 2 ^ bits" using digits_value_le [OF d(2)] Cons.prems(2,3) by simp
  with Cons.IH [OF d(2) _ Cons.prems(3)] Cons.prems(2) d(1) show ?case by simp
qed simp

lemma parseUint32Param_print: "parseUint32Param (print_nat (unat w)) name = Ok w"
proof -
  have "uint w < 2 ^ LENGTH(32)" by (rule unsigned_less)
  then have "int (unat w) < 2 ^ 32" by simp
  from ParseUint_loop_value [OF digits_value_print _ this] show ?thesis by (simp add: parseUint32Param_def ParseUint_def)
qed

lemma print_nat_digits: "ch \<in> set (print_nat n) \<Longrightarrow> dec_digit ch \<noteq> None"
proof (induction n rule: print_nat.induct)
  case (1 n)
  then show ?case by (subst (asm) print_nat.simps) (auto split: if_splits)
qed

lemma SetString_print: "SetString (print_nat n) = Some (int n)"
proof -
  have "hd (print_nat n) \<noteq> CHR ''-''" "hd (print_nat n) \<noteq> CHR ''+''"
    using print_nat_digits [of "hd (print_nat n)" n] by (auto simp: dec_digit_def)
  then show ?thesis by (simp add: SetString_def Let_def digits_value_print)
qed

lemma parse_unsigned_print: "parse_unsigned (print_nat n) name noun = Ok (int n)"
  by (simp add: parse_unsigned_def SetString_print)

text \<open>C17. \<open>parseDepositHashParams\<close> reads back what is printed: from the decimal and hexadecimal form of the parameters of a
  transfer it gets the parameters, whatever the rest of the message of the API holds. A fee that is left out is 0.\<close>

theorem deposit_params_roundtrip:
  assumes "0 \<le> dhp_amount p" and "0 \<le> dhp_maxFee p"
    and "length (dhp_mintRecipient p) = 32" and "length (dhp_burnToken p) = 32" and "length (dhp_destinationCaller p) = 32"
    and "cdm_SourceDomain msg = print_nat (unat (dhp_sourceDomain p))" and "cdm_DestinationDomain msg = print_nat (unat (dhp_destinationDomain p))"
    and "cdm_MinFinalityThreshold msg = print_nat (unat (dhp_minFinalityThreshold p))"
    and "cdm_DestinationCaller msg = print_hex (dhp_destinationCaller p)"
    and "cmb_Amount (cdm_DecodedMessageBody msg) = print_nat (nat (dhp_amount p))"
    and "cmb_MaxFee (cdm_DecodedMessageBody msg) = print_nat (nat (dhp_maxFee p)) \<or> dhp_maxFee p = 0 \<and> cmb_MaxFee (cdm_DecodedMessageBody msg) = []"
    and "cmb_MintRecipient (cdm_DecodedMessageBody msg) = print_hex (dhp_mintRecipient p)"
    and "cmb_BurnToken (cdm_DecodedMessageBody msg) = print_hex (dhp_burnToken p)"
  shows "parseDepositHashParams msg = Ok p"
  using assms by (auto simp: parseDepositHashParams_def Let_def parseUint32Param_print parse_unsigned_print hexToBytes32_print
    print_nat_not_Nil [symmetric])

section \<open>Examples\<close>

definition ex_abi :: abi_lib where
  "ex_abi = \<lparr>abl_Pack = (\<lambda>vs. Inr (concat (map (\<lambda>v. case v of abi_uint256 n \<Rightarrow> [of_int n] | _ \<Rightarrow> []) vs))),
     abl_Keccak256Hash = (\<lambda>b. take 32 (b @ replicate 32 0))\<rparr>"

definition ex_deposit :: "string \<Rightarrow> CCTPv2DecodedMessage" where
  "ex_deposit amount = \<lparr>cdm_SourceDomain = ''3'', cdm_DestinationDomain = ''6'', cdm_Nonce = [], cdm_Sender = [], cdm_Recipient = [],
     cdm_DestinationCaller = ''0x'', cdm_MessageBody = [],
     cdm_DecodedMessageBody = \<lparr>cmb_BurnToken = ''0x0A'', cmb_MintRecipient = ''fF'', cmb_Amount = amount, cmb_MessageSender = [], cmb_MaxFee = [],
       cmb_FeeExecuted = [], cmb_ExpirationBlock = [], cmb_HookData = []\<rparr>,
     cdm_MinFinalityThreshold = ''2000'', cdm_FinalityThresholdExecuted = []\<rparr>"

definition ex_cctp_message :: "string \<Rightarrow> string \<Rightarrow> CCTPv2Message" where
  "ex_cctp_message amount status = \<lparr>cvm_Message = ''0x01'', cvm_EventNonce = [], cvm_Attestation = ''0x02'', cvm_DecodedMessage = ex_deposit amount,
     cvm_CCTPVersion = 2, cvm_Status = status\<rparr>"

definition ex_circle :: circle_api where
  "ex_circle = \<lparr>cap_Get = (\<lambda>path. Inr ([], 200)), cap_Unmarshal = (\<lambda>b. Inr \<lparr>cvs_Messages =
     [ex_cctp_message ''5'' ''complete'', ex_cctp_message ''7'' ''complete'', ex_cctp_message ''5'' ''pending'']\<rparr>)\<rparr>"

definition ex_cctp :: CCTPv2TokenDataObserver where
  "ex_cctp = \<lparr>cob_destChainSelector = 9, cob_attestationEncoder = (\<lambda>m a. Inr (m @ a)), cob_GetMessages = (\<lambda>_. GetMessages ex_circle),
     cob_calculateDepositHashFn = CalculateDepositHash ex_abi\<rparr>"

definition ex_cctp_token :: "byte \<Rightarrow> RampTokenAmount" where
  "ex_cctp_token amount = (ex_token 1)\<lparr>rta_ExtraData := PutUint32 CCTPVersion2Tag @ PutUint32 3 @ [amount] @ replicate 31 0\<rparr>"

definition ex_cctp_msg :: "RampTokenAmount list \<Rightarrow> Message" where
  "ex_cctp_msg tokens = Message_zero\<lparr>msg_TokenAmounts := tokens,
     msg_Header := (msg_Header Message_zero)\<lparr>mh_TxHash := ''0x'' @ replicate 64 (CHR ''a'')\<rparr>\<rparr>"

lemma ex_cctp_new: "NewCCTPv2TokenDataObserver ex_abi (Ok ()) (Ok ex_circle) 9 (\<lambda>m a. Inr (m @ a)) = Ok ex_cctp"
  by (simp add: NewCCTPv2TokenDataObserver_def ex_cctp_def)

text \<open>Two messages of one transaction: the first with two transfers of the same hash, for which the API has one finished and
  one pending attestation; the second with two transfers of another hash, for which it has one.\<close>

definition ex_cctp_7 :: Message where
  "ex_cctp_7 = ex_cctp_msg [ex_cctp_token 5, ex_token 3, ex_cctp_token 5]"

definition ex_cctp_8 :: Message where
  "ex_cctp_8 = ex_cctp_msg [ex_cctp_token 7, ex_cctp_token 7]"

lemma ex_cctp_keys:
  "message_keys 1 ex_cctp_7 = (let k = token_key 1 (mh_TxHash (msg_Header ex_cctp_7)) (ex_cctp_token 5) in [k, None, k])"
  "message_keys 1 ex_cctp_8 = (let k = token_key 1 (mh_TxHash (msg_Header ex_cctp_7)) (ex_cctp_token 7) in [k, k])"
  by code_simp+

theorem cctp_Observe_assigns_witness:
  "\<exists>td. cctp_Observe ex_cctp (\<lambda>_. False) [(1, [(7, ex_cctp_7), (8, ex_cctp_8)])] = Ok td \<and>
     data_at td 1 7 0 = NewSuccessTokenData [1, 2] \<and> data_at td 1 7 2 = NewErrorTokenData ErrNotReady \<and>
     data_at td 1 8 0 = NewSuccessTokenData [1, 2] \<and> data_at td 1 8 (Suc 0) = NewErrorTokenData ErrDataMissing"
proof -
  let ?msgs = "[(1, [(7, ex_cctp_7), (8, ex_cctp_8)])] :: MessageObservations"
  let ?count = "\<lambda>pre m i. count_list (all_keys [] @ chain_keys 1 pre @ take i (message_keys 1 m)) (message_keys 1 m ! i)"
  have "gm_ok2 ?msgs" by (simp add: gm_ok2_def gm_ok_def)
  then obtain td where td: "cctp_Observe ex_cctp (\<lambda>_. False) ?msgs = Ok td"
    "\<And>Pre c pre s m post Post i. ?msgs = Pre @ (c, pre @ (s, m) # post) # Post \<and> i < length (msg_TokenAmounts m) \<longrightarrow>
      data_at td c s i = nth_item (attested ex_cctp) (message_keys c m ! i)
        (count_list (all_keys Pre @ chain_keys c pre @ take i (message_keys c m)) (message_keys c m ! i))"
    using cctp_Observe_assigns [OF ex_cctp_new, of ?msgs "\<lambda>_. False"] by blast
  have len: "length (msg_TokenAmounts ex_cctp_7) = 3" "length (msg_TokenAmounts ex_cctp_8) = 2" by code_simp+
  have "data_at td 1 7 0 = nth_item (attested ex_cctp) (message_keys 1 ex_cctp_7 ! 0) (?count [] ex_cctp_7 0)"
    using td(2) [of "[]" 1 "[]" 7 ex_cctp_7 "[(8, ex_cctp_8)]" "[]" 0] len by simp
  also have "\<dots> = NewSuccessTokenData [1, 2]" by code_simp
  finally have "data_at td 1 7 0 = NewSuccessTokenData [1, 2]" .
  moreover have "data_at td 1 7 2 = nth_item (attested ex_cctp) (message_keys 1 ex_cctp_7 ! 2) (?count [] ex_cctp_7 2)"
    using td(2) [of "[]" 1 "[]" 7 ex_cctp_7 "[(8, ex_cctp_8)]" "[]" 2] len by simp
  then have "data_at td 1 7 2 = NewErrorTokenData ErrNotReady" by (rule trans) code_simp
  moreover have "data_at td 1 8 0 = nth_item (attested ex_cctp) (message_keys 1 ex_cctp_8 ! 0) (?count [(7, ex_cctp_7)] ex_cctp_8 0)"
    using td(2) [of "[]" 1 "[(7, ex_cctp_7)]" 8 ex_cctp_8 "[]" "[]" 0] len by simp
  then have "data_at td 1 8 0 = NewSuccessTokenData [1, 2]" by (rule trans) code_simp
  moreover have "data_at td 1 8 (Suc 0) = nth_item (attested ex_cctp) (message_keys 1 ex_cctp_8 ! Suc 0) (?count [(7, ex_cctp_7)] ex_cctp_8 (Suc 0))"
    using td(2) [of "[]" 1 "[(7, ex_cctp_7)]" 8 ex_cctp_8 "[]" "[]" "Suc 0"] len by simp
  then have "data_at td 1 8 (Suc 0) = NewErrorTokenData ErrDataMissing" by (rule trans) code_simp
  ultimately show ?thesis using td(1) by blast
qed

text \<open>The same messages in the other order.\<close>

theorem cctp_Observe_deterministic_witness:
  "\<exists>td td'. cctp_Observe ex_cctp (\<lambda>_. False) [(1, [(7, ex_cctp_7), (8, ex_cctp_8)])] = Ok td \<and>
     cctp_Observe ex_cctp (\<lambda>_. False) [(1, [(8, ex_cctp_8), (7, ex_cctp_7)])] = Ok td' \<and> data_at td 1 7 2 = data_at td' 1 7 2"
proof -
  let ?msgs = "[(1, [(7, ex_cctp_7), (8, ex_cctp_8)])] :: MessageObservations"
  let ?msgs' = "[(1, [(8, ex_cctp_8), (7, ex_cctp_7)])] :: MessageObservations"
  have ok: "gm_ok2 ?msgs" "gm_ok2 ?msgs'" "gm_get2 ?msgs' = gm_get2 ?msgs" "\<forall>n. \<not> (\<lambda>_. False) (n :: nat)"
    by (auto simp: gm_ok2_def gm_ok_def gm_get2_def fun_eq_iff)
  have "token_key 1 (mh_TxHash (msg_Header ex_cctp_7)) (ex_cctp_token 5) \<noteq> token_key 1 (mh_TxHash (msg_Header ex_cctp_7)) (ex_cctp_token 7)"
    by code_simp
  then have "own_keys ?msgs"
    by (auto simp: own_keys_def gm_get2_def ex_cctp_keys Let_def split: if_splits)
  from cctp_Observe_deterministic [OF ex_cctp_new ok this] obtain td td' where
    td: "cctp_Observe ex_cctp (\<lambda>_. False) ?msgs = Ok td" "cctp_Observe ex_cctp (\<lambda>_. False) ?msgs' = Ok td'"
    "\<And>c s m i. gm_get2 ?msgs c s = Some m \<and> i < length (msg_TokenAmounts m) \<longrightarrow> data_at td c s i = data_at td' c s i" by blast
  have "length (msg_TokenAmounts ex_cctp_7) = 3" by code_simp
  then have "data_at td 1 7 2 = data_at td' 1 7 2" using td(3) [of 1 7 ex_cctp_7 2] by (simp add: gm_get2_def)
  with td(1,2) show ?thesis by blast
qed

text \<open>Without the condition they may disagree: two messages with one token each, of the same key.\<close>

lemma cctp_order_matters:
  "cctp_Observe ex_cctp (\<lambda>_. False) [(1, [(7, ex_cctp_msg [ex_cctp_token 5]), (8, ex_cctp_msg [ex_cctp_token 5])])] =
     Ok [(1, [(7, NewMessageTokenData [NewSuccessTokenData [1, 2]]), (8, NewMessageTokenData [NewErrorTokenData ErrNotReady])])]"
  "cctp_Observe ex_cctp (\<lambda>_. False) [(1, [(8, ex_cctp_msg [ex_cctp_token 5]), (7, ex_cctp_msg [ex_cctp_token 5])])] =
     Ok [(1, [(8, NewMessageTokenData [NewSuccessTokenData [1, 2]]), (7, NewMessageTokenData [NewErrorTokenData ErrNotReady])])]"
  by code_simp+

theorem deposit_params_roundtrip_witness:
  "parseDepositHashParams \<lparr>cdm_SourceDomain = print_nat 3, cdm_DestinationDomain = print_nat 6, cdm_Nonce = [], cdm_Sender = [], cdm_Recipient = [],
     cdm_DestinationCaller = print_hex (replicate 32 1), cdm_MessageBody = [],
     cdm_DecodedMessageBody = \<lparr>cmb_BurnToken = print_hex (replicate 32 2), cmb_MintRecipient = print_hex (replicate 32 255), cmb_Amount = print_nat 120,
       cmb_MessageSender = [], cmb_MaxFee = [], cmb_FeeExecuted = [], cmb_ExpirationBlock = [], cmb_HookData = []\<rparr>,
     cdm_MinFinalityThreshold = print_nat 2000, cdm_FinalityThresholdExecuted = []\<rparr> =
   Ok \<lparr>dhp_sourceDomain = 3, dhp_destinationDomain = 6, dhp_amount = 120, dhp_maxFee = 0, dhp_minFinalityThreshold = 2000,
     dhp_mintRecipient = replicate 32 255, dhp_burnToken = replicate 32 2, dhp_destinationCaller = replicate 32 1\<rparr>"
  by (rule deposit_params_roundtrip) simp_all

end
