(* ===== verification/TokenBackground.thy ===== *)
theory TokenBackground
  imports TokenObservers ExecObserve
begin

text \<open>
  The background observer (\<open>execute/tokendata/observer/observer_background.go\<close>). \<open>Observe\<close> answers from a cache and queues
  the messages it does not find; workers take messages from the queue, ask the underlying observer and fill the cache; a
  loop removes what has expired.

  The queue and the cache are records with one definition for each section under a lock. The interleaving of the calls of
  \<open>Observe\<close>, the workers and the loop is the step relation \<open>bg_step\<close>: \<open>observe_pc\<close> and \<open>worker_pc\<close> say where a call and
  a worker stand, and the send on the unbuffered channel is a joint step of a call and a waiting worker. The readings
  of the clock are arguments of the steps. A panic of the underlying observer ends the process and is no step.

  By rule induction: \<open>bg_Observe_contract\<close>, the background observer keeps the contract of the observer that it runs;
  \<open>bg_queue_drained\<close>, no message is forgotten, if the clock advances between \<open>enqueue\<close> and \<open>dequeue\<close>;
  \<open>bg_Observe_returns\<close>, every call returns while the observer is open. \<open>ex_bg_lost\<close> and \<open>bg_closed_blocks\<close> show that the
  conditions are needed.
\<close>

section \<open>The queue\<close>

record msgWithInfo =
  mwi_msg :: Message
  mwi_availableAt :: int
  mwi_enqueuedAt :: int

text \<open>\<open>msgIDs\<close> is a set, a list without order.\<close>

record msgQueue =
  mq_msgs :: "msgWithInfo list"
  mq_msgIDs :: "Bytes32 list"

definition newMsgQueue :: msgQueue where
  "newMsgQueue = \<lparr>mq_msgs = [], mq_msgIDs = []\<rparr>"

abbreviation MessageID :: "Message \<Rightarrow> Bytes32" where
  "MessageID m \<equiv> mh_MessageID (msg_Header m)"

definition containsMsg :: "msgQueue \<Rightarrow> Bytes32 \<Rightarrow> bool" where
  "containsMsg q msgID \<longleftrightarrow> msgID \<in> set (mq_msgIDs q)"

text \<open>The part of \<open>enqueue\<close> under the lock; \<open>now\<close> and \<open>now'\<close> are its two readings of the clock.\<close>

definition enqueue_locked :: "Message \<Rightarrow> int \<Rightarrow> int \<Rightarrow> int \<Rightarrow> msgQueue \<Rightarrow> msgQueue" where
  "enqueue_locked msg availableAfter now now' q =
     \<lparr>mq_msgs = mq_msgs q @ [\<lparr>mwi_msg = msg, mwi_availableAt = now + availableAfter, mwi_enqueuedAt = now'\<rparr>],
      mq_msgIDs = List.insert (MessageID msg) (mq_msgIDs q)\<rparr>"

text \<open>\<open>now i\<close> is the reading of the clock at the i-th element.\<close>

fun dequeue_loop :: "(nat \<Rightarrow> int) \<Rightarrow> msgWithInfo list \<Rightarrow> nat \<Rightarrow> (Message \<times> msgWithInfo list) option" where
  "dequeue_loop now [] i = None"
| "dequeue_loop now (m # ms) i =
     (if now i > mwi_availableAt m then Some (mwi_msg m, ms)
      else map_option (\<lambda>(msg, ms'). (msg, m # ms')) (dequeue_loop now ms (Suc i)))"

definition dequeue :: "(nat \<Rightarrow> int) \<Rightarrow> msgQueue \<Rightarrow> (Message \<times> msgQueue) option" where
  "dequeue now q = map_option (\<lambda>(msg, ms). (msg, \<lparr>mq_msgs = ms, mq_msgIDs = removeAll (MessageID msg) (mq_msgIDs q)\<rparr>))
     (dequeue_loop now (mq_msgs q) 0)"

section \<open>The cache\<close>

record inMemTokenDataCache =
  ctd_expirationInterval :: int
  ctd_inMemTokenData :: "(Bytes32, MessageTokenData) gomap"
  ctd_expiresAt :: "(Bytes32, int) gomap"

definition newInMemObservationsCache :: "int \<Rightarrow> inMemTokenDataCache" where
  "newInMemObservationsCache expirationInterval =
     \<lparr>ctd_expirationInterval = expirationInterval, ctd_inMemTokenData = [], ctd_expiresAt = []\<rparr>"

definition cache_get :: "inMemTokenDataCache \<Rightarrow> Bytes32 \<Rightarrow> MessageTokenData option" where
  "cache_get c msgID = map_of (ctd_inMemTokenData c) msgID"

definition cache_set :: "Bytes32 \<Rightarrow> MessageTokenData \<Rightarrow> int \<Rightarrow> inMemTokenDataCache \<Rightarrow> inMemTokenDataCache" where
  "cache_set msgID tokenData now c =
     c\<lparr>ctd_inMemTokenData := gm_put msgID tokenData (ctd_inMemTokenData c),
       ctd_expiresAt := gm_put msgID (now + ctd_expirationInterval c) (ctd_expiresAt c)\<rparr>"

definition hasExpired :: "inMemTokenDataCache \<Rightarrow> int \<Rightarrow> Bytes32 \<Rightarrow> bool" where
  "hasExpired c now msgID = (case map_of (ctd_expiresAt c) msgID of None \<Rightarrow> True | Some expiresAt \<Rightarrow> now > expiresAt)"

text \<open>One round of the expiration loop; the clock is read for every key.\<close>

definition remove_expired :: "(Bytes32 \<Rightarrow> int) \<Rightarrow> inMemTokenDataCache \<Rightarrow> inMemTokenDataCache" where
  "remove_expired now c = fold (\<lambda>(msgID, _) c.
     if hasExpired c (now msgID) msgID
     then c\<lparr>ctd_inMemTokenData := gm_del msgID (ctd_inMemTokenData c), ctd_expiresAt := gm_del msgID (ctd_expiresAt c)\<rparr>
     else c) (ctd_expiresAt c) c"

section \<open>Calls and workers\<close>

text \<open>Where a call of \<open>Observe\<close> stands: at the next message, inside \<open>enqueue\<close> before the check, before the lock and
  before the send, or at the end.\<close>

type_synonym entry = "ChainSelector \<times> SeqNum \<times> Message"

datatype observe_pc =
    AtMessage "entry list" TokenDataObservations
  | AtCheck Message "entry list" TokenDataObservations
  | AtAppend Message "entry list" TokenDataObservations
  | AtSignal "entry list" TokenDataObservations
  | Returned "TokenDataObservations result"

datatype worker_pc = Waiting | Signalled | Observing Message | Stopped

text \<open>\<open>bg_missed\<close> is not in the code: it counts the calls of \<open>dequeue\<close> that found no message although there was one.\<close>

record backgroundObserver =
  bg_msgQueue :: msgQueue
  bg_cachedTokenData :: inMemTokenDataCache
  bg_calls :: "(MessageObservations \<times> observe_pc) list"
  bg_workers :: "worker_pc list"
  bg_done :: bool
  bg_missed :: nat

definition NewBackgroundObserver :: "nat \<Rightarrow> int \<Rightarrow> backgroundObserver" where
  "NewBackgroundObserver numWorkers cacheExpirationInterval =
     \<lparr>bg_msgQueue = newMsgQueue, bg_cachedTokenData = newInMemObservationsCache cacheExpirationInterval,
      bg_calls = [], bg_workers = replicate numWorkers Waiting, bg_done = False, bg_missed = 0\<rparr>"

text \<open>The response before the cache is read.\<close>

definition not_ready :: "(ChainSelector \<Rightarrow> RampTokenAmount \<Rightarrow> bool) \<Rightarrow> MessageObservations \<Rightarrow> TokenDataObservations" where
  "not_ready supported observations = map_tokens (\<lambda>chainSel seqNum i token.
     TokenData_zero\<lparr>td_Ready := False, td_Supported := supported chainSel token\<rparr>) observations"

definition entries :: "MessageObservations \<Rightarrow> entry list" where
  "entries observations = concat (map (\<lambda>(chainSel, seqNumToMsg). map (\<lambda>(seqNum, msg). (chainSel, seqNum, msg)) seqNumToMsg) observations)"

text \<open>What a worker stores of the answer of the underlying observer.\<close>

definition single_message :: "Message \<Rightarrow> MessageObservations" where
  "single_message msg = [(mh_SourceChainSelector (msg_Header msg), [(mh_SequenceNumber (msg_Header msg), msg)])]"

definition worker_result :: "Message \<Rightarrow> TokenDataObservations result \<Rightarrow> MessageTokenData option" where
  "worker_result msg r =
     (case r of
        Ok tokenData \<Rightarrow>
          (case map_of tokenData (mh_SourceChainSelector (msg_Header msg)) of
             None \<Rightarrow> None
           | Some m \<Rightarrow>
               (case map_of m (mh_SequenceNumber (msg_Header msg)) of
                  None \<Rightarrow> None
                | Some d \<Rightarrow> if \<not> SupportedAreReady d then None else Some d))
      | _ \<Rightarrow> None)"

text \<open>The steps of the calls and the workers. \<open>obs n\<close> is the answer of the underlying observer at its n-th call. A send on the
  channel and its receipt are one step.\<close>

inductive bg_internal ::
  "(nat \<Rightarrow> MessageObservations \<Rightarrow> TokenDataObservations result) \<Rightarrow> backgroundObserver \<Rightarrow> backgroundObserver \<Rightarrow> bool"
  for obs where
  found: "t < length (bg_calls s) \<Longrightarrow> bg_calls s ! t = (o', AtMessage ((chainSel, seqNum, msg) # rest) res) \<Longrightarrow>
    cache_get (bg_cachedTokenData s) (MessageID msg) = Some tokenData \<Longrightarrow> SupportedAreReady tokenData \<Longrightarrow>
    bg_internal obs s (s\<lparr>bg_calls := (bg_calls s)[t := (o', AtMessage rest (gm_put2 chainSel seqNum tokenData res))]\<rparr>)"
| internal_error: "t < length (bg_calls s) \<Longrightarrow> bg_calls s ! t = (o', AtMessage ((chainSel, seqNum, msg) # rest) res) \<Longrightarrow>
    cache_get (bg_cachedTokenData s) (MessageID msg) = Some tokenData \<Longrightarrow> \<not> SupportedAreReady tokenData \<Longrightarrow>
    bg_internal obs s (s\<lparr>bg_calls := (bg_calls s)[t := (o', Returned (Error (Err ''internal error, cache contains not ready token data'')))]\<rparr>)"
| missing: "t < length (bg_calls s) \<Longrightarrow> bg_calls s ! t = (o', AtMessage ((chainSel, seqNum, msg) # rest) res) \<Longrightarrow>
    cache_get (bg_cachedTokenData s) (MessageID msg) = None \<Longrightarrow>
    bg_internal obs s (s\<lparr>bg_calls := (bg_calls s)[t := (o', AtCheck msg rest res)]\<rparr>)"
| queued: "t < length (bg_calls s) \<Longrightarrow> bg_calls s ! t = (o', AtCheck msg rest res) \<Longrightarrow> containsMsg (bg_msgQueue s) (MessageID msg) \<Longrightarrow>
    bg_internal obs s (s\<lparr>bg_calls := (bg_calls s)[t := (o', AtMessage rest res)]\<rparr>)"
| not_queued: "t < length (bg_calls s) \<Longrightarrow> bg_calls s ! t = (o', AtCheck msg rest res) \<Longrightarrow> \<not> containsMsg (bg_msgQueue s) (MessageID msg) \<Longrightarrow>
    bg_internal obs s (s\<lparr>bg_calls := (bg_calls s)[t := (o', AtAppend msg rest res)]\<rparr>)"
| append: "t < length (bg_calls s) \<Longrightarrow> bg_calls s ! t = (o', AtAppend msg rest res) \<Longrightarrow>
    bg_internal obs s (s\<lparr>bg_calls := (bg_calls s)[t := (o', AtSignal rest res)], bg_msgQueue := enqueue_locked msg 0 now now' (bg_msgQueue s)\<rparr>)"
| signal: "t < length (bg_calls s) \<Longrightarrow> bg_calls s ! t = (o', AtSignal rest res) \<Longrightarrow> w < length (bg_workers s) \<Longrightarrow> bg_workers s ! w = Waiting \<Longrightarrow>
    bg_internal obs s (s\<lparr>bg_calls := (bg_calls s)[t := (o', AtMessage rest res)], bg_workers := (bg_workers s)[w := Signalled]\<rparr>)"
| return: "t < length (bg_calls s) \<Longrightarrow> bg_calls s ! t = (o', AtMessage [] res) \<Longrightarrow>
    bg_internal obs s (s\<lparr>bg_calls := (bg_calls s)[t := (o', Returned (Ok res))]\<rparr>)"
| take_msg: "w < length (bg_workers s) \<Longrightarrow> bg_workers s ! w = Signalled \<Longrightarrow> dequeue clock (bg_msgQueue s) = Some (msg, q) \<Longrightarrow>
    bg_internal obs s (s\<lparr>bg_workers := (bg_workers s)[w := Observing msg], bg_msgQueue := q\<rparr>)"
| take_none: "w < length (bg_workers s) \<Longrightarrow> bg_workers s ! w = Signalled \<Longrightarrow> dequeue clock (bg_msgQueue s) = None \<Longrightarrow>
    bg_internal obs s (s\<lparr>bg_workers := (bg_workers s)[w := Waiting],
      bg_missed := bg_missed s + (if mq_msgs (bg_msgQueue s) = [] then 0 else 1)\<rparr>)"
| observed: "w < length (bg_workers s) \<Longrightarrow> bg_workers s ! w = Observing msg \<Longrightarrow> r = obs n (single_message msg) \<Longrightarrow> r \<noteq> Panic \<Longrightarrow>
    bg_internal obs s (s\<lparr>bg_workers := (bg_workers s)[w := Waiting],
      bg_cachedTokenData := (case worker_result msg r of None \<Rightarrow> bg_cachedTokenData s
        | Some tokenData \<Rightarrow> cache_set (MessageID msg) tokenData now (bg_cachedTokenData s))\<rparr>)"

text \<open>All steps: those, a new call, a round of the expiration loop, \<open>Close\<close>, and a waiting worker that stops after
  \<open>Close\<close>. \<open>supported\<close> is \<open>IsTokenSupported\<close> of the underlying observer.\<close>

inductive bg_step ::
  "(nat \<Rightarrow> MessageObservations \<Rightarrow> TokenDataObservations result) \<Rightarrow> (ChainSelector \<Rightarrow> RampTokenAmount \<Rightarrow> bool) \<Rightarrow>
   backgroundObserver \<Rightarrow> backgroundObserver \<Rightarrow> bool"
  for obs supported where
  internal: "bg_internal obs s s' \<Longrightarrow> bg_step obs supported s s'"
| call: "gm_ok2 observations \<Longrightarrow>
    bg_step obs supported s (s\<lparr>bg_calls := bg_calls s @ [(observations, AtMessage (entries observations) (not_ready supported observations))]\<rparr>)"
| expire: "bg_step obs supported s (s\<lparr>bg_cachedTokenData := remove_expired expiry (bg_cachedTokenData s)\<rparr>)"
| close: "bg_step obs supported s (s\<lparr>bg_done := True\<rparr>)"
| stop: "w < length (bg_workers s) \<Longrightarrow> bg_workers s ! w = Waiting \<Longrightarrow> bg_done s \<Longrightarrow>
    bg_step obs supported s (s\<lparr>bg_workers := (bg_workers s)[w := Stopped]\<rparr>)"

section \<open>Invariants\<close>

text \<open>The messages of all calls so far, and data that the underlying observer returned at some time for one of the messages \<open>M\<close>.\<close>

definition submitted :: "backgroundObserver \<Rightarrow> Message set" where
  "submitted s = {m. \<exists>(observations, _) \<in> set (bg_calls s). \<exists>c q. gm_get2 observations c q = Some m}"

definition came_from ::
  "(nat \<Rightarrow> MessageObservations \<Rightarrow> TokenDataObservations result) \<Rightarrow> Message set \<Rightarrow> Bytes32 \<Rightarrow> MessageTokenData \<Rightarrow> bool" where
  "came_from obs M msgID d \<longleftrightarrow> (\<exists>msg \<in> M. \<exists>n td. MessageID msg = msgID \<and> obs n (single_message msg) = Ok td \<and>
     gm_get2 td (mh_SourceChainSelector (msg_Header msg)) (mh_SequenceNumber (msg_Header msg)) = Some d)"

definition result_ok where
  "result_ok obs supported M observations res \<longleftrightarrow> (\<forall>c s. case gm_get2 observations c s of
     None \<Rightarrow> gm_get2 res c s = None
   | Some m \<Rightarrow> gm_get2 res c s = gm_get2 (not_ready supported observations) c s \<or>
       (\<exists>d. gm_get2 res c s = Some d \<and> SupportedAreReady d \<and> came_from obs M (MessageID m) d))"

definition rest_ok :: "MessageObservations \<Rightarrow> entry list \<Rightarrow> bool" where
  "rest_ok observations rest \<longleftrightarrow> (\<forall>(c, s, m) \<in> set rest. gm_get2 observations c s = Some m)"

fun pc_ok where
  "pc_ok obs supported M (o', AtMessage rest res) \<longleftrightarrow> rest_ok o' rest \<and> result_ok obs supported M o' res"
| "pc_ok obs supported M (o', AtCheck msg rest res) \<longleftrightarrow> msg \<in> M \<and> rest_ok o' rest \<and> result_ok obs supported M o' res"
| "pc_ok obs supported M (o', AtAppend msg rest res) \<longleftrightarrow> msg \<in> M \<and> rest_ok o' rest \<and> result_ok obs supported M o' res"
| "pc_ok obs supported M (o', AtSignal rest res) \<longleftrightarrow> rest_ok o' rest \<and> result_ok obs supported M o' res"
| "pc_ok obs supported M (o', Returned r) \<longleftrightarrow> (\<exists>res. r = Ok res \<and> result_ok obs supported M o' res)"

fun worker_ok :: "Message set \<Rightarrow> worker_pc \<Rightarrow> bool" where
  "worker_ok M (Observing msg) \<longleftrightarrow> msg \<in> M"
| "worker_ok M _ \<longleftrightarrow> True"

definition cache_inv where
  "cache_inv obs M c \<longleftrightarrow> (\<forall>msgID d. cache_get c msgID = Some d \<longrightarrow> SupportedAreReady d \<and> came_from obs M msgID d) \<and>
     dom (map_of (ctd_inMemTokenData c)) = dom (map_of (ctd_expiresAt c))"

definition queue_ids :: "msgQueue \<Rightarrow> bool" where
  "queue_ids q \<longleftrightarrow> set (mq_msgIDs q) \<subseteq> (MessageID \<circ> mwi_msg) ` set (mq_msgs q)"

fun is_AtSignal :: "MessageObservations \<times> observe_pc \<Rightarrow> bool" where
  "is_AtSignal (_, AtSignal _ _) \<longleftrightarrow> True"
| "is_AtSignal _ \<longleftrightarrow> False"

definition signals :: "backgroundObserver \<Rightarrow> nat" where
  "signals s = length (filter is_AtSignal (bg_calls s)) + length (filter ((=) Signalled) (bg_workers s))"

definition bg_inv where
  "bg_inv obs supported M s \<longleftrightarrow> cache_inv obs M (bg_cachedTokenData s) \<and> queue_ids (bg_msgQueue s) \<and>
     length (mq_msgs (bg_msgQueue s)) \<le> signals s + bg_missed s \<and> list_all (pc_ok obs supported M) (bg_calls s) \<and>
     mwi_msg ` set (mq_msgs (bg_msgQueue s)) \<subseteq> M \<and> list_all (worker_ok M) (bg_workers s)"

lemma sum_list_update_nth:
  fixes f :: "'a \<Rightarrow> nat"
  shows "i < length xs \<Longrightarrow> sum_list (map f (xs[i := y])) + f (xs ! i) = sum_list (map f xs) + f y"
proof (induction xs arbitrary: i)
  case (Cons x xs)
  show ?case
  proof (cases i)
    case (Suc j)
    with Cons.IH [of j] Cons.prems show ?thesis by simp
  qed simp
qed simp

lemma length_filter_update:
  assumes "i < length xs"
  shows "length (filter P (xs[i := y])) + of_bool (P (xs ! i)) = length (filter P xs) + of_bool (P y)"
proof -
  have "length (filter P zs) = sum_list (map (\<lambda>z. of_bool (P z)) zs)" for zs by (induction zs) simp_all
  with sum_list_update_nth [OF assms, of "\<lambda>z. of_bool (P z)" y] show ?thesis by simp
qed

lemma list_all_update: "list_all P xs \<Longrightarrow> P y \<Longrightarrow> list_all P (xs[i := y])"
  by (auto simp: list_all_iff dest: set_update_subset_insert [THEN subsetD])

lemma dequeue_loop_Some:
  "dequeue_loop now ms i = Some (msg, ms') \<Longrightarrow> \<exists>as m bs. ms = as @ m # bs \<and> mwi_msg m = msg \<and> ms' = as @ bs"
proof (induction ms arbitrary: i ms')
  case (Cons a ms)
  then show ?case
  proof (cases "now i > mwi_availableAt a")
    case True
    with Cons.prems show ?thesis by (intro exI [of _ "[]"]) simp
  next
    case False
    then obtain ms'' where ms'': "dequeue_loop now ms (Suc i) = Some (msg, ms'')" "ms' = a # ms''" using Cons.prems by auto
    from Cons.IH [OF ms''(1)] obtain as m bs where "ms = as @ m # bs" "mwi_msg m = msg" "ms'' = as @ bs" by blast
    with ms''(2) show ?thesis by (intro exI [of _ "a # as"]) simp
  qed
qed simp

lemma dequeue_Some:
  assumes "dequeue now q = Some (msg, q')"
  shows "length (mq_msgs q) = Suc (length (mq_msgs q'))" and "queue_ids q \<Longrightarrow> queue_ids q'"
    and "mwi_msg ` set (mq_msgs q) = insert msg (mwi_msg ` set (mq_msgs q'))"
proof -
  obtain as m bs where "mq_msgs q = as @ m # bs" "mwi_msg m = msg" "q' = \<lparr>mq_msgs = as @ bs, mq_msgIDs = removeAll (MessageID msg) (mq_msgIDs q)\<rparr>"
    using assms by (auto simp: dequeue_def dest: dequeue_loop_Some)
  then show "length (mq_msgs q) = Suc (length (mq_msgs q'))" "queue_ids q \<Longrightarrow> queue_ids q'"
      "mwi_msg ` set (mq_msgs q) = insert msg (mwi_msg ` set (mq_msgs q'))"
    by (auto simp: queue_ids_def)
qed

lemma enqueue_locked_queue:
  "length (mq_msgs (enqueue_locked msg d now now' q)) = Suc (length (mq_msgs q))"
  "queue_ids q \<Longrightarrow> queue_ids (enqueue_locked msg d now now' q)"
  "mwi_msg ` set (mq_msgs (enqueue_locked msg d now now' q)) = insert msg (mwi_msg ` set (mq_msgs q))"
  by (auto simp: enqueue_locked_def queue_ids_def)

lemma cache_inv_set:
  "cache_inv obs M c \<Longrightarrow> SupportedAreReady d \<Longrightarrow> came_from obs M msgID d \<Longrightarrow> cache_inv obs M (cache_set msgID d now c)"
  by (auto simp: cache_inv_def cache_get_def cache_set_def gm.get_put update_conv')

lemma cache_inv_del:
  "cache_inv obs M c \<Longrightarrow>
    cache_inv obs M (c\<lparr>ctd_inMemTokenData := gm_del msgID (ctd_inMemTokenData c), ctd_expiresAt := gm_del msgID (ctd_expiresAt c)\<rparr>)"
  by (simp add: cache_inv_def cache_get_def delete_conv')

lemma cache_inv_remove_expired:
  assumes "cache_inv obs M c"
  shows "cache_inv obs M (remove_expired now c)"
proof -
  have "cache_inv obs M (fold (\<lambda>(msgID, _) c. if hasExpired c (now msgID) msgID
      then c\<lparr>ctd_inMemTokenData := gm_del msgID (ctd_inMemTokenData c), ctd_expiresAt := gm_del msgID (ctd_expiresAt c)\<rparr> else c) kvs c')"
    if "cache_inv obs M c'" for kvs c'
    using that
  proof (induction kvs arbitrary: c')
    case (Cons p kvs)
    show ?case unfolding fold_Cons o_apply
      by (rule Cons.IH) (simp add: Cons.prems cache_inv_del split: prod.split)
  qed simp
  with assms show ?thesis by (simp add: remove_expired_def)
qed

lemma worker_result_Some:
  "worker_result msg (obs n (single_message msg)) = Some d \<Longrightarrow> msg \<in> M \<Longrightarrow> SupportedAreReady d \<and> came_from obs M (MessageID msg) d"
proof -
  assume "msg \<in> M" and "worker_result msg (obs n (single_message msg)) = Some d"
  from this(2) obtain td where "obs n (single_message msg) = Ok td" "SupportedAreReady d"
      "gm_get2 td (mh_SourceChainSelector (msg_Header msg)) (mh_SequenceNumber (msg_Header msg)) = Some d"
    by (auto simp: worker_result_def gm_get2_def split: result.splits option.splits if_splits)
  with \<open>msg \<in> M\<close> show ?thesis unfolding came_from_def by blast
qed

lemma result_ok_not_ready: "result_ok obs supported M observations (not_ready supported observations)"
  by (auto simp: result_ok_def not_ready_def gm_get2_map_tokens split: option.split)

lemma result_ok_put2:
  assumes "result_ok obs supported M o' res" and "gm_get2 o' c s = Some m" and "SupportedAreReady d" and "came_from obs M (MessageID m) d"
  shows "result_ok obs supported M o' (gm_put2 c s d res)"
  unfolding result_ok_def
proof (intro allI)
  fix c' s'
  show "case gm_get2 o' c' s' of None \<Rightarrow> gm_get2 (gm_put2 c s d res) c' s' = None
    | Some m \<Rightarrow> gm_get2 (gm_put2 c s d res) c' s' = gm_get2 (not_ready supported o') c' s' \<or>
        (\<exists>d'. gm_get2 (gm_put2 c s d res) c' s' = Some d' \<and> SupportedAreReady d' \<and> came_from obs M (MessageID m) d')"
  proof (cases "c' = c \<and> s' = s")
    case True
    with assms(2-4) show ?thesis by (simp add: gm_get2_put2)
  next
    case False
    with assms(1) [unfolded result_ok_def, rule_format, of c' s'] show ?thesis by (auto simp: gm_get2_put2 split: option.splits)
  qed
qed

lemma rest_ok_entries:
  assumes "gm_ok2 observations"
  shows "rest_ok observations (entries observations)"
proof -
  have "gm_get2 observations c s = Some m" if "(c, ms) \<in> set observations" "(s, m) \<in> set ms" for c ms s m
  proof -
    have ms: "map_of observations c = Some ms" using assms that(1) by (simp add: gm_ok2_def gm_get_iff)
    have "map_of ms s = Some m" using gm_ok2_inner [OF assms ms] that(2) by (simp add: gm_get_iff)
    with ms show ?thesis by (simp add: gm_get2_def)
  qed
  then show ?thesis by (auto simp: rest_ok_def entries_def)
qed

lemma bg_inv_init: "bg_inv obs supported M (NewBackgroundObserver n expiration)"
  by (simp add: bg_inv_def NewBackgroundObserver_def newMsgQueue_def newInMemObservationsCache_def cache_inv_def cache_get_def queue_ids_def
    list_all_iff)

text \<open>A call moves on without a signal.\<close>

lemma bg_inv_call:
  assumes "bg_inv obs supported M s" and "t < length (bg_calls s)" and "pc_ok obs supported M new"
    and "\<not> is_AtSignal (bg_calls s ! t)" and "\<not> is_AtSignal new"
  shows "bg_inv obs supported M (s\<lparr>bg_calls := (bg_calls s)[t := new]\<rparr>)"
  using assms length_filter_update [OF assms(2), of is_AtSignal new] by (simp add: bg_inv_def signals_def list_all_update)

lemma pc_ok_nth: "bg_inv obs supported M s \<Longrightarrow> t < length (bg_calls s) \<Longrightarrow> pc_ok obs supported M (bg_calls s ! t)"
  by (simp add: bg_inv_def list_all_length)

lemma came_from_mono: "came_from obs M msgID d \<Longrightarrow> M \<subseteq> M' \<Longrightarrow> came_from obs M' msgID d"
  unfolding came_from_def by blast

lemma result_ok_mono: "result_ok obs supported M o' res \<Longrightarrow> M \<subseteq> M' \<Longrightarrow> result_ok obs supported M' o' res"
proof -
  assume ok: "result_ok obs supported M o' res" and M: "M \<subseteq> M'"
  show ?thesis unfolding result_ok_def
  proof (intro allI)
    fix c s
    show "case gm_get2 o' c s of None \<Rightarrow> gm_get2 res c s = None
      | Some m \<Rightarrow> gm_get2 res c s = gm_get2 (not_ready supported o') c s \<or>
          (\<exists>d. gm_get2 res c s = Some d \<and> SupportedAreReady d \<and> came_from obs M' (MessageID m) d)"
      using ok [unfolded result_ok_def, rule_format, of c s] came_from_mono [OF _ M]
      by (cases "gm_get2 o' c s") (simp_all, blast)
  qed
qed

lemma pc_ok_mono: "pc_ok obs supported M cl \<Longrightarrow> M \<subseteq> M' \<Longrightarrow> pc_ok obs supported M' cl"
  by (cases "(obs, supported, M, cl)" rule: pc_ok.cases) (auto intro: result_ok_mono)

lemma bg_inv_mono: "bg_inv obs supported M s \<Longrightarrow> M \<subseteq> M' \<Longrightarrow> bg_inv obs supported M' s"
proof -
  assume inv: "bg_inv obs supported M s" and M: "M \<subseteq> M'"
  have "list_all (pc_ok obs supported M') (bg_calls s)"
    using inv by (auto simp: bg_inv_def list_all_iff intro: pc_ok_mono [OF _ M])
  moreover have "worker_ok M' w" if "worker_ok M w" for w using that M by (cases w) auto
  then have "list_all (worker_ok M') (bg_workers s)" using inv by (auto simp: bg_inv_def list_all_iff)
  moreover have "cache_inv obs M' (bg_cachedTokenData s)"
    using inv by (auto simp: bg_inv_def cache_inv_def intro: came_from_mono [OF _ M])
  ultimately show ?thesis using inv M by (auto simp: bg_inv_def)
qed

lemma submitted_nth: "t < length (bg_calls s) \<Longrightarrow> bg_calls s ! t = (o', pc) \<Longrightarrow> gm_get2 o' c q = Some m \<Longrightarrow> m \<in> submitted s"
  unfolding submitted_def by (force dest: nth_mem)

lemma map_fst_update: "t < length xs \<Longrightarrow> xs ! t = (a, b) \<Longrightarrow> map fst (xs[t := (a, b')]) = map fst xs"
  by (simp add: map_update) (metis fst_conv list_update_id nth_map)

lemma submitted_fst: "submitted s = {m. \<exists>observations \<in> set (map fst (bg_calls s)). \<exists>c q. gm_get2 observations c q = Some m}"
  unfolding submitted_def by force

lemma submitted_internal: "bg_internal obs s s' \<Longrightarrow> submitted s' = submitted s"
  by (induction rule: bg_internal.induct) (simp_all add: submitted_fst map_fst_update del: set_map)

lemma submitted_step: "bg_step obs supported s s' \<Longrightarrow> submitted s \<subseteq> submitted s'"
  by (induction rule: bg_step.induct) (auto simp: submitted_internal, auto simp: submitted_fst)

lemma bg_inv_internal:
  "bg_internal obs s s' \<Longrightarrow> submitted s \<subseteq> M \<Longrightarrow> bg_inv obs supported M s \<Longrightarrow> bg_inv obs supported M s'"
proof (induction rule: bg_internal.induct)
  case (found t s o' chainSel seqNum msg rest res tokenData)
  have "SupportedAreReady tokenData" "came_from obs M (MessageID msg) tokenData"
    using found.prems(2) found.hyps(3) by (auto simp: bg_inv_def cache_inv_def)
  then show ?case using found pc_ok_nth [OF found.prems(2) found.hyps(1)]
    by (intro bg_inv_call) (auto simp: rest_ok_def intro: result_ok_put2)
next
  case (internal_error t s o' chainSel seqNum msg rest res tokenData)
  then show ?case by (auto simp: bg_inv_def cache_inv_def)
next
  case (missing t s o' chainSel seqNum msg rest res)
  have pc: "pc_ok obs supported M (o', AtMessage ((chainSel, seqNum, msg) # rest) res)"
    using pc_ok_nth [OF missing.prems(2) missing.hyps(1)] missing.hyps(2) by simp
  then have "gm_get2 o' chainSel seqNum = Some msg" by (simp add: rest_ok_def)
  then have "msg \<in> M" using submitted_nth [OF missing.hyps(1,2)] missing.prems(1) by blast
  with missing pc show ?case by (intro bg_inv_call) (auto simp: rest_ok_def)
next
  case (queued t s o' msg rest res)
  then show ?case using pc_ok_nth [OF queued.prems(2) queued.hyps(1)] by (intro bg_inv_call) auto
next
  case (not_queued t s o' msg rest res)
  then show ?case using pc_ok_nth [OF not_queued.prems(2) not_queued.hyps(1)] by (intro bg_inv_call) auto
next
  case (append t s o' msg rest res now now')
  then show ?case
    using pc_ok_nth [OF append.prems(2) append.hyps(1)] length_filter_update [OF append.hyps(1), of is_AtSignal "(o', AtSignal rest res)"]
    by (simp add: bg_inv_def signals_def enqueue_locked_queue list_all_update)
next
  case (signal t s o' rest res w)
  then show ?case
    using pc_ok_nth [OF signal.prems(2) signal.hyps(1)] length_filter_update [OF signal.hyps(1), of is_AtSignal "(o', AtMessage rest res)"]
      length_filter_update [OF signal.hyps(3), of "(=) Signalled" Signalled]
    by (simp add: bg_inv_def signals_def list_all_update)
next
  case (return t s o' res)
  then show ?case using pc_ok_nth [OF return.prems(2) return.hyps(1)] by (intro bg_inv_call) auto
next
  case (take_msg w s clock msg q)
  then show ?case
    using dequeue_Some [OF take_msg.hyps(3)] length_filter_update [OF take_msg.hyps(1), of "(=) Signalled" "Observing msg"]
    by (simp add: bg_inv_def signals_def list_all_update)
next
  case (take_none w s clock)
  then show ?case
    using length_filter_update [OF take_none.hyps(1), of "(=) Signalled" Waiting] by (auto simp: bg_inv_def signals_def list_all_update)
next
  case (observed w s msg r n now)
  then have "worker_ok M (Observing msg)" by (auto simp: bg_inv_def list_all_length)
  with observed show ?case
    using length_filter_update [OF observed.hyps(1), of "(=) Signalled" Waiting] worker_result_Some [of msg obs n _ M]
    by (auto simp: bg_inv_def signals_def list_all_update intro!: cache_inv_set split: option.split)
qed

lemma bg_inv_step:
  "bg_step obs supported s s' \<Longrightarrow> submitted s \<subseteq> M \<Longrightarrow> bg_inv obs supported M s \<Longrightarrow> bg_inv obs supported M s'"
proof (induction rule: bg_step.induct)
  case (internal s s')
  then show ?case by (rule bg_inv_internal)
next
  case (call observations s)
  then show ?case by (simp add: bg_inv_def signals_def rest_ok_entries result_ok_not_ready)
next
  case (expire s expiry)
  then show ?case by (simp add: bg_inv_def signals_def cache_inv_remove_expired)
next
  case (close s)
  then show ?case by (simp add: bg_inv_def signals_def)
next
  case (stop w s)
  then show ?case using length_filter_update [OF stop.hyps(1), of "(=) Signalled" Stopped] by (simp add: bg_inv_def signals_def list_all_update)
qed

lemma bg_inv_reachable:
  "(bg_step obs supported)\<^sup>*\<^sup>* (NewBackgroundObserver n expiration) s \<Longrightarrow> bg_inv obs supported (submitted s) s"
proof (induction rule: rtranclp_induct)
  case base
  show ?case by (rule bg_inv_init)
next
  case (step s s')
  then have "bg_inv obs supported (submitted s') s" using bg_inv_mono submitted_step by blast
  with step(2) show ?case using submitted_step [OF step(2)] by (rule_tac bg_inv_step)
qed

section \<open>Properties\<close>

text \<open>Whatever the interleaving of calls, workers and the expiration loop: a call of \<open>Observe\<close> that returns does not return
  the internal error, and its result has, for every message, either the response without ready data, or data whose
  supported tokens are all ready and that the underlying observer returned for a submitted message with the same
  identifier. For an identifier that is in the set of the queue there is a message in the queue.\<close>

theorem bg_Observe_sound:
  assumes "(bg_step obs supported)\<^sup>*\<^sup>* (NewBackgroundObserver numWorkers expiration) s"
  shows "(\<forall>observations r. (observations, Returned r) \<in> set (bg_calls s) \<longrightarrow>
      (\<exists>res. r = Ok res \<and> result_ok obs supported (submitted s) observations res)) \<and>
    (\<forall>msgID. containsMsg (bg_msgQueue s) msgID \<longrightarrow> (\<exists>m \<in> set (mq_msgs (bg_msgQueue s)). MessageID (mwi_msg m) = msgID))"
proof -
  have inv: "bg_inv obs supported (submitted s) s" by (rule bg_inv_reachable [OF assms])
  then have "pc_ok obs supported (submitted s) (observations, Returned r)" if "(observations, Returned r) \<in> set (bg_calls s)" for observations r
    using that by (auto simp: bg_inv_def list_all_iff)
  then show ?thesis using inv by (auto simp: bg_inv_def queue_ids_def containsMsg_def)
qed

text \<open>With identifiers that tell messages apart, a result has the shape of the messages.\<close>

definition well_identified :: "Message set \<Rightarrow> bool" where
  "well_identified M \<longleftrightarrow> (\<forall>m \<in> M. \<forall>m' \<in> M. MessageID m = MessageID m' \<longrightarrow> m = m')"

lemma single_message_ok: "gm_ok2 (single_message m)"
  by (simp add: single_message_def gm_ok2_def gm_ok_def)

lemma single_message_get:
  "gm_get2 (single_message m) (mh_SourceChainSelector (msg_Header m)) (mh_SequenceNumber (msg_Header m)) = Some m"
  by (simp add: single_message_def gm_get2_def)

lemma came_from_observer:
  assumes "came_from obs M (MessageID m) d" and "well_identified M" and "m \<in> M"
    and "\<forall>n. token_data_observer (obs n) supported"
  shows "length (mtd_TokenData d) = length (msg_TokenAmounts m)"
    and "i < length (msg_TokenAmounts m) \<Longrightarrow> \<not> supported (mh_SourceChainSelector (msg_Header m)) (msg_TokenAmounts m ! i) \<Longrightarrow>
      \<not> td_Supported (mtd_TokenData d ! i)"
proof -
  let ?c = "mh_SourceChainSelector (msg_Header m)" and ?s = "mh_SequenceNumber (msg_Header m)"
  obtain n td where td: "obs n (single_message m) = Ok td" "gm_get2 td ?c ?s = Some d"
    using assms(1-3) unfolding came_from_def well_identified_def by metis
  note ob = assms(4) [rule_format, of n]
  from token_data_observer.observe_entry(1) [OF ob single_message_ok td(1,2)]
  show "length (mtd_TokenData d) = length (msg_TokenAmounts m)" by (simp add: single_message_get)
  assume "i < length (msg_TokenAmounts m)" "\<not> supported ?c (msg_TokenAmounts m ! i)"
  from token_data_observer.observe_unsupported [OF ob single_message_ok td(1) single_message_get this] td(2)
  show "\<not> td_Supported (mtd_TokenData d ! i)" by (simp add: data_at_def)
qed

text \<open>C12. The background observer keeps the contract of the observer that it runs: if the identifiers of the submitted messages
  tell them apart and every message is filed under the chain and the number of its header, a result has an entry of
  the right length for every message of the call, and a token that is not supported is not marked as supported.\<close>

theorem bg_Observe_contract:
  assumes "(bg_step obs supported)\<^sup>*\<^sup>* (NewBackgroundObserver numWorkers expiration) s"
    and "(observations, Returned (Ok res)) \<in> set (bg_calls s)"
    and "\<forall>n. token_data_observer (obs n) supported" and "well_identified (submitted s)"
    and "\<forall>c q m. gm_get2 observations c q = Some m \<longrightarrow> mh_SourceChainSelector (msg_Header m) = c"
  shows "same_shape observations res \<and> (\<forall>c q m i. gm_get2 observations c q = Some m \<and> i < length (msg_TokenAmounts m) \<and>
      \<not> supported c (msg_TokenAmounts m ! i) \<longrightarrow> \<not> td_Supported (data_at res c q i))"
proof -
  have "pc_ok obs supported (submitted s) (observations, Returned (Ok res))"
    using bg_inv_reachable [OF assms(1)] assms(2) by (auto simp: bg_inv_def list_all_iff)
  then have res: "result_ok obs supported (submitted s) observations res" by simp
  have entry: "length (msg_TokenAmounts m) = length (mtd_TokenData d) \<and>
      (\<forall>i. i < length (msg_TokenAmounts m) \<and> \<not> supported c (msg_TokenAmounts m ! i) \<longrightarrow> \<not> td_Supported (mtd_TokenData d ! i))"
    if "gm_get2 observations c q = Some m" "gm_get2 res c q = Some d" for c q m d
  proof (cases "gm_get2 res c q = gm_get2 (not_ready supported observations) c q")
    case True
    with that show ?thesis by (auto simp: not_ready_def gm_get2_map_tokens nth_enumerate_eq)
  next
    case False
    with res that have "came_from obs (submitted s) (MessageID m) d" 
      using res [unfolded result_ok_def, rule_format, of c q] by auto
    moreover have "m \<in> submitted s" using assms(2) that(1) unfolding submitted_def by blast
    ultimately show ?thesis
      using came_from_observer [of obs "submitted s" m d supported, OF _ assms(4) _ assms(3)] assms(5) that(1) by simp
  qed
  have some: "(gm_get2 observations c q = None \<longrightarrow> gm_get2 res c q = None) \<and>
      (\<forall>m. gm_get2 observations c q = Some m \<longrightarrow> (\<exists>d. gm_get2 res c q = Some d))" for c q
    using res [unfolded result_ok_def, rule_format, of c q]
    by (cases "gm_get2 observations c q") (auto simp: not_ready_def gm_get2_map_tokens)
  have "same_shape observations res" unfolding same_shape_def
  proof (intro allI)
    fix c q
    show "rel_option (\<lambda>m d. length (msg_TokenAmounts m) = length (mtd_TokenData d)) (gm_get2 observations c q) (gm_get2 res c q)"
      using some [of c q] entry [of c q] by (cases "gm_get2 observations c q") auto
  qed
  moreover have "\<not> td_Supported (data_at res c q i)"
    if m: "gm_get2 observations c q = Some m" "i < length (msg_TokenAmounts m)" "\<not> supported c (msg_TokenAmounts m ! i)" for c q m i
  proof -
    obtain d where "gm_get2 res c q = Some d" using some m(1) by blast
    with entry [OF m(1) this] m(2,3) show ?thesis by (simp add: data_at_def)
  qed
  ultimately show ?thesis by blast
qed

text \<open>C14. No message is forgotten: when no call waits to send its signal and no worker holds one, the queue is empty, unless
  a worker has looked into the queue when the clock did not yet show more than the time of the message.\<close>

theorem bg_queue_drained:
  assumes "(bg_step obs supported)\<^sup>*\<^sup>* (NewBackgroundObserver numWorkers expiration) s"
    and "\<forall>cl \<in> set (bg_calls s). \<not> is_AtSignal cl" and "Signalled \<notin> set (bg_workers s)" and "bg_missed s = 0"
  shows "mq_msgs (bg_msgQueue s) = [] \<and> (\<forall>msgID. \<not> containsMsg (bg_msgQueue s) msgID)"
proof -
  have inv: "bg_inv obs supported (submitted s) s" by (rule bg_inv_reachable [OF assms(1)])
  have "filter is_AtSignal (bg_calls s) = []" "filter ((=) Signalled) (bg_workers s) = []"
    using assms(2,3) by (auto simp: filter_empty_conv)
  then have "signals s = 0" by (simp add: signals_def)
  with inv assms(4) show ?thesis by (auto simp: bg_inv_def queue_ids_def containsMsg_def)
qed

text \<open>The work that is left: what the calls and the workers still have to do.\<close>

fun call_weight :: "MessageObservations \<times> observe_pc \<Rightarrow> nat" where
  "call_weight (_, AtMessage rest _) = 8 * length rest + 1"
| "call_weight (_, AtCheck _ rest _) = 8 * length rest + 7"
| "call_weight (_, AtAppend _ rest _) = 8 * length rest + 6"
| "call_weight (_, AtSignal rest _) = 8 * length rest + 5"
| "call_weight (_, Returned _) = 0"

fun worker_weight :: "worker_pc \<Rightarrow> nat" where
  "worker_weight Signalled = 2"
| "worker_weight (Observing _) = 1"
| "worker_weight _ = 0"

definition bg_weight :: "backgroundObserver \<Rightarrow> nat" where
  "bg_weight s = sum_list (map call_weight (bg_calls s)) + sum_list (map worker_weight (bg_workers s))"

lemma call_weight_update:
  assumes "t < length (bg_calls s)" and "call_weight new < call_weight (bg_calls s ! t)"
  shows "sum_list (map call_weight ((bg_calls s)[t := new])) < sum_list (map call_weight (bg_calls s))"
  using sum_list_update_nth [OF assms(1), of call_weight new] assms(2) by linarith

lemma worker_weight_update:
  assumes "w < length (bg_workers s)" and "worker_weight new < worker_weight (bg_workers s ! w)"
  shows "sum_list (map worker_weight ((bg_workers s)[w := new])) < sum_list (map worker_weight (bg_workers s))"
  using sum_list_update_nth [OF assms(1), of worker_weight new] assms(2) by linarith

lemma bg_internal_weight: "bg_internal obs s s' \<Longrightarrow> bg_weight s' < bg_weight s"
proof (induction rule: bg_internal.induct)
  case (signal t s o' rest res w)
  then show ?case
    using sum_list_update_nth [OF signal.hyps(1), of call_weight "(o', AtMessage rest res)"]
      sum_list_update_nth [OF signal.hyps(3), of worker_weight Signalled]
    by (simp add: bg_weight_def)
qed (simp_all add: bg_weight_def call_weight_update worker_weight_update)

lemma workers_internal:
  "bg_internal obs s s' \<Longrightarrow> length (bg_workers s') = length (bg_workers s) \<and> bg_done s' = bg_done s \<and>
    (Stopped \<in> set (bg_workers s') \<longrightarrow> Stopped \<in> set (bg_workers s))"
  by (induction rule: bg_internal.induct) (auto dest: set_update_subset_insert [THEN subsetD])

lemma workers_reachable:
  "(bg_step obs supported)\<^sup>*\<^sup>* (NewBackgroundObserver n expiration) s \<Longrightarrow>
    length (bg_workers s) = n \<and> (Stopped \<in> set (bg_workers s) \<longrightarrow> bg_done s)"
proof (induction rule: rtranclp_induct)
  case (step s s')
  from step(2) step(3) show ?case
    by (induction rule: bg_step.induct) (auto dest: workers_internal)
qed (simp add: NewBackgroundObserver_def)

lemma call_can_step:
  assumes "t < length (bg_calls s)" and "bg_calls s ! t = (o', pc)" and "\<forall>r. pc \<noteq> Returned r"
    and "w < length (bg_workers s)" and "bg_workers s ! w \<noteq> Stopped" and "\<forall>n msgs. obs n msgs \<noteq> Panic"
  shows "\<exists>s'. bg_internal obs s s'"
proof (cases pc)
  case (AtMessage rest res)
  show ?thesis
  proof (cases rest)
    case Nil
    with assms(2) AtMessage show ?thesis by (blast intro: bg_internal.return [OF assms(1)])
  next
    case (Cons e rest')
    obtain c q m where e: "e = (c, q, m)" by (cases e)
    have pc: "bg_calls s ! t = (o', AtMessage ((c, q, m) # rest') res)" using assms(2) AtMessage Cons e by simp
    show ?thesis
    proof (cases "cache_get (bg_cachedTokenData s) (MessageID m)")
      case None
      then show ?thesis by (blast intro: bg_internal.missing [OF assms(1) pc])
    next
      case (Some d)
      then show ?thesis
        by (cases "SupportedAreReady d") (blast intro: bg_internal.found [OF assms(1) pc] bg_internal.internal_error [OF assms(1) pc])+
    qed
  qed
next
  case (AtCheck m rest res)
  then have pc: "bg_calls s ! t = (o', AtCheck m rest res)" using assms(2) by simp
  show ?thesis
    by (cases "containsMsg (bg_msgQueue s) (MessageID m)") (blast intro: bg_internal.queued [OF assms(1) pc] bg_internal.not_queued [OF assms(1) pc])+
next
  case (AtAppend m rest res)
  with assms(2) show ?thesis by (blast intro: bg_internal.append [OF assms(1)])
next
  case (AtSignal rest res)
  then have pc: "bg_calls s ! t = (o', AtSignal rest res)" using assms(2) by simp
  show ?thesis
  proof (cases "bg_workers s ! w")
    case Waiting
    then show ?thesis by (blast intro: bg_internal.signal [OF assms(1) pc assms(4)])
  next
    case Signalled
    show ?thesis
    proof (cases "dequeue (\<lambda>_. 0) (bg_msgQueue s)")
      case None
      then show ?thesis by (blast intro: bg_internal.take_none [OF assms(4) Signalled])
    next
      case (Some p)
      then show ?thesis by (cases p) (blast intro: bg_internal.take_msg [OF assms(4) Signalled])
    qed
  next
    case (Observing m)
    then show ?thesis using assms(6) by (blast intro: bg_internal.observed [OF assms(4)])
  qed (use assms(5) in simp)
qed (use assms(3) in simp)

text \<open>C13. While the observer is open and has a worker, every call of \<open>Observe\<close> returns, provided that the underlying observer
  does not panic: each step of a call or of a worker reduces the work that is left, and when no such step is possible
  every call has returned a result.\<close>

theorem bg_Observe_returns:
  assumes "(bg_step obs supported)\<^sup>*\<^sup>* (NewBackgroundObserver numWorkers expiration) s"
    and "0 < numWorkers" and "\<not> bg_done s" and "\<forall>n msgs. obs n msgs \<noteq> Panic"
  shows "(\<forall>s'. bg_internal obs s s' \<longrightarrow> bg_weight s' < bg_weight s \<and> \<not> bg_done s') \<and>
    ((\<forall>s'. \<not> bg_internal obs s s') \<longrightarrow> (\<forall>(observations, pc) \<in> set (bg_calls s). \<exists>res. pc = Returned (Ok res)))"
proof (intro conjI allI impI ballI)
  fix s' assume "bg_internal obs s s'"
  then show "bg_weight s' < bg_weight s" "\<not> bg_done s'" using bg_internal_weight workers_internal assms(3) by blast+
next
  fix cl assume stuck: "\<forall>s'. \<not> bg_internal obs s s'" and cl: "cl \<in> set (bg_calls s)"
  obtain o' pc where pc: "cl = (o', pc)" by (cases cl)
  obtain t where t: "t < length (bg_calls s)" "bg_calls s ! t = (o', pc)" using cl pc by (metis in_set_conv_nth)
  have w: "0 < length (bg_workers s)" and "Stopped \<notin> set (bg_workers s)"
    using workers_reachable [OF assms(1)] assms(2,3) by auto
  then have "bg_workers s ! 0 \<noteq> Stopped" using nth_mem by metis
  note w = w this
  obtain r where r: "pc = Returned r" using call_can_step [where obs = obs, OF t _ w assms(4)] stuck by blast
  have "pc_ok obs supported (submitted s) (o', Returned r)"
    using bg_inv_reachable [OF assms(1)] cl unfolding pc r by (auto simp: bg_inv_def list_all_iff)
  then show "case cl of (observations, pc) \<Rightarrow> \<exists>res. pc = Returned (Ok res)" by (auto simp: pc r)
qed

section \<open>Example\<close>

text \<open>One worker over the USDC observer. The first call finds nothing and queues the message; the worker takes it, observes it
  and stores the data; the second call finds them.\<close>

definition ex_bg_msg :: Message where
  "ex_bg_msg = Message_zero\<lparr>msg_Header := (msg_Header Message_zero)\<lparr>mh_SourceChainSelector := 1, mh_SequenceNumber := 7\<rparr>,
     msg_TokenAmounts := [ex_token 1, ex_token 3]\<rparr>"

abbreviation ex_bg_obs :: "nat \<Rightarrow> MessageObservations \<Rightarrow> TokenDataObservations result" where
  "ex_bg_obs \<equiv> \<lambda>n. usdc_Observe ex_addrString ex_usdc"

abbreviation ex_bg_supported :: "ChainSelector \<Rightarrow> RampTokenAmount \<Rightarrow> bool" where
  "ex_bg_supported \<equiv> usdc_IsTokenSupported ex_addrString ex_usdc"

definition ex_bg_msgs :: MessageObservations where
  "ex_bg_msgs = [(1, [(7, ex_bg_msg)])]"

definition ex_bg_first :: TokenDataObservations where
  "ex_bg_first = not_ready ex_bg_supported ex_bg_msgs"

definition ex_bg_data :: MessageTokenData where
  "ex_bg_data = \<lparr>mtd_TokenData = [NewSuccessTokenData [4, 5], NotSupportedTokenData]\<rparr>"

definition ex_bg_state :: "observe_pc list \<Rightarrow> worker_pc \<Rightarrow> msgQueue \<Rightarrow> inMemTokenDataCache \<Rightarrow> backgroundObserver" where
  "ex_bg_state pcs w q c = \<lparr>bg_msgQueue = q, bg_cachedTokenData = c, bg_calls = map (Pair ex_bg_msgs) pcs, bg_workers = [w], bg_done = False, bg_missed = 0\<rparr>"

definition ex_bg_queue :: msgQueue where
  "ex_bg_queue = enqueue_locked ex_bg_msg 0 0 0 newMsgQueue"

definition ex_bg_cache :: inMemTokenDataCache where
  "ex_bg_cache = cache_set (MessageID ex_bg_msg) ex_bg_data 2 (newInMemObservationsCache 60)"

definition ex_bg_end :: backgroundObserver where
  "ex_bg_end = ex_bg_state [Returned (Ok ex_bg_first), Returned (Ok (gm_put2 1 7 ex_bg_data ex_bg_first))] Waiting newMsgQueue ex_bg_cache"

lemma ex_bg_facts:
  "gm_ok2 ex_bg_msgs" "entries ex_bg_msgs = [(1, 7, ex_bg_msg)]"
  "cache_get (newInMemObservationsCache 60) (MessageID ex_bg_msg) = None"
  "cache_get ex_bg_cache (MessageID ex_bg_msg) = Some ex_bg_data" "SupportedAreReady ex_bg_data"
  "\<not> containsMsg newMsgQueue (MessageID ex_bg_msg)"
  "dequeue (\<lambda>_. 1) ex_bg_queue = Some (ex_bg_msg, newMsgQueue)"
  by (simp_all add: ex_bg_msgs_def gm_ok2_def gm_ok_def entries_def newInMemObservationsCache_def cache_get_def ex_bg_cache_def cache_set_def
      ex_bg_data_def SupportedAreReady_def NewSuccessTokenData_def NotSupportedTokenData_def containsMsg_def newMsgQueue_def
      dequeue_def ex_bg_queue_def enqueue_locked_def)

lemma ex_bg_observed: "worker_result ex_bg_msg (usdc_Observe ex_addrString ex_usdc (single_message ex_bg_msg)) = Some ex_bg_data"
  "usdc_Observe ex_addrString ex_usdc (single_message ex_bg_msg) \<noteq> Panic"
  by code_simp+

lemma ex_bg_signalled: "(bg_step ex_bg_obs ex_bg_supported)\<^sup>*\<^sup>* (NewBackgroundObserver 1 60)
    (ex_bg_state [Returned (Ok ex_bg_first)] Signalled ex_bg_queue (newInMemObservationsCache 60))"
proof -
  let ?step = "bg_step ex_bg_obs ex_bg_supported"
  let ?e = "(1, 7, ex_bg_msg) :: entry"
  let ?c = "newInMemObservationsCache 60"
  let ?q = newMsgQueue
  let ?done = "Returned (Ok ex_bg_first)"
  note call = bg_step.call [OF ex_bg_facts(1), of ex_bg_obs ex_bg_supported, unfolded ex_bg_facts(2), folded ex_bg_first_def]
  note step = bg_step.internal [of ex_bg_obs _ _ ex_bg_supported]
  have "?step (NewBackgroundObserver 1 60) (ex_bg_state [AtMessage [?e] ex_bg_first] Waiting ?q ?c)"
    using call [of "NewBackgroundObserver 1 60"] by (simp add: NewBackgroundObserver_def ex_bg_state_def)
  then have "?step\<^sup>*\<^sup>* (NewBackgroundObserver 1 60) (ex_bg_state [AtMessage [?e] ex_bg_first] Waiting ?q ?c)" ..
  also have "?step \<dots> (ex_bg_state [AtCheck ex_bg_msg [] ex_bg_first] Waiting ?q ?c)"
    using step [OF bg_internal.missing [of 0 "ex_bg_state [AtMessage [?e] ex_bg_first] Waiting ?q ?c" ex_bg_msgs 1 7 ex_bg_msg "[]" ex_bg_first]]
    by (simp add: ex_bg_state_def ex_bg_facts)
  also (rtranclp.rtrancl_into_rtrancl) have "?step \<dots> (ex_bg_state [AtAppend ex_bg_msg [] ex_bg_first] Waiting ?q ?c)"
    using step [OF bg_internal.not_queued [of 0 "ex_bg_state [AtCheck ex_bg_msg [] ex_bg_first] Waiting ?q ?c" ex_bg_msgs ex_bg_msg "[]" ex_bg_first]]
    by (simp add: ex_bg_state_def ex_bg_facts)
  also (rtranclp.rtrancl_into_rtrancl) have "?step \<dots> (ex_bg_state [AtSignal [] ex_bg_first] Waiting ex_bg_queue ?c)"
    using step [OF bg_internal.append [of 0 "ex_bg_state [AtAppend ex_bg_msg [] ex_bg_first] Waiting ?q ?c" ex_bg_msgs ex_bg_msg "[]" ex_bg_first _ 0 0]]
    by (simp add: ex_bg_state_def ex_bg_queue_def)
  also (rtranclp.rtrancl_into_rtrancl) have "?step \<dots> (ex_bg_state [AtMessage [] ex_bg_first] Signalled ex_bg_queue ?c)"
    using step [OF bg_internal.signal [of 0 "ex_bg_state [AtSignal [] ex_bg_first] Waiting ex_bg_queue ?c" ex_bg_msgs "[]" ex_bg_first 0]]
    by (simp add: ex_bg_state_def)
  also (rtranclp.rtrancl_into_rtrancl) have "?step \<dots> (ex_bg_state [?done] Signalled ex_bg_queue ?c)"
    using step [OF bg_internal.return [of 0 "ex_bg_state [AtMessage [] ex_bg_first] Signalled ex_bg_queue ?c" ex_bg_msgs ex_bg_first]]
    by (simp add: ex_bg_state_def)
  finally (rtranclp.rtrancl_into_rtrancl) show ?thesis .
qed

lemma ex_bg_run: "(bg_step ex_bg_obs ex_bg_supported)\<^sup>*\<^sup>* (NewBackgroundObserver 1 60) ex_bg_end"
proof -
  let ?step = "bg_step ex_bg_obs ex_bg_supported"
  let ?e = "(1, 7, ex_bg_msg) :: entry"
  let ?c = "newInMemObservationsCache 60"
  let ?q = newMsgQueue
  let ?done = "Returned (Ok ex_bg_first)"
  note call = bg_step.call [OF ex_bg_facts(1), of ex_bg_obs ex_bg_supported, unfolded ex_bg_facts(2), folded ex_bg_first_def]
  note step = bg_step.internal [of ex_bg_obs _ _ ex_bg_supported]
  have "?step\<^sup>*\<^sup>* (NewBackgroundObserver 1 60) (ex_bg_state [?done] Signalled ex_bg_queue ?c)" by (rule ex_bg_signalled)
  also have "?step \<dots> (ex_bg_state [?done] (Observing ex_bg_msg) ?q ?c)"
    using step [OF bg_internal.take_msg [of 0 "ex_bg_state [?done] Signalled ex_bg_queue ?c" "\<lambda>_. 1" ex_bg_msg ?q]]
    by (simp add: ex_bg_state_def ex_bg_facts)
  also (rtranclp.rtrancl_into_rtrancl) have "?step \<dots> (ex_bg_state [?done] Waiting ?q ex_bg_cache)"
    using step [OF bg_internal.observed [of 0 "ex_bg_state [?done] (Observing ex_bg_msg) ?q ?c" ex_bg_msg _ ex_bg_obs 0 2, OF _ _ refl]]
    by (simp add: ex_bg_state_def ex_bg_observed ex_bg_cache_def)
  also (rtranclp.rtrancl_into_rtrancl) have "?step \<dots> (ex_bg_state [?done, AtMessage [?e] ex_bg_first] Waiting ?q ex_bg_cache)"
    using call [of "ex_bg_state [?done] Waiting ?q ex_bg_cache"] by (simp add: ex_bg_state_def)
  also (rtranclp.rtrancl_into_rtrancl) have "?step \<dots> (ex_bg_state [?done, AtMessage [] (gm_put2 1 7 ex_bg_data ex_bg_first)] Waiting ?q ex_bg_cache)"
    using step [OF bg_internal.found [of 1 "ex_bg_state [?done, AtMessage [?e] ex_bg_first] Waiting ?q ex_bg_cache" ex_bg_msgs 1 7 ex_bg_msg "[]" ex_bg_first ex_bg_data]]
    by (simp add: ex_bg_state_def ex_bg_facts)
  also (rtranclp.rtrancl_into_rtrancl) have "?step \<dots> ex_bg_end"
    using step [OF bg_internal.return [of 1 "ex_bg_state [?done, AtMessage [] (gm_put2 1 7 ex_bg_data ex_bg_first)] Waiting ?q ex_bg_cache" ex_bg_msgs
        "gm_put2 1 7 ex_bg_data ex_bg_first"]]
    by (simp add: ex_bg_state_def ex_bg_end_def)
  finally (rtranclp.rtrancl_into_rtrancl) show ?thesis .
qed

text \<open>A clock that does not advance between \<open>enqueue\<close> and \<open>dequeue\<close>: the signal is used up, the message stays in the queue, and
  since its identifier stays in the set no later call sends another signal for it.\<close>

lemma ex_bg_lost:
  defines "lost \<equiv> (ex_bg_state [Returned (Ok ex_bg_first)] Waiting ex_bg_queue (newInMemObservationsCache 60))\<lparr>bg_missed := 1\<rparr>"
  shows "(bg_step ex_bg_obs ex_bg_supported)\<^sup>*\<^sup>* (NewBackgroundObserver 1 60) lost"
    and "\<not> bg_internal ex_bg_obs lost s'" and "containsMsg (bg_msgQueue lost) (MessageID ex_bg_msg)"
proof -
  let ?s = "ex_bg_state [Returned (Ok ex_bg_first)] Signalled ex_bg_queue (newInMemObservationsCache 60)"
  have "dequeue (\<lambda>_. 0) ex_bg_queue = None" "mq_msgs ex_bg_queue \<noteq> []"
    by (simp_all add: dequeue_def ex_bg_queue_def enqueue_locked_def newMsgQueue_def)
  then have "bg_step ex_bg_obs ex_bg_supported ?s lost"
    using bg_step.internal [OF bg_internal.take_none [of 0 ?s "\<lambda>_. 0" ex_bg_obs]] by (simp add: ex_bg_state_def lost_def)
  with ex_bg_signalled show "(bg_step ex_bg_obs ex_bg_supported)\<^sup>*\<^sup>* (NewBackgroundObserver 1 60) lost"
    by (rule rtranclp.rtrancl_into_rtrancl)
  show "\<not> bg_internal ex_bg_obs lost s'" by (rule notI, erule bg_internal.cases) (auto simp: lost_def ex_bg_state_def)
  show "containsMsg (bg_msgQueue lost) (MessageID ex_bg_msg)"
    by (simp add: lost_def ex_bg_state_def ex_bg_queue_def enqueue_locked_def containsMsg_def newMsgQueue_def)
qed

text \<open>After \<open>Close\<close> a call that waits to send its signal waits for ever.\<close>

lemma bg_closed_blocks:
  assumes "\<forall>w \<in> set (bg_workers s). w = Stopped" and "\<forall>cl \<in> set (bg_calls s). is_AtSignal cl \<or> (\<exists>o' r. cl = (o', Returned r))"
  shows "\<not> bg_internal obs s s'"
proof
  assume "bg_internal obs s s'"
  then show False using assms by (cases rule: bg_internal.cases) (fastforce dest: nth_mem)+
qed

lemma ex_bg_contract: "\<forall>n. token_data_observer (ex_bg_obs n) ex_bg_supported"
  by (intro allI) (rule usdc.token_data_observer_axioms)

lemma ex_bg_submitted: "submitted ex_bg_end = {ex_bg_msg}"
  by (auto simp: submitted_def ex_bg_end_def ex_bg_state_def ex_bg_msgs_def gm_get2_def split: if_splits)

theorem bg_Observe_contract_witness:
  "same_shape ex_bg_msgs (gm_put2 1 7 ex_bg_data ex_bg_first) \<and> \<not> td_Supported (data_at (gm_put2 1 7 ex_bg_data ex_bg_first) 1 7 (Suc 0))"
proof -
  have ret: "(ex_bg_msgs, Returned (Ok (gm_put2 1 7 ex_bg_data ex_bg_first))) \<in> set (bg_calls ex_bg_end)"
    by (simp add: ex_bg_end_def ex_bg_state_def)
  have wid: "well_identified (submitted ex_bg_end)" by (simp add: well_identified_def ex_bg_submitted)
  have hdr: "\<forall>c q m. gm_get2 ex_bg_msgs c q = Some m \<longrightarrow> mh_SourceChainSelector (msg_Header m) = c"
    by (auto simp: ex_bg_msgs_def gm_get2_def ex_bg_msg_def split: if_splits)
  have m: "gm_get2 ex_bg_msgs 1 7 = Some ex_bg_msg" "Suc 0 < length (msg_TokenAmounts ex_bg_msg)"
    by (simp_all add: ex_bg_msgs_def gm_get2_def ex_bg_msg_def)
  have "\<not> ex_bg_supported 1 (msg_TokenAmounts ex_bg_msg ! Suc 0)" by code_simp
  with bg_Observe_contract [OF ex_bg_run ret ex_bg_contract wid hdr] m show ?thesis by blast
qed

theorem bg_queue_drained_witness: "mq_msgs (bg_msgQueue ex_bg_end) = [] \<and> (\<forall>msgID. \<not> containsMsg (bg_msgQueue ex_bg_end) msgID)"
  by (rule bg_queue_drained [OF ex_bg_run]) (simp_all add: ex_bg_end_def ex_bg_state_def)

lemma fetchUSDCEventMessages_no_panic:
  "(\<And>a b m. uso_usdcMessageReader u a b m \<noteq> Panic) \<Longrightarrow> fetchUSDCEventMessages u ms \<noteq> Panic"
  by (induction u ms rule: fetchUSDCEventMessages.induct) (auto simp: rbind_Panic_iff)

lemma map_values_r_no_panic:
  assumes "\<And>v. f v \<noteq> Panic"
  shows "map_values_r f m \<noteq> Panic"
proof -
  have "traverse_r (\<lambda>(k, v). rbind (f v) (\<lambda>w. Ok (k, w))) m \<noteq> Panic"
    using assms by (induction m) (auto simp: rbind_Panic_iff)
  then show ?thesis by (simp add: map_values_r_def)
qed

lemma ex_usdc_no_panic: "\<forall>n msgs. ex_bg_obs n msgs \<noteq> Panic"
proof -
  have "fetchUSDCEventMessages ex_usdc ms \<noteq> Panic" for ms by (rule fetchUSDCEventMessages_no_panic) (simp add: ex_usdc_def)
  moreover have "uso_attestationClient ex_usdc ms \<noteq> Panic" for ms
    unfolding ex_usdc_def usdc_Attestations_def
    by (simp, intro map_values_r_no_panic) (simp add: fetchSingleMessage_def attestationFromResponse_def httpResponse_validate_def attestationToBytes_def)
  ultimately show ?thesis by (simp add: usdc_Observe_def rbind_Panic_iff)
qed

lemma ex_bg_at_rest: "\<not> bg_internal ex_bg_obs ex_bg_end s'"
  by (rule notI, erule bg_internal.cases) (auto simp: ex_bg_end_def ex_bg_state_def less_Suc_eq)

theorem bg_Observe_returns_witness:
  "list_all (\<lambda>(observations, pc). \<exists>res. pc = Returned (Ok res)) (bg_calls ex_bg_end)"
proof -
  have "\<not> bg_done ex_bg_end" by (simp add: ex_bg_end_def ex_bg_state_def)
  from bg_Observe_returns [OF ex_bg_run _ this ex_usdc_no_panic] ex_bg_at_rest show ?thesis by (simp add: list_all_iff)
qed

end
