(* ===== verification/Spec2Isabelle.thy ===== *)
theory Spec2Isabelle
  imports TokenHttp TokenBackground
begin

text \<open>
  A verification development for the off-chain plugins of Chainlink CCIP (the Go code of the repository).

  \<^bold>\<open>The program.\<close> CCIP moves messages between chains. A DON of oracles runs OCR3 rounds. In each round of the
  commit plugin every oracle observes the source and destination chains, the observations are validated, and every
  oracle computes the same outcome from them; outcomes become reports, which are checked once more before
  they are accepted and transmitted. The plugin is composed of four processors: merkle roots
  (commit/merkleroot), token prices (commit/tokenprice), gas prices (commit/chainfee) and contract
  discovery (internal/plugincommon/discovery). They share the agreement functions of
  internal/plugincommon/consensus, the view of the home chain (internal/reader/home\_chain.go) and the chain
  support built on it. The execute plugin (execute) runs in cycles of three rounds: it collects commit reports that are not
  executed, then their messages with hashes and token data, then the nonces of the senders, and builds execute reports with
  merkle proofs within limits of size and gas. Up to F oracles of the DON, and up to f oracles of a chain, can send anything.

  \<^bold>\<open>The theories.\<close>
  \<^item> Prelude: machine integers, results (\<open>Ok\<close>, \<open>Error\<close>, \<open>Panic\<close>), Go maps as association lists, loops that stop at
    the first failure, sorting; the collections \<open>go_simps\<close> and \<open>det_intros\<close>.
  \<^item> CcipTypes: the data of the imported packages, and their functions as fields of \<open>ccip_lib\<close>, with the
    predicates (\<open>limit_spec\<close>, \<open>report_empty_spec\<close>, \<open>sorted_slice_spec\<close>, \<open>non_cursed_spec\<close>) a theorem relies on.
  \<^item> Consensus (threshold.go, min\_observation.go, oracle\_min\_observation.go, consensus.go): the counters and the
    agreement functions. The locale of counters is interpreted on both counters, the locale \<open>order_statistic\<close> on the
    two medians and on the ordered consensus.
  \<^item> Libs (internal/libs): deviation, gas price conversion, bit flags.
  \<^item> HomeChain (home\_chain.go, chain\_support.go, transmitters.go, curses.go, config\_digest.go, validations.go): the
    poller as a state machine, its views, and the transmission schedule.
  \<^item> PluginCommon: attributed observations, the chain reader interface, the locale \<open>plugin_processor\<close>.
  \<^item> MerkleRoot and MerkleRootObserve (commit/merkleroot): the state machine of \<open>Outcome\<close> and the observers.
  \<^item> CommitConfig (pluginconfig/commit.go): defaults and validation.
  \<^item> ChainFee (commit/chainfee) and TokenPrice (commit/tokenprice): observers with background caches, validation,
    outcome.
  \<^item> Discovery: contract addresses and the guard of the syncer; ReaderDiscovery (pkg/reader/ccip.go): how the chain reader
    discovers the contracts that an oracle observes.
  \<^item> CommitReport (commit/internal/builder, commit/committypes): cutting an outcome into reports.
  \<^item> CommitPlugin (commit/plugin.go, plugin\_old.go, report.go, validate\_observation.go): the composition.
  \<^item> Codec and ExecCodec (pkg/ocrtypecodec/v1): the wire format of observations and outcomes of the two plugins.
  \<^item> ExecTypes (execute/exectypes): the data of the execute plugin, its imported functions as \<open>exec_lib\<close>, and \<open>for_seq\<close>, the
    loop over a range of sequence numbers.
  \<^item> ExecCache (execute/internal/cache): the caches of commit roots, commit reports and messages in flight, on a third party
    cache that a locale describes.
  \<^item> ExecPending (execute/plugin.go, plugin\_functions.go): which commit reports are pending.
  \<^item> ExecConsensus (plugin\_functions.go): agreement on commit reports, messages, hashes, token data and nonces.
  \<^item> ExecBuilder and ExecReport (execute/report): the checks of messages, the construction of chain reports, and the builder.
  \<^item> ExecConfig (pluginconfig/execute.go, token.go): defaults and validation.
  \<^item> ExecValidate (plugin\_functions.go, plugin.go): the checks of an observation.
  \<^item> ExecPlugin (plugin.go, outcome.go, observation.go): the plugin; ExecAccept, ExecOutcome and ExecObserve hold what is
    proved of its reports, outcomes and observations.
  \<^item> TokenObservers (execute/tokendata: observer, usdc, lbtc): the composite observer of token data and the observers of two
    issuers with their attestation clients. The locale \<open>token_data_observer\<close> is the contract of the interface.
  \<^item> CctpV2 (execute/tokendata/cctp/v2): the observer of CCTP v2 transfers, which shares attestations out to the tokens.
  \<^item> TokenBackground (observer\_background.go): the observer that fills a cache in the background, as a step relation.
  \<^item> TokenHttp (execute/tokendata/http): the HTTP client with its cool down.

  \<^bold>\<open>How state and operations correspond.\<close> A struct is a record whose fields carry a short prefix; a method that
  changes its receiver returns it updated. What the code receives as an interface (chain reader, price reader, codecs,
  hasher) is a record of its answers, and what it imports is an argument. Go's \<open>int\<close> is an integer whose
  overflowing operations pass through \<open>s64\<close> or \<open>u64i\<close>; \<open>uint64\<close> is a 64 bit word. A slice index out of range and a nil
  dereference are \<open>Panic\<close>. A map is an association list in the order in which \<open>range\<close> visits it, so
  a theorem about a definition that ranges over a map holds for every order. Goroutines are explicit: the background
  caches of prices take a list of synchronisations that happened; the observer of sequence numbers, the syncer, the background
  observer of token data and the requests of the HTTP client are step relations.

  \<^bold>\<open>What the lemmas show.\<close>
  \<^item> Safety against faulty oracles: agreed values, selected ranges, prices and addresses are backed by honest
    observations (Consensus, MerkleRoot, TokenPrice, Discovery, CommitPlugin).
  \<^item> Liveness: honest observations pass validation, enough honest observations are decided, waiting for a report or for
    prices ends after the configured number of rounds.
  \<^item> Determinism: outcomes do not depend on the order of maps, for each processor and for the plugin.
  \<^item> Invariants of reachable states: the merkle root state machine, the outcomes of the execute plugin, the home chain
    poller, the syncer, the cache of commit reports, the background observer.
  \<^item> Exact conditions: validation, acceptance of reports, price updates, default configuration, panics of the decoder.
  \<^item> Execute reports: they stay within every limit, hold only pending messages with proofs for the committed root, and the
    infos beside them name these roots.
  \<^item> Token data: the composite observer refines the choice of the first ready answer, the background observer keeps the
    contract of the observer it runs and every call of it returns, each attestation is given out once.
  \<^item> Round trips and refinement: packed fees, bit flags, the codec, asynchronous observers, report building.

  \<^bold>\<open>Bounds.\<close> Loops are structural recursions or have a measure. Loops that may not end take no fuel; they are partial
  functions whose result is \<open>None\<close> when they do not return: pagination of the home chain, proved to return when some page is
  short; the main loop of the execute report builder, proved to return always; and the loops over ranges of sequence numbers,
  proved to return unless the range ends at the largest number. Fault bounds are assumed below 2^62 where a threshold is
  computed, so that \<open>2f+1\<close> does not wrap, and below 2^31 where they come from the wire.

  \<^bold>\<open>Not modelled.\<close> The choice of token data observers from the configuration (the plugin takes the answer of the observers as a
  parameter, and the composite takes the list of observers),
  the readers but for the discovery of contracts, and the chain accessors (pkg/reader, pkg/chainaccessor, pkg/contractreader), the factories, metrics and
  logging, the deprecated JSON codecs, the generated bindings (chains/evm/gobindings) and the contracts of each chain
  family, deployment tooling, and the command line tools. Timers, contexts and service life cycles are I/O around the modelled
  operations. Slices are values: two commit reports do not share a backing array.
\<close>

end
